(* ===== verification/Prelude.thy ===== *)
theory Prelude
  imports Main "HOL-Library.Word" "HOL-Library.AList" "HOL-Library.Multiset" "HOL-Library.Sublist"
begin

text \<open>
  Shared vocabulary of the development: the C++ integer types the components use (checked and
  converted 32-bit arithmetic), undefined behaviour as an error value, association lists as
  \<open>std::unordered_map\<close>, and the list lemmas that more than one component needs.
\<close>

named_theorems cxx_defs \<open>definitions of the C++ arithmetic helpers\<close>

section \<open>Error codes\<close>

text \<open>\<open>ErrorCode\<close> of \<open>types.h\<close>.\<close>

datatype error_code =
    Ok | InvalidArgument | NotFound | NotImplemented | OutOfMemory | BackendError | ConfigError
  | PluginError | IoError | Unavailable | InternalError

fun error_code_num :: "error_code \<Rightarrow> nat" where
  "error_code_num Ok = 0"
| "error_code_num InvalidArgument = 1"
| "error_code_num NotFound = 2"
| "error_code_num NotImplemented = 3"
| "error_code_num OutOfMemory = 4"
| "error_code_num BackendError = 5"
| "error_code_num ConfigError = 6"
| "error_code_num PluginError = 7"
| "error_code_num IoError = 8"
| "error_code_num Unavailable = 9"
| "error_code_num InternalError = 99"

section \<open>Undefined behaviour and checked arithmetic\<close>

datatype ub = DivByZero | SignedOverflow | OutOfRange | AssertFail | NullDeref | Dangling

type_synonym 'a exec = "ub + 'a"

definition in_s32 :: "int \<Rightarrow> bool" where
  "in_s32 x \<longleftrightarrow> - 2147483648 \<le> x \<and> x \<le> 2147483647"

definition s32 :: "int \<Rightarrow> int exec" where
  "s32 x = (if in_s32 x then Inr x else Inl SignedOverflow)"

definition cast_s32 :: "int \<Rightarrow> int" where
  "cast_s32 x = ((x + 2147483648) mod 4294967296) - 2147483648"

definition cast_u16 :: "int \<Rightarrow> int" where
  "cast_u16 x = x mod 65536"

definition cast_u32 :: "int \<Rightarrow> int" where
  "cast_u32 x = x mod 4294967296"

definition tdiv :: "int \<Rightarrow> int \<Rightarrow> int" where
  "tdiv a b = (if 0 \<le> a \<longleftrightarrow> 0 \<le> b then \<bar>a\<bar> div \<bar>b\<bar> else - (\<bar>a\<bar> div \<bar>b\<bar>))"

definition tmod :: "int \<Rightarrow> int \<Rightarrow> int" where
  "tmod a b = a - tdiv a b * b"

lemmas cxx_arith [cxx_defs] = in_s32_def s32_def cast_s32_def cast_u16_def cast_u32_def

lemma tdiv_nonneg [simp]: "0 \<le> a \<Longrightarrow> 0 < b \<Longrightarrow> tdiv a b = a div b"
  by (simp add: tdiv_def)

lemma tmod_nonneg [simp]: "0 \<le> a \<Longrightarrow> 0 < b \<Longrightarrow> tmod a b = a mod b"
  by (simp add: tmod_def minus_div_mult_eq_mod)

lemma s32_ok [simp]: "in_s32 x \<Longrightarrow> s32 x = Inr x"
  by (simp add: s32_def)

lemma s32_Inr_iff: "s32 x = Inr y \<longleftrightarrow> in_s32 x \<and> y = x"
  by (auto simp: s32_def)

lemma cast_s32_id: "in_s32 x \<Longrightarrow> cast_s32 x = x"
  by (simp add: cast_s32_def in_s32_def)

lemma cast_u16_id: "0 \<le> x \<Longrightarrow> x < 65536 \<Longrightarrow> cast_u16 x = x"
  by (simp add: cast_u16_def)

lemma cast_u16_range: "0 \<le> cast_u16 x \<and> cast_u16 x < 65536"
  by (simp add: cast_u16_def)

definition ebind :: "'a exec \<Rightarrow> ('a \<Rightarrow> 'b exec) \<Rightarrow> 'b exec" where
  "ebind m f = (case m of Inl e \<Rightarrow> Inl e | Inr x \<Rightarrow> f x)"

lemma ebind_Inr [simp]: "ebind (Inr x) f = f x"
  by (simp add: ebind_def)

lemma ebind_Inl [simp]: "ebind (Inl e) f = Inl e"
  by (simp add: ebind_def)

lemma ebind_eq_Inr: "ebind m f = Inr y \<longleftrightarrow> (\<exists>x. m = Inr x \<and> f x = Inr y)"
  by (cases m) auto

section \<open>Association lists as unordered maps\<close>

text \<open>
  An \<open>std::unordered_map\<close> whose contents are summed over is kept as an association list with
  distinct keys; \<^const>\<open>AList.update\<close> and \<^const>\<open>AList.delete\<close> are its insert and erase.
\<close>

lemma map_of_update [simp]: "map_of (AList.update k v xs) = (map_of xs)(k \<mapsto> v)"
  by (rule update_conv')

lemma map_of_delete [simp]: "map_of (AList.delete k xs) = (map_of xs)(k := None)"
  by (rule delete_conv')

lemma distinct_keys_update [simp]:
  "distinct (map fst xs) \<Longrightarrow> distinct (map fst (AList.update k v xs))"
  by (rule distinct_update)

lemma distinct_keys_delete [simp]:
  "distinct (map fst xs) \<Longrightarrow> distinct (map fst (AList.delete k xs))"
  by (rule distinct_delete)

lemma mset_update_new:
  "map_of xs k = None \<Longrightarrow> mset (AList.update k v xs) = add_mset (k, v) (mset xs)"
  by (induction xs) (auto split: if_splits)

lemma delete_absent: "map_of xs k = None \<Longrightarrow> AList.delete k xs = xs"
  by (induction xs) (auto split: if_splits)

lemma mset_delete_present:
  "distinct (map fst xs) \<Longrightarrow> map_of xs k = Some v \<Longrightarrow>
   mset xs = add_mset (k, v) (mset (AList.delete k xs))"
proof (induction xs)
  case Nil
  then show ?case by simp
next
  case (Cons x xs)
  show ?case
  proof (cases "fst x = k")
    case True
    with Cons.prems have "map_of xs k = None"
      by (auto simp: map_of_eq_None_iff)
    with True Cons.prems show ?thesis
      by (cases x) (simp add: delete_absent)
  next
    case False
    with Cons show ?thesis by (cases x) simp
  qed
qed

lemma mset_update_present:
  "distinct (map fst xs) \<Longrightarrow> map_of xs k = Some w \<Longrightarrow>
   mset (AList.update k v xs) = add_mset (k, v) (mset (AList.delete k xs))"
proof (induction xs)
  case Nil
  then show ?case by simp
next
  case (Cons x xs)
  show ?case
  proof (cases "fst x = k")
    case True
    with Cons.prems have "map_of xs k = None"
      by (auto simp: map_of_eq_None_iff)
    with True show ?thesis by (cases x) (simp add: delete_absent)
  next
    case False
    with Cons show ?thesis by (cases x) simp
  qed
qed

section \<open>Delimited text\<close>

lemma takeWhile_stop: "c \<notin> set k \<Longrightarrow> takeWhile (\<lambda>x. x \<noteq> c) (k @ c # xs) = k"
  by (induction k) auto

lemma split_at_char: "c \<notin> set a \<Longrightarrow> c \<notin> set b \<Longrightarrow> a @ c # x = b @ c # y \<longleftrightarrow> a = b \<and> x = y"
proof (induction a arbitrary: b)
  case Nil
  then show ?case by (cases b) auto
next
  case (Cons d a)
  then show ?case by (cases b) auto
qed

section \<open>Decimal numbers\<close>

text \<open>\<open>std::to_string\<close> and \<open>operator<<\<close> on integers.\<close>

definition digit_char :: "nat \<Rightarrow> char" where
  "digit_char d = char_of (48 + d)"

fun show_nat :: "nat \<Rightarrow> string" where
  "show_nat n = (if n < 10 then [digit_char n] else show_nat (n div 10) @ [digit_char (n mod 10)])"

declare show_nat.simps [simp del]

definition show_int :: "int \<Rightarrow> string" where
  "show_int i = (if i < 0 then CHR ''-'' # show_nat (nat (- i)) else show_nat (nat i))"

lemma show_nat_nonempty: "show_nat n \<noteq> []"
  by (subst show_nat.simps) simp

end
