(* ===== verification/Guardrail_Policy.thy ===== *)
theory Guardrail_Policy
  imports Prelude
begin

text \<open>
  \<open>src/policy/guardrail_policy.cpp\<close>: the request-level limits derived from the guardrail
  preset, the check that a request respects them and the clamp of its token count.
  \<open>int\<close> and \<open>int64_t\<close> values are only compared and copied here, so they are \<^typ>\<open>int\<close>.
\<close>

section \<open>Constraints\<close>

record request_constraints =
  rc_max_tokens :: int
  rc_max_ctx_tokens :: int
  rc_allow_overcommit :: bool

definition constraints_for_preset :: "string \<Rightarrow> request_constraints" where
  "constraints_for_preset preset =
     (if preset = ''strict'' then
        \<lparr>rc_max_tokens = 2048, rc_max_ctx_tokens = 4096, rc_allow_overcommit = False\<rparr>
      else if preset = ''balanced'' then
        \<lparr>rc_max_tokens = 4096, rc_max_ctx_tokens = 16384, rc_allow_overcommit = False\<rparr>
      else if preset = ''relaxed'' then
        \<lparr>rc_max_tokens = 16384, rc_max_ctx_tokens = 65536, rc_allow_overcommit = True\<rparr>
      else if preset = ''off'' then
        \<lparr>rc_max_tokens = 0, rc_max_ctx_tokens = 0, rc_allow_overcommit = True\<rparr>
      else
        \<lparr>rc_max_tokens = 4096, rc_max_ctx_tokens = 16384, rc_allow_overcommit = False\<rparr>)"

text \<open>
  \<open>check_request\<close> returns the verdict and the new content of \<open>out_violation\<close>, which it
  leaves as it was (the argument \<open>old\<close>) when the request is accepted.
\<close>

definition check_request ::
  "request_constraints \<Rightarrow> int \<Rightarrow> int \<Rightarrow> string \<Rightarrow> bool \<times> string" where
  "check_request c requested_max_tokens requested_ctx_tokens old =
     (if 0 < rc_max_tokens c \<and> rc_max_tokens c < requested_max_tokens then
        (False, ''max_tokens '' @ show_int requested_max_tokens @
                '' exceeds guardrail limit '' @ show_int (rc_max_tokens c) @
                '' for this server configuration'')
      else if 0 < rc_max_ctx_tokens c \<and> rc_max_ctx_tokens c < requested_ctx_tokens then
        (False, ''context length '' @ show_int requested_ctx_tokens @
                '' exceeds guardrail limit '' @ show_int (rc_max_ctx_tokens c) @
                '' for this server configuration'')
      else (True, old))"

definition clamp_max_tokens :: "request_constraints \<Rightarrow> int \<Rightarrow> int" where
  "clamp_max_tokens c requested_max_tokens =
     (if rc_max_tokens c \<le> 0 then requested_max_tokens
      else min requested_max_tokens (rc_max_tokens c))"

section \<open>Properties\<close>

lemma check_request_accepts_iff:
  "fst (check_request c n ctx old) \<longleftrightarrow>
     (rc_max_tokens c \<le> 0 \<or> n \<le> rc_max_tokens c) \<and>
     (rc_max_ctx_tokens c \<le> 0 \<or> ctx \<le> rc_max_ctx_tokens c)"
  by (auto simp: check_request_def)

lemma clamp_le: "clamp_max_tokens c n \<le> n"
  by (simp add: clamp_max_tokens_def)

lemma clamp_idem: "clamp_max_tokens c (clamp_max_tokens c n) = clamp_max_tokens c n"
  by (simp add: clamp_max_tokens_def)

text \<open>A request whose token count has been clamped is accepted exactly when its context
  length is within the limit, and clamping changes nothing about a request that was already
  accepted: the clamp and the check agree on the same limit, for every preset.\<close>

theorem clamp_check_agree:
  "fst (check_request (constraints_for_preset p)
          (clamp_max_tokens (constraints_for_preset p) n) ctx old) =
     (rc_max_ctx_tokens (constraints_for_preset p) \<le> 0 \<or>
      ctx \<le> rc_max_ctx_tokens (constraints_for_preset p)) \<and>
   (fst (check_request (constraints_for_preset p) n ctx old) \<longrightarrow>
      clamp_max_tokens (constraints_for_preset p) n = n)"
  by (auto simp: check_request_accepts_iff clamp_max_tokens_def)

theorem clamp_check_agree_witness:
  "clamp_max_tokens (constraints_for_preset ''strict'') 2048 = 2048 \<and>
   \<not> fst (check_request (constraints_for_preset ''strict'') 2049 10 '''') \<and>
   clamp_max_tokens (constraints_for_preset ''strict'') 2049 = 2048"
proof -
  have "fst (check_request (constraints_for_preset ''strict'') 2048 10 '''')"
    by (simp add: check_request_def constraints_for_preset_def)
  with clamp_check_agree [of "''strict''" 2048 10 "''''"]
  have "clamp_max_tokens (constraints_for_preset ''strict'') 2048 = 2048" by blast
  then show ?thesis
    by (simp add: check_request_def constraints_for_preset_def clamp_max_tokens_def)
qed

end
