(* ===== verification/Rate_Limiter.thy ===== *)
theory Rate_Limiter
  imports Prelude Complex_Main
begin

text \<open>
  \<open>src/policy/rate_limiter.cpp\<close>: one token bucket per client key. Time points of
  \<open>std::chrono::steady_clock\<close> are integers (nanoseconds since the clock's epoch, which is the
  value of a default-constructed time point); the clock is read once per call, so each operation
  takes the reading as its argument. A \<open>double\<close> is a real number and every arithmetic
  operation on doubles is followed by the rounding function \<open>fl\<close>, an argument of the
  definitions: the theorems say what they need of it (IEEE rounding is monotone, fixes
  representable numbers and has a small relative error). The mutex makes each operation atomic, so
  a concurrent run is a sequence of operations.
\<close>

section \<open>Configuration\<close>

record rate_limiter_config =
  rate_per_second :: real
  burst_size :: real
  rl_enabled :: bool

definition config_for_guardrail_preset :: "string \<Rightarrow> rate_limiter_config" where
  "config_for_guardrail_preset preset =
     (if preset = ''strict'' then
        \<lparr>rate_per_second = 5, burst_size = 10, rl_enabled = True\<rparr>
      else if preset = ''balanced'' then
        \<lparr>rate_per_second = 20, burst_size = 40, rl_enabled = True\<rparr>
      else if preset = ''relaxed'' \<or> preset = ''off'' then
        \<lparr>rate_per_second = 100, burst_size = 200, rl_enabled = False\<rparr>
      else
        \<lparr>rate_per_second = 20, burst_size = 40, rl_enabled = True\<rparr>)"

section \<open>Buckets and operations\<close>

record bucket =
  b_tokens :: real
  last_refill :: int

record rate_limiter =
  rl_cfg :: rate_limiter_config
  buckets :: "string \<Rightarrow> bucket option"

definition new_rate_limiter :: "rate_limiter_config \<Rightarrow> rate_limiter" where
  "new_rate_limiter cfg = \<lparr>rl_cfg = cfg, buckets = Map.empty\<rparr>"

text \<open>\<open>std::chrono::duration<double>(now - last).count()\<close>: the tick count as a double,
  divided by the ticks per second.\<close>

definition elapsed_seconds :: "(real \<Rightarrow> real) \<Rightarrow> int \<Rightarrow> real" where
  "elapsed_seconds fl ticks = fl (fl (of_int ticks) / 1000000000)"

definition refill :: "(real \<Rightarrow> real) \<Rightarrow> rate_limiter_config \<Rightarrow> int \<Rightarrow> bucket \<Rightarrow> bucket" where
  "refill fl cfg now b =
     (let elapsed = elapsed_seconds fl (now - last_refill b)
      in b\<lparr>b_tokens := min (fl (b_tokens b + fl (elapsed * rate_per_second cfg))) (burst_size cfg),
           last_refill := now\<rparr>)"

text \<open>\<open>buckets_[key]\<close> inserts a value-initialised bucket when the key is absent; a bucket whose
  time point is the epoch counts as new and starts full.\<close>

definition touch_bucket ::
  "(real \<Rightarrow> real) \<Rightarrow> rate_limiter_config \<Rightarrow> int \<Rightarrow> bucket option \<Rightarrow> bucket" where
  "touch_bucket fl cfg now ob =
     (let b = (case ob of Some b \<Rightarrow> b | None \<Rightarrow> \<lparr>b_tokens = 0, last_refill = 0\<rparr>)
      in if last_refill b = 0
         then b\<lparr>b_tokens := burst_size cfg, last_refill := now\<rparr>
         else refill fl cfg now b)"

definition try_acquire ::
  "(real \<Rightarrow> real) \<Rightarrow> int \<Rightarrow> string \<Rightarrow> rate_limiter \<Rightarrow> bool \<times> rate_limiter" where
  "try_acquire fl now key rl =
     (if \<not> rl_enabled (rl_cfg rl) then (True, rl)
      else
        let b = touch_bucket fl (rl_cfg rl) now (buckets rl key)
        in if 1 \<le> b_tokens b
           then (True, rl\<lparr>buckets := (buckets rl)(key \<mapsto> b\<lparr>b_tokens := fl (b_tokens b - 1)\<rparr>)\<rparr>)
           else (False, rl\<lparr>buckets := (buckets rl)(key \<mapsto> b)\<rparr>))"

definition reset_bucket :: "string \<Rightarrow> rate_limiter \<Rightarrow> rate_limiter" where
  "reset_bucket key rl = rl\<lparr>buckets := (buckets rl)(key := None)\<rparr>"

text \<open>\<open>max_age\<close> is in seconds, the cutoff in clock ticks.\<close>

definition evict_stale :: "int \<Rightarrow> int \<Rightarrow> rate_limiter \<Rightarrow> rate_limiter" where
  "evict_stale now max_age rl =
     (let cutoff = now - max_age * 1000000000
      in rl\<lparr>buckets := (\<lambda>k. case buckets rl k of
                 None \<Rightarrow> None
               | Some b \<Rightarrow> if last_refill b < cutoff then None else Some b)\<rparr>)"

section \<open>Bucket levels\<close>

definition level_ok :: "rate_limiter_config \<Rightarrow> bucket \<Rightarrow> bool" where
  "level_ok cfg b \<longleftrightarrow> 0 \<le> b_tokens b \<and> b_tokens b \<le> burst_size cfg"

definition limiter_ok :: "rate_limiter \<Rightarrow> bool" where
  "limiter_ok rl \<longleftrightarrow> (\<forall>k b. buckets rl k = Some b \<longrightarrow> level_ok (rl_cfg rl) b)"

definition rounds_ok :: "(real \<Rightarrow> real) \<Rightarrow> rate_limiter_config \<Rightarrow> bool" where
  "rounds_ok fl cfg \<longleftrightarrow> mono fl \<and> fl 0 = 0 \<and> fl (burst_size cfg) = burst_size cfg \<and>
     0 \<le> burst_size cfg \<and> 0 \<le> rate_per_second cfg"

lemma rounds_nonneg: "mono fl \<Longrightarrow> fl 0 = 0 \<Longrightarrow> 0 \<le> x \<Longrightarrow> (0::real) \<le> fl x"
  by (metis monoD)

lemma elapsed_nonneg: "mono fl \<Longrightarrow> fl 0 = 0 \<Longrightarrow> 0 \<le> t \<Longrightarrow> 0 \<le> elapsed_seconds fl t"
  by (simp add: elapsed_seconds_def rounds_nonneg)

lemma refill_level_ok:
  assumes r: "rounds_ok fl cfg" and l: "level_ok cfg b" and t: "last_refill b \<le> now"
  shows "level_ok cfg (refill fl cfg now b)"
proof -
  let ?e = "elapsed_seconds fl (now - last_refill b)"
  have m: "mono fl" "fl 0 = 0" using r by (auto simp: rounds_ok_def)
  have "0 \<le> ?e" using m t by (simp add: elapsed_nonneg)
  then have "0 \<le> fl (?e * rate_per_second cfg)"
    using m r by (simp add: rounds_nonneg rounds_ok_def)
  then have "0 \<le> fl (b_tokens b + fl (?e * rate_per_second cfg))"
    using m l by (simp add: rounds_nonneg level_ok_def)
  then show ?thesis
    using r by (simp add: refill_def level_ok_def rounds_ok_def Let_def)
qed

lemma touch_level_ok:
  assumes r: "rounds_ok fl cfg"
    and ob: "\<And>b. ob = Some b \<Longrightarrow> level_ok cfg b \<and> last_refill b \<le> now"
  shows "level_ok cfg (touch_bucket fl cfg now ob)"
proof (cases ob)
  case None
  with r show ?thesis by (simp add: touch_bucket_def level_ok_def rounds_ok_def)
next
  case (Some b)
  with ob have "level_ok cfg (refill fl cfg now b)" using r by (simp add: refill_level_ok)
  with Some r show ?thesis by (simp add: touch_bucket_def level_ok_def rounds_ok_def)
qed

lemma take_one_level_ok:
  assumes r: "rounds_ok fl cfg" and l: "level_ok cfg b" and one: "1 \<le> b_tokens b"
  shows "level_ok cfg (b\<lparr>b_tokens := fl (b_tokens b - 1)\<rparr>)"
proof -
  have m: "mono fl" "fl 0 = 0" "fl (burst_size cfg) = burst_size cfg"
    using r by (auto simp: rounds_ok_def)
  have "fl (b_tokens b - 1) \<le> fl (burst_size cfg)"
    using m l by (intro monoD [OF m(1)]) (simp add: level_ok_def)
  then show ?thesis
    using m one by (simp add: level_ok_def rounds_nonneg)
qed

definition not_later :: "int \<Rightarrow> rate_limiter \<Rightarrow> bool" where
  "not_later now rl \<longleftrightarrow> (\<forall>k b. buckets rl k = Some b \<longrightarrow> last_refill b \<le> now)"

lemma touch_last_refill: "last_refill (touch_bucket fl cfg now ob) = now"
  by (simp add: touch_bucket_def refill_def Let_def split: option.split)

lemma try_acquire_cfg: "rl_cfg (snd (try_acquire fl now key rl)) = rl_cfg rl"
  by (simp add: try_acquire_def Let_def)

lemma try_acquire_other:
  "k \<noteq> key \<Longrightarrow> buckets (snd (try_acquire fl now key rl)) k = buckets rl k"
  by (simp add: try_acquire_def Let_def)

lemma try_acquire_not_later:
  "not_later now rl \<Longrightarrow> not_later now (snd (try_acquire fl now key rl))"
  by (auto simp: not_later_def try_acquire_def Let_def touch_last_refill split: if_splits)

lemma try_acquire_limiter_ok:
  assumes r: "rounds_ok fl (rl_cfg rl)" and ok: "limiter_ok rl" and nl: "not_later now rl"
  shows "limiter_ok (snd (try_acquire fl now key rl))"
proof -
  let ?b = "touch_bucket fl (rl_cfg rl) now (buckets rl key)"
  have lb: "level_ok (rl_cfg rl) ?b"
    using r ok nl by (intro touch_level_ok) (auto simp: limiter_ok_def not_later_def)
  have take: "1 \<le> b_tokens ?b \<Longrightarrow> level_ok (rl_cfg rl) (?b\<lparr>b_tokens := fl (b_tokens ?b - 1)\<rparr>)"
    using r lb by (rule take_one_level_ok)
  show ?thesis
    using ok lb take by (auto simp: limiter_ok_def try_acquire_def Let_def)
qed

lemma reset_limiter_ok: "limiter_ok rl \<Longrightarrow> limiter_ok (reset_bucket key rl)"
  by (auto simp: limiter_ok_def reset_bucket_def split: if_splits)

lemma evict_limiter_ok: "limiter_ok rl \<Longrightarrow> limiter_ok (evict_stale now age rl)"
  by (auto simp: limiter_ok_def evict_stale_def Let_def split: option.splits if_splits)

section \<open>Sequences of operations\<close>

datatype rl_op = Acquire string | Reset string | Evict int

fun rl_step :: "(real \<Rightarrow> real) \<Rightarrow> int \<times> rl_op \<Rightarrow> rate_limiter \<Rightarrow> rate_limiter" where
  "rl_step fl (now, Acquire key) rl = snd (try_acquire fl now key rl)"
| "rl_step fl (now, Reset key) rl = reset_bucket key rl"
| "rl_step fl (now, Evict age) rl = evict_stale now age rl"

fun rl_run :: "(real \<Rightarrow> real) \<Rightarrow> (int \<times> rl_op) list \<Rightarrow> rate_limiter \<Rightarrow> rate_limiter" where
  "rl_run fl [] rl = rl"
| "rl_run fl (e # es) rl = rl_run fl es (rl_step fl e rl)"

lemma rl_step_cfg [simp]: "rl_cfg (rl_step fl e rl) = rl_cfg rl"
  by (cases "(fl, e, rl)" rule: rl_step.cases)
     (simp_all add: try_acquire_cfg reset_bucket_def evict_stale_def Let_def)

lemma not_later_mono: "not_later t rl \<Longrightarrow> t \<le> u \<Longrightarrow> not_later u rl"
  by (fastforce simp: not_later_def)

lemma rl_step_not_later: "not_later (fst e) rl \<Longrightarrow> not_later (fst e) (rl_step fl e rl)"
  by (cases "(fl, e, rl)" rule: rl_step.cases)
     (auto simp: try_acquire_not_later,
      auto simp: not_later_def reset_bucket_def evict_stale_def Let_def
        split: if_splits option.splits)

lemma rl_step_ok:
  "rounds_ok fl (rl_cfg rl) \<Longrightarrow> limiter_ok rl \<Longrightarrow> not_later (fst e) rl \<Longrightarrow>
   limiter_ok (rl_step fl e rl)"
  by (cases "(fl, e, rl)" rule: rl_step.cases)
     (auto simp: try_acquire_limiter_ok reset_limiter_ok evict_limiter_ok)

lemma rl_run_ok:
  "rounds_ok fl (rl_cfg rl) \<Longrightarrow> limiter_ok rl \<Longrightarrow> sorted (map fst es) \<Longrightarrow>
   (\<And>e. e \<in> set es \<Longrightarrow> not_later (fst e) rl) \<Longrightarrow>
   limiter_ok (rl_run fl es rl) \<and> rl_cfg (rl_run fl es rl) = rl_cfg rl"
proof (induction es arbitrary: rl)
  case Nil
  then show ?case by simp
next
  case (Cons e es)
  have nl: "not_later (fst e) rl" using Cons.prems(4) by simp
  have "limiter_ok (rl_step fl e rl)"
    using Cons.prems nl by (intro rl_step_ok) auto
  moreover have "not_later (fst e') (rl_step fl e rl)" if "e' \<in> set es" for e'
    using rl_step_not_later [OF nl] that Cons.prems(3) by (auto intro: not_later_mono)
  ultimately show ?case
    using Cons.IH [of "rl_step fl e rl"] Cons.prems by simp
qed

section \<open>How many requests a key can get through\<close>

text \<open>\<open>admitted fl k es rl\<close> counts the accepted requests of key \<open>k\<close> when the
  requests \<open>es\<close> (clock reading and key) arrive in this order.\<close>

fun admitted :: "(real \<Rightarrow> real) \<Rightarrow> string \<Rightarrow> (int \<times> string) list \<Rightarrow> rate_limiter \<Rightarrow> nat" where
  "admitted fl k [] rl = 0"
| "admitted fl k ((now, key) # es) rl =
     (if key = k \<and> fst (try_acquire fl now key rl) then 1 else 0) +
     admitted fl k es (snd (try_acquire fl now key rl))"

definition rel_error :: "(real \<Rightarrow> real) \<Rightarrow> real \<Rightarrow> bool" where
  "rel_error fl u \<longleftrightarrow> 0 \<le> u \<and> (\<forall>x\<ge>0. fl x \<le> (1 + u) * x)"

lemma rel_errorD: "rel_error fl u \<Longrightarrow> 0 \<le> x \<Longrightarrow> fl x \<le> (1 + u) * x"
  by (simp add: rel_error_def)

lemma refill_gain:
  assumes r: "rounds_ok fl cfg" and e: "rel_error fl u" and l: "level_ok cfg b"
    and t: "last_refill b \<le> now"
  shows "b_tokens (refill fl cfg now b) \<le>
    b_tokens b + (1 + u) ^ 4 * rate_per_second cfg * (of_int (now - last_refill b) / 1000000000)
      + u * burst_size cfg"
proof -
  let ?d = "of_int (now - last_refill b) / 1000000000 :: real"
  let ?el = "elapsed_seconds fl (now - last_refill b)"
  let ?g = "fl (?el * rate_per_second cfg)"
  have m: "mono fl" "fl 0 = 0" and rate: "0 \<le> rate_per_second cfg" and u: "0 \<le> u"
    using r e by (auto simp: rounds_ok_def rel_error_def)
  have d0: "0 \<le> ?d" using t by simp
  have f0: "0 \<le> fl (of_int (now - last_refill b))" using m t by (simp add: rounds_nonneg)
  have "?el \<le> (1 + u) * (fl (of_int (now - last_refill b)) / 1000000000)"
    unfolding elapsed_seconds_def using f0 by (intro rel_errorD [OF e]) simp
  also have "\<dots> \<le> (1 + u) * ((1 + u) * ?d)"
    using rel_errorD [OF e, of "of_int (now - last_refill b)"] t u
    by (intro mult_left_mono) (auto simp: field_simps)
  finally have el: "?el \<le> (1 + u)\<^sup>2 * ?d" by (simp add: power2_eq_square mult.assoc)
  have el0: "0 \<le> ?el" using m t by (simp add: elapsed_nonneg)
  have "?g \<le> (1 + u) * (?el * rate_per_second cfg)"
    using el0 rate by (intro rel_errorD [OF e]) simp
  also have "\<dots> \<le> (1 + u) * ((1 + u)\<^sup>2 * ?d * rate_per_second cfg)"
    using el rate u by (intro mult_left_mono mult_right_mono) auto
  finally have g: "?g \<le> (1 + u) ^ 3 * rate_per_second cfg * ?d"
    by (simp add: power3_eq_cube power2_eq_square mult.assoc mult.commute mult.left_commute)
  have g0: "0 \<le> ?g" using m el0 rate by (simp add: rounds_nonneg)
  have "b_tokens (refill fl cfg now b) \<le> fl (b_tokens b + ?g)"
    by (simp add: refill_def Let_def)
  also have "\<dots> \<le> (1 + u) * (b_tokens b + ?g)"
    using l g0 by (intro rel_errorD [OF e]) (simp add: level_ok_def)
  also have "\<dots> = b_tokens b + u * b_tokens b + (1 + u) * ?g" by (simp add: algebra_simps)
  also have "\<dots> \<le> b_tokens b + u * burst_size cfg + (1 + u) * ((1 + u) ^ 3 * rate_per_second cfg * ?d)"
    using l g u by (intro add_mono mult_left_mono) (auto simp: level_ok_def)
  also have "(1 + u) * ((1 + u) ^ 3 * rate_per_second cfg * ?d) =
      (1 + u) ^ 4 * rate_per_second cfg * ?d"
    by (simp add: numeral_eq_Suc)
  finally show ?thesis by simp
qed

lemma take_one_cost:
  assumes e: "rel_error fl u" and l: "level_ok cfg b" and one: "1 \<le> b_tokens b"
  shows "fl (b_tokens b - 1) \<le> b_tokens b - 1 + u * burst_size cfg"
proof -
  have "fl (b_tokens b - 1) \<le> (1 + u) * (b_tokens b - 1)"
    using one by (intro rel_errorD [OF e]) simp
  also have "\<dots> = b_tokens b - 1 + u * (b_tokens b - 1)" by (simp add: algebra_simps)
  also have "\<dots> \<le> b_tokens b - 1 + u * burst_size cfg"
    using l e by (intro add_left_mono mult_left_mono) (auto simp: level_ok_def rel_error_def)
  finally show ?thesis .
qed

text \<open>The most that \<open>n\<close> requests in \<open>dt\<close> clock ticks can gain: the refill over the
  interval plus the rounding of the \<open>n\<close> updates.\<close>

definition budget :: "rate_limiter_config \<Rightarrow> real \<Rightarrow> int \<Rightarrow> nat \<Rightarrow> real" where
  "budget cfg u dt n =
     (1 + u) ^ 4 * rate_per_second cfg * (of_int dt / 1000000000) + 2 * u * burst_size cfg * real n"

lemma budget_add: "budget cfg u s (Suc 0) + budget cfg u t n = budget cfg u (s + t) (Suc n)"
  by (simp add: budget_def algebra_simps add_divide_distrib)

lemma budget_mono:
  assumes "rounds_ok fl cfg" and "rel_error fl u" and "s \<le> t" and "m \<le> n"
  shows "budget cfg u s m \<le> budget cfg u t n"
  unfolding budget_def using assms
  by (intro add_mono mult_left_mono divide_right_mono)
     (auto simp: rounds_ok_def rel_error_def)

lemma budget_nonneg:
  "rounds_ok fl cfg \<Longrightarrow> rel_error fl u \<Longrightarrow> 0 \<le> t \<Longrightarrow> 0 \<le> budget cfg u t n"
  by (simp add: budget_def rounds_ok_def rel_error_def)

text \<open>One request of key \<open>k\<close>: what it gains plus what is left is at most what was there
  plus the budget of one request.\<close>

definition gain :: "bool \<Rightarrow> real" where
  "gain ok = (if ok then 1 else 0)"

lemma acquire_balance:
  assumes r: "rounds_ok fl (rl_cfg rl)" and e: "rel_error fl u" and en: "rl_enabled (rl_cfg rl)"
    and t: "level_ok (rl_cfg rl) (touch_bucket fl (rl_cfg rl) now (buckets rl k))"
  obtains b' where "buckets (snd (try_acquire fl now k rl)) k = Some b'"
    and "level_ok (rl_cfg rl) b'" and "last_refill b' = now"
    and "gain (fst (try_acquire fl now k rl)) + b_tokens b' \<le>
      b_tokens (touch_bucket fl (rl_cfg rl) now (buckets rl k)) + u * burst_size (rl_cfg rl)"
proof -
  let ?r = "touch_bucket fl (rl_cfg rl) now (buckets rl k)"
  have ub: "0 \<le> u * burst_size (rl_cfg rl)"
    using r e by (simp add: rounds_ok_def rel_error_def)
  show ?thesis
  proof (cases "1 \<le> b_tokens ?r")
    case True
    let ?s = "?r\<lparr>b_tokens := fl (b_tokens ?r - 1)\<rparr>"
    have "level_ok (rl_cfg rl) ?s" using r t True by (rule take_one_level_ok)
    moreover have "1 + b_tokens ?s \<le> b_tokens ?r + u * burst_size (rl_cfg rl)"
      using take_one_cost [OF e t True] by simp
    ultimately show ?thesis
      using True en by (intro that [of ?s])
        (auto simp: try_acquire_def Let_def gain_def touch_last_refill)
  next
    case False
    then show ?thesis
      using ub en t by (intro that [of ?r])
        (auto simp: try_acquire_def Let_def gain_def touch_last_refill)
  qed
qed

lemma admitted_Cons:
  "real (admitted fl k ((now, key) # es) rl) =
     (if key = k then gain (fst (try_acquire fl now k rl)) else 0) +
     real (admitted fl k es (snd (try_acquire fl now key rl)))"
  by (simp add: gain_def)

lemma admitted_bound_from:
  assumes "rounds_ok fl (rl_cfg rl)" and "rel_error fl u" and "rl_enabled (rl_cfg rl)"
    and "buckets rl k = Some b" and "level_ok (rl_cfg rl) b" and "0 < last_refill b"
    and "sorted (last_refill b # map fst es)" and "\<forall>t \<in> set (last_refill b # map fst es). t \<le> T"
  shows "real (admitted fl k es rl) \<le>
    b_tokens b + budget (rl_cfg rl) u (T - last_refill b) (length es)"
  using assms
proof (induction es arbitrary: rl b)
  case Nil
  then show ?case using budget_nonneg [of fl "rl_cfg rl" u "T - last_refill b" 0]
    by (simp add: level_ok_def)
next
  case (Cons e es)
  obtain now key where e: "e = (now, key)" by (cases e)
  let ?rl = "snd (try_acquire fl now key rl)" and ?B = "budget (rl_cfg rl) u"
  have cfg: "rl_cfg ?rl = rl_cfg rl" by (rule try_acquire_cfg)
  have t: "last_refill b \<le> now" "sorted (now # map fst es)" using Cons.prems(7) e by auto
  show ?case
  proof (cases "key = k")
    case True
    have touch: "touch_bucket fl (rl_cfg rl) now (buckets rl k) = refill fl (rl_cfg rl) now b"
      using Cons.prems(4,6) by (simp add: touch_bucket_def)
    have "level_ok (rl_cfg rl) (refill fl (rl_cfg rl) now b)"
      using Cons.prems(1,5) t(1) by (rule refill_level_ok)
    then obtain b' where b': "buckets ?rl k = Some b'" "level_ok (rl_cfg rl) b'"
      "last_refill b' = now" "gain (fst (try_acquire fl now k rl)) + b_tokens b' \<le>
        b_tokens (refill fl (rl_cfg rl) now b) + u * burst_size (rl_cfg rl)"
      using acquire_balance [OF Cons.prems(1-3), of now k] touch True by metis
    have one: "b_tokens (refill fl (rl_cfg rl) now b) + u * burst_size (rl_cfg rl) \<le>
        b_tokens b + ?B (now - last_refill b) 1"
      using refill_gain [OF Cons.prems(1,2,5) t(1)] by (simp add: budget_def)
    have "real (admitted fl k es ?rl) \<le> b_tokens b' + ?B (T - now) (length es)"
      using Cons.IH [of ?rl b'] Cons.prems b' t cfg e by simp
    then have "real (admitted fl k (e # es) rl) \<le>
        b_tokens b + (?B (now - last_refill b) 1 + ?B (T - now) (length es))"
      using b'(4) one admitted_Cons [of fl k now key es rl] unfolding e True by simp
    then show ?thesis by (simp add: budget_add)
  next
    case False
    have ob: "buckets ?rl k = Some b" using False Cons.prems(4) by (simp add: try_acquire_other)
    have "real (admitted fl k es ?rl) \<le> b_tokens b + ?B (T - last_refill b) (length es)"
      using Cons.IH [of ?rl b] Cons.prems ob cfg e by auto
    also have "?B (T - last_refill b) (length es) \<le> ?B (T - last_refill b) (length (e # es))"
      using Cons.prems(1,2) by (rule budget_mono) auto
    finally show ?thesis using e False by simp
  qed
qed

lemma admitted_bound_new:
  assumes "rounds_ok fl (rl_cfg rl)" and "rel_error fl u" and "rl_enabled (rl_cfg rl)"
    and "buckets rl k = None" and "sorted (t0 # map fst es)" and "0 < t0"
    and "\<forall>t \<in> set (t0 # map fst es). t \<le> T"
  shows "real (admitted fl k es rl) \<le>
    burst_size (rl_cfg rl) + budget (rl_cfg rl) u (T - t0) (length es)"
  using assms
proof (induction es arbitrary: rl)
  case Nil
  then show ?case using budget_nonneg [of fl "rl_cfg rl" u "T - t0" 0] by (simp add: rounds_ok_def)
next
  case (Cons e es)
  obtain now key where e: "e = (now, key)" by (cases e)
  let ?rl = "snd (try_acquire fl now key rl)" and ?B = "budget (rl_cfg rl) u"
  have cfg: "rl_cfg ?rl = rl_cfg rl" by (rule try_acquire_cfg)
  have t: "t0 \<le> now" "sorted (now # map fst es)" "now \<le> T" using Cons.prems(5,7) e by auto
  show ?case
  proof (cases "key = k")
    case False
    have "buckets ?rl k = None" using False Cons.prems(4) by (simp add: try_acquire_other)
    then have "real (admitted fl k es ?rl) \<le> burst_size (rl_cfg rl) + ?B (T - t0) (length es)"
      using Cons.IH [of ?rl] Cons.prems cfg e by auto
    also have "?B (T - t0) (length es) \<le> ?B (T - t0) (length (e # es))"
      using Cons.prems(1,2) by (rule budget_mono) auto
    finally show ?thesis using e False by simp
  next
    case True
    let ?full = "\<lparr>b_tokens = burst_size (rl_cfg rl), last_refill = now\<rparr>"
    have touch: "touch_bucket fl (rl_cfg rl) now (buckets rl k) = ?full"
      using Cons.prems(4) by (simp add: touch_bucket_def)
    have "level_ok (rl_cfg rl) ?full"
      using Cons.prems(1) by (simp add: level_ok_def rounds_ok_def)
    then obtain b' where b': "buckets ?rl k = Some b'" "level_ok (rl_cfg rl) b'"
      "last_refill b' = now" "gain (fst (try_acquire fl now k rl)) + b_tokens b' \<le>
        burst_size (rl_cfg rl) + u * burst_size (rl_cfg rl)"
      using acquire_balance [OF Cons.prems(1-3), of now k] touch True by (metis bucket.select_convs(1))
    have one: "u * burst_size (rl_cfg rl) \<le> ?B (now - t0) 1"
      using Cons.prems(1,2) t(1) by (simp add: budget_def rounds_ok_def rel_error_def)
    have "real (admitted fl k es ?rl) \<le> b_tokens b' + ?B (T - now) (length es)"
      using admitted_bound_from [of fl ?rl u k b' es T] Cons.prems b' t cfg e by simp
    then have "real (admitted fl k (e # es) rl) \<le>
        burst_size (rl_cfg rl) + (?B (now - t0) 1 + ?B (T - now) (length es))"
      using b'(4) one admitted_Cons [of fl k now key es rl] unfolding e True by simp
    then show ?thesis by (simp add: budget_add)
  qed
qed

section \<open>Properties\<close>

text \<open>C7: over any interval, with any number of other clients interleaved, the requests one key
  gets through are at most the burst plus the refill of the interval, up to the rounding error of
  the updates (a relative error \<open>u\<close> per floating-point operation; with exact arithmetic,
  \<open>u = 0\<close>, at most burst + rate * time).\<close>

theorem admission_bound:
  assumes "rounds_ok fl cfg" and "rel_error fl u" and "rl_enabled cfg"
    and "sorted (t0 # map fst es)" and "0 < t0" and "\<forall>t \<in> set (t0 # map fst es). t \<le> T"
  shows "real (admitted fl k es (new_rate_limiter cfg)) \<le>
    burst_size cfg
    + (1 + u) ^ 4 * rate_per_second cfg * (of_int (T - t0) / 1000000000)
    + 2 * u * burst_size cfg * length es"
  using admitted_bound_new [of fl "new_rate_limiter cfg" u k t0 es T] assms
  by (simp add: new_rate_limiter_def budget_def)

lemma rounds_ok_exact:
  "0 \<le> burst_size cfg \<Longrightarrow> 0 \<le> rate_per_second cfg \<Longrightarrow> rounds_ok (\<lambda>x. x) cfg"
  by (simp add: rounds_ok_def mono_def)

lemma rel_error_exact: "rel_error (\<lambda>x. x) 0"
  by (simp add: rel_error_def)

theorem admission_bound_witness:
  "real (admitted (\<lambda>x. x) ''a'' (replicate 20 (5, ''a''))
     (new_rate_limiter (config_for_guardrail_preset ''strict''))) \<le> 10"
proof -
  let ?c = "config_for_guardrail_preset ''strict''"
  have "rounds_ok (\<lambda>x. x) ?c"
    by (rule rounds_ok_exact) (simp_all add: config_for_guardrail_preset_def)
  moreover have "rl_enabled ?c" by (simp add: config_for_guardrail_preset_def)
  ultimately have "real (admitted (\<lambda>x. x) ''a'' (replicate 20 (5, ''a'')) (new_rate_limiter ?c))
      \<le> burst_size ?c + (1 + 0) ^ 4 * rate_per_second ?c * (of_int (5 - 5) / 1000000000)
        + 2 * 0 * burst_size ?c * length (replicate 20 (5 :: int, ''a''))"
    by (intro admission_bound rel_error_exact) (simp_all add: map_replicate_const sorted_replicate)
  then show ?thesis by (simp add: config_for_guardrail_preset_def)
qed

text \<open>Every bucket level stays between 0 and the burst size through any sequence of
  requests, resets and evictions on a clock that does not go backwards, whatever monotone
  rounding the arithmetic uses.\<close>

theorem bucket_levels_bounded:
  assumes "rounds_ok fl cfg" and "sorted (map fst es)"
    and "buckets (rl_run fl es (new_rate_limiter cfg)) k = Some b"
  shows "0 \<le> b_tokens b \<and> b_tokens b \<le> burst_size cfg"
proof -
  let ?rl = "new_rate_limiter cfg"
  have "rl_cfg ?rl = cfg" and "limiter_ok ?rl" and "\<And>t. not_later t ?rl"
    by (simp_all add: new_rate_limiter_def limiter_ok_def not_later_def)
  then have "limiter_ok (rl_run fl es ?rl) \<and> rl_cfg (rl_run fl es ?rl) = cfg"
    using rl_run_ok [of fl ?rl es] assms(1,2) by metis
  with assms(3) show ?thesis by (auto simp: limiter_ok_def level_ok_def)
qed

theorem bucket_levels_bounded_witness:
  "0 \<le> b_tokens \<lparr>b_tokens = 9, last_refill = 7\<rparr> \<and>
   buckets (rl_run (\<lambda>x. x) [(7, Acquire ''a''), (7, Evict 60)]
     (new_rate_limiter (config_for_guardrail_preset ''strict''))) ''a'' =
     Some \<lparr>b_tokens = 9, last_refill = 7\<rparr>"
proof -
  let ?c = "config_for_guardrail_preset ''strict''"
  have b: "buckets (rl_run (\<lambda>x. x) [(7, Acquire ''a''), (7, Evict 60)] (new_rate_limiter ?c)) ''a''
      = Some \<lparr>b_tokens = 9, last_refill = 7\<rparr>"
    by (simp add: config_for_guardrail_preset_def new_rate_limiter_def try_acquire_def
        touch_bucket_def evict_stale_def)
  have "rounds_ok (\<lambda>x. x) ?c"
    by (rule rounds_ok_exact) (simp_all add: config_for_guardrail_preset_def)
  from bucket_levels_bounded [OF this _ b] show ?thesis using b by simp
qed

text \<open>Evicting a bucket that has been idle long enough to be full again changes no later
  decision: with exact arithmetic, if the idle time refills the whole burst, the next request of
  that key is decided and charged exactly as if the bucket had been kept.\<close>

theorem eviction_transparent:
  assumes "buckets rl k = Some b" and "level_ok (rl_cfg rl) b"
    and "0 < last_refill b" and "last_refill b < t - age * 1000000000" and "t \<le> now"
    and "0 \<le> rate_per_second (rl_cfg rl)"
    and "burst_size (rl_cfg rl) \<le> rate_per_second (rl_cfg rl) * of_int age"
  shows "fst (try_acquire (\<lambda>x. x) now k (evict_stale t age rl)) = fst (try_acquire (\<lambda>x. x) now k rl) \<and>
    (rl_enabled (rl_cfg rl) \<longrightarrow>
     buckets (snd (try_acquire (\<lambda>x. x) now k (evict_stale t age rl))) k =
     buckets (snd (try_acquire (\<lambda>x. x) now k rl)) k)"
proof -
  let ?c = "rl_cfg rl" and ?e = "evict_stale t age rl"
  have none: "buckets ?e k = None" and cfg: "rl_cfg ?e = ?c"
    using assms(1,4) by (simp_all add: evict_stale_def)
  have "real_of_int age * 1000000000 \<le> of_int (now - last_refill b)"
    using assms(4,5) by linarith
  then have "of_int age \<le> elapsed_seconds (\<lambda>x. x) (now - last_refill b)"
    by (simp add: elapsed_seconds_def)
  then have "burst_size ?c \<le> elapsed_seconds (\<lambda>x. x) (now - last_refill b) * rate_per_second ?c"
    using assms(6,7) by (metis mult.commute mult_right_mono order_trans)
  then have "burst_size ?c \<le>
      b_tokens b + elapsed_seconds (\<lambda>x. x) (now - last_refill b) * rate_per_second ?c"
    using assms(2) by (simp add: level_ok_def)
  then have "refill (\<lambda>x. x) ?c now b = \<lparr>b_tokens = burst_size ?c, last_refill = now\<rparr>"
    by (simp add: refill_def Let_def min_def)
  then have "touch_bucket (\<lambda>x. x) ?c now (buckets rl k) = touch_bucket (\<lambda>x. x) ?c now None"
    using assms(1,3) by (simp add: touch_bucket_def)
  then show ?thesis by (simp add: try_acquire_def Let_def none cfg)
qed

theorem eviction_transparent_witness:
  "fst (try_acquire (\<lambda>x. x) 9000000000 ''a''
     (evict_stale 9000000000 2 \<lparr>rl_cfg = config_for_guardrail_preset ''strict'',
        buckets = [''a'' \<mapsto> \<lparr>b_tokens = 0, last_refill = 1\<rparr>]\<rparr>))"
proof -
  let ?rl = "\<lparr>rl_cfg = config_for_guardrail_preset ''strict'',
        buckets = [''a'' \<mapsto> \<lparr>b_tokens = 0, last_refill = 1\<rparr>]\<rparr>"
  have "fst (try_acquire (\<lambda>x. x) 9000000000 ''a'' (evict_stale 9000000000 2 ?rl)) =
      fst (try_acquire (\<lambda>x. x) 9000000000 ''a'' ?rl)"
    by (rule eviction_transparent [of ?rl "''a''" "\<lparr>b_tokens = 0, last_refill = 1\<rparr>",
          THEN conjunct1])
       (simp_all add: level_ok_def config_for_guardrail_preset_def)
  then show ?thesis
    by (simp add: try_acquire_def touch_bucket_def refill_def elapsed_seconds_def
        config_for_guardrail_preset_def)
qed

lemma acquire_after_wait:
  assumes "buckets rl k = Some b" and "level_ok (rl_cfg rl) b" and "last_refill b \<noteq> 0"
    and "1 \<le> burst_size (rl_cfg rl)"
    and "1 \<le> elapsed_seconds (\<lambda>x. x) (now - last_refill b) * rate_per_second (rl_cfg rl)"
  shows "fst (try_acquire (\<lambda>x. x) now k rl)"
  using assms
  by (simp add: try_acquire_def touch_bucket_def refill_def level_ok_def Let_def)

end
