(* ===== verification/Block_Interface.thy ===== *)
theory Block_Interface
  imports Prelude
begin

text \<open>
  The interface between the sequence operations of the KV allocator and its block pool: what
  \<open>alloc_block_locked\<close> and \<open>free_block_locked\<close> promise, stated over a multiset of block
  references that the callers hold, and the loops of the sequence operations proved once against
  that promise. \<open>acct s M\<close> says that the pool's counts cover the references \<open>M\<close>,
  \<open>slack s M b\<close> is how far the count of \<open>b\<close> exceeds the references (a leak), \<open>spare s\<close>
  is the free stack and \<open>frame s\<close> everything the block operations leave alone.
\<close>

text \<open>The allocation loop of \<open>allocate_sequence\<close>, with its roll-back, over any block interface.\<close>

fun alloc_loop ::
  "('s \<Rightarrow> (nat \<times> 's) option) \<Rightarrow> (nat \<Rightarrow> 's \<Rightarrow> 's) \<Rightarrow> nat \<Rightarrow> nat list \<Rightarrow> 's \<Rightarrow>
   nat list option \<times> 's" where
  "alloc_loop alloc free 0 bt s = (Some bt, s)"
| "alloc_loop alloc free (Suc k) bt s =
     (case alloc s of
        None \<Rightarrow> (None, fold free bt s)
      | Some (bid, s') \<Rightarrow> alloc_loop alloc free k (bt @ [bid]) s')"

locale block_pool =
  fixes alloc :: "'s \<Rightarrow> (nat \<times> 's) option"
    and free :: "nat \<Rightarrow> 's \<Rightarrow> 's"
    and acct :: "'s \<Rightarrow> nat multiset \<Rightarrow> bool"
    and spare :: "'s \<Rightarrow> nat list"
    and slack :: "'s \<Rightarrow> nat multiset \<Rightarrow> nat \<Rightarrow> int"
    and frame :: "'s \<Rightarrow> 'r"
  assumes alloc_None: "alloc s = None \<longleftrightarrow> spare s = []"
    and alloc_acct: "acct s M \<Longrightarrow> alloc s = Some (b, s') \<Longrightarrow>
      acct s' (add_mset b M) \<and> b \<notin># M \<and> slack s' (add_mset b M) = slack s M"
    and alloc_spare: "alloc s = Some (b, s') \<Longrightarrow> length (spare s) = Suc (length (spare s'))"
    and alloc_frame: "alloc s = Some (b, s') \<Longrightarrow> frame s' = frame s"
    and free_acct: "acct s (add_mset b M) \<Longrightarrow>
      acct (free b s) M \<and> slack (free b s) M = slack s (add_mset b M)"
    and free_frame: "frame (free b s) = frame s"
begin

lemma fold_free:
  "acct s (M + mset bt) \<Longrightarrow>
   acct (fold free bt s) M \<and> slack (fold free bt s) M = slack s (M + mset bt)"
proof (induction bt arbitrary: s)
  case Nil
  then show ?case by simp
next
  case (Cons b bt)
  then have "acct s (add_mset b (M + mset bt))" by simp
  from free_acct [OF this] have
    "acct (free b s) (M + mset bt)" "slack (free b s) (M + mset bt) = slack s (M + mset (b # bt))"
    by simp_all
  with Cons.IH [OF this(1)] show ?case by simp
qed

lemma fold_free_frame: "frame (fold free bt s) = frame s"
  by (induction bt arbitrary: s) (simp_all add: free_frame)

lemma alloc_loop_frame: "frame (snd (alloc_loop alloc free k bt s)) = frame s"
proof (induction k arbitrary: bt s)
  case 0
  then show ?case by simp
next
  case (Suc k)
  then show ?case
    by (auto simp: fold_free_frame dest: alloc_frame split: option.split)
qed

text \<open>With enough spare blocks the loop succeeds and hands out fresh, distinct blocks.\<close>

lemma alloc_loop_enough:
  assumes "acct s M" and "k \<le> length (spare s)"
  obtains new s' where "alloc_loop alloc free k bt s = (Some (bt @ new), s')"
    and "length new = k" and "distinct new" and "set new \<inter> set_mset M = {}"
    and "acct s' (M + mset new)" and "slack s' (M + mset new) = slack s M"
    and "length (spare s') + k = length (spare s)"
  using assms
proof (induction k arbitrary: bt s M thesis)
  case 0
  from 0(1) [of "[]" s] show ?case using 0(2) by simp
next
  case (Suc k)
  from Suc.prems(3) have "alloc s \<noteq> None" by (auto simp: alloc_None)
  then obtain b s1 where a: "alloc s = Some (b, s1)" by auto
  from alloc_acct [OF Suc.prems(2) a] have
    b: "acct s1 (add_mset b M)" "b \<notin># M" "slack s1 (add_mset b M) = slack s M" by simp_all
  have k: "k \<le> length (spare s1)" using Suc.prems(3) alloc_spare [OF a] by simp
  obtain new s' where n: "alloc_loop alloc free k (bt @ [b]) s1 = (Some ((bt @ [b]) @ new), s')"
    "length new = k" "distinct new" "set new \<inter> set_mset (add_mset b M) = {}"
    "acct s' (add_mset b M + mset new)" "slack s' (add_mset b M + mset new) = slack s1 (add_mset b M)"
    "length (spare s') + k = length (spare s1)"
    using Suc.IH [OF _ b(1) k, of "bt @ [b]"] by metis
  show ?case
    by (rule Suc.prems(1) [of "b # new" s'])
       (use a b n alloc_spare [OF a] in \<open>auto simp: ac_simps\<close>)
qed

text \<open>Whatever happens, the loop keeps the accounts: a failed run gives back what it took.\<close>

lemma alloc_loop_None:
  "acct s (M + mset bt) \<Longrightarrow> alloc_loop alloc free k bt s = (None, s') \<Longrightarrow>
   acct s' M \<and> slack s' M = slack s (M + mset bt)"
proof (induction k arbitrary: bt s)
  case 0
  then show ?case by simp
next
  case (Suc k)
  show ?case
  proof (cases "alloc s")
    case None
    with Suc.prems fold_free [OF Suc.prems(1)] show ?thesis by simp
  next
    case (Some p)
    then obtain b s1 where a: "alloc s = Some (b, s1)" by (cases p) auto
    from alloc_acct [OF Suc.prems(1) a] have
      "acct s1 (M + mset (bt @ [b]))" "slack s1 (M + mset (bt @ [b])) = slack s (M + mset bt)"
      by (simp_all add: ac_simps)
    with Suc.IH [of s1 "bt @ [b]"] a Suc.prems(2) show ?thesis by simp
  qed
qed

end

end
