(* ===== verification/Config_Schema.thy ===== *)
theory Config_Schema
  imports Prelude Complex_Main
begin

text \<open>
  \<open>include/truellm/config_schema.h\<close>: the typed structs of the server configuration and their
  compiled-in defaults. A \<open>float\<close> field is a real, \<open>uint16_t port\<close> an int (the parser's
  conversion writes out the wrap-around), the settings map a partial function.
\<close>

record server_config =
  sv_host :: string
  sv_port :: int
  sv_api_key :: string
  sv_cors_origins :: "string list"
  sv_request_timeout_ms :: int
  sv_max_concurrent :: int
  sv_tls_enabled :: bool
  sv_tls_cert_file :: string
  sv_tls_key_file :: string
  sv_enable_debug_endpoints :: bool

definition default_server :: server_config where
  "default_server = \<lparr>sv_host = ''127.0.0.1'',
     sv_port = 8080,
     sv_api_key = [],
     sv_cors_origins = [''*''],
     sv_request_timeout_ms = 30000,
     sv_max_concurrent = 4,
     sv_tls_enabled = False,
     sv_tls_cert_file = [],
     sv_tls_key_file = [],
     sv_enable_debug_endpoints = False\<rparr>"

record model_config =
  md_path :: string
  md_hf_repo :: string
  md_hf_file :: string
  md_alias :: string
  md_chat_template :: string
  md_trust_remote_code :: bool

definition default_model :: model_config where
  "default_model = \<lparr>md_path = [],
     md_hf_repo = [],
     md_hf_file = [],
     md_alias = [],
     md_chat_template = ''auto'',
     md_trust_remote_code = False\<rparr>"

record kv_cache_config =
  kc_type_k :: string
  kc_type_v :: string
  kc_size_mb :: int

definition default_kv_cache :: kv_cache_config where
  "default_kv_cache = \<lparr>kc_type_k = ''f16'',
     kc_type_v = ''f16'',
     kc_size_mb = 0\<rparr>"

record cuda_inference_config =
  ci_gpu_layers :: int
  ci_main_gpu :: int
  ci_tensor_split :: "real list"
  ci_gpu_memory_utilization :: real
  ci_use_flash_attention_cuda :: bool
  ci_compute_capability_major :: int
  ci_compute_capability_minor :: int

definition default_cuda_inference :: cuda_inference_config where
  "default_cuda_inference = \<lparr>ci_gpu_layers = -1,
     ci_main_gpu = 0,
     ci_tensor_split = [],
     ci_gpu_memory_utilization = (9 / 10),
     ci_use_flash_attention_cuda = True,
     ci_compute_capability_major = 0,
     ci_compute_capability_minor = 0\<rparr>"

record cuda_engine_config =
  ce_paged_kv_block_size :: int
  ce_max_num_blocks :: int
  ce_max_num_seqs :: int
  ce_num_cuda_streams :: int
  ce_use_fp8_kv :: bool
  ce_gpu_memory_utilization :: real
  ce_tensor_parallel_size :: int
  ce_enforce_eager :: bool
  ce_cuda_graph_max_batch_size :: int
  ce_attention_layout :: string
  ce_use_megakernel :: bool
  ce_megakernel_save_attn :: bool
  ce_megakernel_save_hidden :: bool

definition default_cuda_engine :: cuda_engine_config where
  "default_cuda_engine = \<lparr>ce_paged_kv_block_size = 16,
     ce_max_num_blocks = 0,
     ce_max_num_seqs = 256,
     ce_num_cuda_streams = 3,
     ce_use_fp8_kv = False,
     ce_gpu_memory_utilization = (9 / 10),
     ce_tensor_parallel_size = 1,
     ce_enforce_eager = False,
     ce_cuda_graph_max_batch_size = 8,
     ce_attention_layout = ''paged'',
     ce_use_megakernel = False,
     ce_megakernel_save_attn = False,
     ce_megakernel_save_hidden = False\<rparr>"

record presis_config =
  ps_enabled :: bool
  ps_threshold :: real
  ps_keep_fraction :: real
  ps_importance_layers :: int
  ps_fallback_tfidf :: bool
  ps_max_seqlen_for_attn :: int

definition default_presis :: presis_config where
  "default_presis = \<lparr>ps_enabled = True,
     ps_threshold = (85 / 100),
     ps_keep_fraction = (6 / 10),
     ps_importance_layers = 4,
     ps_fallback_tfidf = True,
     ps_max_seqlen_for_attn = 2048\<rparr>"

record tome_config =
  tm_enabled :: bool
  tm_r :: int
  tm_start_layer :: int
  tm_apply_all_layers :: bool
  tm_merge_mode :: string

definition default_tome :: tome_config where
  "default_tome = \<lparr>tm_enabled = False,
     tm_r = 8,
     tm_start_layer = 0,
     tm_apply_all_layers = False,
     tm_merge_mode = ''mean''\<rparr>"

record fastv_config =
  fv_enabled :: bool
  fv_start_layer :: int
  fv_keep_ratio :: real
  fv_importance_metric :: string

definition default_fastv :: fastv_config where
  "default_fastv = \<lparr>fv_enabled = False,
     fv_start_layer = 8,
     fv_keep_ratio = (5 / 10),
     fv_importance_metric = ''attn_sum''\<rparr>"

record pyramid_drop_config =
  pd_enabled :: bool
  pd_final_keep_ratio :: real
  pd_drop_schedule :: string
  pd_warmup_layers :: int
  pd_protect_last_n_tokens :: int

definition default_pyramid_drop :: pyramid_drop_config where
  "default_pyramid_drop = \<lparr>pd_enabled = False,
     pd_final_keep_ratio = (3 / 10),
     pd_drop_schedule = ''cosine'',
     pd_warmup_layers = 4,
     pd_protect_last_n_tokens = 8\<rparr>"

record kivi_config =
  ki_enabled :: bool
  ki_bits :: int
  ki_residual_length :: int
  ki_key_granularity :: string
  ki_value_granularity :: string
  ki_pre_rope_keys :: bool

definition default_kivi :: kivi_config where
  "default_kivi = \<lparr>ki_enabled = False,
     ki_bits = 8,
     ki_residual_length = 128,
     ki_key_granularity = ''per_channel'',
     ki_value_granularity = ''per_token'',
     ki_pre_rope_keys = True\<rparr>"

record vq_config =
  vq_enabled :: bool
  vq_codebook_size :: int
  vq_update_rate :: real
  vq_residual_depth :: int
  vq_outlier_tracing :: bool
  vq_calibration_text :: string
  vq_disable_in_subcalls :: bool

definition default_vq :: vq_config where
  "default_vq = \<lparr>vq_enabled = False,
     vq_codebook_size = 256,
     vq_update_rate = (1 / 1000),
     vq_residual_depth = 1,
     vq_outlier_tracing = True,
     vq_calibration_text = [],
     vq_disable_in_subcalls = True\<rparr>"

record compression_config =
  cp_enabled :: bool
  cp_pipeline :: string
  cp_presis :: presis_config
  cp_tome :: tome_config
  cp_fastv :: fastv_config
  cp_pyramid_drop :: pyramid_drop_config
  cp_kv_kivi :: kivi_config
  cp_kv_vq :: vq_config

definition default_compression :: compression_config where
  "default_compression = \<lparr>cp_enabled = False,
     cp_pipeline = ''presis'',
     cp_presis = default_presis,
     cp_tome = default_tome,
     cp_fastv = default_fastv,
     cp_pyramid_drop = default_pyramid_drop,
     cp_kv_kivi = default_kivi,
     cp_kv_vq = default_vq\<rparr>"

record rlm_config =
  rm_enabled :: bool
  rm_chunk_size_tokens :: int
  rm_chunk_overlap_tokens :: int
  rm_summary_tokens_per_chunk :: int
  rm_max_hierarchy_depth :: int
  rm_chunk_cache_enabled :: bool

definition default_rlm :: rlm_config where
  "default_rlm = \<lparr>rm_enabled = False,
     rm_chunk_size_tokens = 512,
     rm_chunk_overlap_tokens = 64,
     rm_summary_tokens_per_chunk = 32,
     rm_max_hierarchy_depth = 1,
     rm_chunk_cache_enabled = False\<rparr>"

record batching_config =
  bt_enabled :: bool
  bt_max_seqs :: int
  bt_max_queue :: int
  bt_kv_unified :: bool

definition default_batching :: batching_config where
  "default_batching = \<lparr>bt_enabled = False,
     bt_max_seqs = 8,
     bt_max_queue = 256,
     bt_kv_unified = True\<rparr>"

record reasoning_config =
  rs_format :: string
  rs_enable_thinking :: bool

definition default_reasoning :: reasoning_config where
  "default_reasoning = \<lparr>rs_format = ''auto'',
     rs_enable_thinking = True\<rparr>"

record inference_config =
  inf_backend :: string
  inf_context_size :: int
  inf_batch_size :: int
  inf_ubatch_size :: int
  inf_threads :: int
  inf_flash_attention :: bool
  inf_mmap :: bool
  inf_mlock :: bool
  inf_numa :: string
  inf_kv_cache :: kv_cache_config
  inf_cuda :: cuda_inference_config
  inf_cuda_engine :: cuda_engine_config
  inf_batching :: batching_config
  inf_compression :: compression_config
  inf_rlm :: rlm_config
  inf_reasoning :: reasoning_config

definition default_inference :: inference_config where
  "default_inference = \<lparr>inf_backend = ''cpu'',
     inf_context_size = 4096,
     inf_batch_size = 512,
     inf_ubatch_size = 512,
     inf_threads = 0,
     inf_flash_attention = True,
     inf_mmap = True,
     inf_mlock = False,
     inf_numa = ''disabled'',
     inf_kv_cache = default_kv_cache,
     inf_cuda = default_cuda_inference,
     inf_cuda_engine = default_cuda_engine,
     inf_batching = default_batching,
     inf_compression = default_compression,
     inf_rlm = default_rlm,
     inf_reasoning = default_reasoning\<rparr>"

record sampling_config =
  smp_temperature :: real
  smp_top_p :: real
  smp_top_k :: int
  smp_min_p :: real
  smp_repeat_penalty :: real
  smp_frequency_penalty :: real
  smp_presence_penalty :: real
  smp_max_tokens :: int
  smp_seed :: int
  smp_stop :: "string list"

definition default_sampling :: sampling_config where
  "default_sampling = \<lparr>smp_temperature = (7 / 10),
     smp_top_p = (95 / 100),
     smp_top_k = 40,
     smp_min_p = (5 / 100),
     smp_repeat_penalty = (11 / 10),
     smp_frequency_penalty = 0,
     smp_presence_penalty = 0,
     smp_max_tokens = 2048,
     smp_seed = -1,
     smp_stop = []\<rparr>"

record logging_config =
  lg_level :: string
  lg_format :: string
  lg_file :: string
  lg_timestamps :: bool
  lg_source_location :: bool

definition default_logging :: logging_config where
  "default_logging = \<lparr>lg_level = ''info'',
     lg_format = ''text'',
     lg_file = [],
     lg_timestamps = True,
     lg_source_location = False\<rparr>"

record gpu_device_config =
  gd_enabled :: bool
  gd_device_id :: int
  gd_name_hint :: string
  gd_vram_capacity_gb :: real
  gd_backend_api :: string

definition default_gpu_device :: gpu_device_config where
  "default_gpu_device = \<lparr>gd_enabled = True,
     gd_device_id = 0,
     gd_name_hint = [],
     gd_vram_capacity_gb = 0,
     gd_backend_api = ''cuda''\<rparr>"

record offload_config =
  of_use_gpu_vram :: bool
  of_use_system_ram :: bool
  of_use_shared_memory :: bool
  of_gpu_layers :: int
  of_vram_budget_fraction :: real

definition default_offload :: offload_config where
  "default_offload = \<lparr>of_use_gpu_vram = True,
     of_use_system_ram = True,
     of_use_shared_memory = False,
     of_gpu_layers = -1,
     of_vram_budget_fraction = 1\<rparr>"

record guardrails_config =
  gr_preset :: string
  gr_max_model_size_gb :: real
  gr_allow_overcommit :: bool
  gr_ram_fraction_limit :: real
  gr_vram_fraction_limit :: real

definition default_guardrails :: guardrails_config where
  "default_guardrails = \<lparr>gr_preset = ''balanced'',
     gr_max_model_size_gb = 0,
     gr_allow_overcommit = False,
     gr_ram_fraction_limit = 0,
     gr_vram_fraction_limit = 0\<rparr>"

record hardware_config =
  hw_cpu_threads :: int
  hw_cpu_affinity :: "int list"
  hw_max_ram_gb :: real
  hw_resource_monitor_interval_ms :: int
  hw_gpu :: gpu_device_config
  hw_offload :: offload_config
  hw_guardrails :: guardrails_config

definition default_hardware :: hardware_config where
  "default_hardware = \<lparr>hw_cpu_threads = 0,
     hw_cpu_affinity = [],
     hw_max_ram_gb = 0,
     hw_resource_monitor_interval_ms = 1000,
     hw_gpu = default_gpu_device,
     hw_offload = default_offload,
     hw_guardrails = default_guardrails\<rparr>"

record harmony_config =
  hm_enabled :: bool
  hm_version :: string

definition default_harmony :: harmony_config where
  "default_harmony = \<lparr>hm_enabled = False,
     hm_version = ''latest''\<rparr>"

record runtime_extension_config =
  rx_name :: string
  rx_enabled :: bool
  rx_version :: string

definition default_runtime_extension :: runtime_extension_config where
  "default_runtime_extension = \<lparr>rx_name = [],
     rx_enabled = False,
     rx_version = ''latest''\<rparr>"

record runtime_config =
  rt_engine :: string
  rt_engine_version :: string
  rt_auto_update :: bool
  rt_update_channel :: string
  rt_harmony :: harmony_config
  rt_extensions :: "runtime_extension_config list"

definition default_runtime :: runtime_config where
  "default_runtime = \<lparr>rt_engine = ''cpu-llama-cpp'',
     rt_engine_version = ''latest'',
     rt_auto_update = False,
     rt_update_channel = ''stable'',
     rt_harmony = default_harmony,
     rt_extensions = []\<rparr>"

record plugin_config =
  pl_enabled :: bool
  pl_python_path :: string
  pl_plugin_dirs :: "string list"
  pl_socket_path :: string
  pl_sidecar_timeout_ms :: int
  pl_restart_on_crash :: bool
  pl_max_restart_attempts :: int
  pl_data_dir :: string
  pl_tool_max_rounds :: int
  pl_context_split_enabled :: bool
  pl_context_split_strategy :: string
  pl_context_split_trigger_fraction :: real
  pl_context_split_truncate_fraction :: real
  pl_context_split_auto_chunk_fraction :: real
  pl_context_split_chunk_tokens :: int
  pl_context_split_max_chunks :: int
  pl_context_split_summary_tokens :: int
  pl_settings :: "string \<rightharpoonup> string"

definition default_plugin :: plugin_config where
  "default_plugin = \<lparr>pl_enabled = False,
     pl_python_path = ''python3'',
     pl_plugin_dirs = [],
     pl_socket_path = [],
     pl_sidecar_timeout_ms = 5000,
     pl_restart_on_crash = True,
     pl_max_restart_attempts = 3,
     pl_data_dir = [],
     pl_tool_max_rounds = 5,
     pl_context_split_enabled = True,
     pl_context_split_strategy = ''summarize'',
     pl_context_split_trigger_fraction = (5 / 10),
     pl_context_split_truncate_fraction = (6 / 10),
     pl_context_split_auto_chunk_fraction = (55 / 100),
     pl_context_split_chunk_tokens = 0,
     pl_context_split_max_chunks = 8,
     pl_context_split_summary_tokens = 300,
     pl_settings = Map.empty\<rparr>"

record truellm_config =
  tc_profile :: string
  tc_server :: server_config
  tc_model :: model_config
  tc_inference :: inference_config
  tc_sampling :: sampling_config
  tc_logging :: logging_config
  tc_hardware :: hardware_config
  tc_runtime :: runtime_config
  tc_plugins :: plugin_config

definition default_truellm :: truellm_config where
  "default_truellm = \<lparr>tc_profile = [],
     tc_server = default_server,
     tc_model = default_model,
     tc_inference = default_inference,
     tc_sampling = default_sampling,
     tc_logging = default_logging,
     tc_hardware = default_hardware,
     tc_runtime = default_runtime,
     tc_plugins = default_plugin\<rparr>"

end
