(* ===== verification/Kv_Allocator.thy ===== *)
theory Kv_Allocator
  imports Block_Interface Config_Schema
begin

text \<open>
  \<open>src/inference/backends/cuda/cuda_allocator.{h,cpp}\<close>: the paged KV block pool. The state keeps
  the free stack, the reference counts, the block table of every sequence, the map of evicted
  sequences, and the contents of the device pool and of the pinned eviction buffer as byte
  functions of the offset. Block ids are positions in the pool (\<^typ>\<open>nat\<close>; the -1 of
  \<open>alloc_block_locked\<close> is \<^const>\<open>None\<close>), sequence ids are only compared. Signed overflow, division
  by zero and failing asserts are error values. Copies enqueued on the copy stream take effect in
  order. The mutex makes every public operation atomic.
\<close>

section \<open>State\<close>

type_synonym bytes = "nat \<Rightarrow> 8 word"

record kv_state =
  k_block_size :: int
  k_max_blocks :: nat
  k_max_per_seq :: nat
  k_layers :: int
  k_kv_heads :: int
  k_head_size :: int
  k_fp8 :: bool
  k_dev :: bytes
  k_host :: bytes
  k_host_blocks :: nat
  k_tables :: "(nat \<times> nat list) list"
  k_refs :: "int list"
  k_free :: "nat list"
  k_evicted :: "nat \<Rightarrow> nat option"

datatype kv_error = NoVramForPool | CudaError | KvUb ub

definition bytes_of_block :: "int \<Rightarrow> int \<Rightarrow> int \<Rightarrow> int \<Rightarrow> bool \<Rightarrow> int" where
  "bytes_of_block layers bsize heads hsize fp8 =
     cast_s32 (2 * layers * bsize * heads * hsize * (if fp8 then 1 else 2))"

definition bytes_per_block :: "kv_state \<Rightarrow> int" where
  "bytes_per_block s =
     bytes_of_block (k_layers s) (k_block_size s) (k_kv_heads s) (k_head_size s) (k_fp8 s)"

text \<open>
  The constructor. \<open>free_bytes\<close> is what \<open>cudaMemGetInfo\<close> reports, \<open>malloc_ok\<close> says which
  allocation sizes \<open>cudaMalloc\<close> grants, \<open>fl\<close> rounds to \<open>float\<close>, \<open>junk\<close> is the content of
  the not yet allocated host buffer.
\<close>

definition auto_pool_size ::
  "(real \<Rightarrow> real) \<Rightarrow> nat \<Rightarrow> real \<Rightarrow> int \<Rightarrow> kv_error + int" where
  "auto_pool_size fl free_bytes utilization bpb =
     (let util = (if 0 < utilization then utilization else 9/10);
          budget = \<lfloor>fl (fl (real free_bytes) * util)\<rfloor>
      in if bpb = 0 then Inl (KvUb DivByZero)
         else Inr (cast_s32 (budget div (bpb mod 18446744073709551616))))"

definition kv_construct ::
  "(real \<Rightarrow> real) \<Rightarrow> (int \<Rightarrow> bool) \<Rightarrow> nat \<Rightarrow> bytes \<Rightarrow> cuda_engine_config \<Rightarrow>
   int \<Rightarrow> int \<Rightarrow> int \<Rightarrow> kv_error + kv_state" where
  "kv_construct fl malloc_ok free_bytes junk cfg layers heads hsize =
     (let bpb = bytes_of_block layers (ce_paged_kv_block_size cfg) heads hsize (ce_use_fp8_kv cfg)
      in case (if ce_max_num_blocks cfg \<le> 0
               then auto_pool_size fl free_bytes (ce_gpu_memory_utilization cfg) bpb
               else Inr (ce_max_num_blocks cfg)) of
           Inl e \<Rightarrow> Inl e
         | Inr n \<Rightarrow>
             if n \<le> 0 then Inl NoVramForPool
             else
               let per_seq = min n 2048
               in if \<not> malloc_ok (n * bpb) \<or> \<not> malloc_ok (per_seq * 4)
                     \<or> \<not> malloc_ok (per_seq * ce_paged_kv_block_size cfg * 4)
                  then Inl CudaError
                  else Inr \<lparr>k_block_size = ce_paged_kv_block_size cfg, k_max_blocks = nat n,
                            k_max_per_seq = nat per_seq, k_layers = layers, k_kv_heads = heads,
                            k_head_size = hsize, k_fp8 = ce_use_fp8_kv cfg,
                            k_dev = (\<lambda>_. 0), k_host = junk, k_host_blocks = 0, k_tables = [],
                            k_refs = replicate (nat n) 0, k_free = rev [0..<nat n],
                            k_evicted = Map.empty\<rparr>)"

section \<open>Blocks\<close>

definition alloc_block :: "kv_state \<Rightarrow> (nat \<times> kv_state) option" where
  "alloc_block s =
     (if k_free s = [] then None
      else let bid = last (k_free s)
           in Some (bid, s\<lparr>k_free := butlast (k_free s), k_refs := (k_refs s)[bid := 1]\<rparr>))"

definition free_block :: "nat \<Rightarrow> kv_state \<Rightarrow> kv_state" where
  "free_block bid s =
     (let r = k_refs s ! bid - 1
      in if r \<le> 0 then s\<lparr>k_refs := (k_refs s)[bid := 0], k_free := k_free s @ [bid]\<rparr>
         else s\<lparr>k_refs := (k_refs s)[bid := r]\<rparr>)"

text \<open>The counts cover the references \<open>M\<close>, and the free stack holds exactly the blocks
  with count 0, once each.\<close>

definition kv_acct :: "kv_state \<Rightarrow> nat multiset \<Rightarrow> bool" where
  "kv_acct s M \<longleftrightarrow>
     length (k_refs s) = k_max_blocks s \<and> distinct (k_free s) \<and>
     (\<forall>b. b \<in> set (k_free s) \<longleftrightarrow> b < k_max_blocks s \<and> k_refs s ! b = 0) \<and>
     (\<forall>b \<in># M. b < k_max_blocks s) \<and>
     (\<forall>b < k_max_blocks s. int (count M b) \<le> k_refs s ! b)"

definition kv_slack :: "kv_state \<Rightarrow> nat multiset \<Rightarrow> nat \<Rightarrow> int" where
  "kv_slack s M b = (if b < k_max_blocks s then k_refs s ! b - int (count M b) else 0)"

definition kv_frame :: "kv_state \<Rightarrow> kv_state" where
  "kv_frame s = s\<lparr>k_refs := [], k_free := []\<rparr>"

lemma alloc_block_Some:
  assumes "alloc_block s = Some (b, s')"
  shows "k_free s = k_free s' @ [b]"
    and "s' = s\<lparr>k_free := butlast (k_free s), k_refs := (k_refs s)[b := 1]\<rparr>"
  using assms by (auto simp: alloc_block_def Let_def split: if_splits)

lemma alloc_block_acct:
  assumes acct: "kv_acct s M" and a: "alloc_block s = Some (b, s')"
  shows "kv_acct s' (add_mset b M) \<and> b \<notin># M \<and> kv_slack s' (add_mset b M) = kv_slack s M"
proof -
  note f = alloc_block_Some [OF a]
  have free: "b \<in> set (k_free s)" "b \<notin> set (k_free s')"
    using acct f(1) by (auto simp: kv_acct_def)
  then have b: "b < k_max_blocks s" "k_refs s ! b = 0" using acct by (auto simp: kv_acct_def)
  then have "int (count M b) \<le> 0" using acct by (auto simp: kv_acct_def)
  then have c: "b \<notin># M" by (simp add: not_in_iff)
  have set': "set (k_free s') = set (k_free s) - {b}" and d: "distinct (k_free s')"
    using f(1) acct free(2) by (auto simp: kv_acct_def)
  have refs: "k_refs s' ! x = (if x = b then 1 else k_refs s ! x)" if "x < k_max_blocks s" for x
    using that acct b f(2) by (simp add: kv_acct_def)
  have max: "k_max_blocks s' = k_max_blocks s" "length (k_refs s') = length (k_refs s)"
    using f(2) by simp_all
  have "kv_acct s' (add_mset b M)"
    using acct set' d b refs max c unfolding kv_acct_def
    by (auto simp: not_in_iff split: if_splits)
  moreover have "kv_slack s' (add_mset b M) = kv_slack s M"
    using refs max b c by (auto simp: kv_slack_def not_in_iff fun_eq_iff)
  ultimately show ?thesis using c by simp
qed

lemma free_block_acct:
  assumes acct: "kv_acct s (add_mset b M)"
  shows "kv_acct (free_block b s) M \<and> kv_slack (free_block b s) M = kv_slack s (add_mset b M)"
proof -
  have b: "b < k_max_blocks s" "1 \<le> k_refs s ! b" "b < length (k_refs s)"
    using acct by (auto simp: kv_acct_def dest: spec [of _ b])
  have cnt: "int (count M b) + 1 \<le> k_refs s ! b"
    using acct b(1) by (auto simp: kv_acct_def dest: spec [of _ b])
  have nf: "b \<notin> set (k_free s)" using acct b(2) by (auto simp: kv_acct_def)
  have refs: "k_refs (free_block b s) ! x = (if x = b then k_refs s ! b - 1 else k_refs s ! x)"
    if "x < k_max_blocks s" for x
    using that b by (simp add: free_block_def Let_def)
  have max: "k_max_blocks (free_block b s) = k_max_blocks s"
    "length (k_refs (free_block b s)) = length (k_refs s)"
    by (simp_all add: free_block_def Let_def)
  have fr: "k_free (free_block b s) = (if k_refs s ! b = 1 then k_free s @ [b] else k_free s)"
    using b(2) by (simp add: free_block_def Let_def)
  have "kv_acct (free_block b s) M"
    using acct refs max fr nf b cnt unfolding kv_acct_def by (auto split: if_splits)
  moreover have "kv_slack (free_block b s) M = kv_slack s (add_mset b M)"
    using refs max b by (auto simp: kv_slack_def fun_eq_iff)
  ultimately show ?thesis by simp
qed

interpretation kv: block_pool alloc_block free_block kv_acct k_free kv_slack kv_frame
proof unfold_locales
  fix s :: kv_state
  show "alloc_block s = None \<longleftrightarrow> k_free s = []" by (simp add: alloc_block_def Let_def)
next
  fix s M b s'
  assume "kv_acct s M" "alloc_block s = Some (b, s')"
  then show "kv_acct s' (add_mset b M) \<and> b \<notin># M \<and> kv_slack s' (add_mset b M) = kv_slack s M"
    by (rule alloc_block_acct)
next
  fix s b s'
  assume "alloc_block s = Some (b, s')"
  then show "length (k_free s) = Suc (length (k_free s'))" by (simp add: alloc_block_Some(1))
next
  fix s b s'
  assume "alloc_block s = Some (b, s')"
  then have "s' = s\<lparr>k_free := butlast (k_free s), k_refs := (k_refs s)[b := 1]\<rparr>"
    by (rule alloc_block_Some(2))
  then show "kv_frame s' = kv_frame s" by (simp add: kv_frame_def)
next
  fix s M b
  assume "kv_acct s (add_mset b M)"
  then show "kv_acct (free_block b s) M \<and> kv_slack (free_block b s) M = kv_slack s (add_mset b M)"
    by (rule free_block_acct)
next
  fix s b
  show "kv_frame (free_block b s) = kv_frame s"
    by (simp add: kv_frame_def free_block_def Let_def)
qed

section \<open>Sequences\<close>

definition table_of :: "kv_state \<Rightarrow> nat \<Rightarrow> nat list option" where
  "table_of s sid = map_of (k_tables s) sid"

definition blocks_needed :: "int \<Rightarrow> int \<Rightarrow> int exec" where
  "blocks_needed bsize n =
     ebind (s32 (n + bsize)) (\<lambda>a. ebind (s32 (a - 1)) (\<lambda>b.
       if bsize = 0 then Inl DivByZero else ebind (s32 (tdiv b bsize)) (\<lambda>q. Inr (max q 1))))"

definition allocate_sequence :: "nat \<Rightarrow> int \<Rightarrow> kv_state \<Rightarrow> (bool \<times> kv_state) exec" where
  "allocate_sequence sid num_prompt_tokens s =
     (if table_of s sid \<noteq> None then Inr (False, s)
      else ebind (blocks_needed (k_block_size s) num_prompt_tokens) (\<lambda>num_blocks.
        if int (length (k_free s)) < num_blocks then Inr (False, s)
        else case alloc_loop alloc_block free_block (nat num_blocks) [] s of
               (None, s') \<Rightarrow> Inr (False, s')
             | (Some bt, s') \<Rightarrow> Inr (True, s'\<lparr>k_tables := AList.update sid bt (k_tables s')\<rparr>)))"

definition extend_sequence :: "nat \<Rightarrow> kv_state \<Rightarrow> nat option \<times> kv_state" where
  "extend_sequence sid s =
     (case table_of s sid of
        None \<Rightarrow> (None, s)
      | Some bt \<Rightarrow>
          (case alloc_block s of
             None \<Rightarrow> (None, s)
           | Some (bid, s') \<Rightarrow>
               (Some bid, s'\<lparr>k_tables := AList.update sid (bt @ [bid]) (k_tables s')\<rparr>)))"

definition free_sequence :: "nat \<Rightarrow> kv_state \<Rightarrow> kv_state" where
  "free_sequence sid s =
     (case table_of s sid of
        None \<Rightarrow> s
      | Some bt \<Rightarrow>
          let s' = fold free_block bt s
          in s'\<lparr>k_tables := AList.delete sid (k_tables s'),
                k_evicted := (k_evicted s')(sid := None)\<rparr>)"

definition add_ref :: "nat \<Rightarrow> kv_state \<Rightarrow> kv_state" where
  "add_ref bid s = s\<lparr>k_refs := (k_refs s)[bid := k_refs s ! bid + 1]\<rparr>"

definition copy_sequence :: "nat \<Rightarrow> nat \<Rightarrow> kv_state \<Rightarrow> bool \<times> kv_state" where
  "copy_sequence src dst s =
     (case table_of s src of
        None \<Rightarrow> (False, s)
      | Some bt \<Rightarrow> (True, fold add_ref bt (s\<lparr>k_tables := AList.update dst bt (k_tables s)\<rparr>)))"

section \<open>Kernel arguments\<close>

text \<open>The device block table of a sequence, padded with -1 to the staging buffer's length.\<close>

definition get_device_block_table :: "nat \<Rightarrow> kv_state \<Rightarrow> int list option exec" where
  "get_device_block_table sid s =
     (case table_of s sid of
        None \<Rightarrow> Inr None
      | Some bt \<Rightarrow>
          if k_max_per_seq s < length bt then Inl AssertFail
          else Inr (Some (map int bt @ replicate (k_max_per_seq s - length bt) (-1))))"

definition slot_of :: "int \<Rightarrow> nat list \<Rightarrow> int \<Rightarrow> int exec" where
  "slot_of bsize bt pos =
     (if bsize = 0 then Inl DivByZero
      else let idx = tdiv pos bsize; off = tmod pos bsize
           in if idx < 0 then Inl OutOfRange
              else if int (length bt) \<le> idx then Inl AssertFail
              else ebind (s32 (int (bt ! nat idx) * bsize)) (\<lambda>base. s32 (base + off)))"

fun slot_loop :: "int \<Rightarrow> nat list \<Rightarrow> int \<Rightarrow> nat \<Rightarrow> int list exec" where
  "slot_loop bsize bt pos 0 = Inr []"
| "slot_loop bsize bt pos (Suc n) =
     ebind (slot_of bsize bt pos) (\<lambda>x. ebind (slot_loop bsize bt (pos + 1) n) (\<lambda>xs. Inr (x # xs)))"

definition get_device_slot_mapping :: "nat \<Rightarrow> nat \<Rightarrow> int \<Rightarrow> kv_state \<Rightarrow> int list option exec" where
  "get_device_slot_mapping sid num_tokens seq_start_pos s =
     (case table_of s sid of
        None \<Rightarrow> Inr None
      | Some bt \<Rightarrow> ebind (slot_loop (k_block_size s) bt seq_start_pos num_tokens) (\<lambda>xs. Inr (Some xs)))"

section \<open>Capacity\<close>

record kv_cache_stats =
  st_block_size_tokens :: int
  st_blocks_total :: int
  st_blocks_used :: int
  st_blocks_free :: int
  st_utilization_pct :: real
  st_fp8_enabled :: bool

definition num_free_blocks :: "kv_state \<Rightarrow> int" where
  "num_free_blocks s = int (length (k_free s))"

definition kv_stats :: "(real \<Rightarrow> real) \<Rightarrow> kv_state \<Rightarrow> kv_cache_stats" where
  "kv_stats fl s =
     (let used = int (k_max_blocks s) - int (length (k_free s))
      in \<lparr>st_block_size_tokens = k_block_size s, st_blocks_total = int (k_max_blocks s),
          st_blocks_used = used, st_blocks_free = int (length (k_free s)),
          st_utilization_pct =
            (if 0 < k_max_blocks s then fl (fl (100 * of_int used) / of_nat (k_max_blocks s)) else 0),
          st_fp8_enabled = k_fp8 s\<rparr>)"

section \<open>Eviction\<close>

definition copy_bytes :: "nat \<Rightarrow> nat \<Rightarrow> nat \<Rightarrow> bytes \<Rightarrow> bytes \<Rightarrow> bytes" where
  "copy_bytes n doff soff dst src =
     (\<lambda>i. if doff \<le> i \<and> i < doff + n then src (soff + (i - doff)) else dst i)"

text \<open>The offset \<open>i * bpb\<close> of the pointer arithmetic, an \<open>int\<close> product.\<close>

definition byte_off :: "nat \<Rightarrow> int \<Rightarrow> nat exec" where
  "byte_off i bpb =
     (if bpb < 0 then Inl OutOfRange else ebind (s32 (int i * bpb)) (\<lambda>off. Inr (nat off)))"

fun evict_loop :: "int \<Rightarrow> nat \<Rightarrow> nat list \<Rightarrow> kv_state \<Rightarrow> kv_state exec" where
  "evict_loop bpb i [] s = Inr s"
| "evict_loop bpb i (phys # bt) s =
     ebind (byte_off phys bpb) (\<lambda>soff. ebind (byte_off i bpb) (\<lambda>doff.
       evict_loop bpb (Suc i) bt
         (free_block phys (s\<lparr>k_host := copy_bytes (nat bpb) doff soff (k_host s) (k_dev s)\<rparr>))))"

definition ensure_host :: "bytes \<Rightarrow> nat \<Rightarrow> kv_state \<Rightarrow> kv_state" where
  "ensure_host junk n s =
     (if k_host_blocks s < n then s\<lparr>k_host := junk, k_host_blocks := 2 * n\<rparr> else s)"

definition evict_sequence :: "bytes \<Rightarrow> nat \<Rightarrow> kv_state \<Rightarrow> (bool \<times> kv_state) exec" where
  "evict_sequence junk sid s =
     (case table_of s sid of
        None \<Rightarrow> Inr (False, s)
      | Some bt \<Rightarrow>
          if k_evicted s sid \<noteq> None then Inr (True, s)
          else ebind (evict_loop (bytes_per_block s) 0 bt (ensure_host junk (length bt) s)) (\<lambda>s'.
            Inr (True, s'\<lparr>k_evicted := (k_evicted s')(sid \<mapsto> length bt),
                          k_tables := AList.update sid [] (k_tables s')\<rparr>)))"

fun reload_loop :: "int \<Rightarrow> nat \<Rightarrow> nat \<Rightarrow> nat \<Rightarrow> nat list \<Rightarrow> kv_state \<Rightarrow> (bool \<times> kv_state) exec" where
  "reload_loop bpb sid i 0 bt s = Inr (True, s)"
| "reload_loop bpb sid i (Suc n) bt s =
     (case alloc_block s of
        None \<Rightarrow> Inr (False, s)
      | Some (bid, s') \<Rightarrow>
          ebind (byte_off i bpb) (\<lambda>soff. ebind (byte_off bid bpb) (\<lambda>doff.
            reload_loop bpb sid (Suc i) n (bt @ [bid])
              (s'\<lparr>k_tables := AList.update sid (bt @ [bid]) (k_tables s'),
                  k_dev := copy_bytes (nat bpb) doff soff (k_dev s') (k_host s')\<rparr>))))"

definition reload_sequence :: "nat \<Rightarrow> kv_state \<Rightarrow> (bool \<times> kv_state) exec" where
  "reload_sequence sid s =
     (case k_evicted s sid of
        None \<Rightarrow> Inr (False, s)
      | Some n \<Rightarrow>
          let bt = (case table_of s sid of None \<Rightarrow> [] | Some bt \<Rightarrow> bt);
              s0 = s\<lparr>k_tables := AList.update sid bt (k_tables s)\<rparr>
          in ebind (reload_loop (bytes_per_block s) sid 0 n bt s0) (\<lambda>(ok, s').
               if ok then Inr (True, s'\<lparr>k_evicted := (k_evicted s')(sid := None)\<rparr>)
               else Inr (False, s')))"

end
