(* ===== verification/Kv_Properties.thy ===== *)
theory Kv_Properties
  imports Kv_Allocator
begin

text \<open>
  Correctness of the KV allocator: the accounting invariant over whole runs of public operations,
  the isolation of sequences from each other, the slot mapping, the eviction round trip, and the
  places where the operations break their contract.
\<close>

section \<open>The accounting invariant\<close>

definition owners :: "kv_state \<Rightarrow> nat multiset" where
  "owners s = mset (concat (map snd (k_tables s)))"

definition kv_inv :: "kv_state \<Rightarrow> bool" where
  "kv_inv s \<longleftrightarrow> kv_acct s (owners s) \<and> distinct (map fst (k_tables s)) \<and>
     (\<forall>sid. k_evicted s sid \<noteq> None \<longrightarrow> table_of s sid \<noteq> None)"

definition leak :: "kv_state \<Rightarrow> nat \<Rightarrow> int" where
  "leak s = kv_slack s (owners s)"

definition flat :: "(nat \<times> nat list) list \<Rightarrow> nat multiset" where
  "flat ts = mset (concat (map snd ts))"

lemma owners_flat: "owners s = flat (k_tables s)"
  by (simp add: owners_def flat_def)

lemma flat_mset: "mset xs = mset ys \<Longrightarrow> flat xs = flat ys"
  unfolding flat_def by (metis mset_concat mset_map sum_mset_sum_list)

lemma flat_Cons: "flat (p # ts) = mset (snd p) + flat ts"
  by (simp add: flat_def)

lemma flat_update_new:
  "map_of ts sid = None \<Longrightarrow> flat (AList.update sid bt ts) = flat ts + mset bt"
  using flat_mset [of "AList.update sid bt ts" "(sid, bt) # ts"]
  by (simp add: mset_update_new flat_Cons ac_simps)

lemma flat_update_old:
  "distinct (map fst ts) \<Longrightarrow> map_of ts sid = Some bt0 \<Longrightarrow>
   flat (AList.update sid bt ts) = flat (AList.delete sid ts) + mset bt"
  using flat_mset [of "AList.update sid bt ts" "(sid, bt) # AList.delete sid ts"]
  by (simp add: mset_update_present flat_Cons ac_simps)

lemma flat_delete:
  "distinct (map fst ts) \<Longrightarrow> map_of ts sid = Some bt \<Longrightarrow>
   flat ts = flat (AList.delete sid ts) + mset bt"
  using flat_mset [of ts "(sid, bt) # AList.delete sid ts"]
  by (simp add: mset_delete_present [of ts sid bt] flat_Cons ac_simps)

lemma frame_fields:
  assumes "kv_frame s' = kv_frame s"
  shows "k_tables s' = k_tables s" "k_evicted s' = k_evicted s" "k_max_blocks s' = k_max_blocks s"
    "k_dev s' = k_dev s" "k_host s' = k_host s" "k_host_blocks s' = k_host_blocks s"
    "k_block_size s' = k_block_size s" "bytes_per_block s' = bytes_per_block s"
    "k_max_per_seq s' = k_max_per_seq s"
proof -
  note eqs = arg_cong [OF assms, of k_tables] arg_cong [OF assms, of k_evicted]
    arg_cong [OF assms, of k_max_blocks] arg_cong [OF assms, of k_dev]
    arg_cong [OF assms, of k_host] arg_cong [OF assms, of k_host_blocks]
    arg_cong [OF assms, of k_block_size] arg_cong [OF assms, of bytes_per_block]
    arg_cong [OF assms, of k_max_per_seq]
  show "k_tables s' = k_tables s" "k_evicted s' = k_evicted s" "k_max_blocks s' = k_max_blocks s"
    "k_dev s' = k_dev s" "k_host s' = k_host s" "k_host_blocks s' = k_host_blocks s"
    "k_block_size s' = k_block_size s" "bytes_per_block s' = bytes_per_block s"
    "k_max_per_seq s' = k_max_per_seq s"
    using eqs by (simp_all add: kv_frame_def bytes_per_block_def)
qed

text \<open>The accounts read only the counts and the free stack.\<close>

lemma kv_acct_cong:
  "k_refs s' = k_refs s \<Longrightarrow> k_free s' = k_free s \<Longrightarrow> k_max_blocks s' = k_max_blocks s \<Longrightarrow>
   kv_acct s' M = kv_acct s M \<and> kv_slack s' M = kv_slack s M"
  by (simp add: kv_acct_def kv_slack_def fun_eq_iff)

lemma table_of_update [simp]:
  "table_of (s\<lparr>k_tables := AList.update sid bt (k_tables s0)\<rparr>) x =
     (if x = sid then Some bt else map_of (k_tables s0) x)"
  by (simp add: table_of_def)

lemma kv_inv_frame:
  assumes fr: "kv_frame s' = kv_frame s" and acct: "kv_acct s' (owners s)"
    and slack: "kv_slack s' (owners s) = kv_slack s (owners s)" and inv: "kv_inv s"
  shows "kv_inv s' \<and> leak s' = leak s \<and> k_max_blocks s' = k_max_blocks s"
proof -
  have "owners s' = owners s" "table_of s' = table_of s"
    by (simp_all add: owners_def table_of_def fun_eq_iff frame_fields(1) [OF fr])
  then show ?thesis
    using acct slack inv frame_fields [OF fr] by (simp only: kv_inv_def leak_def) simp
qed

section \<open>Each operation keeps the invariant\<close>

lemma alloc_frame: "alloc_block s = Some (b, s') \<Longrightarrow> kv_frame s' = kv_frame s"
  by (rule kv.alloc_frame)

lemma allocate_inv:
  assumes inv: "kv_inv s" and run: "allocate_sequence sid n s = Inr (ok, s')"
  shows "kv_inv s' \<and> leak s' = leak s \<and> k_max_blocks s' = k_max_blocks s \<and>
    (ok \<longrightarrow> (\<exists>bt. table_of s sid = None \<and> table_of s' sid = Some bt \<and> distinct bt \<and>
       set bt \<inter> set_mset (owners s) = {}))"
proof (cases "ok")
  case False
  then have "s' = s \<or> (\<exists>k. alloc_loop alloc_block free_block k [] s = (None, s'))"
    using run by (auto simp: allocate_sequence_def ebind_eq_Inr split: if_splits option.splits
        prod.splits)
  then show ?thesis
  proof
    assume "s' = s" then show ?thesis using inv False by simp
  next
    assume "\<exists>k. alloc_loop alloc_block free_block k [] s = (None, s')"
    then obtain k where l: "alloc_loop alloc_block free_block k [] s = (None, s')" by blast
    then have "kv_acct s' (owners s) \<and> kv_slack s' (owners s) = kv_slack s (owners s)"
      using kv.alloc_loop_None [of s "owners s" "[]"] inv by (simp add: kv_inv_def)
    moreover have "kv_frame s' = kv_frame s"
      using kv.alloc_loop_frame [of k "[]" s] l by simp
    ultimately show ?thesis
      using inv False kv_inv_frame [of s' s] by simp
  qed
next
  case True
  then obtain x bt s1 where t: "table_of s sid = None" and x: "x \<le> int (length (k_free s))"
    and lx: "alloc_loop alloc_block free_block (nat x) [] s = (Some bt, s1)"
    and s': "s' = s1\<lparr>k_tables := AList.update sid bt (k_tables s1)\<rparr>"
    using run by (auto simp: allocate_sequence_def ebind_eq_Inr not_less
        split: if_splits option.splits prod.splits)
  define k where "k = nat x"
  have k: "k \<le> length (k_free s)" and l: "alloc_loop alloc_block free_block k [] s = (Some bt, s1)"
    using x lx by (auto simp: k_def)
  from inv have acct: "kv_acct s (owners s)" by (simp add: kv_inv_def)
  obtain new s2 where n: "alloc_loop alloc_block free_block k [] s = (Some ([] @ new), s2)"
    "length new = k" "distinct new" "set new \<inter> set_mset (owners s) = {}"
    "kv_acct s2 (owners s + mset new)" "kv_slack s2 (owners s + mset new) = kv_slack s (owners s)"
    using kv.alloc_loop_enough [OF acct k] by metis
  have eq: "new = bt" "s2 = s1" using n(1) l by simp_all
  have fr: "kv_frame s1 = kv_frame s" using kv.alloc_loop_frame [of k "[]" s] l by simp
  have ow: "owners s' = owners s + mset bt"
    using t frame_fields(1) [OF fr] s' by (simp add: owners_flat flat_update_new table_of_def)
  have "kv_acct s' (owners s') \<and> kv_slack s' (owners s') = kv_slack s (owners s)"
    using kv_acct_cong [of s' s1 "owners s'"] n eq ow s' by simp
  then show ?thesis
    using inv n eq ow s' t frame_fields [OF fr]
    by (auto simp: kv_inv_def leak_def table_of_def)
qed

text \<open>Appending a fresh block to a table, as \<open>extend_sequence\<close> and the reload loop do.\<close>

lemma push_block_inv:
  assumes inv: "kv_inv s" and t: "table_of s sid = Some bt" and a: "alloc_block s = Some (b, s1)"
    and s': "k_refs s' = k_refs s1" "k_free s' = k_free s1" "k_max_blocks s' = k_max_blocks s1"
      "k_evicted s' = k_evicted s1" "k_tables s' = AList.update sid (bt @ [b]) (k_tables s1)"
  shows "kv_inv s' \<and> leak s' = leak s \<and> k_max_blocks s' = k_max_blocks s \<and>
    table_of s' sid = Some (bt @ [b]) \<and> k_evicted s' = k_evicted s"
proof -
  have fr: "kv_frame s1 = kv_frame s" using a by (rule alloc_frame)
  have d: "distinct (map fst (k_tables s))" using inv by (simp add: kv_inv_def)
  have ow: "owners s' = add_mset b (owners s)"
    using t d frame_fields(1) [OF fr] s' flat_delete [of "k_tables s" sid bt]
    by (simp add: owners_flat flat_update_old [of _ _ bt] table_of_def)
  have "kv_acct s1 (owners s') \<and> kv_slack s1 (owners s') = kv_slack s (owners s)"
    using kv.alloc_acct [OF _ a] inv ow by (simp add: kv_inv_def)
  then show ?thesis
    using inv s' frame_fields [OF fr] kv_acct_cong [of s' s1 "owners s'"]
    by (auto simp: kv_inv_def leak_def table_of_def)
qed

lemma extend_inv:
  assumes inv: "kv_inv s" and run: "extend_sequence sid s = (r, s')"
  shows "kv_inv s' \<and> leak s' = leak s \<and> k_max_blocks s' = k_max_blocks s"
proof (cases "\<exists>bt b s1. table_of s sid = Some bt \<and> alloc_block s = Some (b, s1)")
  case False
  then have "s' = s" using run by (auto simp: extend_sequence_def split: option.splits)
  then show ?thesis using inv by simp
next
  case True
  then obtain bt b s1 where t: "table_of s sid = Some bt" and a: "alloc_block s = Some (b, s1)"
    by blast
  have "s' = s1\<lparr>k_tables := AList.update sid (bt @ [b]) (k_tables s1)\<rparr>"
    using run t a by (simp add: extend_sequence_def)
  then show ?thesis using push_block_inv [OF inv t a, of s'] by simp
qed

lemma free_sequence_inv:
  assumes inv: "kv_inv s"
  shows "kv_inv (free_sequence sid s) \<and> leak (free_sequence sid s) = leak s \<and>
    k_max_blocks (free_sequence sid s) = k_max_blocks s"
proof (cases "table_of s sid")
  case None
  then show ?thesis using inv by (simp add: free_sequence_def)
next
  case (Some bt)
  let ?s1 = "fold free_block bt s" and ?s' = "free_sequence sid s"
  have s': "?s' = ?s1\<lparr>k_tables := AList.delete sid (k_tables ?s1),
      k_evicted := (k_evicted ?s1)(sid := None)\<rparr>"
    using Some by (simp add: free_sequence_def Let_def)
  have fr: "kv_frame ?s1 = kv_frame s" by (rule kv.fold_free_frame)
  have d: "distinct (map fst (k_tables s))" using inv by (simp add: kv_inv_def)
  have ow: "owners s = owners ?s' + mset bt"
    using Some d flat_delete [of "k_tables s" sid bt] s' frame_fields(1) [OF fr]
    by (simp add: owners_flat table_of_def)
  have "kv_acct ?s1 (owners ?s') \<and> kv_slack ?s1 (owners ?s') = kv_slack s (owners s)"
    using kv.fold_free [of s "owners ?s'" bt] inv ow by (simp add: kv_inv_def)
  then show ?thesis
    using inv s' frame_fields [OF fr] kv_acct_cong [of ?s' ?s1 "owners ?s'"]
    by (auto simp: kv_inv_def leak_def table_of_def)
qed

lemma add_ref_acct:
  assumes "kv_acct s M" and "b \<in># M"
  shows "kv_acct (add_ref b s) (add_mset b M) \<and> kv_slack (add_ref b s) (add_mset b M) = kv_slack s M"
proof -
  have b: "b < k_max_blocks s" "b < length (k_refs s)" using assms by (auto simp: kv_acct_def)
  then have pos: "1 \<le> k_refs s ! b" using assms
    by (auto simp: kv_acct_def count_greater_zero_iff [symmetric] simp del: count_greater_zero_iff
        dest!: spec [of _ b])
  have refs: "k_refs (add_ref b s) ! x = (if x = b then k_refs s ! b + 1 else k_refs s ! x)"
    if "x < k_max_blocks s" for x using that b by (simp add: add_ref_def)
  have rest: "k_free (add_ref b s) = k_free s" "k_max_blocks (add_ref b s) = k_max_blocks s"
    "length (k_refs (add_ref b s)) = length (k_refs s)" by (simp_all add: add_ref_def)
  have "kv_acct (add_ref b s) (add_mset b M)"
    using assms refs rest b pos unfolding kv_acct_def by (auto split: if_splits)
  moreover have "kv_slack (add_ref b s) (add_mset b M) = kv_slack s M"
    using refs rest b by (auto simp: kv_slack_def fun_eq_iff)
  ultimately show ?thesis by simp
qed

lemma fold_add_ref_acct:
  "kv_acct s M \<Longrightarrow> set bt \<subseteq> set_mset M \<Longrightarrow>
   kv_acct (fold add_ref bt s) (M + mset bt) \<and>
   kv_slack (fold add_ref bt s) (M + mset bt) = kv_slack s M"
proof (induction bt arbitrary: s M)
  case Nil
  then show ?case by simp
next
  case (Cons b bt)
  then have b: "b \<in># M" by simp
  note step = add_ref_acct [OF Cons.prems(1) b]
  have "set bt \<subseteq> set_mset (add_mset b M)" using Cons.prems(2) by auto
  with Cons.IH [OF step [THEN conjunct1]] step show ?case by simp
qed

lemma fold_add_ref_fields:
  "k_tables (fold add_ref bt s) = k_tables s \<and> k_evicted (fold add_ref bt s) = k_evicted s \<and>
   k_max_blocks (fold add_ref bt s) = k_max_blocks s"
  by (induction bt arbitrary: s) (simp_all add: add_ref_def)

lemma kv_acct_less:
  "kv_acct s (A + B) \<Longrightarrow> kv_acct s A \<and> (\<forall>b. kv_slack s A b = kv_slack s (A + B) b + int (count B b))"
  by (fastforce simp: kv_acct_def kv_slack_def not_in_iff [symmetric])

lemma mset_table_subset: "table_of s sid = Some bt \<Longrightarrow> set bt \<subseteq> set_mset (owners s)"
  by (auto simp: table_of_def owners_def dest: map_of_SomeD)

text \<open>Copying keeps the accounts safe; overwriting an existing table leaks its blocks.\<close>

lemma copy_inv:
  assumes inv: "kv_inv s" and run: "copy_sequence src dst s = (ok, s')"
  shows "kv_inv s' \<and> k_max_blocks s' = k_max_blocks s \<and>
    leak s' = (\<lambda>b. leak s b +
      (case table_of s dst of Some old \<Rightarrow> if ok then int (count (mset old) b) else 0 | None \<Rightarrow> 0))"
proof (cases "table_of s src")
  case None
  then have "s' = s" "\<not> ok" using run by (auto simp: copy_sequence_def)
  then show ?thesis using inv by (auto split: option.split)
next
  case (Some bt)
  let ?s1 = "s\<lparr>k_tables := AList.update dst bt (k_tables s)\<rparr>"
  have s': "s' = fold add_ref bt ?s1" and ok: ok
    using run Some by (auto simp: copy_sequence_def)
  have "kv_acct ?s1 (owners s)" using inv kv_acct_cong [of ?s1 s] by (simp add: kv_inv_def)
  from fold_add_ref_acct [OF this mset_table_subset [OF Some]]
  have acct: "kv_acct s' (owners s + mset bt)" "kv_slack s' (owners s + mset bt) = leak s"
    using s' kv_acct_cong [of ?s1 s] by (simp_all add: leak_def)
  note f = fold_add_ref_fields [of bt ?s1, folded s']
  have rest: "distinct (map fst (k_tables s'))"
    "\<forall>sid. k_evicted s' sid \<noteq> None \<longrightarrow> table_of s' sid \<noteq> None" "k_max_blocks s' = k_max_blocks s"
    using inv f by (auto simp: kv_inv_def table_of_def)
  have d: "distinct (map fst (k_tables s))" using inv by (simp add: kv_inv_def)
  show ?thesis
  proof (cases "table_of s dst")
    case None
    then have "owners s' = owners s + mset bt"
      using f by (simp add: owners_flat flat_update_new table_of_def)
    then show ?thesis using acct rest None by (simp add: kv_inv_def leak_def)
  next
    case (Some old)
    then have ow: "owners s + mset bt = owners s' + mset old"
      using f d flat_delete [of "k_tables s" dst old]
      by (simp add: owners_flat flat_update_old [of _ _ old] table_of_def)
    then show ?thesis
      using acct rest Some ok kv_acct_less [of s' "owners s'" "mset old"]
      by (auto simp: kv_inv_def leak_def fun_eq_iff)
  qed
qed

lemma free_block_rest:
  "k_tables (free_block b s) = k_tables s \<and> k_evicted (free_block b s) = k_evicted s \<and>
   k_max_blocks (free_block b s) = k_max_blocks s \<and> k_dev (free_block b s) = k_dev s \<and>
   k_host (free_block b s) = k_host s"
  by (simp add: free_block_def Let_def)

lemma evict_loop_acct:
  "kv_acct s (M + mset bt) \<Longrightarrow> evict_loop bpb i bt s = Inr s' \<Longrightarrow>
   kv_acct s' M \<and> kv_slack s' M = kv_slack s (M + mset bt) \<and> k_tables s' = k_tables s \<and>
   k_evicted s' = k_evicted s \<and> k_max_blocks s' = k_max_blocks s \<and> k_dev s' = k_dev s"
proof (induction bt arbitrary: i s)
  case Nil
  then show ?case by simp
next
  case (Cons b bt)
  obtain soff doff where
    l: "evict_loop bpb (Suc i) bt
          (free_block b (s\<lparr>k_host := copy_bytes (nat bpb) doff soff (k_host s) (k_dev s)\<rparr>)) = Inr s'"
    using Cons.prems(2) by (auto simp: ebind_eq_Inr)
  let ?s1 = "s\<lparr>k_host := copy_bytes (nat bpb) doff soff (k_host s) (k_dev s)\<rparr>"
  have "kv_acct ?s1 (add_mset b (M + mset bt))"
    using Cons.prems(1) kv_acct_cong [of ?s1 s] by simp
  from kv.free_acct [OF this] have
    a: "kv_acct (free_block b ?s1) (M + mset bt)"
      "kv_slack (free_block b ?s1) (M + mset bt) = kv_slack s (M + mset (b # bt))"
    using kv_acct_cong [of ?s1 s] by simp_all
  from Cons.IH [OF a(1) l] a(2) show ?case by (simp add: free_block_rest)
qed

lemma evict_inv:
  assumes inv: "kv_inv s" and run: "evict_sequence junk sid s = Inr (ok, s')"
  shows "kv_inv s' \<and> leak s' = leak s \<and> k_max_blocks s' = k_max_blocks s"
proof (cases "\<exists>bt. table_of s sid = Some bt \<and> k_evicted s sid = None")
  case False
  then have "s' = s" using run by (auto simp: evict_sequence_def split: option.splits)
  then show ?thesis using inv by simp
next
  case True
  then obtain bt where t: "table_of s sid = Some bt" and e: "k_evicted s sid = None" by blast
  let ?s0 = "ensure_host junk (length bt) s"
  obtain s1 where l: "evict_loop (bytes_per_block s) 0 bt ?s0 = Inr s1"
    and s': "s' = s1\<lparr>k_evicted := (k_evicted s1)(sid \<mapsto> length bt),
      k_tables := AList.update sid [] (k_tables s1)\<rparr>"
    using run t e by (auto simp: evict_sequence_def ebind_eq_Inr)
  have s0: "k_tables ?s0 = k_tables s" "k_evicted ?s0 = k_evicted s"
    "k_max_blocks ?s0 = k_max_blocks s" "k_refs ?s0 = k_refs s" "k_free ?s0 = k_free s"
    by (simp_all add: ensure_host_def)
  have d: "distinct (map fst (k_tables s))" using inv by (simp add: kv_inv_def)
  define M where "M = flat (AList.delete sid (k_tables s))"
  have ow: "owners s = M + mset bt"
    using t d by (simp add: M_def owners_flat flat_delete table_of_def)
  have "kv_acct ?s0 (M + mset bt)"
    using inv ow s0 kv_acct_cong [of ?s0 s] by (simp add: kv_inv_def)
  note r = evict_loop_acct [OF this l]
  have "owners s' = M"
    using r s' t d s0 by (simp add: owners_flat flat_update_old [of _ _ bt] table_of_def M_def)
  then show ?thesis
    using r s' s0 inv ow kv_acct_cong [of s' s1 M] kv_acct_cong [of ?s0 s "M + mset bt"]
    by (auto simp: kv_inv_def leak_def table_of_def)
qed

lemma reload_loop_inv:
  "kv_inv s \<Longrightarrow> table_of s sid = Some bt \<Longrightarrow>
   reload_loop bpb sid i n bt s = Inr (ok, s') \<Longrightarrow>
   kv_inv s' \<and> leak s' = leak s \<and> k_max_blocks s' = k_max_blocks s \<and> k_evicted s' = k_evicted s \<and>
   (\<exists>new. table_of s' sid = Some (bt @ new) \<and> (ok \<longrightarrow> length new = n))"
proof (induction n arbitrary: i bt s)
  case 0
  then show ?case by auto
next
  case (Suc n)
  show ?case
  proof (cases "alloc_block s")
    case None
    then show ?thesis using Suc.prems by auto
  next
    case (Some p)
    then obtain b s1 where a: "alloc_block s = Some (b, s1)" by (cases p) auto
    obtain soff doff where l: "reload_loop bpb sid (Suc i) n (bt @ [b])
        (s1\<lparr>k_tables := AList.update sid (bt @ [b]) (k_tables s1),
            k_dev := copy_bytes (nat bpb) doff soff (k_dev s1) (k_host s1)\<rparr>) = Inr (ok, s')"
      using Suc.prems(3) a by (auto simp: ebind_eq_Inr)
    let ?s2 = "s1\<lparr>k_tables := AList.update sid (bt @ [b]) (k_tables s1),
            k_dev := copy_bytes (nat bpb) doff soff (k_dev s1) (k_host s1)\<rparr>"
    have p: "kv_inv ?s2 \<and> leak ?s2 = leak s \<and> k_max_blocks ?s2 = k_max_blocks s \<and>
        table_of ?s2 sid = Some (bt @ [b]) \<and> k_evicted ?s2 = k_evicted s"
      by (rule push_block_inv [OF Suc.prems(1,2) a]) simp_all
    with Suc.IH [OF _ _ l] obtain new where
      "table_of s' sid = Some ((bt @ [b]) @ new)" "ok \<longrightarrow> length new = n" by auto
    with p Suc.IH [OF _ _ l] show ?thesis
      by (auto intro!: exI [of _ "b # new"])
  qed
qed

lemma AList_update_same: "map_of ts k = Some v \<Longrightarrow> AList.update k v ts = ts"
  by (induction ts) (auto split: if_splits)

lemma reload_inv:
  assumes inv: "kv_inv s" and run: "reload_sequence sid s = Inr (ok, s')"
  shows "kv_inv s' \<and> leak s' = leak s \<and> k_max_blocks s' = k_max_blocks s"
proof (cases "k_evicted s sid")
  case None
  then have "s' = s" using run by (simp add: reload_sequence_def)
  then show ?thesis using inv by simp
next
  case (Some n)
  then obtain bt where t: "table_of s sid = Some bt" using inv by (force simp: kv_inv_def)
  then have "s\<lparr>k_tables := AList.update sid bt (k_tables s)\<rparr> = s"
    by (simp add: AList_update_same table_of_def)
  then obtain s1 where l: "reload_loop (bytes_per_block s) sid 0 n bt s = Inr (ok, s1)"
    and s': "s' = (if ok then s1\<lparr>k_evicted := (k_evicted s1)(sid := None)\<rparr> else s1)"
    using run t Some by (auto simp: reload_sequence_def ebind_eq_Inr split: if_splits)
  note r = reload_loop_inv [OF inv t l]
  have "owners s' = owners s1" using s' by (simp add: owners_def)
  then show ?thesis
    using r s' kv_acct_cong [of s' s1 "owners s1"]
    by (cases ok) (auto simp: kv_inv_def leak_def table_of_def)
qed

section \<open>Runs\<close>

datatype kv_op =
    Allocate nat int | Extend nat | FreeSeq nat | CopySeq nat nat | Evict nat | Reload nat

fun kv_step :: "bytes \<Rightarrow> kv_op \<Rightarrow> kv_state \<Rightarrow> kv_state exec" where
  "kv_step junk (Allocate sid n) s = ebind (allocate_sequence sid n s) (\<lambda>r. Inr (snd r))"
| "kv_step junk (Extend sid) s = Inr (snd (extend_sequence sid s))"
| "kv_step junk (FreeSeq sid) s = Inr (free_sequence sid s)"
| "kv_step junk (CopySeq src dst) s = Inr (snd (copy_sequence src dst s))"
| "kv_step junk (Evict sid) s = ebind (evict_sequence junk sid s) (\<lambda>r. Inr (snd r))"
| "kv_step junk (Reload sid) s = ebind (reload_sequence sid s) (\<lambda>r. Inr (snd r))"

fun kv_run :: "bytes \<Rightarrow> kv_op list \<Rightarrow> kv_state \<Rightarrow> kv_state exec" where
  "kv_run junk [] s = Inr s"
| "kv_run junk (a # as) s = ebind (kv_step junk a s) (kv_run junk as)"

fun copies :: "kv_op \<Rightarrow> bool" where
  "copies (CopySeq src dst) = True"
| "copies _ = False"

lemma kv_step_inv:
  assumes inv: "kv_inv s" and run: "kv_step junk a s = Inr s'"
  shows "kv_inv s' \<and> k_max_blocks s' = k_max_blocks s \<and> (\<forall>b. leak s b \<le> leak s' b) \<and>
    (\<not> copies a \<longrightarrow> leak s' = leak s)"
proof (cases a)
  case (Allocate sid n)
  with run obtain ok where "allocate_sequence sid n s = Inr (ok, s')" by (auto simp: ebind_eq_Inr)
  from allocate_inv [OF inv this] show ?thesis by simp
next
  case (Extend sid)
  with run extend_inv [OF inv, of sid] show ?thesis by (cases "extend_sequence sid s") auto
next
  case (FreeSeq sid)
  with run free_sequence_inv [OF inv, of sid] show ?thesis by auto
next
  case (CopySeq src dst)
  with run copy_inv [OF inv, of src dst] show ?thesis
    by (cases "copy_sequence src dst s") (auto split: option.splits)
next
  case (Evict sid)
  with run obtain ok where "evict_sequence junk sid s = Inr (ok, s')" by (auto simp: ebind_eq_Inr)
  from evict_inv [OF inv this] show ?thesis by simp
next
  case (Reload sid)
  with run obtain ok where "reload_sequence sid s = Inr (ok, s')" by (auto simp: ebind_eq_Inr)
  from reload_inv [OF inv this] show ?thesis by simp
qed

lemma kv_run_inv:
  "kv_inv s \<Longrightarrow> kv_run junk as s = Inr s' \<Longrightarrow>
   kv_inv s' \<and> k_max_blocks s' = k_max_blocks s \<and> (\<forall>b. leak s b \<le> leak s' b) \<and>
   ((\<forall>a \<in> set as. \<not> copies a) \<longrightarrow> leak s' = leak s)"
proof (induction as arbitrary: s)
  case Nil
  then show ?case by simp
next
  case (Cons a as)
  then obtain s1 where s1: "kv_step junk a s = Inr s1" "kv_run junk as s1 = Inr s'"
    by (auto simp: ebind_eq_Inr)
  note st = kv_step_inv [OF Cons.prems(1) s1(1)]
  from Cons.IH [OF st [THEN conjunct1] s1(2)] st show ?case by (auto intro: order_trans)
qed

lemma kv_construct_inv:
  assumes "kv_construct fl ok fb junk cfg layers heads hsize = Inr s"
  shows "kv_inv s \<and> leak s = (\<lambda>_. 0) \<and> k_tables s = [] \<and> k_block_size s = ce_paged_kv_block_size cfg \<and>
    (\<forall>x \<in> set (k_refs s). x = 0) \<and> 0 < k_max_blocks s"
  using assms
  by (auto simp: kv_construct_def Let_def kv_inv_def kv_acct_def kv_slack_def leak_def owners_def
      fun_eq_iff split: sum.splits if_splits)

section \<open>Sharing\<close>

text \<open>Without \<open>copy_sequence\<close> no count ever exceeds 1.\<close>

definition refs_le1 :: "kv_state \<Rightarrow> bool" where
  "refs_le1 s \<longleftrightarrow> (\<forall>x \<in> set (k_refs s). x \<le> 1)"

lemma refs_le1_cong: "k_refs s' = k_refs s \<Longrightarrow> refs_le1 s' = refs_le1 s"
  by (simp add: refs_le1_def)

lemma refs_le1_update:
  assumes "refs_le1 s" and "v \<le> 1" and "k_refs s' = (k_refs s)[b := v]"
  shows "refs_le1 s'"
  unfolding refs_le1_def assms(3)
proof
  fix x
  assume "x \<in> set ((k_refs s)[b := v])"
  then have "x \<in> insert v (set (k_refs s))"
    using set_update_subset_insert [of "k_refs s" b v] by (rule set_mp [rotated])
  then show "x \<le> 1" using assms(1,2) unfolding refs_le1_def by blast
qed

lemma alloc_refs_le1: "refs_le1 s \<Longrightarrow> alloc_block s = Some (b, s') \<Longrightarrow> refs_le1 s'"
  by (frule alloc_block_Some(2)) (rule refs_le1_update [of s 1 s' b], simp_all)

lemma free_refs_le1:
  assumes r: "refs_le1 s"
  shows "refs_le1 (free_block b s)"
proof (cases "b < length (k_refs s)")
  case True
  with r have "k_refs s ! b \<le> 1" by (simp add: refs_le1_def)
  then show ?thesis
    by (intro refs_le1_update [OF r, of "if k_refs s ! b - 1 \<le> 0 then 0 else k_refs s ! b - 1" _ b])
       (simp_all add: free_block_def Let_def)
next
  case False
  then have "k_refs (free_block b s) = k_refs s"
    by (simp add: free_block_def Let_def list_update_beyond)
  then show ?thesis using r by (simp add: refs_le1_def)
qed

lemma fold_free_refs_le1: "refs_le1 s \<Longrightarrow> refs_le1 (fold free_block bt s)"
  by (induction bt arbitrary: s) (simp_all add: free_refs_le1)

lemma alloc_loop_refs_le1:
  "refs_le1 s \<Longrightarrow> refs_le1 (snd (alloc_loop alloc_block free_block k bt s))"
  by (induction k arbitrary: bt s)
     (auto simp: fold_free_refs_le1 alloc_refs_le1 split: option.split)

lemma evict_loop_refs_le1: "refs_le1 s \<Longrightarrow> evict_loop bpb i bt s = Inr s' \<Longrightarrow> refs_le1 s'"
proof (induction bt arbitrary: i s)
  case Nil
  then show ?case by simp
next
  case (Cons b bt)
  then obtain soff doff where l: "evict_loop bpb (Suc i) bt
      (free_block b (s\<lparr>k_host := copy_bytes (nat bpb) doff soff (k_host s) (k_dev s)\<rparr>)) = Inr s'"
    by (auto simp: ebind_eq_Inr)
  have "refs_le1 (s\<lparr>k_host := copy_bytes (nat bpb) doff soff (k_host s) (k_dev s)\<rparr>)"
    using Cons.prems(1) by (simp add: refs_le1_def)
  from Cons.IH [OF free_refs_le1 [OF this] l] show ?case .
qed

lemma reload_loop_refs_le1:
  "refs_le1 s \<Longrightarrow> reload_loop bpb sid i n bt s = Inr (ok, s') \<Longrightarrow> refs_le1 s'"
proof (induction n arbitrary: i bt s)
  case 0
  then show ?case by simp
next
  case (Suc n)
  show ?case
  proof (cases "alloc_block s")
    case None
    then show ?thesis using Suc.prems by simp
  next
    case (Some p)
    then obtain b s1 where a: "alloc_block s = Some (b, s1)" by (cases p) auto
    with Suc.prems(2) obtain soff doff where l: "reload_loop bpb sid (Suc i) n (bt @ [b])
        (s1\<lparr>k_tables := AList.update sid (bt @ [b]) (k_tables s1),
            k_dev := copy_bytes (nat bpb) doff soff (k_dev s1) (k_host s1)\<rparr>) = Inr (ok, s')"
      by (auto simp: ebind_eq_Inr)
    have "refs_le1 (s1\<lparr>k_tables := AList.update sid (bt @ [b]) (k_tables s1),
            k_dev := copy_bytes (nat bpb) doff soff (k_dev s1) (k_host s1)\<rparr>)"
      using alloc_refs_le1 [OF Suc.prems(1) a] by (simp add: refs_le1_def)
    from Suc.IH [OF this l] show ?thesis .
  qed
qed

lemma kv_step_refs_le1:
  assumes r: "refs_le1 s" and run: "kv_step junk a s = Inr s'" and nc: "\<not> copies a"
  shows "refs_le1 s'"
proof (cases a)
  case (Allocate sid n)
  have "refs_le1 (snd (alloc_loop alloc_block free_block k [] s))" for k
    using r by (rule alloc_loop_refs_le1)
  then show ?thesis using run r unfolding Allocate
    by (auto simp: ebind_eq_Inr allocate_sequence_def refs_le1_cong [where s' = "_\<lparr>k_tables := _\<rparr>"]
        split: if_splits option.splits prod.splits) (metis snd_conv refs_le1_cong)+
next
  case (Extend sid)
  then show ?thesis using run r alloc_refs_le1 [OF r]
    by (auto simp: extend_sequence_def refs_le1_def split: option.splits)
next
  case (FreeSeq sid)
  then show ?thesis using run r fold_free_refs_le1 [OF r]
    by (auto simp: free_sequence_def refs_le1_def Let_def split: option.splits)
next
  case (CopySeq src dst)
  with nc show ?thesis by simp
next
  case (Evict sid)
  show ?thesis
  proof (cases "\<exists>bt. table_of s sid = Some bt \<and> k_evicted s sid = None")
    case False
    then have "s' = s" using run Evict
      by (auto simp: evict_sequence_def ebind_eq_Inr split: option.splits)
    with r show ?thesis by simp
  next
    case True
    then obtain bt where t: "table_of s sid = Some bt" and e: "k_evicted s sid = None" by blast
    obtain s1 where l: "evict_loop (bytes_per_block s) 0 bt (ensure_host junk (length bt) s) = Inr s1"
      and s': "s' = s1\<lparr>k_evicted := (k_evicted s1)(sid \<mapsto> length bt),
        k_tables := AList.update sid [] (k_tables s1)\<rparr>"
      using run Evict t e by (auto simp: evict_sequence_def ebind_eq_Inr)
    have "refs_le1 (ensure_host junk (length bt) s)"
      using r by (simp add: refs_le1_def ensure_host_def)
    from evict_loop_refs_le1 [OF this l] s' show ?thesis by (simp add: refs_le1_def)
  qed
next
  case (Reload sid)
  show ?thesis
  proof (cases "k_evicted s sid")
    case None
    with run r Reload show ?thesis by (simp add: reload_sequence_def)
  next
    case (Some n)
    define bt where "bt = (case table_of s sid of None \<Rightarrow> [] | Some bt \<Rightarrow> bt)"
    define s0 where "s0 = s\<lparr>k_tables := AList.update sid bt (k_tables s)\<rparr>"
    have r0: "refs_le1 s0" using r by (simp add: s0_def refs_le1_def)
    have "ebind (reload_sequence sid s) (\<lambda>r. Inr (snd r)) = Inr s'" using run Reload by simp
    then obtain ok s1 where l: "reload_loop (bytes_per_block s) sid 0 n bt s0 = Inr (ok, s1)"
      and s': "k_refs s' = k_refs s1"
      using Some by (cases "reload_loop (bytes_per_block s) sid 0 n bt s0")
        (auto simp: reload_sequence_def Let_def bt_def s0_def split: if_splits)
    from reload_loop_refs_le1 [OF r0 l] s' show ?thesis by (simp add: refs_le1_def)
  qed
qed

lemma kv_run_refs_le1:
  "refs_le1 s \<Longrightarrow> kv_run junk as s = Inr s' \<Longrightarrow> \<forall>a \<in> set as. \<not> copies a \<Longrightarrow> refs_le1 s'"
  by (induction as arbitrary: s) (auto simp: ebind_eq_Inr dest: kv_step_refs_le1)

lemma unshared_distinct:
  assumes "kv_inv s" and "refs_le1 s"
  shows "distinct (concat (map snd (k_tables s)))"
proof -
  have "count (owners s) b \<le> 1" for b
  proof (cases "b \<in># owners s")
    case True
    with assms(1) have "b < length (k_refs s)" "int (count (owners s) b) \<le> k_refs s ! b"
      by (auto simp: kv_inv_def kv_acct_def)
    moreover from this assms(2) have "k_refs s ! b \<le> 1" by (simp add: refs_le1_def)
    ultimately show ?thesis by linarith
  next
    case False
    then show ?thesis by (simp add: not_in_iff)
  qed
  then show ?thesis
    by (metis distinct_count_atmost_1 count_mset count_notin le_less_Suc_eq not_in_iff
        One_nat_def less_one owners_def le_eq_less_or_eq set_mset_mset)
qed

section \<open>Accounting properties\<close>

text \<open>C2: in every state reachable from a constructed pool by any sequence of public operations,
  a block referenced by some sequence's table is never on the free stack, every block's count is
  at least the number of references to it, and the free stack holds exactly the blocks with count
  0, once each: no block in use can be handed out again.\<close>

theorem kv_no_use_after_free:
  assumes "kv_construct fl ok fb junk cfg layers heads hsize = Inr s0"
    and "kv_run junk ops s0 = Inr s"
    and "table_of s sid = Some bt" and "b \<in> set bt"
  shows "b < k_max_blocks s \<and> b \<notin> set (k_free s) \<and> distinct (k_free s) \<and>
    int (count (owners s) b) \<le> k_refs s ! b \<and> 1 \<le> count (owners s) b"
proof -
  have "kv_inv s"
    using kv_construct_inv [OF assms(1)] kv_run_inv [OF _ assms(2)] by blast
  then have acct: "kv_acct s (owners s)" by (simp add: kv_inv_def)
  have b: "b \<in># owners s" using mset_table_subset [OF assms(3)] assms(4) by blast
  then have lt: "b < k_max_blocks s" and pos: "1 \<le> count (owners s) b"
    using acct by (auto simp: kv_acct_def Suc_leI)
  then have le: "int (count (owners s) b) \<le> k_refs s ! b" using acct by (simp add: kv_acct_def)
  with pos have "k_refs s ! b \<noteq> 0" by linarith
  with lt pos le acct show ?thesis by (simp add: kv_acct_def)
qed

definition tiny_dims :: cuda_engine_config where
  "tiny_dims = default_cuda_engine\<lparr>
     ce_paged_kv_block_size := 4, ce_max_num_blocks := 3, ce_use_fp8_kv := True\<rparr>"

definition tiny_pool :: kv_state where
  "tiny_pool = \<lparr>k_block_size = 4, k_max_blocks = 3, k_max_per_seq = 3, k_layers = 1, k_kv_heads = 1,
     k_head_size = 1, k_fp8 = True, k_dev = (\<lambda>_. 0), k_host = (\<lambda>_. 0), k_host_blocks = 0,
     k_tables = [], k_refs = [0, 0, 0], k_free = [2, 1, 0], k_evicted = Map.empty\<rparr>"

lemma tiny_pool_construct:
  "kv_construct (\<lambda>x. x) (\<lambda>_. True) 0 (\<lambda>_. 0) tiny_dims 1 1 1 = Inr tiny_pool"
  by (simp add: kv_construct_def tiny_dims_def default_cuda_engine_def tiny_pool_def upt_rec
      numeral_eq_Suc)

lemmas kv_eval = allocate_sequence_def extend_sequence_def free_sequence_def copy_sequence_def
  evict_sequence_def reload_sequence_def blocks_needed_def table_of_def alloc_block_def
  free_block_def add_ref_def tiny_pool_def tdiv_def in_s32_def Let_def

theorem kv_no_use_after_free_witness:
  "\<exists>s. kv_run (\<lambda>_. 0) [Allocate 7 5, CopySeq 7 8, FreeSeq 7] tiny_pool = Inr s \<and>
     table_of s 8 = Some [0, 1] \<and> 0 \<notin> set (k_free s)"
proof -
  have r: "\<exists>s. kv_run (\<lambda>_. 0) [Allocate 7 5, CopySeq 7 8, FreeSeq 7] tiny_pool = Inr s \<and>
      table_of s 8 = Some [0, 1]"
    by (simp add: kv_eval eval_nat_numeral)
  then obtain s where s: "kv_run (\<lambda>_. 0) [Allocate 7 5, CopySeq 7 8, FreeSeq 7] tiny_pool = Inr s"
    "table_of s 8 = Some [0, 1]" by blast
  from kv_no_use_after_free [OF tiny_pool_construct s, of 0] s show ?thesis by auto
qed

lemma kv_run_unshared:
  assumes "kv_construct fl ok fb junk cfg layers heads hsize = Inr s0"
    and "kv_run junk ops s0 = Inr s" and "\<forall>a \<in> set ops. \<not> copies a"
  shows "distinct (concat (map snd (k_tables s)))"
proof -
  note c = kv_construct_inv [OF assms(1)]
  have "kv_inv s" using kv_run_inv [OF c [THEN conjunct1] assms(2)] by simp
  moreover have "refs_le1 s0" using c by (auto simp: refs_le1_def)
  then have "refs_le1 s" using kv_run_refs_le1 assms(2,3) by blast
  ultimately show ?thesis by (rule unshared_distinct)
qed

text \<open>C8: block conservation. In a run without \<open>copy_sequence\<close> nothing leaks and nothing is
  shared: the blocks of all tables together with the free stack are exactly the pool, each block
  once; so once every sequence is freed the whole pool is free again.\<close>

theorem kv_conservation:
  assumes "kv_construct fl ok fb junk cfg layers heads hsize = Inr s0"
    and "kv_run junk ops s0 = Inr s" and "\<forall>a \<in> set ops. \<not> copies a"
  shows "distinct (concat (map snd (k_tables s)) @ k_free s) \<and>
    set (concat (map snd (k_tables s)) @ k_free s) = {..<k_max_blocks s} \<and>
    (k_tables s = [] \<longrightarrow> num_free_blocks s = int (k_max_blocks s0))"
proof -
  note c = kv_construct_inv [OF assms(1)]
  note r = kv_run_inv [OF c [THEN conjunct1] assms(2)]
  have inv: "kv_inv s" and lk: "leak s = (\<lambda>_. 0)" and max: "k_max_blocks s = k_max_blocks s0"
    using r assms(3) c by auto
  then have acct: "kv_acct s (owners s)" by (simp add: kv_inv_def)
  have d: "distinct (concat (map snd (k_tables s)))" by (rule kv_run_unshared [OF assms])
  have eq: "k_refs s ! b = int (count (owners s) b)" if "b < k_max_blocks s" for b
    using fun_cong [OF lk, of b] that by (simp add: leak_def kv_slack_def)
  have owned: "b \<in># owners s \<longleftrightarrow> b < k_max_blocks s \<and> b \<notin> set (k_free s)" for b
    using acct eq by (auto simp: kv_acct_def not_in_iff)
  have "set (concat (map snd (k_tables s))) = set_mset (owners s)" by (simp add: owners_def)
  then have sets: "set (concat (map snd (k_tables s))) \<inter> set (k_free s) = {}"
    "set (concat (map snd (k_tables s))) \<union> set (k_free s) = {..<k_max_blocks s}"
    using owned acct by (auto simp: kv_acct_def simp del: set_concat)
  have "num_free_blocks s = int (k_max_blocks s0)" if "k_tables s = []"
    using sets that acct max distinct_card [of "k_free s"]
    by (simp add: num_free_blocks_def kv_acct_def)
  with sets d acct show ?thesis unfolding distinct_append set_append kv_acct_def by blast
qed

theorem kv_conservation_witness:
  "\<exists>s. kv_run (\<lambda>_. 0) [Allocate 7 5, Extend 7, Evict 7, Reload 7, FreeSeq 7] tiny_pool = Inr s \<and>
     num_free_blocks s = 3"
proof -
  let ?ops = "[Allocate 7 5, Extend 7, Evict 7, Reload 7, FreeSeq 7]"
  have "\<exists>s. kv_run (\<lambda>_. 0) ?ops tiny_pool = Inr s \<and> k_tables s = []"
    by (simp add: kv_eval eval_nat_numeral ensure_host_def byte_off_def bytes_per_block_def
        bytes_of_block_def cast_s32_def)
  then obtain s where s: "kv_run (\<lambda>_. 0) ?ops tiny_pool = Inr s" "k_tables s = []" by blast
  from kv_conservation [OF tiny_pool_construct s(1)] s show ?thesis
    by (simp add: tiny_pool_def)
qed

text \<open>Copying a sequence onto an id that already has a block table never gives the old
  table's blocks back: their counts stay too high, and whatever operations follow (freeing every
  sequence included) those blocks never return to the free stack.\<close>

theorem copy_overwrite_leaks_forever:
  assumes "kv_construct fl ok fb junk cfg layers heads hsize = Inr s0"
    and "kv_run junk before s0 = Inr s"
    and "table_of s src \<noteq> None" and "table_of s dst = Some old" and "b \<in> set old"
    and "kv_run junk after (snd (copy_sequence src dst s)) = Inr s'"
  shows "b \<notin> set (k_free s')"
proof -
  note r = kv_run_inv [OF _ assms(2)] kv_construct_inv [OF assms(1)]
  have inv: "kv_inv s" and lk: "0 \<le> leak s b" using r by (auto dest: spec [of _ b])
  let ?c = "copy_sequence src dst s"
  have "kv_inv (snd ?c)" and "leak (snd ?c) b = leak s b + int (count (mset old) b)"
    using copy_inv [OF inv, of src dst "fst ?c" "snd ?c"] assms(3,4)
    by (auto simp: copy_sequence_def split: option.splits)
  moreover have "0 < int (count (mset old) b)"
    using assms(5) by (simp add: count_greater_zero_iff)
  moreover note kv_run_inv [OF calculation(1) assms(6)]
  ultimately have "kv_inv s'" "0 < leak s' b" using lk by (simp, smt (verit))
  then have "kv_acct s' (owners s')" "b < k_max_blocks s'" "0 < k_refs s' ! b"
    by (auto simp: kv_inv_def leak_def kv_slack_def split: if_splits)
  then show ?thesis by (auto simp: kv_acct_def)
qed

theorem copy_overwrite_leaks_forever_witness:
  "\<exists>s. kv_run (\<lambda>_. 0) [FreeSeq 7, FreeSeq 8] (snd (copy_sequence 7 8
       (tiny_pool\<lparr>k_tables := [(7, [0]), (8, [1])], k_refs := [1, 1, 0], k_free := [2]\<rparr>))) = Inr s \<and>
     k_tables s = [] \<and> 1 \<notin> set (k_free s)"
proof -
  let ?s = "tiny_pool\<lparr>k_tables := [(7, [0]), (8, [1])], k_refs := [1, 1, 0], k_free := [2]\<rparr>"
  have b: "kv_run (\<lambda>_. 0) [Allocate 7 1, Allocate 8 1] tiny_pool = Inr ?s"
    by (simp add: kv_eval eval_nat_numeral)
  have "\<exists>s. kv_run (\<lambda>_. 0) [FreeSeq 7, FreeSeq 8] (snd (copy_sequence 7 8 ?s)) = Inr s \<and>
      k_tables s = []"
    by (simp add: kv_eval)
  then obtain s where s: "kv_run (\<lambda>_. 0) [FreeSeq 7, FreeSeq 8] (snd (copy_sequence 7 8 ?s)) = Inr s"
    "k_tables s = []" by blast
  have "1 \<notin> set (k_free s)"
    by (rule copy_overwrite_leaks_forever [OF tiny_pool_construct b _ _ _ s(1), of "[1]"])
       (simp_all add: table_of_def)
  with s show ?thesis by blast
qed

section \<open>Slot mapping\<close>

lemma slot_of_Inr:
  assumes "slot_of bs bt pos = Inr x" and "0 < bs" and "0 \<le> pos"
  shows "nat (pos div bs) < length bt" and "x = int (bt ! nat (pos div bs)) * bs + pos mod bs"
proof -
  from assms have "pos div bs < int (length bt)"
    by (auto simp: slot_of_def Let_def not_le split: if_splits)
  moreover have "0 \<le> pos div bs" using assms(2,3) by (simp add: pos_imp_zdiv_nonneg_iff)
  ultimately show "nat (pos div bs) < length bt" by simp
  from assms show "x = int (bt ! nat (pos div bs)) * bs + pos mod bs"
    by (auto simp: slot_of_def Let_def ebind_eq_Inr s32_Inr_iff split: if_splits)
qed

lemma slot_loop_Inr:
  "slot_loop bs bt pos n = Inr xs \<Longrightarrow>
   length xs = n \<and> (\<forall>i < n. slot_of bs bt (pos + int i) = Inr (xs ! i))"
proof (induction n arbitrary: pos xs)
  case 0
  then show ?case by simp
next
  case (Suc n)
  then obtain y ys where y: "slot_of bs bt pos = Inr y" "slot_loop bs bt (pos + 1) n = Inr ys"
    "xs = y # ys" by (auto simp: ebind_eq_Inr)
  from Suc.IH [OF y(2)] y(1,3) show ?case
    by (auto simp: nth_Cons' ac_simps not_less Suc_le_eq less_Suc_eq_0_disj)
qed

text \<open>Where the mapping is defined, a slot is the block's base plus the offset in the block.\<close>

lemma slot_block_offset:
  assumes "slot_of bs bt pos = Inr x" and "0 < bs" and "0 \<le> pos"
  shows "x div bs = int (bt ! nat (pos div bs))" and "x mod bs = pos mod bs"
  using slot_of_Inr [OF assms] assms(2) by simp_all

lemma slot_of_defined:
  assumes "0 < bs" and "0 \<le> pos" and "pos < int (length bt) * bs"
    and "\<forall>b \<in> set bt. b < N" and "int N * bs \<le> 2147483648"
  shows "\<exists>x. slot_of bs bt pos = Inr x \<and> 0 \<le> x \<and> x < int N * bs"
proof -
  let ?i = "pos div bs" and ?o = "pos mod bs"
  have "?i * bs \<le> pos" using assms(1) div_mult_mod_eq [of pos bs] pos_mod_sign [of bs pos] by linarith
  then have "?i * bs < int (length bt) * bs" using assms(3) by linarith
  then have i: "0 \<le> ?i" "?i < int (length bt)"
    using assms(1,2) by (simp_all add: pos_imp_zdiv_nonneg_iff)
  then have "nat ?i < length bt" by simp
  then have b: "bt ! nat ?i < N" using assms(4) by simp
  have o: "0 \<le> ?o" "?o < bs" using assms(1) by simp_all
  have lim: "int (bt ! nat ?i) * bs + bs \<le> int N * bs"
    using b assms(1) by (metis distrib_right mult.commute mult_1 mult_le_cancel_left_pos of_nat_Suc
        of_nat_le_iff Suc_leI add.commute)
  have base: "0 \<le> int (bt ! nat ?i) * bs" using assms(1) by simp
  then have "in_s32 (int (bt ! nat ?i) * bs)" "in_s32 (int (bt ! nat ?i) * bs + ?o)"
    unfolding in_s32_def using o lim assms(1,5) by linarith+
  moreover have "0 \<le> int (bt ! nat ?i) * bs + ?o" "int (bt ! nat ?i) * bs + ?o < int N * bs"
    using base o lim by linarith+
  ultimately show ?thesis
    using i assms(1,2) by (auto simp: slot_of_def Let_def)
qed

lemma slot_loop_defined:
  "(\<And>i. i < n \<Longrightarrow> \<exists>x. slot_of bs bt (pos + int i) = Inr x) \<Longrightarrow> \<exists>xs. slot_loop bs bt pos n = Inr xs"
proof (induction n arbitrary: pos)
  case 0
  then show ?case by simp
next
  case (Suc n)
  obtain x where "slot_of bs bt pos = Inr x" using Suc.prems [of 0] by auto
  moreover have "\<exists>xs. slot_loop bs bt (pos + 1) n = Inr xs"
    using Suc.IH [of "pos + 1"] Suc.prems [of "Suc i" for i] by (force simp: ac_simps)
  ultimately show ?case by auto
qed

lemma distinct_tables_inj:
  "distinct (concat (map snd ts)) \<Longrightarrow> map_of ts a = Some x \<Longrightarrow> map_of ts b = Some y \<Longrightarrow>
   i < length x \<Longrightarrow> j < length y \<Longrightarrow> x ! i = y ! j \<Longrightarrow> a = b \<and> i = j"
proof (induction ts)
  case Nil
  then show ?case by simp
next
  case (Cons t ts)
  have sub: "set z \<subseteq> set (concat (map snd ts))" if "map_of ts c = Some z" for c z
    using map_of_SomeD [OF that] by force
  show ?case
    using Cons sub by (fastforce split: if_splits simp: nth_eq_iff_index_eq dest: nth_mem)
qed



section \<open>Sizing\<close>

lemma blocks_needed_ok:
  assumes "0 < bs" and "0 \<le> n" and "n + bs \<le> 2147483647"
  shows "blocks_needed bs n = Inr (max ((n + bs - 1) div bs) 1)"
proof -
  have q: "0 \<le> (n + bs - 1) div bs" "(n + bs - 1) div bs \<le> n + bs - 1"
    using assms by (simp_all add: pos_imp_zdiv_nonneg_iff zdiv_mono2 [of "n + bs - 1" 1 bs, simplified])
  then have "in_s32 (n + bs)" "in_s32 (n + bs - 1)" "in_s32 ((n + bs - 1) div bs)"
    using assms by (auto simp: in_s32_def)
  then show ?thesis using assms by (simp add: blocks_needed_def)
qed

lemma ceil_div_bounds:
  assumes "0 < bs" and "(0::int) \<le> n"
  shows "n \<le> max ((n + bs - 1) div bs) 1 * bs" and "(max ((n + bs - 1) div bs) 1 - 1) * bs < max n 1"
proof -
  let ?q = "(n + bs - 1) div bs"
  have e: "n + bs - 1 = ?q * bs + (n + bs - 1) mod bs" by simp
  have r: "0 \<le> (n + bs - 1) mod bs" "(n + bs - 1) mod bs < bs" using assms by simp_all
  have d: "?q * bs = n + bs - 1 - (n + bs - 1) mod bs" using e by linarith
  have "?q * bs \<le> max ?q 1 * bs" using assms(1) by (intro mult_right_mono) auto
  then show "n \<le> max ?q 1 * bs" using d r by linarith
  show "(max ?q 1 - 1) * bs < max n 1"
  proof (cases "1 \<le> ?q")
    case True
    then have "max ?q 1 = ?q" by simp
    then have "(max ?q 1 - 1) * bs = ?q * bs - bs" by (simp add: algebra_simps)
    with d r show ?thesis by linarith
  next
    case False
    then show ?thesis by (simp add: max_def)
  qed
qed

lemma allocate_table_length:
  assumes "kv_inv s" and "allocate_sequence sid n s = Inr (True, s')"
    and "blocks_needed (k_block_size s) n = Inr k" and "1 \<le> k"
  shows "\<exists>bt. table_of s' sid = Some bt \<and> int (length bt) = k \<and> k_block_size s' = k_block_size s \<and>
    int (length (k_free s')) + k = int (length (k_free s))"
proof -
  have acct: "kv_acct s (owners s)" using assms(1) by (simp add: kv_inv_def)
  have le: "nat k \<le> length (k_free s)"
    using assms(2,3) by (auto simp: allocate_sequence_def split: if_splits)
  obtain new s1 where l: "alloc_loop alloc_block free_block (nat k) [] s = (Some ([] @ new), s1)"
    "length new = nat k" "length (k_free s1) + nat k = length (k_free s)"
    using kv.alloc_loop_enough [OF acct le] by metis
  then have "kv_frame s1 = kv_frame s" using kv.alloc_loop_frame [of "nat k" "[]" s] by simp
  then have b: "k_block_size s1 = k_block_size s" by (rule frame_fields(7))
  have e: "s' = s1\<lparr>k_tables := AList.update sid new (k_tables s1)\<rparr>"
    using l(1) assms(2,3) by (auto simp: allocate_sequence_def split: if_splits)
  show ?thesis
    using l assms(4) by (simp add: e b)
qed

lemma allocate_max_per_seq:
  assumes "allocate_sequence sid n s = Inr (ok, s')"
  shows "k_max_per_seq s' = k_max_per_seq s"
proof -
  have "k_max_per_seq (snd (alloc_loop alloc_block free_block k [] s)) = k_max_per_seq s" for k
    by (rule frame_fields(9) [OF kv.alloc_loop_frame])
  with assms show ?thesis
    by (auto simp: allocate_sequence_def ebind_eq_Inr split: if_splits option.splits prod.splits)
       (metis snd_conv)+
qed



text \<open>The bound on the table length is not enforced: \<open>extend_sequence\<close> only asks for a free
  block, so a table can grow past \<open>max_blocks_per_seq_\<close>, and the next decode step fails the
  assert of \<open>get_device_block_table\<close> (without asserts it writes past the staging buffer).\<close>

theorem extend_ignores_table_bound:
  assumes "kv_inv s" and "table_of s sid = Some bt" and "k_free s \<noteq> []"
    and "length bt = k_max_per_seq s"
  shows "\<exists>b. fst (extend_sequence sid s) = Some b \<and>
    get_device_block_table sid (snd (extend_sequence sid s)) = Inl AssertFail"
proof -
  obtain b s1 where a: "alloc_block s = Some (b, s1)"
    using assms(3) by (auto simp: alloc_block_def Let_def)
  then have "k_max_per_seq s1 = k_max_per_seq s" using frame_fields(9) alloc_frame by blast
  with a assms show ?thesis
    by (simp add: extend_sequence_def get_device_block_table_def)
qed

lemma kv_construct_sized:
  assumes "0 < n" and "ce_max_num_blocks cfg = n"
  shows "\<exists>s. kv_construct fl (\<lambda>_. True) fb junk cfg layers heads hsize = Inr s \<and>
    length (k_free s) = nat n \<and> k_max_per_seq s = nat (min n 2048)"
  using assms by (simp add: kv_construct_def Let_def)

lemma allocate_succeeds:
  assumes "kv_inv s" and "table_of s sid = None" and "blocks_needed (k_block_size s) n = Inr k"
    and "k \<le> int (length (k_free s))"
  shows "\<exists>s'. allocate_sequence sid n s = Inr (True, s')"
proof -
  have acct: "kv_acct s (owners s)" and le: "nat k \<le> length (k_free s)"
    using assms(1,4) by (simp_all add: kv_inv_def)
  obtain new s1 where "alloc_loop alloc_block free_block (nat k) [] s = (Some ([] @ new), s1)"
    using kv.alloc_loop_enough [OF acct le] by metis
  then show ?thesis using assms by (simp add: allocate_sequence_def)
qed

theorem extend_ignores_table_bound_witness:
  "\<exists>s s'. kv_construct (\<lambda>x. x) (\<lambda>_. True) 0 (\<lambda>_. 0)
       (default_cuda_engine\<lparr>ce_max_num_blocks := 2049, ce_use_fp8_kv := True\<rparr>) 1 1 1
       = Inr s \<and> allocate_sequence 7 32768 s = Inr (True, s') \<and>
     get_device_block_table 7 (snd (extend_sequence 7 s')) = Inl AssertFail"
proof -
  let ?d = "default_cuda_engine\<lparr>ce_max_num_blocks := 2049, ce_use_fp8_kv := True\<rparr>"
  obtain s where s: "kv_construct (\<lambda>x. x) (\<lambda>_. True) 0 (\<lambda>_. 0) ?d 1 1 1 = Inr s"
    "length (k_free s) = 2049" "k_max_per_seq s = 2048"
    using kv_construct_sized [of 2049 ?d "\<lambda>x. x" 0 "\<lambda>_. 0" 1 1 1] by auto
  have c: "kv_inv s" "k_tables s = []" "k_block_size s = 16"
    using kv_construct_inv [OF s(1)] by (simp_all add: default_cuda_engine_def)
  have k: "blocks_needed (k_block_size s) 32768 = Inr 2048"
    using c(3) by (simp add: blocks_needed_ok)
  then obtain s' where a: "allocate_sequence 7 32768 s = Inr (True, s')"
    using allocate_succeeds [OF c(1), of 7 32768 2048] c(2) s(2) by (auto simp: table_of_def)
  obtain bt where bt: "table_of s' 7 = Some bt" "int (length bt) = 2048"
    "int (length (k_free s')) + 2048 = int (length (k_free s))"
    using allocate_table_length [OF c(1) a k] by auto
  have "k_max_per_seq s' = k_max_per_seq s"
    using allocate_max_per_seq [OF a] .
  moreover have "k_free s' \<noteq> []" using bt(3) s(2) by auto
  ultimately have "get_device_block_table 7 (snd (extend_sequence 7 s')) = Inl AssertFail"
    using extend_ignores_table_bound [of s' 7 bt] allocate_inv [OF c(1) a] bt s(2,3) by auto
  with s(1) a show ?thesis by blast
qed

end
