(* ===== verification/Kv_Eviction.thy ===== *)
theory Kv_Eviction
  imports Kv_Properties
begin

text \<open>
  Eviction and the pool layout: what the byte copies of \<open>evict_sequence\<close> and
  \<open>reload_sequence\<close> preserve, when two evicted sequences collide in the host buffer, and the
  per-layer pointer arithmetic of \<open>cuda_allocator.h\<close> against which the copies are compared.
\<close>

section \<open>Byte ranges of blocks\<close>

lemma block_ranges_disjoint:
  fixes b c w j :: nat
  assumes "b \<noteq> c" and "j < w"
  shows "\<not> (c * w \<le> b * w + j \<and> b * w + j < c * w + w)"
proof (cases "b < c")
  case True
  then have "Suc b * w \<le> c * w" by (intro mult_right_mono) auto
  with assms(2) show ?thesis by simp
next
  case False
  with assms(1) have "Suc c * w \<le> b * w" by (intro mult_right_mono) auto
  then show ?thesis by simp
qed

lemma copy_bytes_same: "j < w \<Longrightarrow> copy_bytes w (c * w) so d sr (c * w + j) = sr (so + j)"
  by (simp add: copy_bytes_def)

lemma copy_bytes_other:
  "b \<noteq> c \<Longrightarrow> j < w \<Longrightarrow> copy_bytes w (c * w) so d sr (b * w + j) = d (b * w + j)"
  using block_ranges_disjoint [of b c j w] by (auto simp: copy_bytes_def)

lemma byte_off_Inr: "byte_off i bpb = Inr off \<Longrightarrow> off = i * nat bpb"
  by (auto simp: byte_off_def ebind_eq_Inr s32_Inr_iff nat_mult_distrib split: if_splits)

lemma evict_loop_bytes:
  "evict_loop bpb i bt s = Inr s' \<Longrightarrow>
   k_dev s' = k_dev s \<and> k_host_blocks s' = k_host_blocks s \<and>
   (\<forall>k < length bt. \<forall>j < nat bpb.
      k_host s' ((i + k) * nat bpb + j) = k_dev s (bt ! k * nat bpb + j)) \<and>
   (\<forall>r j. j < nat bpb \<longrightarrow> (r < i \<or> i + length bt \<le> r) \<longrightarrow>
      k_host s' (r * nat bpb + j) = k_host s (r * nat bpb + j))"
proof (induction bt arbitrary: i s)
  case Nil
  then show ?case by simp
next
  case (Cons b bt)
  let ?w = "nat bpb"
  let ?h = "copy_bytes ?w (i * ?w) (b * ?w) (k_host s) (k_dev s)"
  obtain soff doff where l0: "evict_loop bpb (Suc i) bt
      (free_block b (s\<lparr>k_host := copy_bytes ?w doff soff (k_host s) (k_dev s)\<rparr>)) = Inr s'"
    and "byte_off b bpb = Inr soff" "byte_off i bpb = Inr doff"
    using Cons.prems by (auto simp: ebind_eq_Inr)
  then have "soff = b * ?w" "doff = i * ?w" by (simp_all add: byte_off_Inr)
  with l0 have l: "evict_loop bpb (Suc i) bt (free_block b (s\<lparr>k_host := ?h\<rparr>)) = Inr s'" by simp
  have f: "k_dev (free_block b (s\<lparr>k_host := ?h\<rparr>)) = k_dev s"
    "k_host (free_block b (s\<lparr>k_host := ?h\<rparr>)) = ?h"
    "k_host_blocks (free_block b (s\<lparr>k_host := ?h\<rparr>)) = k_host_blocks s"
    by (simp_all add: free_block_def Let_def)
  note ih = Cons.IH [OF l, unfolded f]
  show ?case
  proof (intro conjI allI impI)
    fix k j
    assume k: "k < length (b # bt)" and j: "j < ?w"
    show "k_host s' ((i + k) * ?w + j) = k_dev s ((b # bt) ! k * ?w + j)"
    proof (cases k)
      case 0
      with ih j copy_bytes_same [of j ?w i "b * ?w" "k_host s" "k_dev s"] show ?thesis by simp
    next
      case (Suc m)
      with k have "m < length bt" by simp
      with ih j have "k_host s' ((Suc i + m) * ?w + j) = k_dev s (bt ! m * ?w + j)" by blast
      with Suc show ?thesis by simp
    qed
  next
    fix r j
    assume j: "j < ?w" and r: "r < i \<or> i + length (b # bt) \<le> r"
    then have "k_host s' (r * ?w + j) = ?h (r * ?w + j)" using ih by auto
    moreover have "r \<noteq> i" using r by auto
    ultimately show "k_host s' (r * ?w + j) = k_host s (r * ?w + j)"
      using copy_bytes_other [of r i j ?w "b * ?w" "k_host s" "k_dev s"] j by simp
  qed (use ih in simp_all)
qed

lemma alloc_fresh:
  "kv_inv s \<Longrightarrow> alloc_block s = Some (b, s1) \<Longrightarrow> b \<notin># owners s"
  using kv.alloc_acct [of s "owners s"] by (simp add: kv_inv_def)

lemma reload_loop_bytes:
  "kv_inv s \<Longrightarrow> table_of s sid = Some bt \<Longrightarrow> reload_loop bpb sid i n bt s = Inr (True, s') \<Longrightarrow>
   \<exists>new. table_of s' sid = Some (bt @ new) \<and> length new = n \<and>
     set new \<inter> set_mset (owners s) = {} \<and> k_host s' = k_host s \<and>
     (\<forall>o'. o' \<noteq> sid \<longrightarrow> table_of s' o' = table_of s o') \<and>
     (\<forall>k < n. \<forall>j < nat bpb. k_dev s' (new ! k * nat bpb + j) = k_host s ((i + k) * nat bpb + j)) \<and>
     (\<forall>b j. b \<notin> set new \<longrightarrow> j < nat bpb \<longrightarrow>
        k_dev s' (b * nat bpb + j) = k_dev s (b * nat bpb + j))"
proof (induction n arbitrary: i bt s)
  case 0
  then show ?case by simp
next
  case (Suc n)
  let ?w = "nat bpb"
  from Suc.prems(3) obtain b s1 where a: "alloc_block s = Some (b, s1)"
    by (auto split: option.splits)
  then obtain soff doff where l0: "reload_loop bpb sid (Suc i) n (bt @ [b])
        (s1\<lparr>k_tables := AList.update sid (bt @ [b]) (k_tables s1),
            k_dev := copy_bytes ?w doff soff (k_dev s1) (k_host s1)\<rparr>) = Inr (True, s')"
    and "byte_off i bpb = Inr soff" "byte_off b bpb = Inr doff"
    using Suc.prems(3) by (auto simp: ebind_eq_Inr)
  then have off: "soff = i * ?w" "doff = b * ?w" by (simp_all add: byte_off_Inr)
  define s2 where "s2 = s1\<lparr>k_tables := AList.update sid (bt @ [b]) (k_tables s1),
            k_dev := copy_bytes ?w (b * ?w) (i * ?w) (k_dev s1) (k_host s1)\<rparr>"
  have l: "reload_loop bpb sid (Suc i) n (bt @ [b]) s2 = Inr (True, s')"
    using l0 off by (simp add: s2_def)
  note fr = frame_fields [OF alloc_frame [OF a]]
  have p: "kv_inv s2 \<and> leak s2 = leak s \<and> k_max_blocks s2 = k_max_blocks s \<and>
        table_of s2 sid = Some (bt @ [b]) \<and> k_evicted s2 = k_evicted s"
    by (rule push_block_inv [OF Suc.prems(1,2) a]) (simp_all add: s2_def)
  have ow: "owners s2 = add_mset b (owners s)"
    using Suc.prems(1,2) flat_delete [of "k_tables s" sid bt]
    by (simp add: owners_flat s2_def fr flat_update_old [of _ _ bt] table_of_def kv_inv_def)
  have fields: "k_host s2 = k_host s" "k_dev s2 = copy_bytes ?w (b * ?w) (i * ?w) (k_dev s) (k_host s)"
    "\<And>o'. o' \<noteq> sid \<Longrightarrow> table_of s2 o' = table_of s o'"
    using fr by (simp_all add: s2_def table_of_def)
  obtain new where n: "table_of s' sid = Some ((bt @ [b]) @ new)" "length new = n"
    "set new \<inter> set_mset (owners s2) = {}" "k_host s' = k_host s2"
    "\<And>o'. o' \<noteq> sid \<Longrightarrow> table_of s' o' = table_of s2 o'"
    "\<And>k j. k < n \<Longrightarrow> j < ?w \<Longrightarrow> k_dev s' (new ! k * ?w + j) = k_host s2 ((Suc i + k) * ?w + j)"
    "\<And>c j. c \<notin> set new \<Longrightarrow> j < ?w \<Longrightarrow> k_dev s' (c * ?w + j) = k_dev s2 (c * ?w + j)"
    using Suc.IH [OF _ _ l] p by blast
  have b: "b \<notin> set new" "b \<notin># owners s" using n(3) ow alloc_fresh [OF Suc.prems(1) a] by auto
  show ?case
  proof (intro exI [of _ "b # new"] conjI allI impI)
    fix k j
    assume k: "k < Suc n" and j: "j < ?w"
    show "k_dev s' ((b # new) ! k * ?w + j) = k_host s ((i + k) * ?w + j)"
    proof (cases k)
      case 0
      then show ?thesis
        using n(7) [OF b(1) j] fields(2) copy_bytes_same [of j ?w b] j by simp
    next
      case (Suc m)
      with k n(6) [of m j] j fields(1) show ?thesis by simp
    qed
  next
    fix c j
    assume c: "c \<notin> set (b # new)" and j: "j < ?w"
    then have "c \<noteq> b" by auto
    with c j n(7) [of c j] fields(2) copy_bytes_other [of c b j ?w]
    show "k_dev s' (c * ?w + j) = k_dev s (c * ?w + j)" by simp
  qed (use n ow b fields in auto)
qed

section \<open>Evicting and reloading one sequence\<close>

lemma byte_off_ok:
  assumes "0 \<le> bpb" and "i < n" and "int n * bpb \<le> 2147483648" and "0 < bpb"
  shows "\<exists>off. byte_off i bpb = Inr off"
proof -
  have "int i + 1 \<le> int n" using assms(2) by simp
  then have "(int i + 1) * bpb \<le> int n * bpb" using assms(1) by (rule mult_right_mono)
  then have "int i * bpb \<le> 2147483647" using assms(3,4) by (simp add: algebra_simps)
  moreover have "0 \<le> int i * bpb" using assms(1) by simp
  ultimately have "in_s32 (int i * bpb)" unfolding in_s32_def by linarith
  then show ?thesis using assms(1) by (simp add: byte_off_def)
qed

lemma evict_loop_runs:
  assumes "0 < bpb" and "int n * bpb \<le> 2147483648"
  shows "\<forall>b \<in> set bt. b < n \<Longrightarrow> i + length bt \<le> n \<Longrightarrow> \<exists>s'. evict_loop bpb i bt s = Inr s'"
proof (induction bt arbitrary: i s)
  case Nil
  then show ?case by simp
next
  case (Cons b bt)
  obtain soff doff where "byte_off b bpb = Inr soff" "byte_off i bpb = Inr doff"
    using byte_off_ok [of bpb b n] byte_off_ok [of bpb i n] assms Cons.prems by auto
  then show ?case using Cons.IH [of "Suc i"] Cons.prems by simp
qed

lemma reload_loop_runs:
  assumes "0 < bpb" and "int m * bpb \<le> 2147483648"
  shows "kv_inv s \<Longrightarrow> k_max_blocks s = m \<Longrightarrow> table_of s sid = Some bt \<Longrightarrow> i + n \<le> m \<Longrightarrow>
    n \<le> length (k_free s) \<Longrightarrow> \<exists>s'. reload_loop bpb sid i n bt s = Inr (True, s')"
proof (induction n arbitrary: i bt s)
  case 0
  then show ?case by simp
next
  case (Suc n)
  from Suc.prems(5) have "k_free s \<noteq> []" by auto
  then obtain b s1 where a: "alloc_block s = Some (b, s1)"
    by (auto simp: alloc_block_def Let_def)
  have "b < m" using alloc_block_Some(1) [OF a] Suc.prems(1,2) by (auto simp: kv_inv_def kv_acct_def)
  then obtain soff doff where o: "byte_off i bpb = Inr soff" "byte_off b bpb = Inr doff"
    using byte_off_ok [of bpb b m] byte_off_ok [of bpb i m] assms Suc.prems(4) by auto
  define s2 where "s2 = s1\<lparr>k_tables := AList.update sid (bt @ [b]) (k_tables s1),
            k_dev := copy_bytes (nat bpb) doff soff (k_dev s1) (k_host s1)\<rparr>"
  have p: "kv_inv s2 \<and> leak s2 = leak s \<and> k_max_blocks s2 = k_max_blocks s \<and>
        table_of s2 sid = Some (bt @ [b]) \<and> k_evicted s2 = k_evicted s"
    by (rule push_block_inv [OF Suc.prems(1,3) a]) (simp_all add: s2_def)
  have "length (k_free s) = Suc (length (k_free s2))"
    using kv.alloc_spare [OF a] by (simp add: s2_def)
  then have "\<exists>s'. reload_loop bpb sid (Suc i) n (bt @ [b]) s2 = Inr (True, s')"
    using p Suc.prems by (intro Suc.IH) auto
  then show ?case using a o by (simp add: s2_def)
qed

text \<open>What \<open>evict_sequence\<close> leaves when it succeeds on a sequence that is not evicted.\<close>

lemma evict_sequence_result:
  assumes t: "table_of s sid = Some bt" and e: "k_evicted s sid = None"
    and run: "evict_sequence junk sid s = Inr (ok, s')"
  shows "ok" and "k_evicted s' = (k_evicted s)(sid \<mapsto> length bt)"
    and "k_tables s' = AList.update sid [] (k_tables s)"
    and "k_dev s' = k_dev s" and "bytes_per_block s' = bytes_per_block s"
    and "k < length bt \<Longrightarrow> j < nat (bytes_per_block s) \<Longrightarrow>
      k_host s' (k * nat (bytes_per_block s) + j) = k_dev s (bt ! k * nat (bytes_per_block s) + j)"
    and "k_host_blocks s' = max (k_host_blocks s) (if k_host_blocks s < length bt then 2 * length bt else 0)"
proof -
  let ?s0 = "ensure_host junk (length bt) s"
  obtain s1 where l: "evict_loop (bytes_per_block s) 0 bt ?s0 = Inr s1"
    and s': "s' = s1\<lparr>k_evicted := (k_evicted s1)(sid \<mapsto> length bt),
      k_tables := AList.update sid [] (k_tables s1)\<rparr>" and ok
    using run t e by (auto simp: evict_sequence_def ebind_eq_Inr)
  have s0: "k_tables ?s0 = k_tables s" "k_evicted ?s0 = k_evicted s" "k_dev ?s0 = k_dev s"
    "bytes_per_block ?s0 = bytes_per_block s"
    by (simp_all add: ensure_host_def bytes_per_block_def)
  have fr: "evict_loop bpb i bt s = Inr s' \<Longrightarrow> k_tables s' = k_tables s \<and>
      k_evicted s' = k_evicted s \<and> bytes_per_block s' = bytes_per_block s" for bpb i bt s s'
    by (induction bt arbitrary: i s)
       (auto simp: ebind_eq_Inr free_block_def Let_def bytes_per_block_def)
  note f = fr [OF l] and b = evict_loop_bytes [OF l]
  show ok by fact
  show "k_evicted s' = (k_evicted s)(sid \<mapsto> length bt)"
    "k_tables s' = AList.update sid [] (k_tables s)" "k_dev s' = k_dev s"
    "bytes_per_block s' = bytes_per_block s"
    using f b s' s0 by (simp_all add: bytes_per_block_def)
  show "k_host_blocks s' = max (k_host_blocks s) (if k_host_blocks s < length bt then 2 * length bt else 0)"
    using b s' by (simp add: ensure_host_def)
  show "k < length bt \<Longrightarrow> j < nat (bytes_per_block s) \<Longrightarrow>
      k_host s' (k * nat (bytes_per_block s) + j) = k_dev s (bt ! k * nat (bytes_per_block s) + j)"
    using b s' s0 by simp
qed

text \<open>In an unshared pool the evicted blocks all return to the free stack.\<close>

lemma evict_returns_blocks:
  assumes inv: "kv_inv s" and r: "refs_le1 s" and t: "table_of s sid = Some bt"
    and e: "k_evicted s sid = None" and run: "evict_sequence junk sid s = Inr (ok, s')"
  shows "length bt \<le> length (k_free s')"
proof -
  have i': "kv_inv s'" "leak s' = leak s" "k_max_blocks s' = k_max_blocks s"
    using evict_inv [OF inv run] by simp_all
  have d: "distinct (concat (map snd (k_tables s)))" using unshared_distinct [OF inv r] .
  have dk: "distinct (map fst (k_tables s))" using inv by (simp add: kv_inv_def)
  have ow: "owners s = owners s' + mset bt"
    using t dk evict_sequence_result(3) [OF t e run] flat_delete [of "k_tables s" sid bt]
    by (simp add: owners_flat flat_update_old [of _ _ bt] table_of_def)
  have c1: "count (owners s) b \<le> 1" for b
    using d by (simp add: owners_def distinct_count_atmost_1)
  have "b \<in> set (k_free s')" if "b \<in> set bt" for b
  proof -
    have "1 \<le> count (mset bt) b" using that by (metis count_greater_eq_one_iff set_mset_mset)
    moreover have "count (owners s) b = count (owners s') b + count (mset bt) b" by (simp add: ow)
    ultimately have z: "count (owners s') b = 0" "count (owners s) b = 1"
      using c1 [of b] by linarith+
    have lt: "b < k_max_blocks s" using inv z(2)
      by (metis kv_inv_def kv_acct_def count_greater_eq_one_iff order_refl)
    have "k_refs s ! b \<le> 1" using r lt inv by (simp add: refs_le1_def kv_inv_def kv_acct_def)
    moreover have "leak s b = k_refs s ! b - 1" "leak s' b = k_refs s' ! b"
      using lt z i'(3) by (simp_all add: leak_def kv_slack_def)
    moreover have "0 \<le> k_refs s' ! b" using i' lt z by (auto simp: kv_inv_def kv_acct_def)
    ultimately have "k_refs s' ! b = 0" using i'(2) by simp
    then show ?thesis using i' lt by (simp add: kv_inv_def kv_acct_def)
  qed
  then have "set bt \<subseteq> set (k_free s')" by blast
  moreover have "distinct bt"
  proof -
    have "bt \<in> set (map snd (k_tables s))"
      using t map_of_SomeD [of "k_tables s" sid bt] by (force simp: table_of_def)
    then show ?thesis using d by (simp add: distinct_concat_iff)
  qed
  ultimately show ?thesis
    by (metis card_mono distinct_card finite_set order_trans card_length)
qed



text \<open>The eviction buffer holds one sequence only. Every \<open>evict_sequence\<close> writes
  from offset 0 of the host buffer, so when a second sequence is evicted before the first is
  reloaded, the first comes back with the second's KV contents in its leading blocks.\<close>

theorem second_eviction_overwrites:
  assumes inv: "kv_inv s" and ne: "a \<noteq> b"
    and ta: "table_of s a = Some bta" and ea: "k_evicted s a = None"
    and tb: "table_of s b = Some btb" and eb: "k_evicted s b = None"
    and r1: "evict_sequence junk a s = Inr (True, s1)"
    and r2: "evict_sequence junk' b s1 = Inr (True, s2)"
    and r3: "reload_sequence a s2 = Inr (True, s3)"
    and k: "k < length bta" "k < length btb" and j: "j < nat (bytes_per_block s)"
  shows "\<exists>bt'. table_of s3 a = Some bt' \<and> length bt' = length bta \<and>
    k_dev s3 (bt' ! k * nat (bytes_per_block s) + j) = k_dev s (btb ! k * nat (bytes_per_block s) + j)"
proof -
  note e1 = evict_sequence_result [OF ta ea r1]
  have tb1: "table_of s1 b = Some btb" and eb1: "k_evicted s1 b = None"
    using e1(2,3) tb eb ne by (simp_all add: table_of_def)
  note e2 = evict_sequence_result [OF tb1 eb1 r2]
  have i1: "kv_inv s1" using evict_inv [OF inv r1] by simp
  have i2: "kv_inv s2" using evict_inv [OF i1 r2] by simp
  have ta2: "table_of s2 a = Some []" and ea2: "k_evicted s2 a = Some (length bta)"
    using e1(2,3) e2(2,3) ne by (simp_all add: table_of_def)
  have bpb: "bytes_per_block s2 = bytes_per_block s" using e1(5) e2(5) by simp
  have same: "s2\<lparr>k_tables := AList.update a [] (k_tables s2)\<rparr> = s2"
    using ta2 by (simp add: AList_update_same table_of_def)
  obtain s4 where l: "reload_loop (bytes_per_block s) a 0 (length bta) [] s2 = Inr (True, s4)"
    and s3: "s3 = s4\<lparr>k_evicted := (k_evicted s4)(a := None)\<rparr>"
    using r3 ea2 ta2 same bpb by (auto simp: reload_sequence_def ebind_eq_Inr split: if_splits)
  from reload_loop_bytes [OF i2 ta2 l] obtain new where
    n: "table_of s4 a = Some new" "length new = length bta"
      "k_dev s4 (new ! k * nat (bytes_per_block s) + j) = k_host s2 (k * nat (bytes_per_block s) + j)"
    using k(1) j by auto
  have "k_host s2 (k * nat (bytes_per_block s) + j) = k_dev s (btb ! k * nat (bytes_per_block s) + j)"
    using e2(6) [of k j] k(2) j e1(4,5) by simp
  with n s3 show ?thesis by (auto simp: table_of_def)
qed

text \<open>Device memory filled by some kernel, the rest of the state as it is.\<close>

definition fill_dev :: "bytes \<Rightarrow> kv_state \<Rightarrow> kv_state" where
  "fill_dev d s = s\<lparr>k_dev := d\<rparr>"

lemma fill_dev_inv: "kv_inv (fill_dev d s) = kv_inv s"
  by (simp add: fill_dev_def kv_inv_def kv_acct_def owners_def table_of_def)

theorem second_eviction_overwrites_witness:
  "\<exists>sa sb s1 s2 s3. allocate_sequence 7 4 tiny_pool = Inr (True, sa) \<and>
     allocate_sequence 8 4 sa = Inr (True, sb) \<and>
     evict_sequence (\<lambda>_. 0) 7 (fill_dev of_nat sb) = Inr (True, s1) \<and>
     evict_sequence (\<lambda>_. 0) 8 s1 = Inr (True, s2) \<and> reload_sequence 7 s2 = Inr (True, s3) \<and>
     table_of sb 7 = Some [0] \<and> k_dev (fill_dev of_nat sb) 3 = 3 \<and>
     (\<exists>b. table_of s3 7 = Some [b] \<and> k_dev s3 (b * 8 + 3) = 11)"
proof -
  have "\<exists>sa sb s1 s2 s3. allocate_sequence 7 4 tiny_pool = Inr (True, sa) \<and>
     allocate_sequence 8 4 sa = Inr (True, sb) \<and>
     evict_sequence (\<lambda>_. 0) 7 (fill_dev of_nat sb) = Inr (True, s1) \<and>
     evict_sequence (\<lambda>_. 0) 8 s1 = Inr (True, s2) \<and> reload_sequence 7 s2 = Inr (True, s3) \<and>
     table_of sb 7 = Some [0] \<and> table_of sb 8 = Some [1] \<and> k_evicted sb = Map.empty \<and>
     bytes_per_block sb = 8"
    by (simp add: kv_eval eval_nat_numeral bytes_per_block_def bytes_of_block_def cast_s32_def
        fill_dev_def ensure_host_def byte_off_def)
  then obtain sa sb s1 s2 s3 where r: "allocate_sequence 7 4 tiny_pool = Inr (True, sa)"
    "allocate_sequence 8 4 sa = Inr (True, sb)"
    "evict_sequence (\<lambda>_. 0) 7 (fill_dev of_nat sb) = Inr (True, s1)"
    "evict_sequence (\<lambda>_. 0) 8 s1 = Inr (True, s2)" "reload_sequence 7 s2 = Inr (True, s3)"
    "table_of sb 7 = Some [0]" "table_of sb 8 = Some [1]" "k_evicted sb = Map.empty"
    "bytes_per_block sb = 8" by blast
  have "kv_inv tiny_pool" using kv_construct_inv [OF tiny_pool_construct] by blast
  from allocate_inv [OF this r(1)] have i: "kv_inv sa" by simp
  from allocate_inv [OF i r(2)] have i: "kv_inv (fill_dev of_nat sb)" by (simp add: fill_dev_inv)
  have f: "table_of (fill_dev of_nat sb) = table_of sb" "bytes_per_block (fill_dev of_nat sb) = 8"
    "k_evicted (fill_dev of_nat sb) = Map.empty" "k_dev (fill_dev of_nat sb) = of_nat"
    using r(8,9) by (simp_all add: fill_dev_def table_of_def bytes_per_block_def fun_eq_iff)
  obtain bt' where bt': "table_of s3 7 = Some bt'" "length bt' = length [0::nat]"
    "k_dev s3 (bt' ! 0 * nat 8 + 3) = of_nat ([1] ! 0 * nat 8 + 3)"
    using second_eviction_overwrites [OF i _ _ _ _ _ r(3-5), of "[0]" "[1]" 0 3] f r(6,7)
    by auto
  then obtain b where "bt' = [b]" by (cases bt') auto
  with r bt' f show ?thesis by (intro exI conjI) (auto simp: f)
qed

section \<open>The per-layer layout\<close>

text \<open>
  The accessors \<open>kv_layer_k_ptr\<close> and \<open>kv_layer_v_ptr\<close> as byte offsets into the pool
  (\<open>size_t\<close> products), and the bytes \<open>[o, o + row)\<close> a kernel addresses for block \<open>b\<close> of a
  K or V pool of shape [num_blocks, n_kv, head_size, block_size].
\<close>

definition size_t :: "int \<Rightarrow> int" where
  "size_t x = x mod 18446744073709551616"

definition kv_k_pool_bytes :: "kv_state \<Rightarrow> int" where
  "kv_k_pool_bytes s = size_t (int (k_max_blocks s) * k_kv_heads s * k_head_size s *
     k_block_size s * (if k_fp8 s then 1 else 2))"

definition kv_layer_kv_ptr :: "int \<Rightarrow> kv_state \<Rightarrow> int" where
  "kv_layer_kv_ptr layer s = size_t (layer * 2 * kv_k_pool_bytes s)"

definition kv_layer_k_ptr :: "int \<Rightarrow> kv_state \<Rightarrow> int" where
  "kv_layer_k_ptr layer s = kv_layer_kv_ptr layer s"

definition kv_layer_v_ptr :: "int \<Rightarrow> kv_state \<Rightarrow> int" where
  "kv_layer_v_ptr layer s = kv_layer_kv_ptr layer s + kv_k_pool_bytes s"

definition row_bytes :: "kv_state \<Rightarrow> int" where
  "row_bytes s = k_kv_heads s * k_head_size s * k_block_size s * (if k_fp8 s then 1 else 2)"

text \<open>Start of the K (\<open>v = False\<close>) or V rows of block \<open>b\<close> in a layer.\<close>

definition row_start :: "bool \<Rightarrow> int \<Rightarrow> nat \<Rightarrow> kv_state \<Rightarrow> int" where
  "row_start v layer b s =
     (if v then kv_layer_v_ptr layer s else kv_layer_k_ptr layer s) + int b * row_bytes s"

definition row_index :: "bool \<Rightarrow> int \<Rightarrow> nat \<Rightarrow> kv_state \<Rightarrow> int" where
  "row_index v layer b s = (2 * layer + (if v then 1 else 0)) * int (k_max_blocks s) + int b"

lemma size_t_id: "0 \<le> x \<Longrightarrow> x < 18446744073709551616 \<Longrightarrow> size_t x = x"
  by (simp add: size_t_def)

lemma row_start_index:
  assumes row: "0 < row_bytes s" and l: "0 \<le> l" "l < k_layers s"
    and fits: "2 * k_layers s * int (k_max_blocks s) * row_bytes s < 18446744073709551616"
  shows "row_start v l b s = row_index v l b s * row_bytes s"
proof -
  let ?p = "int (k_max_blocks s) * row_bytes s"
  have p0: "0 \<le> ?p" using row by simp
  have e: "2 * k_layers s * int (k_max_blocks s) * row_bytes s = 2 * k_layers s * ?p"
    by (simp add: mult.assoc)
  have "(l * 2) * ?p \<le> (2 * k_layers s) * ?p" using l p0 by (intro mult_right_mono) auto
  then have lt: "l * 2 * ?p < 18446744073709551616" using fits e by linarith
  have "1 * ?p \<le> (2 * k_layers s) * ?p" using l p0 by (intro mult_right_mono) auto
  then have "?p < 18446744073709551616" using fits e by linarith
  then have pool: "kv_k_pool_bytes s = ?p"
    using p0 by (simp add: kv_k_pool_bytes_def row_bytes_def size_t_id mult.assoc)
  have "0 \<le> l * 2 * ?p" using l p0 by simp
  then have "kv_layer_kv_ptr l s = l * 2 * ?p"
    using lt by (simp add: kv_layer_kv_ptr_def pool size_t_id)
  then show ?thesis
    by (simp add: row_start_def row_index_def kv_layer_k_ptr_def kv_layer_v_ptr_def pool algebra_simps)
qed

lemma row_index_inj:
  assumes "b < k_max_blocks s" "c < k_max_blocks s" and "row_index v l b s = row_index w m c s"
  shows "v = w \<and> l = m \<and> b = c"
proof -
  let ?n = "int (k_max_blocks s)"
  let ?i = "2 * l + (if v then 1 else 0)" and ?k = "2 * m + (if w then 1 else 0)"
  have n: "int b < ?n" "int c < ?n" using assms by auto
  have e: "?i * ?n + int b = ?k * ?n + int c" using assms(3) by (simp add: row_index_def)
  have d: "(x * ?n + int y) div ?n = x" if "int y < ?n" for x y
    using that by (simp add: div_pos_pos_trivial)
  have "?i = ?k" using d [OF n(1), of ?i] d [OF n(2), of ?k] e by simp
  moreover from this e have "b = c" by simp
  moreover from \<open>?i = ?k\<close> have "v = w" by (auto split: if_splits; presburger)
  ultimately show ?thesis by auto
qed

text \<open>The per-layer layout partitions the pool. The rows that the K and V pointers of the
  layers give for the blocks lie inside the pool, and the rows of different (layer, K/V, block)
  never overlap, so no kernel write through these pointers touches another block's or layer's
  KV data.\<close>

theorem kv_layout_disjoint:
  assumes row: "0 < row_bytes s" and l: "0 \<le> l" "l < k_layers s" and m: "0 \<le> m" "m < k_layers s"
    and b: "b < k_max_blocks s" and c: "c < k_max_blocks s"
    and fits: "2 * k_layers s * int (k_max_blocks s) * row_bytes s < 18446744073709551616"
    and ne: "(v, l, b) \<noteq> (w, m, c)"
  shows "0 \<le> row_start v l b s \<and>
    row_start v l b s + row_bytes s \<le> int (k_max_blocks s) * (2 * k_layers s * row_bytes s) \<and>
    (row_start v l b s + row_bytes s \<le> row_start w m c s \<or>
     row_start w m c s + row_bytes s \<le> row_start v l b s)"
proof -
  let ?r = "row_bytes s" and ?n = "int (k_max_blocks s)"
  let ?i = "row_index v l b s" and ?k = "row_index w m c s"
  note e = row_start_index [OF row l fits, of v b] row_start_index [OF row m fits, of w c]
  have "?i \<noteq> ?k" using row_index_inj [OF b c] ne by auto
  then have "?i + 1 \<le> ?k \<or> ?k + 1 \<le> ?i" by linarith
  then have "(?i + 1) * ?r \<le> ?k * ?r \<or> (?k + 1) * ?r \<le> ?i * ?r"
    using row by (auto intro: mult_right_mono)
  moreover have i0: "0 \<le> ?i" using l by (simp add: row_index_def)
  have "(2 * l + (if v then 1 else 0) + 1) * ?n \<le> (2 * k_layers s) * ?n"
    using l by (intro mult_right_mono) auto
  then have "?i + 1 \<le> 2 * k_layers s * ?n" using b by (simp add: row_index_def algebra_simps)
  then have "(?i + 1) * ?r \<le> 2 * k_layers s * ?n * ?r" using row by (intro mult_right_mono) auto
  moreover have "0 \<le> ?i * ?r" using i0 row by simp
  ultimately show ?thesis unfolding e by (simp add: algebra_simps)
qed

theorem kv_layout_disjoint_witness:
  "row_start True 0 0 tiny_pool + 4 \<le> row_start True 0 2 tiny_pool \<or>
   row_start True 0 2 tiny_pool + 4 \<le> row_start True 0 0 tiny_pool"
  using kv_layout_disjoint [of tiny_pool 0 0 0 2 True True] by (simp add: tiny_pool_def row_bytes_def)

text \<open>Eviction copies the wrong bytes. \<open>evict_sequence\<close> saves the range
  [b * bytes_per_block, (b + 1) * bytes_per_block) of the pool for block \<open>b\<close>, as if the pool were
  block-major, while the kernels address it layer-major: with two or more blocks the saved range of
  block 0 contains none of its V rows of the last layer.\<close>

theorem evict_range_misses_rows:
  assumes row: "0 < row_bytes s" and l: "1 \<le> k_layers s" and n: "2 \<le> k_max_blocks s"
    and fits: "2 * k_layers s * int (k_max_blocks s) * row_bytes s < 18446744073709551616"
    and bpb: "in_s32 (2 * k_layers s * row_bytes s)"
  shows "bytes_per_block s = 2 * k_layers s * row_bytes s \<and>
    bytes_per_block s \<le> row_start True (k_layers s - 1) 0 s"
proof -
  let ?L = "k_layers s" and ?n = "int (k_max_blocks s)"
  have e: "bytes_per_block s = 2 * ?L * row_bytes s"
    using cast_s32_id [OF bpb] by (simp add: bytes_per_block_def bytes_of_block_def row_bytes_def ac_simps)
  have "row_start True (?L - 1) 0 s = row_index True (?L - 1) 0 s * row_bytes s"
    using row_start_index [OF row _ _ fits] l by simp
  moreover have "(2 * ?L - 1) * 2 \<le> (2 * ?L - 1) * ?n" using l n by (intro mult_left_mono) auto
  then have "2 * ?L \<le> row_index True (?L - 1) 0 s" using l by (simp add: row_index_def)
  then have "2 * ?L * row_bytes s \<le> row_index True (?L - 1) 0 s * row_bytes s"
    using row by (intro mult_right_mono) auto
  ultimately show ?thesis using e by simp
qed

theorem evict_range_misses_rows_witness:
  "bytes_per_block tiny_pool \<le> row_start True 0 0 tiny_pool"
  using evict_range_misses_rows [of tiny_pool]
  by (simp add: tiny_pool_def row_bytes_def in_s32_def)

end
