(* ===== verification/Scheduler.thy ===== *)
theory Scheduler
  imports Config_Schema
begin

text \<open>
  \<open>src/inference/scheduler/batch_scheduler.{h,cpp}\<close>: the continuous batching scheduler. One
  worker thread owns the slots; handler threads only push to the queue, under the queue mutex, so a
  run is a sequence of submissions and of iterations of the worker's loop. llama.cpp, the clock and
  the streaming callback are outside: the calls the scheduler makes are recorded in a trace, and
  what llama.cpp answers is a function of that trace (\<open>llama_env\<close>). A promise is a number; an
  answer is a pair of a promise and its result. Fields that a \<open>GenerateResult\<close> leaves
  uninitialised are \<^const>\<open>None\<close>. Token counts and positions stay far below the int range (they
  are bounded by the context) and are unbounded here.
\<close>

section \<open>Requests, results, configuration\<close>

record generate_request =
  g_tokens :: "int list"
  g_max_tokens :: int
  g_temperature :: real
  g_top_p :: real
  g_top_k :: int
  g_repeat_penalty :: real
  g_on_token :: bool
  g_stop_tokens :: "int list"
  g_stop :: "string list"
  g_grammar :: string
  g_grammar_lazy :: bool
  g_request_id :: string
  g_session_id :: string

record generate_result =
  r_tokens :: "int list"
  r_text :: string
  r_prompt_tokens :: "int option"
  r_generated_tokens :: "int option"
  r_time_ms :: "real option"
  r_error :: error_code
  r_error_message :: string
  r_finish_reason :: string

definition error_result :: "error_code \<Rightarrow> string \<Rightarrow> generate_result" where
  "error_result ec msg = \<lparr>r_tokens = [], r_text = [], r_prompt_tokens = None,
     r_generated_tokens = None, r_time_ms = None, r_error = ec, r_error_message = msg,
     r_finish_reason = ''stop''\<rparr>"

datatype sampler_stage =
    TopK int | TopP real | MinP real | Temp real | Penalties int real real real | Dist int

record sampler =
  sm_chain :: "sampler_stage list"
  sm_accepted :: "int list"

section \<open>The llama.cpp boundary\<close>

record batch_entry =
  b_token :: int
  b_pos :: int
  b_seq :: int
  b_logits :: bool

datatype llama_call = SeqRm int int int | Decode "batch_entry list" int

record llama_env =
  e_n_ctx :: nat
  e_n_batch :: int
  e_decode :: "llama_call list \<Rightarrow> batch_entry list \<Rightarrow> int"
  e_sample :: "llama_call list \<Rightarrow> sampler \<Rightarrow> int \<Rightarrow> int"
  e_eog :: "int \<Rightarrow> bool"
  e_piece :: "int \<Rightarrow> string"
  e_clock :: "nat \<Rightarrow> int"
  e_fl :: "real \<Rightarrow> real"
  e_smp :: sampling_config
  e_max_queue :: int

text \<open>What the scheduler has done to the outside: answers given, llama.cpp calls made, clock
  readings taken, tokens streamed.\<close>

record world =
  w_answers :: "(nat \<times> generate_result) list"
  w_trace :: "llama_call list"
  w_reads :: nat
  w_streamed :: "(nat \<times> int \<times> string) list"

text \<open>The steady clock counts nanoseconds; \<open>now_us\<close> is its cast to microseconds.\<close>

definition now_raw :: "llama_env \<Rightarrow> world \<Rightarrow> int \<times> world" where
  "now_raw e w = (e_clock e (w_reads w), w\<lparr>w_reads := Suc (w_reads w)\<rparr>)"

definition now_us :: "llama_env \<Rightarrow> world \<Rightarrow> int \<times> world" where
  "now_us e w = (let (t, w') = now_raw e w in (tdiv t 1000, w'))"

definition answer :: "nat \<Rightarrow> generate_result \<Rightarrow> world \<Rightarrow> world" where
  "answer p r w = w\<lparr>w_answers := w_answers w @ [(p, r)]\<rparr>"

definition seq_rm :: "int \<Rightarrow> int \<Rightarrow> int \<Rightarrow> world \<Rightarrow> world" where
  "seq_rm sq p0 p1 w = w\<lparr>w_trace := w_trace w @ [SeqRm sq p0 p1]\<rparr>"

section \<open>Slots\<close>

record slot =
  sl_id :: int
  sl_seq_id :: int
  sl_pending :: "int list"
  sl_prefilled :: bool
  sl_n_past :: int
  sl_sampled :: int
  sl_i_batch :: int
  sl_n_prompt :: int
  sl_n_decoded :: int
  sl_max_new :: int
  sl_stop_token_ids :: "int list"
  sl_stop_strings :: "string list"
  sl_accumulated :: string
  sl_gen_token_ids :: "int list"
  sl_sampler :: "sampler option"
  sl_on_token :: bool
  sl_promise :: nat
  sl_t_start_us :: int
  sl_warm :: bool
  sl_cached_session_id :: string
  sl_cached_tokens :: "int list"
  sl_cached_at_us :: int

definition is_free :: "slot \<Rightarrow> bool" where
  "is_free s \<longleftrightarrow> sl_seq_id s = -1"

definition is_warm :: "slot \<Rightarrow> bool" where
  "is_warm s \<longleftrightarrow> sl_seq_id s \<noteq> -1 \<and> sl_warm s"

definition is_busy :: "slot \<Rightarrow> bool" where
  "is_busy s \<longleftrightarrow> sl_seq_id s \<noteq> -1 \<and> \<not> sl_warm s"

definition new_slot :: "int \<Rightarrow> slot" where
  "new_slot i = \<lparr>sl_id = i, sl_seq_id = -1, sl_pending = [], sl_prefilled = False, sl_n_past = 0,
     sl_sampled = 0, sl_i_batch = -1, sl_n_prompt = 0, sl_n_decoded = 0, sl_max_new = 512,
     sl_stop_token_ids = [], sl_stop_strings = [], sl_accumulated = [], sl_gen_token_ids = [],
     sl_sampler = None, sl_on_token = False, sl_promise = 0, sl_t_start_us = 0, sl_warm = False,
     sl_cached_session_id = [], sl_cached_tokens = [], sl_cached_at_us = 0\<rparr>"

record scheduler =
  s_slots :: "slot list"
  s_queue :: "(generate_request \<times> nat) list"
  s_running :: bool
  s_world :: world

definition new_scheduler :: "nat \<Rightarrow> scheduler" where
  "new_scheduler max_seqs = \<lparr>s_slots = map (new_slot \<circ> int) [0..<max_seqs], s_queue = [],
     s_running = True,
     s_world = \<lparr>w_answers = [], w_trace = [], w_reads = 0, w_streamed = []\<rparr>\<rparr>"

text \<open>The loops \<open>for (auto& slot : slots_)\<close>.\<close>

fun for_slots :: "(slot \<Rightarrow> 'c \<Rightarrow> slot \<times> 'c) \<Rightarrow> slot list \<Rightarrow> 'c \<Rightarrow> slot list \<times> 'c" where
  "for_slots f [] c = ([], c)"
| "for_slots f (s # ss) c =
     (let (s', c1) = f s c; (ss', c2) = for_slots f ss c1 in (s' # ss', c2))"

fun for_slots_exec ::
  "(slot \<Rightarrow> 'c \<Rightarrow> (slot \<times> 'c) exec) \<Rightarrow> slot list \<Rightarrow> 'c \<Rightarrow> (slot list \<times> 'c) exec" where
  "for_slots_exec f [] c = Inr ([], c)"
| "for_slots_exec f (s # ss) c =
     ebind (f s c) (\<lambda>(s', c1). ebind (for_slots_exec f ss c1) (\<lambda>(ss', c2). Inr (s' # ss', c2)))"

section \<open>Submission\<close>

definition submit :: "llama_env \<Rightarrow> generate_request \<Rightarrow> nat \<Rightarrow> scheduler \<Rightarrow> scheduler" where
  "submit e req p st =
     (if int (length (s_queue st)) \<ge> e_max_queue e
      then st\<lparr>s_world := answer p (error_result Unavailable ''Request queue is full'') (s_world st)\<rparr>
      else st\<lparr>s_queue := s_queue st @ [(req, p)]\<rparr>)"

definition make_sampler :: "llama_env \<Rightarrow> generate_request \<Rightarrow> world \<Rightarrow> sampler \<times> world" where
  "make_sampler e req w =
     (let d = e_smp e;
          top_k = (if g_top_k req > 0 then g_top_k req else smp_top_k d);
          top_p = (if g_top_p req > 0 then g_top_p req else smp_top_p d);
          temp = (if g_temperature req \<ge> 0 then g_temperature req else smp_temperature d);
          rep = (if g_repeat_penalty req > 0 then g_repeat_penalty req else smp_repeat_penalty d);
          (seed, w') = (if smp_seed d < 0 then let (t, w') = now_raw e w in (cast_u32 t, w')
                        else (cast_u32 (smp_seed d), w))
      in (\<lparr>sm_chain = [TopK top_k, TopP top_p, MinP (smp_min_p d), Temp temp,
              Penalties 64 rep (smp_frequency_penalty d) (smp_presence_penalty d), Dist seed],
           sm_accepted = []\<rparr>, w'))"

definition matches_stop :: "slot \<Rightarrow> bool" where
  "matches_stop s = list_ex (\<lambda>t. t \<noteq> [] \<and> length t \<le> length (sl_accumulated s) \<and>
     drop (length (sl_accumulated s) - length t) (sl_accumulated s) = t) (sl_stop_strings s)"

section \<open>Completion\<close>

definition complete_slot ::
  "llama_env \<Rightarrow> error_code \<Rightarrow> string \<Rightarrow> string \<Rightarrow> slot \<Rightarrow> world \<Rightarrow> slot \<times> world" where
  "complete_slot e ec msg finish_reason s w =
     (let (t_end, w1) = now_us e w;
          res = \<lparr>r_tokens = sl_gen_token_ids s, r_text = sl_accumulated s,
                 r_prompt_tokens = Some (sl_n_prompt s), r_generated_tokens = Some (sl_n_decoded s),
                 r_time_ms = Some (e_fl e (e_fl e (of_int (t_end - sl_t_start_us s)) / 1000)),
                 r_error = ec, r_error_message = msg,
                 r_finish_reason = (if ec = Ok then finish_reason else ''error'')\<rparr>;
          w2 = answer (sl_promise s) res w1;
          keep_warm = (ec = Ok \<and> sl_cached_session_id s \<noteq> []);
          (s1, w3) =
            (if keep_warm
             then let (t, w3) = now_us e w2 in (s\<lparr>sl_warm := True, sl_cached_at_us := t\<rparr>, w3)
             else (s\<lparr>sl_warm := False, sl_cached_session_id := [], sl_cached_tokens := [],
                     sl_cached_at_us := 0, sl_seq_id := -1\<rparr>,
                   seq_rm (sl_seq_id s) (-1) (-1) w2))
      in (s1\<lparr>sl_sampler := None, sl_prefilled := False, sl_pending := [], sl_accumulated := [],
             sl_gen_token_ids := [], sl_stop_strings := [], sl_stop_token_ids := [],
             sl_on_token := False,
             sl_n_past := (if keep_warm then int (length (sl_cached_tokens s1)) else 0),
             sl_n_prompt := 0, sl_n_decoded := 0, sl_i_batch := -1\<rparr>, w3))"

section \<open>Admission\<close>

fun common_prefix_len :: "int list \<Rightarrow> int list \<Rightarrow> nat" where
  "common_prefix_len (x # xs) (y # ys) = (if x = y then Suc (common_prefix_len xs ys) else 0)"
| "common_prefix_len _ _ = 0"

definition find_slot :: "(slot \<Rightarrow> bool) \<Rightarrow> slot list \<Rightarrow> nat option" where
  "find_slot p ss = (case filter (\<lambda>i. p (ss ! i)) [0..<length ss] of [] \<Rightarrow> None | i # _ \<Rightarrow> Some i)"

text \<open>The slot and the prefix length of the session reuse search: only the first warm slot of the
  session is looked at.\<close>

definition find_session :: "generate_request \<Rightarrow> slot list \<Rightarrow> (nat \<times> nat) option" where
  "find_session req ss =
     (if g_session_id req = [] then None
      else case find_slot (\<lambda>s. is_warm s \<and> sl_cached_session_id s = g_session_id req) ss of
             None \<Rightarrow> None
           | Some i \<Rightarrow>
               let common = common_prefix_len (sl_cached_tokens (ss ! i)) (g_tokens req)
               in if 64 \<le> common then Some (i, common) else None)"

text \<open>The LRU victim: the first warm slot with the least \<open>cached_at_us\<close> below INT64_MAX.\<close>

fun lru_victim :: "slot list \<Rightarrow> nat \<Rightarrow> int \<Rightarrow> nat option \<Rightarrow> nat option" where
  "lru_victim [] i oldest v = v"
| "lru_victim (s # ss) i oldest v =
     (if is_warm s \<and> sl_cached_at_us s < oldest
      then lru_victim ss (Suc i) (sl_cached_at_us s) (Some i)
      else lru_victim ss (Suc i) oldest v)"

definition select_slot ::
  "generate_request \<Rightarrow> slot list \<Rightarrow> world \<Rightarrow> (nat \<times> nat \<times> slot list \<times> world) option" where
  "select_slot req ss w =
     (case find_session req ss of
        Some (i, common) \<Rightarrow> Some (i, common, ss, w)
      | None \<Rightarrow>
          (case find_slot is_free ss of
             Some i \<Rightarrow> Some (i, 0, ss, w)
           | None \<Rightarrow>
               (case lru_victim ss 0 9223372036854775807 None of
                  None \<Rightarrow> None
                | Some i \<Rightarrow>
                    Some (i, 0,
                      ss[i := (ss ! i)\<lparr>sl_seq_id := -1, sl_warm := False, sl_cached_session_id := [],
                                 sl_cached_tokens := [], sl_cached_at_us := 0\<rparr>],
                      seq_rm (sl_seq_id (ss ! i)) (-1) (-1) w))))"

definition admit_slot ::
  "llama_env \<Rightarrow> generate_request \<Rightarrow> nat \<Rightarrow> nat \<Rightarrow> slot \<Rightarrow> world \<Rightarrow> slot \<times> world" where
  "admit_slot e req p prefix_len s w =
     (let (s1, w1) =
            (if 0 < prefix_len
             then (s\<lparr>sl_prefilled := False, sl_n_past := int prefix_len,
                     sl_pending := drop prefix_len (g_tokens req)\<rparr>,
                   seq_rm (sl_seq_id s) (int prefix_len) (-1) w)
             else (s\<lparr>sl_seq_id := sl_id s, sl_prefilled := False, sl_n_past := 0,
                     sl_pending := g_tokens req\<rparr>,
                   if sl_warm s then seq_rm (sl_seq_id s) (-1) (-1) w else w));
          (t, w2) = now_us e w1;
          (smp, w3) = make_sampler e req w2
      in (s1\<lparr>sl_warm := False, sl_cached_session_id := g_session_id req,
             sl_cached_tokens := g_tokens req, sl_n_prompt := int (length (g_tokens req)),
             sl_n_decoded := 0, sl_i_batch := -1,
             sl_max_new := (if g_max_tokens req > 0 then g_max_tokens req
                            else smp_max_tokens (e_smp e)),
             sl_stop_token_ids := g_stop_tokens req, sl_stop_strings := smp_stop (e_smp e),
             sl_accumulated := [], sl_gen_token_ids := [], sl_on_token := g_on_token req,
             sl_promise := p, sl_t_start_us := t, sl_sampler := Some smp\<rparr>, w3))"

definition too_long_result :: "llama_env \<Rightarrow> nat \<Rightarrow> generate_result" where
  "too_long_result e n =
     (error_result InvalidArgument
        (''Prompt length ('' @ show_nat n @ '' tokens) exceeds context window ('' @
         show_nat (e_n_ctx e) @ '' tokens)''))\<lparr>r_prompt_tokens := Some (int n)\<rparr>"

fun admit_loop ::
  "llama_env \<Rightarrow> (generate_request \<times> nat) list \<Rightarrow> slot list \<Rightarrow> world \<Rightarrow>
   (generate_request \<times> nat) list \<times> slot list \<times> world" where
  "admit_loop e [] ss w = ([], ss, w)"
| "admit_loop e ((req, p) # q) ss w =
     (if g_tokens req = []
      then admit_loop e q ss (answer p (error_result InvalidArgument ''Empty token list'') w)
      else if e_n_ctx e \<le> length (g_tokens req)
      then admit_loop e q ss (answer p (too_long_result e (length (g_tokens req))) w)
      else case select_slot req ss w of
             None \<Rightarrow> ((req, p) # q, ss, w)
           | Some (i, common, ss1, w1) \<Rightarrow>
               let (s, w2) = admit_slot e req p common (ss1 ! i) w1
               in admit_loop e q (ss1[i := s]) w2)"

definition try_admit_pending :: "llama_env \<Rightarrow> scheduler \<Rightarrow> scheduler" where
  "try_admit_pending e st =
     (case admit_loop e (s_queue st) (s_slots st) (s_world st) of
        (q, ss, w) \<Rightarrow> st\<lparr>s_queue := q, s_slots := ss, s_world := w\<rparr>)"

section \<open>Building the batch\<close>

definition batch_add ::
  "llama_env \<Rightarrow> int \<Rightarrow> int \<Rightarrow> int \<Rightarrow> bool \<Rightarrow> batch_entry list \<Rightarrow> batch_entry list exec" where
  "batch_add e tok pos sq need_logits b =
     (if length b < e_n_ctx e
      then Inr (b @ [\<lparr>b_token = tok, b_pos = pos, b_seq = sq, b_logits = need_logits\<rparr>])
      else Inl OutOfRange)"

fun add_prompt ::
  "llama_env \<Rightarrow> int list \<Rightarrow> int \<Rightarrow> int \<Rightarrow> batch_entry list \<Rightarrow> batch_entry list exec" where
  "add_prompt e [] pos sq b = Inr b"
| "add_prompt e (x # xs) pos sq b =
     ebind (batch_add e x pos sq (xs = []) b) (\<lambda>b'. add_prompt e xs (pos + 1) sq b')"

definition build_slot ::
  "llama_env \<Rightarrow> slot \<Rightarrow> batch_entry list \<times> world \<Rightarrow> (slot \<times> batch_entry list \<times> world) exec" where
  "build_slot e s = (\<lambda>(b, w).
     if \<not> is_busy s then Inr (s, b, w)
     else if \<not> sl_prefilled s then
       (if sl_pending s = [] then
          (if 0 < sl_n_past s then
             let last_pos = sl_n_past s - 1
             in if int (length (sl_cached_tokens s)) \<le> last_pos then Inl OutOfRange
                else ebind (batch_add e (sl_cached_tokens s ! nat last_pos) last_pos (sl_seq_id s) True b)
                  (\<lambda>b'. Inr (s\<lparr>sl_i_batch := int (length b') - 1, sl_n_past := last_pos + 1\<rparr>, b',
                            seq_rm (sl_seq_id s) last_pos (-1) w))
           else Inr (s, b, w))
        else ebind (add_prompt e (sl_pending s) (sl_n_past s) (sl_seq_id s) b)
          (\<lambda>b'. Inr (s\<lparr>sl_i_batch := int (length b') - 1,
                      sl_n_past := sl_n_past s + int (length (sl_pending s))\<rparr>, b', w)))
     else ebind (batch_add e (sl_sampled s) (sl_n_past s) (sl_seq_id s) True b)
       (\<lambda>b'. Inr (s\<lparr>sl_i_batch := int (length b), sl_n_past := sl_n_past s + 1\<rparr>, b', w)))"

definition build_batch ::
  "llama_env \<Rightarrow> slot list \<Rightarrow> world \<Rightarrow> (slot list \<times> batch_entry list \<times> world) exec" where
  "build_batch e ss w = for_slots_exec (build_slot e) ss ([], w)"

section \<open>Decoding and sampling\<close>

text \<open>The failure branch: every busy slot whose logit token is not decoded yet fails.\<close>

definition fail_slot :: "llama_env \<Rightarrow> int \<Rightarrow> slot \<Rightarrow> world \<Rightarrow> slot \<times> world" where
  "fail_slot e chunk_start s w =
     (if is_busy s \<and> chunk_start \<le> sl_i_batch s
      then complete_slot e InternalError ''llama_decode failed'' ''stop'' s w else (s, w))"

definition stream :: "slot \<Rightarrow> int \<Rightarrow> string \<Rightarrow> world \<Rightarrow> world" where
  "stream s tok piece w =
     (if sl_on_token s then w\<lparr>w_streamed := w_streamed w @ [(sl_promise s, tok, piece)]\<rparr> else w)"

text \<open>What sampling token \<open>tok\<close> does to a slot before the end-of-generation check, and what
  a token that does not end the generation adds.\<close>

definition accept_token :: "int \<Rightarrow> slot \<Rightarrow> slot" where
  "accept_token tok s = s\<lparr>
     sl_sampler := map_option (\<lambda>smp. smp\<lparr>sm_accepted := sm_accepted smp @ [tok]\<rparr>) (sl_sampler s),
     sl_pending := (if sl_prefilled s then sl_pending s else []), sl_prefilled := True,
     sl_sampled := tok, sl_i_batch := -1\<rparr>"

definition append_token :: "int \<Rightarrow> string \<Rightarrow> slot \<Rightarrow> slot" where
  "append_token tok piece s = s\<lparr>
     sl_n_decoded := sl_n_decoded s + 1, sl_accumulated := sl_accumulated s @ piece,
     sl_gen_token_ids := sl_gen_token_ids s @ [tok],
     sl_cached_tokens := sl_cached_tokens s @ [tok]\<rparr>"

definition sample_slot ::
  "llama_env \<Rightarrow> int \<Rightarrow> int \<Rightarrow> slot \<Rightarrow> world \<Rightarrow> slot \<times> world" where
  "sample_slot e chunk_start n_tokens s w =
     (if \<not> is_busy s \<or> sl_i_batch s < chunk_start \<or> chunk_start + n_tokens \<le> sl_i_batch s then (s, w)
      else
        let tok = e_sample e (w_trace w) (the (sl_sampler s)) (sl_i_batch s - chunk_start);
            piece = e_piece e tok;
            s1 = accept_token tok s
        in if e_eog e tok then complete_slot e Ok [] ''stop'' s1 w
           else
             let s2 = append_token tok piece s1;
                 w2 = stream s2 tok piece w;
                 stop_str = matches_stop s2;
                 max_hit = (sl_max_new s2 \<le> sl_n_decoded s2);
                 stop_by_id = (tok \<in> set (sl_stop_token_ids s2))
             in if stop_str \<or> max_hit \<or> stop_by_id
                then complete_slot e Ok [] (if max_hit then ''length'' else ''stop'') s2 w2
                else (s2, w2))"

text \<open>The chunk loop. It may not return (an n_batch of 0), hence the option.\<close>

partial_function (option) decode_loop ::
  "llama_env \<Rightarrow> batch_entry list \<Rightarrow> int \<Rightarrow> int \<Rightarrow> slot list \<Rightarrow> world \<Rightarrow> (slot list \<times> world) option" where
  "decode_loop e batch chunk_start n_batch ss w =
     (if int (length batch) \<le> chunk_start then Some (ss, w)
      else
        let n_tokens = min n_batch (int (length batch) - chunk_start);
            view = take (nat n_tokens) (drop (nat chunk_start) batch);
            ret = e_decode e (w_trace w) view;
            w1 = w\<lparr>w_trace := w_trace w @ [Decode view ret]\<rparr>
        in if ret \<noteq> 0
           then if n_batch = 1 \<or> ret < 0
                then Some (for_slots (fail_slot e chunk_start) ss w1)
                else decode_loop e batch chunk_start (tdiv n_batch 2) ss w1
           else case for_slots (sample_slot e chunk_start n_tokens) ss w1 of
                  (ss', w') \<Rightarrow> decode_loop e batch (chunk_start + n_tokens) (e_n_batch e) ss' w')"

text \<open>One iteration of the worker's loop, and the drain after it.\<close>

definition run_step :: "llama_env \<Rightarrow> scheduler \<Rightarrow> scheduler exec option" where
  "run_step e st0 =
     (let st = try_admit_pending e st0
      in if \<not> list_ex is_busy (s_slots st) then Some (Inr st)
         else case build_batch e (s_slots st) (s_world st) of
                Inl u \<Rightarrow> Some (Inl u)
              | Inr (ss, batch, w) \<Rightarrow>
                  if batch = [] then Some (Inr (st\<lparr>s_slots := ss, s_world := w\<rparr>))
                  else case decode_loop e batch 0 (e_n_batch e) ss w of
                         None \<Rightarrow> None
                       | Some (ss', w') \<Rightarrow> Some (Inr (st\<lparr>s_slots := ss', s_world := w'\<rparr>)))"

definition drain_slot :: "llama_env \<Rightarrow> slot \<Rightarrow> world \<Rightarrow> slot \<times> world" where
  "drain_slot e s w =
     (if is_busy s
      then complete_slot e Unavailable ''Scheduler shutting down'' ''stop''
             (s\<lparr>sl_cached_session_id := []\<rparr>) w
      else if is_warm s
      then (s\<lparr>sl_warm := False, sl_cached_session_id := [], sl_cached_tokens := [], sl_seq_id := -1\<rparr>,
            seq_rm (sl_seq_id s) (-1) (-1) w)
      else (s, w))"

fun drain_queue :: "(generate_request \<times> nat) list \<Rightarrow> world \<Rightarrow> world" where
  "drain_queue [] w = w"
| "drain_queue ((req, p) # q) w =
     drain_queue q (answer p (error_result Unavailable ''Scheduler shutting down'') w)"

definition drain :: "llama_env \<Rightarrow> scheduler \<Rightarrow> scheduler" where
  "drain e st =
     (case for_slots (drain_slot e) (s_slots st) (s_world st) of
        (ss, w) \<Rightarrow> st\<lparr>s_slots := ss, s_queue := [], s_running := False,
                      s_world := drain_queue (s_queue st) w\<rparr>)"

text \<open>A run: submissions by handler threads and iterations of the worker, in some order.\<close>

datatype sched_op = Submit generate_request nat | Step

fun sched_run :: "llama_env \<Rightarrow> sched_op list \<Rightarrow> scheduler \<Rightarrow> scheduler exec option" where
  "sched_run e [] st = Some (Inr st)"
| "sched_run e (Submit req p # ops) st = sched_run e ops (submit e req p st)"
| "sched_run e (Step # ops) st =
     (case run_step e st of
        Some (Inr st') \<Rightarrow> sched_run e ops st'
      | r \<Rightarrow> r)"

fun submitted :: "sched_op list \<Rightarrow> nat list" where
  "submitted [] = []"
| "submitted (Submit req p # ops) = p # submitted ops"
| "submitted (Step # ops) = submitted ops"

end
