(* ===== verification/Scheduler_Answers.thy ===== *)
theory Scheduler_Answers
  imports Scheduler "HOL-Library.Multiset"
begin

text \<open>
  What the scheduler promises its callers: every promise is answered exactly once, with the right
  content, in every interleaving of submissions and worker iterations. The passes over the slots
  share one contract (\<open>slot_pass\<close>): a pass keeps the slots well formed and moves a promise from
  a slot to the answers or leaves it where it is.
\<close>

section \<open>The contract of a pass over the slots\<close>

definition ticket :: "slot \<Rightarrow> nat multiset" where
  "ticket s = (if is_busy s then {#sl_promise s#} else {#})"

definition tickets :: "slot list \<Rightarrow> nat multiset" where
  "tickets ss = sum_list (map ticket ss)"

lemma tickets_simps [simp]:
  "tickets [] = {#}" "tickets (s # ss) = ticket s + tickets ss"
  "tickets (ss @ ss') = tickets ss + tickets ss'"
  by (simp_all add: tickets_def)

lemma tickets_update:
  "i < length ss \<Longrightarrow> tickets (ss[i := s]) + ticket (ss ! i) = tickets ss + ticket s"
proof (induction ss arbitrary: i)
  case Nil
  then show ?case by simp
next
  case (Cons a ss)
  then show ?case by (cases i) (simp_all add: ac_simps)
qed

locale slot_pass =
  fixes f :: "slot \<Rightarrow> 'c \<Rightarrow> slot \<times> 'c"
    and ok :: "slot \<Rightarrow> bool"
    and inv :: "'c \<Rightarrow> bool"
    and given :: "'c \<Rightarrow> nat multiset"
  assumes pass: "ok s \<Longrightarrow> inv c \<Longrightarrow> f s c = (s', c') \<Longrightarrow>
    ok s' \<and> inv c' \<and> sl_id s' = sl_id s \<and> given c' + ticket s' = given c + ticket s"
begin

lemma pass_all:
  "\<forall>s \<in> set ss. ok s \<Longrightarrow> inv c \<Longrightarrow> for_slots f ss c = (ss', c') \<Longrightarrow>
   (\<forall>s \<in> set ss'. ok s) \<and> inv c' \<and> map sl_id ss' = map sl_id ss \<and>
   given c' + tickets ss' = given c + tickets ss"
proof (induction ss arbitrary: c ss' c')
  case Nil
  then show ?case by simp
next
  case (Cons s ss)
  obtain s1 c1 where f: "f s c = (s1, c1)" by fastforce
  obtain ss1 c2 where r: "for_slots f ss c1 = (ss1, c2)" by fastforce
  have e: "ss' = s1 # ss1" "c' = c2" using Cons.prems(3) f r by simp_all
  have p: "ok s1 \<and> inv c1 \<and> sl_id s1 = sl_id s \<and> given c1 + ticket s1 = given c + ticket s"
    using Cons.prems by (intro pass [OF _ _ f]) auto
  with Cons.IH [OF _ _ r] Cons.prems have
    "(\<forall>s \<in> set ss1. ok s) \<and> inv c2 \<and> map sl_id ss1 = map sl_id ss \<and>
     given c2 + tickets ss1 = given c1 + tickets ss" by auto
  with p e show ?case by (simp add: ac_simps)
qed

end

section \<open>Well-formed slots and answers\<close>

definition effective_max :: "llama_env \<Rightarrow> generate_request \<Rightarrow> int" where
  "effective_max e req = (if g_max_tokens req > 0 then g_max_tokens req else smp_max_tokens (e_smp e))"

definition serves :: "llama_env \<Rightarrow> generate_request \<Rightarrow> slot \<Rightarrow> bool" where
  "serves e req s \<longleftrightarrow>
     sl_max_new s = effective_max e req \<and> sl_n_prompt s = int (length (g_tokens req)) \<and>
     sl_n_decoded s = int (length (sl_gen_token_ids s)) \<and>
     sl_accumulated s = concat (map (e_piece e) (sl_gen_token_ids s)) \<and>
     sl_stop_token_ids s = g_stop_tokens req \<and> sl_stop_strings s = smp_stop (e_smp e) \<and>
     sl_cached_tokens s = g_tokens req @ sl_gen_token_ids s \<and>
     sl_cached_session_id s = g_session_id req \<and>
     (sl_gen_token_ids s = [] \<or> sl_n_decoded s < sl_max_new s) \<and>
     (\<forall>t \<in> set (sl_gen_token_ids s). \<not> e_eog e t \<and> t \<notin> set (g_stop_tokens req)) \<and>
     g_tokens req \<noteq> [] \<and> length (g_tokens req) < e_n_ctx e"

definition slot_ok :: "llama_env \<Rightarrow> (generate_request \<times> nat) set \<Rightarrow> slot \<Rightarrow> bool" where
  "slot_ok e S s \<longleftrightarrow>
     0 \<le> sl_id s \<and> (sl_seq_id s = -1 \<or> sl_seq_id s = sl_id s) \<and> (sl_warm s \<longrightarrow> sl_seq_id s \<noteq> -1) \<and>
     (is_busy s \<longrightarrow> sl_sampler s \<noteq> None \<and> (\<exists>req. (req, sl_promise s) \<in> S \<and> serves e req s))"

definition good_result :: "llama_env \<Rightarrow> generate_request \<Rightarrow> generate_result \<Rightarrow> bool" where
  "good_result e req r \<longleftrightarrow>
     r_prompt_tokens r = Some (int (length (g_tokens req))) \<and>
     r_generated_tokens r = Some (int (length (r_tokens r))) \<and>
     int (length (r_tokens r)) \<le> max 1 (effective_max e req) \<and>
     r_text r = concat (map (e_piece e) (r_tokens r)) \<and>
     (\<forall>t \<in> set (r_tokens r). \<not> e_eog e t) \<and>
     (\<forall>t \<in> set (butlast (r_tokens r)). t \<notin> set (g_stop_tokens req)) \<and>
     r_finish_reason r =
       (if r_tokens r \<noteq> [] \<and> effective_max e req \<le> int (length (r_tokens r)) then ''length'' else ''stop'')"

definition answers_ok :: "llama_env \<Rightarrow> (generate_request \<times> nat) set \<Rightarrow> world \<Rightarrow> bool" where
  "answers_ok e S w \<longleftrightarrow> (\<forall>(p, r) \<in> set (w_answers w).
     \<exists>req. (req, p) \<in> S \<and> (r_error r = Ok \<longrightarrow> good_result e req r))"

definition answered :: "world \<Rightarrow> nat multiset" where
  "answered w = mset (map fst (w_answers w))"

lemma world_simps [simp]:
  "answered (answer p r w) = add_mset p (answered w)"
  "answered (seq_rm sq p0 p1 w) = answered w"
  "answered (snd (now_raw e w)) = answered w"
  "answered (snd (now_us e w)) = answered w"
  "answered (snd (make_sampler e req w)) = answered w"
  "answered (stream s t pc w) = answered w"
  "answered (w\<lparr>w_trace := tr\<rparr>) = answered w"
  by (simp_all add: answered_def answer_def seq_rm_def now_raw_def now_us_def make_sampler_def
      stream_def Let_def)

lemma answers_ok_simps [simp]:
  "answers_ok e S (seq_rm sq p0 p1 w) = answers_ok e S w"
  "answers_ok e S (snd (now_raw e w)) = answers_ok e S w"
  "answers_ok e S (snd (now_us e w)) = answers_ok e S w"
  "answers_ok e S (snd (make_sampler e req w)) = answers_ok e S w"
  "answers_ok e S (stream s t pc w) = answers_ok e S w"
  "answers_ok e S (w\<lparr>w_trace := tr\<rparr>) = answers_ok e S w"
  by (simp_all add: answers_ok_def seq_rm_def now_raw_def now_us_def make_sampler_def
      stream_def Let_def)

lemma answers_ok_answer [simp]:
  "answers_ok e S (answer p r w) \<longleftrightarrow>
     answers_ok e S w \<and> (\<exists>req. (req, p) \<in> S \<and> (r_error r = Ok \<longrightarrow> good_result e req r))"
  by (auto simp: answers_ok_def answer_def)

lemma answers_ok_mono: "answers_ok e S w \<Longrightarrow> S \<subseteq> T \<Longrightarrow> answers_ok e T w"
  by (fastforce simp: answers_ok_def)

lemma slot_ok_mono: "slot_ok e S s \<Longrightarrow> S \<subseteq> T \<Longrightarrow> slot_ok e T s"
  by (auto simp: slot_ok_def)

section \<open>Completion and the passes\<close>

lemma complete_slot_effect:
  assumes "complete_slot e ec msg fr s w = (s', w')"
  shows "\<exists>tm. w_answers w' = w_answers w @ [(sl_promise s,
      \<lparr>r_tokens = sl_gen_token_ids s, r_text = sl_accumulated s,
       r_prompt_tokens = Some (sl_n_prompt s), r_generated_tokens = Some (sl_n_decoded s),
       r_time_ms = Some tm, r_error = ec, r_error_message = msg,
       r_finish_reason = (if ec = Ok then fr else ''error'')\<rparr>)]"
    and "\<not> is_busy s'" and "sl_id s' = sl_id s"
    and "sl_seq_id s' = -1 \<or> sl_seq_id s' = sl_seq_id s"
    and "sl_warm s' \<longleftrightarrow> ec = Ok \<and> sl_cached_session_id s \<noteq> []"
    and "sl_seq_id s' = (if sl_warm s' then sl_seq_id s else -1)"
  using assms
  by (auto simp: complete_slot_def now_us_def now_raw_def answer_def seq_rm_def is_busy_def Let_def
      split: if_splits)

lemma complete_slot_pass:
  assumes ok: "slot_ok e S s" and busy: "is_busy s" and inv: "answers_ok e S w"
    and run: "complete_slot e ec msg fr s w = (s', w')"
    and good: "ec = Ok \<Longrightarrow> \<exists>req. (req, sl_promise s) \<in> S \<and>
      (\<forall>tm. good_result e req \<lparr>r_tokens = sl_gen_token_ids s, r_text = sl_accumulated s,
         r_prompt_tokens = Some (sl_n_prompt s), r_generated_tokens = Some (sl_n_decoded s),
         r_time_ms = Some tm, r_error = ec, r_error_message = msg, r_finish_reason = fr\<rparr>)"
  shows "slot_ok e S s' \<and> answers_ok e S w' \<and> sl_id s' = sl_id s \<and>
    answered w' + ticket s' = answered w + ticket s"
proof -
  note c = complete_slot_effect [OF run]
  obtain tm where a: "w_answers w' = w_answers w @ [(sl_promise s,
      \<lparr>r_tokens = sl_gen_token_ids s, r_text = sl_accumulated s,
       r_prompt_tokens = Some (sl_n_prompt s), r_generated_tokens = Some (sl_n_decoded s),
       r_time_ms = Some tm, r_error = ec, r_error_message = msg,
       r_finish_reason = (if ec = Ok then fr else ''error'')\<rparr>)]" using c(1) by blast
  have "\<exists>req. (req, sl_promise s) \<in> S" using ok busy by (auto simp: slot_ok_def)
  then have "answers_ok e S w'" using inv good by (cases "ec = Ok") (auto simp: answers_ok_def a)
  moreover have "slot_ok e S s'"
    using ok busy c(2-6) by (auto simp: slot_ok_def is_busy_def split: if_splits)
  moreover have "answered w' = add_mset (sl_promise s) (answered w)" by (simp add: answered_def a)
  ultimately show ?thesis using c(2,3) busy by (simp add: ticket_def)
qed

interpretation fail: slot_pass "fail_slot e cs" "slot_ok e S" "answers_ok e S" answered
  for e cs S
proof unfold_locales
  fix s c s' c'
  assume "slot_ok e S s" "answers_ok e S c" "fail_slot e cs s c = (s', c')"
  then show "slot_ok e S s' \<and> answers_ok e S c' \<and> sl_id s' = sl_id s \<and>
      answered c' + ticket s' = answered c + ticket s"
    by (auto simp: fail_slot_def split: if_splits dest: complete_slot_pass)
qed

lemma good_result_intro:
  assumes s: "serves e req s" and toks: "toks = sl_gen_token_ids s"
  shows "good_result e req \<lparr>r_tokens = toks, r_text = sl_accumulated s,
      r_prompt_tokens = Some (sl_n_prompt s), r_generated_tokens = Some (sl_n_decoded s),
      r_time_ms = tm, r_error = Ok, r_error_message = msg, r_finish_reason = ''stop''\<rparr>"
  using s by (auto simp: good_result_def serves_def toks dest: in_set_butlastD)

lemma good_result_last:
  assumes s: "serves e req s" and n: "\<not> e_eog e t"
  shows "good_result e req \<lparr>r_tokens = sl_gen_token_ids s @ [t], r_text = sl_accumulated s @ e_piece e t,
      r_prompt_tokens = Some (sl_n_prompt s), r_generated_tokens = Some (sl_n_decoded s + 1),
      r_time_ms = tm, r_error = Ok, r_error_message = msg,
      r_finish_reason = (if sl_max_new s \<le> sl_n_decoded s + 1 then ''length'' else ''stop'')\<rparr>"
  using s n by (auto simp: good_result_def serves_def)

lemma sample_slot_pass:
  assumes ok: "slot_ok e S s" and inv: "answers_ok e S w" and run: "sample_slot e cs n s w = (s', w')"
  shows "slot_ok e S s' \<and> answers_ok e S w' \<and> sl_id s' = sl_id s \<and>
    answered w' + ticket s' = answered w + ticket s"
proof (cases "\<not> is_busy s \<or> sl_i_batch s < cs \<or> cs + n \<le> sl_i_batch s")
  case True
  then show ?thesis using run ok inv by (simp add: sample_slot_def)
next
  case False
  then have busy: "is_busy s" by simp
  then obtain req smp where req: "(req, sl_promise s) \<in> S" "serves e req s" "sl_sampler s = Some smp"
    using ok by (auto simp: slot_ok_def)
  define tok where "tok = e_sample e (w_trace w) (the (sl_sampler s)) (sl_i_batch s - cs)"
  define s1 where "s1 = accept_token tok s"
  define s2 where "s2 = append_token tok (e_piece e tok) s1"
  note s_defs = s1_def s2_def accept_token_def append_token_def
  have same: "is_busy s1" "is_busy s2" "sl_promise s1 = sl_promise s" "sl_promise s2 = sl_promise s"
    "sl_id s1 = sl_id s" "sl_id s2 = sl_id s" "ticket s1 = ticket s" "ticket s2 = ticket s"
    using busy by (simp_all add: s_defs is_busy_def ticket_def)
  have sv1: "serves e req s1" using req(2) unfolding serves_def s_defs by simp metis
  have ok1: "slot_ok e S s1" using ok sv1 req(1,3) same by (auto simp: slot_ok_def s_defs)
  have run': "(s', w') = (if e_eog e tok then complete_slot e Ok [] ''stop'' s1 w
      else if matches_stop s2 \<or> sl_max_new s2 \<le> sl_n_decoded s2 \<or> tok \<in> set (sl_stop_token_ids s2)
      then complete_slot e Ok [] (if sl_max_new s2 \<le> sl_n_decoded s2 then ''length'' else ''stop'') s2
             (stream s2 tok (e_piece e tok) w)
      else (s2, stream s2 tok (e_piece e tok) w))"
    using run unfolding sample_slot_def if_not_P [OF False] tok_def [symmetric] Let_def
    by (simp only: s1_def [symmetric] s2_def [symmetric])
  show ?thesis
  proof (cases "e_eog e tok")
    case True
    then have r: "complete_slot e Ok [] ''stop'' s1 w = (s', w')" using run' by simp
    show ?thesis
      using complete_slot_pass [OF ok1 same(1) inv r] good_result_intro [OF sv1 refl] req(1) same by auto
  next
    case False
    let ?w2 = "stream s2 tok (e_piece e tok) w"
    have inv2: "answers_ok e S ?w2" using inv by simp
    have good: "good_result e req \<lparr>r_tokens = sl_gen_token_ids s2, r_text = sl_accumulated s2,
       r_prompt_tokens = Some (sl_n_prompt s2), r_generated_tokens = Some (sl_n_decoded s2),
       r_time_ms = tm, r_error = Ok, r_error_message = [],
       r_finish_reason = (if sl_max_new s2 \<le> sl_n_decoded s2 then ''length'' else ''stop'')\<rparr>" for tm
      using good_result_last [OF sv1 False] by (simp add: s2_def append_token_def)
    have ok2: "slot_ok e S s2" if "\<not> sl_max_new s2 \<le> sl_n_decoded s2" "tok \<notin> set (sl_stop_token_ids s2)"
    proof -
      have "serves e req s2" using sv1 that False by (auto simp: serves_def s2_def append_token_def)
      then show ?thesis using ok1 req(1) same by (auto simp: slot_ok_def s2_def append_token_def is_busy_def)
    qed
    show ?thesis
    proof (cases "matches_stop s2 \<or> sl_max_new s2 \<le> sl_n_decoded s2 \<or> tok \<in> set (sl_stop_token_ids s2)")
      case True
      let ?s3 = "s2\<lparr>sl_gen_token_ids := sl_gen_token_ids s2\<rparr>"
      have r: "complete_slot e Ok [] (if sl_max_new s2 \<le> sl_n_decoded s2 then ''length'' else ''stop'') s2 ?w2
          = (s', w')" using run' True False by simp
      note c = complete_slot_effect [OF r]
      obtain tm where a: "w_answers w' = w_answers ?w2 @ [(sl_promise s,
         \<lparr>r_tokens = sl_gen_token_ids s2, r_text = sl_accumulated s2,
          r_prompt_tokens = Some (sl_n_prompt s2), r_generated_tokens = Some (sl_n_decoded s2),
          r_time_ms = Some tm, r_error = Ok, r_error_message = [],
          r_finish_reason = (if sl_max_new s2 \<le> sl_n_decoded s2 then ''length'' else ''stop'')\<rparr>)]"
        using c(1) same(4) by auto
      have "answers_ok e S w'"
        using inv2 good req(1) unfolding answers_ok_def a by auto
      moreover have "slot_ok e S s'"
        using ok1 same c(2-6) by (auto simp: slot_ok_def is_busy_def s2_def append_token_def split: if_splits)
      moreover have "answered w' = add_mset (sl_promise s) (answered ?w2)"
        by (simp add: answered_def a)
      ultimately show ?thesis using c(2,3) same busy by (simp add: ticket_def)
    next
      case stop: False
      then have "s' = s2" "w' = ?w2" using run' False by simp_all
      then show ?thesis using ok2 stop inv2 same by simp
    qed
  qed
qed

interpretation sample: slot_pass "sample_slot e cs n" "slot_ok e S" "answers_ok e S" answered
  for e cs n S
  by unfold_locales (rule sample_slot_pass)

interpretation drain: slot_pass "drain_slot e" "slot_ok e S" "answers_ok e S" answered
  for e S
proof unfold_locales
  fix s c s' c'
  assume a: "slot_ok e S s" "answers_ok e S c" "drain_slot e s c = (s', c')"
  show "slot_ok e S s' \<and> answers_ok e S c' \<and> sl_id s' = sl_id s \<and>
      answered c' + ticket s' = answered c + ticket s"
  proof (cases "is_busy s")
    case True
    let ?s = "s\<lparr>sl_cached_session_id := []\<rparr>"
    have r: "complete_slot e Unavailable ''Scheduler shutting down'' ''stop'' ?s c = (s', c')"
      using a(3) True by (simp add: drain_slot_def)
    note c = complete_slot_effect [OF r]
    have "\<exists>req. (req, sl_promise s) \<in> S" using a(1) True by (auto simp: slot_ok_def)
    moreover obtain r where "w_answers c' = w_answers c @ [(sl_promise s, r)]" "r_error r \<noteq> Ok"
      using c(1) by auto
    ultimately have "answers_ok e S c'" using a(2) by (simp add: answers_ok_def)
    moreover have "slot_ok e S s'" using a(1) c(2-6) by (auto simp: slot_ok_def is_busy_def)
    moreover have "answered c' = add_mset (sl_promise s) (answered c)"
      using c(1) by (auto simp: answered_def)
    ultimately show ?thesis using c(2,3) True by (simp add: ticket_def)
  next
    case False
    then show ?thesis using a
      by (auto simp: drain_slot_def slot_ok_def is_busy_def is_warm_def ticket_def split: if_splits)
  qed
qed

section \<open>Admission\<close>

lemma find_slot_Some:
  "find_slot p ss = Some i \<Longrightarrow> i < length ss \<and> p (ss ! i)"
proof -
  assume "find_slot p ss = Some i"
  then obtain js where "filter (\<lambda>i. p (ss ! i)) [0..<length ss] = i # js"
    by (auto simp: find_slot_def split: list.splits)
  then have "i \<in> set (filter (\<lambda>i. p (ss ! i)) [0..<length ss])" by simp
  then show ?thesis by simp
qed

lemma find_slot_None: "find_slot p ss = None \<longleftrightarrow> (\<forall>s \<in> set ss. \<not> p s)"
proof -
  have "find_slot p ss = None \<longleftrightarrow> filter (\<lambda>i. p (ss ! i)) [0..<length ss] = []"
    by (simp add: find_slot_def split: list.split)
  then show ?thesis by (auto simp: filter_empty_conv all_set_conv_all_nth)
qed

lemma lru_victim_Some:
  "lru_victim ss i oldest v = Some k \<Longrightarrow>
   v = Some k \<or> (i \<le> k \<and> k < i + length ss \<and> is_warm (ss ! (k - i)))"
proof (induction ss arbitrary: i oldest v)
  case Nil
  then show ?case by simp
next
  case (Cons s ss)
  consider "lru_victim ss (Suc i) (sl_cached_at_us s) (Some i) = Some k" "is_warm s"
    | "lru_victim ss (Suc i) oldest v = Some k" using Cons.prems by (auto split: if_splits)
  then show ?case
  proof cases
    case 1
    from Cons.IH [OF 1(1)] show ?thesis
    proof
      assume "Some i = Some k"
      with 1(2) show ?thesis by simp
    next
      assume a: "Suc i \<le> k \<and> k < Suc i + length ss \<and> is_warm (ss ! (k - Suc i))"
      then have "k - i = Suc (k - Suc i)" by linarith
      with a show ?thesis by simp
    qed
  next
    case 2
    from Cons.IH [OF 2] show ?thesis
    proof
      assume a: "Suc i \<le> k \<and> k < Suc i + length ss \<and> is_warm (ss ! (k - Suc i))"
      then have "k - i = Suc (k - Suc i)" by linarith
      with a show ?thesis by simp
    qed simp
  qed
qed

definition slots_ok :: "llama_env \<Rightarrow> (generate_request \<times> nat) set \<Rightarrow> slot list \<Rightarrow> bool" where
  "slots_ok e S ss \<longleftrightarrow> (\<forall>s \<in> set ss. slot_ok e S s)"

lemma slots_ok_update: "slots_ok e S ss \<Longrightarrow> slot_ok e S s \<Longrightarrow> slots_ok e S (ss[i := s])"
  using set_update_subset_insert [of ss i s] unfolding slots_ok_def by blast

lemma slots_ok_nth: "slots_ok e S ss \<Longrightarrow> i < length ss \<Longrightarrow> slot_ok e S (ss ! i)"
  by (simp add: slots_ok_def)

lemma map_id_update:
  "sl_id s = sl_id (ss ! i) \<Longrightarrow> map sl_id (ss[i := s]) = map sl_id ss"
  by (metis list_update_id map_update)

lemma find_session_Some:
  assumes "find_session req ss = Some (i, common)"
  shows "i < length ss \<and> is_warm (ss ! i) \<and> sl_cached_session_id (ss ! i) = g_session_id req \<and>
    g_session_id req \<noteq> [] \<and> 64 \<le> common \<and>
    common = common_prefix_len (sl_cached_tokens (ss ! i)) (g_tokens req)"
  using assms find_slot_Some [of "\<lambda>s. is_warm s \<and> sl_cached_session_id s = g_session_id req" ss]
  by (auto simp: find_session_def Let_def split: if_splits option.splits)

lemma select_slot_Some:
  assumes sel: "select_slot req ss w = Some (i, common, ss1, w1)" and ok: "slots_ok e S ss"
  shows "i < length ss \<and> length ss1 = length ss \<and> map sl_id ss1 = map sl_id ss \<and> slots_ok e S ss1 \<and>
    tickets ss1 = tickets ss \<and> \<not> is_busy (ss1 ! i) \<and> answered w1 = answered w \<and>
    answers_ok e S w1 = answers_ok e S w \<and> (0 < common \<longrightarrow> is_warm (ss1 ! i))"
proof (cases "find_session req ss")
  case (Some r)
  obtain i0 c0 where "r = (i0, c0)" by fastforce
  then have "find_session req ss = Some (i, common)" "ss1 = ss" "w1 = w"
    using sel Some by (simp_all add: select_slot_def)
  with find_session_Some [of req ss i common] ok show ?thesis
    by (auto simp: is_busy_def is_warm_def)
next
  case None
  show ?thesis
  proof (cases "find_slot is_free ss")
    case (Some j)
    then have "j = i" "ss1 = ss" "w1 = w" "common = 0" using sel None by (simp_all add: select_slot_def)
    with find_slot_Some [OF Some] ok show ?thesis by (simp add: is_busy_def is_free_def)
  next
    case no_free: None
    then obtain v where v: "lru_victim ss 0 9223372036854775807 None = Some v"
      using sel None by (auto simp: select_slot_def split: option.splits)
    let ?s = "(ss ! v)\<lparr>sl_seq_id := -1, sl_warm := False, sl_cached_session_id := [],
        sl_cached_tokens := [], sl_cached_at_us := 0\<rparr>"
    have e: "i = v" "common = 0" "ss1 = ss[v := ?s]" "w1 = seq_rm (sl_seq_id (ss ! v)) (-1) (-1) w"
      using sel None no_free v by (auto simp: select_slot_def)
    have l: "v < length ss" "is_warm (ss ! v)" using lru_victim_Some [OF v] by auto
    have nb: "\<not> is_busy ?s" "\<not> is_busy (ss ! v)" using l(2) by (simp_all add: is_busy_def is_warm_def)
    have "slot_ok e S ?s" using slots_ok_nth [OF ok l(1)] nb by (simp add: slot_ok_def)
    moreover have "tickets ss1 = tickets ss"
      using tickets_update [OF l(1), of ?s] nb e by (simp add: ticket_def)
    moreover have "map sl_id ss1 = map sl_id ss"
      using e(3) by (simp add: map_id_update)
    ultimately show ?thesis using e l nb ok by (simp add: slots_ok_update)
  qed
qed

lemma admit_slot_pass:
  assumes ok: "slot_ok e S s" and nb: "\<not> is_busy s" and warm: "0 < common \<longrightarrow> is_warm s"
    and req: "(req, p) \<in> S" "g_tokens req \<noteq> []" "length (g_tokens req) < e_n_ctx e"
    and run: "admit_slot e req p common s w = (s', w')"
  shows "slot_ok e S s' \<and> sl_id s' = sl_id s \<and> ticket s' = {#p#} \<and> answered w' = answered w \<and>
    answers_ok e S w' = answers_ok e S w"
proof -
  define w1 where "w1 = (if 0 < common then seq_rm (sl_seq_id s) (int common) (-1) w
    else if sl_warm s then seq_rm (sl_seq_id s) (-1) (-1) w else w)"
  obtain t w2 where t: "now_us e w1 = (t, w2)" by fastforce
  obtain smp w3 where m: "make_sampler e req w2 = (smp, w3)" by fastforce
  have w': "w' = w3"
    and s': "sl_id s' = sl_id s" "sl_seq_id s' = (if 0 < common then sl_seq_id s else sl_id s)"
      "\<not> sl_warm s'" "sl_promise s' = p" "sl_sampler s' = Some smp" "serves e req s'"
    using run req(2,3) t m
    by (cases "0 < common"; auto simp: admit_slot_def w1_def serves_def effective_max_def)+
  have busy: "is_busy s'" using s' ok warm by (auto simp: is_busy_def slot_ok_def is_warm_def)
  have "answered w' = answered w" "answers_ok e S w' = answers_ok e S w"
  proof -
    have "answered w1 = answered w" "answers_ok e S w1 = answers_ok e S w" by (simp_all add: w1_def)
    then show "answered w' = answered w" "answers_ok e S w' = answers_ok e S w"
      using world_simps(4) [of e w1] world_simps(5) [of e req w2]
        answers_ok_simps(3) [of e S w1] answers_ok_simps(4) [of e S req w2]
      unfolding t m w' by simp_all
  qed
  moreover have "slot_ok e S s'" using ok s' req(1) busy by (auto simp: slot_ok_def)
  ultimately show ?thesis using busy s' by (simp add: ticket_def)
qed

lemma admit_loop_inv:
  "slots_ok e S ss \<Longrightarrow> answers_ok e S w \<Longrightarrow> set q \<subseteq> S \<Longrightarrow> admit_loop e q ss w = (q', ss', w') \<Longrightarrow>
   slots_ok e S ss' \<and> answers_ok e S w' \<and> set q' \<subseteq> S \<and> map sl_id ss' = map sl_id ss \<and>
   length q' \<le> length q \<and>
   answered w' + mset (map snd q') + tickets ss' = answered w + mset (map snd q) + tickets ss"
proof (induction e q ss w rule: admit_loop.induct)
  case (1 e ss w)
  then show ?case by auto
next
  case (2 e req p q ss w)
  have p: "(req, p) \<in> S" "set q \<subseteq> S" using "2.prems"(3) by auto
  consider "g_tokens req = []" | "g_tokens req \<noteq> []" "e_n_ctx e \<le> length (g_tokens req)"
    | "g_tokens req \<noteq> []" "\<not> e_n_ctx e \<le> length (g_tokens req)" by blast
  then show ?case
  proof cases
    case 1
    have "answers_ok e S (answer p (error_result InvalidArgument ''Empty token list'') w)"
      using "2.prems"(2) p(1) by (auto simp: error_result_def)
    from "2.IH"(1) [OF 1 "2.prems"(1) this p(2)] "2.prems"(4) 1 show ?thesis by auto
  next
    case c: 2
    have "answers_ok e S (answer p (too_long_result e (length (g_tokens req))) w)"
      using "2.prems"(2) p(1) by (auto simp: too_long_result_def error_result_def)
    from "2.IH"(2) [OF c "2.prems"(1) this p(2)] "2.prems"(4) c show ?thesis by auto
  next
    case c: 3
    show ?thesis
    proof (cases "select_slot req ss w")
      case None
      then have "q' = (req, p) # q" "ss' = ss" "w' = w" using "2.prems"(4) c by simp_all
      then show ?thesis using "2.prems" by simp
    next
      case (Some r)
      obtain i common ss1 w1 where r: "r = (i, common, ss1, w1)" by (cases r) auto
      note sel = select_slot_Some [OF Some [unfolded r] "2.prems"(1)]
      obtain s w2 where a: "admit_slot e req p common (ss1 ! i) w1 = (s, w2)" by fastforce
      have ok1: "slot_ok e S (ss1 ! i)" using sel by (simp add: slots_ok_def)
      have ad: "slot_ok e S s \<and> sl_id s = sl_id (ss1 ! i) \<and> ticket s = {#p#} \<and>
          answered w2 = answered w1 \<and> answers_ok e S w2 = answers_ok e S w1"
        using c sel by (intro admit_slot_pass [OF ok1 _ _ p(1) _ _ a]) auto
      have l: "admit_loop e q (ss1[i := s]) w2 = (q', ss', w')"
        using "2.prems"(4) c Some r a by simp
      have "tickets (ss1[i := s]) = tickets ss1 + {#p#}"
        using tickets_update [of i ss1 s] sel ad by (simp add: ticket_def)
      moreover have "map sl_id (ss1[i := s]) = map sl_id ss1"
        using ad by (intro map_id_update) simp
      moreover have "slots_ok e S (ss1[i := s])" using sel ad slots_ok_update by blast
      moreover have "answers_ok e S w2" using "2.prems"(2) sel ad by simp
      ultimately show ?thesis
        using "2.IH"(3) [OF c Some, unfolded r, OF refl refl refl a [symmetric] refl _ _ p(2) l] sel ad by auto
    qed
  qed
qed

section \<open>Iterations of the worker\<close>

lemma build_slot_inv:
  assumes "slot_ok e S s" and "build_slot e s (b, w) = Inr (s', b', w')"
  shows "slot_ok e S s' \<and> sl_id s' = sl_id s \<and> ticket s' = ticket s \<and>
    answered w' = answered w \<and> answers_ok e S w' = answers_ok e S w"
  using assms
  by (auto simp: build_slot_def Let_def ebind_eq_Inr slot_ok_def serves_def ticket_def is_busy_def
      split: if_splits)

lemma build_slots_inv:
  "\<forall>s \<in> set ss. slot_ok e S s \<Longrightarrow> for_slots_exec (build_slot e) ss (b, w) = Inr (ss', b', w') \<Longrightarrow>
   (\<forall>s \<in> set ss'. slot_ok e S s) \<and> map sl_id ss' = map sl_id ss \<and> tickets ss' = tickets ss \<and>
   answered w' = answered w \<and> answers_ok e S w' = answers_ok e S w"
proof (induction ss arbitrary: b w ss')
  case Nil
  then show ?case by simp
next
  case (Cons s ss)
  then obtain s1 b1 w1 ss1 where f: "build_slot e s (b, w) = Inr (s1, b1, w1)"
    and r: "for_slots_exec (build_slot e) ss (b1, w1) = Inr (ss1, b', w')" and "ss' = s1 # ss1"
    by (auto simp: ebind_eq_Inr)
  moreover from Cons.prems(1) have "slot_ok e S s" by simp
  note build_slot_inv [OF this f]
  moreover from Cons.prems(1) have "\<forall>s \<in> set ss. slot_ok e S s" by simp
  note Cons.IH [OF this r]
  ultimately show ?case by simp
qed

lemma decode_loop_inv_pair:
  assumes "decode_loop e batch cs nb ss w = Some r" and "slots_ok e S ss" and "answers_ok e S w"
  shows "slots_ok e S (fst r) \<and> answers_ok e S (snd r) \<and> map sl_id (fst r) = map sl_id ss \<and>
    answered (snd r) + tickets (fst r) = answered w + tickets ss"
  using assms
proof (induction rule: decode_loop.raw_induct [rotated, consumes 1, case_names 1])
  case (1 rec e batch cs nb ss w r)
  let ?n = "min nb (int (length batch) - cs)"
  let ?view = "take (nat ?n) (drop (nat cs) batch)"
  let ?ret = "e_decode e (w_trace w) ?view"
  let ?w1 = "w\<lparr>w_trace := w_trace w @ [Decode ?view ?ret]\<rparr>"
  have w1: "answers_ok e S ?w1" "answered ?w1 = answered w" using "1"(4) by simp_all
  consider (finished) "r = (ss, w)"
    | (failed) "for_slots (fail_slot e cs) ss ?w1 = r"
    | (retry) "rec e batch cs (tdiv nb 2) ss ?w1 = Some r"
    | (step) ss1 w2 where "for_slots (sample_slot e cs ?n) ss ?w1 = (ss1, w2)"
        "rec e batch (cs + ?n) (e_n_batch e) ss1 w2 = Some r"
    using "1"(2) by (fastforce simp: Let_def split: if_splits prod.splits)
  then show ?case
  proof cases
    case finished
    then show ?thesis using "1"(3,4) by simp
  next
    case failed
    from fail.pass_all [OF _ w1(1), of ss cs "fst r" "snd r"] failed "1"(3) w1(2) show ?thesis by (simp add: slots_ok_def)
  next
    case retry
    from "1"(1) [OF retry "1"(3) w1(1)] w1(2) show ?thesis by simp
  next
    case step
    from sample.pass_all [OF _ w1(1) step(1)] "1"(3) w1(2)
    have s: "slots_ok e S ss1" "answers_ok e S w2" "map sl_id ss1 = map sl_id ss"
      "answered w2 + tickets ss1 = answered w + tickets ss" by (simp_all add: slots_ok_def)
    from "1"(1) [OF step(2) s(1,2)] s show ?thesis by simp
  qed
qed

lemmas decode_loop_inv = decode_loop_inv_pair [where r = "(ss', w')" for ss' w', simplified]

text \<open>The state invariant: well-formed slots, answers of submitted requests, a queue of submitted
  requests, and every submitted promise in exactly one place.\<close>

definition sched_ok :: "llama_env \<Rightarrow> sched_op list \<Rightarrow> scheduler \<Rightarrow> bool" where
  "sched_ok e ops st \<longleftrightarrow>
     slots_ok e {(req, p). Submit req p \<in> set ops} (s_slots st) \<and>
     answers_ok e {(req, p). Submit req p \<in> set ops} (s_world st) \<and>
     (\<forall>(req, p) \<in> set (s_queue st). Submit req p \<in> set ops) \<and>
     answered (s_world st) + mset (map snd (s_queue st)) + tickets (s_slots st) = mset (submitted ops)"

lemma submitted_append [simp]: "submitted (ops @ ops') = submitted ops @ submitted ops'"
  by (induction ops rule: submitted.induct) simp_all

lemma sched_ok_new: "sched_ok e [] (new_scheduler n)"
proof -
  have "tickets (map (new_slot \<circ> int) xs) = {#}" for xs
    by (induction xs) (simp_all add: ticket_def is_busy_def new_slot_def)
  then show ?thesis
    by (auto simp: sched_ok_def new_scheduler_def slots_ok_def slot_ok_def answers_ok_def answered_def
        new_slot_def is_busy_def)
qed

lemma sched_ok_submit:
  assumes "sched_ok e ops st"
  shows "sched_ok e (ops @ [Submit req p]) (submit e req p st)"
proof -
  let ?S = "{(req, p). Submit req p \<in> set ops}"
  let ?T = "{(r, q). Submit r q \<in> set (ops @ [Submit req p])}"
  have st: "?S \<subseteq> ?T" by auto
  have "slots_ok e ?T (s_slots st)" "answers_ok e ?T (s_world st)"
    using assms slot_ok_mono [OF _ st] answers_ok_mono [OF _ st]
    by (auto simp: sched_ok_def slots_ok_def)
  then show ?thesis using assms
    by (auto simp: sched_ok_def submit_def error_result_def)
qed

lemma sched_ok_step:
  assumes ok: "sched_ok e ops st" and run: "run_step e st = Some (Inr st')"
  shows "sched_ok e ops st'"
proof -
  let ?S = "{(req, p). Submit req p \<in> set ops}"
  obtain q ss w where a: "admit_loop e (s_queue st) (s_slots st) (s_world st) = (q, ss, w)"
    by (cases "admit_loop e (s_queue st) (s_slots st) (s_world st)")
  have ad: "slots_ok e ?S ss \<and> answers_ok e ?S w \<and> set q \<subseteq> ?S \<and>
      answered w + mset (map snd q) + tickets ss = mset (submitted ops)"
    using admit_loop_inv [OF _ _ _ a, of ?S] ok by (auto simp: sched_ok_def)
  define st1 where "st1 = st\<lparr>s_queue := q, s_slots := ss, s_world := w\<rparr>"
  have st1: "try_admit_pending e st = st1" by (simp add: try_admit_pending_def a st1_def)
  have frame: "sched_ok e ops (st1\<lparr>s_slots := ss2, s_world := w2\<rparr>)"
    if "slots_ok e ?S ss2" "answers_ok e ?S w2" "answered w2 + tickets ss2 = answered w + tickets ss"
    for ss2 w2
  proof -
    have "answered w2 + mset (map snd q) + tickets ss2 = (answered w2 + tickets ss2) + mset (map snd q)"
      by (simp add: ac_simps)
    also have "\<dots> = mset (submitted ops)" using that(3) ad by (simp add: ac_simps)
    finally show ?thesis using that ad by (auto simp: sched_ok_def st1_def)
  qed
  consider (idle) "st' = st1"
    | (noop) ss1 w1 where "build_batch e ss w = Inr (ss1, [], w1)"
        "st' = st1\<lparr>s_slots := ss1, s_world := w1\<rparr>"
    | (full) ss1 b w1 ss2 w2 where "build_batch e ss w = Inr (ss1, b, w1)"
        "decode_loop e b 0 (e_n_batch e) ss1 w1 = Some (ss2, w2)"
        "st' = st1\<lparr>s_slots := ss2, s_world := w2\<rparr>"
    using run unfolding run_step_def st1 Let_def
    by (auto simp: st1_def split: if_splits sum.splits prod.splits option.splits)
  then show ?thesis
  proof cases
    case idle
    then show ?thesis using frame [of ss w] ad by (simp add: st1_def)
  next
    case noop
    from build_slots_inv [OF _ noop(1) [unfolded build_batch_def], of ?S] ad
    show ?thesis unfolding noop(2) by (intro frame) (auto simp: slots_ok_def)
  next
    case full
    from build_slots_inv [OF _ full(1) [unfolded build_batch_def], of ?S] ad
    have b: "slots_ok e ?S ss1" "answers_ok e ?S w1" "answered w1 + tickets ss1 = answered w + tickets ss"
      by (auto simp: slots_ok_def)
    from decode_loop_inv [OF full(2) b(1,2)] b(3) show ?thesis
      unfolding full(3) by (intro frame) auto
  qed
qed

lemma sched_ok_run:
  "sched_ok e ops0 st \<Longrightarrow> sched_run e ops st = Some (Inr st') \<Longrightarrow> sched_ok e (ops0 @ ops) st'"
proof (induction e ops st arbitrary: ops0 rule: sched_run.induct)
  case (1 e st)
  then show ?case by simp
next
  case (2 e req p ops st)
  from "2.IH" [OF sched_ok_submit [OF "2.prems"(1)]] "2.prems"(2) show ?case by simp
next
  case (3 e ops st)
  then obtain st1 where r: "run_step e st = Some (Inr st1)" "sched_run e ops st1 = Some (Inr st')"
    by (auto split: option.splits sum.splits)
  have "sched_ok e (ops0 @ [Step]) st1"
    using sched_ok_step [OF "3.prems"(1) r(1)] by (simp add: sched_ok_def)
  from "3.IH" [OF r(1) refl this r(2)] show ?case by simp
qed

lemma drain_queue_answers:
  "answered (drain_queue q w) = answered w + mset (map snd q)"
  by (induction q w rule: drain_queue.induct) simp_all

lemma sched_ok_drain:
  assumes ok: "sched_ok e ops st"
  shows "answered (s_world (drain e st)) = mset (submitted ops)"
proof -
  obtain ss w where d: "for_slots (drain_slot e) (s_slots st) (s_world st) = (ss, w)" by fastforce
  have nb: "for_slots (drain_slot e) ss0 w0 = (ss1, w1) \<Longrightarrow> tickets ss1 = {#}" for ss0 w0 ss1 w1
  proof (induction ss0 arbitrary: w0 ss1)
    case Nil
    then show ?case by simp
  next
    case (Cons s ss0)
    obtain s' w' where s: "drain_slot e s w0 = (s', w')" by fastforce
    obtain ss' where r: "for_slots (drain_slot e) ss0 w' = (ss', w1)" "ss1 = s' # ss'"
      using Cons.prems s by (cases "for_slots (drain_slot e) ss0 w'") auto
    have "\<not> is_busy s'"
    proof (cases "is_busy s")
      case True
      then show ?thesis using s complete_slot_effect(2) by (auto simp: drain_slot_def)
    next
      case False
      then show ?thesis using s by (auto simp: drain_slot_def is_busy_def split: if_splits)
    qed
    then show ?case using Cons.IH [OF r(1)] r(2) by (simp add: ticket_def)
  qed
  from drain.pass_all [OF _ _ d, of "{(req, p). Submit req p \<in> set ops}"] ok
  have "answered w + tickets ss = answered (s_world st) + tickets (s_slots st)"
    by (auto simp: sched_ok_def slots_ok_def)
  then show ?thesis using ok nb [OF d]
    by (simp add: drain_def d drain_queue_answers sched_ok_def ac_simps)
qed

section \<open>The promises of the scheduler\<close>

lemma drain_answers_ok:
  assumes ok: "sched_ok e ops st"
  shows "answers_ok e {(req, p). Submit req p \<in> set ops} (s_world (drain e st))"
proof -
  let ?S = "{(req, p). Submit req p \<in> set ops}"
  obtain ss w where d: "for_slots (drain_slot e) (s_slots st) (s_world st) = (ss, w)" by fastforce
  have "answers_ok e ?S w"
    using drain.pass_all [OF _ _ d, of ?S] ok by (auto simp: sched_ok_def slots_ok_def)
  moreover have "\<forall>(req, p) \<in> set q. Submit req p \<in> set ops \<Longrightarrow> answers_ok e ?S w \<Longrightarrow>
      answers_ok e ?S (drain_queue q w)" for q w
    by (induction q w rule: drain_queue.induct) (auto simp: error_result_def)
  ultimately show ?thesis using ok by (auto simp: drain_def d sched_ok_def)
qed

lemma decode_loop_end: "int (length batch) \<le> cs \<Longrightarrow> decode_loop e batch cs nb ss w = Some (ss, w)"
  by (subst decode_loop.simps) simp

lemma decode_loop_ok:
  assumes "cs < int (length batch)" and "n = min nb (int (length batch) - cs)"
    and "view = take (nat n) (drop (nat cs) batch)" and "e_decode e (w_trace w) view = 0"
    and "for_slots (sample_slot e cs n) ss (w\<lparr>w_trace := w_trace w @ [Decode view 0]\<rparr>) = (ss', w')"
  shows "decode_loop e batch cs nb ss w = decode_loop e batch (cs + n) (e_n_batch e) ss' w'"
  using assms by (subst decode_loop.simps) (simp add: Let_def)

text \<open>A small environment: llama.cpp accepts every batch and always samples token 5.\<close>

definition demo_env :: llama_env where
  "demo_env = \<lparr>e_n_ctx = 8, e_n_batch = 4, e_decode = (\<lambda>_ _. 0), e_sample = (\<lambda>_ _ _. 5),
     e_eog = (\<lambda>t. t = 2), e_piece = (\<lambda>_. ''x''), e_clock = (\<lambda>n. int n), e_fl = (\<lambda>x. x),
     e_smp = \<lparr>smp_temperature = 1, smp_top_p = 1, smp_top_k = 40, smp_min_p = 0,
       smp_repeat_penalty = 1, smp_frequency_penalty = 0, smp_presence_penalty = 0,
       smp_max_tokens = 16, smp_seed = 7, smp_stop = []\<rparr>, e_max_queue = 4\<rparr>"

definition demo_request :: "int list \<Rightarrow> int \<Rightarrow> string \<Rightarrow> generate_request" where
  "demo_request toks n sess = \<lparr>g_tokens = toks, g_max_tokens = n, g_temperature = 1, g_top_p = 1,
     g_top_k = 1, g_repeat_penalty = 1, g_on_token = False, g_stop_tokens = [], g_stop = [],
     g_grammar = [], g_grammar_lazy = False, g_request_id = [], g_session_id = sess\<rparr>"

lemmas sched_eval = submit_def try_admit_pending_def select_slot_def find_session_def find_slot_def
  is_free_def is_busy_def is_warm_def admit_slot_def now_us_def now_raw_def make_sampler_def
  seq_rm_def answer_def error_result_def too_long_result_def new_scheduler_def new_slot_def
  build_batch_def build_slot_def batch_add_def sample_slot_def accept_token_def append_token_def
  stream_def complete_slot_def matches_stop_def demo_env_def demo_request_def tdiv_def cast_u32_def
  Let_def

lemma demo_run:
  "\<exists>st r. sched_run demo_env [Submit (demo_request [3, 4] 1 []) 7, Step] (new_scheduler 1) = Some (Inr st) \<and>
     w_answers (s_world st) = [(7, r)] \<and> r_error r = Ok"
proof -
  let ?ops = "Submit (demo_request [3, 4] 1 []) 7"
  let ?st = "try_admit_pending demo_env (submit demo_env (demo_request [3, 4] 1 []) 7 (new_scheduler 1))"
  obtain ss b w where bb: "build_batch demo_env (s_slots ?st) (s_world ?st) = Inr (ss, b, w)"
    and b: "length b = 2" and "list_ex is_busy (s_slots ?st)"
    and s: "\<exists>ss' w' r. for_slots (sample_slot demo_env 0 2) ss (w\<lparr>w_trace := w_trace w @ [Decode b 0]\<rparr>)
      = (ss', w') \<and> w_answers w' = [(7, r)] \<and> r_error r = Ok"
    by (simp add: sched_eval)
  then obtain ss' w' r where s: "for_slots (sample_slot demo_env 0 2) ss
      (w\<lparr>w_trace := w_trace w @ [Decode b 0]\<rparr>) = (ss', w')" "w_answers w' = [(7, r)]" "r_error r = Ok"
    by blast
  have "decode_loop demo_env b 0 4 ss w = decode_loop demo_env b (0 + 2) (e_n_batch demo_env) ss' w'"
    using b s(1) by (intro decode_loop_ok [where view = b]) (simp_all add: demo_env_def)
  then have d: "decode_loop demo_env b 0 4 ss w = Some (ss', w')" using b by (simp add: decode_loop_end)
  have nb: "e_n_batch demo_env = 4" "b \<noteq> []" using b by (auto simp: demo_env_def)
  have "run_step demo_env (submit demo_env (demo_request [3, 4] 1 []) 7 (new_scheduler 1)) =
      Some (Inr (?st\<lparr>s_slots := ss', s_world := w'\<rparr>))"
    using \<open>list_ex is_busy (s_slots ?st)\<close> bb d nb by (simp add: run_step_def Let_def)
  then show ?thesis using s(2,3) by auto
qed

lemma sched_run_ok:
  assumes "sched_run e ops (new_scheduler n) = Some (Inr st)"
  shows "sched_ok e ops st"
  using sched_ok_run [OF sched_ok_new assms] by simp

text \<open>C1: every submitted promise is answered exactly once. Whatever the interleaving of
  submissions and worker iterations and whatever llama.cpp answers, no promise is ever answered
  twice while the scheduler runs, and after the shutdown drain the answered promises are exactly
  the submitted ones, each once: no caller blocks forever and no promise is set twice.\<close>

theorem answered_exactly_once:
  assumes "sched_run e ops (new_scheduler n) = Some (Inr st)"
  shows "mset (map fst (w_answers (s_world st))) \<subseteq># mset (submitted ops) \<and>
    mset (map fst (w_answers (s_world (drain e st)))) = mset (submitted ops)"
proof -
  note ok = sched_run_ok [OF assms]
  then have "answered (s_world st) + (mset (map snd (s_queue st)) + tickets (s_slots st)) =
      mset (submitted ops)" by (simp add: sched_ok_def add.assoc)
  then have "answered (s_world st) \<subseteq># mset (submitted ops)" by (metis mset_subset_eq_add_left)
  with sched_ok_drain [OF ok] show ?thesis by (simp add: answered_def)
qed

theorem answered_exactly_once_witness:
  "\<exists>st. sched_run demo_env [Submit (demo_request [3, 4] 1 []) 7, Step] (new_scheduler 1) = Some (Inr st) \<and>
     mset (map fst (w_answers (s_world (drain demo_env st)))) = {#7#}"
proof -
  obtain st where "sched_run demo_env [Submit (demo_request [3, 4] 1 []) 7, Step] (new_scheduler 1)
      = Some (Inr st)" using demo_run by blast
  with answered_exactly_once [OF this] show ?thesis by simp
qed

text \<open>C9: what a successful answer contains. The tokens of an Ok answer number at most the
  request's effective \<open>max_tokens\<close> (at least 1), include no end-of-generation token and no stop
  token before the last one; the text is their concatenated pieces, the counts are right, and the
  finish reason is "length" exactly when the limit was reached.\<close>

theorem answer_contents:
  assumes "sched_run e ops (new_scheduler n) = Some (Inr st)"
    and "(p, r) \<in> set (w_answers (s_world (drain e st)))" and "r_error r = Ok"
  shows "\<exists>req. Submit req p \<in> set ops \<and>
     r_prompt_tokens r = Some (int (length (g_tokens req))) \<and>
     r_generated_tokens r = Some (int (length (r_tokens r))) \<and>
     int (length (r_tokens r)) \<le> max 1 (effective_max e req) \<and>
     r_text r = concat (map (e_piece e) (r_tokens r)) \<and>
     (\<forall>t \<in> set (r_tokens r). \<not> e_eog e t) \<and>
     (\<forall>t \<in> set (butlast (r_tokens r)). t \<notin> set (g_stop_tokens req)) \<and>
     r_finish_reason r = (if r_tokens r \<noteq> [] \<and> effective_max e req \<le> int (length (r_tokens r))
                          then ''length'' else ''stop'')"
  using drain_answers_ok [OF sched_run_ok [OF assms(1)]] assms(2,3)
  unfolding answers_ok_def good_result_def by fast

theorem answer_contents_witness:
  "\<exists>st r. sched_run demo_env [Submit (demo_request [3, 4] 1 []) 7, Step] (new_scheduler 1) = Some (Inr st) \<and>
     (7, r) \<in> set (w_answers (s_world (drain demo_env st))) \<and> length (r_tokens r) \<le> 1"
proof -
  obtain st r where st: "sched_run demo_env [Submit (demo_request [3, 4] 1 []) 7, Step] (new_scheduler 1)
      = Some (Inr st)" "w_answers (s_world st) = [(7, r)]" "r_error r = Ok" using demo_run by blast
  have q: "w_answers (drain_queue q w) = w_answers w @ map (\<lambda>(req, p). (p, error_result Unavailable
      ''Scheduler shutting down'')) q" for q w
    by (induction q w rule: drain_queue.induct) (simp_all add: answer_def)
  have d: "for_slots (drain_slot demo_env) ss w = (ss', w') \<Longrightarrow> set (w_answers w) \<subseteq> set (w_answers w')"
    for ss w ss' w'
  proof (induction ss arbitrary: w ss')
    case Nil
    then show ?case by simp
  next
    case (Cons s ss)
    obtain s1 w1 where s: "drain_slot demo_env s w = (s1, w1)" by fastforce
    have "set (w_answers w) \<subseteq> set (w_answers w1)"
      using s complete_slot_effect(1) by (fastforce simp: drain_slot_def seq_rm_def split: if_splits)
    moreover obtain ss1 where "for_slots (drain_slot demo_env) ss w1 = (ss1, w')"
      using Cons.prems s by (cases "for_slots (drain_slot demo_env) ss w1") auto
    ultimately show ?case using Cons.IH by blast
  qed
  have m: "(7, r) \<in> set (w_answers (s_world (drain demo_env st)))"
    using st(2) d q by (auto simp: drain_def split: prod.split) fastforce
  from answer_contents [OF st(1) this st(3)] have "length (r_tokens r) \<le> 1"
    by (auto simp: effective_max_def demo_request_def)
  with st(1) m show ?thesis by blast
qed

lemma admit_loop_queue: "admit_loop e q ss w = (q', ss', w') \<Longrightarrow> length q' \<le> length q"
proof (induction e q ss w rule: admit_loop.induct)
  case (1 e ss w)
  then show ?case by simp
next
  case (2 e req p q ss w)
  then show ?case by (auto simp: Let_def split: if_splits option.splits prod.splits) fastforce+
qed

lemma run_step_queue:
  assumes "run_step e st1 = Some (Inr st2)"
  shows "length (s_queue st2) \<le> length (s_queue st1)"
proof -
  have "length (s_queue (try_admit_pending e st1)) \<le> length (s_queue st1)"
    using admit_loop_queue by (fastforce simp: try_admit_pending_def split: prod.split)
  moreover have "s_queue st2 = s_queue (try_admit_pending e st1)" using assms
    by (auto simp: run_step_def Let_def split: if_splits sum.splits prod.splits option.splits)
  ultimately show ?thesis by simp
qed

lemma sched_run_queue:
  "int (length (s_queue st1)) \<le> e_max_queue e \<Longrightarrow> sched_run e ops st1 = Some (Inr st) \<Longrightarrow>
   int (length (s_queue st)) \<le> e_max_queue e"
proof (induction e ops st1 rule: sched_run.induct)
  case (1 e st)
  then show ?case by simp
next
  case (2 e req p ops st)
  then show ?case by (simp add: submit_def split: if_splits)
next
  case (3 e ops st1)
  then obtain st2 where r: "run_step e st1 = Some (Inr st2)" "sched_run e ops st2 = Some (Inr st)"
    by (auto split: option.splits sum.splits)
  from "3.IH" [OF r(1) refl _ r(2)] run_step_queue [OF r(1)] "3.prems"(1) show ?case by simp
qed

text \<open>The queue is bounded. It never holds more than \<open>max_queue\<close> requests; a
  submission to a full queue is answered at once with Unavailable and changes nothing else.\<close>

theorem queue_bounded:
  assumes "0 \<le> e_max_queue e" and "sched_run e ops (new_scheduler n) = Some (Inr st)"
  shows "int (length (s_queue st)) \<le> e_max_queue e \<and>
    (int (length (s_queue st)) = e_max_queue e \<longrightarrow>
       s_queue (submit e req p st) = s_queue st \<and> s_slots (submit e req p st) = s_slots st \<and>
       w_answers (s_world (submit e req p st)) =
         w_answers (s_world st) @ [(p, error_result Unavailable ''Request queue is full'')])"
  using assms sched_run_queue [of "new_scheduler n" e ops st]
  by (auto simp: submit_def answer_def new_scheduler_def)

theorem queue_bounded_witness:
  "\<exists>st. sched_run demo_env (replicate 4 (Submit (demo_request [1] 1 []) 7)) (new_scheduler 1) =
     Some (Inr st) \<and> s_queue (submit demo_env (demo_request [2] 1 []) 8 st) = s_queue st"
proof -
  have "\<exists>st. sched_run demo_env (replicate 4 (Submit (demo_request [1] 1 []) 7)) (new_scheduler 1) =
     Some (Inr st) \<and> length (s_queue st) = 4"
    by (simp add: numeral_eq_Suc submit_def demo_env_def new_scheduler_def)
  then obtain st where st: "sched_run demo_env (replicate 4 (Submit (demo_request [1] 1 []) 7))
     (new_scheduler 1) = Some (Inr st)" "length (s_queue st) = 4" by blast
  have "0 \<le> e_max_queue demo_env" "int (length (s_queue st)) = e_max_queue demo_env"
    using st(2) by (simp_all add: demo_env_def)
  with queue_bounded [OF this(1) st(1)] st(1) show ?thesis by blast
qed

text \<open>Stop strings. \<open>matches_stop\<close> holds exactly when the accumulated text ends with
  one of the slot's nonempty stop strings.\<close>

theorem matches_stop_suffix:
  "matches_stop s \<longleftrightarrow> (\<exists>t \<in> set (sl_stop_strings s). t \<noteq> [] \<and> suffix t (sl_accumulated s))"
proof -
  have "(length t \<le> length a \<and> drop (length a - length t) a = t) \<longleftrightarrow> suffix t a" for t a :: string
  proof
    assume "length t \<le> length a \<and> drop (length a - length t) a = t"
    then show "suffix t a" by (metis suffix_drop)
  next
    assume "suffix t a"
    then show "length t \<le> length a \<and> drop (length a - length t) a = t" by (auto simp: suffix_def)
  qed
  then show ?thesis unfolding matches_stop_def list_ex_iff by blast
qed

end
