(* ===== verification/Scheduler_Kv.thy ===== *)
theory Scheduler_Kv
  imports Scheduler_Answers
begin

text \<open>
  The scheduler's use of the model's KV memory: the chunk loop returns, the batch buffer can
  overflow, and the positions handed to \<open>llama_decode\<close>. \<open>live\<close> reads a trace of calls as
  the set of positions the scheduler has decoded and not removed, per sequence; it says what the
  emitted calls amount to, not how llama.cpp works.
\<close>

section \<open>The chunk loop returns\<close>

lemma decode_loop_returns:
  assumes "1 \<le> e_n_batch e"
  shows "1 \<le> nb \<Longrightarrow> \<exists>r. decode_loop e batch cs nb ss w = Some r"
proof (induction "(nat (int (length batch) - cs), nat nb)" arbitrary: cs nb ss w
    rule: wf_induct_rule [OF wf_lex_prod [OF wf_less wf_less]])
  case 1
  show ?case
  proof (cases "int (length batch) \<le> cs")
    case True
    then show ?thesis by (simp add: decode_loop_end)
  next
    case False
    let ?n = "min nb (int (length batch) - cs)"
    let ?view = "take (nat ?n) (drop (nat cs) batch)"
    let ?ret = "e_decode e (w_trace w) ?view"
    let ?w1 = "w\<lparr>w_trace := w_trace w @ [Decode ?view ?ret]\<rparr>"
    have retry: "\<exists>r. decode_loop e batch cs (tdiv nb 2) ss ?w1 = Some r" if "nb \<noteq> 1"
      using that 1(2) by (intro 1(1)) auto
    obtain ss1 w2 where s: "for_slots (sample_slot e cs ?n) ss ?w1 = (ss1, w2)" by fastforce
    have step: "\<exists>r. decode_loop e batch (cs + ?n) (e_n_batch e) ss1 w2 = Some r"
      using False 1(2) assms by (intro 1(1)) auto
    show ?thesis
      by (subst decode_loop.simps) (use False retry s step in \<open>auto simp: Let_def\<close>)
  qed
qed

lemma run_step_returns:
  assumes "1 \<le> e_n_batch e"
  shows "\<exists>r. run_step e st = Some r"
proof -
  let ?st = "try_admit_pending e st"
  show ?thesis
  proof (cases "build_batch e (s_slots ?st) (s_world ?st)")
    case (Inl u)
    then show ?thesis by (simp add: run_step_def Let_def)
  next
    case (Inr x)
    obtain ss b w where x: "x = (ss, b, w)" by (cases x) auto
    obtain r where "decode_loop e b 0 (e_n_batch e) ss w = Some r"
      using decode_loop_returns [OF assms assms] by blast
    then show ?thesis using Inr x by (cases r) (simp add: run_step_def Let_def)
  qed
qed

text \<open>C10: the worker never hangs in a decode step. When llama.cpp's n_batch is at least 1,
  every iteration returns, whatever \<open>llama_decode\<close> answers: the retry with half the batch size ends
  because a batch of one token is not retried. Hence every run of submissions and iterations
  returns a state or an out-of-range write to the batch buffer.\<close>

theorem scheduler_returns:
  assumes "1 \<le> e_n_batch e"
  shows "\<exists>r. sched_run e ops st = Some r"
proof (induction ops arbitrary: st)
  case Nil
  then show ?case by simp
next
  case (Cons a ops)
  show ?case
  proof (cases a)
    case (Submit req p)
    then show ?thesis using Cons by simp
  next
    case Step
    obtain r where "run_step e st = Some r" using run_step_returns [OF assms] by blast
    then show ?thesis using Step Cons by (cases r) auto
  qed
qed

theorem scheduler_returns_witness:
  "\<exists>r. sched_run (demo_env\<lparr>e_decode := (\<lambda>_ _. 1)\<rparr>)
     [Submit (demo_request [3, 4] 1 []) 7, Step] (new_scheduler 1) = Some r"
  by (rule scheduler_returns) (simp add: demo_env_def)

section \<open>The batch buffer\<close>

fun prompt_entries :: "int list \<Rightarrow> int \<Rightarrow> int \<Rightarrow> batch_entry list" where
  "prompt_entries [] pos sq = []"
| "prompt_entries (x # xs) pos sq =
     \<lparr>b_token = x, b_pos = pos, b_seq = sq, b_logits = (xs = [])\<rparr> # prompt_entries xs (pos + 1) sq"

lemma add_prompt_eq:
  "add_prompt e xs pos sq b =
     (if xs = [] \<or> length b + length xs \<le> e_n_ctx e then Inr (b @ prompt_entries xs pos sq)
      else Inl OutOfRange)"
proof (induction xs arbitrary: b pos)
  case Nil
  then show ?case by simp
next
  case (Cons x xs)
  show ?case
  proof (cases "length b < e_n_ctx e")
    case True
    then show ?thesis by (simp add: batch_add_def Cons)
  next
    case False
    then show ?thesis by (simp add: batch_add_def)
  qed
qed

lemma prompt_entries_props:
  "length (prompt_entries xs pos sq) = length xs"
  "\<forall>en \<in> set (prompt_entries xs pos sq). b_seq en = sq"
  by (induction xs arbitrary: pos) auto

lemma find_slot_Cons:
  "find_slot p (s # ss) = (if p s then Some 0 else map_option Suc (find_slot p ss))"
proof -
  have "filter (\<lambda>i. p ((s # ss) ! i)) [0..<length (s # ss)] =
      (if p s then [0] else []) @ map Suc (filter (\<lambda>i. p (ss ! i)) [0..<length ss])"
    by (simp add: upt_conv_Cons map_Suc_upt [symmetric] filter_map o_def del: upt_Suc)
  then show ?thesis
    by (simp add: find_slot_def split: list.split)
qed

text \<open>C30: the batch buffer can overflow. It holds n_ctx entries, and each admitted prompt is
  only checked to be shorter than n_ctx on its own: two requests whose prompts together exceed n_ctx,
  submitted to an idle scheduler with at least two slots, make the next iteration write past the end
  of the \<open>llama_batch\<close> arrays.\<close>

theorem batch_overflow:
  assumes slots: "2 \<le> n" and queue: "2 \<le> e_max_queue e"
    and l1: "g_tokens r1 \<noteq> []" "length (g_tokens r1) < e_n_ctx e"
    and l2: "g_tokens r2 \<noteq> []" "length (g_tokens r2) < e_n_ctx e"
    and sum: "e_n_ctx e < length (g_tokens r1) + length (g_tokens r2)"
  shows "sched_run e [Submit r1 p1, Submit r2 p2, Step] (new_scheduler n) = Some (Inl OutOfRange)"
proof -
  obtain m where n: "n = Suc (Suc m)" using slots by (metis add_2_eq_Suc le_Suc_ex)
  define rest where "rest = map (new_slot \<circ> int) [2..<n]"
  have ss: "s_slots (new_scheduler n) = new_slot 0 # new_slot 1 # rest"
    by (simp add: new_scheduler_def n rest_def upt_conv_Cons eval_nat_numeral del: upt_Suc)
  let ?w0 = "s_world (new_scheduler n)"
  have cold: "sl_cached_session_id (new_slot i) = [] \<and> \<not> is_warm (new_slot i) \<and> is_free (new_slot i)" for i
    by (simp add: new_slot_def is_warm_def is_free_def)
  have rw: "find_slot (\<lambda>s. is_warm s \<and> q s) rest = None" for q
    unfolding find_slot_None rest_def using cold by auto
  obtain s1 w1 where a1: "admit_slot e r1 p1 0 (new_slot 0) ?w0 = (s1, w1)" by fastforce
  obtain s2 w2 where a2: "admit_slot e r2 p2 0 (new_slot 1) w1 = (s2, w2)" by fastforce
  have f1: "sl_seq_id s1 = 0" "\<not> sl_warm s1" "\<not> sl_prefilled s1" "sl_pending s1 = g_tokens r1"
    using a1 by (auto simp: admit_slot_def new_slot_def Let_def split: prod.splits)
  have f2: "sl_seq_id s2 = 1" "\<not> sl_warm s2" "\<not> sl_prefilled s2" "sl_pending s2 = g_tokens r2"
    using a2 by (auto simp: admit_slot_def new_slot_def Let_def split: prod.splits)
  have b1: "\<not> is_free s1" "\<not> is_warm s1" "is_busy s1" "is_busy s2"
    using f1 f2 by (simp_all add: is_free_def is_warm_def is_busy_def)
  have sel1: "select_slot r1 (new_slot 0 # new_slot 1 # rest) ?w0 =
      Some (0, 0, new_slot 0 # new_slot 1 # rest, ?w0)"
    by (simp add: select_slot_def find_session_def find_slot_Cons cold rw)
  have sel2: "select_slot r2 (s1 # new_slot 1 # rest) w1 = Some (1, 0, s1 # new_slot 1 # rest, w1)"
    by (simp add: select_slot_def find_session_def find_slot_Cons cold rw b1)
  have ad: "admit_loop e [(r1, p1), (r2, p2)] (new_slot 0 # new_slot 1 # rest) ?w0 =
      ([], s1 # s2 # rest, w2)"
    using l1 l2 by (simp add: sel1 sel2 a1 a2)
  have "build_batch e (s1 # s2 # rest) w2 = Inl OutOfRange"
    using l1 l2 sum f1 f2 b1
    by (simp add: build_batch_def build_slot_def add_prompt_eq prompt_entries_props)
  then show ?thesis
    using queue ad b1 ss
    by (simp add: submit_def new_scheduler_def run_step_def try_admit_pending_def Let_def)
qed

theorem batch_overflow_witness:
  "sched_run demo_env [Submit (demo_request [1, 2, 3, 4, 5] 1 []) 1,
     Submit (demo_request [1, 2, 3, 4, 5] 1 []) 2, Step] (new_scheduler 2) = Some (Inl OutOfRange)"
  by (rule batch_overflow) (simp_all add: demo_env_def demo_request_def)

section \<open>Positions\<close>

definition posns :: "batch_entry list \<Rightarrow> int \<Rightarrow> int list" where
  "posns b sq = map b_pos (filter (\<lambda>en. b_seq en = sq) b)"

lemma posns_simps [simp]:
  "posns [] sq = []" "posns (a @ b) sq = posns a sq @ posns b sq"
  "posns (en # b) sq = (if b_seq en = sq then b_pos en # posns b sq else posns b sq)"
  by (simp_all add: posns_def)

fun apply_call :: "llama_call \<Rightarrow> (int \<Rightarrow> int set) \<Rightarrow> int \<Rightarrow> int set" where
  "apply_call (SeqRm sq p0 p1) m =
     m(sq := m sq - {x. (p0 < 0 \<or> p0 \<le> x) \<and> (p1 < 0 \<or> x < p1)})"
| "apply_call (Decode b ret) m = (if ret = 0 then (\<lambda>sq. m sq \<union> set (posns b sq)) else m)"

definition live :: "llama_call list \<Rightarrow> int \<Rightarrow> int set" where
  "live tr = fold apply_call tr (\<lambda>_. {})"

lemma live_snoc [simp]: "live (tr @ [c]) = apply_call c (live tr)"
  by (simp add: live_def)

lemma live_Nil [simp]: "live [] = (\<lambda>_. {})"
  by (simp add: live_def)

fun consec :: "int \<Rightarrow> int list \<Rightarrow> bool" where
  "consec m [] = True"
| "consec m (x # xs) = (x = m \<and> consec (m + 1) xs)"

lemma consec_append: "consec m (xs @ ys) \<longleftrightarrow> consec m xs \<and> consec (m + int (length xs)) ys"
  by (induction xs arbitrary: m) (auto simp: ac_simps)

lemma consec_set: "consec m xs \<Longrightarrow> set xs = {m..<m + int (length xs)}"
proof (induction xs arbitrary: m)
  case Nil
  then show ?case by simp
next
  case (Cons x xs)
  then have "set (x # xs) = insert m {m + 1..<m + 1 + int (length xs)}" by auto
  also have "\<dots> = {m..<m + int (length (x # xs))}" by auto
  finally show ?case .
qed

lemma consec_prompt: "consec pos (posns (prompt_entries xs pos sq) sq)"
  "length (posns (prompt_entries xs pos sq) sq) = length xs"
  "q \<noteq> sq \<Longrightarrow> posns (prompt_entries xs pos sq) q = []"
  by (induction xs arbitrary: pos) auto

text \<open>A trace is contiguous when every successful decode extends each sequence it mentions at
  the end of its live positions, which start at 0, and mentions only sequences below \<open>n\<close>.\<close>

definition decode_ok :: "nat \<Rightarrow> (int \<Rightarrow> int set) \<Rightarrow> batch_entry list \<Rightarrow> bool" where
  "decode_ok n m b \<longleftrightarrow>
     (\<forall>sq. posns b sq \<noteq> [] \<longrightarrow> 0 \<le> sq \<and> sq < int n \<and>
        (\<exists>k \<ge> 0. m sq = {0..<k} \<and> consec k (posns b sq)))"

definition contiguous :: "nat \<Rightarrow> llama_call list \<Rightarrow> bool" where
  "contiguous n tr \<longleftrightarrow>
     (\<forall>tr1 b tr2. tr = tr1 @ Decode b 0 # tr2 \<longrightarrow> decode_ok n (live tr1) b)"

lemma contiguous_Nil: "contiguous n []"
  by (simp add: contiguous_def)

lemma contiguous_snoc:
  "contiguous n (tr @ [c]) \<longleftrightarrow> contiguous n tr \<and> (\<forall>b. c = Decode b 0 \<longrightarrow> decode_ok n (live tr) b)"
proof
  assume a: "contiguous n (tr @ [c])"
  have "decode_ok n (live tr1) b" if "tr = tr1 @ Decode b 0 # tr2" for tr1 b tr2
    using a that unfolding contiguous_def by (metis append.assoc append_Cons)
  moreover have "decode_ok n (live tr) b" if "c = Decode b 0" for b
    using a that unfolding contiguous_def by blast
  ultimately show "contiguous n tr \<and> (\<forall>b. c = Decode b 0 \<longrightarrow> decode_ok n (live tr) b)"
    unfolding contiguous_def by blast
next
  assume a: "contiguous n tr \<and> (\<forall>b. c = Decode b 0 \<longrightarrow> decode_ok n (live tr) b)"
  show "contiguous n (tr @ [c])"
    unfolding contiguous_def
  proof (intro allI impI)
    fix tr1 b tr2
    assume e: "tr @ [c] = tr1 @ Decode b 0 # tr2"
    show "decode_ok n (live tr1) b"
    proof (cases tr2 rule: rev_cases)
      case Nil
      with e a show ?thesis by simp
    next
      case (snoc tr3 d)
      with e have "tr = tr1 @ Decode b 0 # tr3" by simp
      with a show ?thesis unfolding contiguous_def by blast
    qed
  qed
qed

section \<open>The contract of a pass on the KV memory\<close>

text \<open>
  What a pass may do to the KV memory: turn a slot related to its live positions by \<open>pre\<close>
  into one related by \<open>post\<close>, without touching the positions of another sequence.
\<close>

locale kv_pass =
  fixes f :: "slot \<Rightarrow> world \<Rightarrow> slot \<times> world"
    and pre post :: "int set \<Rightarrow> slot \<Rightarrow> bool"
  assumes kv_pass: "pre (live (w_trace w) (sl_id s)) s \<Longrightarrow> f s w = (s', w') \<Longrightarrow>
    sl_id s' = sl_id s \<and> post (live (w_trace w') (sl_id s)) s' \<and>
    (w_trace w' = w_trace w \<or> (\<exists>a b. w_trace w' = w_trace w @ [SeqRm (sl_id s) a b]))"
begin

lemma kv_pass_frame:
  assumes "pre (live (w_trace w) (sl_id s)) s" and "f s w = (s', w')" and "q \<noteq> sl_id s"
  shows "live (w_trace w') q = live (w_trace w) q"
  using kv_pass [OF assms(1,2)] assms(3) by auto

lemma kv_pass_contiguous:
  assumes "pre (live (w_trace w) (sl_id s)) s" and "f s w = (s', w')" and "contiguous n (w_trace w)"
  shows "contiguous n (w_trace w')"
  using kv_pass [OF assms(1,2)] assms(3) by (auto simp: contiguous_snoc)

lemma kv_pass_all:
  "distinct (map sl_id ss) \<Longrightarrow> \<forall>s \<in> set ss. pre (live (w_trace w) (sl_id s)) s \<Longrightarrow>
   for_slots f ss w = (ss', w') \<Longrightarrow>
   map sl_id ss' = map sl_id ss \<and> (\<forall>s \<in> set ss'. post (live (w_trace w') (sl_id s)) s) \<and>
   (\<forall>q. q \<notin> sl_id ` set ss \<longrightarrow> live (w_trace w') q = live (w_trace w) q) \<and>
   (contiguous n (w_trace w) \<longrightarrow> contiguous n (w_trace w'))"
proof (induction ss arbitrary: w ss' w')
  case Nil
  then show ?case by simp
next
  case (Cons s ss)
  obtain s1 w1 where f: "f s w = (s1, w1)" by fastforce
  obtain ss1 w2 where r: "for_slots f ss w1 = (ss1, w2)" by fastforce
  have e: "ss' = s1 # ss1" "w' = w2" using Cons.prems(3) f r by simp_all
  have p: "pre (live (w_trace w) (sl_id s)) s" using Cons.prems(2) by simp
  note k = kv_pass [OF p f]
  have pre: "\<forall>t \<in> set ss. pre (live (w_trace w1) (sl_id t)) t"
  proof
    fix t
    assume t: "t \<in> set ss"
    moreover have "sl_id s \<notin> sl_id ` set ss" using Cons.prems(1) by simp
    ultimately have "sl_id t \<noteq> sl_id s" by (metis imageI)
    with t kv_pass_frame [OF p f] Cons.prems(2) show "pre (live (w_trace w1) (sl_id t)) t" by simp
  qed
  have d: "distinct (map sl_id ss)" "sl_id s \<notin> sl_id ` set ss" using Cons.prems(1) by auto
  note ih = Cons.IH [OF d(1) pre r]
  have "post (live (w_trace w2) (sl_id s1)) s1" using k ih d(2) by simp
  then show ?case
    using e k ih d kv_pass_frame [OF p f] kv_pass_contiguous [OF p f] by auto
qed

end

section \<open>Slots and their live positions\<close>

definition idle_kv :: "int set \<Rightarrow> slot \<Rightarrow> bool" where
  "idle_kv L s \<longleftrightarrow> \<not> sl_warm s \<and> (\<not> is_busy s \<longrightarrow> L = {}) \<and>
     (is_busy s \<longrightarrow> sl_seq_id s = sl_id s \<and> sl_cached_session_id s = [] \<and>
        (if sl_prefilled s
         then 0 \<le> sl_n_past s \<and> L = {0..<sl_n_past s} \<and> sl_i_batch s = -1 \<and>
           int (length (sl_cached_tokens s)) = sl_n_past s + 1
         else L = {} \<and> sl_n_past s = 0 \<and> sl_pending s = sl_cached_tokens s \<and> sl_pending s \<noteq> []))"

text \<open>Inside the chunk loop: the entries from \<open>cs\<close> on are still to be decoded, and the slots
  with a logit index from \<open>lo\<close> on are still to be sampled.\<close>

definition loop_kv :: "batch_entry list \<Rightarrow> nat \<Rightarrow> nat \<Rightarrow> int set \<Rightarrow> slot \<Rightarrow> bool" where
  "loop_kv b cs lo L s \<longleftrightarrow> \<not> sl_warm s \<and>
     (\<not> is_busy s \<longrightarrow> L = {} \<and> posns (drop cs b) (sl_id s) = []) \<and>
     (is_busy s \<longrightarrow> sl_seq_id s = sl_id s \<and> sl_cached_session_id s = [] \<and>
        (\<exists>m \<ge> 0. L = {0..<m} \<and> consec m (posns (drop cs b) (sl_id s)) \<and>
           sl_n_past s = m + int (length (posns (drop cs b) (sl_id s)))) \<and>
        (if sl_i_batch s = -1
         then posns (drop cs b) (sl_id s) = [] \<and> sl_prefilled s \<and>
           int (length (sl_cached_tokens s)) = sl_n_past s + 1
         else int lo \<le> sl_i_batch s \<and> sl_i_batch s < int (length b) \<and>
           posns (drop (nat (sl_i_batch s + 1)) b) (sl_id s) = [] \<and>
           int (length (sl_cached_tokens s)) = sl_n_past s))"

lemma posns_drop_mono: "posns (drop j b) q = [] \<Longrightarrow> j \<le> k \<Longrightarrow> posns (drop k b) q = []"
proof -
  assume a: "posns (drop j b) q = []" "j \<le> k"
  then have "drop k b = drop (k - j) (drop j b)" by simp
  then have "drop j b = take (k - j) (drop j b) @ drop k b" by (metis append_take_drop_id)
  with a(1) show ?thesis by (metis Nil_is_append_conv posns_simps(2))
qed

lemma complete_slot_kv:
  assumes "complete_slot e ec msg fr s w = (s', w')" and "sl_cached_session_id s = [] \<or> ec \<noteq> Ok"
  shows "w_trace w' = w_trace w @ [SeqRm (sl_seq_id s) (-1) (-1)]" and "\<not> is_busy s'"
    and "\<not> sl_warm s'" and "sl_id s' = sl_id s"
  using assms
  by (auto simp: complete_slot_def now_us_def now_raw_def answer_def seq_rm_def is_busy_def Let_def)

lemma live_rm_all: "apply_call (SeqRm q (-1) (-1)) m q = {}"
  by auto

interpretation fail_kv: kv_pass "fail_slot e (int cs)" "loop_kv b cs cs" idle_kv
  for e cs b
proof unfold_locales
  fix w s s' w'
  assume a: "loop_kv b cs cs (live (w_trace w) (sl_id s)) s" and r: "fail_slot e (int cs) s w = (s', w')"
  show "sl_id s' = sl_id s \<and> idle_kv (live (w_trace w') (sl_id s)) s' \<and>
      (w_trace w' = w_trace w \<or> (\<exists>x y. w_trace w' = w_trace w @ [SeqRm (sl_id s) x y]))"
  proof (cases "is_busy s \<and> int cs \<le> sl_i_batch s")
    case True
    then have c: "complete_slot e InternalError ''llama_decode failed'' ''stop'' s w = (s', w')"
      using r by (simp add: fail_slot_def)
    have q: "sl_seq_id s = sl_id s" using a True by (simp add: loop_kv_def)
    note k = complete_slot_kv [OF c]
    have tr: "w_trace w' = w_trace w @ [SeqRm (sl_id s) (-1) (-1)]" using k(1) q by simp
    then have "live (w_trace w') (sl_id s) = {}" by (simp only: live_snoc live_rm_all)
    then have "idle_kv (live (w_trace w') (sl_id s)) s'" using k(2,3) by (simp add: idle_kv_def)
    then show ?thesis using tr k(4) by blast
  next
    case False
    then have e: "s' = s" "w' = w" using r by (auto simp: fail_slot_def)
    have "idle_kv (live (w_trace w) (sl_id s)) s"
    proof (cases "is_busy s")
      case busy: True
      obtain m where m: "0 \<le> m" "live (w_trace w) (sl_id s) = {0..<m}"
        "sl_n_past s = m + int (length (posns (drop cs b) (sl_id s)))"
        using a busy unfolding loop_kv_def by blast
      have i: "sl_i_batch s = -1"
      proof (rule ccontr)
        assume "sl_i_batch s \<noteq> -1"
        then have "int cs \<le> sl_i_batch s" using a busy unfolding loop_kv_def by simp
        with False busy show False by simp
      qed
      then have p: "posns (drop cs b) (sl_id s) = []" "sl_prefilled s"
        "int (length (sl_cached_tokens s)) = sl_n_past s + 1"
        using a busy unfolding loop_kv_def by simp_all
      then show ?thesis using a busy m i unfolding loop_kv_def idle_kv_def by simp
    qed (use a in \<open>simp add: loop_kv_def idle_kv_def\<close>)
    then show ?thesis by (simp add: e)
  qed
qed

lemma stream_trace [simp]: "w_trace (stream s t p w) = w_trace w"
  by (simp add: stream_def)

lemma sample_slot_kv:
  assumes a: "loop_kv b (cs + n) cs (live (w_trace w) (sl_id s)) s"
    and r: "sample_slot e (int cs) (int n) s w = (s', w')"
  shows "sl_id s' = sl_id s \<and> loop_kv b (cs + n) (cs + n) (live (w_trace w') (sl_id s)) s' \<and>
      (w_trace w' = w_trace w \<or> (\<exists>x y. w_trace w' = w_trace w @ [SeqRm (sl_id s) x y]))"
proof (cases "\<not> is_busy s \<or> sl_i_batch s < int cs \<or> int cs + int n \<le> sl_i_batch s")
  case True
  then have e: "s' = s" "w' = w" using r by (auto simp: sample_slot_def)
  show ?thesis using a True unfolding e by (auto simp: loop_kv_def split: if_splits)
next
  case False
  define tok where "tok = e_sample e (w_trace w) (the (sl_sampler s)) (sl_i_batch s - int cs)"
  define s1 where "s1 = accept_token tok s"
  define s2 where "s2 = append_token tok (e_piece e tok) s1"
  note s_defs = s1_def s2_def accept_token_def append_token_def
  have busy: "is_busy s" "sl_seq_id s = sl_id s" "sl_cached_session_id s = []" "\<not> sl_warm s"
    using a False by (auto simp: loop_kv_def)
  have "nat (sl_i_batch s + 1) \<le> cs + n" using False by auto
  then have nil: "posns (drop (cs + n) b) (sl_id s) = []"
    using a False posns_drop_mono [of "nat (sl_i_batch s + 1)" b "sl_id s" "cs + n"]
    by (auto simp: loop_kv_def split: if_splits)
  have L: "0 \<le> sl_n_past s" "live (w_trace w) (sl_id s) = {0..<sl_n_past s}"
    "int (length (sl_cached_tokens s)) = sl_n_past s"
    using a False nil by (auto simp: loop_kv_def split: if_splits)
  have finished: "?thesis" if c: "complete_slot e Ok [] fr t w2 = (s', w')"
    and t: "t = s1 \<or> t = s2" and w2: "w_trace w2 = w_trace w" for fr t w2
  proof -
    have "sl_seq_id t = sl_id s" "sl_cached_session_id t = []" "sl_id t = sl_id s"
      using t busy by (auto simp: s_defs)
    note t' = this and k = complete_slot_kv [OF c]
    have tr: "w_trace w' = w_trace w @ [SeqRm (sl_id s) (-1) (-1)]" using k(1) t' w2 by simp
    then have "live (w_trace w') (sl_id s) = {}" by (simp only: live_snoc live_rm_all)
    then have "loop_kv b (cs + n) (cs + n) (live (w_trace w') (sl_id s)) s'"
      using k(2-4) t' nil by (simp add: loop_kv_def)
    then show ?thesis using tr k(4) t' by auto
  qed
  have run: "(s', w') = (if e_eog e tok then complete_slot e Ok [] ''stop'' s1 w
      else if matches_stop s2 \<or> sl_max_new s2 \<le> sl_n_decoded s2 \<or> tok \<in> set (sl_stop_token_ids s2)
      then complete_slot e Ok [] (if sl_max_new s2 \<le> sl_n_decoded s2 then ''length'' else ''stop'') s2
             (stream s2 tok (e_piece e tok) w)
      else (s2, stream s2 tok (e_piece e tok) w))"
    using r unfolding sample_slot_def if_not_P [OF False] tok_def [symmetric] Let_def
    by (simp only: s1_def [symmetric] s2_def [symmetric])
  consider fr t w2 where "complete_slot e Ok [] fr t w2 = (s', w')" "t = s1 \<or> t = s2"
      "w_trace w2 = w_trace w"
    | "s' = s2" "w' = stream s2 tok (e_piece e tok) w"
    using run by (auto split: if_splits)
  then show ?thesis
  proof cases
    case 1
    then show ?thesis by (rule finished)
  next
    case 2
    have "is_busy s2" using busy by (simp add: s_defs is_busy_def)
    then show ?thesis using 2 busy L nil by (auto simp: loop_kv_def s_defs)
  qed
qed

interpretation sample_kv: kv_pass "sample_slot e (int cs) (int n)" "loop_kv b (cs + n) cs"
    "loop_kv b (cs + n) (cs + n)"
  for e cs n b
  by unfold_locales (rule sample_slot_kv)

section \<open>The chunk loop keeps the positions\<close>

text \<open>What every slot and the batch satisfy at chunk start \<open>cs\<close>.\<close>

definition loop_inv :: "nat \<Rightarrow> batch_entry list \<Rightarrow> nat \<Rightarrow> slot list \<Rightarrow> world \<Rightarrow> bool" where
  "loop_inv n b cs ss w \<longleftrightarrow>
     map sl_id ss = map int [0..<n] \<and> contiguous n (w_trace w) \<and>
     (\<forall>s \<in> set ss. loop_kv b cs cs (live (w_trace w) (sl_id s)) s) \<and>
     (\<forall>q. q \<notin> sl_id ` set ss \<longrightarrow> posns b q = [])"

definition idle_inv :: "nat \<Rightarrow> slot list \<Rightarrow> world \<Rightarrow> bool" where
  "idle_inv n ss w \<longleftrightarrow>
     map sl_id ss = map int [0..<n] \<and> contiguous n (w_trace w) \<and>
     (\<forall>s \<in> set ss. idle_kv (live (w_trace w) (sl_id s)) s)"

lemma ids_distinct: "map sl_id ss = map int [0..<n] \<Longrightarrow> distinct (map sl_id ss)"
  by (simp add: distinct_map inj_on_def)

lemma ids_range: "map sl_id ss = map int [0..<n] \<Longrightarrow> q \<in> sl_id ` set ss \<Longrightarrow> 0 \<le> q \<and> q < int n"
proof -
  assume "map sl_id ss = map int [0..<n]"
  then have "sl_id ` set ss = set (map int [0..<n])" by (metis set_map)
  moreover assume "q \<in> sl_id ` set ss"
  ultimately show ?thesis by auto
qed

lemma posns_split: "posns (drop cs b) q = posns (take k (drop cs b)) q @ posns (drop (cs + k) b) q"
  by (metis append_take_drop_id posns_simps(2) drop_drop add.commute)

lemma loop_decode_ok:
  assumes "loop_inv n b cs ss w"
  shows "decode_ok n (live (w_trace w)) (take k (drop cs b))"
  unfolding decode_ok_def
proof (intro allI impI)
  fix q
  let ?p = "posns (take k (drop cs b)) q"
  assume ne: "?p \<noteq> []"
  then have ne2: "posns (drop cs b) q \<noteq> []" using posns_split [of cs b q k] by simp
  have "q \<in> sl_id ` set ss"
  proof (rule ccontr)
    assume "q \<notin> sl_id ` set ss"
    then have "posns (drop 0 b) q = []" using assms by (simp add: loop_inv_def)
    then show False using ne2 posns_drop_mono [of 0 b q cs] by simp
  qed
  then obtain s where s: "s \<in> set ss" "sl_id s = q" by auto
  then have k: "loop_kv b cs cs (live (w_trace w) q) s" using assms by (auto simp: loop_inv_def)
  then have "is_busy s" using ne2 s(2) unfolding loop_kv_def by blast
  with k s(2) obtain m where "0 \<le> m" "live (w_trace w) q = {0..<m}" "consec m (posns (drop cs b) q)"
    unfolding loop_kv_def by blast
  then have "\<exists>m \<ge> 0. live (w_trace w) q = {0..<m} \<and> consec m ?p"
    using posns_split [of cs b q k] by (auto simp: consec_append)
  moreover have "0 \<le> q \<and> q < int n"
    using ids_range [of ss n q] assms s by (auto simp: loop_inv_def)
  ultimately show "0 \<le> q \<and> q < int n \<and> (\<exists>m \<ge> 0. live (w_trace w) q = {0..<m} \<and> consec m ?p)"
    by simp
qed

lemma loop_kv_chunk:
  assumes a: "loop_kv b cs cs L s"
  shows "loop_kv b (cs + k) cs (L \<union> set (posns (take k (drop cs b)) (sl_id s))) s"
proof (cases "is_busy s")
  case False
  then have "L = {}" "posns (drop cs b) (sl_id s) = []" "\<not> sl_warm s" using a by (auto simp: loop_kv_def)
  then show ?thesis using False posns_split [of cs b "sl_id s" k] by (simp add: loop_kv_def)
next
  case True
  let ?q = "sl_id s"
  let ?t = "posns (take k (drop cs b)) ?q" and ?d = "posns (drop (cs + k) b) ?q"
  obtain m where m: "0 \<le> m" "L = {0..<m}" "consec m (?t @ ?d)" "sl_n_past s = m + int (length (?t @ ?d))"
    using a True posns_split [of cs b ?q k] unfolding loop_kv_def by auto
  then have c: "consec m ?t" "consec (m + int (length ?t)) ?d" by (simp_all add: consec_append)
  have "L \<union> set ?t = {0..<m + int (length ?t)}" using m(1,2) consec_set [OF c(1)] by auto
  then have "\<exists>m' \<ge> 0. L \<union> set ?t = {0..<m'} \<and> consec m' ?d \<and> sl_n_past s = m' + int (length ?d)"
    using m c(2) by (intro exI [of _ "m + int (length ?t)"]) auto
  then show ?thesis using a True posns_split [of cs b ?q k] unfolding loop_kv_def by auto
qed

lemma loop_kv_end:
  assumes a: "loop_kv b cs cs L s" and e: "length b \<le> cs"
  shows "idle_kv L s"
proof (cases "is_busy s")
  case True
  obtain m where m: "0 \<le> m" "L = {0..<m}" "sl_n_past s = m" using a True e unfolding loop_kv_def by auto
  have i: "sl_i_batch s = -1"
  proof (rule ccontr)
    assume "sl_i_batch s \<noteq> -1"
    then have "int cs \<le> sl_i_batch s" "sl_i_batch s < int (length b)" using a True unfolding loop_kv_def by simp_all
    with e show False by linarith
  qed
  then have "sl_prefilled s" "int (length (sl_cached_tokens s)) = sl_n_past s + 1"
    using a True unfolding loop_kv_def by simp_all
  then show ?thesis using a True m i unfolding loop_kv_def idle_kv_def by simp
qed (use a in \<open>simp add: loop_kv_def idle_kv_def\<close>)

lemma decode_loop_kv:
  assumes "decode_loop e b cs nb ss w = Some r" and "1 \<le> nb" and "1 \<le> e_n_batch e" and "0 \<le> cs"
    and "loop_inv n b (nat cs) ss w"
  shows "idle_inv n (fst r) (snd r)"
  using assms
proof (induction rule: decode_loop.raw_induct [rotated, consumes 1, case_names 1])
  case (1 rec e b cs nb ss w r)
  let ?n = "min nb (int (length b) - cs)"
  let ?view = "take (nat ?n) (drop (nat cs) b)"
  let ?ret = "e_decode e (w_trace w) ?view"
  let ?w1 = "w\<lparr>w_trace := w_trace w @ [Decode ?view ?ret]\<rparr>"
  have inv: "loop_inv n b (nat cs) ss w" and nb: "1 \<le> nb" "1 \<le> e_n_batch e" "0 \<le> cs" by fact+
  have ids: "map sl_id ss = map int [0..<n]" using inv by (simp add: loop_inv_def)
  consider (finished) "int (length b) \<le> cs" "r = (ss, w)"
    | (failed) "?ret \<noteq> 0" "for_slots (fail_slot e cs) ss ?w1 = r"
    | (retry) "?ret \<noteq> 0" "nb \<noteq> 1" "rec e b cs (tdiv nb 2) ss ?w1 = Some r"
    | (step) ss1 w2 where "?ret = 0" "\<not> int (length b) \<le> cs"
        "for_slots (sample_slot e cs ?n) ss ?w1 = (ss1, w2)"
        "rec e b (cs + ?n) (e_n_batch e) ss1 w2 = Some r"
    using "1"(2) by (fastforce simp: Let_def split: if_splits prod.splits)
  then show ?case
  proof cases
    case finished
    then show ?thesis using inv loop_kv_end by (auto simp: loop_inv_def idle_inv_def)
  next
    case failed
    have w1: "loop_inv n b (nat cs) ss ?w1"
      using inv failed(1) by (simp add: loop_inv_def contiguous_snoc)
    then have "\<forall>s \<in> set ss. loop_kv b (nat cs) (nat cs) (live (w_trace ?w1) (sl_id s)) s"
      unfolding loop_inv_def by blast
    from fail_kv.kv_pass_all [OF ids_distinct [OF ids] this, of e "fst r" "snd r" n] failed(2) nb(3) w1
    show ?thesis using ids by (auto simp: idle_inv_def loop_inv_def)
  next
    case retry
    have "loop_inv n b (nat cs) ss ?w1"
      using inv retry(1) by (simp add: loop_inv_def contiguous_snoc)
    with retry nb show ?thesis by (intro "1"(1) [OF retry(3)]) auto
  next
    case step
    let ?k = "nat ?n"
    have k: "int ?k = ?n" "cs + ?n = int (nat cs + ?k)" "0 \<le> ?n" using nb step(2) by auto
    have lv: "live (w_trace ?w1) q = live (w_trace w) q \<union> set (posns ?view q)" for q
      using step(1) by simp
    have pre: "\<forall>s \<in> set ss. loop_kv b (nat cs + ?k) (nat cs) (live (w_trace ?w1) (sl_id s)) s"
      using inv loop_kv_chunk unfolding lv loop_inv_def by blast
    have c1: "contiguous n (w_trace ?w1)"
      using inv loop_decode_ok [OF inv, of ?k] by (simp add: contiguous_snoc loop_inv_def)
    have run: "for_slots (sample_slot e (int (nat cs)) (int ?k)) ss ?w1 = (ss1, w2)"
      using step(3) k nb(3) by simp
    note p = sample_kv.kv_pass_all [OF ids_distinct [OF ids] pre run, of n]
    have "sl_id ` set ss1 = sl_id ` set ss" using p by (metis set_map)
    then have "loop_inv n b (nat cs + ?k) ss1 w2"
      using p c1 ids inv by (auto simp: loop_inv_def)
    moreover have "nat (cs + ?n) = nat cs + ?k" by (rule nat_add_distrib [OF nb(3) k(3)])
    ultimately have "loop_inv n b (nat (cs + ?n)) ss1 w2" by (simp only:)
    then show ?thesis by (rule "1"(1) [OF step(4) nb(2) nb(2) add_nonneg_nonneg [OF nb(3) k(3)]])
  qed
qed

section \<open>Building the batch and admitting keep the positions\<close>

lemma loop_kv_append:
  assumes "loop_kv b 0 0 L s" and "posns es (sl_id s) = []"
  shows "loop_kv (b @ es) 0 0 L s"
  using assms unfolding loop_kv_def by (auto split: if_splits)

lemma build_slot_kv:
  assumes i: "idle_kv L s" and p: "posns b (sl_id s) = []" and r: "build_slot e s (b, w) = Inr (s', b', w')"
  shows "\<exists>es. b' = b @ es \<and> (\<forall>q. q \<noteq> sl_id s \<longrightarrow> posns es q = []) \<and> w_trace w' = w_trace w \<and>
    sl_id s' = sl_id s \<and> loop_kv b' 0 0 L s'"
proof (cases "is_busy s")
  case False
  then have "s' = s" "b' = b" "w' = w" using r by (simp_all add: build_slot_def)
  then show ?thesis using i p False by (simp add: idle_kv_def loop_kv_def)
next
  case busy: True
  have q: "sl_seq_id s = sl_id s" "\<not> sl_warm s" "sl_cached_session_id s = []"
    using i busy by (simp_all add: idle_kv_def)
  show ?thesis
  proof (cases "sl_prefilled s")
    case True
    have f: "0 \<le> sl_n_past s" "L = {0..<sl_n_past s}" "int (length (sl_cached_tokens s)) = sl_n_past s + 1"
      using i busy True by (simp_all add: idle_kv_def)
    let ?en = "\<lparr>b_token = sl_sampled s, b_pos = sl_n_past s, b_seq = sl_id s, b_logits = True\<rparr>"
    have e: "s' = s\<lparr>sl_i_batch := int (length b), sl_n_past := sl_n_past s + 1\<rparr>" "b' = b @ [?en]" "w' = w"
      using r busy True q(1) by (auto simp: build_slot_def ebind_eq_Inr batch_add_def split: if_splits)
    have d: "drop (nat (int (length b) + 1)) b' = []" using e(2) by simp
    have ps: "posns (drop 0 b') (sl_id s) = [sl_n_past s]" using e(2) p by simp
    have m: "\<exists>m \<ge> 0. L = {0..<m} \<and> consec m [sl_n_past s] \<and> sl_n_past s + 1 = m + int (length [sl_n_past s])"
      using f(1,2) by (intro exI [of _ "sl_n_past s"]) simp
    have s': "sl_id s' = sl_id s" "is_busy s'" "sl_seq_id s' = sl_id s" "\<not> sl_warm s'"
      "sl_cached_session_id s' = []" "sl_i_batch s' = int (length b)" "sl_n_past s' = sl_n_past s + 1"
      "sl_cached_tokens s' = sl_cached_tokens s"
      using e(1) busy q by (simp_all add: is_busy_def)
    have "loop_kv b' 0 0 L s'"
      unfolding loop_kv_def s'(1,3,5-8) ps d using s'(2,4) m f(3) e(2) by simp
    then show ?thesis using e by (intro exI [of _ "[?en]"]) auto
  next
    case False
    let ?es = "prompt_entries (sl_pending s) 0 (sl_id s)"
    have f: "L = {}" "sl_n_past s = 0" "sl_pending s = sl_cached_tokens s" "sl_pending s \<noteq> []"
      using i busy False unfolding idle_kv_def by auto
    have e: "b' = b @ ?es" "w' = w" "s' = s\<lparr>sl_i_batch := int (length b') - 1,
        sl_n_past := int (length (sl_pending s))\<rparr>"
      using r busy False q(1) f(2,4)
      by (auto simp: build_slot_def ebind_eq_Inr add_prompt_eq split: if_splits)
    have ne: "int (length b) + int (length (sl_cached_tokens s)) \<noteq> 0"
      using f(3,4) by (cases "sl_cached_tokens s") auto
    have len: "0 < length ?es" "length ?es = length (sl_cached_tokens s)"
      using f(3,4) by (simp_all add: prompt_entries_props)
    have "loop_kv b' 0 0 L s'"
      unfolding loop_kv_def e(2,3) using busy q f p len ne
      by (auto simp: e(1) is_busy_def consec_prompt prompt_entries_props intro!: exI [of _ 0])
    then show ?thesis using e by (intro exI [of _ ?es]) (auto simp: consec_prompt)
  qed
qed

lemma build_slots_kv:
  "distinct (map sl_id ss) \<Longrightarrow> \<forall>s \<in> set ss. idle_kv (live (w_trace w) (sl_id s)) s \<Longrightarrow>
   \<forall>s \<in> set ss. posns b (sl_id s) = [] \<Longrightarrow>
   for_slots_exec (build_slot e) ss (b, w) = Inr (ss', b', w') \<Longrightarrow>
   w_trace w' = w_trace w \<and> map sl_id ss' = map sl_id ss \<and>
   (\<exists>es. b' = b @ es \<and> (\<forall>q. q \<notin> sl_id ` set ss \<longrightarrow> posns es q = [])) \<and>
   (\<forall>s \<in> set ss'. loop_kv b' 0 0 (live (w_trace w) (sl_id s)) s)"
proof (induction ss arbitrary: b w ss')
  case Nil
  then show ?case by simp
next
  case (Cons s ss)
  then obtain s1 b1 w1 ss1 where f: "build_slot e s (b, w) = Inr (s1, b1, w1)"
    and r: "for_slots_exec (build_slot e) ss (b1, w1) = Inr (ss1, b', w')" and ss': "ss' = s1 # ss1"
    by (auto simp: ebind_eq_Inr)
  have "idle_kv (live (w_trace w) (sl_id s)) s" "posns b (sl_id s) = []"
    using Cons.prems(2,3) by simp_all
  from build_slot_kv [OF this f] obtain es where
    es: "b1 = b @ es" "\<forall>q. q \<noteq> sl_id s \<longrightarrow> posns es q = []" and w1: "w_trace w1 = w_trace w"
    and id1: "sl_id s1 = sl_id s" and k1: "loop_kv b1 0 0 (live (w_trace w) (sl_id s)) s1" by blast
  have d: "distinct (map sl_id ss)" "sl_id s \<notin> sl_id ` set ss" using Cons.prems(1) by auto
  have p: "\<forall>t \<in> set ss. posns b1 (sl_id t) = []"
    using Cons.prems(3) es d(2) by (auto simp: image_iff)
  have i: "\<forall>t \<in> set ss. idle_kv (live (w_trace w1) (sl_id t)) t" using Cons.prems(2) w1 by simp
  from Cons.IH [OF d(1) i p r] obtain es2 where
    es2: "b' = b1 @ es2" "\<forall>q. q \<notin> sl_id ` set ss \<longrightarrow> posns es2 q = []"
    and rest: "w_trace w' = w_trace w1" "map sl_id ss1 = map sl_id ss"
      "\<forall>t \<in> set ss1. loop_kv b' 0 0 (live (w_trace w1) (sl_id t)) t" by blast
  have "loop_kv b' 0 0 (live (w_trace w) (sl_id s1)) s1"
    unfolding es2(1) using loop_kv_append [of b1 _ s1 es2] k1 es2(2) d(2) id1 by simp
  moreover have "b' = b @ (es @ es2)" "\<forall>q. q \<notin> sl_id ` set (s # ss) \<longrightarrow> posns (es @ es2) q = []"
    using es es2 by auto
  ultimately show ?case using rest w1 id1 ss' by auto
qed

lemma admit_slot_cold:
  assumes a: "admit_slot e req p 0 s w = (s', w')" and "\<not> sl_warm s"
    and "g_tokens req \<noteq> []" and "g_session_id req = []"
  shows "sl_id s' = sl_id s" and "w_trace w' = w_trace w" and "idle_kv {} s'"
proof -
  obtain t w2 where t: "now_us e w = (t, w2)" by fastforce
  obtain smp w3 where m: "make_sampler e req w2 = (smp, w3)" by fastforce
  have s': "s' = s\<lparr>sl_seq_id := sl_id s, sl_prefilled := False, sl_n_past := 0,
      sl_pending := g_tokens req, sl_warm := False, sl_cached_session_id := g_session_id req,
      sl_cached_tokens := g_tokens req, sl_n_prompt := int (length (g_tokens req)),
      sl_n_decoded := 0, sl_i_batch := -1,
      sl_max_new := (if g_max_tokens req > 0 then g_max_tokens req else smp_max_tokens (e_smp e)),
      sl_stop_token_ids := g_stop_tokens req, sl_stop_strings := smp_stop (e_smp e),
      sl_accumulated := [], sl_gen_token_ids := [], sl_on_token := g_on_token req,
      sl_promise := p, sl_t_start_us := t, sl_sampler := Some smp\<rparr>" and w': "w' = w3"
    using a assms(2) t m by (simp_all add: admit_slot_def)
  show "sl_id s' = sl_id s" using s' by simp
  have "w_trace w2 = w_trace w" using t by (auto simp: now_us_def now_raw_def)
  moreover have "w_trace w3 = w_trace w2"
    using m by (auto simp: make_sampler_def now_raw_def Let_def split: if_splits)
  ultimately show "w_trace w' = w_trace w" using w' by simp
  show "idle_kv {} s'" using s' assms(3,4) by (simp add: idle_kv_def)
qed

text \<open>Without sessions no slot is ever warm, so an admitted request always gets a free slot.\<close>

lemma admit_loop_kv:
  "map sl_id ss = map int [0..<n] \<Longrightarrow> \<forall>s \<in> set ss. idle_kv (live (w_trace w) (sl_id s)) s \<Longrightarrow>
   \<forall>(req, p) \<in> set q. g_session_id req = [] \<Longrightarrow> admit_loop e q ss w = (q', ss', w') \<Longrightarrow>
   w_trace w' = w_trace w \<and> map sl_id ss' = map int [0..<n] \<and> set q' \<subseteq> set q \<and>
   (\<forall>s \<in> set ss'. idle_kv (live (w_trace w) (sl_id s)) s)"
proof (induction e q ss w rule: admit_loop.induct)
  case (1 e ss w)
  then show ?case by auto
next
  case (2 e req p q ss w)
  consider "g_tokens req = []" | "g_tokens req \<noteq> []" "e_n_ctx e \<le> length (g_tokens req)"
    | "g_tokens req \<noteq> []" "\<not> e_n_ctx e \<le> length (g_tokens req)" by blast
  then show ?case
  proof cases
    case 1
    with 2 show ?thesis by (auto simp: answer_def)
  next
    case c: 2
    with 2 show ?thesis by (auto simp: answer_def)
  next
    case c: 3
    have fs: "find_session req ss = None" using "2.prems"(3) by (simp add: find_session_def)
    have nw: "\<not> is_warm s" if "s \<in> set ss" for s
      using "2.prems"(2) that by (auto simp: idle_kv_def is_warm_def)
    have lru: "lru_victim ss 0 9223372036854775807 None = None"
    proof (cases "lru_victim ss 0 9223372036854775807 None")
      case (Some k)
      then show ?thesis using lru_victim_Some [OF Some] nw by auto
    qed
    show ?thesis
    proof (cases "find_slot is_free ss")
      case None
      then have "q' = (req, p) # q" "ss' = ss" "w' = w"
        using "2.prems"(4) c fs lru by (simp_all add: select_slot_def)
      then show ?thesis using "2.prems" by simp
    next
      case (Some i)
      then have sel: "select_slot req ss w = Some (i, 0, ss, w)" using fs by (simp add: select_slot_def)
      note fi = find_slot_Some [OF Some]
      obtain s w2 where a: "admit_slot e req p 0 (ss ! i) w = (s, w2)" by fastforce
      have l: "admit_loop e q (ss[i := s]) w2 = (q', ss', w')" using "2.prems"(4) c sel a by simp
      have old: "idle_kv (live (w_trace w) (sl_id (ss ! i))) (ss ! i)" using "2.prems"(2) fi by simp
      have nb: "\<not> is_busy (ss ! i)" "\<not> sl_warm (ss ! i)"
        using fi old by (simp_all add: is_free_def is_busy_def idle_kv_def)
      then have L: "live (w_trace w) (sl_id (ss ! i)) = {}" using old by (simp add: idle_kv_def)
      have sess: "g_session_id req = []" using "2.prems"(3) by simp
      have s: "sl_id s = sl_id (ss ! i)" "w_trace w2 = w_trace w" "idle_kv {} s"
        using admit_slot_cold [OF a nb(2) c(1) sess] by simp_all
      have ids: "map sl_id (ss[i := s]) = map int [0..<n]"
        using map_id_update [OF s(1)] "2.prems"(1) by simp
      have all: "\<forall>t \<in> set (ss[i := s]). idle_kv (live (w_trace w2) (sl_id t)) t"
        using set_update_subset_insert [of ss i s] "2.prems"(2) s L by auto
      from "2.IH"(3) [OF c sel refl refl refl a [symmetric] refl ids all _ l] "2.prems"(3) s(2)
      show ?thesis by auto
    qed
  qed
qed

section \<open>Runs without sessions\<close>

definition sched_kv :: "nat \<Rightarrow> scheduler \<Rightarrow> bool" where
  "sched_kv n st \<longleftrightarrow> idle_inv n (s_slots st) (s_world st) \<and>
     (\<forall>(req, p) \<in> set (s_queue st). g_session_id req = [])"

lemma sched_kv_new: "sched_kv n (new_scheduler n)"
  by (auto simp: sched_kv_def idle_inv_def new_scheduler_def contiguous_Nil idle_kv_def new_slot_def
      is_busy_def)

lemma sched_kv_submit:
  "sched_kv n st \<Longrightarrow> g_session_id req = [] \<Longrightarrow> sched_kv n (submit e req p st)"
  by (auto simp: sched_kv_def submit_def idle_inv_def answer_def)

lemma sched_kv_step:
  assumes nb: "1 \<le> e_n_batch e" and k: "sched_kv n st" and run: "run_step e st = Some (Inr st')"
  shows "sched_kv n st'"
proof -
  obtain q ss w where a: "admit_loop e (s_queue st) (s_slots st) (s_world st) = (q, ss, w)"
    by (cases "admit_loop e (s_queue st) (s_slots st) (s_world st)")
  have ad: "w_trace w = w_trace (s_world st)" "map sl_id ss = map int [0..<n]"
    "set q \<subseteq> set (s_queue st)" "\<forall>s \<in> set ss. idle_kv (live (w_trace w) (sl_id s)) s"
    using admit_loop_kv [OF _ _ _ a, of n] k by (auto simp: sched_kv_def idle_inv_def)
  define st1 where "st1 = st\<lparr>s_queue := q, s_slots := ss, s_world := w\<rparr>"
  have st1: "try_admit_pending e st = st1" by (simp add: try_admit_pending_def a st1_def)
  have idle: "idle_inv n ss w" using ad k by (simp add: sched_kv_def idle_inv_def)
  have frame: "sched_kv n (st1\<lparr>s_slots := ss2, s_world := w2\<rparr>)" if "idle_inv n ss2 w2" for ss2 w2
    using that ad(3) k by (auto simp: sched_kv_def st1_def)
  have build: "loop_inv n b 0 ss1 w1" if "build_batch e ss w = Inr (ss1, b, w1)" for ss1 b w1
    using build_slots_kv [OF ids_distinct [OF ad(2)] ad(4) _ that [unfolded build_batch_def]] idle ad(2)
    by (auto simp: loop_inv_def idle_inv_def) (metis set_map)+
  consider (idle) "st' = st1"
    | (noop) ss1 w1 where "build_batch e ss w = Inr (ss1, [], w1)"
        "st' = st1\<lparr>s_slots := ss1, s_world := w1\<rparr>"
    | (full) ss1 b w1 ss2 w2 where "build_batch e ss w = Inr (ss1, b, w1)"
        "decode_loop e b 0 (e_n_batch e) ss1 w1 = Some (ss2, w2)"
        "st' = st1\<lparr>s_slots := ss2, s_world := w2\<rparr>"
    using run unfolding run_step_def st1 Let_def
    by (auto simp: st1_def split: if_splits sum.splits prod.splits option.splits)
  then show ?thesis
  proof cases
    case idle
    then show ?thesis using frame [OF \<open>idle_inv n ss w\<close>] by (simp add: st1_def)
  next
    case noop
    have "idle_inv n ss1 w1"
      using build [OF noop(1)] loop_kv_end [of "[]" 0] by (auto simp: loop_inv_def idle_inv_def)
    then show ?thesis unfolding noop(2) by (rule frame)
  next
    case full
    have "idle_inv n ss2 w2"
      using decode_loop_kv [OF full(2) nb nb, of n] build [OF full(1)] by simp
    then show ?thesis unfolding full(3) by (rule frame)
  qed
qed

lemma sched_kv_run:
  "1 \<le> e_n_batch e \<Longrightarrow> sched_kv n st \<Longrightarrow> \<forall>req p. Submit req p \<in> set ops \<longrightarrow> g_session_id req = [] \<Longrightarrow>
   sched_run e ops st = Some (Inr st') \<Longrightarrow> sched_kv n st'"
proof (induction e ops st rule: sched_run.induct)
  case (1 e st)
  then show ?case by simp
next
  case (2 e req p ops st)
  have s: "g_session_id req = []" "\<forall>req p. Submit req p \<in> set ops \<longrightarrow> g_session_id req = []"
    using "2.prems"(3) by (meson list.set_intros)+
  have "sched_run e ops (submit e req p st) = Some (Inr st')" using "2.prems"(4) by simp
  from "2.IH" [OF "2.prems"(1) sched_kv_submit [OF "2.prems"(2) s(1)] s(2) this] show ?case .
next
  case (3 e ops st)
  then obtain st1 where r: "run_step e st = Some (Inr st1)" "sched_run e ops st1 = Some (Inr st')"
    by (auto split: option.splits sum.splits)
  have s: "\<forall>req p. Submit req p \<in> set ops \<longrightarrow> g_session_id req = []"
    using "3.prems"(3) by (meson list.set_intros)
  from "3.IH" [OF r(1) refl "3.prems"(1) sched_kv_step [OF "3.prems"(1,2) r(1)] s r(2)] show ?case .
qed

text \<open>C3: the positions given to \<open>llama_decode\<close> are right. In a run without session ids,
  whatever llama.cpp answers and however the chunks are split and retried, every successful decode
  continues each sequence it mentions exactly at the end of what that sequence has decoded since it
  was last cleared, with consecutive positions starting at 0 and no gap, and mentions only sequence
  ids below the number of slots.\<close>

theorem positions_contiguous:
  assumes "1 \<le> e_n_batch e" and "\<forall>req p. Submit req p \<in> set ops \<longrightarrow> g_session_id req = []"
    and "sched_run e ops (new_scheduler n) = Some (Inr st)"
    and "w_trace (s_world st) = tr1 @ Decode b 0 # tr2" and "posns b sq \<noteq> []"
  shows "0 \<le> sq \<and> sq < int n \<and> (\<exists>k \<ge> 0. live tr1 sq = {0..<k} \<and> consec k (posns b sq))"
  using sched_kv_run [OF assms(1) sched_kv_new assms(2,3)] assms(4,5)
  by (auto simp: sched_kv_def idle_inv_def contiguous_def decode_ok_def)

lemma demo_trace:
  "\<exists>st b tr2. sched_run demo_env [Submit (demo_request [3, 4] 1 []) 7, Step] (new_scheduler 1) =
     Some (Inr st) \<and> w_trace (s_world st) = [] @ Decode b 0 # tr2 \<and> posns b 0 = [0, 1]"
proof -
  let ?st = "try_admit_pending demo_env (submit demo_env (demo_request [3, 4] 1 []) 7 (new_scheduler 1))"
  obtain ss b w where bb: "build_batch demo_env (s_slots ?st) (s_world ?st) = Inr (ss, b, w)"
    and b: "length b = 2" "posns b 0 = [0, 1]" and busy: "list_ex is_busy (s_slots ?st)"
    and s: "\<exists>ss' w' c. for_slots (sample_slot demo_env 0 2) ss (w\<lparr>w_trace := w_trace w @ [Decode b 0]\<rparr>)
      = (ss', w') \<and> w_trace w' = [Decode b 0, c]"
    by (simp add: sched_eval)
  then obtain ss' w' c where s: "for_slots (sample_slot demo_env 0 2) ss
      (w\<lparr>w_trace := w_trace w @ [Decode b 0]\<rparr>) = (ss', w')" "w_trace w' = [Decode b 0, c]"
    by blast
  have "decode_loop demo_env b 0 4 ss w = decode_loop demo_env b (0 + 2) (e_n_batch demo_env) ss' w'"
    using b s(1) by (intro decode_loop_ok [where view = b]) (simp_all add: demo_env_def)
  then have d: "decode_loop demo_env b 0 4 ss w = Some (ss', w')" using b by (simp add: decode_loop_end)
  have nb: "e_n_batch demo_env = 4" "b \<noteq> []" using b by (auto simp: demo_env_def)
  have "run_step demo_env (submit demo_env (demo_request [3, 4] 1 []) 7 (new_scheduler 1)) =
      Some (Inr (?st\<lparr>s_slots := ss', s_world := w'\<rparr>))"
    using busy bb d nb by (simp add: run_step_def Let_def)
  then show ?thesis using s(2) b(2) by auto
qed

theorem positions_contiguous_witness:
  "\<exists>st b tr2. sched_run demo_env [Submit (demo_request [3, 4] 1 []) 7, Step] (new_scheduler 1) =
     Some (Inr st) \<and> w_trace (s_world st) = [] @ Decode b 0 # tr2 \<and> consec 0 (posns b 0)"
proof -
  obtain st b tr2 where s: "sched_run demo_env [Submit (demo_request [3, 4] 1 []) 7, Step]
      (new_scheduler 1) = Some (Inr st)" "w_trace (s_world st) = [] @ Decode b 0 # tr2"
      "posns b 0 = [0, 1]" using demo_trace by blast
  have nb: "1 \<le> e_n_batch demo_env" by (simp add: demo_env_def)
  have se: "\<forall>req p. Submit req p \<in> set [Submit (demo_request [3, 4] 1 []) 7, Step] \<longrightarrow>
      g_session_id req = []" by (simp add: demo_request_def)
  have "posns b 0 \<noteq> []" using s(3) by simp
  from positions_contiguous [OF nb se s(1,2) this] obtain k where
    "0 \<le> k" "live [] 0 = {0..<k}" "consec k (posns b 0)" by (elim conjE exE)
  then have "consec 0 (posns b 0)" using s(3) by simp
  with s show ?thesis by blast
qed

section \<open>Session reuse\<close>

lemma common_prefix_len_append: "common_prefix_len xs (xs @ ys) = length xs"
  by (induction xs) (cases ys; simp)+

lemma complete_slot_warm:
  assumes "complete_slot e Ok msg fr s w = (s', w')" and "sl_cached_session_id s \<noteq> []"
  shows "sl_warm s'" "sl_seq_id s' = sl_seq_id s" "sl_cached_tokens s' = sl_cached_tokens s"
    "sl_cached_session_id s' = sl_cached_session_id s" "w_trace w' = w_trace w"
    "sl_n_past s' = int (length (sl_cached_tokens s))"
  using assms by (auto simp: complete_slot_def now_us_def now_raw_def answer_def Let_def)

text \<open>A follow-up request that extends the whole token history of a warm slot reuses all of it.\<close>

lemma admit_full_reuse:
  assumes warm: "sl_warm s" "sl_seq_id s \<noteq> -1" and sess: "sl_cached_session_id s = g_session_id req"
    "g_session_id req \<noteq> []" and toks: "g_tokens req = sl_cached_tokens s @ rest"
    and len: "64 \<le> length (sl_cached_tokens s)"
    and a: "admit_slot e req p (length (sl_cached_tokens s)) s w = (s', w')"
  shows "select_slot req [s] w = Some (0, length (sl_cached_tokens s), [s], w)"
    and "is_busy s'" and "sl_pending s' = rest" and "sl_n_past s' = int (length (sl_cached_tokens s))"
    and "\<not> sl_prefilled s'"
    and "w_trace w' = w_trace w @ [SeqRm (sl_seq_id s) (int (length (sl_cached_tokens s))) (-1)]"
proof -
  let ?k = "length (sl_cached_tokens s)"
  have k: "0 < ?k" using len by linarith
  show "select_slot req [s] w = Some (0, ?k, [s], w)"
    using warm sess toks len
    by (simp add: select_slot_def find_session_def find_slot_Cons is_warm_def common_prefix_len_append)
  obtain t w2 where t: "now_us e (seq_rm (sl_seq_id s) (int ?k) (-1) w) = (t, w2)" by fastforce
  obtain smp w3 where m: "make_sampler e req w2 = (smp, w3)" by fastforce
  have "w_trace w2 = w_trace w @ [SeqRm (sl_seq_id s) (int ?k) (-1)]"
    using t by (auto simp: now_us_def now_raw_def seq_rm_def)
  moreover have "w_trace w3 = w_trace w2"
    using m by (auto simp: make_sampler_def now_raw_def Let_def split: if_splits)
  moreover have "w' = w3" using a t m k by (auto simp: admit_slot_def Let_def)
  ultimately show "w_trace w' = w_trace w @ [SeqRm (sl_seq_id s) (int ?k) (-1)]" by simp
  show "is_busy s'" "sl_pending s' = rest" "sl_n_past s' = int ?k" "\<not> sl_prefilled s'"
    using a t m k warm(2) toks by (auto simp: admit_slot_def Let_def is_busy_def)
qed

text \<open>Session reuse after a length stop skips a position. When the sampled token ends a
  session's generation by the token limit, it is appended to the cached history although it was never
  decoded (positions 0 to \<open>n_past - 1\<close> were). A follow-up request that extends the history reuses
  all of it: its first new token goes to position \<open>n_past + 1\<close>, nothing is ever decoded at
  \<open>n_past\<close>, and the call trace gains only a removal from \<open>n_past + 1\<close> on.\<close>

theorem session_reuse_skips_position:
  assumes busy: "is_busy s" "cs \<le> sl_i_batch s" "sl_i_batch s < cs + n" "sl_cached_session_id s \<noteq> []"
    and built: "int (length (sl_cached_tokens s)) = sl_n_past s" "63 \<le> sl_n_past s"
    and tok: "tok = e_sample e (w_trace w) (the (sl_sampler s)) (sl_i_batch s - cs)" "\<not> e_eog e tok"
    and limit: "sl_max_new s \<le> sl_n_decoded s + 1"
    and run: "sample_slot e cs n s w = (s1, w1)"
    and req: "g_session_id req = sl_cached_session_id s" "g_tokens req = sl_cached_tokens s @ [tok] @ rest"
  shows "is_warm s1 \<and> w_trace w1 = w_trace w \<and>
    (\<exists>k. select_slot req [s1] w1 = Some (0, k, [s1], w1) \<and>
      (\<forall>s2 w2. admit_slot e req p k s1 w1 = (s2, w2) \<longrightarrow>
         is_busy s2 \<and> sl_pending s2 = rest \<and> sl_n_past s2 = sl_n_past s + 1 \<and>
         w_trace w2 = w_trace w @ [SeqRm (sl_seq_id s) (sl_n_past s + 1) (-1)]))"
proof -
  let ?t = "append_token tok (e_piece e tok) (accept_token tok s)"
  have c: "complete_slot e Ok [] ''length'' ?t (stream ?t tok (e_piece e tok) w) = (s1, w1)"
    using run busy(1-3) tok limit
    by (simp add: sample_slot_def Let_def) (simp add: append_token_def accept_token_def)
  have t: "sl_cached_session_id ?t = sl_cached_session_id s" "sl_seq_id ?t = sl_seq_id s"
    "sl_cached_tokens ?t = sl_cached_tokens s @ [tok]"
    by (simp_all add: append_token_def accept_token_def)
  note wm = complete_slot_warm [OF c, unfolded t, OF busy(4)]
  have q: "sl_seq_id s1 \<noteq> -1" using wm(2) busy(1) by (simp add: is_busy_def)
  have len: "64 \<le> length (sl_cached_tokens s1)" "int (length (sl_cached_tokens s1)) = sl_n_past s + 1"
    using wm(3) built by simp_all
  have toks: "g_tokens req = sl_cached_tokens s1 @ rest" using req(2) wm(3) by simp
  have sess: "sl_cached_session_id s1 = g_session_id req" "g_session_id req \<noteq> []"
    using req(1) wm(4) busy(4) by simp_all
  note full = admit_full_reuse [OF wm(1) q sess toks len(1)]
  have "select_slot req [s1] w1 = Some (0, length (sl_cached_tokens s1), [s1], w1)"
    by (rule full(1)) (rule surjective_pairing)
  moreover have "is_busy s2 \<and> sl_pending s2 = rest \<and> sl_n_past s2 = sl_n_past s + 1 \<and>
      w_trace w2 = w_trace w @ [SeqRm (sl_seq_id s) (sl_n_past s + 1) (-1)]"
    if "admit_slot e req p (length (sl_cached_tokens s1)) s1 w1 = (s2, w2)" for s2 w2
    using full [OF that] wm(2,5) len(2) by simp
  moreover have "is_warm s1 \<and> w_trace w1 = w_trace w" using wm(1,5) q by (simp add: is_warm_def)
  ultimately show ?thesis by blast
qed

text \<open>Session reuse after an end-of-generation token is exact. The history then holds only
  decoded tokens, so the follow-up request continues at position \<open>n_past\<close>.\<close>

theorem session_reuse_after_eog:
  assumes busy: "is_busy s" "cs \<le> sl_i_batch s" "sl_i_batch s < cs + n" "sl_cached_session_id s \<noteq> []"
    and built: "int (length (sl_cached_tokens s)) = sl_n_past s" "64 \<le> sl_n_past s"
    and eog: "e_eog e (e_sample e (w_trace w) (the (sl_sampler s)) (sl_i_batch s - cs))"
    and run: "sample_slot e cs n s w = (s1, w1)"
    and req: "g_session_id req = sl_cached_session_id s" "g_tokens req = sl_cached_tokens s @ rest"
  shows "is_warm s1 \<and> w_trace w1 = w_trace w \<and>
    (\<exists>k. select_slot req [s1] w1 = Some (0, k, [s1], w1) \<and>
      (\<forall>s2 w2. admit_slot e req p k s1 w1 = (s2, w2) \<longrightarrow>
         is_busy s2 \<and> sl_pending s2 = rest \<and> sl_n_past s2 = sl_n_past s \<and>
         w_trace w2 = w_trace w @ [SeqRm (sl_seq_id s) (sl_n_past s) (-1)]))"
proof -
  let ?tok = "e_sample e (w_trace w) (the (sl_sampler s)) (sl_i_batch s - cs)"
  let ?t = "accept_token ?tok s"
  have c: "complete_slot e Ok [] ''stop'' ?t w = (s1, w1)"
    using run busy(1-3) eog by (simp add: sample_slot_def Let_def)
  have t: "sl_cached_session_id ?t = sl_cached_session_id s" "sl_seq_id ?t = sl_seq_id s"
    "sl_cached_tokens ?t = sl_cached_tokens s"
    by (simp_all add: accept_token_def)
  note wm = complete_slot_warm [OF c, unfolded t, OF busy(4)]
  have q: "sl_seq_id s1 \<noteq> -1" using wm(2) busy(1) by (simp add: is_busy_def)
  have len: "64 \<le> length (sl_cached_tokens s1)" "int (length (sl_cached_tokens s1)) = sl_n_past s"
    using wm(3) built by simp_all
  have toks: "g_tokens req = sl_cached_tokens s1 @ rest" using req(2) wm(3) by simp
  have sess: "sl_cached_session_id s1 = g_session_id req" "g_session_id req \<noteq> []"
    using req(1) wm(4) busy(4) by simp_all
  note full = admit_full_reuse [OF wm(1) q sess toks len(1)]
  have "select_slot req [s1] w1 = Some (0, length (sl_cached_tokens s1), [s1], w1)"
    by (rule full(1)) (rule surjective_pairing)
  moreover have "is_busy s2 \<and> sl_pending s2 = rest \<and> sl_n_past s2 = sl_n_past s \<and>
      w_trace w2 = w_trace w @ [SeqRm (sl_seq_id s) (sl_n_past s) (-1)]"
    if "admit_slot e req p (length (sl_cached_tokens s1)) s1 w1 = (s2, w2)" for s2 w2
    using full [OF that] wm(2,5) len(2) by simp
  moreover have "is_warm s1 \<and> w_trace w1 = w_trace w" using wm(1,5) q by (simp add: is_warm_def)
  ultimately show ?thesis by blast
qed

text \<open>A slot whose session prompt of 64 tokens has just been decoded.\<close>

definition demo_slot :: slot where
  "demo_slot = (new_slot 0)\<lparr>sl_seq_id := 0, sl_n_past := 64, sl_i_batch := 63, sl_n_prompt := 64,
     sl_max_new := 1, sl_cached_session_id := ''s'', sl_cached_tokens := replicate 64 3,
     sl_pending := replicate 64 3,
     sl_sampler := Some \<lparr>sm_chain = [], sm_accepted = []\<rparr>\<rparr>"

definition empty_world :: world where
  "empty_world = \<lparr>w_answers = [], w_trace = [], w_reads = 0, w_streamed = []\<rparr>"

theorem session_reuse_skips_position_witness:
  "\<exists>s1 w1 k. sample_slot demo_env 0 64 demo_slot empty_world = (s1, w1) \<and> is_warm s1 \<and>
     select_slot (demo_request (replicate 64 3 @ [5, 9]) 4 ''s'') [s1] w1 = Some (0, k, [s1], w1) \<and>
     sl_n_past (fst (admit_slot demo_env (demo_request (replicate 64 3 @ [5, 9]) 4 ''s'') 8 k s1 w1)) = 65"
proof -
  obtain s1 w1 where r: "sample_slot demo_env 0 64 demo_slot empty_world = (s1, w1)" by fastforce
  let ?req = "demo_request (replicate 64 3 @ [5, 9]) 4 ''s''"
  have "is_warm s1 \<and> w_trace w1 = w_trace empty_world \<and>
    (\<exists>k. select_slot ?req [s1] w1 = Some (0, k, [s1], w1) \<and>
      (\<forall>s2 w2. admit_slot demo_env ?req 8 k s1 w1 = (s2, w2) \<longrightarrow>
         is_busy s2 \<and> sl_pending s2 = [9] \<and> sl_n_past s2 = sl_n_past demo_slot + 1 \<and>
         w_trace w2 = w_trace empty_world @ [SeqRm (sl_seq_id demo_slot) (sl_n_past demo_slot + 1) (-1)]))"
    by (rule session_reuse_skips_position [OF _ _ _ _ _ _ refl _ _ r])
       (simp_all add: demo_slot_def new_slot_def demo_env_def demo_request_def is_busy_def)
  then obtain k where k: "is_warm s1" "select_slot ?req [s1] w1 = Some (0, k, [s1], w1)"
    "\<forall>s2 w2. admit_slot demo_env ?req 8 k s1 w1 = (s2, w2) \<longrightarrow> sl_n_past s2 = sl_n_past demo_slot + 1"
    by blast
  have "sl_n_past (fst (admit_slot demo_env ?req 8 k s1 w1)) = 65"
    using k(3) by (cases "admit_slot demo_env ?req 8 k s1 w1") (simp add: demo_slot_def new_slot_def)
  with r k show ?thesis by blast
qed

theorem session_reuse_after_eog_witness:
  "\<exists>s1 w1. sample_slot (demo_env\<lparr>e_eog := (\<lambda>_. True)\<rparr>) 0 64 demo_slot empty_world = (s1, w1) \<and>
     is_warm s1 \<and> w_trace w1 = []"
proof -
  let ?e = "demo_env\<lparr>e_eog := (\<lambda>_. True)\<rparr>"
  obtain s1 w1 where r: "sample_slot ?e 0 64 demo_slot empty_world = (s1, w1)" by fastforce
  have "is_warm s1 \<and> w_trace w1 = w_trace empty_world \<and>
    (\<exists>k. select_slot (demo_request (replicate 64 3 @ [9]) 4 ''s'') [s1] w1 = Some (0, k, [s1], w1) \<and>
      (\<forall>s2 w2. admit_slot ?e (demo_request (replicate 64 3 @ [9]) 4 ''s'') 8 k s1 w1 = (s2, w2) \<longrightarrow>
         is_busy s2 \<and> sl_pending s2 = [9] \<and> sl_n_past s2 = sl_n_past demo_slot \<and>
         w_trace w2 = w_trace empty_world @ [SeqRm (sl_seq_id demo_slot) (sl_n_past demo_slot) (-1)]))"
    by (rule session_reuse_after_eog [OF _ _ _ _ _ _ _ r])
       (simp_all add: demo_slot_def new_slot_def demo_env_def demo_request_def is_busy_def)
  then show ?thesis using r by (simp add: empty_world_def)
qed

end
