(* ===== verification/Config.thy ===== *)
theory Config
  imports Config_Schema
begin

text \<open>
  \<open>src/host/config/\<close>: the configuration loader. A TOML document is a value of \<open>toml\<close>; the
  typed lookups \<open>toml::find_or\<close> of the toml11 library are fields of \<open>toml_api\<close>, together with
  the file parser, \<open>getenv\<close> and the formatting of floating numbers, and so is the rounding of a
  double to \<open>float\<close>. \<open>cfg_error\<close> holds the exceptions of \<open>load\<close>. Every parser takes the section's
  current value and returns the overlaid one.
\<close>

section \<open>The TOML boundary\<close>

datatype toml =
    TString string | TInteger int | TBoolean bool | TFloating real | TArray "toml list"
  | TTable "(string \<times> toml) list" | TOther

fun toml_entries :: "toml \<Rightarrow> (string \<times> toml) list" where
  "toml_entries (TTable es) = es"
| "toml_entries _ = []"

definition contains :: "toml \<Rightarrow> string \<Rightarrow> bool" where
  "contains v k \<longleftrightarrow> map_of (toml_entries v) k \<noteq> None"

definition toml_find :: "toml \<Rightarrow> string \<Rightarrow> toml" where
  "toml_find v k = (case map_of (toml_entries v) k of Some x \<Rightarrow> x | None \<Rightarrow> TOther)"

record toml_api =
  t_parse :: "string \<Rightarrow> toml option"
  t_str :: "toml \<Rightarrow> string \<Rightarrow> string \<Rightarrow> string"
  t_int :: "toml \<Rightarrow> string \<Rightarrow> int \<Rightarrow> int"
  t_bool :: "toml \<Rightarrow> string \<Rightarrow> bool \<Rightarrow> bool"
  t_double :: "toml \<Rightarrow> string \<Rightarrow> real \<Rightarrow> real"
  t_strs :: "toml \<Rightarrow> string \<Rightarrow> string list \<Rightarrow> string list"
  t_ints :: "toml \<Rightarrow> string \<Rightarrow> int list \<Rightarrow> int list"
  t_floats :: "toml \<Rightarrow> string \<Rightarrow> real list \<Rightarrow> real list"
  t_env :: "string \<Rightarrow> string option"
  t_show_float :: "real \<Rightarrow> string"
  t_fl :: "real \<Rightarrow> real"

datatype cfg_error = ParseError | TypeError | ValidationError string

section \<open>Secrets\<close>

text \<open>\<open>std::string::find\<close>: the text before the first occurrence and the text after it.\<close>

fun find_sub :: "string \<Rightarrow> string \<Rightarrow> (string \<times> string) option" where
  "find_sub pat [] = (if pat = [] then Some ([], []) else None)"
| "find_sub pat (x # xs) =
     (if take (length pat) (x # xs) = pat then Some ([], drop (length pat) (x # xs))
      else map_option (\<lambda>(a, b). (x # a, b)) (find_sub pat xs))"

lemma find_sub_Some: "find_sub pat xs = Some (a, b) \<Longrightarrow> xs = a @ pat @ b"
proof (induction xs arbitrary: a)
  case Nil
  then show ?case by (simp split: if_splits)
next
  case (Cons x xs)
  show ?case
  proof (cases "take (length pat) (x # xs) = pat")
    case True
    with Cons.prems have "a = []" "b = drop (length pat) (x # xs)" by simp_all
    with True show ?thesis by (metis append_Nil append_take_drop_id)
  next
    case False
    with Cons.prems obtain a' where "find_sub pat xs = Some (a', b)" "a = x # a'" by auto
    with Cons.IH show ?thesis by simp
  qed
qed

definition env_prefix :: string where
  "env_prefix = ''${ENV:''"

function resolve_secrets :: "(string \<Rightarrow> string option) \<Rightarrow> string \<Rightarrow> string" where
  "resolve_secrets env v =
     (case find_sub env_prefix v of
        None \<Rightarrow> v
      | Some (before, rest) \<Rightarrow>
          (case find_sub ''}'' rest of
             None \<Rightarrow> before @ env_prefix @ rest
           | Some (var_name, after) \<Rightarrow>
               before @ (case env var_name of None \<Rightarrow> [] | Some x \<Rightarrow> x) @ resolve_secrets env after))"
  by pat_completeness auto
termination
proof (relation "measure (\<lambda>(env, v). length v)")
  fix env :: "string \<Rightarrow> string option" and val q before rest r var_name after
  assume "find_sub env_prefix val = Some q" "(before, rest) = q"
    "find_sub ''}'' rest = Some r" "(var_name, after) = r"
  then have "val = before @ env_prefix @ rest" "rest = var_name @ ''}'' @ after"
    using find_sub_Some by blast+
  then show "((env, after), env, val) \<in> measure (\<lambda>(env, v). length v)" by simp
qed simp

declare resolve_secrets.simps [simp del]

definition find_str :: "toml_api \<Rightarrow> toml \<Rightarrow> string \<Rightarrow> string \<Rightarrow> string" where
  "find_str api t k d = resolve_secrets (t_env api) (t_str api t k d)"

text \<open>\<open>static_cast<float>(find_or<double>(t, k, static_cast<double>(d)))\<close>\<close>

definition find_float :: "toml_api \<Rightarrow> toml \<Rightarrow> string \<Rightarrow> real \<Rightarrow> real" where
  "find_float api t k d = t_fl api (t_double api t k d)"

text \<open>The shape of every section parser: nothing happens when the section is absent.\<close>

definition section_of :: "string \<Rightarrow> (toml \<Rightarrow> 'c \<Rightarrow> 'c) \<Rightarrow> toml \<Rightarrow> 'c \<Rightarrow> 'c" where
  "section_of key f tbl out = (if contains tbl key then f (toml_find tbl key) out else out)"

section \<open>Section parsers\<close>

definition parse_server :: "toml_api \<Rightarrow> toml \<Rightarrow> server_config \<Rightarrow> server_config" where
  "parse_server api = section_of ''server'' (\<lambda>t c. 
     c\<lparr>sv_host := find_str api t ''host'' (sv_host c),
     sv_port := cast_u16 (t_int api t ''port'' (sv_port c)),
     sv_api_key := find_str api t ''api_key'' (sv_api_key c),
     sv_cors_origins := t_strs api t ''cors_origins'' (sv_cors_origins c),
     sv_request_timeout_ms := t_int api t ''request_timeout_ms'' (sv_request_timeout_ms c),
     sv_max_concurrent := t_int api t ''max_concurrent'' (sv_max_concurrent c),
     sv_tls_enabled := t_bool api t ''tls_enabled'' (sv_tls_enabled c),
     sv_tls_cert_file := find_str api t ''tls_cert_file'' (sv_tls_cert_file c),
     sv_tls_key_file := find_str api t ''tls_key_file'' (sv_tls_key_file c),
     sv_enable_debug_endpoints := t_bool api t ''enable_debug_endpoints'' (sv_enable_debug_endpoints c)\<rparr>)"

definition parse_model :: "toml_api \<Rightarrow> toml \<Rightarrow> model_config \<Rightarrow> model_config" where
  "parse_model api = section_of ''model'' (\<lambda>t c. 
     c\<lparr>md_path := find_str api t ''path'' (md_path c),
     md_hf_repo := find_str api t ''hf_repo'' (md_hf_repo c),
     md_hf_file := find_str api t ''hf_file'' (md_hf_file c),
     md_alias := find_str api t ''alias'' (md_alias c),
     md_chat_template := find_str api t ''chat_template'' (md_chat_template c),
     md_trust_remote_code := t_bool api t ''trust_remote_code'' (md_trust_remote_code c)\<rparr>)"

definition parse_kv_cache :: "toml_api \<Rightarrow> toml \<Rightarrow> kv_cache_config \<Rightarrow> kv_cache_config" where
  "parse_kv_cache api = section_of ''kv_cache'' (\<lambda>t c. 
     c\<lparr>kc_type_k := find_str api t ''type_k'' (kc_type_k c),
     kc_type_v := find_str api t ''type_v'' (kc_type_v c),
     kc_size_mb := t_int api t ''size_mb'' (kc_size_mb c)\<rparr>)"

definition parse_cuda_inference :: "toml_api \<Rightarrow> toml \<Rightarrow> cuda_inference_config \<Rightarrow> cuda_inference_config" where
  "parse_cuda_inference api = section_of ''cuda'' (\<lambda>t c. 
     c\<lparr>ci_gpu_layers := t_int api t ''gpu_layers'' (ci_gpu_layers c),
     ci_main_gpu := t_int api t ''main_gpu'' (ci_main_gpu c),
     ci_tensor_split := t_floats api t ''tensor_split'' (ci_tensor_split c),
     ci_gpu_memory_utilization := find_float api t ''gpu_memory_utilization'' (ci_gpu_memory_utilization c),
     ci_use_flash_attention_cuda := t_bool api t ''use_flash_attention_cuda'' (ci_use_flash_attention_cuda c),
     ci_compute_capability_major := t_int api t ''compute_capability_major'' (ci_compute_capability_major c),
     ci_compute_capability_minor := t_int api t ''compute_capability_minor'' (ci_compute_capability_minor c)\<rparr>)"

definition parse_cuda_engine :: "toml_api \<Rightarrow> toml \<Rightarrow> cuda_engine_config \<Rightarrow> cuda_engine_config" where
  "parse_cuda_engine api = section_of ''cuda_engine'' (\<lambda>t c. 
     c\<lparr>ce_paged_kv_block_size := t_int api t ''paged_kv_block_size'' (ce_paged_kv_block_size c),
     ce_max_num_blocks := t_int api t ''max_num_blocks'' (ce_max_num_blocks c),
     ce_max_num_seqs := t_int api t ''max_num_seqs'' (ce_max_num_seqs c),
     ce_num_cuda_streams := t_int api t ''num_cuda_streams'' (ce_num_cuda_streams c),
     ce_use_fp8_kv := t_bool api t ''use_fp8_kv'' (ce_use_fp8_kv c),
     ce_gpu_memory_utilization := find_float api t ''gpu_memory_utilization'' (ce_gpu_memory_utilization c),
     ce_tensor_parallel_size := t_int api t ''tensor_parallel_size'' (ce_tensor_parallel_size c),
     ce_enforce_eager := t_bool api t ''enforce_eager'' (ce_enforce_eager c),
     ce_cuda_graph_max_batch_size := t_int api t ''cuda_graph_max_batch_size'' (ce_cuda_graph_max_batch_size c),
     ce_attention_layout := find_str api t ''attention_layout'' (ce_attention_layout c)\<rparr>)"

definition parse_batching :: "toml_api \<Rightarrow> toml \<Rightarrow> batching_config \<Rightarrow> batching_config" where
  "parse_batching api = section_of ''batching'' (\<lambda>t c. 
     c\<lparr>bt_enabled := t_bool api t ''enabled'' (bt_enabled c),
     bt_max_seqs := t_int api t ''max_seqs'' (bt_max_seqs c),
     bt_max_queue := t_int api t ''max_queue'' (bt_max_queue c),
     bt_kv_unified := t_bool api t ''kv_unified'' (bt_kv_unified c)\<rparr>)"

definition parse_presis :: "toml_api \<Rightarrow> toml \<Rightarrow> presis_config \<Rightarrow> presis_config" where
  "parse_presis api = section_of ''presis'' (\<lambda>t c. 
     c\<lparr>ps_enabled := t_bool api t ''enabled'' (ps_enabled c),
     ps_threshold := find_float api t ''threshold'' (ps_threshold c),
     ps_keep_fraction := find_float api t ''keep_fraction'' (ps_keep_fraction c),
     ps_importance_layers := t_int api t ''importance_layers'' (ps_importance_layers c),
     ps_fallback_tfidf := t_bool api t ''fallback_tfidf'' (ps_fallback_tfidf c),
     ps_max_seqlen_for_attn := t_int api t ''max_seqlen_for_attn'' (ps_max_seqlen_for_attn c)\<rparr>)"

definition parse_tome :: "toml_api \<Rightarrow> toml \<Rightarrow> tome_config \<Rightarrow> tome_config" where
  "parse_tome api = section_of ''tome'' (\<lambda>t c. 
     c\<lparr>tm_enabled := t_bool api t ''enabled'' (tm_enabled c),
     tm_r := t_int api t ''r'' (tm_r c),
     tm_start_layer := t_int api t ''start_layer'' (tm_start_layer c),
     tm_apply_all_layers := t_bool api t ''apply_all_layers'' (tm_apply_all_layers c),
     tm_merge_mode := find_str api t ''merge_mode'' (tm_merge_mode c)\<rparr>)"

definition parse_fastv :: "toml_api \<Rightarrow> toml \<Rightarrow> fastv_config \<Rightarrow> fastv_config" where
  "parse_fastv api = section_of ''fastv'' (\<lambda>t c. 
     c\<lparr>fv_enabled := t_bool api t ''enabled'' (fv_enabled c),
     fv_start_layer := t_int api t ''start_layer'' (fv_start_layer c),
     fv_keep_ratio := find_float api t ''keep_ratio'' (fv_keep_ratio c),
     fv_importance_metric := find_str api t ''importance_metric'' (fv_importance_metric c)\<rparr>)"

definition parse_pyramid_drop :: "toml_api \<Rightarrow> toml \<Rightarrow> pyramid_drop_config \<Rightarrow> pyramid_drop_config" where
  "parse_pyramid_drop api = section_of ''pyramid_drop'' (\<lambda>t c. 
     c\<lparr>pd_enabled := t_bool api t ''enabled'' (pd_enabled c),
     pd_final_keep_ratio := find_float api t ''final_keep_ratio'' (pd_final_keep_ratio c),
     pd_drop_schedule := find_str api t ''drop_schedule'' (pd_drop_schedule c),
     pd_warmup_layers := t_int api t ''warmup_layers'' (pd_warmup_layers c),
     pd_protect_last_n_tokens := t_int api t ''protect_last_n_tokens'' (pd_protect_last_n_tokens c)\<rparr>)"

definition parse_kivi :: "toml_api \<Rightarrow> toml \<Rightarrow> kivi_config \<Rightarrow> kivi_config" where
  "parse_kivi api = section_of ''kv_kivi'' (\<lambda>t c. 
     c\<lparr>ki_enabled := t_bool api t ''enabled'' (ki_enabled c),
     ki_bits := t_int api t ''bits'' (ki_bits c),
     ki_residual_length := t_int api t ''residual_length'' (ki_residual_length c),
     ki_key_granularity := find_str api t ''key_granularity'' (ki_key_granularity c),
     ki_value_granularity := find_str api t ''value_granularity'' (ki_value_granularity c),
     ki_pre_rope_keys := t_bool api t ''pre_rope_keys'' (ki_pre_rope_keys c)\<rparr>)"

definition parse_vq :: "toml_api \<Rightarrow> toml \<Rightarrow> vq_config \<Rightarrow> vq_config" where
  "parse_vq api = section_of ''kv_vq'' (\<lambda>t c. 
     c\<lparr>vq_enabled := t_bool api t ''enabled'' (vq_enabled c),
     vq_codebook_size := t_int api t ''codebook_size'' (vq_codebook_size c),
     vq_update_rate := find_float api t ''update_rate'' (vq_update_rate c),
     vq_residual_depth := t_int api t ''residual_depth'' (vq_residual_depth c),
     vq_outlier_tracing := t_bool api t ''outlier_tracing'' (vq_outlier_tracing c),
     vq_calibration_text := find_str api t ''calibration_text'' (vq_calibration_text c),
     vq_disable_in_subcalls := t_bool api t ''disable_in_subcalls'' (vq_disable_in_subcalls c)\<rparr>)"

definition parse_compression :: "toml_api \<Rightarrow> toml \<Rightarrow> compression_config \<Rightarrow> compression_config" where
  "parse_compression api = section_of ''compression'' (\<lambda>t c. 
     c\<lparr>cp_enabled := t_bool api t ''enabled'' (cp_enabled c),
     cp_pipeline := find_str api t ''pipeline'' (cp_pipeline c),
     cp_presis := parse_presis api t (cp_presis c),
     cp_tome := parse_tome api t (cp_tome c),
     cp_fastv := parse_fastv api t (cp_fastv c),
     cp_pyramid_drop := parse_pyramid_drop api t (cp_pyramid_drop c),
     cp_kv_kivi := parse_kivi api t (cp_kv_kivi c),
     cp_kv_vq := parse_vq api t (cp_kv_vq c)\<rparr>)"

definition parse_rlm :: "toml_api \<Rightarrow> toml \<Rightarrow> rlm_config \<Rightarrow> rlm_config" where
  "parse_rlm api = section_of ''recursive_lm'' (\<lambda>t c. 
     c\<lparr>rm_enabled := t_bool api t ''enabled'' (rm_enabled c),
     rm_chunk_size_tokens := t_int api t ''chunk_size_tokens'' (rm_chunk_size_tokens c),
     rm_chunk_overlap_tokens := t_int api t ''chunk_overlap_tokens'' (rm_chunk_overlap_tokens c),
     rm_summary_tokens_per_chunk := t_int api t ''summary_tokens_per_chunk'' (rm_summary_tokens_per_chunk c),
     rm_max_hierarchy_depth := t_int api t ''max_hierarchy_depth'' (rm_max_hierarchy_depth c),
     rm_chunk_cache_enabled := t_bool api t ''chunk_cache_enabled'' (rm_chunk_cache_enabled c)\<rparr>)"

definition parse_reasoning :: "toml_api \<Rightarrow> toml \<Rightarrow> reasoning_config \<Rightarrow> reasoning_config" where
  "parse_reasoning api = section_of ''reasoning'' (\<lambda>t c. 
     c\<lparr>rs_format := t_str api t ''format'' (rs_format c),
     rs_enable_thinking := t_bool api t ''enable_thinking'' (rs_enable_thinking c)\<rparr>)"

definition parse_inference :: "toml_api \<Rightarrow> toml \<Rightarrow> inference_config \<Rightarrow> inference_config" where
  "parse_inference api = section_of ''inference'' (\<lambda>t c. 
     c\<lparr>inf_backend := find_str api t ''backend'' (inf_backend c),
     inf_context_size := t_int api t ''context_size'' (inf_context_size c),
     inf_batch_size := t_int api t ''batch_size'' (inf_batch_size c),
     inf_ubatch_size := t_int api t ''ubatch_size'' (inf_ubatch_size c),
     inf_threads := t_int api t ''threads'' (inf_threads c),
     inf_flash_attention := t_bool api t ''flash_attention'' (inf_flash_attention c),
     inf_mmap := t_bool api t ''mmap'' (inf_mmap c),
     inf_mlock := t_bool api t ''mlock'' (inf_mlock c),
     inf_numa := find_str api t ''numa'' (inf_numa c),
     inf_kv_cache := parse_kv_cache api t (inf_kv_cache c),
     inf_cuda := parse_cuda_inference api t (inf_cuda c),
     inf_cuda_engine := parse_cuda_engine api t (inf_cuda_engine c),
     inf_batching := parse_batching api t (inf_batching c),
     inf_compression := parse_compression api t (inf_compression c),
     inf_rlm := parse_rlm api t (inf_rlm c),
     inf_reasoning := parse_reasoning api t (inf_reasoning c)\<rparr>)"

definition parse_sampling :: "toml_api \<Rightarrow> toml \<Rightarrow> sampling_config \<Rightarrow> sampling_config" where
  "parse_sampling api = section_of ''sampling'' (\<lambda>t c. 
     c\<lparr>smp_temperature := find_float api t ''temperature'' (smp_temperature c),
     smp_top_p := find_float api t ''top_p'' (smp_top_p c),
     smp_top_k := t_int api t ''top_k'' (smp_top_k c),
     smp_min_p := find_float api t ''min_p'' (smp_min_p c),
     smp_repeat_penalty := find_float api t ''repeat_penalty'' (smp_repeat_penalty c),
     smp_frequency_penalty := find_float api t ''frequency_penalty'' (smp_frequency_penalty c),
     smp_presence_penalty := find_float api t ''presence_penalty'' (smp_presence_penalty c),
     smp_max_tokens := t_int api t ''max_tokens'' (smp_max_tokens c),
     smp_seed := t_int api t ''seed'' (smp_seed c),
     smp_stop := t_strs api t ''stop'' (smp_stop c)\<rparr>)"

definition parse_logging :: "toml_api \<Rightarrow> toml \<Rightarrow> logging_config \<Rightarrow> logging_config" where
  "parse_logging api = section_of ''logging'' (\<lambda>t c. 
     c\<lparr>lg_level := find_str api t ''level'' (lg_level c),
     lg_format := find_str api t ''format'' (lg_format c),
     lg_file := find_str api t ''file'' (lg_file c),
     lg_timestamps := t_bool api t ''timestamps'' (lg_timestamps c),
     lg_source_location := t_bool api t ''source_location'' (lg_source_location c)\<rparr>)"

definition parse_gpu :: "toml_api \<Rightarrow> toml \<Rightarrow> gpu_device_config \<Rightarrow> gpu_device_config" where
  "parse_gpu api = section_of ''gpu'' (\<lambda>t c. 
     c\<lparr>gd_enabled := t_bool api t ''enabled'' (gd_enabled c),
     gd_device_id := t_int api t ''device_id'' (gd_device_id c),
     gd_name_hint := find_str api t ''name_hint'' (gd_name_hint c),
     gd_vram_capacity_gb := find_float api t ''vram_capacity_gb'' (gd_vram_capacity_gb c),
     gd_backend_api := find_str api t ''backend_api'' (gd_backend_api c)\<rparr>)"

definition parse_offload :: "toml_api \<Rightarrow> toml \<Rightarrow> offload_config \<Rightarrow> offload_config" where
  "parse_offload api = section_of ''offload'' (\<lambda>t c. 
     c\<lparr>of_use_gpu_vram := t_bool api t ''use_gpu_vram'' (of_use_gpu_vram c),
     of_use_system_ram := t_bool api t ''use_system_ram'' (of_use_system_ram c),
     of_use_shared_memory := t_bool api t ''use_shared_memory'' (of_use_shared_memory c),
     of_gpu_layers := t_int api t ''gpu_layers'' (of_gpu_layers c),
     of_vram_budget_fraction := find_float api t ''vram_budget_fraction'' (of_vram_budget_fraction c)\<rparr>)"

definition parse_guardrails :: "toml_api \<Rightarrow> toml \<Rightarrow> guardrails_config \<Rightarrow> guardrails_config" where
  "parse_guardrails api = section_of ''guardrails'' (\<lambda>t c. 
     c\<lparr>gr_preset := find_str api t ''preset'' (gr_preset c),
     gr_max_model_size_gb := find_float api t ''max_model_size_gb'' (gr_max_model_size_gb c),
     gr_allow_overcommit := t_bool api t ''allow_overcommit'' (gr_allow_overcommit c),
     gr_ram_fraction_limit := find_float api t ''ram_fraction_limit'' (gr_ram_fraction_limit c),
     gr_vram_fraction_limit := find_float api t ''vram_fraction_limit'' (gr_vram_fraction_limit c)\<rparr>)"

definition parse_hardware :: "toml_api \<Rightarrow> toml \<Rightarrow> hardware_config \<Rightarrow> hardware_config" where
  "parse_hardware api = section_of ''hardware'' (\<lambda>t c. 
     c\<lparr>hw_cpu_threads := t_int api t ''cpu_threads'' (hw_cpu_threads c),
     hw_cpu_affinity := t_ints api t ''cpu_affinity'' (hw_cpu_affinity c),
     hw_max_ram_gb := find_float api t ''max_ram_gb'' (hw_max_ram_gb c),
     hw_resource_monitor_interval_ms := t_int api t ''resource_monitor_interval_ms'' (hw_resource_monitor_interval_ms c),
     hw_gpu := parse_gpu api t (hw_gpu c),
     hw_offload := parse_offload api t (hw_offload c),
     hw_guardrails := parse_guardrails api t (hw_guardrails c)\<rparr>)"

definition parse_harmony :: "toml_api \<Rightarrow> toml \<Rightarrow> harmony_config \<Rightarrow> harmony_config" where
  "parse_harmony api = section_of ''harmony'' (\<lambda>t c. 
     c\<lparr>hm_enabled := t_bool api t ''enabled'' (hm_enabled c),
     hm_version := find_str api t ''version'' (hm_version c)\<rparr>)"

definition parse_extension :: "toml_api \<Rightarrow> toml \<Rightarrow> runtime_extension_config" where
  "parse_extension api item = (let c = default_runtime_extension in
     c\<lparr>rx_name := find_str api item ''name'' (rx_name c),
       rx_enabled := t_bool api item ''enabled'' (rx_enabled c),
       rx_version := find_str api item ''version'' (rx_version c)\<rparr>)"

definition parse_runtime_extensions ::
  "toml_api \<Rightarrow> toml \<Rightarrow> runtime_extension_config list \<Rightarrow> runtime_extension_config list" where
  "parse_runtime_extensions api = section_of ''extensions'' (\<lambda>arr out.
     case arr of TArray items \<Rightarrow> out @ map (parse_extension api) items | _ \<Rightarrow> out)"

definition parse_runtime :: "toml_api \<Rightarrow> toml \<Rightarrow> runtime_config \<Rightarrow> runtime_config" where
  "parse_runtime api = section_of ''runtime'' (\<lambda>t c. 
     c\<lparr>rt_engine := find_str api t ''engine'' (rt_engine c),
     rt_engine_version := find_str api t ''engine_version'' (rt_engine_version c),
     rt_auto_update := t_bool api t ''auto_update'' (rt_auto_update c),
     rt_update_channel := find_str api t ''update_channel'' (rt_update_channel c),
     rt_harmony := parse_harmony api t (rt_harmony c),
     rt_extensions := parse_runtime_extensions api t (rt_extensions c)\<rparr>)"

text \<open>The recursive flattener of [plugins.settings]. \<open>as_table\<close> is iterated in the order of the
  entries; arrays and other values are skipped.\<close>

definition join_key :: "string \<Rightarrow> string \<Rightarrow> string" where
  "join_key pfx k = (if pfx = [] then k else pfx @ ''.'' @ k)"

fun walk :: "toml_api \<Rightarrow> string \<Rightarrow> toml \<Rightarrow> (string \<rightharpoonup> string) \<Rightarrow> (string \<rightharpoonup> string)"
  and walk_entries ::
    "toml_api \<Rightarrow> string \<Rightarrow> (string \<times> toml) list \<Rightarrow> (string \<rightharpoonup> string) \<Rightarrow> (string \<rightharpoonup> string)"
  and walk_value :: "toml_api \<Rightarrow> string \<Rightarrow> toml \<Rightarrow> (string \<rightharpoonup> string) \<Rightarrow> (string \<rightharpoonup> string)" where
  "walk api pfx (TTable es) m = walk_entries api pfx es m"
| "walk api pfx _ m = m"
| "walk_entries api pfx [] m = m"
| "walk_entries api pfx ((k, v) # es) m =
     walk_entries api pfx es (walk_value api (join_key pfx k) v m)"
| "walk_value api full (TString x) m = m(full \<mapsto> resolve_secrets (t_env api) x)"
| "walk_value api full (TInteger i) m = m(full \<mapsto> show_int i)"
| "walk_value api full (TBoolean b) m = m(full \<mapsto> (if b then ''true'' else ''false''))"
| "walk_value api full (TFloating x) m = m(full \<mapsto> t_show_float api x)"
| "walk_value api full (TTable es) m = walk_entries api full es m"
| "walk_value api full (TArray xs) m = m"
| "walk_value api full TOther m = m"

definition parse_settings :: "toml_api \<Rightarrow> toml \<Rightarrow> (string \<rightharpoonup> string) \<Rightarrow> (string \<rightharpoonup> string)" where
  "parse_settings api = section_of ''settings'' (\<lambda>st out. walk api [] st out)"

definition parse_plugins :: "toml_api \<Rightarrow> toml \<Rightarrow> plugin_config \<Rightarrow> plugin_config" where
  "parse_plugins api = section_of ''plugins'' (\<lambda>t c. 
     c\<lparr>pl_enabled := t_bool api t ''enabled'' (pl_enabled c),
     pl_python_path := find_str api t ''python_path'' (pl_python_path c),
     pl_plugin_dirs := t_strs api t ''plugin_dirs'' (pl_plugin_dirs c),
     pl_socket_path := find_str api t ''socket_path'' (pl_socket_path c),
     pl_sidecar_timeout_ms := t_int api t ''sidecar_timeout_ms'' (pl_sidecar_timeout_ms c),
     pl_restart_on_crash := t_bool api t ''restart_on_crash'' (pl_restart_on_crash c),
     pl_max_restart_attempts := t_int api t ''max_restart_attempts'' (pl_max_restart_attempts c),
     pl_data_dir := find_str api t ''data_dir'' (pl_data_dir c),
     pl_tool_max_rounds := t_int api t ''tool_max_rounds'' (pl_tool_max_rounds c),
     pl_context_split_enabled := t_bool api t ''context_split_enabled'' (pl_context_split_enabled c),
     pl_context_split_strategy := t_str api t ''context_split_strategy'' (pl_context_split_strategy c),
     pl_context_split_trigger_fraction := find_float api t ''context_split_trigger_fraction'' (pl_context_split_trigger_fraction c),
     pl_context_split_truncate_fraction := find_float api t ''context_split_truncate_fraction'' (pl_context_split_truncate_fraction c),
     pl_context_split_auto_chunk_fraction := find_float api t ''context_split_auto_chunk_fraction'' (pl_context_split_auto_chunk_fraction c),
     pl_context_split_chunk_tokens := t_int api t ''context_split_chunk_tokens'' (pl_context_split_chunk_tokens c),
     pl_context_split_max_chunks := t_int api t ''context_split_max_chunks'' (pl_context_split_max_chunks c),
     pl_context_split_summary_tokens := t_int api t ''context_split_summary_tokens'' (pl_context_split_summary_tokens c),
     pl_settings := parse_settings api t (pl_settings c)\<rparr>)"

section \<open>Profiles\<close>

definition apply_local_cpu :: "truellm_config \<Rightarrow> truellm_config" where
  "apply_local_cpu cfg = cfg\<lparr>
     tc_server := (tc_server cfg)\<lparr>sv_max_concurrent := 2\<rparr>,
     tc_inference := (tc_inference cfg)\<lparr>inf_backend := ''cpu'', inf_context_size := 4096,
       inf_threads := 0, inf_mmap := True, inf_mlock := False\<rparr>,
     tc_sampling := (tc_sampling cfg)\<lparr>smp_max_tokens := 1024\<rparr>,
     tc_hardware := (tc_hardware cfg)\<lparr>hw_guardrails :=
       (hw_guardrails (tc_hardware cfg))\<lparr>gr_preset := ''balanced''\<rparr>\<rparr>,
     tc_runtime := (tc_runtime cfg)\<lparr>rt_engine := ''cpu-llama-cpp''\<rparr>,
     tc_logging := (tc_logging cfg)\<lparr>lg_level := ''info'', lg_format := ''text''\<rparr>\<rparr>"

definition apply_workstation :: "truellm_config \<Rightarrow> truellm_config" where
  "apply_workstation cfg = cfg\<lparr>
     tc_server := (tc_server cfg)\<lparr>sv_max_concurrent := 4\<rparr>,
     tc_inference := (tc_inference cfg)\<lparr>inf_backend := ''cuda'', inf_context_size := 8192,
       inf_threads := 0, inf_flash_attention := True\<rparr>,
     tc_hardware := (tc_hardware cfg)\<lparr>
       hw_gpu := (hw_gpu (tc_hardware cfg))\<lparr>gd_enabled := True\<rparr>,
       hw_offload := (hw_offload (tc_hardware cfg))\<lparr>of_use_gpu_vram := True,
         of_use_system_ram := True, of_gpu_layers := -1\<rparr>,
       hw_guardrails := (hw_guardrails (tc_hardware cfg))\<lparr>gr_preset := ''balanced''\<rparr>\<rparr>,
     tc_runtime := (tc_runtime cfg)\<lparr>rt_engine := ''cuda12-llama-cpp''\<rparr>,
     tc_logging := (tc_logging cfg)\<lparr>lg_level := ''info'', lg_format := ''text''\<rparr>\<rparr>"

definition apply_server :: "truellm_config \<Rightarrow> truellm_config" where
  "apply_server cfg = cfg\<lparr>
     tc_server := (tc_server cfg)\<lparr>sv_host := ''0.0.0.0'', sv_max_concurrent := 8\<rparr>,
     tc_inference := (tc_inference cfg)\<lparr>inf_backend := ''cuda'', inf_context_size := 32768,
       inf_threads := 0, inf_flash_attention := True, inf_mlock := True\<rparr>,
     tc_hardware := (tc_hardware cfg)\<lparr>hw_guardrails :=
       (hw_guardrails (tc_hardware cfg))\<lparr>gr_preset := ''strict''\<rparr>\<rparr>,
     tc_runtime := (tc_runtime cfg)\<lparr>rt_engine := ''cuda12-llama-cpp''\<rparr>,
     tc_logging := (tc_logging cfg)\<lparr>lg_level := ''warn'', lg_format := ''json'',
       lg_timestamps := True\<rparr>\<rparr>"

definition apply_profile :: "truellm_config \<Rightarrow> string \<Rightarrow> truellm_config" where
  "apply_profile cfg preset_name =
     (if preset_name = ''local-cpu'' then apply_local_cpu cfg
      else if preset_name = ''workstation'' then apply_workstation cfg
      else if preset_name = ''server'' then apply_server cfg
      else cfg)\<lparr>tc_profile := preset_name\<rparr>"

definition is_known_profile :: "string \<Rightarrow> bool" where
  "is_known_profile name \<longleftrightarrow> name = ''local-cpu'' \<or> name = ''workstation'' \<or> name = ''server''"

section \<open>Validation and loading\<close>

definition not_recognised :: "string \<Rightarrow> string \<Rightarrow> string \<Rightarrow> string" where
  "not_recognised key v options =
     key @ '' '' @ [char_of (39 :: nat)] @ v @ [char_of (39 :: nat)] @ '' is not recognised ('' @
     options @ '')''"

definition port_message :: string where
  "port_message = ''server.port must be 1'' @ map char_of [0xE2, 0x80, 0x93 :: nat] @ ''65535''"

definition validate :: "truellm_config \<Rightarrow> string" where
  "validate cfg =
     (if sv_port (tc_server cfg) = 0 then port_message
      else if sv_request_timeout_ms (tc_server cfg) < 0
      then ''server.request_timeout_ms must be >= 0''
      else if sv_max_concurrent (tc_server cfg) < 1 then ''server.max_concurrent must be >= 1''
      else if inf_context_size (tc_inference cfg) < 0
      then ''inference.context_size must be >= 0''
      else if inf_batch_size (tc_inference cfg) < 1 then ''inference.batch_size must be >= 1''
      else if inf_backend (tc_inference cfg) \<notin> {''cpu'', ''ggml'', ''cuda''}
      then not_recognised ''inference.backend'' (inf_backend (tc_inference cfg)) ''cpu|ggml|cuda''
      else if kc_type_k (inf_kv_cache (tc_inference cfg)) \<notin> {''f16'', ''q8_0'', ''q4_0''}
      then not_recognised ''inference.kv_cache.type_k''
             (kc_type_k (inf_kv_cache (tc_inference cfg))) ''f16|q8_0|q4_0''
      else if kc_type_v (inf_kv_cache (tc_inference cfg)) \<notin> {''f16'', ''q8_0'', ''q4_0''}
      then not_recognised ''inference.kv_cache.type_v''
             (kc_type_v (inf_kv_cache (tc_inference cfg))) ''f16|q8_0|q4_0''
      else if smp_temperature (tc_sampling cfg) < 0 then ''sampling.temperature must be >= 0.0''
      else if smp_top_p (tc_sampling cfg) < 0 \<or> smp_top_p (tc_sampling cfg) > 1
      then ''sampling.top_p must be in [0.0, 1.0]''
      else if smp_max_tokens (tc_sampling cfg) < 1 then ''sampling.max_tokens must be >= 1''
      else if lg_level (tc_logging cfg) \<notin> {''trace'', ''debug'', ''info'', ''warn'', ''error''}
      then not_recognised ''logging.level'' (lg_level (tc_logging cfg)) ''trace|debug|info|warn|error''
      else if lg_format (tc_logging cfg) \<notin> {''text'', ''json''}
      then not_recognised ''logging.format'' (lg_format (tc_logging cfg)) ''text|json''
      else if gr_preset (hw_guardrails (tc_hardware cfg)) \<notin>
                {''off'', ''relaxed'', ''balanced'', ''strict'', ''custom''}
      then not_recognised ''hardware.guardrails.preset''
             (gr_preset (hw_guardrails (tc_hardware cfg))) ''off|relaxed|balanced|strict|custom''
      else if of_vram_budget_fraction (hw_offload (tc_hardware cfg)) < 0 \<or>
              of_vram_budget_fraction (hw_offload (tc_hardware cfg)) > 1
      then ''hardware.offload.vram_budget_fraction must be in [0.0, 1.0]''
      else if rt_engine (tc_runtime cfg) \<notin>
                {''cpu-llama-cpp'', ''cuda12-llama-cpp'', ''cuda-llama-cpp'', ''vulkan-llama-cpp''}
      then not_recognised ''runtime.engine'' (rt_engine (tc_runtime cfg))
             ''cpu-llama-cpp|cuda12-llama-cpp|cuda-llama-cpp|vulkan-llama-cpp''
      else if rt_update_channel (tc_runtime cfg) \<notin> {''stable'', ''nightly''}
      then not_recognised ''runtime.update_channel'' (rt_update_channel (tc_runtime cfg))
             ''stable|nightly''
      else [])"

text \<open>Step 3 of \<open>load\<close>: the profile key of the file. \<open>toml::find<std::string>\<close> throws on another
  type.\<close>

definition file_profile :: "toml \<Rightarrow> truellm_config \<Rightarrow> cfg_error + truellm_config" where
  "file_profile doc cfg =
     (if contains doc ''profile'' then
        (case toml_find doc ''profile'' of
           TString p \<Rightarrow> Inr (if p \<noteq> [] then apply_profile cfg p else cfg)
         | _ \<Rightarrow> Inl TypeError)
      else Inr cfg)"

definition overlay :: "toml_api \<Rightarrow> toml \<Rightarrow> truellm_config \<Rightarrow> truellm_config" where
  "overlay api doc cfg = cfg\<lparr>
     tc_server := parse_server api doc (tc_server cfg),
     tc_model := parse_model api doc (tc_model cfg),
     tc_inference := parse_inference api doc (tc_inference cfg),
     tc_sampling := parse_sampling api doc (tc_sampling cfg),
     tc_logging := parse_logging api doc (tc_logging cfg),
     tc_hardware := parse_hardware api doc (tc_hardware cfg),
     tc_runtime := parse_runtime api doc (tc_runtime cfg),
     tc_plugins := parse_plugins api doc (tc_plugins cfg)\<rparr>"

definition load_config :: "toml_api \<Rightarrow> string \<Rightarrow> string \<Rightarrow> cfg_error + truellm_config" where
  "load_config api path profile_override =
     (let cfg = (if profile_override \<noteq> [] then apply_profile default_truellm profile_override
                 else default_truellm)
      in case t_parse api path of
           None \<Rightarrow> Inl ParseError
         | Some doc \<Rightarrow>
             (case (if profile_override = [] then file_profile doc cfg else Inr cfg) of
                Inl err \<Rightarrow> Inl err
              | Inr cfg1 \<Rightarrow>
                  let cfg2 = overlay api doc cfg1; err = validate cfg2
                  in if err \<noteq> [] then Inl (ValidationError (''[config] Validation error: '' @ err))
                     else Inr cfg2))"

section \<open>Start-up\<close>

text \<open>The command line of \<open>main\<close>, the checks CLI11 is told to make, and the overrides.\<close>

record cli_options =
  cli_config_path :: string
  cli_profile :: string
  cli_backend :: string
  cli_model_path :: string
  cli_host :: string
  cli_port :: int
  cli_verbose :: bool

definition cli_checks :: "cli_options \<Rightarrow> bool" where
  "cli_checks o' \<longleftrightarrow>
     (is_known_profile (cli_profile o') \<or> cli_profile o' = []) \<and>
     (cli_backend o' = [] \<or> cli_backend o' \<in> {''cpu'', ''ggml'', ''cuda''}) \<and>
     (cli_port o' = 0 \<or> (1 \<le> cli_port o' \<and> cli_port o' \<le> 65535))"

definition apply_overrides :: "cli_options \<Rightarrow> truellm_config \<Rightarrow> truellm_config" where
  "apply_overrides o' cfg =
     (let cfg = (if cli_backend o' \<noteq> [] then cfg\<lparr>tc_inference :=
                   (tc_inference cfg)\<lparr>inf_backend := cli_backend o'\<rparr>\<rparr> else cfg);
          cfg = (if cli_model_path o' \<noteq> [] then cfg\<lparr>tc_model :=
                   (tc_model cfg)\<lparr>md_path := cli_model_path o'\<rparr>\<rparr> else cfg);
          cfg = (if cli_host o' \<noteq> [] then cfg\<lparr>tc_server :=
                   (tc_server cfg)\<lparr>sv_host := cli_host o'\<rparr>\<rparr> else cfg)
      in if cli_port o' > 0 then cfg\<lparr>tc_server :=
           (tc_server cfg)\<lparr>sv_port := cast_u16 (cli_port o')\<rparr>\<rparr> else cfg)"

datatype log_level = LvTrace | LvDebug | LvInfo | LvWarn | LvError

definition startup_log_level :: "cli_options \<Rightarrow> truellm_config \<Rightarrow> log_level" where
  "startup_log_level o' cfg =
     (if cli_verbose o' then LvDebug
      else let lvl = lg_level (tc_logging cfg)
           in if lvl = ''trace'' then LvTrace else if lvl = ''debug'' then LvDebug
              else if lvl = ''warn'' then LvWarn else if lvl = ''error'' then LvError else LvInfo)"

definition startup_config :: "toml_api \<Rightarrow> cli_options \<Rightarrow> cfg_error + truellm_config" where
  "startup_config api o' =
     (case load_config api (cli_config_path o') (cli_profile o') of
        Inl err \<Rightarrow> Inl err
      | Inr cfg \<Rightarrow> Inr (apply_overrides o' cfg))"

text \<open>\<open>create_engine\<close>: which engine a backend name selects, by whether the CUDA engine is
  compiled in. \<^const>\<open>None\<close> is the exception.\<close>

datatype engine_kind = Ggml_Engine | Cuda_Engine

definition create_engine :: "bool \<Rightarrow> inference_config \<Rightarrow> engine_kind option" where
  "create_engine has_cuda inf_cfg =
     (if inf_backend inf_cfg = ''cpu'' \<or> inf_backend inf_cfg = ''ggml'' then Some Ggml_Engine
      else if inf_backend inf_cfg = ''cuda'' then Some (if has_cuda then Cuda_Engine else Ggml_Engine)
      else None)"

end
