(* ===== verification/Config_Startup.thy ===== *)
theory Config_Startup
  imports Config_Properties
begin

text \<open>
  What a successful start-up guarantees, what the validation does not look at, the substitution
  of secrets, and the flattening of the plugin settings.
\<close>

section \<open>Start-up\<close>

lemma parse_server_port:
  "0 \<le> sv_port c \<and> sv_port c \<le> 65535 \<Longrightarrow>
   0 \<le> sv_port (parse_server api v c) \<and> sv_port (parse_server api v c) \<le> 65535"
  by (auto simp: parse_server_def section_of_def cast_u16_def)

lemma load_result:
  assumes "load_config api path prof = Inr cfg"
  shows "validate cfg = [] \<and> (\<exists>doc cfg1. t_parse api path = Some doc \<and> cfg = overlay api doc cfg1 \<and>
    (cfg1 = default_truellm \<or> (\<exists>p. cfg1 = apply_profile default_truellm p)))"
  using load_parses [OF assms] load_overlay [OF assms] by blast

lemma profile_cuda_engine:
  "inf_cuda_engine (tc_inference (apply_profile cfg name)) = inf_cuda_engine (tc_inference cfg)"
  by (simp add: apply_profile_def apply_local_cpu_def apply_workstation_def apply_server_def)

lemma start_values:
  assumes "cfg1 = default_truellm \<or> (\<exists>p. cfg1 = apply_profile default_truellm p)"
  shows "sv_port (tc_server cfg1) = 8080"
    and "\<not> ce_use_megakernel (inf_cuda_engine (tc_inference cfg1))"
    and "\<not> ce_megakernel_save_attn (inf_cuda_engine (tc_inference cfg1))"
    and "\<not> ce_megakernel_save_hidden (inf_cuda_engine (tc_inference cfg1))"
  using assms
  by (auto simp only: profile_port profile_cuda_engine) (simp_all add: default_values default_cuda_engine_def)

lemma load_port:
  assumes "load_config api path prof = Inr cfg"
  shows "1 \<le> sv_port (tc_server cfg) \<and> sv_port (tc_server cfg) \<le> 65535"
proof -
  obtain doc cfg1 where v: "validate cfg = []" and c: "cfg = overlay api doc cfg1"
    and "cfg1 = default_truellm \<or> (\<exists>p. cfg1 = apply_profile default_truellm p)"
    using load_result [OF assms] by blast
  then have "sv_port (tc_server cfg1) = 8080" using start_values by blast
  then have "0 \<le> sv_port (tc_server cfg) \<and> sv_port (tc_server cfg) \<le> 65535"
    using parse_server_port [of "tc_server cfg1"] by (simp add: c overlay_def)
  moreover have "sv_port (tc_server cfg) \<noteq> 0" using v by (simp add: validate_iff)
  ultimately show ?thesis by linarith
qed

text \<open>When start-up succeeds with options that passed the command-line checks, an engine exists
  for the selected backend, the port is a TCP port, and the numeric limits the server and the
  scheduler start from are positive.\<close>

theorem startup_safe:
  assumes "startup_config api opts = Inr cfg" and "cli_checks opts"
  shows "create_engine has_cuda (tc_inference cfg) \<noteq> None \<and>
    1 \<le> sv_port (tc_server cfg) \<and> sv_port (tc_server cfg) \<le> 65535 \<and>
    1 \<le> sv_max_concurrent (tc_server cfg) \<and> 1 \<le> inf_batch_size (tc_inference cfg) \<and>
    0 \<le> inf_context_size (tc_inference cfg) \<and> 1 \<le> smp_max_tokens (tc_sampling cfg)"
proof -
  obtain cfg0 where l: "load_config api (cli_config_path opts) (cli_profile opts) = Inr cfg0"
    and c: "cfg = apply_overrides opts cfg0"
    using assms(1) by (auto simp: startup_config_def split: sum.splits)
  have v: "validate cfg0 = []" using load_result [OF l] by blast
  have b: "inf_backend (tc_inference cfg) \<in> {''cpu'', ''ggml'', ''cuda''}"
  proof (cases "cli_backend opts = []")
    case True
    then have "inf_backend (tc_inference cfg) = inf_backend (tc_inference cfg0)"
      by (simp add: c apply_overrides_def Let_def)
    with v show ?thesis unfolding validate_iff by presburger
  next
    case False
    then have "inf_backend (tc_inference cfg) = cli_backend opts"
      by (simp add: c apply_overrides_def Let_def)
    with False assms(2) show ?thesis unfolding cli_checks_def by presburger
  qed
  have p: "1 \<le> sv_port (tc_server cfg) \<and> sv_port (tc_server cfg) \<le> 65535"
    using load_port [OF l] assms(2)
    by (auto simp: c apply_overrides_def cli_checks_def Let_def cast_u16_id)
  have "create_engine has_cuda (tc_inference cfg) \<noteq> None"
    using b by (auto simp: create_engine_def)
  with p v show ?thesis
    unfolding c validate_iff by (simp add: apply_overrides_def Let_def)
qed

definition demo_options :: cli_options where
  "demo_options = \<lparr>cli_config_path = ''truellm.toml'', cli_profile = [], cli_backend = ''ggml'',
     cli_model_path = [], cli_host = [], cli_port = 9000, cli_verbose = False\<rparr>"

theorem startup_safe_witness:
  "\<exists>cfg. startup_config (demo_api (Some backend_doc) Map.empty) demo_options = Inr cfg \<and>
     create_engine False (tc_inference cfg) \<noteq> None \<and> sv_port (tc_server cfg) = 9000"
proof -
  let ?c = "apply_overrides demo_options (default_truellm\<lparr>tc_inference :=
      default_inference\<lparr>inf_backend := ''cuda''\<rparr>\<rparr>)"
  have s: "startup_config (demo_api (Some backend_doc) Map.empty) demo_options = Inr ?c"
    by (simp add: startup_config_def demo_options_def backend_doc_load)
  have "cli_checks demo_options" by (simp add: cli_checks_def demo_options_def)
  from startup_safe [OF s this] have "create_engine False (tc_inference ?c) \<noteq> None" by blast
  moreover have "sv_port (tc_server ?c) = 9000"
    by (simp add: apply_overrides_def demo_options_def cast_u16_def Let_def)
  ultimately show ?thesis using s by blast
qed

text \<open>A port in the file is reduced modulo 65536 before it is validated, so a port outside the
  TCP range is not rejected: the server listens on another port.\<close>

theorem port_wraps:
  assumes "find_or_laws api" and "load_config api path prof = Inr cfg"
    and "t_parse api path = Some doc"
    and "file_value doc ''server'' ''port'' = Some (TInteger n)" and "in_s32 n"
  shows "sv_port (tc_server cfg) = n mod 65536"
proof -
  obtain cfg1 where c: "cfg = overlay api doc cfg1" using load_overlay [OF assms(2,3)] by blast
  show ?thesis
    using file_value_int [OF assms(1,4,5)]
    by (simp add: c overlay_def parse_server_def section_of_def cast_u16_def)
qed

definition port_doc :: toml where
  "port_doc = TTable [(''server'', TTable [(''port'', TInteger 65616)])]"

lemma port_doc_sections: "contains port_doc k \<longleftrightarrow> k = ''server''"
  by (simp add: port_doc_def contains_def)

lemma port_doc_load:
  "load_config (demo_api (Some port_doc) env) path [] =
     Inr (default_truellm\<lparr>tc_server := default_server\<lparr>sv_port := 80\<rparr>\<rparr>)"
proof -
  have "parse_server (demo_api (Some port_doc) env) port_doc default_server =
      default_server\<lparr>sv_port := 80\<rparr>"
    by (simp add: parse_server_def section_of_def port_doc_def contains_def toml_find_def
        find_str_def demo_api_def resolve_no_dollar default_server_def cast_u16_def cast_s32_def)
  then have o': "overlay (demo_api (Some port_doc) env) port_doc default_truellm =
      default_truellm\<lparr>tc_server := default_server\<lparr>sv_port := 80\<rparr>\<rparr>"
    by (simp add: overlay_def port_doc_sections inference.absent model.absent sampling.absent
        logging.absent hardware.absent runtime.absent plugins.absent default_sections)
  have p: "t_parse (demo_api (Some port_doc) env) path = Some port_doc"
    by (simp add: demo_api_def)
  have "validate (default_truellm\<lparr>tc_server := default_server\<lparr>sv_port := 80\<rparr>\<rparr>) = []"
    by (simp add: validate_iff default_values)
  then show ?thesis
    by (simp add: load_config_def p file_profile_def port_doc_sections o' Let_def)
qed

theorem port_wraps_witness:
  "file_value port_doc ''server'' ''port'' = Some (TInteger 65616) \<and>
   sv_port (tc_server (default_truellm\<lparr>tc_server := default_server\<lparr>sv_port := 80\<rparr>\<rparr>)) = 80"
proof -
  have f: "file_value port_doc ''server'' ''port'' = Some (TInteger 65616)"
    by (simp add: file_value_def port_doc_def contains_def toml_find_def)
  have p: "t_parse (demo_api (Some port_doc) Map.empty) [] = Some port_doc"
    by (simp add: demo_api_def)
  show ?thesis using port_wraps [OF demo_api_laws port_doc_load p f] f by (simp add: in_s32_def)
qed

section \<open>The CUDA engine section\<close>

text \<open>No configuration file and no profile turns the decode megakernel on: the loader never reads
  its three keys, so the loaded configuration has all three flags off.\<close>

theorem megakernel_never_enabled:
  assumes "load_config api path prof = Inr cfg"
  shows "\<not> ce_use_megakernel (inf_cuda_engine (tc_inference cfg)) \<and>
    \<not> ce_megakernel_save_attn (inf_cuda_engine (tc_inference cfg)) \<and>
    \<not> ce_megakernel_save_hidden (inf_cuda_engine (tc_inference cfg))"
proof -
  obtain doc cfg1 where c: "cfg = overlay api doc cfg1"
    and d: "cfg1 = default_truellm \<or> (\<exists>p. cfg1 = apply_profile default_truellm p)"
    using load_result [OF assms] by blast
  have k: "ce_use_megakernel (parse_cuda_engine api t e) = ce_use_megakernel e"
    "ce_megakernel_save_attn (parse_cuda_engine api t e) = ce_megakernel_save_attn e"
    "ce_megakernel_save_hidden (parse_cuda_engine api t e) = ce_megakernel_save_hidden e" for t e
    by (simp_all add: parse_cuda_engine_def section_of_def)
  show ?thesis
    using start_values(2-4) [OF d]
    by (simp add: c overlay_def parse_inference_def section_of_def k)
qed

definition megakernel_doc :: toml where
  "megakernel_doc = TTable [(''inference'', TTable [(''backend'', TString ''cuda''),
     (''cuda_engine'', TTable [(''use_megakernel'', TBoolean True)])])]"

lemma megakernel_doc_load:
  "\<exists>cfg. load_config (demo_api (Some megakernel_doc) env) path [] = Inr cfg"
proof -
  let ?api = "demo_api (Some megakernel_doc) env"
  have c: "contains megakernel_doc k \<longleftrightarrow> k = ''inference''" for k
    by (simp add: megakernel_doc_def contains_def)
  have "parse_inference ?api megakernel_doc default_inference =
      default_inference\<lparr>inf_backend := ''cuda''\<rparr>"
    by (simp add: parse_inference_def section_of_def inference_parsers megakernel_doc_def contains_def
        toml_find_def find_str_def find_float_def demo_api_def resolve_no_dollar default_inference_def
        default_cuda_engine_def)
  then have o': "overlay ?api megakernel_doc default_truellm =
      default_truellm\<lparr>tc_inference := default_inference\<lparr>inf_backend := ''cuda''\<rparr>\<rparr>"
    by (simp add: overlay_def c server.absent model.absent sampling.absent
        logging.absent hardware.absent runtime.absent plugins.absent default_sections)
  have p: "t_parse ?api path = Some megakernel_doc" by (simp add: demo_api_def)
  have "validate (default_truellm\<lparr>tc_inference := default_inference\<lparr>inf_backend := ''cuda''\<rparr>\<rparr>) = []"
    by (simp add: validate_iff default_values)
  then show ?thesis by (simp add: load_config_def p file_profile_def c o' Let_def)
qed

theorem megakernel_never_enabled_witness:
  "\<exists>cfg. load_config (demo_api (Some megakernel_doc) Map.empty) [] [] = Inr cfg \<and>
     \<not> ce_use_megakernel (inf_cuda_engine (tc_inference cfg))"
  using megakernel_doc_load [of Map.empty "[]"] megakernel_never_enabled by blast

text \<open>The validation looks at no field of the CUDA engine section, and a block size of 0 in it
  makes the construction of the automatically sized KV pool divide by zero.\<close>

theorem zero_block_size_accepted:
  "validate (cfg\<lparr>tc_inference := (tc_inference cfg)\<lparr>inf_cuda_engine :=
       e\<lparr>ce_paged_kv_block_size := 0, ce_max_num_blocks := 0\<rparr>\<rparr>\<rparr>) = validate cfg \<and>
   kv_construct fl malloc_ok free_bytes junk (e\<lparr>ce_paged_kv_block_size := 0, ce_max_num_blocks := 0\<rparr>)
     layers heads hsize = Inl (KvUb DivByZero)"
proof
  have s: "tc_server (cfg\<lparr>tc_inference := i\<rparr>) = tc_server cfg"
    "tc_sampling (cfg\<lparr>tc_inference := i\<rparr>) = tc_sampling cfg"
    "tc_logging (cfg\<lparr>tc_inference := i\<rparr>) = tc_logging cfg"
    "tc_hardware (cfg\<lparr>tc_inference := i\<rparr>) = tc_hardware cfg"
    "tc_runtime (cfg\<lparr>tc_inference := i\<rparr>) = tc_runtime cfg"
    "tc_inference (cfg\<lparr>tc_inference := i\<rparr>) = i" for i by simp_all
  have i: "inf_context_size (c\<lparr>inf_cuda_engine := x\<rparr>) = inf_context_size c"
    "inf_batch_size (c\<lparr>inf_cuda_engine := x\<rparr>) = inf_batch_size c"
    "inf_backend (c\<lparr>inf_cuda_engine := x\<rparr>) = inf_backend c"
    "inf_kv_cache (c\<lparr>inf_cuda_engine := x\<rparr>) = inf_kv_cache c" for c x by simp_all
  show "validate (cfg\<lparr>tc_inference := (tc_inference cfg)\<lparr>inf_cuda_engine :=
       e\<lparr>ce_paged_kv_block_size := 0, ce_max_num_blocks := 0\<rparr>\<rparr>\<rparr>) = validate cfg"
    unfolding validate_def s i by (rule refl)
qed (simp add: kv_construct_def bytes_of_block_def auto_pool_size_def cast_s32_def Let_def)

section \<open>Secrets\<close>

text \<open>A template is literal text with environment variables between; \<open>render\<close> writes it in the
  file's notation.\<close>

datatype segment = Lit string | Var string

fun render_segment :: "segment \<Rightarrow> string" where
  "render_segment (Lit s) = s"
| "render_segment (Var n) = env_prefix @ n @ ''}''"

fun plain_segment :: "segment \<Rightarrow> bool" where
  "plain_segment (Lit s) \<longleftrightarrow> CHR ''$'' \<notin> set s"
| "plain_segment (Var n) \<longleftrightarrow> CHR ''}'' \<notin> set n"

fun segment_value :: "(string \<Rightarrow> string option) \<Rightarrow> segment \<Rightarrow> string" where
  "segment_value env (Lit s) = s"
| "segment_value env (Var n) = (case env n of None \<Rightarrow> [] | Some x \<Rightarrow> x)"

lemma find_sub_here: "c \<notin> set a \<Longrightarrow> find_sub (c # cs) (a @ (c # cs) @ b) = Some (a, b)"
  by (induction a) auto

lemma find_sub_skip:
  "c \<notin> set a \<Longrightarrow>
   find_sub (c # cs) (a @ xs) = map_option (\<lambda>(p, q). (a @ p, q)) (find_sub (c # cs) xs)"
proof (induction a)
  case Nil
  then show ?case by (simp add: option.map_ident case_prod_beta')
next
  case (Cons x a)
  then show ?case by (auto simp: option.map_comp comp_def case_prod_beta')
qed

lemma resolve_literal:
  assumes "CHR ''$'' \<notin> set a"
  shows "resolve_secrets env (a @ xs) = a @ resolve_secrets env xs"
proof -
  have "find_sub env_prefix (a @ xs) = map_option (\<lambda>(p, q). (a @ p, q)) (find_sub env_prefix xs)"
    using assms unfolding env_prefix_def by (rule find_sub_skip)
  then show ?thesis
    by (subst (1 2) resolve_secrets.simps) (auto split: option.splits)
qed

lemma resolve_variable:
  assumes "CHR ''}'' \<notin> set n"
  shows "resolve_secrets env (env_prefix @ n @ ''}'' @ xs) =
    (case env n of None \<Rightarrow> [] | Some x \<Rightarrow> x) @ resolve_secrets env xs"
proof -
  have "find_sub env_prefix (env_prefix @ n @ ''}'' @ xs) = Some ([], n @ ''}'' @ xs)"
    using find_sub_here [of "CHR ''$''" "[]" "''{ENV:''" "n @ ''}'' @ xs"] by (simp add: env_prefix_def)
  moreover have "find_sub ''}'' (n @ ''}'' @ xs) = Some (n, xs)"
    using find_sub_here [of "CHR ''}''" n "[]" xs] assms by simp
  ultimately show ?thesis by (subst resolve_secrets.simps) simp
qed

text \<open>C32: substituting secrets in a rendered template gives the literal text with every variable
  replaced by its value, an unset one by the empty string; the values themselves are not scanned
  again, so a secret that contains the notation is kept as it is.\<close>

theorem resolve_render:
  assumes "\<forall>s \<in> set segs. plain_segment s"
  shows "resolve_secrets env (concat (map render_segment segs)) = concat (map (segment_value env) segs)"
  using assms
proof (induction segs)
  case Nil
  show ?case by (simp add: resolve_no_dollar)
next
  case (Cons s segs)
  then show ?case by (cases s) (auto simp: resolve_literal resolve_variable [simplified])
qed

theorem resolve_render_witness:
  "resolve_secrets (\<lambda>n. if n = ''K'' then Some ''${ENV:H}'' else None) ''a${ENV:K}b${ENV:H}'' =
     ''a${ENV:H}b''"
  using resolve_render [of "[Lit ''a'', Var ''K'', Lit ''b'', Var ''H'']"
      "\<lambda>n. if n = ''K'' then Some ''${ENV:H}'' else None"]
  by (simp add: env_prefix_def)

end
