(* ===== verification/Config_Settings.thy ===== *)
theory Config_Settings
  imports Config
begin

text \<open>
  The flattening of [plugins.settings] into dotted keys, against its specification: a plugin that
  asks for a dotted path gets the scalar at that path of the table.
\<close>

section \<open>Plugin settings\<close>

text \<open>The specification: a setting is the scalar at a path of table keys.\<close>

fun at_path :: "toml \<Rightarrow> string list \<Rightarrow> toml option" where
  "at_path v [] = Some v"
| "at_path v (k # ks) = (case map_of (toml_entries v) k of None \<Rightarrow> None | Some w \<Rightarrow> at_path w ks)"

fun scalar_text :: "toml_api \<Rightarrow> toml \<Rightarrow> string option" where
  "scalar_text api (TString x) = Some (resolve_secrets (t_env api) x)"
| "scalar_text api (TInteger i) = Some (show_int i)"
| "scalar_text api (TBoolean b) = Some (if b then ''true'' else ''false'')"
| "scalar_text api (TFloating x) = Some (t_show_float api x)"
| "scalar_text api _ = None"

definition setting_at :: "toml_api \<Rightarrow> toml \<Rightarrow> string list \<Rightarrow> string option" where
  "setting_at api v ks = (case at_path v ks of None \<Rightarrow> None | Some w \<Rightarrow> scalar_text api w)"

fun dotted :: "string list \<Rightarrow> string" where
  "dotted [] = []"
| "dotted [k] = k"
| "dotted (k # ks) = k @ ''.'' @ dotted ks"

definition plain_key :: "string \<Rightarrow> bool" where
  "plain_key k \<longleftrightarrow> k \<noteq> [] \<and> CHR ''.'' \<notin> set k"

text \<open>Tables as TOML has them: no key twice, bare keys without dots.\<close>

fun plain_toml :: "toml \<Rightarrow> bool" where
  "plain_toml (TTable es) \<longleftrightarrow> distinct (map fst es) \<and> (\<forall>(k, v) \<in> set es. plain_key k \<and> plain_toml v)"
| "plain_toml _ \<longleftrightarrow> True"

lemma dotted_empty: "\<forall>k \<in> set ks. plain_key k \<Longrightarrow> dotted ks = [] \<longleftrightarrow> ks = []"
  by (cases ks rule: dotted.cases) (auto simp: plain_key_def)

lemma dotted_snoc:
  "\<forall>k \<in> set ps. plain_key k \<Longrightarrow> join_key (dotted ps) k = dotted (ps @ [k])"
proof (induction ps rule: dotted.induct)
  case (3 p q ps)
  then have "dotted (q # ps) \<noteq> []" by (simp add: dotted_empty)
  with 3 show ?case by (simp add: join_key_def)
qed (auto simp: join_key_def plain_key_def)

lemma dotted_head:
  "plain_key k \<Longrightarrow> takeWhile (\<lambda>c. c \<noteq> CHR ''.'') (dotted (k # ks)) = k \<and>
     drop (Suc (length k)) (dotted (k # ks)) = dotted ks"
  by (cases ks) (auto simp: plain_key_def takeWhile_eq_all_conv takeWhile_stop)

lemma dotted_inj:
  "\<forall>k \<in> set ks. plain_key k \<Longrightarrow> \<forall>k \<in> set ls. plain_key k \<Longrightarrow> dotted ks = dotted ls \<longleftrightarrow> ks = ls"
proof (induction ks arbitrary: ls)
  case Nil
  then show ?case using dotted_empty [of ls] by auto
next
  case (Cons k ks)
  show ?case
  proof (cases ls)
    case Nil
    with Cons.prems show ?thesis using dotted_empty [of "k # ks"] by simp
  next
    case (Cons l ls')
    have "k = l \<and> dotted ks = dotted ls'" if "dotted (k # ks) = dotted (l # ls')"
      using that Cons Cons.prems dotted_head [of k ks] dotted_head [of l ls'] by force
    with Cons Cons.prems Cons.IH [of ls'] show ?thesis by auto
  qed
qed

definition overlaid :: "string option \<Rightarrow> (string \<rightharpoonup> string) \<Rightarrow> string \<Rightarrow> string option" where
  "overlaid x m q = (case x of Some y \<Rightarrow> Some y | None \<Rightarrow> m q)"

definition below :: "string list \<Rightarrow> string list \<Rightarrow> string list option" where
  "below ps qs = (if take (length ps) qs = ps then Some (drop (length ps) qs) else None)"

lemma below_snoc:
  "below (ps @ [k]) qs = (case below ps qs of Some (l # ks) \<Rightarrow> if l = k then Some ks else None | _ \<Rightarrow> None)"
proof (cases "take (length ps) qs = ps")
  case True
  then obtain rs where "qs = ps @ rs" by (metis append_take_drop_id)
  then show ?thesis by (cases rs) (auto simp: below_def)
next
  case False
  then have "take (length (ps @ [k])) qs \<noteq> ps @ [k]"
    by (metis append_eq_conv_conj length_append_singleton append_same_eq butlast_snoc take_Suc_conv_app_nth
        butlast_take diff_Suc_1 length_take min.absorb_iff2 nat_le_linear take_all lessI less_imp_le)
  with False show ?thesis by (simp add: below_def)
qed

lemma below_self: "below ps qs = Some [] \<longleftrightarrow> ps = qs"
  by (auto simp: below_def)

lemma setting_at_leaf:
  "toml_entries v = [] \<Longrightarrow> setting_at api v ks = (if ks = [] then scalar_text api v else None)"
  by (cases ks) (simp_all add: setting_at_def)

lemma setting_at_table: "setting_at api (TTable es) [] = None"
  by (simp add: setting_at_def)

lemma scalar_update:
  assumes "\<forall>k \<in> set ps. plain_key k" and "\<forall>k \<in> set qs. plain_key k"
    and "toml_entries v = []" and "scalar_text api v = Some t"
  shows "(m(dotted ps \<mapsto> t)) (dotted qs) =
    (case below ps qs of Some ks \<Rightarrow> overlaid (setting_at api v ks) m (dotted qs) | _ \<Rightarrow> m (dotted qs))"
  using dotted_inj [OF assms(1,2)] assms(3,4) below_self [of ps qs]
  by (auto simp: setting_at_leaf overlaid_def split: option.splits)

lemma walk_spec:
  "\<forall>k \<in> set ps. plain_key k \<Longrightarrow> \<forall>k \<in> set qs. plain_key k \<Longrightarrow> plain_toml v \<Longrightarrow>
     walk api (dotted ps) v m (dotted qs) =
       (case below ps qs of Some (k # ks) \<Rightarrow> overlaid (setting_at api v (k # ks)) m (dotted qs)
        | _ \<Rightarrow> m (dotted qs))"
  "\<forall>k \<in> set ps. plain_key k \<Longrightarrow> \<forall>k \<in> set qs. plain_key k \<Longrightarrow> plain_toml (TTable es) \<Longrightarrow>
     walk_entries api (dotted ps) es m (dotted qs) =
       (case below ps qs of Some (k # ks) \<Rightarrow> overlaid (setting_at api (TTable es) (k # ks)) m (dotted qs)
        | _ \<Rightarrow> m (dotted qs))"
  "\<forall>k \<in> set ps. plain_key k \<Longrightarrow> \<forall>k \<in> set qs. plain_key k \<Longrightarrow> plain_toml v \<Longrightarrow>
     walk_value api (dotted ps) v m (dotted qs) =
       (case below ps qs of Some ks \<Rightarrow> overlaid (setting_at api v ks) m (dotted qs)
        | _ \<Rightarrow> m (dotted qs))"
proof (induction api "dotted ps" v m and api "dotted ps" es m and api "dotted ps" v m
    arbitrary: ps and ps and ps rule: walk_walk_entries_walk_value.induct)
  case (4 api k v es m)
  have k: "plain_key k" "plain_toml v" "plain_toml (TTable es)" "map_of es k = None"
    using "4.prems"(3) by (auto simp: map_of_eq_None_iff)
  have ps: "\<forall>x \<in> set (ps @ [k]). plain_key x" using "4.prems"(1) k by auto
  note j = dotted_snoc [OF "4.prems"(1), of k]
  show ?case
    using "4.hyps"(1) [OF j ps "4.prems"(2) k(2)]
      "4.hyps"(2) [OF refl "4.prems"(1,2) k(3), unfolded j]
    by (auto simp: j below_snoc setting_at_def overlaid_def k(4) split: list.splits option.splits)
next
  case (9 api es m)
  from "9.hyps" [OF refl "9.prems"] show ?case
    by (auto simp: setting_at_table overlaid_def split: option.splits list.splits)
qed (auto simp: scalar_update setting_at_leaf overlaid_def simp del: fun_upd_apply
    split: list.splits option.splits)

text \<open>C33: after [plugins.settings] is read, a plugin that asks for the dotted path of some keys gets
  the scalar found by following these keys through the nested tables, as text, or what was set before
  when there is none.\<close>

theorem settings_by_path:
  assumes "contains t ''settings''" and "plain_toml (toml_find t ''settings'')"
    and "ks \<noteq> []" and "\<forall>k \<in> set ks. plain_key k"
  shows "parse_settings api t m (dotted ks) =
    (case setting_at api (toml_find t ''settings'') ks of Some x \<Rightarrow> Some x | None \<Rightarrow> m (dotted ks))"
proof -
  have "walk api (dotted []) (toml_find t ''settings'') m (dotted ks) =
      (case below [] ks of Some (k # ks') \<Rightarrow>
         overlaid (setting_at api (toml_find t ''settings'') (k # ks')) m (dotted ks)
       | _ \<Rightarrow> m (dotted ks))"
    using assms(2,4) by (intro walk_spec(1)) auto
  with assms(1,3) show ?thesis
    by (cases ks) (auto simp: parse_settings_def section_of_def below_def overlaid_def
        split: option.splits)
qed

definition settings_doc :: toml where
  "settings_doc = TTable [(''settings'', TTable [
     (''rlm'', TTable [(''chunk'', TInteger 512), (''on'', TBoolean True)]), (''k'', TString ''v'')])]"

theorem settings_by_path_witness:
  "\<forall>api. parse_settings api settings_doc Map.empty ''rlm.chunk'' = Some (show_int 512) \<and>
   parse_settings api settings_doc Map.empty ''rlm'' = None"
proof
  fix api
  have d: "contains settings_doc ''settings''" "plain_toml (toml_find settings_doc ''settings'')"
    by (simp_all add: settings_doc_def contains_def toml_find_def plain_key_def)
  show "parse_settings api settings_doc Map.empty ''rlm.chunk'' = Some (show_int 512) \<and>
      parse_settings api settings_doc Map.empty ''rlm'' = None"
    using settings_by_path [OF d, of "[''rlm'', ''chunk'']" api Map.empty]
      settings_by_path [OF d, of "[''rlm'']" api Map.empty]
    by (simp add: plain_key_def setting_at_def settings_doc_def toml_find_def)
qed

end
