(* ===== verification/Plugin_Abi.thy ===== *)
theory Plugin_Abi
  imports Complex_Main Prelude
begin

text \<open>
  The plugin C ABI (\<open>include/truellm/plugin.h\<close>) and the JSON boundary. A plugin is code outside the
  repository: its callbacks are functions on a world \<open>'w\<close>, which holds the plugin's state, its heap
  and the request context; a null function pointer or C string is \<^const>\<open>None\<close>. JSON values are the
  values of the nlohmann library; parsing, printing and the typed accessors are the fields of
  \<open>json_api\<close>.
\<close>

section \<open>Errors and results\<close>

datatype trl_error =
    Err_Ok | Err_Invalid | Err_NotFound | Err_Internal | Err_Timeout | Err_Permission | Err_Abort

fun trl_error_code :: "trl_error \<Rightarrow> nat" where
  "trl_error_code Err_Ok = 0"
| "trl_error_code Err_Invalid = 1"
| "trl_error_code Err_NotFound = 2"
| "trl_error_code Err_Internal = 3"
| "trl_error_code Err_Timeout = 4"
| "trl_error_code Err_Permission = 5"
| "trl_error_code Err_Abort = 6"

record 'w tool_result =
  tr_error :: trl_error
  tr_payload :: "string option"
  tr_free :: "('w \<Rightarrow> 'w) option"

record tool_def =
  td_name :: "string option"
  td_description :: "string option"
  td_parameters :: "string option"

datatype preproc_decision = Pass | Respond | Abort

record 'w preproc_result =
  pr_decision :: preproc_decision
  pr_messages :: "string option"
  pr_response :: "string option"
  pr_free :: "('w \<Rightarrow> 'w) option"

text \<open>The plugin owns the strings of a result; the engine calls the free function once it has
  copied them.\<close>

definition call_free :: "('w \<Rightarrow> 'w) option \<Rightarrow> 'w \<Rightarrow> 'w" where
  "call_free f w = (case f of None \<Rightarrow> w | Some g \<Rightarrow> g w)"

section \<open>Providers\<close>

record 'w tool_provider =
  tp_abi :: nat
  tp_plugin_id :: "string option"
  tp_version :: "string option"
  tp_get_tools :: "('w \<Rightarrow> 'w \<times> tool_def list option) option"
  tp_call_tool :: "('w \<Rightarrow> string \<Rightarrow> string \<Rightarrow> 'w \<times> 'w tool_result) option"
  tp_destroy :: "('w \<Rightarrow> 'w) option"

record 'w preprocessor =
  pp_abi :: nat
  pp_plugin_id :: "string option"
  pp_version :: "string option"
  pp_priority :: int
  pp_preprocess :: "('w \<Rightarrow> string \<Rightarrow> 'w \<times> 'w preproc_result) option"
  pp_destroy :: "('w \<Rightarrow> 'w) option"

record 'w generator =
  gn_abi :: nat
  gn_plugin_id :: "string option"
  gn_version :: "string option"
  gn_priority :: int
  gn_claims :: "('w \<Rightarrow> string \<Rightarrow> 'w \<times> bool) option"
  gn_generate :: "('w \<Rightarrow> string \<Rightarrow> 'w \<times> 'w tool_result) option"
  gn_destroy :: "('w \<Rightarrow> 'w) option"

text \<open>\<open>c_str()\<close> handed to C code: the text up to the first NUL.\<close>

definition c_str :: "string \<Rightarrow> string" where
  "c_str s = takeWhile (\<lambda>c. c \<noteq> CHR 0x00) s"

definition or_empty :: "string option \<Rightarrow> string" where
  "or_empty s = (case s of None \<Rightarrow> [] | Some x \<Rightarrow> x)"

section \<open>JSON\<close>

datatype json =
    JNull | JBool bool | JInt int | JFloat real | JStr string | JArr "json list"
  | JObj "(string \<times> json) list"

text \<open>\<open>value(key, default)\<close> of the JSON library throws on a value that is not an object and on an
  entry of another type; a throw is \<^const>\<open>None\<close>.\<close>

record json_api =
  j_parse :: "string \<Rightarrow> json option"
  j_dump :: "json \<Rightarrow> string"
  j_str :: "json \<Rightarrow> string \<Rightarrow> string \<Rightarrow> string option"
  j_int :: "json \<Rightarrow> string \<Rightarrow> int \<Rightarrow> int option"
  j_u64 :: "json \<Rightarrow> string \<Rightarrow> nat \<Rightarrow> nat option"

fun j_contains :: "json \<Rightarrow> string \<Rightarrow> bool" where
  "j_contains (JObj kvs) k \<longleftrightarrow> map_of kvs k \<noteq> None"
| "j_contains _ k \<longleftrightarrow> False"

text \<open>The documented behaviour of the accessors the code relies on: the default for a missing key, the
  value of an entry of the right type, an exception on a null entry read as
  text, and on a value that is not an object.\<close>

definition json_laws :: "json_api \<Rightarrow> bool" where
  "json_laws api \<longleftrightarrow>
     (\<forall>kvs k. map_of kvs k = None \<longrightarrow> (\<forall>d. j_str api (JObj kvs) k d = Some d) \<and>
        (\<forall>d. j_int api (JObj kvs) k d = Some d) \<and> (\<forall>d. j_u64 api (JObj kvs) k d = Some d)) \<and>
     (\<forall>kvs k s d. map_of kvs k = Some (JStr s) \<longrightarrow> j_str api (JObj kvs) k d = Some s) \<and>
     (\<forall>kvs k i d. map_of kvs k = Some (JInt i) \<longrightarrow> 0 \<le> i \<longrightarrow> i < 2 ^ 64 \<longrightarrow>
        j_u64 api (JObj kvs) k d = Some (nat i)) \<and>
     (\<forall>kvs k d. map_of kvs k = Some JNull \<longrightarrow> j_str api (JObj kvs) k d = None) \<and>
     (\<forall>v k d. (\<forall>kvs. v \<noteq> JObj kvs) \<longrightarrow> j_str api v k d = None)"

text \<open>A concrete library.\<close>

definition demo_json :: json_api where
  "demo_json = \<lparr>j_parse = (\<lambda>s. Some (JStr s)), j_dump = (\<lambda>j. []),
     j_str = (\<lambda>v k d. case v of JObj kvs \<Rightarrow> (case map_of kvs k of None \<Rightarrow> Some d
       | Some (JStr s) \<Rightarrow> Some s | _ \<Rightarrow> None) | _ \<Rightarrow> None),
     j_int = (\<lambda>v k d. case v of JObj kvs \<Rightarrow> (case map_of kvs k of None \<Rightarrow> Some d
       | Some (JInt i) \<Rightarrow> Some i | _ \<Rightarrow> None) | _ \<Rightarrow> None),
     j_u64 = (\<lambda>v k d. case v of JObj kvs \<Rightarrow> (case map_of kvs k of None \<Rightarrow> Some d
       | Some (JInt i) \<Rightarrow> Some (nat (i mod 18446744073709551616)) | _ \<Rightarrow> None) | _ \<Rightarrow> None)\<rparr>"

lemma demo_json_laws: "json_laws (demo_json\<lparr>j_parse := p\<rparr>)"
  by (auto simp: json_laws_def demo_json_def split: json.splits)

end
