(* ===== verification/Plugin_Hooks.thy ===== *)
theory Plugin_Hooks
  imports Plugin_Abi
begin

text \<open>
  \<open>src/plugin_bridge/hooks/\<close>: the tool registry, the preprocessor chain and the generator registry.
  Every public operation runs under the registry's lock, so it is one function on the registry; the
  calls into plugins happen on a snapshot, outside the lock, and thread the world \<open>'w\<close>.
  \<open>std::stable_sort\<close> by priority is \<^const>\<open>sort_key\<close>, which is stable.
\<close>

section \<open>Tool registry\<close>

record tool_call_result =
  tcr_payload :: string
  tcr_error :: trl_error
  tcr_msg :: string

type_synonym 'w dispatch_fn = "'w \<Rightarrow> string \<Rightarrow> 'w \<times> tool_call_result"

record 'w tool_entry =
  te_plugin :: string
  te_tool :: string
  te_qualified :: string
  te_schema :: string
  te_provider :: "'w tool_provider"

record 'w remote_entry =
  re_plugin :: string
  re_tool :: string
  re_qualified :: string
  re_schema :: string
  re_fn :: "'w dispatch_fn"

record 'w tool_registry =
  tg_entries :: "'w tool_entry list"
  tg_remote :: "'w remote_entry list"
  tg_cache :: string

definition empty_tools :: "'w tool_registry" where
  "empty_tools = \<lparr>tg_entries = [], tg_remote = [], tg_cache = ''[]''\<rparr>"

definition qualified_name :: "string \<Rightarrow> string \<Rightarrow> string" where
  "qualified_name pid tool = pid @ ''.'' @ tool"

definition add_schema :: "string \<Rightarrow> string \<times> bool \<Rightarrow> string \<times> bool" where
  "add_schema s acc = ((if snd acc then fst acc else fst acc @ '','') @ s, False)"

definition rebuild_cache :: "'w tool_registry \<Rightarrow> 'w tool_registry" where
  "rebuild_cache r =
     (if tg_entries r = [] \<and> tg_remote r = [] then r\<lparr>tg_cache := ''[]''\<rparr>
      else r\<lparr>tg_cache :=
        fst (fold add_schema (map re_schema (tg_remote r))
          (fold add_schema (map te_schema (tg_entries r)) (''['', True))) @ '']''\<rparr>)"

definition tool_params :: "json_api \<Rightarrow> tool_def \<Rightarrow> json" where
  "tool_params api td =
     (case td_parameters td of
        Some p \<Rightarrow> (case j_parse api p of Some j \<Rightarrow> j | None \<Rightarrow> JObj [])
      | None \<Rightarrow> JObj [])"

definition tool_object :: "json_api \<Rightarrow> string \<Rightarrow> tool_def \<Rightarrow> json" where
  "tool_object api q td =
     JObj [(''type'', JStr ''function''),
       (''function'', JObj [(''name'', JStr q),
         (''description'', JStr (or_empty (td_description td))),
         (''parameters'', tool_params api td)])]"

fun add_tools ::
  "json_api \<Rightarrow> 'w tool_provider \<Rightarrow> string \<Rightarrow> tool_def list \<Rightarrow> 'w tool_entry list \<Rightarrow> 'w tool_entry list"
  where
  "add_tools api prov pid [] es = es"
| "add_tools api prov pid (td # tds) es =
     (case td_name td of
        None \<Rightarrow> add_tools api prov pid tds es
      | Some n \<Rightarrow> add_tools api prov pid tds
          (es @ [\<lparr>te_plugin = pid, te_tool = n, te_qualified = qualified_name pid n,
                  te_schema = j_dump api (tool_object api (qualified_name pid n) td),
                  te_provider = prov\<rparr>]))"

definition register_provider ::
  "json_api \<Rightarrow> 'w tool_provider option \<Rightarrow> 'w \<times> 'w tool_registry \<Rightarrow> 'w \<times> 'w tool_registry" where
  "register_provider api prov wr =
     (case prov of
        None \<Rightarrow> wr
      | Some p \<Rightarrow>
          (case tp_plugin_id p of
             None \<Rightarrow> wr
           | Some pid \<Rightarrow>
               (let (w, tools) = (case tp_get_tools p of
                                    Some get \<Rightarrow> get (fst wr) | None \<Rightarrow> (fst wr, None))
                in case tools of
                     None \<Rightarrow> (w, snd wr)
                   | Some tds \<Rightarrow> (w, rebuild_cache ((snd wr)\<lparr>tg_entries :=
                                   add_tools api p pid tds (tg_entries (snd wr))\<rparr>)))))"

definition register_remote ::
  "string \<Rightarrow> string \<Rightarrow> string \<Rightarrow> 'w dispatch_fn option \<Rightarrow> 'w tool_registry \<Rightarrow> 'w tool_registry" where
  "register_remote pid tool schema fn r =
     (case fn of
        None \<Rightarrow> r
      | Some f \<Rightarrow>
          if pid = [] \<or> tool = [] then r
          else rebuild_cache (r\<lparr>tg_remote := tg_remote r @
            [\<lparr>re_plugin = pid, re_tool = tool, re_qualified = qualified_name pid tool,
              re_schema = (if schema = [] then ''{}'' else schema), re_fn = f\<rparr>]\<rparr>))"

definition unregister_remote_plugin :: "string \<Rightarrow> 'w tool_registry \<Rightarrow> 'w tool_registry" where
  "unregister_remote_plugin pid r =
     rebuild_cache (r\<lparr>tg_remote := filter (\<lambda>e. re_plugin e \<noteq> pid) (tg_remote r)\<rparr>)"

definition unregister_tools :: "string \<Rightarrow> 'w tool_registry \<Rightarrow> 'w tool_registry" where
  "unregister_tools pid r =
     rebuild_cache (r\<lparr>tg_entries := filter (\<lambda>e. te_plugin e \<noteq> pid) (tg_entries r)\<rparr>)"

definition tool_count :: "'w tool_registry \<Rightarrow> nat" where
  "tool_count r = length (tg_entries r) + length (tg_remote r)"

text \<open>The lookup of \<open>dispatch\<close>: a native entry by its qualified name, then a remote one, then the
  same two by the short name.\<close>

definition tool_lookup ::
  "string \<Rightarrow> 'w tool_registry \<Rightarrow> ('w tool_entry + 'w remote_entry) option" where
  "tool_lookup q r =
     (case find (\<lambda>e. te_qualified e = q) (tg_entries r) of
        Some e \<Rightarrow> Some (Inl e)
      | None \<Rightarrow>
          (case find (\<lambda>e. re_qualified e = q) (tg_remote r) of
             Some e \<Rightarrow> Some (Inr e)
           | None \<Rightarrow>
               (case find (\<lambda>e. te_tool e = q) (tg_entries r) of
                  Some e \<Rightarrow> Some (Inl e)
                | None \<Rightarrow> map_option Inr (find (\<lambda>e. re_tool e = q) (tg_remote r)))))"

definition native_call ::
  "'w tool_entry \<Rightarrow> string \<Rightarrow> 'w \<Rightarrow> ('w \<times> tool_call_result) exec" where
  "native_call e args w =
     (case tp_call_tool (te_provider e) of
        None \<Rightarrow> Inl NullDeref
      | Some call \<Rightarrow>
          (let (w1, raw) = call w (c_str (te_tool e)) (c_str args);
               payload = or_empty (tr_payload raw); err = tr_error raw;
               w2 = call_free (tr_free raw) w1
           in if err \<noteq> Err_Ok
              then Inr (w2, \<lparr>tcr_payload = payload, tcr_error = err,
                tcr_msg = ''Tool call failed (err='' @ show_nat (trl_error_code err) @ '')''\<rparr>)
              else Inr (w2, \<lparr>tcr_payload = payload, tcr_error = Err_Ok, tcr_msg = []\<rparr>)))"

definition tool_dispatch ::
  "string \<Rightarrow> string \<Rightarrow> 'w tool_registry \<Rightarrow> 'w \<Rightarrow> ('w \<times> tool_call_result) exec" where
  "tool_dispatch q args r w =
     (case tool_lookup q r of
        None \<Rightarrow> Inr (w, \<lparr>tcr_payload = [], tcr_error = Err_NotFound,
                         tcr_msg = ''Tool not found: '' @ q\<rparr>)
      | Some (Inr e) \<Rightarrow> Inr (re_fn e w args)
      | Some (Inl e) \<Rightarrow> native_call e args w)"

section \<open>Preprocessor chain\<close>

record 'w prep_entry =
  pe_prep :: "'w preprocessor"
  pe_plugin :: string
  pe_priority :: int

definition register_preprocessor ::
  "'w preprocessor option \<Rightarrow> 'w prep_entry list \<Rightarrow> 'w prep_entry list" where
  "register_preprocessor prep es =
     (case prep of
        None \<Rightarrow> es
      | Some p \<Rightarrow>
          (case pp_plugin_id p of
             None \<Rightarrow> es
           | Some pid \<Rightarrow> sort_key pe_priority
               (es @ [\<lparr>pe_prep = p, pe_plugin = pid, pe_priority = pp_priority p\<rparr>])))"

definition unregister_preps :: "string \<Rightarrow> 'w prep_entry list \<Rightarrow> 'w prep_entry list" where
  "unregister_preps pid es = filter (\<lambda>e. pe_plugin e \<noteq> pid) es"

definition has_preprocessors :: "'w prep_entry list \<Rightarrow> bool" where
  "has_preprocessors es \<longleftrightarrow> es \<noteq> []"

record preprocess_result =
  psr_decision :: preproc_decision
  psr_messages :: string
  psr_response :: string

text \<open>One entry of the loop of \<open>run\<close>: the world, the current messages, and the result when the loop
  returns.\<close>

definition prep_step ::
  "'w prep_entry \<Rightarrow> 'w \<times> string \<Rightarrow> ('w \<times> string) \<times> preprocess_result option" where
  "prep_step e s =
     (case pp_preprocess (pe_prep e) of
        None \<Rightarrow> (s, None)
      | Some f \<Rightarrow>
          (let (w1, raw) = f (fst s) (c_str (snd s));
               mod_msgs = or_empty (pr_messages raw); resp_text = or_empty (pr_response raw);
               w2 = call_free (pr_free raw) w1;
               cur = (if mod_msgs \<noteq> [] then mod_msgs else snd s)
           in ((w2, cur),
               case pr_decision raw of
                 Pass \<Rightarrow> None
               | Respond \<Rightarrow> Some \<lparr>psr_decision = Respond, psr_messages = cur, psr_response = resp_text\<rparr>
               | Abort \<Rightarrow> Some \<lparr>psr_decision = Abort, psr_messages = [], psr_response = []\<rparr>)))"

fun run_preps ::
  "'w prep_entry list \<Rightarrow> 'w \<times> string \<Rightarrow> ('w \<times> string) \<times> preprocess_result option" where
  "run_preps [] s = (s, None)"
| "run_preps (e # es) s =
     (case prep_step e s of (s', None) \<Rightarrow> run_preps es s' | (s', Some r) \<Rightarrow> (s', Some r))"

definition run_chain ::
  "'w prep_entry list \<Rightarrow> string \<Rightarrow> 'w \<Rightarrow> 'w \<times> preprocess_result" where
  "run_chain es msgs w =
     (case run_preps es (w, msgs) of
        ((w', _), Some r) \<Rightarrow> (w', r)
      | ((w', cur), None) \<Rightarrow>
          (w', \<lparr>psr_decision = Pass, psr_messages = (if cur \<noteq> msgs then cur else []),
                psr_response = []\<rparr>))"

section \<open>Generator registry\<close>

record 'w gen_entry =
  ge_gen :: "'w generator"
  ge_plugin :: string
  ge_priority :: int

record gen_outcome =
  go_claimed :: bool
  go_ok :: bool
  go_text :: string
  go_plugin :: string
  go_error :: trl_error
  go_msg :: string

definition no_outcome :: gen_outcome where
  "no_outcome = \<lparr>go_claimed = False, go_ok = False, go_text = [], go_plugin = [],
     go_error = Err_Ok, go_msg = []\<rparr>"

definition register_generator ::
  "'w generator option \<Rightarrow> 'w gen_entry list \<Rightarrow> 'w gen_entry list" where
  "register_generator gen es =
     (case gen of
        None \<Rightarrow> es
      | Some g \<Rightarrow>
          (case gn_plugin_id g of
             None \<Rightarrow> es
           | Some pid \<Rightarrow> sort_key ge_priority
               (es @ [\<lparr>ge_gen = g, ge_plugin = pid, ge_priority = gn_priority g\<rparr>])))"

definition unregister_gens :: "string \<Rightarrow> 'w gen_entry list \<Rightarrow> 'w gen_entry list" where
  "unregister_gens pid es = filter (\<lambda>e. ge_plugin e \<noteq> pid) es"

definition has_generators :: "'w gen_entry list \<Rightarrow> bool" where
  "has_generators es \<longleftrightarrow> es \<noteq> []"

fun gen_claims :: "'w gen_entry list \<Rightarrow> string \<Rightarrow> 'w \<Rightarrow> 'w \<times> bool" where
  "gen_claims [] msgs w = (w, False)"
| "gen_claims (e # es) msgs w =
     (case gn_claims (ge_gen e) of
        None \<Rightarrow> gen_claims es msgs w
      | Some f \<Rightarrow> (case f w (c_str msgs) of
                     (w', True) \<Rightarrow> (w', True)
                   | (w', False) \<Rightarrow> gen_claims es msgs w'))"

definition gen_outcome_of :: "string \<Rightarrow> 'w tool_result \<Rightarrow> gen_outcome" where
  "gen_outcome_of pid tr =
     (case (tr_error tr, tr_payload tr) of
        (Err_Ok, Some text) \<Rightarrow> no_outcome\<lparr>go_claimed := True, go_plugin := pid, go_ok := True,
                                  go_text := text\<rparr>
      | (err, Some msg) \<Rightarrow> no_outcome\<lparr>go_claimed := True, go_plugin := pid, go_error := err,
                                  go_msg := msg\<rparr>
      | (err, None) \<Rightarrow> no_outcome\<lparr>go_claimed := True, go_plugin := pid, go_error := err,
                                  go_msg := ''generator returned no payload''\<rparr>)"

fun gen_dispatch :: "'w gen_entry list \<Rightarrow> string \<Rightarrow> 'w \<Rightarrow> 'w \<times> gen_outcome" where
  "gen_dispatch [] msgs w = (w, no_outcome)"
| "gen_dispatch (e # es) msgs w =
     (case (gn_claims (ge_gen e), gn_generate (ge_gen e)) of
        (Some f, Some g) \<Rightarrow>
          (case f w (c_str msgs) of
             (w1, False) \<Rightarrow> gen_dispatch es msgs w1
           | (w1, True) \<Rightarrow>
               (let (w2, tr) = g w1 (c_str msgs)
                in (call_free (tr_free tr) w2, gen_outcome_of (ge_plugin e) tr)))
      | _ \<Rightarrow> gen_dispatch es msgs w)"

end
