(* ===== verification/Plugin_Registries.thy ===== *)
theory Plugin_Registries
  imports Plugin_Hooks
begin

text \<open>
  Correctness of the hook registries. The removal contract shared by all four entry lists and the
  priority contract of the two chains are locales; their clients' facts (what is left after a
  removal, the order after any history of registrations) are proved once there.
\<close>

section \<open>Removal of a plugin's entries\<close>

locale plugin_registry =
  fixes entries :: "'r \<Rightarrow> 'e list"
    and owner :: "'e \<Rightarrow> string"
    and remove :: "string \<Rightarrow> 'r \<Rightarrow> 'r"
  assumes remove_entries: "entries (remove pid r) = filter (\<lambda>e. owner e \<noteq> pid) (entries r)"
begin

lemma none_left: "\<forall>e \<in> set (entries (remove pid r)). owner e \<noteq> pid"
  by (simp add: remove_entries)

lemma others_kept:
  "filter (\<lambda>e. owner e = q) (entries (remove pid r)) =
     (if q = pid then [] else filter (\<lambda>e. owner e = q) (entries r))"
  by (auto simp: remove_entries filter_empty_conv intro: filter_cong)

lemma remove_again: "entries (remove pid (remove pid r)) = entries (remove pid r)"
  by (simp add: remove_entries)

lemma remove_commutes: "entries (remove p (remove q r)) = entries (remove q (remove p r))"
  by (simp add: remove_entries conj_commute)

end

lemma rebuild_frame [simp]:
  "tg_entries (rebuild_cache r) = tg_entries r" "tg_remote (rebuild_cache r) = tg_remote r"
  by (simp_all add: rebuild_cache_def)

interpretation native: plugin_registry tg_entries te_plugin unregister_tools
  by unfold_locales (simp add: unregister_tools_def)

interpretation remote: plugin_registry tg_remote re_plugin unregister_remote_plugin
  by unfold_locales (simp add: unregister_remote_plugin_def)

section \<open>Priority order\<close>

text \<open>The specification: the entries still registered, in the order of their registration.\<close>

datatype 'p registry_op = Register 'p | Unregister string

fun run_ops ::
  "('p \<Rightarrow> 'r \<Rightarrow> 'r) \<Rightarrow> (string \<Rightarrow> 'r \<Rightarrow> 'r) \<Rightarrow> 'p registry_op list \<Rightarrow> 'r \<Rightarrow> 'r" where
  "run_ops add remove [] r = r"
| "run_ops add remove (Register p # ops) r = run_ops add remove ops (add p r)"
| "run_ops add remove (Unregister q # ops) r = run_ops add remove ops (remove q r)"

fun live_entries ::
  "('p \<Rightarrow> 'e option) \<Rightarrow> ('e \<Rightarrow> string) \<Rightarrow> 'p registry_op list \<Rightarrow> 'e list \<Rightarrow> 'e list" where
  "live_entries entry owner [] es = es"
| "live_entries entry owner (Register p # ops) es =
     live_entries entry owner ops (case entry p of None \<Rightarrow> es | Some e \<Rightarrow> es @ [e])"
| "live_entries entry owner (Unregister q # ops) es =
     live_entries entry owner ops (filter (\<lambda>e. owner e \<noteq> q) es)"

locale priority_registry = plugin_registry entries owner remove
  for entries :: "'r \<Rightarrow> 'e list" and owner :: "'e \<Rightarrow> string" and remove :: "string \<Rightarrow> 'r \<Rightarrow> 'r" +
  fixes prio :: "'e \<Rightarrow> int"
    and entry :: "'p \<Rightarrow> 'e option"
    and add :: "'p \<Rightarrow> 'r \<Rightarrow> 'r"
  assumes add_nothing: "entry p = None \<Longrightarrow> entries (add p r) = entries r"
    and add_mset: "entry p = Some e \<Longrightarrow> mset (entries (add p r)) = add_mset e (mset (entries r))"
    and add_sorted: "entry p = Some e \<Longrightarrow> sorted (map prio (entries (add p r)))"
    and add_stable: "entry p = Some e \<Longrightarrow>
      filter (\<lambda>x. prio x = k) (entries (add p r)) = filter (\<lambda>x. prio x = k) (entries r @ [e])"
begin

lemma add_sort:
  assumes "entry p = Some e"
  shows "entries (add p r) = sort_key prio (entries r @ [e])"
proof (rule properties_for_sort_key [symmetric])
  show "mset (entries (add p r)) = mset (entries r @ [e])" using add_mset [OF assms] by simp
  show "filter (\<lambda>x. prio k = prio x) (entries (add p r)) =
      filter (\<lambda>x. prio k = prio x) (entries r @ [e])" for k
    using add_stable [OF assms, of "prio k"] by (simp add: eq_commute [of "prio k"])
  show "sorted (map prio (entries (add p r)))" by (rule add_sorted [OF assms])
qed

lemma sort_sorted_snoc: "sort_key prio (sort_key prio xs @ [e]) = sort_key prio (xs @ [e])"
proof (rule properties_for_sort_key)
  show "mset (sort_key prio (xs @ [e])) = mset (sort_key prio xs @ [e])" by simp
  show "filter (\<lambda>x. prio k = prio x) (sort_key prio (xs @ [e])) =
      filter (\<lambda>x. prio k = prio x) (sort_key prio xs @ [e])" for k
    using sort_key_stable [of prio "prio k" "xs @ [e]"] sort_key_stable [of prio "prio k" xs]
    by (simp add: eq_commute [of "prio k"])
qed simp

theorem history:
  "entries r = sort_key prio xs \<Longrightarrow>
   entries (run_ops add remove ops r) = sort_key prio (live_entries entry owner ops xs)"
proof (induction ops arbitrary: r xs)
  case Nil
  then show ?case by simp
next
  case (Cons op ops)
  show ?case
  proof (cases op)
    case (Register p)
    show ?thesis
    proof (cases "entry p")
      case None
      with Cons Register show ?thesis by (simp add: add_nothing)
    next
      case (Some e)
      then have "entries (add p r) = sort_key prio (xs @ [e])"
        by (simp add: add_sort Cons.prems sort_sorted_snoc)
      with Cons.IH Register Some show ?thesis by simp
    qed
  next
    case (Unregister q)
    have "entries (remove q r) = sort_key prio (filter (\<lambda>e. owner e \<noteq> q) xs)"
      by (simp add: remove_entries Cons.prems filter_sort)
    with Cons.IH Unregister show ?thesis by simp
  qed
qed

end

definition prep_entry_of :: "'w preprocessor option \<Rightarrow> 'w prep_entry option" where
  "prep_entry_of prep = (case prep of None \<Rightarrow> None | Some p \<Rightarrow>
     map_option (\<lambda>pid. \<lparr>pe_prep = p, pe_plugin = pid, pe_priority = pp_priority p\<rparr>) (pp_plugin_id p))"

definition gen_entry_of :: "'w generator option \<Rightarrow> 'w gen_entry option" where
  "gen_entry_of gen = (case gen of None \<Rightarrow> None | Some g \<Rightarrow>
     map_option (\<lambda>pid. \<lparr>ge_gen = g, ge_plugin = pid, ge_priority = gn_priority g\<rparr>) (gn_plugin_id g))"

lemma register_preprocessor_entry:
  "register_preprocessor p es =
     (case prep_entry_of p of None \<Rightarrow> es | Some e \<Rightarrow> sort_key pe_priority (es @ [e]))"
  by (auto simp: register_preprocessor_def prep_entry_of_def split: option.splits)

lemma register_generator_entry:
  "register_generator g es =
     (case gen_entry_of g of None \<Rightarrow> es | Some e \<Rightarrow> sort_key ge_priority (es @ [e]))"
  by (auto simp: register_generator_def gen_entry_of_def split: option.splits)

interpretation preps: priority_registry "\<lambda>es. es" pe_plugin unregister_preps pe_priority
    prep_entry_of register_preprocessor
  by unfold_locales
    (simp_all add: register_preprocessor_entry unregister_preps_def sort_key_stable)

interpretation gens: priority_registry "\<lambda>es. es" ge_plugin unregister_gens ge_priority
    gen_entry_of register_generator
  by unfold_locales (simp_all add: register_generator_entry unregister_gens_def sort_key_stable)

text \<open>C34: after any history of registrations and removals the preprocessor chain and the generator
  registry hold exactly the entries still registered, by ascending priority and, within a priority, in
  the order of their registration.\<close>

theorem chains_in_priority_order:
  "run_ops register_preprocessor unregister_preps preps [] =
     sort_key pe_priority (live_entries prep_entry_of pe_plugin preps []) \<and>
   run_ops register_generator unregister_gens gens [] =
     sort_key ge_priority (live_entries gen_entry_of ge_plugin gens [])"
  using preps.history [of "[]" "[]" preps] gens.history [of "[]" "[]" gens] by simp

section \<open>Running the chains\<close>

lemma run_preps_append:
  "run_preps (xs @ ys) s =
     (case run_preps xs s of (s', None) \<Rightarrow> run_preps ys s' | (s', Some r) \<Rightarrow> (s', Some r))"
  by (induction xs arbitrary: s) (auto split: prod.splits option.splits)

lemma run_preps_first:
  "run_preps es s = (s', Some r) \<Longrightarrow>
   \<exists>xs e ys s1. es = xs @ e # ys \<and> run_preps xs s = (s1, None) \<and> prep_step e s1 = (s', Some r)"
proof (induction es arbitrary: s)
  case Nil
  then show ?case by simp
next
  case (Cons e es)
  obtain s1 q where p: "prep_step e s = (s1, q)" by fastforce
  show ?case
  proof (cases q)
    case None
    with Cons.prems p have "run_preps es s1 = (s', Some r)" by simp
    then obtain xs e' ys s2 where h: "es = xs @ e' # ys" "run_preps xs s1 = (s2, None)"
        "prep_step e' s2 = (s', Some r)"
      using Cons.IH by blast
    then have "run_preps (e # xs) s = (s2, None)" using p None by simp
    with h show ?thesis by (metis append_Cons)
  next
    case (Some x)
    with Cons.prems p have "s1 = s'" "x = r" by simp_all
    then have "run_preps [] s = (s, None) \<and> prep_step e s = (s', Some r)" using p Some by simp
    then show ?thesis by blast
  qed
qed

lemma prep_step_result:
  "prep_step e s = (s', Some r) \<Longrightarrow> psr_decision r \<noteq> Pass \<and>
     (psr_decision r = Abort \<longrightarrow> psr_messages r = [] \<and> psr_response r = []) \<and>
     (psr_decision r = Respond \<longrightarrow> psr_messages r = snd s')"
  by (auto simp: prep_step_def Let_def split: option.splits prod.splits preproc_decision.splits)

text \<open>The chain stops at the first preprocessor that does not pass: those before it all passed,
  its own call produced the result, those after it are not called, so the outcome is the same whatever
  is registered behind it; an abort carries no text.\<close>

theorem chain_stops_at_first:
  assumes "run_chain es msgs w = (w', r)" and "psr_decision r \<noteq> Pass"
  shows "\<exists>xs e ys s1 s2. es = xs @ e # ys \<and> run_preps xs (w, msgs) = (s1, None) \<and>
    prep_step e s1 = (s2, Some r) \<and> w' = fst s2 \<and>
    (\<forall>zs. run_chain (xs @ e # zs) msgs w = (w', r)) \<and>
    (psr_decision r = Abort \<longrightarrow> psr_messages r = [] \<and> psr_response r = [])"
proof -
  obtain s2 where s2: "run_preps es (w, msgs) = (s2, Some r)" "w' = fst s2"
    using assms by (auto simp: run_chain_def split: prod.splits option.splits)
  obtain xs e ys s1 where h: "es = xs @ e # ys" "run_preps xs (w, msgs) = (s1, None)"
      "prep_step e s1 = (s2, Some r)"
    using run_preps_first [OF s2(1)] by blast
  have "run_chain (xs @ e # zs) msgs w = (w', r)" for zs
    using h s2(2) by (simp add: run_chain_def run_preps_append split: prod.split)
  then show ?thesis using h s2(2) prep_step_result [OF h(3)] by blast
qed

definition demo_prep :: "preproc_decision \<Rightarrow> string \<Rightarrow> nat preprocessor" where
  "demo_prep d name = \<lparr>pp_abi = 1, pp_plugin_id = Some name, pp_version = None, pp_priority = 0,
     pp_preprocess = Some (\<lambda>w m. (w + 1, \<lparr>pr_decision = d, pr_messages = Some (m @ name),
       pr_response = None, pr_free = None\<rparr>)), pp_destroy = None\<rparr>"

definition demo_chain :: "nat prep_entry list" where
  "demo_chain = map (\<lambda>(d, n). \<lparr>pe_prep = demo_prep d n, pe_plugin = n, pe_priority = 0\<rparr>)
     [(Pass, ''a''), (Respond, ''b''), (Abort, ''c'')]"

theorem chain_stops_at_first_witness:
  "\<exists>r xs e ys. run_chain demo_chain ''m'' 0 = (2, r) \<and> psr_decision r = Respond \<and>
     demo_chain = xs @ e # ys \<and>
     run_chain (xs @ [e]) ''m'' 0 = (2, \<lparr>psr_decision = Respond, psr_messages = ''mab'', psr_response = []\<rparr>)"
proof -
  have r: "run_chain demo_chain ''m'' 0 =
      (2, \<lparr>psr_decision = Respond, psr_messages = ''mab'', psr_response = []\<rparr>)"
    by (simp add: run_chain_def demo_chain_def demo_prep_def prep_step_def or_empty_def call_free_def
        c_str_def Let_def)
  then show ?thesis using chain_stops_at_first [OF r] by auto
qed

text \<open>The generator registry claims a request exactly when dispatching it finds a generator, as
  long as every registered generator that can claim can also generate.\<close>

theorem claims_agrees_with_dispatch:
  assumes "\<forall>e \<in> set es. gn_claims (ge_gen e) \<noteq> None \<longrightarrow> gn_generate (ge_gen e) \<noteq> None"
  shows "snd (gen_claims es msgs w) = go_claimed (snd (gen_dispatch es msgs w))"
  using assms
proof (induction es arbitrary: w)
  case Nil
  then show ?case by (simp add: no_outcome_def)
next
  case (Cons e es)
  have o': "go_claimed (gen_outcome_of p tr)" for p and tr :: "'a tool_result"
    by (auto simp: gen_outcome_of_def no_outcome_def split: option.splits trl_error.splits)
  from Cons show ?case
    by (auto simp: o' split: option.splits prod.splits bool.splits)
qed

definition demo_gen :: "nat gen_entry" where
  "demo_gen = \<lparr>ge_gen = \<lparr>gn_abi = 1, gn_plugin_id = Some ''g'', gn_version = None, gn_priority = 0,
     gn_claims = Some (\<lambda>w m. (w, m = ''hi'')), gn_generate = Some (\<lambda>w m. (w + 1,
       \<lparr>tr_error = Err_Ok, tr_payload = Some ''ok'', tr_free = Some (\<lambda>w. w + 1)\<rparr>)),
     gn_destroy = None\<rparr>, ge_plugin = ''g'', ge_priority = 0\<rparr>"

theorem claims_agrees_with_dispatch_witness:
  "go_claimed (snd (gen_dispatch [demo_gen] ''hi'' 0)) \<and>
   \<not> go_claimed (snd (gen_dispatch [demo_gen] ''no'' 0))"
  using claims_agrees_with_dispatch [of "[demo_gen]" "''hi''" 0]
    claims_agrees_with_dispatch [of "[demo_gen]" "''no''" 0]
  by (simp add: demo_gen_def c_str_def)

end
