(* ===== verification/Tool_Registry.thy ===== *)
theory Tool_Registry
  imports Plugin_Registries
begin

text \<open>
  The tool registry: its schema cache is always the list of its entries, and by plugin and tool name
  it is a finite map. \<open>abs_native\<close> and \<open>abs_remote\<close> are the abstract maps.
\<close>

section \<open>The schema cache\<close>

datatype 'w tool_op =
    Reg_Native "'w tool_provider option"
  | Reg_Remote string string string "'w dispatch_fn option"
  | Unreg_Native string
  | Unreg_Remote string

fun tool_op_step :: "json_api \<Rightarrow> 'w tool_op \<Rightarrow> 'w \<times> 'w tool_registry \<Rightarrow> 'w \<times> 'w tool_registry" where
  "tool_op_step api (Reg_Native p) wr = register_provider api p wr"
| "tool_op_step api (Reg_Remote pid t s f) wr = (fst wr, register_remote pid t s f (snd wr))"
| "tool_op_step api (Unreg_Native pid) wr = (fst wr, unregister_tools pid (snd wr))"
| "tool_op_step api (Unreg_Remote pid) wr = (fst wr, unregister_remote_plugin pid (snd wr))"

fun comma_list :: "string list \<Rightarrow> string" where
  "comma_list [] = []"
| "comma_list (s # ss) = s @ concat (map (\<lambda>x. CHR '','' # x) ss)"

definition schemas :: "'w tool_registry \<Rightarrow> string list" where
  "schemas r = map te_schema (tg_entries r) @ map re_schema (tg_remote r)"

definition named_ok :: "'w tool_registry \<Rightarrow> bool" where
  "named_ok r \<longleftrightarrow>
     (\<forall>e \<in> set (tg_entries r). te_qualified e = qualified_name (te_plugin e) (te_tool e)) \<and>
     (\<forall>e \<in> set (tg_remote r). re_qualified e = qualified_name (re_plugin e) (re_tool e))"

definition tools_inv :: "'w tool_registry \<Rightarrow> bool" where
  "tools_inv r \<longleftrightarrow> tg_cache r = ''['' @ comma_list (schemas r) @ '']'' \<and> named_ok r"

lemma add_schema_later:
  "fold add_schema ss (acc, False) = (acc @ concat (map (\<lambda>x. CHR '','' # x) ss), False)"
  by (induction ss arbitrary: acc) (simp_all add: add_schema_def)

lemma add_schema_all: "fst (fold add_schema ss (acc, True)) = acc @ comma_list ss"
  by (cases ss) (simp_all add: add_schema_def [of _ "(acc, True)"] add_schema_later)

lemma rebuild_inv: "named_ok r \<Longrightarrow> tools_inv (rebuild_cache r)"
proof -
  assume n: "named_ok r"
  have "fst (fold add_schema (map re_schema (tg_remote r))
          (fold add_schema (map te_schema (tg_entries r)) (''['', True))) =
        ''['' @ comma_list (schemas r)"
    using add_schema_all [of "schemas r" "''[''"] by (simp add: schemas_def)
  with n show ?thesis
    by (auto simp: tools_inv_def rebuild_cache_def schemas_def named_ok_def)
qed

lemma add_tools_named:
  "\<forall>e \<in> set es. te_qualified e = qualified_name (te_plugin e) (te_tool e) \<Longrightarrow>
   \<forall>e \<in> set (add_tools api p pid tds es). te_qualified e = qualified_name (te_plugin e) (te_tool e)"
  by (induction api p pid tds es rule: add_tools.induct) (auto split: option.splits)

lemma tool_op_inv: "tools_inv (snd wr) \<Longrightarrow> tools_inv (snd (tool_op_step api op wr))"
proof (cases op)
  case (Reg_Native p)
  assume i: "tools_inv (snd wr)"
  have "named_ok ((snd wr)\<lparr>tg_entries := add_tools api q pid tds (tg_entries (snd wr))\<rparr>)" for q pid tds
    using i add_tools_named [of "tg_entries (snd wr)"] by (simp add: tools_inv_def named_ok_def)
  then show ?thesis
    using i rebuild_inv
    by (auto simp: Reg_Native register_provider_def split: option.splits prod.splits)
next
  case (Reg_Remote pid t s f)
  assume i: "tools_inv (snd wr)"
  have "named_ok ((snd wr)\<lparr>tg_remote := tg_remote (snd wr) @ [\<lparr>re_plugin = pid, re_tool = t,
      re_qualified = qualified_name pid t, re_schema = x, re_fn = g\<rparr>]\<rparr>)" for x g
    using i by (simp add: tools_inv_def named_ok_def)
  with i rebuild_inv show ?thesis
    by (auto simp: Reg_Remote register_remote_def split: option.splits)
next
  case (Unreg_Native pid)
  assume "tools_inv (snd wr)"
  then show ?thesis
    unfolding Unreg_Native tool_op_step.simps snd_conv unregister_tools_def
    by (intro rebuild_inv) (simp add: tools_inv_def named_ok_def)
next
  case (Unreg_Remote pid)
  assume "tools_inv (snd wr)"
  then show ?thesis
    unfolding Unreg_Remote tool_op_step.simps snd_conv unregister_remote_plugin_def
    by (intro rebuild_inv) (simp add: tools_inv_def named_ok_def)
qed

lemma tools_inv_run: "tools_inv (snd wr) \<Longrightarrow> tools_inv (snd (fold (tool_op_step api) ops wr))"
  by (induction ops arbitrary: wr) (simp_all add: tool_op_inv)

lemma tools_inv_empty: "tools_inv empty_tools"
  by (simp add: tools_inv_def empty_tools_def schemas_def named_ok_def)

lemma tools_inv_from_empty: "tools_inv (snd (fold (tool_op_step api) ops (w, empty_tools)))"
  by (rule tools_inv_run) (simp add: tools_inv_empty)

text \<open>After any sequence of registrations and removals of native and remote tools, the cached
  schema text is the JSON array of exactly the schemas of the registered tools, native ones first,
  each in the order of its registration.\<close>

theorem schemas_cache_exact:
  "tg_cache (snd (fold (tool_op_step api) ops (w, empty_tools))) =
     ''['' @ comma_list (schemas (snd (fold (tool_op_step api) ops (w, empty_tools)))) @ '']''"
  by (rule conjunct1 [OF tools_inv_from_empty [unfolded tools_inv_def]])

section \<open>The registry as a map\<close>

definition dotfree :: "string \<Rightarrow> bool" where
  "dotfree s \<longleftrightarrow> CHR ''.'' \<notin> set s"

definition names_plain :: "'w tool_registry \<Rightarrow> bool" where
  "names_plain r \<longleftrightarrow> named_ok r \<and>
     (\<forall>e \<in> set (tg_entries r). dotfree (te_plugin e) \<and> dotfree (te_tool e)) \<and>
     (\<forall>e \<in> set (tg_remote r). dotfree (re_plugin e) \<and> dotfree (re_tool e))"

definition abs_native :: "'w tool_registry \<Rightarrow> string \<times> string \<Rightarrow> 'w tool_entry option" where
  "abs_native r k = find (\<lambda>e. te_plugin e = fst k \<and> te_tool e = snd k) (tg_entries r)"

definition abs_remote :: "'w tool_registry \<Rightarrow> string \<times> string \<Rightarrow> 'w remote_entry option" where
  "abs_remote r k = find (\<lambda>e. re_plugin e = fst k \<and> re_tool e = snd k) (tg_remote r)"

lemma qualified_inj:
  "dotfree p \<Longrightarrow> dotfree q \<Longrightarrow> qualified_name p t = qualified_name q u \<longleftrightarrow> p = q \<and> t = u"
  by (simp add: qualified_name_def dotfree_def split_at_char)

lemma qualified_not_short: "dotfree u \<Longrightarrow> u \<noteq> qualified_name p t"
  by (auto simp: dotfree_def qualified_name_def)

lemma find_eq: "(\<And>x. x \<in> set xs \<Longrightarrow> P x = Q x) \<Longrightarrow> find P xs = find Q xs"
  by (induction xs) auto

lemma find_none: "(\<And>x. x \<in> set xs \<Longrightarrow> \<not> P x) \<Longrightarrow> find P xs = None"
  by (auto simp: find_None_iff)

lemma find_other_owner:
  "find (\<lambda>e. own e = q \<and> P e) (filter (\<lambda>e. own e \<noteq> p) xs) =
     (if q = p then None else find (\<lambda>e. own e = q \<and> P e) xs)"
  by (induction xs) auto

lemma find_snoc:
  "find P (xs @ [x]) = (case find P xs of Some y \<Rightarrow> Some y | None \<Rightarrow> if P x then Some x else None)"
  by (induction xs) auto

text \<open>C35: on names without dots the registry is a pair of maps from plugin and tool to an entry, the
  native one overriding the remote one. Dispatching by qualified name looks the entry up there, never
  falling back to another plugin's tool; a remote registration adds an absent key and never replaces a
  present one; unregistering a plugin removes exactly its keys, of its kind.\<close>

theorem tool_registry_refines_map:
  assumes "names_plain r" and "dotfree p"
  shows "tool_lookup (qualified_name p t) r =
      (case abs_native r (p, t) of Some e \<Rightarrow> Some (Inl e) | None \<Rightarrow> map_option Inr (abs_remote r (p, t))) \<and>
    abs_native (unregister_tools p r) = (\<lambda>k. if fst k = p then None else abs_native r k) \<and>
    abs_remote (unregister_tools p r) = abs_remote r \<and>
    abs_remote (unregister_remote_plugin p r) = (\<lambda>k. if fst k = p then None else abs_remote r k) \<and>
    abs_native (unregister_remote_plugin p r) = abs_native r \<and>
    (\<forall>s f. p \<noteq> [] \<longrightarrow> t \<noteq> [] \<longrightarrow>
       abs_native (register_remote p t s (Some f) r) = abs_native r \<and>
       abs_remote (register_remote p t s (Some f) r) = (\<lambda>k. if k = (p, t) \<and> abs_remote r k = None
         then Some \<lparr>re_plugin = p, re_tool = t, re_qualified = qualified_name p t,
                    re_schema = (if s = [] then ''{}'' else s), re_fn = f\<rparr>
         else abs_remote r k))"
proof (intro conjI)
  have n: "find (\<lambda>e. te_qualified e = qualified_name p t) (tg_entries r) = abs_native r (p, t)"
    and m: "find (\<lambda>e. re_qualified e = qualified_name p t) (tg_remote r) = abs_remote r (p, t)"
    unfolding abs_native_def abs_remote_def fst_conv snd_conv
    using assms by (intro find_eq; auto simp: names_plain_def named_ok_def qualified_inj)+
  have s: "find (\<lambda>e. te_tool e = qualified_name p t) (tg_entries r) = None"
    "find (\<lambda>e. re_tool e = qualified_name p t) (tg_remote r) = None"
    using assms by (intro find_none; auto simp: names_plain_def qualified_not_short)+
  show "tool_lookup (qualified_name p t) r = (case abs_native r (p, t) of
      Some e \<Rightarrow> Some (Inl e) | None \<Rightarrow> map_option Inr (abs_remote r (p, t)))"
    by (simp add: tool_lookup_def n m s split: option.splits)
  show "abs_native (unregister_tools p r) = (\<lambda>k. if fst k = p then None else abs_native r k)"
    by (auto simp: fun_eq_iff abs_native_def native.remove_entries find_other_owner)
  show "abs_remote (unregister_remote_plugin p r) = (\<lambda>k. if fst k = p then None else abs_remote r k)"
    by (auto simp: fun_eq_iff abs_remote_def remote.remove_entries find_other_owner)
  show "abs_remote (unregister_tools p r) = abs_remote r"
    by (simp add: fun_eq_iff abs_remote_def unregister_tools_def)
  show "abs_native (unregister_remote_plugin p r) = abs_native r"
    by (simp add: fun_eq_iff abs_native_def unregister_remote_plugin_def)
  show "\<forall>s f. p \<noteq> [] \<longrightarrow> t \<noteq> [] \<longrightarrow>
       abs_native (register_remote p t s (Some f) r) = abs_native r \<and>
       abs_remote (register_remote p t s (Some f) r) = (\<lambda>k. if k = (p, t) \<and> abs_remote r k = None
         then Some \<lparr>re_plugin = p, re_tool = t, re_qualified = qualified_name p t,
                    re_schema = (if s = [] then ''{}'' else s), re_fn = f\<rparr>
         else abs_remote r k)"
    by (auto simp: fun_eq_iff abs_native_def abs_remote_def register_remote_def find_snoc
        split: option.splits)
qed

definition demo_tools :: "nat tool_registry" where
  "demo_tools = register_remote ''web'' ''fetch'' [] (Some (\<lambda>w a.
     (w + 1, \<lparr>tcr_payload = a, tcr_error = Err_Ok, tcr_msg = []\<rparr>))) empty_tools"

theorem tool_registry_refines_map_witness:
  "tool_dispatch ''web.fetch'' ''x'' demo_tools 0 =
     Inr (1, \<lparr>tcr_payload = ''x'', tcr_error = Err_Ok, tcr_msg = []\<rparr>) \<and>
   tool_lookup ''web.fetch'' (unregister_remote_plugin ''web'' demo_tools) = None"
proof -
  have d: "names_plain demo_tools" "names_plain (unregister_remote_plugin ''web'' demo_tools)"
    by (simp_all add: names_plain_def named_ok_def demo_tools_def register_remote_def empty_tools_def
        dotfree_def unregister_remote_plugin_def)
  have w: "dotfree ''web''" by (simp add: dotfree_def)
  show ?thesis
    using tool_registry_refines_map [OF d(1) w, of "''fetch''"]
      tool_registry_refines_map [OF d(2) w, of "''fetch''"]
    by (simp add: qualified_name_def tool_dispatch_def abs_native_def abs_remote_def demo_tools_def
        register_remote_def empty_tools_def unregister_remote_plugin_def)
qed

text \<open>A registered native tool whose provider has no \<open>call_tool\<close> is advertised and found, and
  dispatching it calls a null function pointer.\<close>

theorem null_call_tool_dispatched:
  assumes "tool_lookup q r = Some (Inl e)" and "tp_call_tool (te_provider e) = None"
  shows "te_schema e \<in> set (schemas r) \<and> tool_dispatch q args r w = Inl NullDeref"
proof
  have "e \<in> set (tg_entries r)"
    using assms(1) by (auto simp: tool_lookup_def find_Some_iff split: option.splits)
  then show "te_schema e \<in> set (schemas r)" by (simp add: schemas_def)
qed (use assms in \<open>simp add: tool_dispatch_def native_call_def\<close>)

definition null_provider :: "nat tool_provider" where
  "null_provider = \<lparr>tp_abi = 1, tp_plugin_id = Some ''p'', tp_version = None,
     tp_get_tools = Some (\<lambda>w. (w, Some [\<lparr>td_name = Some ''t'', td_description = None,
       td_parameters = None\<rparr>])), tp_call_tool = None, tp_destroy = None\<rparr>"

theorem null_call_tool_dispatched_witness:
  "tool_dispatch ''p.t'' [] (snd (register_provider demo_json (Some null_provider) (0, empty_tools))) 0 =
     Inl NullDeref"
proof -
  let ?r = "snd (register_provider demo_json (Some null_provider) (0, empty_tools))"
  let ?e = "\<lparr>te_plugin = ''p'', te_tool = ''t'', te_qualified = ''p.t'', te_schema = [],
     te_provider = null_provider\<rparr>"
  have "tool_lookup ''p.t'' ?r = Some (Inl ?e)"
    by (simp add: tool_lookup_def register_provider_def null_provider_def empty_tools_def
        qualified_name_def demo_json_def)
  then show ?thesis
    using null_call_tool_dispatched [of "''p.t''" ?r ?e] by (simp add: null_provider_def)
qed

end
