(* ===== verification/Ipc_Framing.thy ===== *)
theory Ipc_Framing
  imports Prelude
begin

text \<open>
  \<open>src/plugin_bridge/ipc/ipc_transport.cpp\<close>: the framing of sidecar messages on a stream socket. The
  kernel is a parameter: the list of results of successive \<open>write\<close> calls, and the list of chunks in
  which the stream arrives, an exhausted list being the end of the stream and an empty chunk an error.
\<close>

unbundle bit_operations_syntax

type_synonym octets = "8 word list"
type_synonym chunks = "octets list"

section \<open>Writing\<close>

definition header_of :: "32 word \<Rightarrow> octets" where
  "header_of len =
     [ucast (len AND 0xFF), ucast (drop_bit 8 len AND 0xFF), ucast (drop_bit 16 len AND 0xFF),
      ucast (drop_bit 24 len AND 0xFF)]"

text \<open>\<open>write_to_fd\<close>: the bytes that reached the socket, whether all did, the unused results. A call
  never writes more than it was given.\<close>

fun write_to_fd :: "int list \<Rightarrow> octets \<Rightarrow> octets \<times> bool \<times> int list" where
  "write_to_fd rs [] = ([], True, rs)"
| "write_to_fd [] (b # bs) = ([], False, [])"
| "write_to_fd (r # rs) (b # bs) =
     (if r \<le> 0 then ([], False, rs)
      else let (out, ok, rs') = write_to_fd rs (drop (nat r) (b # bs))
           in (take (nat r) (b # bs) @ out, ok, rs'))"

text \<open>\<open>send\<close>, from a buffer whose size is converted to 32 bits.\<close>

definition transport_send :: "bool \<Rightarrow> int list \<Rightarrow> octets \<Rightarrow> octets \<times> bool \<times> int list" where
  "transport_send connected rs data =
     (if \<not> connected then ([], False, rs)
      else let len = of_nat (length data) :: 32 word;
               (out1, ok1, rs1) = write_to_fd rs (header_of len)
           in if \<not> ok1 then (out1, False, rs1)
              else let (out2, ok2, rs2) = write_to_fd rs1 (take (unat len) data)
                   in (out1 @ out2, ok2, rs2))"

section \<open>Reading\<close>

text \<open>One \<open>read\<close> of at most \<open>n\<close> bytes, and \<open>read_exact\<close>.\<close>

fun read_fd :: "chunks \<Rightarrow> nat \<Rightarrow> octets \<times> chunks" where
  "read_fd [] n = ([], [])"
| "read_fd (c # cs) n = (take n c, if length c \<le> n then cs else drop n c # cs)"

function read_exact :: "chunks \<Rightarrow> nat \<Rightarrow> (octets \<times> chunks) option" where
  "read_exact cs n =
     (if n = 0 then Some ([], cs)
      else let (got, cs') = read_fd cs n
           in if got = [] then None
              else map_option (\<lambda>(rest, cs''). (got @ rest, cs'')) (read_exact cs' (n - length got)))"
  by pat_completeness auto
termination by (relation "measure snd") (auto simp: less_eq_Suc_le [symmetric] intro!: diff_less)

declare read_exact.simps [simp del]

definition max_frame :: nat where
  "max_frame = 16 * 1024 * 1024"

definition header_value :: "octets \<Rightarrow> 32 word" where
  "header_value h =
     (ucast (h ! 0) OR push_bit 8 (ucast (h ! 1)) OR push_bit 16 (ucast (h ! 2))) OR
     push_bit 24 (ucast (h ! 3))"

datatype recv_stop = Stream_Ended | Bad_Length nat

lemma read_fd_concat: "concat cs = fst (read_fd cs n) @ concat (snd (read_fd cs n))"
  by (cases cs) auto

lemma read_exact_Some:
  "read_exact cs n = Some (b, cs') \<Longrightarrow> concat cs = b @ concat cs' \<and> length b = n"
proof (induction cs n arbitrary: b rule: read_exact.induct)
  case (1 cs n)
  show ?case
  proof (cases "n = 0")
    case True
    with "1.prems" show ?thesis by (simp add: read_exact.simps [of cs])
  next
    case False
    obtain got cs1 where g: "read_fd cs n = (got, cs1)" by fastforce
    with False "1.prems" have ne: "got \<noteq> []"
      by (auto simp: read_exact.simps [of cs] split: if_splits)
    with False g "1.prems" obtain r where r: "read_exact cs1 (n - length got) = Some (r, cs')" "b = got @ r"
      by (auto simp: read_exact.simps [of cs])
    have "length got \<le> n" using g by (cases cs) (auto split: if_splits)
    with "1.IH" [OF False g [symmetric] refl ne r(1)] r(2) read_fd_concat [of cs n] g
    show ?thesis by simp
  qed
qed

lemma read_exact_shorter:
  "read_exact cs n = Some (b, cs') \<Longrightarrow> length (concat cs') + n = length (concat cs)"
  using read_exact_Some [of cs n b cs'] by simp

text \<open>\<open>recv_loop\<close>: the payloads handed to the callback, and why the loop ended.\<close>

function recv_loop :: "chunks \<Rightarrow> octets list \<times> recv_stop" where
  "recv_loop cs =
     (case read_exact cs 4 of
        None \<Rightarrow> ([], Stream_Ended)
      | Some (hdr, cs1) \<Rightarrow>
          (let len = unat (header_value hdr)
           in if len = 0 \<or> len > max_frame then ([], Bad_Length len)
              else case read_exact cs1 len of
                     None \<Rightarrow> ([], Stream_Ended)
                   | Some (payload, cs2) \<Rightarrow> apfst ((#) payload) (recv_loop cs2)))"
  by pat_completeness auto
termination
proof (relation "measure (\<lambda>cs. length (concat cs))", goal_cases)
  case 1
  show ?case by simp
next
  case (2 cs x hdr cs1 len y payload cs2)
  then show ?case
    using read_exact_shorter [of cs 4 hdr cs1] read_exact_shorter [of cs1 len payload cs2] by simp
qed

declare recv_loop.simps [simp del]

section \<open>Correctness of the parts\<close>

definition frame :: "octets \<Rightarrow> octets" where
  "frame m = header_of (of_nat (length m)) @ m"

lemma length_header [simp]: "length (header_of len) = 4"
  by (simp add: header_of_def)

lemma header_roundtrip: "header_value (header_of len) = len"
proof (rule bit_word_eqI)
  fix n
  assume n: "n < LENGTH(32)"
  have m: "(0xFF :: 32 word) = mask 8" by (simp add: mask_eq_exp_minus_1)
  have "n < 8 \<or> 8 \<le> n \<and> n < 16 \<or> 16 \<le> n \<and> n < 24 \<or> 24 \<le> n \<and> n < 32" using n by auto
  then show "bit (header_value (header_of len)) n \<longleftrightarrow> bit len n"
    by (elim disjE) (auto simp: header_value_def header_of_def m bit_simps)
qed

lemma write_to_fd_ok: "write_to_fd rs data = (out, True, rs') \<Longrightarrow> out = data"
proof (induction rs data arbitrary: out rule: write_to_fd.induct)
  case (3 r rs b bs)
  then show ?case
    by (cases "r \<le> 0") (auto split: prod.splits simp del: take.simps drop.simps)
qed auto

lemma write_to_fd_prefix: "prefix (fst (write_to_fd rs data)) data"
proof (induction rs data rule: write_to_fd.induct)
  case (3 r rs b bs)
  show ?case
  proof (cases "r \<le> 0")
    case False
    obtain out ok rs' where w: "write_to_fd rs (drop (nat r) (b # bs)) = (out, ok, rs')"
      by (cases "write_to_fd rs (drop (nat r) (b # bs))") auto
    with 3 False have "prefix out (drop (nat r) (b # bs))" by simp
    then obtain z where "drop (nat r) (b # bs) = out @ z" by (auto simp: prefix_def)
    then have "b # bs = take (nat r) (b # bs) @ out @ z" by (metis append_take_drop_id)
    with False w show ?thesis by (auto simp: prefix_def simp del: take.simps)
  qed simp
qed auto

lemma read_exact_enough:
  "[] \<notin> set cs \<Longrightarrow> n \<le> length (concat cs) \<Longrightarrow>
   \<exists>cs'. read_exact cs n = Some (take n (concat cs), cs') \<and> concat cs' = drop n (concat cs) \<and>
     [] \<notin> set cs'"
proof (induction cs n rule: read_exact.induct)
  case (1 cs n)
  show ?case
  proof (cases "n = 0")
    case True
    with "1.prems" show ?thesis by (simp add: read_exact.simps [of cs])
  next
    case False
    with "1.prems" obtain c cs1 where c: "cs = c # cs1" "c \<noteq> []" by (cases cs) auto
    obtain got cs2 where g: "read_fd cs n = (got, cs2)" by fastforce
    have ne: "got \<noteq> []" using g c False by (auto split: if_splits)
    have ls: "[] \<notin> set cs2" using g c "1.prems"(1) by (auto split: if_splits)
    have l: "concat cs = got @ concat cs2" using read_fd_concat [of cs n] g by simp
    have lg: "length got \<le> n" using g c by (auto split: if_splits)
    have l2: "n - length got \<le> length (concat cs2)" using "1.prems"(2) l by simp
    obtain cs3 where "read_exact cs2 (n - length got) = Some (take (n - length got) (concat cs2), cs3)"
        "concat cs3 = drop (n - length got) (concat cs2)" "[] \<notin> set cs3"
      using "1.IH" [OF False g [symmetric] refl ne ls l2] by blast
    with False g ne lg l show ?thesis by (simp add: read_exact.simps [of cs])
  qed
qed

lemma recv_frame:
  assumes "[] \<notin> set cs" and "concat cs = frame m @ rest" and "0 < length m" and "length m \<le> max_frame"
  shows "\<exists>cs'. recv_loop cs = apfst ((#) m) (recv_loop cs') \<and> concat cs' = rest \<and> [] \<notin> set cs'"
proof -
  have len: "unat (header_value (header_of (of_nat (length m)))) = length m"
    using assms(4) by (simp add: header_roundtrip unat_of_nat max_frame_def)
  obtain cs1 where 1: "read_exact cs 4 = Some (header_of (of_nat (length m)), cs1)"
      "concat cs1 = m @ rest" "[] \<notin> set cs1"
    using read_exact_enough [OF assms(1), of 4] assms(2) by (auto simp: frame_def)
  obtain cs2 where 2: "read_exact cs1 (length m) = Some (m, cs2)" "concat cs2 = rest" "[] \<notin> set cs2"
    using read_exact_enough [OF 1(3), of "length m"] 1(2) by auto
  have "recv_loop cs = apfst ((#) m) (recv_loop cs2)"
    by (subst recv_loop.simps) (use 1 2 len assms(3,4) in \<open>simp add: Let_def\<close>)
  with 2 show ?thesis by blast
qed

lemma recv_frames:
  "[] \<notin> set cs \<Longrightarrow> concat cs = concat (map frame ms) \<Longrightarrow>
   \<forall>m \<in> set ms. 0 < length m \<and> length m \<le> max_frame \<Longrightarrow> recv_loop cs = (ms, Stream_Ended)"
proof (induction ms arbitrary: cs)
  case Nil
  then have "cs = []" by (cases cs) auto
  then show ?case by (simp add: recv_loop.simps read_exact.simps)
next
  case (Cons m ms)
  obtain cs' where h: "recv_loop cs = apfst ((#) m) (recv_loop cs')"
      "concat cs' = concat (map frame ms)" "[] \<notin> set cs'"
    using recv_frame [OF Cons.prems(1), of m "concat (map frame ms)"] Cons.prems by auto
  with Cons.IH [OF h(3,2)] Cons.prems(3) show ?case by simp
qed

lemma transport_send_ok:
  assumes "transport_send connected rs m = (out, True, rs')" and "length m < 2 ^ 32"
  shows "out = frame m"
proof -
  have "unat (of_nat (length m) :: 32 word) = length m" using assms(2) by (simp add: unat_of_nat)
  with assms(1) show ?thesis
    by (auto simp: transport_send_def frame_def Let_def split: if_splits prod.splits
        dest!: write_to_fd_ok)
qed



text \<open>On any input the receive loop ends, and hands out only payloads of 1 to 16 MiB, whose total
  size is at most that of the input.\<close>

theorem recv_payload_bounds:
  "(\<forall>p \<in> set (fst (recv_loop cs)). 0 < length p \<and> length p \<le> 16777216) \<and>
   4 * length (fst (recv_loop cs)) + length (concat (fst (recv_loop cs))) \<le> length (concat cs)"
proof (induction cs rule: recv_loop.induct)
  case (1 cs)
  show ?case
  proof (cases "read_exact cs 4")
    case None
    then show ?thesis by (simp add: recv_loop.simps [of cs])
  next
    case (Some r)
    then obtain hdr cs1 where r: "read_exact cs 4 = Some (hdr, cs1)" by (cases r) auto
    let ?len = "unat (header_value hdr)"
    show ?thesis
    proof (cases "?len = 0 \<or> ?len > max_frame \<or> read_exact cs1 ?len = None")
      case True
      with r show ?thesis by (auto simp: recv_loop.simps [of cs] Let_def)
    next
      case False
      then obtain p cs2 where p: "read_exact cs1 ?len = Some (p, cs2)" by auto
      have l: "length p = ?len" using read_exact_Some [OF p] by simp
      have "recv_loop cs = apfst ((#) p) (recv_loop cs2)"
        using r p False by (subst recv_loop.simps) (simp add: Let_def)
      moreover have "length (concat cs) = 4 + ?len + length (concat cs2)"
        using read_exact_shorter [OF r] read_exact_shorter [OF p] by simp
      ultimately show ?thesis
        using "1.IH" [OF r refl refl _ p refl] False l by (auto simp: max_frame_def)
    qed
  qed
qed

theorem recv_payload_bounds_witness:
  "recv_loop [[1, 0, 0, 0, 9], [4]] = ([[9]], Stream_Ended) \<and> 0 < length [9 :: 8 word] \<and>
   4 * length [[9 :: 8 word]] + length (concat [[9 :: 8 word]]) \<le> length (concat [[1, 0, 0, 0, 9], [4 :: 8 word]])"
proof -
  have r: "recv_loop [[1, 0, 0, 0, 9], [4]] = ([[9]], Stream_Ended)"
    by (simp add: recv_loop.simps read_exact.simps header_value_def max_frame_def)
  show ?thesis using recv_payload_bounds [of "[[1, 0, 0, 0, 9], [4]]"] r by simp
qed

section \<open>Concurrent senders\<close>

text \<open>\<open>send\<close> makes two writes and takes no lock. For any two JSON texts (both start with an
  opening brace) there is an interleaving of the writes of two senders after which the first message
  received is neither of them, unless the second length has the low byte of a brace.\<close>

theorem concurrent_sends_corrupt:
  assumes "a \<noteq> []" and "length a \<le> max_frame" and "hd a = 0x7B" and "b \<noteq> []" and "hd b = 0x7B"
    and "length b mod 256 \<noteq> 0x7B"
  shows "\<exists>ws \<in> shuffles [header_of (of_nat (length a)), a] [header_of (of_nat (length b)), b].
    \<exists>m ms. fst (recv_loop ws) = m # ms \<and> m \<noteq> a \<and> m \<noteq> b"
proof -
  let ?ha = "header_of (of_nat (length a))" and ?hb = "header_of (of_nat (length b))"
  let ?ws = "[?ha, ?hb, a, b]"
  let ?m = "take (length a) (?hb @ a @ b)"
  have ne: "[] \<notin> set ?ws" using assms(1,4) by (auto simp: header_of_def)
  have l: "length ?m = length a" by simp
  have "concat ?ws = frame ?m @ drop (length a) (?hb @ a @ b)"
    unfolding frame_def l append_assoc append_take_drop_id by simp
  from recv_frame [OF ne this] assms(1,2) l
  obtain cs' where r: "recv_loop ?ws = apfst ((#) ?m) (recv_loop cs')" by auto
  have m8: "(0xFF :: 32 word) = mask 8" by (simp add: mask_eq_exp_minus_1)
  have "hd ?m = ucast (of_nat (length b) AND 0xFF :: 32 word)"
    using assms(1) by (cases a) (simp_all add: header_of_def)
  moreover have "ucast (of_nat (length b) AND 0xFF :: 32 word) = (of_nat (length b) :: 8 word)"
    by (rule bit_word_eqI) (auto simp: m8 bit_simps)
  moreover have "unat (of_nat (length b) :: 8 word) = length b mod 256" by (simp add: unat_of_nat)
  ultimately have "hd ?m \<noteq> 0x7B" using assms(6) by auto
  then have "?m \<noteq> a" "?m \<noteq> b" using assms(3,5) by metis+
  moreover have "?ws \<in> shuffles [?ha, a] [?hb, b]" by (simp add: Cons_in_shuffles_iff)
  moreover have "fst (recv_loop ?ws) = ?m # fst (recv_loop cs')" using r by simp
  ultimately show ?thesis by blast
qed

theorem concurrent_sends_corrupt_witness:
  "\<exists>ws \<in> shuffles [header_of 2, [0x7B, 0x7D]] [header_of 3, [0x7B, 0x20, 0x7D]].
    \<exists>m ms. fst (recv_loop ws) = m # ms \<and> m \<noteq> [0x7B, 0x7D] \<and> m \<noteq> [0x7B, 0x20, 0x7D]"
  using concurrent_sends_corrupt [of "[0x7B, 0x7D]" "[0x7B, 0x20, 0x7D]"] by (simp add: max_frame_def)

end
