(* ===== verification/Ipc_Client.thy ===== *)
theory Ipc_Client
  imports Plugin_Abi
begin

text \<open>
  \<open>src/plugin_bridge/ipc/ipc_client.cpp\<close> and \<open>health_monitor.cpp\<close>: calls to a sidecar and their
  replies, paired by a correlation id. The calling threads, the receive thread and the clock interleave,
  so the client is a step relation: each step is one critical section of the pending map or one result
  of the future. A thread's progress in a call is its \<open>phase\<close>; the future is \<open>Ready\<close> once the promise
  has a value.
\<close>

section \<open>Inbound messages\<close>

text \<open>What \<open>on_message\<close> does with one payload. \<open>Uncaught\<close>: the typed accessors throw outside the
  \<open>try\<close> block, on the receive thread, which ends the process.\<close>

datatype inbound =
    Dropped | Uncaught | Status nat string | Announced json | Resolves nat json

definition on_message :: "json_api \<Rightarrow> bool \<Rightarrow> string \<Rightarrow> inbound" where
  "on_message api has_status_cb raw =
     (case j_parse api raw of
        None \<Rightarrow> Dropped
      | Some msg \<Rightarrow>
          (case j_str api msg ''type'' [] of
             None \<Rightarrow> Uncaught
           | Some ty \<Rightarrow>
               (case (if j_contains msg ''cid'' then j_u64 api msg ''cid'' 0
                      else j_u64 api msg ''correlation_id'' 0) of
                  None \<Rightarrow> Uncaught
                | Some cid \<Rightarrow>
                    if ty = ''status_report'' \<and> has_status_cb then
                      (case j_str api msg ''message'' [] of
                         None \<Rightarrow> Uncaught | Some m \<Rightarrow> Status cid m)
                    else if ty = ''plugin_announce'' then Announced msg
                    else Resolves cid msg)))"

section \<open>Requests and replies\<close>

record tool_call_request =
  tq_name :: string
  tq_args :: string
  tq_request_id :: string
  tq_budget :: int
  tq_max_tokens :: int
  tq_temperature :: real
  tq_heartbeat :: bool

record preprocess_request =
  pq_plugin_id :: string
  pq_messages :: string
  pq_request_id :: string
  pq_budget :: int
  pq_max_tokens :: int
  pq_temperature :: real

record tool_call_response =
  ts_ok :: bool
  ts_payload :: string
  ts_error :: string

record preprocess_response =
  ps_ok :: bool
  ps_decision :: int
  ps_messages :: string
  ps_response :: string

definition tool_call_message :: "tool_call_request \<Rightarrow> nat \<Rightarrow> json" where
  "tool_call_message req cid =
     JObj [(''type'', JStr (if tq_heartbeat req then ''heartbeat'' else ''tool_call'')),
       (''cid'', JInt (int cid)), (''qualified_name'', JStr (tq_name req)),
       (''args_json'', JStr (tq_args req)), (''request_id'', JStr (tq_request_id req)),
       (''token_budget'', JInt (tq_budget req)), (''max_tokens'', JInt (tq_max_tokens req)),
       (''temperature'', JFloat (tq_temperature req))]"

definition preprocess_message :: "preprocess_request \<Rightarrow> nat \<Rightarrow> json" where
  "preprocess_message req cid =
     JObj [(''type'', JStr ''preprocess_call''), (''cid'', JInt (int cid)),
       (''plugin_id'', JStr (pq_plugin_id req)), (''messages_json'', JStr (pq_messages req)),
       (''request_id'', JStr (pq_request_id req)), (''token_budget'', JInt (pq_budget req)),
       (''max_tokens'', JInt (pq_max_tokens req)), (''temperature'', JFloat (pq_temperature req))]"

definition abort_message :: "nat \<Rightarrow> json" where
  "abort_message cid = JObj [(''type'', JStr ''abort_call''), (''cid'', JInt (int cid))]"

datatype call_outcome = Send_Failed | Timed_Out | Replied json

text \<open>The value a call returns; \<^const>\<open>None\<close> is an exception of the accessors.\<close>

definition call_tool_result :: "json_api \<Rightarrow> call_outcome \<Rightarrow> tool_call_response option" where
  "call_tool_result api res =
     (case res of
        Send_Failed \<Rightarrow> Some \<lparr>ts_ok = False, ts_payload = [], ts_error = ''send failed''\<rparr>
      | Timed_Out \<Rightarrow> Some \<lparr>ts_ok = False, ts_payload = [], ts_error = ''timeout''\<rparr>
      | Replied reply \<Rightarrow>
          (case (j_int api reply ''error'' 0, j_str api reply ''payload'' [],
                 j_str api reply ''error_msg'' []) of
             (Some err, Some payload, Some msg) \<Rightarrow>
               Some \<lparr>ts_ok = (err = 0), ts_payload = payload, ts_error = msg\<rparr>
           | _ \<Rightarrow> None))"

definition run_preprocessor_result :: "json_api \<Rightarrow> call_outcome \<Rightarrow> preprocess_response option" where
  "run_preprocessor_result api res =
     (case res of
        Replied reply \<Rightarrow>
          (case (j_int api reply ''decision'' 0, j_str api reply ''modified_messages_json'' [],
                 j_str api reply ''response_text'' []) of
             (Some d, Some m, Some r) \<Rightarrow>
               Some \<lparr>ps_ok = True, ps_decision = d, ps_messages = m, ps_response = r\<rparr>
           | _ \<Rightarrow> None)
      | _ \<Rightarrow> Some \<lparr>ps_ok = False, ps_decision = 0, ps_messages = [], ps_response = []\<rparr>)"

section \<open>The client\<close>

datatype phase = Sending | Waiting | Ready json | Expired | Finished call_outcome

record client =
  cl_next :: nat
  cl_pending :: "nat set"
  cl_calls :: "nat \<Rightarrow> phase option"
  cl_dead :: bool

definition new_client :: client where
  "new_client = \<lparr>cl_next = 1, cl_pending = {}, cl_calls = Map.empty, cl_dead = False\<rparr>"

text \<open>\<open>resolve\<close>: the promise of a pending call gets the message; the future of a call whose thread has
  already given up is not read again.\<close>

definition resolve :: "nat \<Rightarrow> json \<Rightarrow> client \<Rightarrow> client" where
  "resolve cid body c =
     (if cid \<notin> cl_pending c then c
      else c\<lparr>cl_pending := cl_pending c - {cid},
             cl_calls := (case cl_calls c cid of
                Some Sending \<Rightarrow> (cl_calls c)(cid \<mapsto> Ready body)
              | Some Waiting \<Rightarrow> (cl_calls c)(cid \<mapsto> Ready body)
              | _ \<Rightarrow> cl_calls c)\<rparr>)"

definition receive :: "json_api \<Rightarrow> bool \<Rightarrow> string \<Rightarrow> client \<Rightarrow> client" where
  "receive api has_status_cb raw c =
     (case on_message api has_status_cb raw of
        Uncaught \<Rightarrow> c\<lparr>cl_dead := True\<rparr>
      | Resolves cid body \<Rightarrow> resolve cid body c
      | _ \<Rightarrow> c)"

datatype client_event = Begin | Sent nat bool | Received string | Collect nat | Expire nat | Drop nat

text \<open>Identifiers are 64 bits wide.\<close>

inductive client_step :: "json_api \<Rightarrow> bool \<Rightarrow> client \<Rightarrow> client_event \<Rightarrow> client \<Rightarrow> bool"
  for api :: json_api and has_status_cb :: bool where
  begin_call: "\<not> cl_dead c \<Longrightarrow>
    client_step api has_status_cb c Begin
      (c\<lparr>cl_next := (cl_next c + 1) mod 2 ^ 64, cl_pending := insert (cl_next c) (cl_pending c),
         cl_calls := (cl_calls c)(cl_next c \<mapsto> Sending)\<rparr>)"
| sent: "\<not> cl_dead c \<Longrightarrow> cl_calls c cid = Some Sending \<Longrightarrow>
    client_step api has_status_cb c (Sent cid True) (c\<lparr>cl_calls := (cl_calls c)(cid \<mapsto> Waiting)\<rparr>)"
| send_failed: "\<not> cl_dead c \<Longrightarrow> cl_calls c cid = Some Sending \<or> (\<exists>j. cl_calls c cid = Some (Ready j)) \<Longrightarrow>
    client_step api has_status_cb c (Sent cid False)
      (c\<lparr>cl_pending := cl_pending c - {cid},
         cl_calls := (cl_calls c)(cid \<mapsto> Finished Send_Failed)\<rparr>)"
| received: "\<not> cl_dead c \<Longrightarrow>
    client_step api has_status_cb c (Received raw) (receive api has_status_cb raw c)"
| collect: "\<not> cl_dead c \<Longrightarrow> cl_calls c cid = Some (Ready j) \<Longrightarrow>
    client_step api has_status_cb c (Collect cid)
      (c\<lparr>cl_calls := (cl_calls c)(cid \<mapsto> Finished (Replied j))\<rparr>)"
| expire: "\<not> cl_dead c \<Longrightarrow> cl_calls c cid = Some Waiting \<Longrightarrow>
    client_step api has_status_cb c (Expire cid) (c\<lparr>cl_calls := (cl_calls c)(cid \<mapsto> Expired)\<rparr>)"
| drop_expired: "\<not> cl_dead c \<Longrightarrow> cl_calls c cid = Some Expired \<Longrightarrow>
    client_step api has_status_cb c (Drop cid)
      (c\<lparr>cl_pending := cl_pending c - {cid},
         cl_calls := (cl_calls c)(cid \<mapsto> Finished Timed_Out)\<rparr>)"

inductive_cases begin_callE: "client_step api h c Begin c'"
inductive_cases sentE: "client_step api h c (Sent cid ok) c'"
inductive_cases receivedE: "client_step api h c (Received raw) c'"
inductive_cases collectE: "client_step api h c (Collect cid) c'"
inductive_cases expireE: "client_step api h c (Expire cid) c'"
inductive_cases dropE: "client_step api h c (Drop cid) c'"

inductive client_run :: "json_api \<Rightarrow> bool \<Rightarrow> client_event list \<Rightarrow> client \<Rightarrow> bool"
  for api :: json_api and has_status_cb :: bool where
  run_start: "client_run api has_status_cb [] new_client"
| run_step: "client_run api has_status_cb evs c \<Longrightarrow> client_step api has_status_cb c e c' \<Longrightarrow>
    client_run api has_status_cb (evs @ [e]) c'"

section \<open>Heartbeats\<close>

record health =
  hm_seq :: nat
  hm_healthy :: bool
  hm_alarms :: nat

definition heartbeat_request :: "nat \<Rightarrow> tool_call_request" where
  "heartbeat_request sq =
     \<lparr>tq_name = ''__heartbeat__'', tq_args = ''{\"seq\":'' @ show_nat sq @ ''}'', tq_request_id = [],
      tq_budget = 0, tq_max_tokens = 512, tq_temperature = 7/10, tq_heartbeat = True\<rparr>"

text \<open>One turn of the loop, by the answer to the heartbeat; \<open>has_cb\<close> says whether the callback is set.\<close>

definition beat :: "bool \<Rightarrow> tool_call_response \<Rightarrow> health \<Rightarrow> health" where
  "beat has_cb resp h =
     (let h = h\<lparr>hm_seq := (hm_seq h + 1) mod 2 ^ 64\<rparr>
      in if \<not> ts_ok resp
         then h\<lparr>hm_healthy := False, hm_alarms := hm_alarms h + (if has_cb then 1 else 0)\<rparr>
         else h\<lparr>hm_healthy := True\<rparr>)"

end
