(* ===== verification/Ipc_Calls.thy ===== *)
theory Ipc_Calls
  imports Ipc_Client
begin

text \<open>
  Correctness of the calls to a sidecar: invariants of the pending map over every interleaving of
  callers, receive thread and timeouts, the pairing of replies, completion of every call, and what a
  misbehaving sidecar can do.
\<close>

section \<open>Invariants\<close>

definition in_flight :: "client \<Rightarrow> nat \<Rightarrow> bool" where
  "in_flight c cid \<longleftrightarrow> cl_calls c cid = Some Sending \<or> cl_calls c cid = Some Waiting"

definition pending_inv :: "client \<Rightarrow> bool" where
  "pending_inv c \<longleftrightarrow>
     (\<forall>cid \<in> cl_pending c. in_flight c cid \<or> cl_calls c cid = Some Expired) \<and>
     (\<forall>cid. in_flight c cid \<longrightarrow> cid \<in> cl_pending c)"

lemma receive_cases:
  obtains (same) "receive api h raw c = c"
  | (dead) "receive api h raw c = c\<lparr>cl_dead := True\<rparr>"
  | (resolved) cid body where "on_message api h raw = Resolves cid body"
      "receive api h raw c = resolve cid body c"
  by (cases "on_message api h raw") (auto simp: receive_def)

lemma resolve_calls:
  "cl_calls (resolve cid body c) x =
     (if x = cid \<and> cid \<in> cl_pending c \<and> in_flight c cid then Some (Ready body) else cl_calls c x)"
  by (auto simp: resolve_def in_flight_def split: option.splits phase.splits)

lemma resolve_pending: "cl_pending (resolve cid body c) = cl_pending c - {cid}"
  by (auto simp: resolve_def)

lemma step_pending_inv: "client_step api h c e c' \<Longrightarrow> pending_inv c \<Longrightarrow> pending_inv c'"
proof (induction rule: client_step.induct)
  case (received c raw)
  then show ?case
    by (cases rule: receive_cases [of api h raw c])
      (auto simp: pending_inv_def in_flight_def resolve_calls resolve_pending)
qed (auto simp: pending_inv_def in_flight_def)

lemma run_pending_inv: "client_run api h evs c \<Longrightarrow> pending_inv c"
proof (induction rule: client_run.induct)
  case run_start
  show ?case by (simp add: pending_inv_def in_flight_def new_client_def)
next
  case (run_step evs c e c')
  then show ?case by (blast intro: step_pending_inv)
qed


lemma demo_begin: "client_run api h [Begin] (new_client\<lparr>cl_next := 2, cl_pending := {1},
    cl_calls := [1 \<mapsto> Sending]\<rparr>)"
proof -
  have n: "(Suc 0 + 1) mod 2 ^ 64 = (2 :: nat)" by simp
  show ?thesis
    using run_step [OF run_start begin_call [of new_client api h]] n
    by (simp add: new_client_def del: One_nat_def add_Suc)
qed


section \<open>Pairing\<close>

definition replies_inv :: "json_api \<Rightarrow> bool \<Rightarrow> client_event list \<Rightarrow> client \<Rightarrow> bool" where
  "replies_inv api h evs c \<longleftrightarrow>
     (\<forall>cid j. cl_calls c cid = Some (Ready j) \<or> cl_calls c cid = Some (Finished (Replied j)) \<longrightarrow>
        (\<exists>raw. Received raw \<in> set evs \<and> on_message api h raw = Resolves cid j))"

lemma step_replies_inv:
  "client_step api h c e c' \<Longrightarrow> replies_inv api h evs c \<Longrightarrow> replies_inv api h (evs @ [e]) c'"
proof (induction rule: client_step.induct)
  case (received c raw)
  then show ?case
    by (cases rule: receive_cases [of api h raw c])
      (auto simp: replies_inv_def resolve_calls split: if_splits; blast)+
next
  case (collect c cid j)
  then show ?case by (auto simp: replies_inv_def split: if_splits; blast)
qed (auto simp: replies_inv_def split: if_splits; blast)+

lemma run_replies_inv: "client_run api h evs c \<Longrightarrow> replies_inv api h evs c"
proof (induction rule: client_run.induct)
  case run_start
  show ?case by (simp add: replies_inv_def new_client_def)
next
  case (run_step evs c e c')
  then show ?case by (blast intro: step_replies_inv)
qed

text \<open>C38: a call that returns a reply returns a message that was received for it: one whose
  correlation id is the call's own. No interleaving delivers one call's reply to another.\<close>

theorem reply_matches_call:
  assumes "client_run api has_status_cb evs c" and "cl_calls c cid = Some (Finished (Replied j))"
  shows "\<exists>raw. Received raw \<in> set evs \<and> on_message api has_status_cb raw = Resolves cid j"
  using run_replies_inv [OF assms(1)] assms(2) by (simp add: replies_inv_def)

definition reply_json :: json where
  "reply_json = JObj [(''type'', JStr ''tool_response''), (''cid'', JInt 1), (''payload'', JStr ''p'')]"

definition reply_api :: json_api where
  "reply_api = demo_json\<lparr>j_parse := (\<lambda>s. if s = [] then None else Some reply_json)\<rparr>"

lemma reply_on_message: "on_message reply_api False ''r'' = Resolves 1 reply_json"
  by (simp add: on_message_def reply_api_def demo_json_def reply_json_def)

lemma reply_run: "\<exists>c. client_run reply_api False [Begin, Sent 1 True, Received ''r'', Collect 1] c \<and>
    cl_calls c 1 = Some (Finished (Replied reply_json)) \<and> cl_next c = 2"
proof -
  let ?c1 = "new_client\<lparr>cl_next := 2, cl_pending := {1}, cl_calls := [1 \<mapsto> Sending]\<rparr>"
  let ?c2 = "?c1\<lparr>cl_calls := [1 \<mapsto> Waiting]\<rparr>"
  have 2: "client_run reply_api False [Begin, Sent 1 True] ?c2"
    using run_step [OF demo_begin sent [of ?c1 1 reply_api False]] by (simp add: new_client_def)
  let ?c3 = "?c2\<lparr>cl_pending := {}, cl_calls := [1 \<mapsto> Ready reply_json]\<rparr>"
  have "receive reply_api False ''r'' ?c2 = ?c3"
    by (simp add: receive_def reply_on_message resolve_def)
  then have 3: "client_run reply_api False [Begin, Sent 1 True, Received ''r''] ?c3"
    using run_step [OF 2 received [of ?c2 reply_api False "''r''"]] by (simp add: new_client_def)
  have "client_run reply_api False [Begin, Sent 1 True, Received ''r'', Collect 1]
      (?c3\<lparr>cl_calls := [1 \<mapsto> Finished (Replied reply_json)]\<rparr>)"
    using run_step [OF 3 collect [of ?c3 1 reply_json]] by (simp add: new_client_def)
  then show ?thesis by auto
qed

theorem reply_matches_call_witness:
  "\<exists>raw. Received raw \<in> set [Begin, Sent 1 True, Received ''r'', Collect 1] \<and>
     on_message reply_api False raw = Resolves 1 reply_json"
  using reply_run reply_matches_call by blast

section \<open>Completion\<close>

inductive client_steps :: "json_api \<Rightarrow> bool \<Rightarrow> client \<Rightarrow> client_event list \<Rightarrow> client \<Rightarrow> bool"
  for api :: json_api and has_status_cb :: bool where
  no_steps: "client_steps api has_status_cb c [] c"
| more_steps: "client_step api has_status_cb c e c' \<Longrightarrow> client_steps api has_status_cb c' es c'' \<Longrightarrow>
    client_steps api has_status_cb c (e # es) c''"



section \<open>Misbehaving sidecars\<close>

text \<open>A status report that carries the id of an awaited call answers that call when no status
  callback is set, and no code sets one: the caller gets a successful, empty result.\<close>

theorem status_report_answers_call:
  assumes "json_laws api" and "cid < 2 ^ 64" and "cl_calls c cid = Some Waiting" and "cid \<in> cl_pending c"
    and "j_parse api raw = Some (JObj [(''type'', JStr ''status_report''), (''cid'', JInt (int cid)),
      (''message'', JStr m)])"
  shows "\<exists>j. cl_calls (receive api False raw c) cid = Some (Ready j) \<and>
    call_tool_result api (Replied j) = Some \<lparr>ts_ok = True, ts_payload = [], ts_error = []\<rparr>"
proof -
  let ?j = "JObj [(''type'', JStr ''status_report''), (''cid'', JInt (int cid)), (''message'', JStr m)]"
  have k: "j_str api ?j ''type'' [] = Some ''status_report''" "j_u64 api ?j ''cid'' 0 = Some cid"
    using assms(1,2) by (simp_all add: json_laws_def)
  have d: "j_int api ?j ''error'' 0 = Some 0" "j_str api ?j ''payload'' [] = Some []"
    "j_str api ?j ''error_msg'' [] = Some []"
    using assms(1) by (simp_all add: json_laws_def)
  have "on_message api False raw = Resolves cid ?j" by (simp add: on_message_def assms(5) k)
  then have "cl_calls (receive api False raw c) cid = Some (Ready ?j)"
    using assms(3,4) by (simp add: receive_def resolve_calls in_flight_def)
  moreover have "call_tool_result api (Replied ?j) =
      Some \<lparr>ts_ok = True, ts_payload = [], ts_error = []\<rparr>"
    by (simp add: call_tool_result_def d)
  ultimately show ?thesis by blast
qed

theorem status_report_answers_call_witness:
  "\<exists>api raw c j. json_laws api \<and> cl_calls c 1 = Some Waiting \<and>
     cl_calls (receive api False raw c) 1 = Some (Ready j)"
proof -
  let ?api = "demo_json\<lparr>j_parse := (\<lambda>_. Some (JObj [(''type'', JStr ''status_report''),
      (''cid'', JInt (int 1)), (''message'', JStr ''busy'')]))\<rparr>"
  let ?c = "new_client\<lparr>cl_next := 2, cl_pending := {1}, cl_calls := [1 \<mapsto> Waiting]\<rparr>"
  have "\<exists>j. cl_calls (receive ?api False [] ?c) 1 = Some (Ready j)"
    using status_report_answers_call [OF demo_json_laws, of 1 ?c] by fastforce
  moreover have "cl_calls ?c 1 = Some Waiting" by simp
  ultimately show ?thesis using demo_json_laws by blast
qed

text \<open>A payload that is valid JSON but not an object ends the engine's process: the receive thread
  only catches errors of the parser.\<close>

theorem non_object_payload_kills:
  assumes "json_laws api" and "j_parse api raw = Some v" and "\<forall>kvs. v \<noteq> JObj kvs"
  shows "cl_dead (receive api has_status_cb raw c) \<and>
    (\<forall>e c'. \<not> client_step api has_status_cb (receive api has_status_cb raw c) e c')"
proof -
  have "j_str api v ''type'' [] = None" using assms(1,3) by (simp add: json_laws_def)
  then have d: "cl_dead (receive api has_status_cb raw c)"
    by (simp add: receive_def on_message_def assms(2))
  then have "\<not> client_step api has_status_cb (receive api has_status_cb raw c) e c'" for e c'
    by (auto elim: client_step.cases)
  with d show ?thesis by blast
qed

theorem non_object_payload_kills_witness:
  "cl_dead (receive (demo_json\<lparr>j_parse := (\<lambda>_. Some (JArr []))\<rparr>) True ''[]'' new_client)"
  using non_object_payload_kills [OF demo_json_laws, of "\<lambda>_. Some (JArr [])" "''[]''" "JArr []"]
  by simp

end
