(* ===== verification/Plugin_Sandbox.thy ===== *)
theory Plugin_Sandbox
  imports Plugin_Abi
begin

text \<open>
  The per-plugin blob file system of \<open>src/plugin_bridge/plugin_bridge.cpp\<close> (lines 1373 to 1611): the
  path policy, and the write, read, unlink and listing operations on a file system that is a map from absolute
  paths to contents and a set of directories. Which system calls succeed is the argument \<open>fs_io\<close>. The
  joining of paths is \<open>std::filesystem\<close>'s on POSIX, or on Windows when the flag is set; symbolic
  links are outside the model.
\<close>

section \<open>The path policy\<close>

definition id_char :: "char \<Rightarrow> bool" where
  "id_char c \<longleftrightarrow> (97 \<le> (of_char c :: nat) \<and> of_char c \<le> (122 :: nat)) \<or>
     (65 \<le> (of_char c :: nat) \<and> of_char c \<le> (90 :: nat)) \<or>
     (48 \<le> (of_char c :: nat) \<and> of_char c \<le> (57 :: nat)) \<or> c = CHR ''_''"

definition plugin_id_ok :: "string \<Rightarrow> bool" where
  "plugin_id_ok s \<longleftrightarrow> s \<noteq> [] \<and> length s \<le> 64 \<and> (\<forall>c \<in> set s. id_char c)"

definition is_alpha :: "char \<Rightarrow> bool" where
  "is_alpha c \<longleftrightarrow> (97 \<le> (of_char c :: nat) \<and> of_char c \<le> (122 :: nat)) \<or>
     (65 \<le> (of_char c :: nat) \<and> of_char c \<le> (90 :: nat))"

definition is_sep :: "char \<Rightarrow> bool" where
  "is_sep c \<longleftrightarrow> c = CHR ''/'' \<or> c = CHR 0x5C"

definition bad_component :: "string \<Rightarrow> bool" where
  "bad_component cur \<longleftrightarrow> cur = [] \<or> cur = ''.'' \<or> cur = ''..''"

fun split_loop :: "string \<Rightarrow> string \<Rightarrow> string list \<Rightarrow> string list option" where
  "split_loop [] cur parts = (if bad_component cur then None else Some (parts @ [cur]))"
| "split_loop (c # cs) cur parts =
     (if is_sep c then (if bad_component cur then None else split_loop cs [] (parts @ [cur]))
      else split_loop cs (cur @ [c]) parts)"

definition split_relpath :: "string \<Rightarrow> string list option" where
  "split_relpath rel =
     (if rel = [] \<or> length rel > 4096 then None
      else if CHR 0x00 \<in> set rel then None
      else if is_sep (rel ! 0) then None
      else if length rel \<ge> 2 \<and> is_alpha (rel ! 0) \<and> rel ! 1 = CHR '':'' then None
      else split_loop rel [] [])"

text \<open>\<open>operator/=\<close> for a right operand without separators: a drive of its own replaces the path.\<close>

definition drive_of :: "string \<Rightarrow> string" where
  "drive_of p = (if length p \<ge> 2 \<and> is_alpha (p ! 0) \<and> p ! 1 = CHR '':'' then take 2 p else [])"

definition path_append :: "bool \<Rightarrow> string \<Rightarrow> string \<Rightarrow> string" where
  "path_append win p q =
     (if win \<and> drive_of q \<noteq> [] \<and> drive_of q \<noteq> drive_of p then q
      else let q' = (if win then drop (length (drive_of q)) q else q)
           in if p = [] \<or> last p = CHR ''/'' \<or> (win \<and> last p = CHR 0x5C) then p @ q'
              else p @ (if win then CHR 0x5C else CHR ''/'') # q')"

definition resolve_plugin_path :: "bool \<Rightarrow> string \<Rightarrow> string \<Rightarrow> string \<Rightarrow> string" where
  "resolve_plugin_path win root_dir pid rel =
     (if root_dir = [] \<or> \<not> plugin_id_ok pid then []
      else case split_relpath rel of
             None \<Rightarrow> []
           | Some parts \<Rightarrow> foldl (path_append win) (path_append win root_dir pid) parts)"

section \<open>The operations\<close>

record fs_state =
  fs_files :: "string \<Rightarrow> string option"
  fs_dirs :: "string set"

record fs_io =
  io_mkdir :: bool
  io_open :: bool
  io_written :: "nat option"
  io_rename :: bool
  io_remove :: bool
  io_rename2 :: bool
  io_read :: bool

text \<open>\<open>io_written\<close> is the number of bytes that reached the file when the write failed.\<close>

definition ancestors :: "string \<Rightarrow> string set" where
  "ancestors p = set (map (\<lambda>i. take i p) (filter (\<lambda>i. p ! i = CHR ''/'') [0..<length p]))"

definition mkdirs :: "string \<Rightarrow> fs_state \<Rightarrow> fs_state" where
  "mkdirs p s = s\<lparr>fs_dirs := fs_dirs s \<union> ancestors p\<rparr>"

definition put_file :: "string \<Rightarrow> string \<Rightarrow> fs_state \<Rightarrow> fs_state" where
  "put_file p c s = s\<lparr>fs_files := (fs_files s)(p \<mapsto> c)\<rparr>"

definition remove_path :: "string \<Rightarrow> fs_state \<Rightarrow> fs_state" where
  "remove_path p s = s\<lparr>fs_files := (fs_files s)(p := None), fs_dirs := fs_dirs s - {p}\<rparr>"

text \<open>\<open>rename\<close> of a regular file; it fails onto a directory.\<close>

definition rename_file :: "bool \<Rightarrow> string \<Rightarrow> string \<Rightarrow> fs_state \<Rightarrow> fs_state option" where
  "rename_file sys_ok p q s =
     (if \<not> sys_ok \<or> q \<in> fs_dirs s then None
      else case fs_files s p of
             None \<Rightarrow> None
           | Some c \<Rightarrow> Some (s\<lparr>fs_files := (fs_files s)(p := None, q \<mapsto> c)\<rparr>))"

definition tmp_of :: "string \<Rightarrow> string" where
  "tmp_of p = p @ ''.tmp''"

definition commit_file :: "fs_io \<Rightarrow> string \<Rightarrow> fs_state \<Rightarrow> fs_state \<times> trl_error" where
  "commit_file io target s =
     (case rename_file (io_rename io) (tmp_of target) target s of
        Some s' \<Rightarrow> (s', Err_Ok)
      | None \<Rightarrow>
          (let s1 = (if io_remove io then remove_path target s else s)
           in case rename_file (io_rename2 io) (tmp_of target) target s1 of
                Some s' \<Rightarrow> (s', Err_Ok)
              | None \<Rightarrow> (if io_remove io then remove_path (tmp_of target) s1 else s1, Err_Internal)))"

definition write_file :: "fs_io \<Rightarrow> string \<Rightarrow> string \<Rightarrow> fs_state \<Rightarrow> fs_state \<times> trl_error" where
  "write_file io target content s =
     (if \<not> io_mkdir io then (s, Err_Internal)
      else let s1 = mkdirs target s; tmp = tmp_of target
           in if \<not> io_open io \<or> tmp \<in> fs_dirs s1 then (s1, Err_Internal)
              else (case io_written io of
                      Some k \<Rightarrow> (put_file tmp (take k content) s1, Err_Internal)
                    | None \<Rightarrow> commit_file io target (put_file tmp content s1)))"

definition fs_write ::
  "bool \<Rightarrow> string \<Rightarrow> fs_io \<Rightarrow> string option \<Rightarrow> string option \<Rightarrow> string option \<Rightarrow> nat \<Rightarrow>
   fs_state \<Rightarrow> fs_state \<times> trl_error" where
  "fs_write win root_dir io pid rel bytes n s =
     (if root_dir = [] then (s, Err_Permission)
      else case (pid, rel) of
             (Some p, Some r) \<Rightarrow>
               (if bytes = None \<and> n > 0 then (s, Err_Invalid)
                else let target = resolve_plugin_path win root_dir p r
                     in if target = [] then (s, Err_Invalid)
                        else write_file io target (take n (or_empty bytes)) s)
           | _ \<Rightarrow> (s, Err_Invalid))"

definition fs_read ::
  "bool \<Rightarrow> string \<Rightarrow> fs_io \<Rightarrow> string option \<Rightarrow> string option \<Rightarrow> fs_state \<Rightarrow> trl_error + string" where
  "fs_read win root_dir io pid rel s =
     (if root_dir = [] then Inl Err_Permission
      else case (pid, rel) of
             (Some p, Some r) \<Rightarrow>
               (let target = resolve_plugin_path win root_dir p r
                in if target = [] then Inl Err_Invalid
                   else case fs_files s target of
                          None \<Rightarrow> Inl Err_NotFound
                        | Some c \<Rightarrow> if io_read io then Inr c else Inl Err_Internal)
           | _ \<Rightarrow> Inl Err_Invalid)"

definition fs_unlink ::
  "bool \<Rightarrow> string \<Rightarrow> fs_io \<Rightarrow> string option \<Rightarrow> string option \<Rightarrow> fs_state \<Rightarrow> fs_state \<times> trl_error" where
  "fs_unlink win root_dir io pid rel s =
     (if root_dir = [] then (s, Err_Permission)
      else case (pid, rel) of
             (Some p, Some r) \<Rightarrow>
               (let target = resolve_plugin_path win root_dir p r
                in if target = [] then (s, Err_Invalid)
                   else if fs_files s target = None \<and> target \<notin> fs_dirs s then (s, Err_NotFound)
                   else if \<not> io_remove io then (s, Err_Internal)
                   else (remove_path target s, Err_Ok))
           | _ \<Rightarrow> (s, Err_Invalid))"

text \<open>\<open>directory_iterator\<close> is the argument \<open>entries\<close>, and \<open>allocs\<close> the number of allocations that
  succeed: one for the array and one for each name.\<close>

definition fs_listdir ::
  "bool \<Rightarrow> string \<Rightarrow> (string \<Rightarrow> fs_state \<Rightarrow> string list) \<Rightarrow> nat \<Rightarrow> string option \<Rightarrow> string option \<Rightarrow>
   fs_state \<Rightarrow> trl_error + string list" where
  "fs_listdir win root_dir entries allocs pid rel s =
     (if root_dir = [] then Inl Err_Permission
      else case (pid, rel) of
             (Some p, Some r) \<Rightarrow>
               (let target = (if r = [] then (if plugin_id_ok p then path_append win root_dir p else [])
                              else resolve_plugin_path win root_dir p r)
                in if target = [] then Inl Err_Invalid
                   else if target \<notin> fs_dirs s then Inl Err_NotFound
                   else if allocs < Suc (length (entries target s)) then Inl Err_Internal
                   else Inr (entries target s))
           | _ \<Rightarrow> Inl Err_Invalid)"

text \<open>\<open>vtable_plugin_data_dir\<close>, with the cache of the directories it made.\<close>

definition plugin_data_dir ::
  "bool \<Rightarrow> string \<Rightarrow> fs_io \<Rightarrow> string option \<Rightarrow> (string \<rightharpoonup> string) \<Rightarrow> fs_state \<Rightarrow>
   (string \<rightharpoonup> string) \<times> fs_state \<times> string option" where
  "plugin_data_dir win root_dir io pid cache s =
     (case pid of
        None \<Rightarrow> (cache, s, None)
      | Some p \<Rightarrow>
          (if root_dir = [] \<or> \<not> plugin_id_ok p then (cache, s, None)
           else case cache p of
                  Some d \<Rightarrow> (cache, s, Some d)
                | None \<Rightarrow>
                    (let d = path_append win root_dir p
                     in if \<not> io_mkdir io then (cache, s, None)
                        else (cache(p \<mapsto> d), (mkdirs d s)\<lparr>fs_dirs := insert d (fs_dirs (mkdirs d s))\<rparr>,
                              Some d))))"

section \<open>Containment\<close>

text \<open>The paths inside a plugin's directory: proper components below it, none of them a step up.\<close>

definition below_dir :: "string \<Rightarrow> string list \<Rightarrow> string" where
  "below_dir dir comps = dir @ concat (map (\<lambda>c. CHR ''/'' # c) comps)"

definition proper :: "string \<Rightarrow> bool" where
  "proper c \<longleftrightarrow> c \<noteq> [] \<and> c \<noteq> ''.'' \<and> c \<noteq> ''..'' \<and> CHR ''/'' \<notin> set c"

definition inside :: "string \<Rightarrow> string \<Rightarrow> bool" where
  "inside dir p \<longleftrightarrow> (\<exists>comps. comps \<noteq> [] \<and> (\<forall>c \<in> set comps. proper c) \<and> p = below_dir dir comps)"

definition sandbox :: "string \<Rightarrow> string \<Rightarrow> string" where
  "sandbox root_dir pid = path_append False root_dir pid"

lemma id_char_no_slash: "id_char c \<Longrightarrow> c \<noteq> CHR ''/''"
  by (auto simp: id_char_def)

lemma proper_iff: "proper c \<longleftrightarrow> \<not> bad_component c \<and> CHR ''/'' \<notin> set c"
  by (auto simp: proper_def bad_component_def)

lemma split_loop_proper:
  "split_loop cs cur parts = Some ps \<Longrightarrow> \<forall>c \<in> set parts. proper c \<Longrightarrow> CHR ''/'' \<notin> set cur \<Longrightarrow>
   ps \<noteq> [] \<and> (\<forall>c \<in> set ps. proper c)"
  by (induction cs cur parts rule: split_loop.induct)
    (auto simp: proper_iff is_sep_def split: if_splits)

lemma split_relpath_proper:
  "split_relpath rel = Some ps \<Longrightarrow> ps \<noteq> [] \<and> (\<forall>c \<in> set ps. proper c)"
  using split_loop_proper [of rel "[]" "[]"] by (auto simp: split_relpath_def split: if_splits)

lemma append_components:
  "dir \<noteq> [] \<Longrightarrow> last dir \<noteq> CHR ''/'' \<Longrightarrow> \<forall>c \<in> set ps. proper c \<Longrightarrow>
   foldl (path_append False) dir ps = below_dir dir ps"
proof (induction ps arbitrary: dir)
  case Nil
  then show ?case by (simp add: below_dir_def)
next
  case (Cons c ps)
  then have c: "c \<noteq> []" "CHR ''/'' \<notin> set c" by (auto simp: proper_def)
  then have "last c \<noteq> CHR ''/''" using last_in_set [OF c(1)] by metis
  with c(1) have "last (dir @ CHR ''/'' # c) \<noteq> CHR ''/''" by simp
  with Cons.IH [of "dir @ CHR ''/'' # c"] Cons.prems show ?case
    by (simp add: path_append_def below_dir_def)
qed

lemma sandbox_last: "plugin_id_ok pid \<Longrightarrow> sandbox r pid \<noteq> [] \<and> last (sandbox r pid) \<noteq> CHR ''/''"
  using last_in_set [of pid] id_char_no_slash
  by (auto simp: sandbox_def path_append_def plugin_id_ok_def)

lemma resolve_inside:
  assumes "resolve_plugin_path False root_dir pid rel = p" and "p \<noteq> []"
  shows "plugin_id_ok pid \<and> inside (sandbox root_dir pid) p"
proof -
  obtain ps where ok: "plugin_id_ok pid" and ps: "split_relpath rel = Some ps"
    and p: "p = foldl (path_append False) (path_append False root_dir pid) ps"
    using assms by (auto simp: resolve_plugin_path_def split: if_splits option.splits)
  have "p = below_dir (sandbox root_dir pid) ps"
    using append_components [of "sandbox root_dir pid" ps] sandbox_last [OF ok]
      split_relpath_proper [OF ps] by (simp add: p sandbox_def)
  with ok split_relpath_proper [OF ps] show ?thesis by (auto simp: inside_def)
qed

lemma inside_tmp: "inside dir p \<Longrightarrow> inside dir (tmp_of p)"
proof -
  assume "inside dir p"
  then obtain comps where c: "comps \<noteq> []" "\<forall>c \<in> set comps. proper c" "p = below_dir dir comps"
    by (auto simp: inside_def)
  then obtain cs c where cs: "comps = cs @ [c]" by (cases comps rule: rev_cases) auto
  have "proper (c @ ''.tmp'')" using c(2) cs by (auto simp: proper_def bad_component_def append_eq_Cons_conv)
  then have "\<forall>x \<in> set (cs @ [c @ ''.tmp'']). proper x" using c(2) cs by auto
  moreover have "tmp_of p = below_dir dir (cs @ [c @ ''.tmp''])"
    by (simp add: c(3) cs below_dir_def tmp_of_def)
  ultimately show ?thesis unfolding inside_def by blast
qed

text \<open>\<open>s\<close> became \<open>t\<close> touching files only where \<open>P\<close> allows.\<close>

definition files_kept :: "(string \<Rightarrow> bool) \<Rightarrow> fs_state \<Rightarrow> fs_state \<Rightarrow> bool" where
  "files_kept P s t \<longleftrightarrow> (\<forall>q. \<not> P q \<longrightarrow> fs_files t q = fs_files s q)"

lemma files_kept_refl [simp]: "files_kept P s s"
  by (simp add: files_kept_def)

lemma files_kept_trans: "files_kept P s t \<Longrightarrow> files_kept P t u \<Longrightarrow> files_kept P s u"
  by (simp add: files_kept_def)

lemma files_kept_ops:
  "files_kept P s (mkdirs p s)"
  "P p \<Longrightarrow> files_kept P s (put_file p c s)"
  "P p \<Longrightarrow> files_kept P s (remove_path p s)"
  "P p \<Longrightarrow> P q \<Longrightarrow> rename_file sys_ok p q s = Some t \<Longrightarrow> files_kept P s t"
  by (auto simp: files_kept_def mkdirs_def put_file_def remove_path_def rename_file_def
      split: if_splits option.splits)

lemma commit_kept:
  assumes "P target" and "P (tmp_of target)"
  shows "files_kept P s (fst (commit_file io target s))"
proof (cases "rename_file (io_rename io) (tmp_of target) target s")
  case (Some s')
  then show ?thesis using files_kept_ops(4) [OF assms(2,1)] by (simp add: commit_file_def)
next
  case None
  let ?s1 = "if io_remove io then remove_path target s else s"
  have 1: "files_kept P s ?s1" using files_kept_ops(3) assms(1) by simp
  show ?thesis
  proof (cases "rename_file (io_rename2 io) (tmp_of target) target ?s1")
    case (Some s')
    then have "files_kept P ?s1 s'" by (rule files_kept_ops(4) [OF assms(2,1)])
    with 1 have "files_kept P s s'" by (rule files_kept_trans)
    with None Some show ?thesis by (simp add: commit_file_def)
  next
    case N: None
    have "files_kept P ?s1 (remove_path (tmp_of target) ?s1)" using files_kept_ops(3) assms(2) by blast
    with 1 have "files_kept P s (remove_path (tmp_of target) ?s1)" by (rule files_kept_trans)
    with None N 1 show ?thesis by (cases "io_remove io") (simp_all add: commit_file_def)
  qed
qed

lemma write_kept:
  assumes "P target" and "P (tmp_of target)"
  shows "files_kept P s (fst (write_file io target content s))"
proof -
  let ?s1 = "mkdirs target s"
  have p: "files_kept P s (put_file (tmp_of target) c ?s1)" for c
    using files_kept_trans [OF files_kept_ops(1) files_kept_ops(2)] assms(2) by blast
  have "files_kept P s (fst (commit_file io target (put_file (tmp_of target) content ?s1)))"
    by (rule files_kept_trans [OF p commit_kept [OF assms]])
  with p files_kept_ops(1) show ?thesis
    by (simp add: write_file_def Let_def split: option.split)
qed

lemma inside_form: "inside (b @ p) q \<Longrightarrow> \<exists>xs. q = b @ p @ CHR ''/'' # xs"
  by (auto simp: inside_def below_dir_def neq_Nil_conv)

lemma sandboxes_disjoint:
  assumes "plugin_id_ok p" and "plugin_id_ok p'" and "inside (sandbox r p) q" and "inside (sandbox r p') q"
  shows "p = p'"
proof -
  obtain base where b: "\<And>x. sandbox r x = base @ x"
    by (cases "r = [] \<or> last r = CHR ''/''") (auto simp: sandbox_def path_append_def)
  have n: "CHR ''/'' \<notin> set p" "CHR ''/'' \<notin> set p'"
    using assms(1,2) id_char_no_slash by (auto simp: plugin_id_ok_def)
  obtain xs ys where q: "q = base @ p @ CHR ''/'' # xs" "q = base @ p' @ CHR ''/'' # ys"
    using inside_form assms(3,4) unfolding b by metis
  then have "p @ CHR ''/'' # xs = p' @ CHR ''/'' # ys" by simp
  then show ?thesis by (simp add: split_at_char n)
qed


definition io_fine :: fs_io where
  "io_fine = \<lparr>io_mkdir = True, io_open = True, io_written = None, io_rename = True, io_remove = True,
     io_rename2 = True, io_read = True\<rparr>"

definition empty_fs :: fs_state where
  "empty_fs = \<lparr>fs_files = Map.empty, fs_dirs = {}\<rparr>"

lemma web_ok: "plugin_id_ok ''web''"
  by (simp add: plugin_id_ok_def id_char_def)

lemma web_path: "resolve_plugin_path False ''/d'' ''web'' ''a/b'' = ''/d/web/a/b''"
  by (simp add: resolve_plugin_path_def web_ok split_relpath_def is_sep_def bad_component_def
      is_alpha_def path_append_def)

lemma web_write:
  "fs_write False ''/d'' io_fine (Some ''web'') (Some ''a/b'') (Some ''hi'') 2 empty_fs =
     (\<lparr>fs_files = [''/d/web/a/b'' \<mapsto> ''hi''], fs_dirs = ancestors ''/d/web/a/b''\<rparr>, Err_Ok)"
proof -
  have a: "ancestors ''/d/web/a/b'' = {[], ''/d'', ''/d/web'', ''/d/web/a''}"
    by (auto simp: ancestors_def upt_conv_Cons)
  show ?thesis
    by (simp add: fs_write_def web_path write_file_def commit_file_def rename_file_def io_fine_def
        empty_fs_def mkdirs_def put_file_def tmp_of_def or_empty_def a)
qed


section \<open>Contents\<close>

text \<open>A write that reports success is read back exactly, and leaves no temporary file.\<close>

theorem fs_write_read_roundtrip:
  assumes "fs_write win root_dir io (Some pid) (Some rel) (Some bytes) n s = (s', Err_Ok)" and "io_read io'"
  shows "fs_read win root_dir io' (Some pid) (Some rel) s' = Inr (take n bytes) \<and>
    fs_files s' (tmp_of (resolve_plugin_path win root_dir pid rel)) = None"
proof -
  let ?t = "resolve_plugin_path win root_dir pid rel"
  have ne: "tmp_of ?t \<noteq> ?t" by (simp add: tmp_of_def)
  have r: "root_dir \<noteq> []" "?t \<noteq> []" and w: "write_file io ?t (take n bytes) s = (s', Err_Ok)"
    using assms(1) by (auto simp: fs_write_def or_empty_def Let_def split: if_splits)
  let ?s1 = "put_file (tmp_of ?t) (take n bytes) (mkdirs ?t s)"
  have c: "commit_file io ?t ?s1 = (s', Err_Ok)"
    using w by (auto simp: write_file_def Let_def split: if_splits option.splits)
  have "fs_files s' ?t = Some (take n bytes) \<and> fs_files s' (tmp_of ?t) = None"
    using c ne
    by (auto simp: commit_file_def rename_file_def put_file_def remove_path_def Let_def
        split: if_splits option.splits)
  with r assms(2) show ?thesis by (simp add: fs_read_def)
qed

theorem fs_write_read_roundtrip_witness:
  "fs_read False ''/d'' io_fine (Some ''web'') (Some ''a/b'')
     \<lparr>fs_files = [''/d/web/a/b'' \<mapsto> ''hi''], fs_dirs = ancestors ''/d/web/a/b''\<rparr> = Inr ''hi''"
  using fs_write_read_roundtrip [OF web_write, of io_fine] by (simp add: io_fine_def)

text \<open>Two ways a plugin loses data it wrote earlier. A successful write of a path destroys the
  plugin's own file named like the temporary; and a write whose rename fails both times returns an
  error, with the previous contents of the target removed.\<close>

theorem fs_write_loses_data:
  assumes "resolve_plugin_path win root_dir pid rel = target" and "target \<noteq> []"
    and "io_mkdir io" and "io_open io" and "io_written io = None" and "io_remove io"
    and "tmp_of target \<notin> fs_dirs s \<union> ancestors target"
  shows "(io_rename io \<longrightarrow> target \<notin> fs_dirs s \<union> ancestors target \<longrightarrow>
      snd (fs_write win root_dir io (Some pid) (Some rel) (Some bytes) n s) = Err_Ok \<and>
      fs_files (fst (fs_write win root_dir io (Some pid) (Some rel) (Some bytes) n s)) (tmp_of target) = None) \<and>
    (\<not> io_rename io \<longrightarrow> \<not> io_rename2 io \<longrightarrow>
      snd (fs_write win root_dir io (Some pid) (Some rel) (Some bytes) n s) = Err_Internal \<and>
      fs_files (fst (fs_write win root_dir io (Some pid) (Some rel) (Some bytes) n s)) target = None)"
proof -
  have r: "root_dir \<noteq> []" using assms(1,2) by (auto simp: resolve_plugin_path_def)
  have t: "tmp_of target \<noteq> target" by (simp add: tmp_of_def)
  have "fs_write win root_dir io (Some pid) (Some rel) (Some bytes) n s =
      commit_file io target (put_file (tmp_of target) (take n bytes) (mkdirs target s))"
    using assms r by (simp add: fs_write_def write_file_def mkdirs_def or_empty_def)
  with assms(6) t show ?thesis
    by (auto simp: commit_file_def rename_file_def put_file_def remove_path_def mkdirs_def)
qed

definition io_no_rename :: fs_io where
  "io_no_rename = io_fine\<lparr>io_rename := False, io_rename2 := False\<rparr>"

theorem fs_write_loses_data_witness:
  "fs_files (fst (fs_write False ''/d'' io_no_rename (Some ''web'') (Some ''a/b'') (Some ''new'') 3
     \<lparr>fs_files = [''/d/web/a/b'' \<mapsto> ''old''], fs_dirs = {}\<rparr>)) ''/d/web/a/b'' = None"
proof -
  have "tmp_of ''/d/web/a/b'' \<notin> {} \<union> ancestors ''/d/web/a/b''"
    by (auto simp: ancestors_def upt_conv_Cons tmp_of_def)
  then show ?thesis
    using fs_write_loses_data [OF web_path, of io_no_rename "\<lparr>fs_files = [''/d/web/a/b'' \<mapsto> ''old''], fs_dirs = {}\<rparr>"]
    by (simp add: io_no_rename_def io_fine_def)
qed

section \<open>Windows\<close>

text \<open>The policy rejects a drive letter only at the start of the relative path. On Windows a later
  component with a drive of its own replaces the whole path, so a plugin on any other drive escapes its
  directory.\<close>

theorem windows_drive_escape:
  assumes "plugin_id_ok pid" and "2 \<le> length root_dir" and "drive_of root_dir \<noteq> ''C:''"
  shows "resolve_plugin_path True root_dir pid ''a/C:x'' = ''C:x''"
proof -
  have d: "drive_of (p @ q) = drive_of p" if "2 \<le> length p" for p q :: string
    using that by (simp add: drive_of_def nth_append)
  have nc: "drive_of pid = []"
  proof -
    have "\<not> id_char (CHR '':'')" by (simp add: id_char_def)
    then have "pid ! 1 \<noteq> CHR '':''" if "2 \<le> length pid"
    proof -
      have "pid ! 1 \<in> set pid" using that by (intro nth_mem) simp
      then have "id_char (pid ! 1)" using assms(1) unfolding plugin_id_ok_def by blast
      with \<open>\<not> id_char (CHR '':'')\<close> show ?thesis by metis
    qed
    then show ?thesis unfolding drive_of_def by presburger
  qed
  have app: "\<exists>z. path_append True p q = p @ z" if "drive_of q = []" for p q
    using that by (simp add: path_append_def)
  obtain x where x: "path_append True root_dir pid = root_dir @ x" using app [OF nc] by blast
  obtain y where y: "path_append True (root_dir @ x) ''a'' = (root_dir @ x) @ y"
    using app [of "''a''" "root_dir @ x"] by (auto simp: drive_of_def)
  have "drive_of ((root_dir @ x) @ y) \<noteq> ''C:''" using d [of root_dir] assms(2,3) by simp
  then have "path_append True ((root_dir @ x) @ y) ''C:x'' = ''C:x''"
    by (simp add: path_append_def) (simp add: drive_of_def is_alpha_def)
  moreover have "split_relpath ''a/C:x'' = Some [''a'', ''C:x'']"
    by (simp add: split_relpath_def is_sep_def bad_component_def is_alpha_def)
  ultimately show ?thesis using assms(1,2) by (auto simp: resolve_plugin_path_def x y)
qed

theorem windows_drive_escape_witness:
  "resolve_plugin_path True ''D:'' ''web'' ''a/C:x'' = ''C:x''"
  using windows_drive_escape [OF web_ok, of "''D:''"] by (simp add: drive_of_def is_alpha_def)

end
