(* ===== verification/Decimal.thy ===== *)
theory Decimal
  imports Prelude
begin

text \<open>
  The number parsers of the standard library that the components call on text, \<open>std::stoll\<close>,
  \<open>std::stoull\<close> and \<open>std::stoi\<close>, in base ten: leading white space and a sign are accepted, the
  longest run of digits is read, anything after it is ignored; no digits, or a value out of range,
  is an exception (\<^const>\<open>None\<close>). And their round trip with \<open>std::to_string\<close>.
\<close>

definition is_space :: "char \<Rightarrow> bool" where
  "is_space c \<longleftrightarrow> (of_char c :: nat) = 32 \<or> (9 \<le> (of_char c :: nat) \<and> of_char c \<le> (13 :: nat))"

definition is_digit :: "char \<Rightarrow> bool" where
  "is_digit c \<longleftrightarrow> 48 \<le> (of_char c :: nat) \<and> of_char c \<le> (57 :: nat)"

definition digits_value :: "string \<Rightarrow> nat" where
  "digits_value ds = foldl (\<lambda>a c. 10 * a + (of_char c - 48)) 0 ds"

definition scan_number :: "string \<Rightarrow> (bool \<times> nat) option" where
  "scan_number s =
     (let s1 = dropWhile is_space s;
          (neg, s2) = (case s1 of
             [] \<Rightarrow> (False, [])
           | c # r \<Rightarrow> if c = CHR ''-'' then (True, r) else if c = CHR ''+'' then (False, r)
                     else (False, s1));
          ds = takeWhile is_digit s2
      in if ds = [] then None else Some (neg, digits_value ds))"

definition scan_int :: "string \<Rightarrow> int option" where
  "scan_int s = map_option (\<lambda>(neg, v). if neg then - int v else int v) (scan_number s)"

definition in_s64 :: "int \<Rightarrow> bool" where
  "in_s64 x \<longleftrightarrow> - 9223372036854775808 \<le> x \<and> x \<le> 9223372036854775807"

definition stoll :: "string \<Rightarrow> int option" where
  "stoll s = (case scan_int s of None \<Rightarrow> None | Some x \<Rightarrow> if in_s64 x then Some x else None)"

definition stoi :: "string \<Rightarrow> int option" where
  "stoi s = (case scan_int s of None \<Rightarrow> None | Some x \<Rightarrow> if in_s32 x then Some x else None)"

text \<open>\<open>std::stoull\<close> accepts a minus sign and negates modulo \<open>2 ^ 64\<close>.\<close>

definition stoull :: "string \<Rightarrow> nat option" where
  "stoull s =
     (case scan_number s of
        None \<Rightarrow> None
      | Some (neg, v) \<Rightarrow>
          if v > 18446744073709551615 then None
          else Some (if neg then (18446744073709551616 - v) mod 18446744073709551616 else v))"

section \<open>Round trip\<close>

lemma digit_char_num: "d < 10 \<Longrightarrow> (of_char (digit_char d) :: nat) = 48 + d"
  by (simp add: digit_char_def)

lemma show_nat_digits: "\<forall>c \<in> set (show_nat n). is_digit c"
proof (induction n rule: show_nat.induct)
  case (1 n)
  have "is_digit (digit_char d)" if "d < 10" for d
    using that by (simp add: is_digit_def digit_char_num)
  with 1 show ?case by (subst show_nat.simps) auto
qed

lemma digits_value_show: "digits_value (show_nat n) = n"
proof (induction n rule: show_nat.induct)
  case (1 n)
  then show ?case
    by (subst show_nat.simps) (auto simp: digits_value_def digit_char_num)
qed

lemma digit_not_space: "is_digit c \<Longrightarrow> \<not> is_space c"
  by (auto simp: is_digit_def is_space_def)

lemma digit_not_sign: "is_digit c \<Longrightarrow> c \<noteq> CHR ''-'' \<and> c \<noteq> CHR ''+''"
  by (auto simp: is_digit_def)

lemma scan_show_nat: "scan_number (show_nat n) = Some (False, n)"
proof -
  obtain c r where s: "show_nat n = c # r" using show_nat_nonempty by (cases "show_nat n") auto
  then have c: "is_digit c" using show_nat_digits [of n] by simp
  have dw: "dropWhile is_space (show_nat n) = show_nat n" by (simp add: s digit_not_space [OF c])
  have tw: "takeWhile is_digit (show_nat n) = show_nat n"
    using show_nat_digits by (simp add: takeWhile_eq_all_conv)
  have "(case show_nat n of [] \<Rightarrow> (False, []) | c # r \<Rightarrow> if c = CHR ''-'' then (True, r)
      else if c = CHR ''+'' then (False, r) else (False, show_nat n)) = (False, show_nat n)"
    using digit_not_sign [OF c] by (simp add: s)
  then show ?thesis
    using show_nat_nonempty [of n] by (simp add: scan_number_def digits_value_show Let_def tw dw)
qed

lemma scan_minus_show_nat: "scan_number (CHR ''-'' # show_nat n) = Some (True, n)"
  using show_nat_digits [of n] show_nat_nonempty [of n]
  by (simp add: scan_number_def is_space_def digits_value_show takeWhile_eq_all_conv [THEN iffD2])

lemma scan_show_int: "scan_int (show_int i) = Some i"
  by (cases "i < 0") (simp_all add: scan_int_def show_int_def scan_show_nat scan_minus_show_nat del: map_option_eq_Some)

lemma stoll_show_int: "in_s64 i \<Longrightarrow> stoll (show_int i) = Some i"
  by (simp add: stoll_def scan_show_int)

lemma stoi_show_int: "in_s32 i \<Longrightarrow> stoi (show_int i) = Some i"
  by (simp add: stoi_def scan_show_int)

end
