(* ===== verification/Bridge_Host.thy ===== *)
theory Bridge_Host
  imports Plugin_Hooks Chat_Template Decimal Config_Schema Scheduler
begin

text \<open>
  The host side of \<open>src/plugin_bridge/plugin_bridge.cpp\<close>: the functions of the host vtable that a
  plugin calls while it handles a request (settings, capabilities, request metadata, sub-calls of the
  engine, token injection) and the counters the bridge keeps. The world a plugin callback works on is
  the bridge's mutable state, the request context and whatever else the plugins own (\<open>'v\<close>). A null
  pointer argument is \<^const>\<open>None\<close>; a C string the bridge returns is given as the text it points to.
\<close>

section \<open>State\<close>

text \<open>\<open>truellm_context_t\<close>; the status sink is the list of what it received, if there is one.\<close>

record req_context =
  cx_request_id :: string
  cx_model_id :: string
  cx_model_arch :: string
  cx_token_budget :: int
  cx_max_tokens :: int
  cx_temperature :: real
  cx_status :: "string list option"
  cx_recursion_depth :: int
  cx_metadata :: "string \<rightharpoonup> string"

record runtime_counters =
  rc_attempted :: nat
  rc_claimed :: nat
  rc_failed :: nat
  rc_subcalls :: nat
  rc_depth_aborts :: nat
  rc_max_depth :: nat
  rc_inject_calls :: nat
  rc_inject_not_impl :: nat
  rc_per_plugin :: "(string \<times> nat) list"

record chat_outcomes =
  co_total :: nat
  co_with_session :: nat
  co_skipped :: nat
  co_phase :: "(string \<times> nat) list"
  co_strategy :: "(string \<times> nat) list"
  co_class :: "(string \<times> nat) list"
  co_failures_max :: nat

record research_outcomes =
  ro_total :: nat
  ro_subcalls :: nat
  ro_prompt :: nat
  ro_completion :: nat
  ro_effort :: "(string \<times> nat) list"
  ro_terminal :: "(string \<times> nat) list"

record host =
  ht_counters :: runtime_counters
  ht_chat :: chat_outcomes
  ht_research :: research_outcomes
  ht_config_cache :: "string \<rightharpoonup> string"
  ht_cap_cache :: "string \<rightharpoonup> string"

record 'v world =
  wd_host :: host
  wd_ctx :: req_context
  wd_rest :: 'v

definition u64_add :: "nat \<Rightarrow> nat \<Rightarrow> nat" where
  "u64_add a b = (a + b) mod 18446744073709551616"

text \<open>\<open>++m[k]\<close> on a map of 64-bit counters.\<close>

definition bump_count :: "string \<Rightarrow> (string \<times> nat) list \<Rightarrow> (string \<times> nat) list" where
  "bump_count k m =
     AList.update k (u64_add (case map_of m k of None \<Rightarrow> 0 | Some n \<Rightarrow> n) 1) m"

abbreviation upd_counters :: "(runtime_counters \<Rightarrow> runtime_counters) \<Rightarrow> 'v world \<Rightarrow> 'v world" where
  "upd_counters f w \<equiv> w\<lparr>wd_host := (wd_host w)\<lparr>ht_counters := f (ht_counters (wd_host w))\<rparr>\<rparr>"

section \<open>Request accessors\<close>

definition request_id :: "req_context option \<Rightarrow> string" where
  "request_id ctx = (case ctx of None \<Rightarrow> [] | Some c \<Rightarrow> cx_request_id c)"

definition token_budget :: "req_context option \<Rightarrow> int" where
  "token_budget ctx = (case ctx of None \<Rightarrow> 0 | Some c \<Rightarrow> cx_token_budget c)"

definition request_max_tokens :: "req_context option \<Rightarrow> int" where
  "request_max_tokens ctx = (case ctx of None \<Rightarrow> 0 | Some c \<Rightarrow> cx_max_tokens c)"

definition request_temperature :: "req_context option \<Rightarrow> real" where
  "request_temperature ctx = (case ctx of None \<Rightarrow> 7 / 10 | Some c \<Rightarrow> cx_temperature c)"

definition report_status :: "string option \<Rightarrow> req_context option \<Rightarrow> req_context option" where
  "report_status msg ctx =
     (case (ctx, msg) of
        (Some c, Some m) \<Rightarrow> Some (c\<lparr>cx_status := map_option (\<lambda>xs. xs @ [m]) (cx_status c)\<rparr>)
      | _ \<Rightarrow> ctx)"

definition set_metadata :: "string option \<Rightarrow> string option \<Rightarrow> req_context option \<Rightarrow> req_context option" where
  "set_metadata key val ctx =
     (case (ctx, key) of
        (Some c, Some k) \<Rightarrow> Some (c\<lparr>cx_metadata := (cx_metadata c)(k := val)\<rparr>)
      | _ \<Rightarrow> ctx)"

definition get_metadata :: "string option \<Rightarrow> req_context option \<Rightarrow> string option" where
  "get_metadata key ctx =
     (case (ctx, key) of (Some c, Some k) \<Rightarrow> cx_metadata c k | _ \<Rightarrow> None)"

section \<open>Settings and capabilities\<close>

definition qualified_key :: "string \<Rightarrow> string \<Rightarrow> string" where
  "qualified_key pid key = (if pid = [] then key else pid @ ''.'' @ key)"

definition find_setting :: "truellm_config \<Rightarrow> string \<Rightarrow> string \<Rightarrow> string option" where
  "find_setting cfg pid key =
     (case pl_settings (tc_plugins cfg) (qualified_key pid key) of
        Some v \<Rightarrow> Some v
      | None \<Rightarrow> if pid \<noteq> [] then pl_settings (tc_plugins cfg) key else None)"

definition get_config ::
  "truellm_config \<Rightarrow> string \<Rightarrow> string \<Rightarrow> (string \<rightharpoonup> string) \<Rightarrow> (string \<rightharpoonup> string) \<times> string option" where
  "get_config cfg pid key cache =
     (if key = [] then (cache, None)
      else case find_setting cfg pid key of
             None \<Rightarrow> (cache, None)
           | Some v \<Rightarrow>
               (case cache (qualified_key pid key) of
                  Some c \<Rightarrow> (cache, Some c)
                | None \<Rightarrow> (cache(qualified_key pid key \<mapsto> v), Some v)))"

definition get_engine_config :: "string option \<Rightarrow> string option \<Rightarrow> (string \<rightharpoonup> string) \<Rightarrow> string option" where
  "get_engine_config sec key cache =
     (case (sec, key) of (Some s, Some k) \<Rightarrow> cache (s @ ''.'' @ k) | _ \<Rightarrow> None)"

definition flag_text :: "bool \<Rightarrow> string" where
  "flag_text b = (if b then ''1'' else ''0'')"

definition capability_value :: "truellm_config \<Rightarrow> string \<Rightarrow> string option" where
  "capability_value cfg key =
     (let inf = tc_inference cfg in
      if key = ''compression.enabled'' then Some (flag_text (cp_enabled (inf_compression inf)))
      else if key = ''rlm.enabled'' then Some (flag_text (rm_enabled (inf_rlm inf)))
      else if key = ''rlm.max_hierarchy_depth'' then Some (show_int (rm_max_hierarchy_depth (inf_rlm inf)))
      else if key = ''megakernel.enabled'' then Some ''0''
      else if key = ''megakernel.tile_size'' then Some ''8''
      else if key = ''compression.attention_weights_available'' then Some ''0''
      else if key = ''compression.hidden_states_available'' then Some ''0''
      else None)"

definition get_server_capability ::
  "truellm_config \<Rightarrow> string option \<Rightarrow> (string \<rightharpoonup> string) \<Rightarrow> (string \<rightharpoonup> string) \<times> string option" where
  "get_server_capability cfg cap cache =
     (case cap of
        None \<Rightarrow> (cache, None)
      | Some key \<Rightarrow>
          (case cache key of
             Some v \<Rightarrow> (cache, Some v)
           | None \<Rightarrow>
               (case capability_value cfg key of
                  None \<Rightarrow> (cache, None)
                | Some v \<Rightarrow> (cache(key \<mapsto> v), Some v))))"

section \<open>Generators\<close>

definition count_outcome :: "gen_outcome \<Rightarrow> runtime_counters \<Rightarrow> runtime_counters" where
  "count_outcome out c =
     (let c1 = (if go_claimed out
                then c\<lparr>rc_claimed := u64_add (rc_claimed c) 1,
                       rc_per_plugin := (if go_plugin out = [] then rc_per_plugin c
                                         else bump_count (go_plugin out) (rc_per_plugin c))\<rparr>
                else c)
      in if go_claimed out \<and> \<not> go_ok out then c1\<lparr>rc_failed := u64_add (rc_failed c1) 1\<rparr> else c1)"

definition try_dispatch_generator ::
  "'v world gen_entry list \<Rightarrow> string \<Rightarrow> 'v world \<Rightarrow> 'v world \<times> gen_outcome" where
  "try_dispatch_generator gens msgs w =
     (let w1 = upd_counters (\<lambda>c. c\<lparr>rc_attempted := u64_add (rc_attempted c) 1\<rparr>) w;
          (w2, out) = gen_dispatch gens msgs w1
      in (upd_counters (count_outcome out) w2, out))"

section \<open>Sub-calls of the engine\<close>

record 'v engine =
  en_arch :: string
  en_tokenize :: "string \<Rightarrow> int list"
  en_generate :: "generate_request \<Rightarrow> 'v world \<Rightarrow> 'v world \<times> generate_result \<times> string list"
  en_inject :: "string \<Rightarrow> int \<Rightarrow> int list \<Rightarrow> 'v world \<Rightarrow> 'v world \<times> error_code"
  en_indet :: int

text \<open>\<open>en_generate\<close> also gives the texts streamed to the request's callback; \<open>en_indet\<close> is what an
  uninitialised field of a result reads as. The typed accessors of the JSON library:\<close>

record json_get =
  jg_float :: "json \<Rightarrow> real option"
  jg_s32 :: "json \<Rightarrow> int option"
  jg_bool :: "json \<Rightarrow> bool option"

record gen_params =
  gp_temperature :: real
  gp_max_tokens :: int
  gp_run_preps :: bool
  gp_session :: string

fun json_at :: "json \<Rightarrow> string \<Rightarrow> json option" where
  "json_at (JObj kvs) k = map_of kvs k"
| "json_at _ k = None"

text \<open>One field of the parameters; the flag is false after an exception, which ends the reading and
  keeps what was read so far.\<close>

definition read_param ::
  "string \<Rightarrow> (json \<Rightarrow> 'a option) \<Rightarrow> ('a \<Rightarrow> gen_params \<Rightarrow> gen_params) \<Rightarrow> json \<Rightarrow>
   gen_params \<times> bool \<Rightarrow> gen_params \<times> bool" where
  "read_param key conv upd jp st =
     (if \<not> snd st then st
      else case json_at jp key of
             None \<Rightarrow> st
           | Some v \<Rightarrow> (case conv v of None \<Rightarrow> (fst st, False) | Some x \<Rightarrow> (upd x (fst st), True)))"

fun read_session :: "json \<Rightarrow> gen_params \<times> bool \<Rightarrow> gen_params \<times> bool" where
  "read_session jp (p, cont) =
     (case (cont, json_at jp ''session_id'') of
        (True, Some (JStr s)) \<Rightarrow> (p\<lparr>gp_session := s\<rparr>, True)
      | _ \<Rightarrow> (p, cont))"

definition read_gen_params :: "json_api \<Rightarrow> json_get \<Rightarrow> req_context \<Rightarrow> string option \<Rightarrow> gen_params" where
  "read_gen_params api jg ctx text =
     (let base = \<lparr>gp_temperature = cx_temperature ctx, gp_max_tokens = cx_max_tokens ctx,
                   gp_run_preps = False, gp_session = []\<rparr>
      in case text of
           None \<Rightarrow> base
         | Some s \<Rightarrow>
             (case j_parse api s of
                None \<Rightarrow> base
              | Some jp \<Rightarrow>
                  fst (read_session jp
                    (read_param ''run_preprocessors'' (jg_bool jg) (\<lambda>x p. p\<lparr>gp_run_preps := x\<rparr>) jp
                      (read_param ''max_tokens'' (jg_s32 jg) (\<lambda>x p. p\<lparr>gp_max_tokens := x\<rparr>) jp
                        (read_param ''temperature'' (jg_float jg) (\<lambda>x p. p\<lparr>gp_temperature := x\<rparr>) jp
                          (base, True)))))))"

text \<open>What a sub-call gives its caller: the status, the text of the result pointer, the calls of the
  token callback (text and completion flag).\<close>

record call_answer =
  ca_error :: trl_error
  ca_json :: "string option"
  ca_tokens :: "(string \<times> bool) list"

definition call_failed :: "trl_error \<Rightarrow> call_answer" where
  "call_failed e = \<lparr>ca_error = e, ca_json = None, ca_tokens = []\<rparr>"

record call_args =
  ar_messages :: string
  ar_params :: "string option"
  ar_stream :: bool
  ar_want_json :: bool
  ar_alloc :: bool

text \<open>\<open>ar_alloc\<close>: the allocation of the result succeeds.\<close>

definition result_json :: "json_api \<Rightarrow> call_args \<Rightarrow> json \<Rightarrow> string option" where
  "result_json api ar j = (if ar_want_json ar \<and> ar_alloc ar then Some (j_dump api j) else None)"

text \<open>The depth test. A negative depth converts to a large \<open>uint64_t\<close>.\<close>

definition enter_subcall :: "truellm_config \<Rightarrow> int \<Rightarrow> 'v world \<Rightarrow> 'v world \<times> bool" where
  "enter_subcall cfg sub_depth w =
     (let d = nat (sub_depth mod 18446744073709551616);
          w1 = upd_counters (\<lambda>c. c\<lparr>rc_subcalls := u64_add (rc_subcalls c) 1,
                 rc_max_depth := max d (rc_max_depth c)\<rparr>) w
      in if sub_depth > rm_max_hierarchy_depth (inf_rlm (tc_inference cfg))
         then (upd_counters (\<lambda>c. c\<lparr>rc_depth_aborts := u64_add (rc_depth_aborts c) 1\<rparr>) w1, False)
         else (w1, True))"

definition metadata_number :: "(string \<rightharpoonup> string) \<Rightarrow> string \<Rightarrow> int" where
  "metadata_number m k =
     (case m k of None \<Rightarrow> 0 | Some s \<Rightarrow> (case stoll s of None \<Rightarrow> 0 | Some x \<Rightarrow> x))"

definition bump_usage :: "string \<Rightarrow> int \<Rightarrow> (string \<rightharpoonup> string) \<Rightarrow> (string \<rightharpoonup> string) exec" where
  "bump_usage k delta m =
     (let x = metadata_number m k + delta
      in if in_s64 x then Inr (m(k \<mapsto> show_int x)) else Inl SignedOverflow)"

definition record_usage :: "int \<Rightarrow> int \<Rightarrow> 'v world \<Rightarrow> 'v world exec" where
  "record_usage prompt completion w =
     ebind (bump_usage ''research.subcall_prompt_tokens'' prompt (cx_metadata (wd_ctx w))) (\<lambda>m1.
     ebind (bump_usage ''research.subcall_completion_tokens'' completion m1) (\<lambda>m2.
     ebind (bump_usage ''research.subcall_count'' 1 m2) (\<lambda>m3.
       Inr (w\<lparr>wd_ctx := (wd_ctx w)\<lparr>cx_metadata := m3\<rparr>\<rparr>))))"

definition subcall_request :: "'v engine \<Rightarrow> gen_params \<Rightarrow> bool \<Rightarrow> string \<Rightarrow> generate_request" where
  "subcall_request eng p stream_it prompt =
     \<lparr>g_tokens = en_tokenize eng prompt, g_max_tokens = gp_max_tokens p,
      g_temperature = gp_temperature p, g_top_p = 95 / 100, g_top_k = 40,
      g_repeat_penalty = 11 / 10, g_on_token = stream_it, g_stop_tokens = [], g_stop = [],
      g_grammar = [], g_grammar_lazy = False,
      g_request_id = [], g_session_id = gp_session p\<rparr>"

definition run_subcall ::
  "truellm_config \<Rightarrow> json_api \<Rightarrow> 'v engine \<Rightarrow> gen_params \<Rightarrow> call_args \<Rightarrow> string \<Rightarrow> 'v world \<Rightarrow>
   ('v world \<times> call_answer) exec option" where
  "run_subcall cfg api eng p ar msgs w =
     (let w1 = (if gp_session p = [] then w
                else w\<lparr>wd_ctx := (wd_ctx w)\<lparr>cx_metadata :=
                  (cx_metadata (wd_ctx w))(''call_engine.sub_session_id'' \<mapsto> gp_session p)\<rparr>\<rparr>);
          tmpl = resolve_template (md_chat_template (tc_model cfg)) (en_arch eng)
      in case apply_chat_template_str api msgs tmpl of
           None \<Rightarrow> None
         | Some text \<Rightarrow>
             (let prompt = (if text = [] then msgs else text);
                  (w2, res, pieces) = en_generate eng (subcall_request eng p (ar_stream ar) prompt) w1;
                  streamed = (if ar_stream ar then map (\<lambda>t. (c_str t, False)) pieces else [])
              in if r_error res \<noteq> Ok
                 then Some (Inr (w2, (call_failed Err_Internal)\<lparr>ca_tokens := streamed\<rparr>))
                 else
                   (let pt = (case r_prompt_tokens res of Some n \<Rightarrow> n | None \<Rightarrow> en_indet eng);
                        ct = (case r_generated_tokens res of Some n \<Rightarrow> n | None \<Rightarrow> en_indet eng);
                        j = JObj [(''text'', JStr (r_text res)),
                              (''finish_reason'', JStr (r_finish_reason res)),
                              (''prompt_tokens'', JInt pt), (''completion_tokens'', JInt ct)]
                    in Some (ebind (record_usage pt ct w2) (\<lambda>w3.
                         Inr (w3, \<lparr>ca_error = Err_Ok, ca_json = result_json api ar j,
                           ca_tokens = streamed @ (if ar_stream ar then [([], True)] else [])\<rparr>))))))"

text \<open>\<open>vtable_call_engine\<close>. \<^const>\<open>None\<close> is an exception that leaves the function.\<close>

definition call_engine ::
  "truellm_config \<Rightarrow> json_api \<Rightarrow> json_get \<Rightarrow> 'v engine option \<Rightarrow> 'v world prep_entry list \<Rightarrow> bool \<Rightarrow>
   string option \<Rightarrow> call_args \<Rightarrow> 'v world \<Rightarrow> ('v world \<times> call_answer) exec option" where
  "call_engine cfg api jg engine preps has_ctx messages ar w =
     (case (engine, has_ctx, messages) of
        (Some eng, True, Some msgs) \<Rightarrow>
          (if \<not> in_s32 (cx_recursion_depth (wd_ctx w) + 1) then Some (Inl SignedOverflow)
           else
             (let (w1, allowed) = enter_subcall cfg (cx_recursion_depth (wd_ctx w) + 1) w;
                  p = read_gen_params api jg (wd_ctx w1) (ar_params ar)
              in if \<not> allowed then Some (Inr (w1, call_failed Err_Abort))
                 else if gp_run_preps p \<and> has_preprocessors preps then
                   (let (w2, r) = run_chain preps msgs w1
                    in case psr_decision r of
                         Abort \<Rightarrow> Some (Inr (w2, call_failed Err_Invalid))
                       | Respond \<Rightarrow> Some (Inr (w2, \<lparr>ca_error = Err_Ok,
                           ca_json = result_json api ar (JObj [(''text'', JStr (psr_response r)),
                             (''finish_reason'', JStr ''preprocessor_respond'')]),
                           ca_tokens = (if ar_stream ar
                             then [(c_str (psr_response r), False), ([], True)] else [])\<rparr>))
                       | Pass \<Rightarrow> run_subcall cfg api eng p ar
                           (if psr_messages r \<noteq> [] then psr_messages r else msgs) w2)
                 else run_subcall cfg api eng p ar msgs w1))
      | (Some eng, True, None) \<Rightarrow> Some (Inr (w, call_failed Err_Invalid))
      | _ \<Rightarrow> Some (Inr (w, call_failed Err_Internal)))"

section \<open>Token injection\<close>

fun token_id :: "json \<Rightarrow> int option" where
  "token_id (JInt i) = Some (cast_s32 i)"
| "token_id _ = None"

fun token_ids :: "json list \<Rightarrow> int list option" where
  "token_ids [] = Some []"
| "token_ids (v # vs) =
     (case (token_id v, token_ids vs) of (Some t, Some ts) \<Rightarrow> Some (t # ts) | _ \<Rightarrow> None)"

definition inject_tokens ::
  "json_api \<Rightarrow> 'v engine option \<Rightarrow> bool \<Rightarrow> int \<Rightarrow> string option \<Rightarrow> 'v world \<Rightarrow> 'v world \<times> trl_error" where
  "inject_tokens api engine has_ctx pos tokens w =
     (let w1 = upd_counters (\<lambda>c. c\<lparr>rc_inject_calls := u64_add (rc_inject_calls c) 1\<rparr>) w
      in case (has_ctx, tokens) of
           (True, Some text) \<Rightarrow>
             (case engine of
                None \<Rightarrow> (w1, Err_Internal)
              | Some eng \<Rightarrow>
                  (case j_parse api text of
                     Some (JArr vs) \<Rightarrow>
                       (case token_ids vs of
                          None \<Rightarrow> (w1, Err_Invalid)
                        | Some [] \<Rightarrow> (w1, Err_Invalid)
                        | Some (t # ts) \<Rightarrow>
                            (let (w2, ec) = en_inject eng (cx_request_id (wd_ctx w1)) pos (t # ts) w1
                             in case ec of
                                  Ok \<Rightarrow> (w2, Err_Ok)
                                | InvalidArgument \<Rightarrow> (w2, Err_Invalid)
                                | NotImplemented \<Rightarrow>
                                    (upd_counters (\<lambda>c. c\<lparr>rc_inject_not_impl :=
                                       u64_add (rc_inject_not_impl c) 1\<rparr>) w2, Err_NotFound)
                                | _ \<Rightarrow> (w2, Err_Internal)))
                   | _ \<Rightarrow> (w1, Err_Invalid)))
         | _ \<Rightarrow> (w1, Err_Invalid))"

section \<open>Outcome counters\<close>

definition pull :: "(string \<rightharpoonup> string) \<Rightarrow> string \<Rightarrow> string" where
  "pull m k = (case m k of None \<Rightarrow> [] | Some v \<Rightarrow> v)"

definition count_nonempty :: "string \<Rightarrow> (string \<times> nat) list \<Rightarrow> (string \<times> nat) list" where
  "count_nonempty k m = (if k = [] then m else bump_count k m)"

definition record_chat_outcome :: "req_context option \<Rightarrow> chat_outcomes \<Rightarrow> chat_outcomes" where
  "record_chat_outcome ctx c =
     (case ctx of
        None \<Rightarrow> c
      | Some x \<Rightarrow>
          (let m = cx_metadata x; strategy = pull m ''chat.compact_strategy''
           in \<lparr>co_total = u64_add (co_total c) 1,
               co_with_session = (if pull m ''session.id'' \<noteq> [] then u64_add (co_with_session c) 1
                                  else co_with_session c),
               co_skipped = (if strategy = [] then u64_add (co_skipped c) 1 else co_skipped c),
               co_phase = count_nonempty (pull m ''chat.compact_phase'') (co_phase c),
               co_strategy = count_nonempty strategy (co_strategy c),
               co_class = count_nonempty (pull m ''safety.classification'') (co_class c),
               co_failures_max =
                 (let f = pull m ''chat.consecutive_compact_failures''
                  in if f = [] then co_failures_max c
                     else case stoull f of
                            None \<Rightarrow> co_failures_max c
                          | Some n \<Rightarrow> max n (co_failures_max c))\<rparr>))"

definition record_research_outcome :: "req_context option \<Rightarrow> research_outcomes \<Rightarrow> research_outcomes" where
  "record_research_outcome ctx c =
     (case ctx of
        None \<Rightarrow> c
      | Some x \<Rightarrow>
          (let m = cx_metadata x;
               num = (\<lambda>k. nat (metadata_number m k mod 18446744073709551616))
           in if pull m ''mode'' \<noteq> ''research'' then c
              else \<lparr>ro_total = u64_add (ro_total c) 1,
                    ro_subcalls = u64_add (ro_subcalls c) (num ''research.subcall_count''),
                    ro_prompt = u64_add (ro_prompt c) (num ''research.subcall_prompt_tokens''),
                    ro_completion = u64_add (ro_completion c) (num ''research.subcall_completion_tokens''),
                    ro_effort = count_nonempty (pull m ''effort'') (ro_effort c),
                    ro_terminal = count_nonempty (pull m ''research.terminal_reason'') (ro_terminal c)\<rparr>))"

end
