(* ===== verification/Bridge_Properties.thy ===== *)
theory Bridge_Properties
  imports Bridge_Host
begin

text \<open>
  Properties of the host functions in \<^theory_text>\<open>Bridge_Host\<close>: the settings cache against a fresh lookup, the
  depth limit and the usage accounting of engine sub-calls, the outcome counters against the list of
  requests they summarise, and the token identifiers that \<open>inject_tokens\<close> passes on.
\<close>

section \<open>The settings cache\<close>

definition after_lookups :: "truellm_config \<Rightarrow> (string \<times> string) list \<Rightarrow> (string \<rightharpoonup> string)" where
  "after_lookups cfg hist = fold (\<lambda>(p, k) c. fst (get_config cfg p k c)) hist Map.empty"

definition no_dot :: "string \<Rightarrow> bool" where
  "no_dot p \<longleftrightarrow> CHR ''.'' \<notin> set p"

definition cache_ok :: "truellm_config \<Rightarrow> (string \<rightharpoonup> string) \<Rightarrow> bool" where
  "cache_ok cfg cache \<longleftrightarrow>
     (\<forall>q v. cache q = Some v \<longrightarrow>
        (\<exists>p k. no_dot p \<and> q = qualified_key p k \<and> find_setting cfg p k = Some v))"

lemma setting_by_key:
  assumes "no_dot p" and "no_dot p'" and "qualified_key p k = qualified_key p' k'"
    and "find_setting cfg p k = Some v" and "find_setting cfg p' k' = Some v'"
  shows "v = v'"
proof (cases "p = [] \<longleftrightarrow> p' = []")
  case True
  then have "p = p' \<and> k = k'"
    using assms(1-3) split_at_char [of "CHR ''.''" p p' k k']
    by (cases "p = []") (auto simp: qualified_key_def no_dot_def)
  with assms(4,5) show ?thesis by simp
next
  case False
  with assms(3-5) show ?thesis
    by (cases "p = []") (auto simp: find_setting_def qualified_key_def split: option.splits)
qed

lemma get_config_cache_ok:
  assumes "cache_ok cfg cache" and "no_dot p"
  shows "cache_ok cfg (fst (get_config cfg p k cache))"
    and "snd (get_config cfg p k cache) = snd (get_config cfg p k Map.empty)"
proof -
  show "cache_ok cfg (fst (get_config cfg p k cache))"
    using assms by (auto simp: get_config_def cache_ok_def split: option.splits)
  show "snd (get_config cfg p k cache) = snd (get_config cfg p k Map.empty)"
  proof (cases "find_setting cfg p k")
    case (Some v)
    have "c = v" if c: "cache (qualified_key p k) = Some c" for c
    proof -
      obtain p' k' where "no_dot p'" "qualified_key p k = qualified_key p' k'"
        "find_setting cfg p' k' = Some c" using assms(1) c unfolding cache_ok_def by metis
      with setting_by_key [OF assms(2)] Some show ?thesis by metis
    qed
    with Some show ?thesis by (auto simp: get_config_def split: option.split)
  qed (simp add: get_config_def)
qed

lemma after_lookups_ok: "\<forall>(p, k) \<in> set hist. no_dot p \<Longrightarrow> cache_ok cfg (after_lookups cfg hist)"
proof (induction hist rule: rev_induct)
  case Nil
  then show ?case by (simp add: after_lookups_def cache_ok_def)
next
  case (snoc h hist)
  then show ?case
    using get_config_cache_ok(1) by (cases h) (auto simp: after_lookups_def)
qed

text \<open>As long as no plugin id holds a dot, the cache of the settings is invisible: after any history of
  lookups by any plugins, a lookup answers what it would have answered first.\<close>

theorem config_cache_transparent:
  assumes "\<forall>(p, k) \<in> set hist. no_dot p" and "no_dot pid"
  shows "snd (get_config cfg pid key (after_lookups cfg hist)) =
         snd (get_config cfg pid key Map.empty)"
  by (rule get_config_cache_ok(2) [OF after_lookups_ok [OF assms(1)] assms(2)])

definition demo_settings :: truellm_config where
  "demo_settings = default_truellm\<lparr>tc_plugins := default_plugin\<lparr>pl_settings :=
     [''b.c'' \<mapsto> ''1'', ''c'' \<mapsto> ''2'']\<rparr>\<rparr>"

theorem config_cache_transparent_witness:
  "snd (get_config demo_settings ''a'' ''c'' (after_lookups demo_settings [(''a'', ''b.c''), (''b'', ''c'')])) =
   snd (get_config demo_settings ''a'' ''c'' Map.empty)"
  by (rule config_cache_transparent) (simp_all add: no_dot_def)

text \<open>With dots in the ids two plugins can share a cache entry, and the second one gets the first one's
  value.\<close>

theorem config_cache_collision:
  assumes "pl_settings (tc_plugins cfg) (a @ ''.'' @ b @ ''.'' @ c) = None"
    and "pl_settings (tc_plugins cfg) (b @ ''.'' @ c) = Some x"
    and "pl_settings (tc_plugins cfg) c = Some y" and "a \<noteq> []" and "c \<noteq> []"
  shows "snd (get_config cfg (a @ ''.'' @ b) c Map.empty) = Some y \<and>
    snd (get_config cfg (a @ ''.'' @ b) c (after_lookups cfg [(a, b @ ''.'' @ c)])) = Some x"
  using assms by (simp_all add: get_config_def find_setting_def qualified_key_def after_lookups_def)

theorem config_cache_collision_witness:
  "snd (get_config demo_settings ''a.b'' ''c'' Map.empty) = Some ''2'' \<and>
   snd (get_config demo_settings ''a.b'' ''c'' (after_lookups demo_settings [(''a'', ''b.c'')])) = Some ''1''"
  using config_cache_collision [of demo_settings "''a''" "''b''" "''c''" "''1''" "''2''"]
  by (simp add: demo_settings_def)

section \<open>Outcome counters\<close>

definition no_chat :: chat_outcomes where
  "no_chat = \<lparr>co_total = 0, co_with_session = 0, co_skipped = 0, co_phase = [], co_strategy = [],
     co_class = [], co_failures_max = 0\<rparr>"

definition count_of :: "(string \<times> nat) list \<Rightarrow> string \<Rightarrow> nat" where
  "count_of m k = (case map_of m k of None \<Rightarrow> 0 | Some n \<Rightarrow> n)"

lemma count_of_bump [simp]:
  "count_of (bump_count k m) j = (if j = k then u64_add (count_of m k) 1 else count_of m j)"
  by (simp add: count_of_def bump_count_def)

lemma count_of_Nil [simp]: "count_of [] k = 0"
  by (simp add: count_of_def)

lemma u64_add_mod: "u64_add (n mod 18446744073709551616) (Suc 0) = Suc n mod 18446744073709551616"
  by (simp add: u64_add_def mod_simps)

definition field_of :: "string \<Rightarrow> req_context \<Rightarrow> string" where
  "field_of k x = pull (cx_metadata x) k"

text \<open>A map of counters that counts the nonempty values in a list.\<close>

definition tallies :: "(string \<times> nat) list \<Rightarrow> string list \<Rightarrow> bool" where
  "tallies m vs \<longleftrightarrow>
     (\<forall>k. count_of m k = (if k = [] then 0 else count_list vs k mod 18446744073709551616))"

lemma tallies_Nil: "tallies [] []"
  by (simp add: tallies_def)

lemma tallies_snoc: "tallies m vs \<Longrightarrow> tallies (count_nonempty v m) (vs @ [v])"
  by (auto simp: tallies_def count_nonempty_def u64_add_mod)

definition requests :: "req_context option list \<Rightarrow> req_context list" where
  "requests hist = map the (filter (\<lambda>x. x \<noteq> None) hist)"

lemma requests_simps:
  "requests [] = []" "requests (hist @ [None]) = requests hist"
  "requests (hist @ [Some x]) = requests hist @ [x]"
  by (simp_all add: requests_def)

definition more_failures :: "req_context \<Rightarrow> nat \<Rightarrow> nat" where
  "more_failures x n =
     (case stoull (field_of ''chat.consecutive_compact_failures'' x) of None \<Rightarrow> n | Some i \<Rightarrow> max i n)"

definition worst_failures :: "req_context list \<Rightarrow> nat" where
  "worst_failures xs = fold more_failures xs 0"

lemma worst_failures_snoc: "worst_failures (xs @ [x]) = more_failures x (worst_failures xs)"
  by (simp add: worst_failures_def)

lemma stoull_Nil [simp]: "stoull [] = None"
  by (simp add: stoull_def scan_number_def)

lemma record_chat_fields:
  "co_total (record_chat_outcome (Some x) c) = u64_add (co_total c) 1"
  "co_with_session (record_chat_outcome (Some x) c) =
     (if field_of ''session.id'' x \<noteq> [] then u64_add (co_with_session c) 1 else co_with_session c)"
  "co_skipped (record_chat_outcome (Some x) c) =
     (if field_of ''chat.compact_strategy'' x = [] then u64_add (co_skipped c) 1 else co_skipped c)"
  "co_strategy (record_chat_outcome (Some x) c) =
     count_nonempty (field_of ''chat.compact_strategy'' x) (co_strategy c)"
  "co_phase (record_chat_outcome (Some x) c) =
     count_nonempty (field_of ''chat.compact_phase'' x) (co_phase c)"
  "co_class (record_chat_outcome (Some x) c) =
     count_nonempty (field_of ''safety.classification'' x) (co_class c)"
  "co_failures_max (record_chat_outcome (Some x) c) = more_failures x (co_failures_max c)"
  by (simp_all add: record_chat_outcome_def Let_def field_of_def more_failures_def split: option.split)

lemma record_chat_none: "record_chat_outcome None c = c"
  by (simp add: record_chat_outcome_def)

text \<open>After any history of completed requests the chat outcomes are exactly the tallies of the requests'
  metadata: how many there were, with a session id, without a compaction strategy, and per phase,
  strategy and safety class, all modulo \<open>2 ^ 64\<close>.\<close>

theorem chat_outcomes_tally:
  "let s = fold record_chat_outcome hist no_chat; rs = requests hist in
     co_total s = length rs mod 18446744073709551616 \<and>
     co_with_session s = length (filter (\<lambda>x. field_of ''session.id'' x \<noteq> []) rs) mod 18446744073709551616 \<and>
     co_skipped s = length (filter (\<lambda>x. field_of ''chat.compact_strategy'' x = []) rs)
       mod 18446744073709551616 \<and>
     tallies (co_strategy s) (map (field_of ''chat.compact_strategy'') rs) \<and>
     tallies (co_phase s) (map (field_of ''chat.compact_phase'') rs) \<and>
     tallies (co_class s) (map (field_of ''safety.classification'') rs) \<and>
     co_failures_max s = worst_failures rs"
proof (induction hist rule: rev_induct)
  case Nil
  then show ?case by (simp add: no_chat_def requests_simps tallies_Nil worst_failures_def)
next
  case (snoc h hist)
  show ?case
  proof (cases h)
    case None
    with snoc show ?thesis by (simp add: record_chat_none requests_simps)
  next
    case (Some x)
    with snoc show ?thesis
      by (simp add: record_chat_fields requests_simps Let_def tallies_snoc u64_add_mod worst_failures_snoc)
  qed
qed

text \<open>A count of failures with a minus sign is accepted and becomes the largest possible.\<close>

lemma negative_failures: "stoull ''-1'' = Some 18446744073709551615"
  by (simp add: stoull_def scan_number_def is_space_def is_digit_def digits_value_def)

section \<open>Sub-calls\<close>

definition usage_keys :: "string set" where
  "usage_keys = {''research.subcall_prompt_tokens'', ''research.subcall_completion_tokens'',
     ''research.subcall_count''}"

text \<open>Room in the usage numbers for \<open>k\<close> more sub-calls of less than \<open>2 ^ 31\<close> tokens each.\<close>

definition usage_room :: "nat \<Rightarrow> (string \<rightharpoonup> string) \<Rightarrow> bool" where
  "usage_room k m \<longleftrightarrow>
     (\<forall>key \<in> usage_keys. 0 \<le> metadata_number m key \<and>
        metadata_number m key + int k * 2147483648 \<le> 9223372036854775807)"

lemma bump_usage_ok:
  assumes "in_s64 (metadata_number m k + d)"
  shows "bump_usage k d m = Inr (m(k \<mapsto> show_int (metadata_number m k + d)))"
    and "metadata_number (m(k \<mapsto> show_int (metadata_number m k + d))) j =
         (if j = k then metadata_number m k + d else metadata_number m j)"
  using assms by (simp_all add: bump_usage_def metadata_number_def stoll_show_int)

lemma bump_usage_obtain:
  assumes "in_s64 (metadata_number m k + d)"
  obtains m' where "bump_usage k d m = Inr m'"
    "\<And>j. metadata_number m' j = (if j = k then metadata_number m k + d else metadata_number m j)"
  using bump_usage_ok [OF assms] by blast

lemma bump_three:
  assumes "distinct [k1, k2, k3]" and "in_s64 (metadata_number m k1 + d1)"
    and "in_s64 (metadata_number m k2 + d2)" and "in_s64 (metadata_number m k3 + d3)"
  obtains m1 m2 m3 where "bump_usage k1 d1 m = Inr m1" "bump_usage k2 d2 m1 = Inr m2"
    "bump_usage k3 d3 m2 = Inr m3"
    "metadata_number m3 k1 = metadata_number m k1 + d1"
    "metadata_number m3 k2 = metadata_number m k2 + d2"
    "metadata_number m3 k3 = metadata_number m k3 + d3"
proof -
  obtain m1 where 1: "bump_usage k1 d1 m = Inr m1"
    "\<And>j. metadata_number m1 j = (if j = k1 then metadata_number m k1 + d1 else metadata_number m j)"
    using bump_usage_obtain [OF assms(2)] by blast
  with assms have "in_s64 (metadata_number m1 k2 + d2)" by auto
  then obtain m2 where 2: "bump_usage k2 d2 m1 = Inr m2"
    "\<And>j. metadata_number m2 j = (if j = k2 then metadata_number m1 k2 + d2 else metadata_number m1 j)"
    using bump_usage_obtain by blast
  with 1 assms have "in_s64 (metadata_number m2 k3 + d3)" by auto
  then obtain m3 where 3: "bump_usage k3 d3 m2 = Inr m3"
    "\<And>j. metadata_number m3 j = (if j = k3 then metadata_number m2 k3 + d3 else metadata_number m2 j)"
    using bump_usage_obtain by blast
  show thesis
    by (rule that [OF 1(1) 2(1) 3(1)]) (use assms(1) in \<open>auto simp: 1(2) 2(2) 3(2)\<close>)
qed

lemma record_usage_ok:
  assumes "usage_room (Suc k) (cx_metadata (wd_ctx w))"
    and "0 \<le> p" and "p < 2147483648" and "0 \<le> c" and "c < 2147483648"
  obtains m where
    "record_usage p c w = Inr (w\<lparr>wd_ctx := (wd_ctx w)\<lparr>cx_metadata := m\<rparr>\<rparr>)"
    "usage_room k m"
    "metadata_number m ''research.subcall_count'' =
       metadata_number (cx_metadata (wd_ctx w)) ''research.subcall_count'' + 1"
    "metadata_number m ''research.subcall_prompt_tokens'' =
       metadata_number (cx_metadata (wd_ctx w)) ''research.subcall_prompt_tokens'' + p"
    "metadata_number m ''research.subcall_completion_tokens'' =
       metadata_number (cx_metadata (wd_ctx w)) ''research.subcall_completion_tokens'' + c"
proof -
  let ?m0 = "cx_metadata (wd_ctx w)"
  let ?pk = "''research.subcall_prompt_tokens''" and ?ck = "''research.subcall_completion_tokens''"
    and ?nk = "''research.subcall_count''"
  have r: "0 \<le> metadata_number ?m0 j \<and>
      metadata_number ?m0 j + int (Suc k) * 2147483648 \<le> 9223372036854775807"
    if "j \<in> {?pk, ?ck, ?nk}" for j using assms(1) that unfolding usage_room_def usage_keys_def by blast
  have keys: "?pk \<in> {?pk, ?ck, ?nk}" "?ck \<in> {?pk, ?ck, ?nk}" "?nk \<in> {?pk, ?ck, ?nk}" by simp_all
  have d: "distinct [?pk, ?ck, ?nk]" by simp
  have s: "in_s64 (metadata_number ?m0 ?pk + p)" "in_s64 (metadata_number ?m0 ?ck + c)"
    "in_s64 (metadata_number ?m0 ?nk + 1)"
    using r [OF keys(1)] r [OF keys(2)] r [OF keys(3)] assms(2-5) by (simp_all add: in_s64_def)
  obtain m1 m2 m3 where b: "bump_usage ?pk p ?m0 = Inr m1" "bump_usage ?ck c m1 = Inr m2"
    "bump_usage ?nk 1 m2 = Inr m3"
    and n: "metadata_number m3 ?pk = metadata_number ?m0 ?pk + p"
    "metadata_number m3 ?ck = metadata_number ?m0 ?ck + c"
    "metadata_number m3 ?nk = metadata_number ?m0 ?nk + 1"
    by (rule bump_three [OF d s])
  show thesis
  proof (rule that [OF _ _ n(3) n(1) n(2)])
    show "record_usage p c w = Inr (w\<lparr>wd_ctx := (wd_ctx w)\<lparr>cx_metadata := m3\<rparr>\<rparr>)"
      by (simp only: record_usage_def b ebind_Inr)
    show "usage_room k m3"
      unfolding usage_room_def usage_keys_def ball_simps n
      using r [OF keys(1)] r [OF keys(2)] r [OF keys(3)] assms(2-5) by simp
  qed
qed

text \<open>An engine that does not call back, and answers every request with fewer than \<open>2 ^ 31\<close> tokens.\<close>

definition plain_engine :: "'v engine \<Rightarrow> bool" where
  "plain_engine eng \<longleftrightarrow>
     (\<forall>req w. \<exists>res pieces p c. en_generate eng req w = (w, res, pieces) \<and> r_error res = Ok \<and>
        r_prompt_tokens res = Some p \<and> r_generated_tokens res = Some c \<and>
        0 \<le> p \<and> p < 2147483648 \<and> 0 \<le> c \<and> c < 2147483648)"

text \<open>\<open>n\<close> nested sub-calls on one context: while the engine generates, a callback makes the same call
  again.\<close>

primrec nested_engine ::
  "truellm_config \<Rightarrow> json_api \<Rightarrow> json_get \<Rightarrow> 'v engine \<Rightarrow> string \<Rightarrow> call_args \<Rightarrow> nat \<Rightarrow> 'v engine" where
  "nested_engine cfg api jg eng msgs ar 0 = eng"
| "nested_engine cfg api jg eng msgs ar (Suc n) = eng\<lparr>en_generate := (\<lambda>req w.
     case call_engine cfg api jg (Some (nested_engine cfg api jg eng msgs ar n)) [] True (Some msgs) ar w of
       Some (Inr (w', _)) \<Rightarrow> en_generate eng req w'
     | _ \<Rightarrow> en_generate eng req w)\<rparr>"

definition depth_of :: "'v world \<Rightarrow> int" where
  "depth_of w = cx_recursion_depth (wd_ctx w)"

definition aborts_of :: "'v world \<Rightarrow> nat" where
  "aborts_of w = rc_depth_aborts (ht_counters (wd_host w))"

definition subcalls_of :: "'v world \<Rightarrow> int" where
  "subcalls_of w = metadata_number (cx_metadata (wd_ctx w)) ''research.subcall_count''"

text \<open>The effect of one or more successful sub-calls.\<close>

definition calls_done :: "nat \<Rightarrow> nat \<Rightarrow> 'v world \<Rightarrow> 'v world \<Rightarrow> bool" where
  "calls_done n k w w' \<longleftrightarrow> depth_of w' = depth_of w \<and> aborts_of w' = aborts_of w \<and>
     subcalls_of w' = subcalls_of w + int n \<and> usage_room k (cx_metadata (wd_ctx w'))"

lemma usage_room_other:
  "key \<notin> usage_keys \<Longrightarrow> usage_room k (m(key \<mapsto> v)) \<longleftrightarrow> usage_room k m"
  by (auto simp: usage_room_def metadata_number_def)

lemma run_subcall_plain:
  assumes "apply_chat_template_str api msgs
      (resolve_template (md_chat_template (tc_model cfg)) (en_arch eng)) \<noteq> None"
    and gen: "\<And>req v. usage_room (Suc (n + k)) (cx_metadata (wd_ctx v)) \<Longrightarrow> depth_of v = depth_of w \<Longrightarrow>
      \<exists>w2 res pieces p c. en_generate eng req v = (w2, res, pieces) \<and> r_error res = Ok \<and>
        r_prompt_tokens res = Some p \<and> r_generated_tokens res = Some c \<and>
        0 \<le> p \<and> p < 2147483648 \<and> 0 \<le> c \<and> c < 2147483648 \<and> calls_done n (Suc k) v w2"
    and room: "usage_room (Suc (n + k)) (cx_metadata (wd_ctx w))"
  shows "\<exists>w' a. run_subcall cfg api eng gp ar msgs w = Some (Inr (w', a)) \<and> ca_error a = Err_Ok \<and>
    calls_done (Suc n) k w w'"
proof -
  obtain ptext where ptext: "apply_chat_template_str api msgs
      (resolve_template (md_chat_template (tc_model cfg)) (en_arch eng)) = Some ptext"
    using assms(1) by auto
  define w1 where "w1 = (if gp_session gp = [] then w
    else w\<lparr>wd_ctx := (wd_ctx w)\<lparr>cx_metadata :=
      (cx_metadata (wd_ctx w))(''call_engine.sub_session_id'' \<mapsto> gp_session gp)\<rparr>\<rparr>)"
  have w1: "usage_room (Suc (n + k)) (cx_metadata (wd_ctx w1))" "depth_of w1 = depth_of w"
    "aborts_of w1 = aborts_of w" "subcalls_of w1 = subcalls_of w"
    using room usage_room_other [of "''call_engine.sub_session_id''"]
    by (simp_all add: w1_def depth_of_def aborts_of_def subcalls_of_def metadata_number_def usage_keys_def)
  define prompt where "prompt = (if ptext = [] then msgs else ptext)"
  obtain w2 res pieces p c where g:
    "en_generate eng (subcall_request eng gp (ar_stream ar) prompt) w1 = (w2, res, pieces)"
    "r_error res = Ok" "r_prompt_tokens res = Some p" "r_generated_tokens res = Some c"
    "0 \<le> p" "p < 2147483648" "0 \<le> c" "c < 2147483648" "calls_done n (Suc k) w1 w2"
    using gen [OF w1(1,2)] by blast
  have room2: "usage_room (Suc k) (cx_metadata (wd_ctx w2))" using g(9) by (simp add: calls_done_def)
  obtain m where m: "record_usage p c w2 = Inr (w2\<lparr>wd_ctx := (wd_ctx w2)\<lparr>cx_metadata := m\<rparr>\<rparr>)"
    "usage_room k m" "metadata_number m ''research.subcall_count'' =
       metadata_number (cx_metadata (wd_ctx w2)) ''research.subcall_count'' + 1"
    using record_usage_ok [OF room2 g(5-8)] by metis
  have fin: "calls_done (Suc n) k w (w2\<lparr>wd_ctx := (wd_ctx w2)\<lparr>cx_metadata := m\<rparr>\<rparr>)"
    using g(9) w1(2-4) m(2,3) by (simp add: calls_done_def depth_of_def aborts_of_def subcalls_of_def)
  show ?thesis
    unfolding run_subcall_def Let_def w1_def [symmetric] ptext option.case prompt_def [symmetric] g(1)
      prod.case g(3,4) m(1)
    using fin g(2) by simp
qed

lemma call_engine_plain:
  assumes "depth_of w + 1 \<le> rm_max_hierarchy_depth (inf_rlm (tc_inference cfg))"
    and "in_s32 (depth_of w + 1)"
    and "\<And>gp w1. usage_room (Suc (n + k)) (cx_metadata (wd_ctx w1)) \<Longrightarrow> depth_of w1 = depth_of w \<Longrightarrow>
      \<exists>w' a. run_subcall cfg api eng gp ar msgs w1 = Some (Inr (w', a)) \<and> ca_error a = Err_Ok \<and>
        calls_done (Suc n) k w1 w'"
    and "usage_room (Suc (n + k)) (cx_metadata (wd_ctx w))"
  shows "\<exists>w' a. call_engine cfg api jg (Some eng) [] True (Some msgs) ar w = Some (Inr (w', a)) \<and>
    ca_error a = Err_Ok \<and> calls_done (Suc n) k w w'"
proof -
  define w1 where "w1 = fst (enter_subcall cfg (depth_of w + 1) w)"
  have e: "enter_subcall cfg (depth_of w + 1) w = (w1, True)"
    using assms(1) by (simp add: w1_def enter_subcall_def Let_def)
  have w1: "wd_ctx w1 = wd_ctx w" "aborts_of w1 = aborts_of w"
    using assms(1) by (simp_all add: w1_def enter_subcall_def Let_def aborts_of_def)
  then have d: "depth_of w1 = depth_of w" "subcalls_of w1 = subcalls_of w"
    by (simp_all add: depth_of_def subcalls_of_def)
  define gp where "gp = read_gen_params api jg (wd_ctx w1) (ar_params ar)"
  obtain w' a where r: "run_subcall cfg api eng gp ar msgs w1 = Some (Inr (w', a))" "ca_error a = Err_Ok"
    "calls_done (Suc n) k w1 w'"
    using assms(3) [OF _ d(1)] assms(4) w1(1) by metis
  have "call_engine cfg api jg (Some eng) [] True (Some msgs) ar w = run_subcall cfg api eng gp ar msgs w1"
    using assms(2) e unfolding call_engine_def depth_of_def gp_def
    by (simp add: has_preprocessors_def)
  with r d w1(2) show ?thesis by (auto simp: calls_done_def)
qed

lemma nested_generate:
  assumes "plain_engine eng" and "d + 1 \<le> rm_max_hierarchy_depth (inf_rlm (tc_inference cfg))"
    and "in_s32 (d + 1)" and "apply_chat_template_str api msgs
      (resolve_template (md_chat_template (tc_model cfg)) (en_arch eng)) \<noteq> None"
  shows "usage_room (Suc (n + k)) (cx_metadata (wd_ctx v)) \<Longrightarrow> depth_of v = d \<Longrightarrow>
    \<exists>w2 res pieces p c. en_generate (nested_engine cfg api jg eng msgs ar n) req v = (w2, res, pieces) \<and>
      r_error res = Ok \<and> r_prompt_tokens res = Some p \<and> r_generated_tokens res = Some c \<and>
      0 \<le> p \<and> p < 2147483648 \<and> 0 \<le> c \<and> c < 2147483648 \<and> calls_done n (Suc k) v w2"
proof (induction n arbitrary: k req v)
  case 0
  then show ?case using assms(1) unfolding plain_engine_def calls_done_def nested_engine.simps
    by fastforce
next
  case (Suc n)
  let ?e = "nested_engine cfg api jg eng msgs ar n"
  have arch: "en_arch ?e = en_arch eng" by (cases n) simp_all
  have room: "usage_room (Suc (n + Suc k)) (cx_metadata (wd_ctx v))" using Suc.prems(1) by simp
  have "\<exists>w' a. call_engine cfg api jg (Some ?e) [] True (Some msgs) ar v = Some (Inr (w', a)) \<and>
    ca_error a = Err_Ok \<and> calls_done (Suc n) (Suc k) v w'"
  proof (rule call_engine_plain [OF _ _ _ room])
    show "depth_of v + 1 \<le> rm_max_hierarchy_depth (inf_rlm (tc_inference cfg))" "in_s32 (depth_of v + 1)"
      using assms(2,3) Suc.prems(2) by simp_all
    show "\<exists>w' a. run_subcall cfg api ?e gp ar msgs w1 = Some (Inr (w', a)) \<and> ca_error a = Err_Ok \<and>
        calls_done (Suc n) (Suc k) w1 w'"
      if "usage_room (Suc (n + Suc k)) (cx_metadata (wd_ctx w1))" "depth_of w1 = depth_of v" for gp w1
      by (rule run_subcall_plain [OF _ _ that(1)])
        (use assms(4) arch Suc.IH [where k = "Suc k"] that(2) Suc.prems(2) in auto)
  qed
  then obtain w' a where c: "call_engine cfg api jg (Some ?e) [] True (Some msgs) ar v = Some (Inr (w', a))"
    "calls_done (Suc n) (Suc k) v w'" by blast
  obtain res pieces p q where "en_generate eng req w' = (w', res, pieces)" "r_error res = Ok"
    "r_prompt_tokens res = Some p" "r_generated_tokens res = Some q"
    "0 \<le> p \<and> p < 2147483648 \<and> 0 \<le> q \<and> q < 2147483648"
    using assms(1) unfolding plain_engine_def by metis
  with c show ?case by simp
qed

text \<open>The depth limit of sub-calls has no effect: nothing raises the depth of a context, so any number
  of sub-calls nested in each other succeed under any limit that admits one; the abort counter stays
  as it is, and the usage numbers of the request count every one of them.\<close>

theorem nested_subcalls_unlimited:
  assumes "plain_engine eng"
    and "depth_of w + 1 \<le> rm_max_hierarchy_depth (inf_rlm (tc_inference cfg))"
    and "in_s32 (depth_of w + 1)"
    and "apply_chat_template_str api msgs
      (resolve_template (md_chat_template (tc_model cfg)) (en_arch eng)) \<noteq> None"
    and "usage_room (Suc n) (cx_metadata (wd_ctx w))"
  shows "\<exists>w' a. call_engine cfg api jg (Some (nested_engine cfg api jg eng msgs ar n)) [] True (Some msgs)
      ar w = Some (Inr (w', a)) \<and> ca_error a = Err_Ok \<and> depth_of w' = depth_of w \<and>
    aborts_of w' = aborts_of w \<and> subcalls_of w' = subcalls_of w + int (Suc n)"
proof -
  let ?e = "nested_engine cfg api jg eng msgs ar n"
  have arch: "en_arch ?e = en_arch eng" by (cases n) simp_all
  have room: "usage_room (Suc (n + 0)) (cx_metadata (wd_ctx w))" using assms(5) by simp
  have "\<exists>w' a. call_engine cfg api jg (Some ?e) [] True (Some msgs) ar w = Some (Inr (w', a)) \<and>
    ca_error a = Err_Ok \<and> calls_done (Suc n) 0 w w'"
  proof (rule call_engine_plain [OF assms(2,3) _ room])
    show "\<exists>w' a. run_subcall cfg api ?e gp ar msgs w1 = Some (Inr (w', a)) \<and> ca_error a = Err_Ok \<and>
        calls_done (Suc n) 0 w1 w'"
      if "usage_room (Suc (n + 0)) (cx_metadata (wd_ctx w1))" "depth_of w1 = depth_of w" for gp w1
      by (rule run_subcall_plain [OF _ _ that(1)])
        (use assms(4) arch nested_generate [OF assms(1-4), where k = 0] that(2) in auto)
  qed
  then show ?thesis unfolding calls_done_def by blast
qed

definition demo_engine :: "unit engine" where
  "demo_engine = \<lparr>en_arch = [], en_tokenize = (\<lambda>s. []),
     en_generate = (\<lambda>req w. (w, (error_result Ok [])\<lparr>r_prompt_tokens := Some 3,
       r_generated_tokens := Some 4\<rparr>, [])),
     en_inject = (\<lambda>rid pos ids w. (w, Ok)), en_indet = 0\<rparr>"

definition demo_world :: "unit world" where
  "demo_world = \<lparr>wd_host = \<lparr>ht_counters = \<lparr>rc_attempted = 0, rc_claimed = 0, rc_failed = 0,
       rc_subcalls = 0, rc_depth_aborts = 0, rc_max_depth = 0, rc_inject_calls = 0,
       rc_inject_not_impl = 0, rc_per_plugin = []\<rparr>, ht_chat = no_chat,
       ht_research = \<lparr>ro_total = 0, ro_subcalls = 0, ro_prompt = 0, ro_completion = 0,
         ro_effort = [], ro_terminal = []\<rparr>, ht_config_cache = Map.empty, ht_cap_cache = Map.empty\<rparr>,
     wd_ctx = \<lparr>cx_request_id = [], cx_model_id = [], cx_model_arch = [], cx_token_budget = 0,
       cx_max_tokens = 512, cx_temperature = 7 / 10, cx_status = None, cx_recursion_depth = 0,
       cx_metadata = Map.empty\<rparr>, wd_rest = ()\<rparr>"

definition demo_args :: call_args where
  "demo_args = \<lparr>ar_messages = [], ar_params = None, ar_stream = False, ar_want_json = False,
     ar_alloc = True\<rparr>"

definition demo_gets :: json_get where
  "demo_gets = \<lparr>jg_float = (\<lambda>j. None), jg_s32 = (\<lambda>j. None), jg_bool = (\<lambda>j. None)\<rparr>"

theorem nested_subcalls_unlimited_witness:
  "\<exists>w' a. call_engine default_truellm demo_json demo_gets
     (Some (nested_engine default_truellm demo_json demo_gets demo_engine ''hi'' demo_args 100)) [] True
     (Some ''hi'') demo_args demo_world = Some (Inr (w', a)) \<and> ca_error a = Err_Ok \<and>
   depth_of w' = depth_of demo_world \<and> aborts_of w' = aborts_of demo_world \<and>
   subcalls_of w' = subcalls_of demo_world + int (Suc 100)"
proof (rule nested_subcalls_unlimited)
  show "plain_engine demo_engine" by (simp add: plain_engine_def demo_engine_def error_result_def)
  show "depth_of demo_world + 1 \<le> rm_max_hierarchy_depth (inf_rlm (tc_inference default_truellm))"
    by (simp add: depth_of_def demo_world_def default_truellm_def default_inference_def default_rlm_def)
  show "in_s32 (depth_of demo_world + 1)" by (simp add: depth_of_def demo_world_def in_s32_def)
  show "apply_chat_template_str demo_json ''hi''
      (resolve_template (md_chat_template (tc_model default_truellm)) (en_arch demo_engine)) \<noteq> None"
    by (simp add: apply_chat_template_str_def demo_json_def)
  show "usage_room (Suc 100) (cx_metadata (wd_ctx demo_world))"
    by (simp add: usage_room_def usage_keys_def metadata_number_def demo_world_def)
qed

section \<open>Token injection\<close>

lemma token_ids_ints: "token_ids (map JInt xs) = Some (map cast_s32 xs)"
  by (induction xs) simp_all

lemma cast_s32_period: "cast_s32 (x + 4294967296) = cast_s32 x"
  using mod_add_self2 [of "x + 2147483648" "4294967296 :: int"] by (simp add: cast_s32_def)

text \<open>Token identifiers are cut to 32 bits without a range test: identifiers beyond the range are
  injected as other tokens and the call succeeds like the one with those tokens; identifiers within
  it reach the engine unchanged.\<close>

theorem inject_token_aliases:
  assumes "j_parse api s = Some (JArr (map JInt xs))"
    and "j_parse api s' = Some (JArr (map (\<lambda>x. JInt (x + 4294967296)) xs))"
  shows "inject_tokens api eng has_ctx pos (Some s') w = inject_tokens api eng has_ctx pos (Some s) w \<and>
    ((\<forall>x \<in> set xs. in_s32 x) \<longrightarrow> token_ids (map JInt xs) = Some xs)"
proof (intro conjI impI)
  have "token_ids (map (\<lambda>x. JInt (x + 4294967296)) xs) = token_ids (map JInt xs)"
    using token_ids_ints [of "map (\<lambda>x. x + 4294967296) xs"]
    by (simp add: token_ids_ints cast_s32_period comp_def)
  then show "inject_tokens api eng has_ctx pos (Some s') w = inject_tokens api eng has_ctx pos (Some s) w"
    using assms by (cases has_ctx; cases eng) (simp_all add: inject_tokens_def)
  show "token_ids (map JInt xs) = Some xs" if "\<forall>x \<in> set xs. in_s32 x"
    using that by (simp add: token_ids_ints map_idI cast_s32_id)
qed

theorem inject_token_aliases_witness:
  "inject_tokens (demo_json\<lparr>j_parse := (\<lambda>s. Some (JArr (map JInt [if s = ''a'' then 5 else 4294967301])))\<rparr>)
     (Some demo_engine) True 0 (Some ''b'') demo_world =
   inject_tokens (demo_json\<lparr>j_parse := (\<lambda>s. Some (JArr (map JInt [if s = ''a'' then 5 else 4294967301])))\<rparr>)
     (Some demo_engine) True 0 (Some ''a'') demo_world \<and> token_ids (map JInt [5]) = Some [5]"
  using inject_token_aliases [of "demo_json\<lparr>j_parse := (\<lambda>s. Some (JArr (map JInt [if s = ''a'' then 5 else 4294967301])))\<rparr>"
      "''a''" "[5]" "''b''" "Some demo_engine" True 0 demo_world]
  by (simp add: in_s32_def)

end
