(* ===== verification/Allow_List.thy ===== *)
theory Allow_List
  imports Plugin_Abi
begin

text \<open>
  The comma-separated allow-list of tools, \<open>agent.allowed_tools\<close>: the scanner that both
  \<open>src/server/openai_router.cpp\<close> (\<open>is_tool_allowed\<close>) and \<open>src/plugin_bridge/plugin_bridge.cpp\<close>
  (\<open>vtable_call_tool\<close>) contain, by positions in the text as the code has it, and its meaning: some
  trimmed entry names the tool.
\<close>

section \<open>Searching in a string\<close>

text \<open>\<open>find\<close>, \<open>find_first_not_of\<close> and \<open>find_last_not_of\<close>; \<open>npos\<close> is \<^const>\<open>None\<close>.\<close>

definition find_from :: "(char \<Rightarrow> bool) \<Rightarrow> string \<Rightarrow> nat \<Rightarrow> nat option" where
  "find_from P s pos = find (\<lambda>i. P (s ! i)) [pos..<length s]"

definition find_back :: "(char \<Rightarrow> bool) \<Rightarrow> string \<Rightarrow> nat \<Rightarrow> nat option" where
  "find_back P s pos = find (\<lambda>i. P (s ! i)) (rev [0..<min (Suc pos) (length s)])"

definition blank :: "char \<Rightarrow> bool" where
  "blank c \<longleftrightarrow> c = CHR '' '' \<or> c = CHR 0x09"

section \<open>The scanner\<close>

definition short_name :: "string \<Rightarrow> string" where
  "short_name q = (case find_from (\<lambda>c. c = CHR ''.'') q 0 of None \<Rightarrow> q | Some i \<Rightarrow> drop (i + 1) q)"

definition token_matches :: "string \<Rightarrow> string \<Rightarrow> bool" where
  "token_matches q tok \<longleftrightarrow> tok = q \<or> tok = short_name q \<or>
     (tok \<noteq> [] \<and> last tok = CHR ''*'' \<and> length tok \<ge> 2 \<and> tok ! (length tok - 2) = CHR ''.'' \<and>
      prefix (take (length tok - 1) tok) q)"

definition entry_end :: "string \<Rightarrow> nat \<Rightarrow> nat" where
  "entry_end csv pos = (case find_from (\<lambda>c. c = CHR '','') csv pos of None \<Rightarrow> length csv | Some i \<Rightarrow> i)"

definition entry_token :: "string \<Rightarrow> nat \<Rightarrow> string option" where
  "entry_token csv pos =
     (case find_from (\<lambda>c. \<not> blank c) csv pos of
        None \<Rightarrow> None
      | Some a \<Rightarrow>
          if a < entry_end csv pos
          then (case find_back (\<lambda>c. \<not> blank c) csv (entry_end csv pos - 1) of
                  None \<Rightarrow> None
                | Some b \<Rightarrow> Some (take (b - a + 1) (drop a csv)))
          else None)"

lemma entry_end_ge: "pos < length csv \<Longrightarrow> pos \<le> entry_end csv pos"
  by (auto simp: entry_end_def find_from_def find_Some_iff nth_append split: option.split)

function allow_loop :: "string \<Rightarrow> string \<Rightarrow> nat \<Rightarrow> bool" where
  "allow_loop q csv pos =
     (if pos < length csv
      then (case entry_token csv pos of Some tok \<Rightarrow> token_matches q tok | None \<Rightarrow> False) \<or>
           allow_loop q csv (entry_end csv pos + 1)
      else False)"
  by pat_completeness auto
termination
proof (relation "measure (\<lambda>(q, csv, pos). length csv - pos)", goal_cases)
  case (2 q csv pos)
  then show ?case using entry_end_ge [of pos csv] by simp
qed simp

declare allow_loop.simps [simp del]

definition is_tool_allowed :: "string \<Rightarrow> string \<Rightarrow> bool" where
  "is_tool_allowed q csv = (csv = [] \<or> allow_loop q csv 0)"

section \<open>Meaning\<close>

text \<open>The entries between commas, without surrounding blanks.\<close>

fun commas :: "string \<Rightarrow> string list" where
  "commas [] = [[]]"
| "commas (c # cs) =
     (if c = CHR '','' then [] # commas cs
      else case commas cs of e # es \<Rightarrow> (c # e) # es | [] \<Rightarrow> [[c]])"

definition trim :: "string \<Rightarrow> string" where
  "trim s = rev (dropWhile blank (rev (dropWhile blank s)))"

lemma commas_nonempty: "commas s \<noteq> []"
  by (induction s) (auto split: list.split)

lemma commas_no_comma: "CHR '','' \<notin> set s \<Longrightarrow> commas s = [s]"
  by (induction s) auto

lemma commas_split: "CHR '','' \<notin> set s \<Longrightarrow> commas (s @ CHR '','' # r) = s # commas r"
  by (induction s) auto

lemma find_skip: "\<forall>x \<in> set xs. \<not> P x \<Longrightarrow> find P (xs @ ys) = find P ys"
  by (induction xs) auto

lemma find_append:
  "find Q (as @ bs) = (case find Q as of None \<Rightarrow> find Q bs | Some y \<Rightarrow> Some y)"
  by (induction as) auto

text \<open>In the next lemmas \<open>pre\<close> is what the scanner has passed.\<close>

lemma find_upto:
  "find (\<lambda>i. P ((pre @ s) ! i)) [length pre..<length pre + length s] =
   (if \<exists>c \<in> set s. P c then Some (length pre + length (takeWhile (\<lambda>c. \<not> P c) s)) else None)"
proof (induction s rule: rev_induct)
  case (snoc x xs)
  have eq: "find (\<lambda>i. P ((pre @ xs @ [x]) ! i)) [length pre..<length pre + length xs] =
      find (\<lambda>i. P ((pre @ xs) ! i)) [length pre..<length pre + length xs]"
    by (rule find_cong) (auto simp: nth_append)
  have nx: "(pre @ xs @ [x]) ! (length pre + length xs) = x" by (simp add: nth_append)
  have "find (\<lambda>i. P ((pre @ xs @ [x]) ! i)) [length pre..<length pre + length (xs @ [x])] =
      (case find (\<lambda>i. P ((pre @ xs @ [x]) ! i)) [length pre..<length pre + length xs] of
         None \<Rightarrow> if P x then Some (length pre + length xs) else None | Some y \<Rightarrow> Some y)"
    by (simp add: find_append nx split: option.split)
  also have "\<dots> = (if \<exists>c \<in> set (xs @ [x]). P c
      then Some (length pre + length (takeWhile (\<lambda>c. \<not> P c) (xs @ [x]))) else None)"
    unfolding eq snoc by (auto simp: takeWhile_append takeWhile_eq_all_conv [THEN iffD2])
  finally show ?case .
qed simp

lemma find_from_append:
  "find_from P (pre @ s) (length pre) =
   (if \<exists>c \<in> set s. P c then Some (length pre + length (takeWhile (\<lambda>c. \<not> P c) s)) else None)"
  by (simp only: find_from_def length_append find_upto)

lemma find_rev:
  "find (\<lambda>i. P (xs ! i)) (rev [0..<length xs]) =
   (if \<exists>c \<in> set xs. P c then Some (length xs - 1 - length (takeWhile (\<lambda>c. \<not> P c) (rev xs))) else None)"
proof (induction xs rule: rev_induct)
  case (snoc x xs)
  have "find (\<lambda>i. P ((xs @ [x]) ! i)) (rev [0..<length xs]) = find (\<lambda>i. P (xs ! i)) (rev [0..<length xs])"
    by (rule find_cong) (auto simp: nth_append)
  with snoc show ?case by auto
qed simp

lemma rev_dropWhile_take: "rev (dropWhile P xs) = take (length xs - length (takeWhile P xs)) (rev xs)"
  by (simp add: dropWhile_eq_drop rev_drop)

lemma trim_take:
  assumes "\<exists>c \<in> set s. \<not> blank c"
  shows "trim s = take (length s - length (takeWhile blank (rev s)) - length (takeWhile blank s))
      (dropWhile blank s)"
    and "length (takeWhile blank (rev s)) + length (takeWhile blank s) < length s" and "trim s \<noteq> []"
proof -
  let ?d = "dropWhile blank s" and ?t = "takeWhile blank s"
  have d: "\<exists>c \<in> set ?d. \<not> blank c"
    using assms by (metis UnE set_append set_takeWhileD takeWhile_dropWhile_id)
  have "rev s = rev ?d @ rev ?t" by (metis rev_append takeWhile_dropWhile_id)
  with d have t: "takeWhile blank (rev s) = takeWhile blank (rev ?d)"
    by (metis set_rev takeWhile_append1)
  have len: "length s = length ?t + length ?d" by (metis length_append takeWhile_dropWhile_id)
  have "takeWhile blank (rev ?d) \<noteq> rev ?d" using d by (simp add: takeWhile_eq_all_conv)
  then have lt: "length (takeWhile blank (rev ?d)) < length ?d"
    by (metis length_rev length_takeWhile_le nat_less_le take_all_iff takeWhile_eq_take)
  have tr: "trim s = take (length ?d - length (takeWhile blank (rev ?d))) ?d"
    unfolding trim_def rev_dropWhile_take [of blank "rev ?d"] by (simp only: rev_rev_ident length_rev)
  then show "trim s = take (length s - length (takeWhile blank (rev s)) - length ?t) ?d"
    by (simp add: t len)
  show "length (takeWhile blank (rev s)) + length ?t < length s" using lt by (simp add: t len)
  show "trim s \<noteq> []" using lt assms by (auto simp: tr)
qed

lemma trim_blank: "\<forall>c \<in> set s. blank c \<Longrightarrow> trim s = []"
  by (simp add: trim_def dropWhile_eq_Nil_conv [THEN iffD2])

section \<open>The scanner finds the entries\<close>

lemma takeWhile_stops:
  "\<forall>c \<in> set seg. P c \<Longrightarrow> post = [] \<or> \<not> P (hd post) \<Longrightarrow> takeWhile P (seg @ post) = seg"
  by (cases post) (simp_all add: takeWhile_append2)

lemma entry_end_append:
  assumes "CHR '','' \<notin> set seg" and "post = [] \<or> (\<exists>r. post = CHR '','' # r)"
  shows "entry_end (pre @ seg @ post) (length pre) = length pre + length seg"
proof -
  have t: "takeWhile (\<lambda>c. c \<noteq> CHR '','') (seg @ post) = seg"
    by (rule takeWhile_stops) (use assms in auto)
  show ?thesis
  proof (cases post)
    case Nil
    with assms(1) show ?thesis by (simp add: entry_end_def find_from_append)
  next
    case (Cons c r)
    with assms(2) have "\<exists>c \<in> set (seg @ post). c = CHR '','' " by auto
    then show ?thesis by (simp only: entry_end_def find_from_append if_True t) simp
  qed
qed

lemma entry_token_append:
  assumes "CHR '','' \<notin> set seg" and "post = [] \<or> (\<exists>r. post = CHR '','' # r)"
  shows "entry_token (pre @ seg @ post) (length pre) = (if trim seg = [] then None else Some (trim seg))"
proof (cases "\<exists>c \<in> set seg. \<not> blank c")
  case False
  then have b: "\<forall>c \<in> set seg. \<not> \<not> blank c" by blast
  then have e: "trim seg = []" using trim_blank by blast
  show ?thesis
  proof (cases post)
    case Nil
    with False e show ?thesis by (simp add: entry_token_def find_from_append)
  next
    case (Cons c r)
    with assms(2) have c: "\<not> blank (hd post)" by (auto simp: blank_def)
    have "find_from (\<lambda>c. \<not> blank c) (pre @ seg @ post) (length pre) = Some (length pre + length seg)"
      using c Cons takeWhile_stops [OF b, of post] by (simp add: find_from_append)
    with e show ?thesis by (simp add: entry_token_def entry_end_append [OF assms])
  qed
next
  case True
  note tt = trim_take [OF True]
  let ?t = "takeWhile blank seg" and ?u = "takeWhile blank (rev seg)"
  have f: "find_from (\<lambda>c. \<not> blank c) (pre @ seg @ post) (length pre) = Some (length pre + length ?t)"
    using True by (auto simp: find_from_append takeWhile_append)
  have lt: "length ?t < length seg" using tt(2) by simp
  have tu: "takeWhile (\<lambda>c. \<not> \<not> blank c) (rev (pre @ seg)) = ?u"
    using True by (auto simp: takeWhile_append)
  have r: "find (\<lambda>i. \<not> blank ((pre @ seg @ post) ! i)) (rev [0..<length (pre @ seg)]) =
      find (\<lambda>i. \<not> blank ((pre @ seg) ! i)) (rev [0..<length (pre @ seg)])"
    by (rule find_cong) (auto simp: nth_append)
  have ex: "\<exists>c \<in> set (pre @ seg). \<not> blank c" using True by auto
  have fr: "find (\<lambda>i. \<not> blank ((pre @ seg) ! i)) (rev [0..<length (pre @ seg)]) =
      Some (length (pre @ seg) - 1 - length ?u)" 
    using find_rev [of "\<lambda>c. \<not> blank c" "pre @ seg"] ex by (simp only: tu if_True)
  have "min (Suc (length pre + length seg - 1)) (length (pre @ seg @ post)) = length (pre @ seg)"
    using lt by simp
  then have "find_back (\<lambda>c. \<not> blank c) (pre @ seg @ post) (length pre + length seg - 1) =
      Some (length (pre @ seg) - 1 - length ?u)"
    using True by (simp only: find_back_def r fr)
  moreover have "length (pre @ seg) - 1 - length ?u - (length pre + length ?t) + 1 =
      length seg - length ?u - length ?t" using tt(2) by simp
  moreover have "take (length seg - length ?u - length ?t) (drop (length pre + length ?t) (pre @ seg @ post)) =
      trim seg" using lt by (simp add: tt(1) dropWhile_eq_drop)
  ultimately show ?thesis
    using lt tt(3) by (simp add: entry_token_def f entry_end_append [OF assms])
qed

lemma allow_loop_entries:
  "allow_loop q (pre @ s) (length pre) \<longleftrightarrow> (\<exists>e \<in> set (commas s). trim e \<noteq> [] \<and> token_matches q (trim e))"
proof (induction "length s" arbitrary: pre s rule: less_induct)
  case less
  show ?case
  proof (cases "s = []")
    case True
    then show ?thesis by (subst allow_loop.simps) (simp add: trim_def)
  next
    case False
    define seg where "seg = takeWhile (\<lambda>c. c \<noteq> CHR '','') s"
    define post where "post = dropWhile (\<lambda>c. c \<noteq> CHR '','') s"
    have s: "s = seg @ post" by (simp add: seg_def post_def)
    have n: "CHR '','' \<notin> set seg" by (auto simp: seg_def dest: set_takeWhileD)
    have p: "post = [] \<or> (\<exists>r. post = CHR '','' # r)"
      using hd_dropWhile [of "\<lambda>c. c \<noteq> CHR '','' " s] unfolding post_def [symmetric]
      by (cases post) auto
    have step: "allow_loop q (pre @ s) (length pre) \<longleftrightarrow>
        (trim seg \<noteq> [] \<and> token_matches q (trim seg)) \<or>
        allow_loop q (pre @ s) (length pre + length seg + 1)"
    proof -
      have "length pre < length (pre @ s)" using False by simp
      moreover have "entry_token (pre @ s) (length pre) = (if trim seg = [] then None else Some (trim seg))"
        by (subst s) (rule entry_token_append [OF n p])
      moreover have "entry_end (pre @ s) (length pre) = length pre + length seg"
        by (subst s) (rule entry_end_append [OF n p])
      ultimately show ?thesis
        using allow_loop.simps [of q "pre @ s" "length pre"] by simp
    qed
    show ?thesis
    proof (cases post)
      case Nil
      then have "\<not> allow_loop q (pre @ s) (length pre + length seg + 1)"
        by (subst allow_loop.simps) (simp add: s)
      with step Nil show ?thesis by (simp add: s commas_no_comma [OF n])
    next
      case (Cons c r)
      with p have c: "post = CHR '','' # r" by auto
      have "allow_loop q ((pre @ seg @ [CHR '','']) @ r) (length (pre @ seg @ [CHR '','']))
          \<longleftrightarrow> (\<exists>e \<in> set (commas r). trim e \<noteq> [] \<and> token_matches q (trim e))"
        by (rule less) (simp add: s c)
      with step show ?thesis by (simp add: s c commas_split [OF n])
    qed
  qed
qed

lemma short_name_spec:
  "short_name q = (if CHR ''.'' \<in> set q then tl (dropWhile (\<lambda>c. c \<noteq> CHR ''.'') q) else q)"
  using find_from_append [of "\<lambda>c. c = CHR ''.''" "[]" q]
  by (auto simp: short_name_def dropWhile_eq_drop drop_Suc tl_drop)

lemma wildcard_spec:
  "(tok \<noteq> [] \<and> last tok = CHR ''*'' \<and> length tok \<ge> 2 \<and> tok ! (length tok - 2) = CHR ''.'' \<and>
    prefix (take (length tok - 1) tok) q) \<longleftrightarrow> (\<exists>p. tok = p @ ''.*'' \<and> prefix (p @ ''.'') q)"
proof
  assume a: "tok \<noteq> [] \<and> last tok = CHR ''*'' \<and> length tok \<ge> 2 \<and> tok ! (length tok - 2) = CHR ''.'' \<and>
    prefix (take (length tok - 1) tok) q"
  then obtain t where t: "tok = t @ [CHR ''*'']" by (metis append_butlast_last_id)
  with a have "t \<noteq> []" by auto
  then obtain p d where "t = p @ [d]" by (metis append_butlast_last_id)
  with t a show "\<exists>p. tok = p @ ''.*'' \<and> prefix (p @ ''.'') q" by (auto simp: nth_append)
qed (auto simp: nth_append)

text \<open>What an entry of the list grants: the tool by its qualified name, by the part after the first
  dot, or every tool whose name begins with the text before a final star.\<close>

definition grants :: "string \<Rightarrow> string \<Rightarrow> bool" where
  "grants tok q \<longleftrightarrow> tok \<noteq> [] \<and>
     (tok = q \<or> tok = (if CHR ''.'' \<in> set q then tl (dropWhile (\<lambda>c. c \<noteq> CHR ''.'') q) else q) \<or>
      (\<exists>p. tok = p @ ''.*'' \<and> prefix (p @ ''.'') q))"

lemma grants_iff: "grants tok q \<longleftrightarrow> tok \<noteq> [] \<and> token_matches q tok"
  unfolding grants_def token_matches_def wildcard_spec short_name_spec by blast

lemma is_tool_allowed_iff:
  "is_tool_allowed q csv \<longleftrightarrow> csv = [] \<or> (\<exists>tok \<in> set (map trim (commas csv)). grants tok q)"
  using allow_loop_entries [of q "[]" csv] by (simp add: is_tool_allowed_def grants_iff)

text \<open>The position-by-position scanner of the allow-list decides exactly that some entry between
  commas, without the blanks around it, grants the tool; an empty text allows every tool.\<close>

theorem allow_list_meaning:
  "is_tool_allowed q csv \<longleftrightarrow> csv = [] \<or> (\<exists>tok \<in> set (map trim (commas csv)). grants tok q)"
  by (rule is_tool_allowed_iff)

end
