(* ===== verification/Bridge_Tools.thy ===== *)
theory Bridge_Tools
  imports Bridge_Host Allow_List
begin

text \<open>
  \<open>vtable_call_tool\<close> of \<open>src/plugin_bridge/plugin_bridge.cpp\<close>: a plugin calls another plugin's tool.
  The allow-list of the request is tested first; then the tool registry dispatches. The answer is the
  status and the text of the result pointer.
\<close>

definition envelope ::
  "json_api \<Rightarrow> bool \<Rightarrow> bool \<Rightarrow> bool \<Rightarrow> trl_error \<Rightarrow> string \<Rightarrow> string \<Rightarrow> trl_error \<times> string option" where
  "envelope api want alloc ok code msg payload =
     (if \<not> want then (Err_Ok, None)
      else if \<not> alloc then (Err_Internal, None)
      else (Err_Ok, Some (j_dump api (JObj [(''ok'', JBool ok),
              (''error_code'', JInt (int (trl_error_code code))), (''error_msg'', JStr msg),
              (''payload'', JStr payload)]))))"

definition allowed_tools :: "bool \<Rightarrow> 'v world \<Rightarrow> string" where
  "allowed_tools has_ctx w = (if has_ctx then pull (cx_metadata (wd_ctx w)) ''agent.allowed_tools'' else [])"

definition denial :: "json_api \<Rightarrow> bool \<Rightarrow> bool \<Rightarrow> string \<Rightarrow> trl_error \<times> string option" where
  "denial api want alloc q =
     envelope api want alloc False Err_Permission
       (''tool '' @ CHR 0x27 # q @ CHR 0x27 # '' is not in the allow-list (agent.allowed_tools)'') []"

definition call_tool ::
  "json_api \<Rightarrow> bool \<Rightarrow> string option \<Rightarrow> string option \<Rightarrow> bool \<Rightarrow> bool \<Rightarrow> 'v world tool_registry \<Rightarrow>
   'v world \<Rightarrow> ('v world \<times> trl_error \<times> string option) exec" where
  "call_tool api has_ctx tool args want alloc reg w =
     (case tool of
        None \<Rightarrow> Inr (w, Err_Invalid, None)
      | Some q \<Rightarrow>
          if \<not> is_tool_allowed q (allowed_tools has_ctx w) then Inr (w, denial api want alloc q)
          else ebind (tool_dispatch q (or_empty args) reg w) (\<lambda>(w', tc).
            Inr (w', envelope api want alloc (tcr_error tc = Err_Ok) (tcr_error tc) (tcr_msg tc)
              (if tcr_error tc = Err_Ok then tcr_payload tc else []))))"

text \<open>A plugin call cannot get around the request's allow-list: when the list holds text and none of
  its entries grants the tool, no plugin code runs, nothing of the world changes, and the caller is
  told that permission is denied, whatever tools are registered.\<close>

theorem call_tool_confined:
  assumes "cx_metadata (wd_ctx w) ''agent.allowed_tools'' = Some csv" and "csv \<noteq> []"
    and "\<forall>tok \<in> set (map trim (commas csv)). \<not> grants tok q"
  shows "call_tool api True (Some q) args want alloc reg w = Inr (w, denial api want alloc q)"
proof -
  have "\<not> is_tool_allowed q csv" using assms(2,3) by (auto simp: is_tool_allowed_iff)
  with assms(1) show ?thesis by (simp add: call_tool_def allowed_tools_def pull_def)
qed

definition plan_world :: "unit world" where
  "plan_world = \<lparr>wd_host = undefined, wd_ctx = \<lparr>cx_request_id = [], cx_model_id = [],
     cx_model_arch = [], cx_token_budget = 0, cx_max_tokens = 512, cx_temperature = 7 / 10,
     cx_status = None, cx_recursion_depth = 0,
     cx_metadata = [''agent.allowed_tools'' \<mapsto> ''fs.read , web.*'']\<rparr>, wd_rest = ()\<rparr>"

lemma plan_world_list: "cx_metadata (wd_ctx plan_world) ''agent.allowed_tools'' = Some ''fs.read , web.*''"
  by (simp add: plan_world_def)

lemma plan_world_grants: "\<forall>tok \<in> set (map trim (commas ''fs.read , web.*'')). \<not> grants tok ''fs.write''"
proof -
  have "map trim (commas ''fs.read , web.*'') = [''fs.read'', ''web.*'']"
    by (simp add: trim_def blank_def)
  moreover have "\<not> grants ''fs.read'' ''fs.write''" by (simp add: grants_def append_eq_Cons_conv)
  moreover have "\<not> grants ''web.*'' ''fs.write''"
    by (auto simp: grants_def append_eq_Cons_conv)
  ultimately show ?thesis by simp
qed

theorem call_tool_confined_witness:
  "call_tool demo_json True (Some ''fs.write'') None True True empty_tools plan_world =
   Inr (plan_world, denial demo_json True True ''fs.write'')"
  by (rule call_tool_confined [OF plan_world_list _ plan_world_grants]) simp

end
