(* ===== verification/Native_Loader.thy ===== *)
theory Native_Loader
  imports Plugin_Abi "HOL-Library.Multiset"
begin

text \<open>
  \<open>src/plugin_bridge/loader/native_loader.cpp\<close>: opening a shared library, calling its entry point,
  the checks of the ABI version, and unloading. The dynamic linker is the argument \<open>env\<close>: what a path
  opens, if anything. \<open>ld_open\<close> is the multiset of handles opened and not closed yet; the linker
  counts how often it gave out a handle.
\<close>

section \<open>Loading\<close>

record 'w init_result =
  ir_rc :: trl_error
  ir_tool :: "'w tool_provider option"
  ir_prep :: "'w preprocessor option"
  ir_gen :: "'w generator option"

record 'w library =
  lb_handle :: nat
  lb_init :: "('w \<Rightarrow> 'w \<times> 'w init_result) option"

record loader =
  ld_libs :: "(string \<times> nat) list"
  ld_open :: "nat multiset"

definition new_loader :: loader where
  "new_loader = \<lparr>ld_libs = [], ld_open = {#}\<rparr>"

definition abi_version :: nat where
  "abi_version = 1"

definition platform_close :: "nat \<Rightarrow> loader \<Rightarrow> loader" where
  "platform_close h l = l\<lparr>ld_open := ld_open l - {#h#}\<rparr>"

definition destroy_all :: "'w init_result \<Rightarrow> 'w \<Rightarrow> 'w" where
  "destroy_all r w =
     call_free (case ir_gen r of None \<Rightarrow> None | Some g \<Rightarrow> gn_destroy g)
       (call_free (case ir_prep r of None \<Rightarrow> None | Some p \<Rightarrow> pp_destroy p)
         (call_free (case ir_tool r of None \<Rightarrow> None | Some t \<Rightarrow> tp_destroy t) w))"

definition abi_matches :: "'w init_result \<Rightarrow> bool" where
  "abi_matches r \<longleftrightarrow>
     (case ir_tool r of None \<Rightarrow> True | Some t \<Rightarrow> tp_abi t = abi_version) \<and>
     (case ir_prep r of None \<Rightarrow> True | Some p \<Rightarrow> pp_abi p = abi_version) \<and>
     (case ir_gen r of None \<Rightarrow> True | Some g \<Rightarrow> gn_abi g = abi_version)"

definition no_providers :: "trl_error \<Rightarrow> 'w init_result" where
  "no_providers e = \<lparr>ir_rc = e, ir_tool = None, ir_prep = None, ir_gen = None\<rparr>"

text \<open>The three providers are the outputs; they stay null on every failure.\<close>

definition load_library ::
  "(string \<Rightarrow> 'w library option) \<Rightarrow> string \<Rightarrow> 'w \<times> loader \<Rightarrow> ('w \<times> loader) \<times> error_code \<times> 'w init_result"
  where
  "load_library env path s =
     (let (w, l) = s in
      if map_of (ld_libs l) path \<noteq> None then ((w, l), InvalidArgument, no_providers Err_Ok)
      else case env path of
             None \<Rightarrow> ((w, l), IoError, no_providers Err_Ok)
           | Some lib \<Rightarrow>
               (let l1 = l\<lparr>ld_open := add_mset (lb_handle lib) (ld_open l)\<rparr> in
                case lb_init lib of
                  None \<Rightarrow> ((w, platform_close (lb_handle lib) l1), NotFound, no_providers Err_Ok)
                | Some init \<Rightarrow>
                    (let (w1, r) = init w in
                     if ir_rc r \<noteq> Err_Ok
                     then ((w1, platform_close (lb_handle lib) l1), PluginError, no_providers Err_Ok)
                     else if \<not> abi_matches r
                     then ((destroy_all r w1, platform_close (lb_handle lib) l1), InvalidArgument,
                           no_providers Err_Ok)
                     else ((w1, l1\<lparr>ld_libs := AList.update path (lb_handle lib) (ld_libs l1)\<rparr>), Ok, r))))"

definition unload_library :: "string \<Rightarrow> loader \<Rightarrow> loader" where
  "unload_library path l =
     (case map_of (ld_libs l) path of
        None \<Rightarrow> l
      | Some h \<Rightarrow> (platform_close h l)\<lparr>ld_libs := AList.delete path (ld_libs l)\<rparr>)"

definition unload_all :: "loader \<Rightarrow> loader" where
  "unload_all l = (fold (\<lambda>(p, h). platform_close h) (ld_libs l) l)\<lparr>ld_libs := []\<rparr>"

section \<open>Handles\<close>

definition handles_balanced :: "loader \<Rightarrow> bool" where
  "handles_balanced l \<longleftrightarrow> distinct (map fst (ld_libs l)) \<and> ld_open l = mset (map snd (ld_libs l))"

lemma values_update:
  "map_of xs k = None \<Longrightarrow> mset (map snd (AList.update k v xs)) = add_mset v (mset (map snd xs))"
  by (simp only: mset_map mset_update_new image_mset_add_mset snd_conv)

lemma values_delete:
  assumes "distinct (map fst xs)" and "map_of xs k = Some v"
  shows "mset (map snd (AList.delete k xs)) = mset (map snd xs) - {#v#}"
  by (simp only: mset_map mset_delete_present [OF assms] image_mset_add_mset snd_conv) simp

lemma load_record:
  "snd (fst (load_library env path (w, l))) = l \<or>
   map_of (ld_libs l) path = None \<and> (\<exists>h. snd (fst (load_library env path (w, l))) =
     l\<lparr>ld_open := add_mset h (ld_open l), ld_libs := AList.update path h (ld_libs l)\<rparr>)"
  by (auto simp: load_library_def platform_close_def Let_def split: option.split prod.split)

lemma balanced_update:
  "handles_balanced l \<Longrightarrow> map_of (ld_libs l) path = None \<Longrightarrow>
   handles_balanced (l\<lparr>ld_open := add_mset h (ld_open l), ld_libs := AList.update path h (ld_libs l)\<rparr>)"
  by (cases l) (simp add: handles_balanced_def values_update del: mset_map)

lemma load_balanced: "handles_balanced l \<Longrightarrow> handles_balanced (snd (fst (load_library env path (w, l))))"
  using load_record [of env path w l] balanced_update [of l path] by auto

lemma unload_balanced: "handles_balanced l \<Longrightarrow> handles_balanced (unload_library path l)"
proof (cases "map_of (ld_libs l) path")
  case (Some h)
  assume "handles_balanced l"
  with Some values_delete [OF _ Some] show ?thesis
    by (cases l) (simp add: unload_library_def handles_balanced_def platform_close_def del: mset_map)
qed (simp add: unload_library_def)

datatype 'w loader_op = Load string | Unload string

fun loader_run :: "(string \<Rightarrow> 'w library option) \<Rightarrow> 'w loader_op list \<Rightarrow> 'w \<times> loader \<Rightarrow> 'w \<times> loader" where
  "loader_run env [] s = s"
| "loader_run env (Load p # ops) s = loader_run env ops (fst (load_library env p s))"
| "loader_run env (Unload p # ops) s = loader_run env ops (fst s, unload_library p (snd s))"

lemma run_balanced: "handles_balanced (snd s) \<Longrightarrow> handles_balanced (snd (loader_run env ops s))"
  by (induction env ops s rule: loader_run.induct)
    (auto simp: load_balanced unload_balanced split: prod.split)

lemma close_all: "ld_open (fold (\<lambda>(p, h). platform_close h) ls l) = ld_open l - mset (map snd ls)"
  by (induction ls arbitrary: l) (auto simp: platform_close_def)

text \<open>Over any history of loads and unloads, with whatever failures, the open handles are exactly those
  of the libraries on record, so nothing leaks and nothing is closed twice; unloading all of them
  closes every handle.\<close>

theorem loader_handles_exact:
  "let l = snd (loader_run env ops (w, new_loader)) in
     ld_open l = mset (map snd (ld_libs l)) \<and> distinct (map fst (ld_libs l)) \<and>
     ld_open (unload_all l) = {#} \<and> ld_libs (unload_all l) = []"
proof -
  have "handles_balanced (snd (loader_run env ops (w, new_loader)))"
    by (rule run_balanced) (simp add: handles_balanced_def new_loader_def)
  then show ?thesis by (simp add: handles_balanced_def Let_def unload_all_def close_all)
qed

text \<open>A load succeeds only with providers of this ABI version; on every failure the caller gets no
  provider, the record of libraries is as before, and the providers of a plugin of another version
  have been destroyed.\<close>

theorem load_checks_abi:
  "case load_library env path (w, l) of ((w', l'), ec, r) \<Rightarrow>
     (if ec = Ok then abi_matches r \<and> map_of (ld_libs l) path = None \<and> map_of (ld_libs l') path \<noteq> None
      else ir_tool r = None \<and> ir_prep r = None \<and> ir_gen r = None \<and> l' = l \<and>
        (w' = w \<or> (\<exists>lib init r'. env path = Some lib \<and> lb_init lib = Some init \<and> snd (init w) = r' \<and>
           (w' = (if ir_rc r' = Err_Ok then destroy_all r' (fst (init w)) else fst (init w))))))"
  by (auto simp: load_library_def Let_def no_providers_def platform_close_def
      split: option.split prod.split)

end
