(* ===== verification/Plugin_Loading.thy ===== *)
theory Plugin_Loading
  imports Native_Loader Plugin_Hooks Decimal
begin

text \<open>
  The native side of \<open>src/plugin_bridge/plugin_bridge.cpp\<close>: \<open>load_one_plugin\<close>, \<open>load_plugin_dir\<close>, the
  plugin part of the destructor and \<open>get_status\<close>. A directory is the list of its entries in the order
  the iterator gives them: path, whether it is a regular file, and its extension.
\<close>

section \<open>State\<close>

record 'w loaded_plugin =
  lp_path :: string
  lp_id :: string
  lp_version :: string
  lp_runtime :: string
  lp_state :: string
  lp_tools :: "string list"
  lp_tool :: "'w tool_provider option"
  lp_prep :: "'w preprocessor option"
  lp_gen :: "'w generator option"

record 'w bridge =
  br_loader :: loader
  br_tools :: "'w tool_registry"
  br_preps :: "'w prep_entry list"
  br_gens :: "'w gen_entry list"
  br_plugins :: "'w loaded_plugin list"

definition new_bridge :: "'w bridge" where
  "new_bridge = \<lparr>br_loader = new_loader, br_tools = empty_tools, br_preps = [], br_gens = [],
     br_plugins = []\<rparr>"

section \<open>Loading a plugin\<close>

definition identity_of :: "'w init_result \<Rightarrow> string option \<times> string option" where
  "identity_of r =
     (case (ir_tool r, ir_prep r, ir_gen r) of
        (Some t, _, _) \<Rightarrow> (tp_plugin_id t, tp_version t)
      | (None, Some p, _) \<Rightarrow> (pp_plugin_id p, pp_version p)
      | (None, None, Some g) \<Rightarrow> (gn_plugin_id g, gn_version g)
      | _ \<Rightarrow> (None, None))"

definition named_tools :: "tool_def list option \<Rightarrow> string list" where
  "named_tools tds = (case tds of None \<Rightarrow> [] | Some ds \<Rightarrow> List.map_filter td_name ds)"

text \<open>The tool list is asked for once by the registry and once more for the names.\<close>

definition tool_names :: "'w tool_provider option \<Rightarrow> 'w \<Rightarrow> 'w \<times> string list" where
  "tool_names tool w =
     (case tool of
        None \<Rightarrow> (w, [])
      | Some t \<Rightarrow>
          (case tp_get_tools t of
             None \<Rightarrow> (w, [])
           | Some get \<Rightarrow> (let (w', tds) = get w in (w', named_tools tds))))"

definition load_one_plugin ::
  "json_api \<Rightarrow> (string \<Rightarrow> 'w library option) \<Rightarrow> (string \<Rightarrow> string) \<Rightarrow> string \<Rightarrow> 'w \<times> 'w bridge \<Rightarrow>
   ('w \<times> 'w bridge) \<times> error_code" where
  "load_one_plugin api env stem path s =
     (let ((w1, l), rc, r) = load_library env path (fst s, br_loader (snd s));
          b1 = (snd s)\<lparr>br_loader := l\<rparr>
      in if rc \<noteq> Ok then ((w1, b1), rc)
         else
           (let (pid, pver) = identity_of r;
                (w2, tools) = register_provider api (ir_tool r) (w1, br_tools b1);
                (w3, names) = tool_names (ir_tool r) w2;
                lp = \<lparr>lp_path = path,
                      lp_id = (case pid of Some i \<Rightarrow> i | None \<Rightarrow> stem path),
                      lp_version = (case pver of Some v \<Rightarrow> v | None \<Rightarrow> ''unknown''),
                      lp_runtime = ''cpp'', lp_state = ''SERVING'', lp_tools = names,
                      lp_tool = ir_tool r, lp_prep = ir_prep r, lp_gen = ir_gen r\<rparr>
            in ((w3, b1\<lparr>br_tools := tools,
                        br_preps := register_preprocessor (ir_prep r) (br_preps b1),
                        br_gens := register_generator (ir_gen r) (br_gens b1),
                        br_plugins := br_plugins b1 @ [lp]\<rparr>), Ok)))"

record dir_entry =
  de_path :: string
  de_regular :: bool
  de_extension :: string

fun load_entries ::
  "json_api \<Rightarrow> (string \<Rightarrow> 'w library option) \<Rightarrow> (string \<Rightarrow> string) \<Rightarrow> dir_entry list \<Rightarrow>
   ('w \<times> 'w bridge) \<times> bool \<Rightarrow> ('w \<times> 'w bridge) \<times> bool" where
  "load_entries api env stem [] acc = acc"
| "load_entries api env stem (e # es) acc =
     (if \<not> de_regular e \<or> de_extension e \<noteq> ''.so'' then load_entries api env stem es acc
      else (let (s, rc) = load_one_plugin api env stem (de_path e) (fst acc)
            in load_entries api env stem es (s, snd acc \<or> (rc \<noteq> Ok \<and> rc \<noteq> NotFound))))"

definition load_plugin_dir ::
  "json_api \<Rightarrow> (string \<Rightarrow> 'w library option) \<Rightarrow> (string \<Rightarrow> string) \<Rightarrow> (string \<Rightarrow> dir_entry list option) \<Rightarrow>
   string \<Rightarrow> 'w \<times> 'w bridge \<Rightarrow> ('w \<times> 'w bridge) \<times> error_code" where
  "load_plugin_dir api env stem ls dir s =
     (case ls dir of
        None \<Rightarrow> (s, IoError)
      | Some es \<Rightarrow>
          (let (s', any_error) = load_entries api env stem es (s, False)
           in (s', if any_error then PluginError else Ok)))"

section \<open>Destruction\<close>

definition destroy_plugin :: "'w loaded_plugin \<Rightarrow> 'w \<times> 'w bridge \<Rightarrow> 'w \<times> 'w bridge" where
  "destroy_plugin lp s =
     (let (w, b) = s;
          (w1, tools) =
            (case lp_tool lp of
               Some t \<Rightarrow> (call_free (tp_destroy t) w, unregister_tools (lp_id lp) (br_tools b))
             | None \<Rightarrow> (w, if lp_tools lp \<noteq> [] then unregister_remote_plugin (lp_id lp) (br_tools b)
                           else br_tools b));
          w2 = call_free (case lp_prep lp of None \<Rightarrow> None | Some p \<Rightarrow> pp_destroy p) w1;
          w3 = call_free (case lp_gen lp of None \<Rightarrow> None | Some g \<Rightarrow> gn_destroy g) w2
      in (w3, b\<lparr>br_tools := tools,
                br_loader := (if lp_path lp = [] then br_loader b
                              else unload_library (lp_path lp) (br_loader b))\<rparr>))"

definition destroy_bridge :: "'w \<times> 'w bridge \<Rightarrow> 'w \<times> 'w bridge" where
  "destroy_bridge s =
     (let (w, b) = fold destroy_plugin (rev (br_plugins (snd s))) s in (w, b\<lparr>br_plugins := []\<rparr>))"

section \<open>Status\<close>

definition plugin_json :: "'w loaded_plugin \<Rightarrow> json" where
  "plugin_json lp =
     JObj [(''id'', JStr (lp_id lp)), (''version'', JStr (lp_version lp)),
       (''state'', JStr (lp_state lp)), (''runtime'', JStr (lp_runtime lp)),
       (''hooks'', JArr ((if lp_tool lp \<noteq> None \<or> lp_tools lp \<noteq> [] then [JStr ''tool_provider''] else []) @
          (if lp_prep lp \<noteq> None then [JStr ''preprocessor''] else []) @
          (if lp_gen lp \<noteq> None then [JStr ''generator''] else []))),
       (''tools'', JArr (map (\<lambda>n. JObj [(''name'', JStr n),
          (''qualified_name'', JStr (lp_id lp @ ''.'' @ n))]) (lp_tools lp)))]"

definition get_status :: "'w bridge \<Rightarrow> json" where
  "get_status b =
     JObj [(''plugin_count'', JInt (cast_s32 (int (length (br_plugins b))))),
       (''tool_count'', JInt (cast_s32 (int (tool_count (br_tools b))))),
       (''plugins'', JArr (map plugin_json (br_plugins b)))]"

section \<open>Teardown\<close>

text \<open>Plugins and libraries correspond, and every tool entry belongs to a plugin on record.\<close>

definition bridge_ok :: "'w bridge \<Rightarrow> bool" where
  "bridge_ok b \<longleftrightarrow> handles_balanced (br_loader b) \<and>
     map lp_path (br_plugins b) = map fst (ld_libs (br_loader b)) \<and>
     (\<forall>e \<in> set (tg_entries (br_tools b)). \<exists>lp \<in> set (br_plugins b).
        lp_tool lp \<noteq> None \<and> lp_id lp = te_plugin e) \<and>
     tg_remote (br_tools b) = []"

lemma rebuild_fields [simp]:
  "tg_entries (rebuild_cache r) = tg_entries r" "tg_remote (rebuild_cache r) = tg_remote r"
  by (simp_all add: rebuild_cache_def)

lemma add_tools_plugin:
  "e \<in> set (add_tools api p pid tds es) \<Longrightarrow> e \<in> set es \<or> te_plugin e = pid"
  by (induction tds arbitrary: es) (force split: option.splits)+

lemma register_provider_entries:
  "tg_remote (snd (register_provider api prov (w, r))) = tg_remote r"
  "e \<in> set (tg_entries (snd (register_provider api prov (w, r)))) \<Longrightarrow>
   e \<in> set (tg_entries r) \<or> (\<exists>p. prov = Some p \<and> tp_plugin_id p = Some (te_plugin e))"
  by (auto simp: register_provider_def dest: add_tools_plugin split: option.splits prod.splits)

lemma update_new_key: "map_of xs k = None \<Longrightarrow> AList.update k v xs = xs @ [(k, v)]"
  by (induction xs) (auto split: if_splits)

lemma load_library_result:
  assumes "load_library env path (w, l) = ((w', l'), rc, r)"
  shows "if rc = Ok then map_of (ld_libs l) path = None \<and>
      map fst (ld_libs l') = map fst (ld_libs l) @ [path] else l' = l"
  using assms by (auto simp: load_library_def Let_def platform_close_def update_new_key
      split: option.splits prod.splits if_splits)

lemma load_one_ok:
  assumes "bridge_ok b"
  shows "bridge_ok (snd (fst (load_one_plugin api env stem path (w, b))))"
proof -
  obtain w1 l rc r where L: "load_library env path (w, br_loader b) = ((w1, l), rc, r)"
    by (metis prod.exhaust)
  have bal: "handles_balanced l"
    using load_balanced [of "br_loader b" env path w] assms by (simp add: L bridge_ok_def)
  show ?thesis
  proof (cases "rc = Ok")
    case False
    with load_library_result [OF L] assms show ?thesis by (simp add: load_one_plugin_def L)
  next
    case True
    obtain pid pver where idn: "identity_of r = (pid, pver)" by fastforce
    obtain w2 tools where R: "register_provider api (ir_tool r) (w1, br_tools b) = (w2, tools)" by fastforce
    obtain w3 names where N: "tool_names (ir_tool r) w2 = (w3, names)" by fastforce
    have e: "e \<in> set (tg_entries tools) \<Longrightarrow> e \<in> set (tg_entries (br_tools b)) \<or>
        (ir_tool r \<noteq> None \<and> pid = Some (te_plugin e))" for e
      using register_provider_entries(2) [of e api "ir_tool r" w1 "br_tools b"] idn
      by (auto simp: R identity_of_def)
    have m: "tg_remote tools = []"
      using register_provider_entries(1) [of api "ir_tool r" w1 "br_tools b"] assms
      by (simp add: R bridge_ok_def)
    show ?thesis
      using True load_library_result [OF L] bal m assms e
      by (force simp: load_one_plugin_def L idn R N bridge_ok_def)
  qed
qed

lemma destroy_plugin_effect:
  assumes "destroy_plugin lp (w, b) = (w', b')" and "lp_path lp \<noteq> []" and "handles_balanced (br_loader b)"
    and "tg_remote (br_tools b) = []"
  shows "handles_balanced (br_loader b')"
    and "ld_libs (br_loader b') = AList.delete (lp_path lp) (ld_libs (br_loader b))"
    and "tg_remote (br_tools b') = []"
    and "e \<in> set (tg_entries (br_tools b')) \<Longrightarrow>
      e \<in> set (tg_entries (br_tools b)) \<and> (lp_tool lp \<noteq> None \<longrightarrow> te_plugin e \<noteq> lp_id lp)"
  using assms unload_balanced [of "br_loader b" "lp_path lp"]
  by (auto simp: destroy_plugin_def unload_library_def unregister_tools_def unregister_remote_plugin_def
      platform_close_def delete_absent split: option.splits if_splits)

lemma keys_delete: "fst ` set (AList.delete k xs) = fst ` set xs - {k}"
  by (induction xs) auto

lemma destroy_all_effect:
  "fold destroy_plugin ps (w, b) = (w', b') \<Longrightarrow> \<forall>lp \<in> set ps. lp_path lp \<noteq> [] \<Longrightarrow>
   handles_balanced (br_loader b) \<Longrightarrow> tg_remote (br_tools b) = [] \<Longrightarrow>
   handles_balanced (br_loader b') \<and> tg_remote (br_tools b') = [] \<and>
   set (map fst (ld_libs (br_loader b'))) = set (map fst (ld_libs (br_loader b))) - set (map lp_path ps) \<and>
   (\<forall>e \<in> set (tg_entries (br_tools b')). e \<in> set (tg_entries (br_tools b)) \<and>
      (\<forall>lp \<in> set ps. lp_tool lp \<noteq> None \<longrightarrow> te_plugin e \<noteq> lp_id lp))"
proof (induction ps arbitrary: w b)
  case (Cons p ps)
  obtain w1 b1 where d: "destroy_plugin p (w, b) = (w1, b1)" by fastforce
  note e = destroy_plugin_effect [OF d _ Cons.prems(3,4)]
  have "fold destroy_plugin ps (w1, b1) = (w', b')" using Cons.prems(1) d by simp
  note ih = Cons.IH [OF this _ e(1) e(3)]
  show ?case using ih e Cons.prems(2) by (auto simp: keys_delete)
qed simp

lemma load_one_paths:
  "set (map lp_path (br_plugins (snd (fst (load_one_plugin api env stem p s))))) \<subseteq>
   insert p (set (map lp_path (br_plugins (snd s))))"
  by (auto simp: load_one_plugin_def Let_def split: prod.split)

text \<open>Whatever libraries are loaded, with whatever failures and clashes of plugin ids, destroying the
  bridge removes every tool of every plugin and closes every library.\<close>

theorem teardown_complete:
  assumes "\<forall>p \<in> set paths. p \<noteq> []"
  shows "let b = snd (destroy_bridge (fold (\<lambda>p s. fst (load_one_plugin api env stem p s)) paths (w, new_bridge)))
    in tg_entries (br_tools b) = [] \<and> br_plugins b = [] \<and> ld_libs (br_loader b) = [] \<and>
       ld_open (br_loader b) = {#}"
proof -
  let ?load = "\<lambda>p s. fst (load_one_plugin api env stem p s)"
  obtain w1 b1 where f: "fold ?load paths (w, new_bridge) = (w1, b1)" by fastforce
  have ok: "bridge_ok (snd (fold ?load ps s))" if "bridge_ok (snd s)" for ps s
    using that
  proof (induction ps arbitrary: s)
    case (Cons p ps)
    have "bridge_ok (snd (?load p s))" using load_one_ok [of "snd s" api env stem p "fst s"] Cons.prems by simp
    then show ?case using Cons.IH by simp
  qed simp
  have "bridge_ok b1"
    using ok [of "(w, new_bridge)" paths] f
    by (simp add: bridge_ok_def new_bridge_def handles_balanced_def new_loader_def empty_tools_def)
  have paths: "set (map lp_path (br_plugins (snd (fold ?load ps s)))) \<subseteq>
      set (map lp_path (br_plugins (snd s))) \<union> set ps" for ps s
  proof (induction ps arbitrary: s)
    case (Cons p ps)
    have "set (map lp_path (br_plugins (snd (fold ?load ps (?load p s))))) \<subseteq>
        insert p (set (map lp_path (br_plugins (snd s)))) \<union> set ps"
      by (rule subset_trans [OF Cons.IH Un_mono [OF load_one_paths subset_refl]])
    then show ?case by auto
  qed simp
  have ne: "\<forall>lp \<in> set (rev (br_plugins b1)). lp_path lp \<noteq> []"
    using paths [of paths "(w, new_bridge)"] f assms by (auto simp: new_bridge_def)
  obtain w2 b2 where g: "fold destroy_plugin (rev (br_plugins b1)) (w1, b1) = (w2, b2)" by fastforce
  have b1: "handles_balanced (br_loader b1)" "tg_remote (br_tools b1) = []"
    "map lp_path (br_plugins b1) = map fst (ld_libs (br_loader b1))"
    "\<forall>e \<in> set (tg_entries (br_tools b1)). \<exists>lp \<in> set (br_plugins b1). lp_tool lp \<noteq> None \<and> lp_id lp = te_plugin e"
    using \<open>bridge_ok b1\<close> by (simp_all add: bridge_ok_def)
  note d = destroy_all_effect [OF g ne b1(1,2)]
  have "set (map fst (ld_libs (br_loader b2))) = {}"
  proof -
    have "set (map lp_path (rev (br_plugins b1))) = set (map fst (ld_libs (br_loader b1)))"
      unfolding b1(3) [symmetric] by simp
    with d show ?thesis by (simp only: Diff_cancel)
  qed
  moreover have "set (tg_entries (br_tools b2)) = {}" 
  proof -
    have "\<forall>e \<in> set (tg_entries (br_tools b2)). e \<in> set (tg_entries (br_tools b1)) \<and>
        (\<forall>lp \<in> set (rev (br_plugins b1)). lp_tool lp \<noteq> None \<longrightarrow> te_plugin e \<noteq> lp_id lp)" using d by blast
    with b1(4) show ?thesis unfolding set_rev by (metis emptyI equals0I)
  qed
  ultimately have "tg_entries (br_tools b2) = []" "ld_libs (br_loader b2) = []" "handles_balanced (br_loader b2)"
    using d by simp_all
  then show ?thesis by (simp add: f destroy_bridge_def g handles_balanced_def)
qed

definition demo_library :: "nat \<Rightarrow> unit library" where
  "demo_library h = \<lparr>lb_handle = h, lb_init = Some (\<lambda>w. (w, \<lparr>ir_rc = Err_Ok,
     ir_tool = Some \<lparr>tp_abi = 1, tp_plugin_id = Some ''p'', tp_version = None,
       tp_get_tools = Some (\<lambda>w. (w, Some [\<lparr>td_name = Some ''t'', td_description = None,
         td_parameters = None\<rparr>])), tp_call_tool = None, tp_destroy = None\<rparr>,
     ir_prep = None, ir_gen = None\<rparr>))\<rparr>"

theorem teardown_complete_witness:
  "let b = snd (destroy_bridge (fold (\<lambda>p s. fst (load_one_plugin demo_json (\<lambda>p. Some (demo_library (length p)))
       (\<lambda>p. p) p s)) [''a.so'', ''bb.so'', ''a.so''] ((), new_bridge)))
   in tg_entries (br_tools b) = [] \<and> br_plugins b = [] \<and> ld_libs (br_loader b) = [] \<and>
      ld_open (br_loader b) = {#}"
  by (rule teardown_complete) simp

end
