(* ===== verification/Sidecar_Launcher.thy ===== *)
theory Sidecar_Launcher
  imports Decimal "HOL-Library.Sublist"
begin

text \<open>
  \<open>src/plugin_bridge/sidecar_launcher.cpp\<close>: the command line and environment of a sidecar process,
  and, on POSIX, the two threads that wait for it: the monitor, which reports the exit code, and
  \<open>stop\<close>, which kills and reaps it. The process table entry is the shared state.
\<close>

section \<open>Command line and environment\<close>

datatype sidecar_runtime = Python | JavaScript

record sidecar_config =
  sf_runtime :: sidecar_runtime
  sf_executable :: string
  sf_module :: string
  sf_socket_path :: string
  sf_config_path :: string
  sf_plugin_dir :: string
  sf_extra_args :: "string list"

definition resolve_executable :: "sidecar_config \<Rightarrow> string" where
  "resolve_executable cfg =
     (if sf_executable cfg \<noteq> [] then sf_executable cfg
      else case sf_runtime cfg of Python \<Rightarrow> ''python3'' | JavaScript \<Rightarrow> ''bun'')"

text \<open>\<open>istringstream >> tok\<close>: the runs of characters that are not white space.\<close>

fun stream_words :: "string \<Rightarrow> string \<Rightarrow> string list" where
  "stream_words [] w = (if w = [] then [] else [w])"
| "stream_words (c # cs) w =
     (if is_space c then (if w = [] then [] else [w]) @ stream_words cs [] else stream_words cs (w @ [c]))"

definition launch_args :: "sidecar_config \<Rightarrow> string list" where
  "launch_args cfg =
     resolve_executable cfg # stream_words (sf_module cfg) [] @ [''--config'', sf_config_path cfg] @
     (if sf_plugin_dir cfg = [] then [] else [''--plugin-dir'', sf_plugin_dir cfg]) @ sf_extra_args cfg"

definition socket_key :: string where
  "socket_key = ''TRUELLM_SOCKET_PATH=''"

definition launch_env :: "string list \<Rightarrow> sidecar_config \<Rightarrow> string list" where
  "launch_env environ cfg =
     filter (\<lambda>e. \<not> prefix socket_key e) environ @ [socket_key @ sf_socket_path cfg]"

text \<open>The Windows command line: only spaces make an argument quoted.\<close>

definition quote_arg :: "string \<Rightarrow> string" where
  "quote_arg a = (if CHR '' '' \<in> set a then CHR 0x22 # a @ [CHR 0x22] else a)"

fun build_cmdline :: "string list \<Rightarrow> string" where
  "build_cmdline [] = []"
| "build_cmdline [a] = quote_arg a"
| "build_cmdline (a # as) = quote_arg a @ CHR '' '' # build_cmdline as"

text \<open>The sidecar gets exactly one socket variable, the one of its own transport, after every other
  variable of the engine's environment, unchanged and in order.\<close>

theorem one_socket_variable:
  "filter (prefix socket_key) (launch_env environ cfg) = [socket_key @ sf_socket_path cfg] \<and>
   filter (\<lambda>e. \<not> prefix socket_key e) (launch_env environ cfg) =
     filter (\<lambda>e. \<not> prefix socket_key e) environ"
  by (simp add: launch_env_def)

text \<open>Quotes inside an argument are not escaped: on Windows one argument can turn into several, and
  different argument lists give the same command line.\<close>

theorem cmdline_ambiguous:
  assumes "CHR '' '' \<in> set a" and "CHR '' '' \<in> set b"
  shows "build_cmdline [a @ CHR 0x22 # CHR '' '' # CHR 0x22 # b] = build_cmdline [a, b]"
  using assms by (simp add: quote_arg_def)

theorem cmdline_ambiguous_witness:
  "build_cmdline [''x y'' @ CHR 0x22 # CHR '' '' # CHR 0x22 # ''--flag z''] = build_cmdline [''x y'', ''--flag z'']"
  by (rule cmdline_ambiguous) simp_all

section \<open>Waiting for the process\<close>

datatype process = Running | Zombie nat | Reaped

text \<open>\<open>st_poll\<close> is \<open>stop\<close> in its polling loop, with the milliseconds waited; \<open>st_final\<close> is the last,
  blocking wait after the forced kill.\<close>

datatype stopper = St_Idle | St_Poll nat | St_Final | St_Done

datatype monitor = Mo_Waiting | Mo_Reported int

record child =
  ch_process :: process
  ch_monitor :: monitor
  ch_stopper :: stopper

definition new_child :: child where
  "new_child = \<lparr>ch_process = Running, ch_monitor = Mo_Waiting, ch_stopper = St_Idle\<rparr>"

text \<open>\<open>WIFEXITED\<close> and \<open>WEXITSTATUS\<close>; after a failed \<open>waitpid\<close> the status still has its initial value 0.\<close>

definition exit_code :: "nat \<Rightarrow> int" where
  "exit_code st = (if st mod 128 = 0 then int (st div 256 mod 256) else - 1)"

definition sigterm :: nat where "sigterm = 15"
definition sigkill :: nat where "sigkill = 9"

inductive child_step :: "nat \<Rightarrow> child \<Rightarrow> child \<Rightarrow> bool" for timeout_ms :: nat where
  exits: "ch_process c = Running \<Longrightarrow> child_step timeout_ms c (c\<lparr>ch_process := Zombie st\<rparr>)"
| monitor_reaps: "ch_monitor c = Mo_Waiting \<Longrightarrow> ch_process c = Zombie st \<Longrightarrow>
    child_step timeout_ms c (c\<lparr>ch_process := Reaped, ch_monitor := Mo_Reported (exit_code st)\<rparr>)"
| monitor_no_child: "ch_monitor c = Mo_Waiting \<Longrightarrow> ch_process c = Reaped \<Longrightarrow>
    child_step timeout_ms c (c\<lparr>ch_monitor := Mo_Reported (exit_code 0)\<rparr>)"
| stop_begins: "ch_stopper c = St_Idle \<Longrightarrow> child_step timeout_ms c (c\<lparr>ch_stopper := St_Poll 0\<rparr>)"
| stop_reaps: "ch_stopper c = St_Poll t \<Longrightarrow> t < timeout_ms \<Longrightarrow> ch_process c = Zombie st \<Longrightarrow>
    child_step timeout_ms c (c\<lparr>ch_process := Reaped, ch_stopper := St_Final\<rparr>)"
| stop_sleeps: "ch_stopper c = St_Poll t \<Longrightarrow> t < timeout_ms \<Longrightarrow> \<forall>st. ch_process c \<noteq> Zombie st \<Longrightarrow>
    child_step timeout_ms c (c\<lparr>ch_stopper := St_Poll (t + 50)\<rparr>)"
| stop_kills: "ch_stopper c = St_Poll t \<Longrightarrow> \<not> t < timeout_ms \<Longrightarrow>
    child_step timeout_ms c (c\<lparr>ch_stopper := St_Final,
      ch_process := (if ch_process c = Running then Zombie sigkill else ch_process c)\<rparr>)"
| stop_waits: "ch_stopper c = St_Final \<Longrightarrow> ch_process c \<noteq> Running \<Longrightarrow>
    child_step timeout_ms c (c\<lparr>ch_stopper := St_Done, ch_process := Reaped\<rparr>)"

inductive child_run :: "nat \<Rightarrow> child \<Rightarrow> child \<Rightarrow> bool" for timeout_ms :: nat where
  none: "child_run timeout_ms c c"
| more: "child_run timeout_ms c d \<Longrightarrow> child_step timeout_ms d e \<Longrightarrow> child_run timeout_ms c e"

text \<open>Where the two threads stand, whatever the process did.\<close>

definition child_ok :: "child \<Rightarrow> bool" where
  "child_ok c \<longleftrightarrow> (ch_process c = Running \<longrightarrow> ch_monitor c = Mo_Waiting) \<and>
     ((\<exists>st. ch_process c = Zombie st) \<longrightarrow> ch_monitor c = Mo_Waiting) \<and>
     (ch_stopper c = St_Done \<longrightarrow> ch_process c = Reaped)"

lemma child_step_ok: "child_step t c d \<Longrightarrow> child_ok c \<Longrightarrow> child_ok d"
  by (induction rule: child_step.induct) (auto simp: child_ok_def split: if_splits)

lemma child_run_ok: "child_run t c d \<Longrightarrow> child_ok c \<Longrightarrow> child_ok d"
  by (induction rule: child_run.induct) (auto intro: child_step_ok)

lemma report_means_reaped: "child_run t new_child c \<Longrightarrow> ch_monitor c \<noteq> Mo_Waiting \<Longrightarrow> ch_process c = Reaped"
  using child_run_ok [of t new_child c] by (cases "ch_process c") (auto simp: child_ok_def new_child_def)

lemma child_run_one: "child_step t c d \<Longrightarrow> child_run t c d"
  by (rule child_run.more [OF child_run.none])

text \<open>The kill of an unhealthy sidecar races with the monitor for the exit status. Whatever status the
  process ends with, there is a run in which \<open>stop\<close> reaps it and the monitor then reports a clean
  exit, and another in which the monitor reaps it and reports the code of the status.\<close>

theorem kill_can_look_clean:
  assumes "0 < timeout_ms"
  shows "(\<exists>c. child_run timeout_ms new_child c \<and> ch_monitor c = Mo_Reported 0 \<and> ch_stopper c = St_Done) \<and>
    (\<exists>c. child_run timeout_ms new_child c \<and> ch_monitor c = Mo_Reported (exit_code st))"
proof
  let ?c0 = new_child
  let ?c1 = "?c0\<lparr>ch_stopper := St_Poll 0\<rparr>"
  let ?c2 = "?c1\<lparr>ch_process := Zombie st\<rparr>"
  let ?c3 = "?c2\<lparr>ch_process := Reaped, ch_stopper := St_Final\<rparr>"
  let ?c4 = "?c3\<lparr>ch_stopper := St_Done, ch_process := Reaped\<rparr>"
  let ?c5 = "?c4\<lparr>ch_monitor := Mo_Reported (exit_code 0)\<rparr>"
  have 1: "child_step timeout_ms ?c0 ?c1" by (rule stop_begins) (simp add: new_child_def)
  have 2: "child_step timeout_ms ?c1 ?c2" by (rule exits) (simp add: new_child_def)
  have 3: "child_step timeout_ms ?c2 ?c3" by (rule stop_reaps) (use assms in simp_all)
  have 4: "child_step timeout_ms ?c3 ?c4" by (rule stop_waits) simp_all
  have 5: "child_step timeout_ms ?c4 ?c5" by (rule monitor_no_child) (simp_all add: new_child_def)
  have r2: "child_run timeout_ms ?c0 ?c2" by (rule child_run.more [OF child_run_one [OF 1] 2])
  have "child_run timeout_ms ?c0 ?c5"
    by (rule child_run.more [OF child_run.more [OF child_run.more [OF r2 3] 4] 5])
  then show "\<exists>c. child_run timeout_ms new_child c \<and> ch_monitor c = Mo_Reported 0 \<and> ch_stopper c = St_Done"
    by (rule exI [of _ ?c5, OF conjI]) (simp add: exit_code_def)
  have "child_step timeout_ms ?c2 (?c2\<lparr>ch_process := Reaped, ch_monitor := Mo_Reported (exit_code st)\<rparr>)"
    by (rule monitor_reaps) (simp_all add: new_child_def)
  then show "\<exists>c. child_run timeout_ms new_child c \<and> ch_monitor c = Mo_Reported (exit_code st)"
    by (intro exI conjI, rule child_run.more [OF r2]) simp_all
qed

theorem kill_can_look_clean_witness:
  "(\<exists>c. child_run 1000 new_child c \<and> ch_monitor c = Mo_Reported 0 \<and> ch_stopper c = St_Done) \<and>
   (\<exists>c. child_run 1000 new_child c \<and> ch_monitor c = Mo_Reported (exit_code sigterm))"
  by (rule kill_can_look_clean) simp

end
