(* ===== verification/Sidecar_Sessions.thy ===== *)
theory Sidecar_Sessions
  imports Plugin_Loading Sidecar_Launcher Config_Schema
begin

text \<open>
  The sidecar side of \<open>src/plugin_bridge/plugin_bridge.cpp\<close>: starting sidecars, their announcements,
  their exits and their restarts. \<open>sidecar_sessions_\<close> is a \<open>std::vector\<close> whose elements the callbacks
  point to; a pointer is the epoch of the vector's storage and an index, and it dangles once the vector
  has moved to new storage or has lost the element.
\<close>

section \<open>State\<close>

record session =
  ss_runtime :: sidecar_runtime
  ss_dir :: string
  ss_open :: bool
  ss_ready :: bool
  ss_restarts :: int
  ss_shutting :: bool

type_synonym sess_ptr = "nat \<times> nat"

record 'w sidecars =
  sc_sessions :: "session list"
  sc_capacity :: nat
  sc_epoch :: nat
  sc_running :: "sess_ptr list"
  sc_timers :: "(sess_ptr \<times> int) list"
  sc_bridge :: "'w bridge"

text \<open>\<open>sc_running\<close> holds the pointer that the exit callback of each running process captured;
  \<open>sc_timers\<close> the pointers and delays of the restart threads.\<close>

definition new_sidecars :: "'w sidecars" where
  "new_sidecars = \<lparr>sc_sessions = [], sc_capacity = 0, sc_epoch = 0, sc_running = [], sc_timers = [],
     sc_bridge = new_bridge\<rparr>"

definition live_ptr :: "sess_ptr \<Rightarrow> 'w sidecars \<Rightarrow> bool" where
  "live_ptr p st \<longleftrightarrow> fst p = sc_epoch st \<and> snd p < length (sc_sessions st)"

definition deref :: "sess_ptr \<Rightarrow> 'w sidecars \<Rightarrow> session exec" where
  "deref p st = (if live_ptr p st then Inr (sc_sessions st ! snd p) else Inl Dangling)"

definition upd_session :: "sess_ptr \<Rightarrow> (session \<Rightarrow> session) \<Rightarrow> 'w sidecars \<Rightarrow> 'w sidecars exec" where
  "upd_session p f st =
     (if live_ptr p st
      then Inr (st\<lparr>sc_sessions := (sc_sessions st)[snd p := f (sc_sessions st ! snd p)]\<rparr>)
      else Inl Dangling)"

section \<open>Starting\<close>

definition emplace_session :: "(nat \<Rightarrow> nat) \<Rightarrow> session \<Rightarrow> 'w sidecars \<Rightarrow> 'w sidecars" where
  "emplace_session grow s st =
     (if length (sc_sessions st) < sc_capacity st then st\<lparr>sc_sessions := sc_sessions st @ [s]\<rparr>
      else st\<lparr>sc_sessions := sc_sessions st @ [s], sc_capacity := grow (sc_capacity st),
              sc_epoch := Suc (sc_epoch st)\<rparr>)"

definition new_session :: "sidecar_runtime \<Rightarrow> string \<Rightarrow> session" where
  "new_session rt dir = \<lparr>ss_runtime = rt, ss_dir = dir, ss_open = True, ss_ready = False,
     ss_restarts = 0, ss_shutting = False\<rparr>"

definition pop_session :: "'w sidecars \<Rightarrow> 'w sidecars" where
  "pop_session st = st\<lparr>sc_sessions := butlast (sc_sessions st)\<rparr>"

definition start_sidecar ::
  "(nat \<Rightarrow> nat) \<Rightarrow> string \<Rightarrow> sidecar_runtime \<Rightarrow> bool \<Rightarrow> bool \<Rightarrow> 'w sidecars \<Rightarrow> 'w sidecars \<times> error_code" where
  "start_sidecar grow dir rt launched accepted st =
     (let st1 = emplace_session grow (new_session rt dir) st;
          i = length (sc_sessions st);
          p = (sc_epoch st1, i)
      in if \<not> launched then (pop_session st1, PluginError)
         else
           (let st2 = st1\<lparr>sc_running := sc_running st1 @ [p]\<rparr>
            in if \<not> accepted then (pop_session st2, PluginError)
               else (st2\<lparr>sc_sessions := (sc_sessions st2)[i := (sc_sessions st2 ! i)\<lparr>ss_ready := True\<rparr>]\<rparr>,
                     Ok)))"

section \<open>Announcements\<close>

text \<open>\<open>dispatch q\<close> is the remote call of the tool that the sidecar knows as \<open>q\<close>. \<^const>\<open>None\<close> is an
  exception of a JSON accessor.\<close>

definition after_last_dot :: "string \<Rightarrow> string" where
  "after_last_dot q = rev (takeWhile (\<lambda>c. c \<noteq> CHR ''.'') (rev q))"

fun json_items :: "json option \<Rightarrow> json list" where
  "json_items (Some (JArr xs)) = xs"
| "json_items (Some (JObj kvs)) = map snd kvs"
| "json_items (Some JNull) = []"
| "json_items (Some v) = [v]"
| "json_items None = []"

fun member :: "json \<Rightarrow> string \<Rightarrow> json option" where
  "member (JObj kvs) k = map_of kvs k"
| "member _ k = None"

definition tool_def_params :: "json_api \<Rightarrow> json \<Rightarrow> json" where
  "tool_def_params api td =
     (case member td ''parameters'' of
        None \<Rightarrow> JObj []
      | Some (JStr s) \<Rightarrow> (case j_parse api s of None \<Rightarrow> JObj [] | Some j \<Rightarrow> j)
      | Some v \<Rightarrow> v)"

definition tool_def_name :: "json_api \<Rightarrow> json \<Rightarrow> string option" where
  "tool_def_name api td =
     (case j_str api td ''qualified_name'' [] of
        None \<Rightarrow> None
      | Some q \<Rightarrow> if q \<noteq> [] then Some q else j_str api td ''name'' [])"

definition tool_def_schema :: "json_api \<Rightarrow> string \<Rightarrow> json \<Rightarrow> string option" where
  "tool_def_schema api q td =
     (case j_str api td ''schema_json'' [] of
        None \<Rightarrow> None
      | Some s \<Rightarrow>
          if s \<noteq> [] then Some s
          else (case j_str api td ''description'' [] of
                  None \<Rightarrow> None
                | Some d \<Rightarrow> Some (j_dump api (JObj [(''type'', JStr ''function''),
                    (''function'', JObj [(''name'', JStr q), (''description'', JStr d),
                      (''parameters'', tool_def_params api td)])]))))"

text \<open>The tools of one plugin: the registry, the names so far, and whether no exception was thrown.\<close>

fun announce_tools ::
  "json_api \<Rightarrow> (string \<Rightarrow> 'w dispatch_fn) \<Rightarrow> string \<Rightarrow> json list \<Rightarrow> 'w tool_registry \<Rightarrow> string list \<Rightarrow>
   'w tool_registry \<times> string list \<times> bool" where
  "announce_tools api dispatch pid [] reg names = (reg, names, True)"
| "announce_tools api dispatch pid (td # tds) reg names =
     (case tool_def_name api td of
        None \<Rightarrow> (reg, names, False)
      | Some q \<Rightarrow>
          if q = [] then announce_tools api dispatch pid tds reg names
          else (case tool_def_schema api q td of
                  None \<Rightarrow> (reg, names, False)
                | Some schema \<Rightarrow>
                    announce_tools api dispatch pid tds
                      (register_remote pid (after_last_dot q) schema (Some (dispatch q)) reg)
                      (names @ [after_last_dot q])))"

fun announce_plugins ::
  "json_api \<Rightarrow> (string \<Rightarrow> 'w dispatch_fn) \<Rightarrow> json list \<Rightarrow> 'w bridge \<Rightarrow> 'w bridge \<times> bool" where
  "announce_plugins api dispatch [] b = (b, True)"
| "announce_plugins api dispatch (p # ps) b =
     (case (j_str api p ''plugin_id'' [], j_str api p ''plugin_version'' ''unknown'',
            j_str api p ''runtime'' ''unknown'') of
        (Some pid, Some ver, Some rt) \<Rightarrow>
          if pid = [] then announce_plugins api dispatch ps b
          else
            (let (reg, names, fine) =
               announce_tools api dispatch pid (json_items (member p ''tool_defs'')) (br_tools b) []
             in if \<not> fine then (b\<lparr>br_tools := reg\<rparr>, False)
                else announce_plugins api dispatch ps (b\<lparr>br_tools := reg,
                  br_plugins := br_plugins b @ [\<lparr>lp_path = [], lp_id = pid, lp_version = ver,
                    lp_runtime = rt, lp_state = ''SERVING'', lp_tools = names, lp_tool = None,
                    lp_prep = None, lp_gen = None\<rparr>]\<rparr>))
      | _ \<Rightarrow> (b, False))"

definition on_sidecar_announce ::
  "json_api \<Rightarrow> (string \<Rightarrow> 'w dispatch_fn) \<Rightarrow> json \<Rightarrow> 'w bridge \<Rightarrow> 'w bridge \<times> bool" where
  "on_sidecar_announce api dispatch announce b =
     (case member announce ''plugins'' of
        Some (JArr ps) \<Rightarrow> announce_plugins api dispatch ps b
      | _ \<Rightarrow> (b, True))"

section \<open>Exit and restart\<close>

definition backoff_ms :: "int \<Rightarrow> int exec" where
  "backoff_ms n =
     (if n < 0 \<or> 32 \<le> n then Inl SignedOverflow
      else ebind (s32 (1000 * 2 ^ nat n)) (\<lambda>ms. Inr (min ms 30000)))"

definition on_sidecar_exit ::
  "plugin_config \<Rightarrow> sess_ptr \<Rightarrow> int \<Rightarrow> 'w sidecars \<Rightarrow> 'w sidecars exec" where
  "on_sidecar_exit cfg p code st0 =
     (let st = st0\<lparr>sc_running := remove1 p (sc_running st0)\<rparr> in
      ebind (deref p st) (\<lambda>s.
        if ss_shutting s \<or> code = 0 then Inr st
        else if \<not> pl_restart_on_crash cfg then Inr st
        else if ss_restarts s \<ge> pl_max_restart_attempts cfg
        then upd_session p (\<lambda>s. s\<lparr>ss_ready := False\<rparr>) st
        else ebind (backoff_ms (ss_restarts s)) (\<lambda>delay.
          ebind (upd_session p (\<lambda>s. s\<lparr>ss_restarts := ss_restarts s + 1\<rparr>) st) (\<lambda>st1.
            Inr (st1\<lparr>sc_timers := sc_timers st1 @ [(p, delay)]\<rparr>)))))"

definition runtime_name :: "sidecar_runtime \<Rightarrow> string" where
  "runtime_name rt = (case rt of Python \<Rightarrow> ''python'' | JavaScript \<Rightarrow> ''js'')"

definition of_runtime :: "sidecar_runtime \<Rightarrow> 'w loaded_plugin \<Rightarrow> bool" where
  "of_runtime rt lp \<longleftrightarrow> lp_runtime lp = runtime_name rt \<and> lp_tool lp = None"

definition drop_runtime :: "sidecar_runtime \<Rightarrow> 'w bridge \<Rightarrow> 'w bridge" where
  "drop_runtime rt b =
     b\<lparr>br_tools := fold (\<lambda>lp r. if of_runtime rt lp then unregister_remote_plugin (lp_id lp) r else r)
         (br_plugins b) (br_tools b),
       br_plugins := filter (\<lambda>lp. \<not> of_runtime rt lp) (br_plugins b)\<rparr>"

definition restart_sidecar ::
  "(nat \<Rightarrow> nat) \<Rightarrow> sess_ptr \<Rightarrow> bool \<Rightarrow> bool \<Rightarrow> 'w sidecars \<Rightarrow> 'w sidecars exec" where
  "restart_sidecar grow p launched accepted st =
     ebind (deref p st) (\<lambda>s.
     ebind (upd_session p (\<lambda>s. s\<lparr>ss_open := False, ss_ready := False\<rparr>) st) (\<lambda>st1.
       (let st2 = st1\<lparr>sc_bridge := drop_runtime (ss_runtime s) (sc_bridge st1)\<rparr>;
            (st3, rc) = start_sidecar grow (ss_dir s) (ss_runtime s) launched accepted st2
        in ebind (deref p st3) (\<lambda>_.
             if rc \<noteq> Ok then Inr st3 else upd_session p (\<lambda>s. s\<lparr>ss_restarts := 0\<rparr>) st3))))"

text \<open>The sessions part of the destructor, and \<open>init\<close>: which kind of plugin a directory holds is
  decided by the files in it.\<close>

definition shut_down :: "'w sidecars \<Rightarrow> 'w sidecars" where
  "shut_down st = st\<lparr>sc_sessions := []\<rparr>"

datatype dir_kind = Py_Dir | Js_Dir | Native_Dir

definition dir_kind_of :: "(string \<Rightarrow> bool) \<Rightarrow> string \<Rightarrow> dir_kind" where
  "dir_kind_of exists_file dir =
     (let f = (\<lambda>n. exists_file (dir @ CHR ''/'' # n)) in
      if f ''manifest.toml'' \<and> f ''main.py'' then Py_Dir
      else if f ''manifest.toml'' \<and> (f ''main.ts'' \<or> f ''main.js'') then Js_Dir
      else Native_Dir)"

record init_env =
  ie_exists :: "string \<Rightarrow> bool"
  ie_launched :: "string \<Rightarrow> bool"
  ie_accepted :: "string \<Rightarrow> bool"
  ie_list :: "string \<Rightarrow> dir_entry list option"
  ie_stem :: "string \<Rightarrow> string"
  ie_grow :: "nat \<Rightarrow> nat"

definition init_dir ::
  "json_api \<Rightarrow> (string \<Rightarrow> 'w library option) \<Rightarrow> init_env \<Rightarrow> string \<Rightarrow> 'w \<times> 'w sidecars \<Rightarrow> 'w \<times> 'w sidecars" where
  "init_dir api libs ie dir ws =
     (case dir_kind_of (ie_exists ie) dir of
        Py_Dir \<Rightarrow> (fst ws, fst (start_sidecar (ie_grow ie) dir Python (ie_launched ie dir)
                      (ie_accepted ie dir) (snd ws)))
      | Js_Dir \<Rightarrow> (fst ws, fst (start_sidecar (ie_grow ie) dir JavaScript (ie_launched ie dir)
                      (ie_accepted ie dir) (snd ws)))
      | Native_Dir \<Rightarrow>
          (let ((w, b), rc) = load_plugin_dir api libs (ie_stem ie) (ie_list ie) dir (fst ws, sc_bridge (snd ws))
           in (w, (snd ws)\<lparr>sc_bridge := b\<rparr>)))"

definition init_bridge ::
  "json_api \<Rightarrow> (string \<Rightarrow> 'w library option) \<Rightarrow> init_env \<Rightarrow> plugin_config \<Rightarrow> 'w \<times> 'w sidecars \<Rightarrow>
   ('w \<times> 'w sidecars) \<times> error_code" where
  "init_bridge api libs ie cfg ws =
     (if \<not> pl_enabled cfg \<or> pl_plugin_dirs cfg = [] then (ws, Ok)
      else (fold (init_dir api libs ie) (pl_plugin_dirs cfg) ws, Ok))"

section \<open>Dangling pointers\<close>

lemma start_full:
  assumes "length (sc_sessions st) = sc_capacity st"
  shows "sc_epoch (fst (start_sidecar grow dir rt la ac st)) = Suc (sc_epoch st)"
  using assms by (simp add: start_sidecar_def emplace_session_def pop_session_def Let_def)

text \<open>A sidecar that is started while the vector of sessions is full moves the vector, and every
  pointer that an earlier session's callbacks hold dangles: the next exit of an earlier sidecar, or its
  restart, uses freed memory, whether or not the new sidecar came up.\<close>

theorem second_sidecar_dangles:
  assumes "length (sc_sessions st) = sc_capacity st" and "live_ptr p st"
  shows "let st' = fst (start_sidecar grow dir rt la ac st) in
    on_sidecar_exit cfg p code st' = Inl Dangling \<and> restart_sidecar grow p la' ac' st' = Inl Dangling"
proof -
  let ?s = "fst (start_sidecar grow dir rt la ac st)"
  have "\<not> live_ptr p (?s\<lparr>sc_running := r\<rparr>)" and "\<not> live_ptr p ?s" for r
    using assms(2) start_full [OF assms(1)] by (simp_all add: live_ptr_def)
  then show ?thesis
    by (simp add: on_sidecar_exit_def restart_sidecar_def deref_def Let_def)
qed

definition doubling :: "nat \<Rightarrow> nat" where
  "doubling n = (if n = 0 then 1 else 2 * n)"

definition two_sidecars :: "unit sidecars" where
  "two_sidecars = fst (start_sidecar doubling ''a'' Python True True new_sidecars)"

theorem second_sidecar_dangles_witness:
  "let st' = fst (start_sidecar doubling ''b'' Python True True two_sidecars) in
    on_sidecar_exit default_plugin (1, 0) 1 st' = Inl Dangling \<and>
    restart_sidecar doubling (1, 0) True True st' = Inl Dangling"
  by (rule second_sidecar_dangles)
    (simp_all add: two_sidecars_def start_sidecar_def emplace_session_def new_sidecars_def doubling_def live_ptr_def)

section \<open>Crash loops\<close>

text \<open>A sidecar that crashes right after every start: the exit of the newest session, then its restart.\<close>

definition crash_cycle :: "plugin_config \<Rightarrow> (nat \<Rightarrow> nat) \<Rightarrow> 'w sidecars \<Rightarrow> 'w sidecars exec" where
  "crash_cycle cfg grow st =
     (let p = (sc_epoch st, length (sc_sessions st) - 1)
      in ebind (on_sidecar_exit cfg p 1 st) (restart_sidecar grow p True True))"

fun crash_cycles :: "plugin_config \<Rightarrow> (nat \<Rightarrow> nat) \<Rightarrow> nat \<Rightarrow> 'w sidecars \<Rightarrow> 'w sidecars exec" where
  "crash_cycles cfg grow 0 st = Inr st"
| "crash_cycles cfg grow (Suc n) st = ebind (crash_cycle cfg grow st) (crash_cycles cfg grow n)"

definition fresh_last :: "'w sidecars \<Rightarrow> bool" where
  "fresh_last st \<longleftrightarrow> sc_sessions st \<noteq> [] \<and> ss_restarts (last (sc_sessions st)) = 0 \<and>
     \<not> ss_shutting (last (sc_sessions st)) \<and> ss_ready (last (sc_sessions st))"

lemma start_room:
  assumes "length (sc_sessions st) < sc_capacity st"
  shows "start_sidecar grow dir rt True True st =
    (st\<lparr>sc_sessions := sc_sessions st @ [(new_session rt dir)\<lparr>ss_ready := True\<rparr>],
        sc_running := sc_running st @ [(sc_epoch st, length (sc_sessions st))]\<rparr>, Ok)"
  using assms by (simp add: start_sidecar_def emplace_session_def nth_append list_update_append)

lemma upd_last:
  "sc_sessions st = ss @ [s] \<Longrightarrow>
   upd_session (sc_epoch st, length ss) f st = Inr (st\<lparr>sc_sessions := ss @ [f s]\<rparr>)"
  by (simp add: upd_session_def live_ptr_def)

lemma deref_last: "sc_sessions st = ss @ [s] \<Longrightarrow> deref (sc_epoch st, length ss) st = Inr s"
  by (simp add: deref_def live_ptr_def)

lemma exit_last:
  assumes "sc_sessions st = ss @ [s]" and "ss_restarts s = 0" and "\<not> ss_shutting s"
    and "pl_restart_on_crash cfg" and "pl_max_restart_attempts cfg \<ge> 1"
  shows "on_sidecar_exit cfg (sc_epoch st, length ss) 1 st =
    Inr (st\<lparr>sc_running := remove1 (sc_epoch st, length ss) (sc_running st),
           sc_sessions := ss @ [s\<lparr>ss_restarts := 1\<rparr>],
           sc_timers := sc_timers st @ [((sc_epoch st, length ss), 1000)]\<rparr>)"
proof -
  let ?p = "(sc_epoch st, length ss)"
  let ?st = "st\<lparr>sc_running := remove1 ?p (sc_running st)\<rparr>"
  have d: "deref ?p ?st = Inr s" using deref_last [of ?st ss s] assms(1) by simp
  have u: "upd_session ?p f ?st = Inr (?st\<lparr>sc_sessions := ss @ [f s]\<rparr>)" for f
    using upd_last [of ?st ss s f] assms(1) by simp
  have b: "backoff_ms 0 = Inr 1000" by (simp add: backoff_ms_def in_s32_def)
  show ?thesis using assms(2-5) by (simp add: on_sidecar_exit_def Let_def d u b)
qed

lemma restart_last:
  assumes "sc_sessions st = ss @ [s]" and "Suc (length ss) < sc_capacity st"
  shows "restart_sidecar grow (sc_epoch st, length ss) True True st =
    Inr (st\<lparr>sc_sessions := ss @ [s\<lparr>ss_open := False, ss_ready := False, ss_restarts := 0\<rparr>,
             (new_session (ss_runtime s) (ss_dir s))\<lparr>ss_ready := True\<rparr>],
           sc_bridge := drop_runtime (ss_runtime s) (sc_bridge st),
           sc_running := sc_running st @ [(sc_epoch st, Suc (length ss))]\<rparr>)"
  using assms
  by (simp add: restart_sidecar_def deref_last [OF assms(1)] upd_last [OF assms(1)] start_room Let_def)
    (simp add: deref_def upd_session_def live_ptr_def nth_append list_update_append)

lemma crash_cycle_fresh:
  assumes "fresh_last st" and "pl_restart_on_crash cfg" and "pl_max_restart_attempts cfg \<ge> 1"
    and "length (sc_sessions st) < sc_capacity st"
  shows "\<exists>st' p. crash_cycle cfg grow st = Inr st' \<and> fresh_last st' \<and>
    length (sc_sessions st') = Suc (length (sc_sessions st)) \<and> sc_capacity st' = sc_capacity st \<and>
    sc_timers st' = sc_timers st @ [(p, 1000)]"
proof -
  obtain ss s where ss: "sc_sessions st = ss @ [s]"
    using assms(1) by (cases "sc_sessions st" rule: rev_cases) (auto simp: fresh_last_def)
  have s: "ss_restarts s = 0" "\<not> ss_shutting s" using assms(1) by (simp_all add: fresh_last_def ss)
  let ?p = "(sc_epoch st, length ss)"
  let ?st1 = "st\<lparr>sc_running := remove1 ?p (sc_running st), sc_sessions := ss @ [s\<lparr>ss_restarts := 1\<rparr>],
    sc_timers := sc_timers st @ [(?p, 1000)]\<rparr>"
  have p: "(sc_epoch st, length (sc_sessions st) - 1) = ?p" by (simp add: ss)
  have r: "restart_sidecar grow ?p True True ?st1 = Inr (?st1\<lparr>sc_sessions := ss @
      [s\<lparr>ss_restarts := 1, ss_open := False, ss_ready := False, ss_restarts := 0\<rparr>,
       (new_session (ss_runtime s) (ss_dir s))\<lparr>ss_ready := True\<rparr>],
      sc_bridge := drop_runtime (ss_runtime s) (sc_bridge st),
      sc_running := remove1 ?p (sc_running st) @ [(sc_epoch st, Suc (length ss))]\<rparr>)"
    using restart_last [of ?st1 ss "s\<lparr>ss_restarts := 1\<rparr>" grow] assms(4) by (simp add: ss)
  have "crash_cycle cfg grow st = restart_sidecar grow ?p True True ?st1"
    unfolding crash_cycle_def Let_def p exit_last [OF ss s assms(2,3)] ebind_Inr ..
  then show ?thesis
    unfolding r by (intro exI conjI, assumption) (simp_all add: ss fresh_last_def new_session_def)
qed

text \<open>The limit on restarts never takes effect: a sidecar that crashes after every start is restarted
  any number of times, each time after one second, whatever positive limit is configured; the engine
  keeps a session for every one of them.\<close>

theorem crash_loop_never_stops:
  assumes "fresh_last st" and "pl_restart_on_crash cfg" and "pl_max_restart_attempts cfg \<ge> 1"
    and "length (sc_sessions st) + n \<le> sc_capacity st" and "sc_timers st = []"
  shows "\<exists>st'. crash_cycles cfg grow n st = Inr st' \<and> fresh_last st' \<and>
    length (sc_sessions st') = length (sc_sessions st) + n \<and> map snd (sc_timers st') = replicate n 1000"
proof -
  have "\<exists>st'. crash_cycles cfg grow n st = Inr st' \<and> fresh_last st' \<and>
      length (sc_sessions st') = length (sc_sessions st) + n \<and>
      map snd (sc_timers st') = map snd (sc_timers st) @ replicate n 1000"
    using assms(1,4)
  proof (induction n arbitrary: st)
    case (Suc n)
    then obtain st1 p where c: "crash_cycle cfg grow st = Inr st1" "fresh_last st1"
      "length (sc_sessions st1) = Suc (length (sc_sessions st))" "sc_capacity st1 = sc_capacity st"
      "sc_timers st1 = sc_timers st @ [(p, 1000)]"
      using crash_cycle_fresh [OF Suc.prems(1) assms(2,3)] by fastforce
    then show ?case using Suc.IH [OF c(2)] Suc.prems(2) by auto
  qed simp
  then show ?thesis using assms(5) by simp
qed

definition one_sidecar :: "unit sidecars" where
  "one_sidecar = fst (start_sidecar (\<lambda>n. 100) ''a'' Python True True new_sidecars)"

theorem crash_loop_never_stops_witness:
  "\<exists>st'. crash_cycles default_plugin (\<lambda>n. 100) 50 one_sidecar = Inr st' \<and> fresh_last st' \<and>
    length (sc_sessions st') = length (sc_sessions one_sidecar) + 50 \<and>
    map snd (sc_timers st') = replicate 50 1000"
  by (rule crash_loop_never_stops)
    (simp_all add: one_sidecar_def start_sidecar_def emplace_session_def new_sidecars_def
      fresh_last_def new_session_def default_plugin_def)

section \<open>Tools lost in a restart\<close>

lemma unregister_fold:
  "set (tg_remote (fold (\<lambda>lp r. if P lp then unregister_remote_plugin (lp_id lp) r else r) lps r)) =
   {e \<in> set (tg_remote r). \<forall>lp \<in> set lps. P lp \<longrightarrow> re_plugin e \<noteq> lp_id lp}"
  by (induction lps arbitrary: r) (auto simp: unregister_remote_plugin_def)

text \<open>The restart of one sidecar takes away the tools of every other sidecar of the same runtime: all
  remote tools of their plugins leave the registry and the plugins leave the record, although those
  sidecars are running and do not announce again.\<close>

theorem restart_drops_other_tools:
  assumes "deref p st = Inr s" and "length (sc_sessions st) < sc_capacity st"
    and "lp \<in> set (br_plugins (sc_bridge st))" and "of_runtime (ss_runtime s) lp"
  shows "\<exists>st'. restart_sidecar grow p True True st = Inr st' \<and>
    lp \<notin> set (br_plugins (sc_bridge st')) \<and>
    (\<forall>e \<in> set (tg_remote (br_tools (sc_bridge st'))). re_plugin e \<noteq> lp_id lp)"
proof -
  have l: "live_ptr p st" "s = sc_sessions st ! snd p"
    using assms(1) by (auto simp: deref_def split: if_splits)
  let ?st1 = "st\<lparr>sc_sessions := (sc_sessions st)[snd p := s\<lparr>ss_open := False, ss_ready := False\<rparr>]\<rparr>"
  let ?st2 = "?st1\<lparr>sc_bridge := drop_runtime (ss_runtime s) (sc_bridge st)\<rparr>"
  obtain st3 where st3: "start_sidecar grow (ss_dir s) (ss_runtime s) True True ?st2 = (st3, Ok)"
    "sc_bridge st3 = drop_runtime (ss_runtime s) (sc_bridge st)" "live_ptr p st3"
    using assms(2) l(1) by (simp add: start_room live_ptr_def)
  have "restart_sidecar grow p True True st = upd_session p (\<lambda>s. s\<lparr>ss_restarts := 0\<rparr>) st3"
  proof -
    have u: "upd_session p (\<lambda>s. s\<lparr>ss_open := False, ss_ready := False\<rparr>) st = Inr ?st1"
      using l by (simp add: upd_session_def)
    have sb: "sc_bridge ?st1 = sc_bridge st" by simp
    have d: "deref p st3 = Inr (sc_sessions st3 ! snd p)" using st3(3) by (simp only: deref_def if_True)
    show ?thesis
      by (simp only: restart_sidecar_def assms(1) ebind_Inr u Let_def sb st3(1) prod.case d simp_thms if_False)
  qed
  then obtain st' where st': "restart_sidecar grow p True True st = Inr st'"
    "sc_bridge st' = drop_runtime (ss_runtime s) (sc_bridge st)"
    using st3(2,3) by (simp add: upd_session_def)
  have "lp \<notin> set (br_plugins (sc_bridge st'))" using assms(4) by (simp add: st'(2) drop_runtime_def)
  moreover have "\<forall>e \<in> set (tg_remote (br_tools (sc_bridge st'))). re_plugin e \<noteq> lp_id lp"
    using assms(3,4) by (auto simp: st'(2) drop_runtime_def unregister_fold)
  ultimately show ?thesis using st'(1) by blast
qed

definition py_plugin :: "string \<Rightarrow> unit loaded_plugin" where
  "py_plugin i = \<lparr>lp_path = [], lp_id = i, lp_version = ''1'', lp_runtime = ''python'',
     lp_state = ''SERVING'', lp_tools = [''t''], lp_tool = None, lp_prep = None, lp_gen = None\<rparr>"

definition py_running :: "unit sidecars" where
  "py_running = one_sidecar\<lparr>sc_bridge := (sc_bridge one_sidecar)\<lparr>br_plugins := [py_plugin ''other'']\<rparr>\<rparr>"

theorem restart_drops_other_tools_witness:
  "\<exists>st'. restart_sidecar (\<lambda>n. 100) (1, 0) True True py_running = Inr st' \<and>
    py_plugin ''other'' \<notin> set (br_plugins (sc_bridge st')) \<and>
    (\<forall>e \<in> set (tg_remote (br_tools (sc_bridge st'))). re_plugin e \<noteq> lp_id (py_plugin ''other''))"
proof (rule restart_drops_other_tools)
  show "deref (1, 0) py_running = Inr ((new_session Python ''a'')\<lparr>ss_ready := True\<rparr>)"
    by (simp add: py_running_def one_sidecar_def start_sidecar_def emplace_session_def new_sidecars_def
        deref_def live_ptr_def)
qed (simp_all add: py_running_def one_sidecar_def start_sidecar_def emplace_session_def new_sidecars_def
    new_session_def of_runtime_def runtime_name_def py_plugin_def)

end
