(* ===== verification/Utf8_Stream.thy ===== *)
theory Utf8_Stream
  imports Prelude
begin

text \<open>
  \<open>sanitize_utf8\<close> of \<open>src/server/openai_router.cpp\<close> and the carry buffer of its streaming callbacks:
  pieces of model output, which may end inside a multi-byte character, are emitted up to the last
  complete code point. A byte is a \<open>char\<close>; its number is \<^term>\<open>of_char c :: nat\<close>.
\<close>

section \<open>Scanning\<close>

definition byte :: "char \<Rightarrow> nat" where
  "byte c = of_char c"

definition seq_length :: "char \<Rightarrow> nat option" where
  "seq_length c =
     (if byte c < 128 then Some 1
      else if 192 \<le> byte c \<and> byte c < 224 then Some 2
      else if 224 \<le> byte c \<and> byte c < 240 then Some 3
      else if 240 \<le> byte c \<and> byte c < 248 then Some 4
      else None)"

definition is_cont :: "char \<Rightarrow> bool" where
  "is_cont c \<longleftrightarrow> 128 \<le> byte c \<and> byte c < 192"

lemma seq_length_pos: "seq_length c = Some n \<Longrightarrow> 0 < n"
  by (auto simp: seq_length_def split: if_splits)

text \<open>The loop at position \<open>i\<close>; \<open>good\<close> is \<open>last_good\<close>.\<close>

function utf8_scan :: "string \<Rightarrow> nat \<Rightarrow> nat \<Rightarrow> nat" where
  "utf8_scan s i good =
     (if i < length s
      then (case seq_length (s ! i) of
              None \<Rightarrow> utf8_scan s (i + 1) good
            | Some need \<Rightarrow>
                if i + need > length s then good
                else if \<forall>k \<in> {1..<need}. is_cont (s ! (i + k)) then utf8_scan s (i + need) (i + need)
                else utf8_scan s (i + 1) good)
      else good)"
  by pat_completeness auto
termination
  by (relation "measure (\<lambda>(s, i, good). length s - i)") (auto dest: seq_length_pos)

declare utf8_scan.simps [simp del]

definition sanitize_utf8 :: "string \<Rightarrow> string" where
  "sanitize_utf8 s =
     (let good = utf8_scan s 0 0 in if good = length s then s else take good s)"

text \<open>One call of the streaming callback: the carry and the new piece give the text to emit and the
  next carry; an empty text is not sent.\<close>

definition push_piece :: "string \<Rightarrow> string \<Rightarrow> string \<times> string" where
  "push_piece carry piece =
     (let c = carry @ piece; emit = sanitize_utf8 c in (emit, drop (length emit) c))"

fun stream_pieces :: "string \<Rightarrow> string list \<Rightarrow> string list \<times> string" where
  "stream_pieces carry [] = ([], carry)"
| "stream_pieces carry (p # ps) =
     (let (emit, carry') = push_piece carry p; (es, rest) = stream_pieces carry' ps
      in (if emit = [] then es else emit # es, rest))"

section \<open>Well-formed text\<close>

definition code_point :: "string \<Rightarrow> bool" where
  "code_point c \<longleftrightarrow> c \<noteq> [] \<and> seq_length (hd c) = Some (length c) \<and> (\<forall>x \<in> set (tl c). is_cont x)"

definition well_formed :: "string \<Rightarrow> bool" where
  "well_formed s \<longleftrightarrow> (\<exists>cs. s = concat cs \<and> (\<forall>c \<in> set cs. code_point c))"

text \<open>A code point that has been cut: what a piece of text may end with.\<close>

definition cut_point :: "string \<Rightarrow> bool" where
  "cut_point t \<longleftrightarrow> t = [] \<or> (\<exists>c. code_point c \<and> strict_prefix t c)"

lemma scan_cut:
  assumes "cut_point t"
  shows "utf8_scan (pre @ t) (length pre) good = good"
proof (cases t)
  case (Cons a r)
  with assms obtain c where c: "code_point c" "strict_prefix t c" by (auto simp: cut_point_def)
  then have "hd c = a" "length t < length c"
    using Cons by (auto simp: strict_prefix_def prefix_def)
  with c(1) have "seq_length a = Some (length c)" by (simp add: code_point_def)
  with \<open>length t < length c\<close> Cons show ?thesis by (subst utf8_scan.simps) simp
qed (simp add: utf8_scan.simps)

lemma scan_code_point:
  assumes "code_point c"
  shows "utf8_scan (pre @ c @ s) (length pre) good =
    utf8_scan (pre @ c @ s) (length (pre @ c)) (length (pre @ c))"
proof -
  obtain a r where c: "c = a # r" "seq_length a = Some (length c)" "\<forall>x \<in> set r. is_cont x"
    using assms by (cases c) (auto simp: code_point_def)
  have "is_cont ((pre @ c @ s) ! (length pre + k))" if "k \<in> {1..<length c}" for k
  proof -
    have "(pre @ c @ s) ! (length pre + k) = r ! (k - 1)"
      using that by (cases k) (auto simp: c(1) nth_append)
    with that c(1,3) show ?thesis by (simp add: less_diff_conv2)
  qed
  then have all: "(\<forall>k \<in> {1..<length c}. is_cont ((pre @ c @ s) ! (length pre + k))) = True" by blast
  have h: "(pre @ c @ s) ! length pre = a" "length pre < length (pre @ c @ s)"
    "\<not> length pre + length c > length (pre @ c @ s)" using c(1) by (simp_all add: nth_append)
  show ?thesis
    unfolding utf8_scan.simps [of "pre @ c @ s" "length pre" good] h(1) c(2) option.case all
    using h(2,3) by simp
qed

lemma scan_points:
  assumes "\<forall>c \<in> set cs. code_point c" and "cut_point t"
  shows "utf8_scan (pre @ concat cs @ t) (length pre) (length pre) = length (pre @ concat cs)"
  using assms(1)
proof (induction cs arbitrary: pre)
  case Nil
  with assms(2) show ?case by (simp add: scan_cut)
next
  case (Cons c cs)
  then have "code_point c" by simp
  from scan_code_point [OF this, of pre "concat cs @ t"] Cons.IH [of "pre @ c"] Cons.prems
  show ?case by simp
qed

lemma sanitize_split: "well_formed w \<Longrightarrow> cut_point t \<Longrightarrow> sanitize_utf8 (w @ t) = w"
  using scan_points [of _ t "[]"] by (auto simp: well_formed_def sanitize_utf8_def Let_def)

lemma well_formed_append: "well_formed a \<Longrightarrow> well_formed b \<Longrightarrow> well_formed (a @ b)"
  unfolding well_formed_def by (metis Un_iff concat_append set_append)

lemma well_formed_Nil: "well_formed []"
  unfolding well_formed_def by (rule exI [of _ "[]"]) simp

lemma cut_point_Nil: "cut_point []"
  by (simp add: cut_point_def)

text \<open>A prefix of well-formed text is well-formed text followed by a cut code point.\<close>

lemma prefix_well_formed:
  "well_formed w \<Longrightarrow> prefix p w \<Longrightarrow> \<exists>v t. p = v @ t \<and> well_formed v \<and> cut_point t"
proof -
  assume "well_formed w" "prefix p w"
  then obtain cs where "w = concat cs" "\<forall>c \<in> set cs. code_point c" by (auto simp: well_formed_def)
  then show ?thesis using \<open>prefix p w\<close>
  proof (induction cs arbitrary: p w)
    case Nil
    then have "p = [] @ []" by simp
    then show ?case using well_formed_Nil cut_point_Nil by blast
  next
    case (Cons c cs)
    note nil = well_formed_Nil
    have c: "well_formed c" using Cons.prems(2) by (auto simp: well_formed_def intro!: exI [of _ "[c]"])
    show ?case
    proof (cases "prefix c p")
      case True
      then obtain q where q: "p = c @ q" by (auto simp: prefix_def)
      with Cons.prems have "prefix q (concat cs)" by simp
      then obtain v t where "q = v @ t" "well_formed v" "cut_point t"
        using Cons.IH [of "concat cs" q] Cons.prems(2) by auto
      with q c show ?thesis by (intro exI [of _ "c @ v"] exI [of _ t]) (simp add: well_formed_append)
    next
      case False
      with Cons.prems(1,3) have "strict_prefix p c"
        by (metis concat.simps(2) prefixI prefix_order.less_le prefix_same_cases)
      with Cons.prems(2) nil show ?thesis
        by (intro exI [of _ "[]"] exI [of _ p]) (auto simp: cut_point_def)
    qed
  qed
qed

text \<open>A cut code point that is well-formed is empty.\<close>

lemma cut_well_formed:
  assumes "cut_point t" and "well_formed t"
  shows "t = []"
proof (rule ccontr)
  assume "t \<noteq> []"
  then obtain c where c: "code_point c" "strict_prefix t c" using assms(1) by (auto simp: cut_point_def)
  obtain ds where ds: "t = concat ds" "\<forall>d \<in> set ds. code_point d" using assms(2) by (auto simp: well_formed_def)
  then obtain d es where d: "ds = d # es" using \<open>t \<noteq> []\<close> by (cases ds) auto
  then have "hd d = hd c" "length d \<le> length t"
    using ds c(2) by (auto simp: code_point_def strict_prefix_def prefix_def hd_append)
  then have "length c = length d" using ds(2) d c(1) by (simp add: code_point_def)
  with \<open>length d \<le> length t\<close> c(2) prefix_length_less show False by fastforce
qed

lemma well_formed_drop:
  assumes "well_formed (v @ u)" and "well_formed v"
  shows "well_formed u"
proof -
  obtain cs where cs: "v @ u = concat cs" "\<forall>c \<in> set cs. code_point c" using assms(1) by (auto simp: well_formed_def)
  obtain ds where ds: "v = concat ds" "\<forall>d \<in> set ds. code_point d" using assms(2) by (auto simp: well_formed_def)
  from cs ds show ?thesis
  proof (induction ds arbitrary: v cs)
    case Nil
    then show ?case by (auto simp: well_formed_def)
  next
    case (Cons d ds)
    then have d: "code_point d" by simp
    then obtain c es where c: "cs = c # es" using Cons.prems by (cases cs) (auto simp: code_point_def)
    then have cp: "code_point c" using Cons.prems(2) by simp
    have eq: "d @ concat ds @ u = c @ concat es" using Cons.prems(1,3) c by simp
    then have "hd d = hd c" using d cp by (metis code_point_def hd_append2)
    then have "length d = length c" using d cp by (simp add: code_point_def)
    with eq have "concat ds @ u = concat es" by simp
    with Cons.IH [of "concat ds" es] Cons.prems c show ?case by simp
  qed
qed

lemma stream_carry:
  assumes "cut_point carry" and "well_formed (carry @ concat ps)"
  shows "concat (fst (stream_pieces carry ps)) = carry @ concat ps \<and>
    snd (stream_pieces carry ps) = [] \<and> (\<forall>e \<in> set (fst (stream_pieces carry ps)). e \<noteq> [] \<and> well_formed e)"
  using assms
proof (induction ps arbitrary: carry)
  case Nil
  then show ?case using cut_well_formed [of carry] by simp
next
  case (Cons p ps)
  have "prefix (carry @ p) (carry @ concat (p # ps))" by simp
  then obtain v t where vt: "carry @ p = v @ t" "well_formed v" "cut_point t"
    using prefix_well_formed Cons.prems(2) by blast
  have push: "push_piece carry p = (v, t)"
    by (simp add: push_piece_def Let_def vt(1) sanitize_split [OF vt(2,3)])
  have all: "carry @ concat (p # ps) = v @ t @ concat ps" using vt(1) by simp
  then have "well_formed (t @ concat ps)" using Cons.prems(2) well_formed_drop [OF _ vt(2)] by metis
  note ih = Cons.IH [OF vt(3) this]
  obtain es rest where er: "stream_pieces t ps = (es, rest)" by (cases "stream_pieces t ps")
  have whole: "stream_pieces carry (p # ps) = ((if v = [] then es else v # es), rest)"
    by (simp add: push er)
  show ?case unfolding whole all using ih vt(2) by (simp add: er)
qed

text \<open>However well-formed output is cut into pieces, the streamed texts are each well-formed and not empty,
  together they are exactly the output, and nothing stays in the carry.\<close>

theorem utf8_stream_lossless:
  assumes "well_formed (concat ps)"
  shows "concat (fst (stream_pieces [] ps)) = concat ps \<and> snd (stream_pieces [] ps) = [] \<and>
    (\<forall>e \<in> set (fst (stream_pieces [] ps)). e \<noteq> [] \<and> well_formed e)"
  using stream_carry [of "[]" ps] assms by (simp add: cut_point_def)


theorem utf8_stream_lossless_witness:
  "concat (fst (stream_pieces [] [[CHR ''a'', CHR 0xC3], [CHR 0xA9], []])) = [CHR ''a'', CHR 0xC3, CHR 0xA9]"
proof -
  have "well_formed (concat [[CHR ''a'', CHR 0xC3], [CHR 0xA9], []])"
    unfolding well_formed_def
    by (rule exI [of _ "[[CHR ''a''], [CHR 0xC3, CHR 0xA9]]"])
      (simp add: code_point_def seq_length_def is_cont_def byte_def)
  from utf8_stream_lossless [OF this] show ?thesis by (simp del: stream_pieces.simps)
qed

section \<open>Stray bytes\<close>

text \<open>The comment on \<open>sanitize_utf8\<close> promises valid UTF-8; a byte that starts no sequence is skipped by the
  scan, and kept by the result as soon as a complete code point follows it.\<close>

lemma scan_stray:
  "seq_length b = None \<Longrightarrow> utf8_scan (b # w) 0 good = utf8_scan (b # w) 1 good"
  by (subst utf8_scan.simps) simp

text \<open>\<open>sanitize_utf8\<close> returns a stray byte followed by well-formed text unchanged, so its result need
  not be well-formed.\<close>

theorem sanitize_keeps_stray:
  assumes "seq_length b = None" and "well_formed w" and "w \<noteq> []"
  shows "sanitize_utf8 (b # w) = b # w \<and> \<not> well_formed (b # w)"
proof
  obtain cs where cs: "w = concat cs" "\<forall>c \<in> set cs. code_point c" using assms(2) by (auto simp: well_formed_def)
  then obtain c cs' where c: "cs = c # cs'" using assms(3) by (cases cs) auto
  have "utf8_scan ([b] @ w) (length [b]) 0 = utf8_scan ([b] @ w) (length ([b] @ c)) (length ([b] @ c))"
    using scan_code_point [of c "[b]" "concat cs'"] cs c by simp
  also have "\<dots> = length ([b] @ w)"
    using scan_points [of cs' "[]" "[b] @ c"] cs c cut_point_Nil by simp
  finally show "sanitize_utf8 (b # w) = b # w"
    using scan_stray [OF assms(1), of w 0] by (simp add: sanitize_utf8_def Let_def)
  show "\<not> well_formed (b # w)"
  proof
    assume "well_formed (b # w)"
    then obtain ds where ds: "b # w = concat ds" "\<forall>d \<in> set ds. code_point d" by (auto simp: well_formed_def)
    then obtain d ds' where "ds = d # ds'" by (cases ds) auto
    then have "code_point d" "b # w = d @ concat ds'" using ds by simp_all
    then have "seq_length b \<noteq> None" by (cases d) (auto simp: code_point_def)
    with assms(1) show False by simp
  qed
qed

theorem sanitize_keeps_stray_witness:
  "sanitize_utf8 [CHR 0xA9, CHR ''a''] = [CHR 0xA9, CHR ''a'']"
proof -
  have "well_formed [CHR ''a'']"
    unfolding well_formed_def
    by (rule exI [of _ "[[CHR ''a'']]"]) (simp add: code_point_def seq_length_def byte_def)
  from sanitize_keeps_stray [OF _ this, of "CHR 0xA9"] show ?thesis by (simp add: seq_length_def byte_def)
qed

end
