(* ===== verification/Router_Text.thy ===== *)
theory Router_Text
  imports Utf8_Stream Allow_List
begin

text \<open>
  The string functions of \<open>src/server/openai_router.cpp\<close>: cutting a tool's result into chunks,
  recognising the first key of cut JSON, and removing a tool call from a round's text. Positions are
  those of \<open>std::string\<close>; \<open>npos\<close> is \<^const>\<open>None\<close>.
\<close>

section \<open>Searching\<close>

text \<open>\<open>find\<close> and \<open>rfind\<close> of a text, and \<open>substr\<close>.\<close>

definition find_text :: "string \<Rightarrow> string \<Rightarrow> nat \<Rightarrow> nat option" where
  "find_text pat s pos = find (\<lambda>i. prefix pat (drop i s)) [pos..<Suc (length s)]"

definition rfind_text :: "string \<Rightarrow> string \<Rightarrow> nat option" where
  "rfind_text pat s = find (\<lambda>i. prefix pat (drop i s)) (rev [0..<Suc (length s)])"

definition substr :: "string \<Rightarrow> nat \<Rightarrow> nat \<Rightarrow> string" where
  "substr s pos n = take n (drop pos s)"

lemma find_text_Some:
  "find_text pat s pos = Some i \<Longrightarrow> pos \<le> i \<and> i \<le> length s \<and> prefix pat (drop i s)"
  by (auto simp: find_text_def find_Some_iff nth_append simp del: upt_Suc)

lemma find_text_None: "find_text pat s pos = None \<longleftrightarrow> (\<forall>i. pos \<le> i \<and> i \<le> length s \<longrightarrow> \<not> prefix pat (drop i s))"
  by (auto simp: find_text_def find_None_iff simp del: upt_Suc)

lemma find_back_Some:
  assumes "find_back P s pos = Some i"
  shows "i \<le> pos \<and> i < length s \<and> P (s ! i)"
proof -
  have "i \<in> set (rev [0..<min (Suc pos) (length s)])" "P (s ! i)"
    using assms unfolding find_back_def find_Some_iff by (metis nth_mem)+
  then show ?thesis by auto
qed

section \<open>Chunks of a tool result\<close>

text \<open>\<open>chunk_content\<close>: the loop at position \<open>pos\<close>. A size that does not fit the text ends the loop in its
  first iteration, so the sum of a position and the size never wraps.\<close>

definition chunk_end :: "string \<Rightarrow> nat \<Rightarrow> nat \<Rightarrow> nat" where
  "chunk_end content target pos =
     (case find_back (\<lambda>c. c = CHR 0x0A) content (pos + target) of
        Some nl \<Rightarrow> if pos < nl then nl + 1 else pos + target
      | None \<Rightarrow> pos + target)"

partial_function (option) chunk_loop :: "string \<Rightarrow> nat \<Rightarrow> nat \<Rightarrow> string list option" where
  "chunk_loop content target pos =
     (if pos < length content
      then if length content \<le> pos + target then Some [drop pos content]
           else Option.bind (chunk_loop content target (chunk_end content target pos))
                  (\<lambda>cs. Some (substr content pos (chunk_end content target pos - pos) # cs))
      else Some [])"

definition chunk_content :: "string \<Rightarrow> nat \<Rightarrow> string list option" where
  "chunk_content content target = chunk_loop content target 0"

lemma chunk_end_bounds:
  assumes "pos + target < length content"
  shows "pos + (if target = 0 then 0 else 1) \<le> chunk_end content target pos"
    and "chunk_end content target pos \<le> pos + target + 1"
    and "chunk_end content target pos \<le> length content"
  using assms by (auto simp: chunk_end_def split: option.split dest!: find_back_Some)

lemma chunk_loop_returns:
  assumes "0 < target"
  shows "\<exists>cs. chunk_loop content target pos = Some cs \<and> concat cs = drop pos content \<and>
    (\<forall>c \<in> set cs. c \<noteq> [] \<and> length c \<le> target + 1)"
proof (induction "length content - pos" arbitrary: pos rule: less_induct)
  case less
  consider (over) "length content \<le> pos" | (last) "pos < length content" "length content \<le> pos + target"
    | (cut) "pos + target < length content" by linarith
  then show ?case
  proof cases
    case over
    then show ?thesis by (subst chunk_loop.simps) simp
  next
    case last
    then show ?thesis by (subst chunk_loop.simps) simp
  next
    case cut
    define e where "e = chunk_end content target pos"
    have e: "pos < e" "e \<le> pos + target + 1" "e \<le> length content"
      using chunk_end_bounds [OF cut] assms by (simp_all add: e_def)
    then have "length content - e < length content - pos" by simp
    from less.hyps [OF this] obtain cs where cs: "chunk_loop content target e = Some cs"
      "concat cs = drop e content" "\<forall>c \<in> set cs. c \<noteq> [] \<and> length c \<le> target + 1" by blast
    have "drop pos content = substr content pos (e - pos) @ drop e content"
      using e(1) by (metis append_take_drop_id drop_drop le_add_diff_inverse2 less_imp_le_nat substr_def)
    moreover have "chunk_loop content target pos = Some (substr content pos (e - pos) # cs)"
      using cut cs(1) by (subst chunk_loop.simps) (simp add: e_def)
    moreover have "substr content pos (e - pos) \<noteq> [] \<and> length (substr content pos (e - pos)) \<le> target + 1"
      using e by (auto simp: substr_def)
    ultimately show ?thesis using cs by simp
  qed
qed

text \<open>With a positive size the splitter returns, and its chunks are not empty, at most one character
  longer than the size, and together the text.\<close>

theorem chunks_partition:
  assumes "0 < target"
  shows "\<exists>cs. chunk_content content target = Some cs \<and> concat cs = content \<and>
    (\<forall>c \<in> set cs. c \<noteq> [] \<and> length c \<le> target + 1)"
  using chunk_loop_returns [OF assms, of content 0] by (simp add: chunk_content_def)

theorem chunks_partition_witness: "\<exists>cs. chunk_content ''ab'' 1 = Some cs \<and> concat cs = ''ab''"
  using chunks_partition [of 1 "''ab''"] by auto

lemma chunk_end_zero: "chunk_end content 0 pos = pos"
  by (auto simp: chunk_end_def split: option.split dest: find_back_Some)

lemma chunk_loop_zero:
  assumes "chunk_loop content target pos = Some cs"
  shows "target = 0 \<longrightarrow> length content \<le> pos"
proof (rule chunk_loop.raw_induct [where P = "\<lambda>content target pos cs. target = 0 \<longrightarrow> length content \<le> pos",
      OF _ assms], rule impI, rule ccontr)
  fix f :: "string \<Rightarrow> nat \<Rightarrow> nat \<Rightarrow> string list option" and content target pos cs
  assume ih: "\<And>c t p cs. f c t p = Some cs \<Longrightarrow> t = 0 \<longrightarrow> length c \<le> p"
    and eq: "(if pos < length content
      then if length content \<le> pos + target then Some [drop pos content]
           else Option.bind (f content target (chunk_end content target pos))
                  (\<lambda>cs. Some (substr content pos (chunk_end content target pos - pos) # cs))
      else Some []) = Some cs"
    and t: "target = 0" and less: "\<not> length content \<le> pos"
  from eq t less obtain cs' where "f content 0 pos = Some cs'"
    by (auto simp: chunk_end_zero bind_eq_Some_conv)
  from ih [OF this] less show False by simp
qed

lemma zero_chunk_content: "chunk_content content 0 = None \<longleftrightarrow> content \<noteq> []"
proof (cases "content = []")
  case True
  then show ?thesis by (simp add: chunk_content_def chunk_loop.simps)
next
  case False
  then have "chunk_content content 0 \<noteq> Some cs" for cs
    using chunk_loop_zero [of content 0 0] by (auto simp: chunk_content_def)
  with False show ?thesis by (cases "chunk_content content 0") auto
qed

section \<open>Tool calls in text\<close>

definition json_space :: "char \<Rightarrow> bool" where
  "json_space c \<longleftrightarrow> c = CHR '' '' \<or> c = CHR 0x09 \<or> c = CHR 0x0D \<or> c = CHR 0x0A"

text \<open>\<open>std::isspace\<close> in the C locale.\<close>

definition c_space :: "char \<Rightarrow> bool" where
  "c_space c \<longleftrightarrow> json_space c \<or> c = CHR 0x0B \<or> c = CHR 0x0C"

definition trim_by :: "(char \<Rightarrow> bool) \<Rightarrow> string \<Rightarrow> string" where
  "trim_by sp s = dropWhile sp (rev (dropWhile sp (rev s)))"

text \<open>\<open>first_json_key\<close>; a backslash takes the next character as it is.\<close>

fun read_key :: "string \<Rightarrow> string" where
  "read_key [] = []"
| "read_key (c # cs) =
     (if c = CHR 0x22 then []
      else if c = CHR 0x5C then (case cs of [] \<Rightarrow> [c] | d # ds \<Rightarrow> d # read_key ds)
      else c # read_key cs)"

definition first_json_key :: "string \<Rightarrow> string" where
  "first_json_key t =
     (case dropWhile json_space t of
        [] \<Rightarrow> []
      | c # cs \<Rightarrow>
          if c \<noteq> CHR ''{'' then []
          else (case dropWhile json_space cs of
                  [] \<Rightarrow> []
                | d # ds \<Rightarrow> if d \<noteq> CHR 0x22 then [] else read_key ds))"

definition fence_char :: "char \<Rightarrow> bool" where
  "fence_char c \<longleftrightarrow> c \<in> set ''`json '' \<or> json_space c"

definition strip_tool_call_json :: "string \<Rightarrow> string" where
  "strip_tool_call_json t =
     (case find_text (CHR 0x22 # ''tool_calls'' @ [CHR 0x22]) t 0 of
        None \<Rightarrow> trim_by c_space t
      | Some key \<Rightarrow>
          (case find_back (\<lambda>c. c = CHR ''{'') t key of
             None \<Rightarrow> trim_by c_space t
           | Some brace \<Rightarrow>
               (let head = take brace t
                in trim_by c_space
                     (case rfind_text ''```'' head of
                        None \<Rightarrow> head
                      | Some fence \<Rightarrow>
                          if list_all fence_char (drop fence head) then take fence head else head))))"

lemma trim_by_subset: "set (trim_by sp s) \<subseteq> set s"
  by (auto simp: trim_by_def dest!: set_dropWhileD)

lemma trim_by_sublist: "sublist (trim_by sp s) s"
proof -
  have "suffix (trim_by sp s) (rev (dropWhile sp (rev s)))" by (simp add: trim_by_def suffix_dropWhile)
  moreover have "prefix (rev (dropWhile sp (rev s))) s"
    using suffix_dropWhile [of sp "rev s"] by (simp add: suffix_to_prefix)
  ultimately show ?thesis by (meson prefix_imp_sublist suffix_imp_sublist sublist_order.order_trans)
qed

lemma sublist_find_text:
  assumes "find_text pat s 0 = None"
  shows "\<not> sublist pat s"
proof
  assume "sublist pat s"
  then obtain a b where "s = a @ pat @ b" by (auto simp: sublist_def)
  then have "prefix pat (drop (length a) s)" "length a \<le> length s" by simp_all
  with assms show False by (auto simp: find_text_None)
qed

end
