(* ===== verification/Tool_Calls.thy ===== *)
theory Tool_Calls
  imports Router_Text Plugin_Abi
begin

text \<open>
  From the text of a model to tool calls, in \<open>src/server/openai_router.cpp\<close>: the places a call may stand
  in the text, the shapes it may have, and the canonical form in which calls leave the engine. The JSON
  library is the parameter \<open>api\<close>; an exception it throws is \<^const>\<open>None\<close>, as is text that
  \<open>json::parse(text, nullptr, false)\<close> discards.
\<close>

section \<open>JSON access\<close>

text \<open>\<open>j[key]\<close> after \<open>contains\<close>, and \<open>value(key, json)\<close>, which throws on a value that is not an
  object.\<close>

fun j_entry :: "json \<Rightarrow> string \<Rightarrow> json option" where
  "j_entry (JObj kvs) k = map_of kvs k"
| "j_entry _ k = None"

fun j_value :: "json \<Rightarrow> string \<Rightarrow> json \<Rightarrow> json option" where
  "j_value (JObj kvs) k d = Some (case map_of kvs k of None \<Rightarrow> d | Some v \<Rightarrow> v)"
| "j_value _ k d = None"

fun is_obj :: "json \<Rightarrow> bool" where
  "is_obj (JObj kvs) \<longleftrightarrow> True"
| "is_obj _ \<longleftrightarrow> False"

section \<open>One call\<close>

definition call_args_of :: "json \<Rightarrow> json" where
  "call_args_of j =
     (case j_entry j ''arguments'' of
        Some a \<Rightarrow> a
      | None \<Rightarrow> (case j_entry j ''parameters'' of Some a \<Rightarrow> a | None \<Rightarrow> JObj []))"

text \<open>The name and the arguments \<open>normalise_single_call\<close> reads; the inner \<^const>\<open>None\<close> is an object it does
  not recognise.\<close>

definition read_single :: "json_api \<Rightarrow> json \<Rightarrow> (string \<times> json) option option" where
  "read_single api j =
     (if j_contains j ''name'' then
        map_option (\<lambda>n. Some (n, call_args_of j)) (j_str api j ''name'' [])
      else if j_contains j ''tool'' then
        map_option (\<lambda>n. Some (n, call_args_of j)) (j_str api j ''tool'' [])
      else (case j_entry j ''function'' of
              Some (JObj kvs) \<Rightarrow>
                map_option (\<lambda>n. Some (n, call_args_of (JObj kvs))) (j_str api (JObj kvs) ''name'' [])
            | _ \<Rightarrow> Some None))"

definition call_json :: "string \<Rightarrow> string \<Rightarrow> json \<Rightarrow> json" where
  "call_json cid name args =
     JObj [(''id'', JStr cid), (''type'', JStr ''function''),
           (''function'', JObj [(''name'', JStr name), (''arguments'', args)])]"

definition normalise_single_call :: "json_api \<Rightarrow> json \<Rightarrow> json option option" where
  "normalise_single_call api j =
     map_option (\<lambda>r. case r of
         None \<Rightarrow> None
       | Some (name, args) \<Rightarrow>
           if name = [] then None
           else Some (call_json ''call_0'' name
                  (case args of
                     JStr s \<Rightarrow> (case j_parse api s of None \<Rightarrow> args | Some v \<Rightarrow> v)
                   | _ \<Rightarrow> args)))
       (read_single api j)"

section \<open>The text of a round\<close>

text \<open>The \<open>extract\<close> of \<open>parse_tool_calls\<close> on a parsed block.\<close>

definition extract_calls :: "json_api \<Rightarrow> json \<Rightarrow> json list option" where
  "extract_calls api j =
     (case j_entry j ''tool_calls'' of
        Some (JArr cs) \<Rightarrow> Some cs
      | _ \<Rightarrow> map_option (\<lambda>r. case r of None \<Rightarrow> [] | Some c \<Rightarrow> [c]) (normalise_single_call api j))"

text \<open>The blocks of the text that are tried, in order. A fenced block starts at the first opening and ends
  at the next fence.\<close>

definition fenced_block :: "string \<Rightarrow> string \<Rightarrow> string list" where
  "fenced_block opening raw =
     (case find_text opening raw 0 of
        None \<Rightarrow> []
      | Some start \<Rightarrow>
          (case find_text ''```'' raw (start + length opening) of
             None \<Rightarrow> []
           | Some stop \<Rightarrow> [substr raw (start + length opening) (stop - start - length opening)]))"

definition python_tag_block :: "string \<Rightarrow> string list" where
  "python_tag_block raw =
     (case find_text ''<|python_tag|>'' raw 0 of
        None \<Rightarrow> []
      | Some pos \<Rightarrow>
          (let content = drop (pos + length ''<|python_tag|>'') raw
           in [case find_text ''<|eom_id|>'' content 0 of None \<Rightarrow> content | Some e \<Rightarrow> take e content]))"

definition tool_tag_block :: "string \<Rightarrow> string list" where
  "tool_tag_block raw =
     (case find_text ''<tool_call>'' raw 0 of
        None \<Rightarrow> []
      | Some s \<Rightarrow>
          (case find_text ''</tool_call>'' raw s of
             None \<Rightarrow> []
           | Some e \<Rightarrow>
               [substr raw (s + length ''<tool_call>'') (e - s - length ''<tool_call>'')]))"

text \<open>The object that opens at a brace: up to the brace that closes it, whatever stands in strings. The
  depth counts the braces open before the rest of the text.\<close>

fun closing_brace :: "string \<Rightarrow> nat \<Rightarrow> nat option" where
  "closing_brace [] depth = None"
| "closing_brace (c # cs) depth =
     (if c = CHR ''{'' then map_option Suc (closing_brace cs (depth + 1))
      else if c = CHR ''}'' then
        (if depth = 1 then Some 0 else map_option Suc (closing_brace cs (depth - 1)))
      else map_option Suc (closing_brace cs depth))"

fun brace_blocks :: "string \<Rightarrow> string list" where
  "brace_blocks [] = []"
| "brace_blocks (c # cs) =
     (if c = CHR ''{''
      then (case closing_brace (c # cs) 0 of
              Some e \<Rightarrow> take (e + 1) (c # cs) # brace_blocks cs
            | None \<Rightarrow> brace_blocks cs)
      else brace_blocks cs)"

definition call_blocks :: "string \<Rightarrow> string list" where
  "call_blocks raw =
     [raw] @ fenced_block ''```json'' raw @ fenced_block (''```'' @ [CHR 0x0A]) raw @
     python_tag_block raw @ tool_tag_block raw @ brace_blocks raw"

fun try_blocks :: "json_api \<Rightarrow> string list \<Rightarrow> json list option" where
  "try_blocks api [] = Some []"
| "try_blocks api (b # bs) =
     (case j_parse api b of
        None \<Rightarrow> try_blocks api bs
      | Some j \<Rightarrow>
          (case extract_calls api j of
             None \<Rightarrow> None
           | Some [] \<Rightarrow> try_blocks api bs
           | Some (c # cs) \<Rightarrow> Some (c # cs)))"

definition parse_tool_calls :: "json_api \<Rightarrow> string \<Rightarrow> json list option" where
  "parse_tool_calls api raw = try_blocks api (call_blocks raw)"

section \<open>Canonical form\<close>

definition tool_args_string :: "json_api \<Rightarrow> json \<Rightarrow> string option" where
  "tool_args_string api call =
     map_option (\<lambda>fn. case j_entry fn ''arguments'' of
         Some (JStr s) \<Rightarrow> s
       | Some (JObj kvs) \<Rightarrow> j_dump api (JObj kvs)
       | Some (JArr vs) \<Rightarrow> j_dump api (JArr vs)
       | _ \<Rightarrow> ''{}'')
       (j_value call ''function'' (JObj []))"

definition canonical_call :: "json_api \<Rightarrow> nat \<Rightarrow> json \<Rightarrow> json option" where
  "canonical_call api idx c =
     (case j_value c ''function'' (JObj []) of
        None \<Rightarrow> None
      | Some fn \<Rightarrow>
          (case (j_str api c ''id'' (''call_'' @ show_nat idx), j_str api fn ''name'' [], tool_args_string api c) of
             (Some cid, Some name, Some args) \<Rightarrow> Some (call_json cid name (JStr args))
           | _ \<Rightarrow> None))"

fun canonical_from :: "json_api \<Rightarrow> nat \<Rightarrow> json list \<Rightarrow> json list option" where
  "canonical_from api idx [] = Some []"
| "canonical_from api idx (c # cs) =
     (case canonical_call api idx c of
        None \<Rightarrow> None
      | Some d \<Rightarrow> map_option ((#) d) (canonical_from api (idx + 1) cs))"

definition canonical_tool_calls :: "json_api \<Rightarrow> json \<Rightarrow> json list option" where
  "canonical_tool_calls api calls =
     (case calls of JArr cs \<Rightarrow> canonical_from api 0 cs | _ \<Rightarrow> Some [])"

section \<open>Text that is nothing but a call\<close>

definition unwrap :: "string \<Rightarrow> string \<Rightarrow> string \<Rightarrow> string" where
  "unwrap opening close t =
     (if length opening + length close \<le> length t \<and> prefix opening t \<and> suffix close t
      then trim_by json_space (substr t (length opening) (length t - length opening - length close))
      else t)"

definition peel :: "string \<Rightarrow> string" where
  "peel raw =
     (let t1 = unwrap ''<tool_call>'' ''</tool_call>''
                 (unwrap ''```'' ''```'' (unwrap ''```json'' ''```'' (trim_by json_space raw)));
          t2 = (if prefix ''<|python_tag|>'' t1 then trim_by json_space (drop (length ''<|python_tag|>'') t1)
                else t1)
      in if suffix ''<|eom_id|>'' t2
         then trim_by json_space (take (length t2 - length ''<|eom_id|>'') t2) else t2)"

definition call_key :: "string \<Rightarrow> bool" where
  "call_key k \<longleftrightarrow>
     k \<in> {''tool_calls'', ''name'', ''tool'', ''function'', ''parameters'', ''arguments''}"

definition looks_like_call :: "string \<Rightarrow> bool" where
  "looks_like_call t \<longleftrightarrow> t \<noteq> [] \<and> hd t = CHR ''{'' \<and> call_key (first_json_key t)"

definition text_is_pure_tool_call :: "json_api \<Rightarrow> string \<Rightarrow> bool option" where
  "text_is_pure_tool_call api raw =
     (if trim_by json_space raw = [] then Some False
      else let t = peel raw
           in (case j_parse api t of
                 None \<Rightarrow> Some (looks_like_call t)
               | Some j \<Rightarrow>
                   (case j_entry j ''tool_calls'' of
                      Some (JArr cs) \<Rightarrow> Some True
                    | _ \<Rightarrow> map_option (\<lambda>r. r \<noteq> None \<or> looks_like_call t) (normalise_single_call api j))))"

section \<open>Braces\<close>

text \<open>How a block is found: the closing brace is the first position at which as many braces close as
  open.\<close>

lemma closing_brace_count:
  "closing_brace s d = Some e \<Longrightarrow> 0 < d \<or> (s \<noteq> [] \<and> hd s = CHR ''{'') \<Longrightarrow>
   e < length s \<and> s ! e = CHR ''}'' \<and>
   d + count_list (take (e + 1) s) (CHR ''{'') = count_list (take (e + 1) s) (CHR ''}'')"
proof (induction s d arbitrary: e rule: closing_brace.induct)
  case (2 c cs depth)
  show ?case
  proof (cases "c = CHR ''}'' \<and> depth = 1")
    case True
    with 2(4) show ?thesis by simp
  next
    case False
    then obtain e' d' where e: "e = Suc e'" "closing_brace cs d' = Some e'" "0 < d'"
      and d: "d' + (if c = CHR ''}'' then 1 else 0) = depth + (if c = CHR ''{'' then 1 else 0)"
      using 2(4,5) by (fastforce split: if_splits)
    have "e' < length cs \<and> cs ! e' = CHR ''}'' \<and>
      d' + count_list (take (e' + 1) cs) (CHR ''{'') = count_list (take (e' + 1) cs) (CHR ''}'')"
    proof (cases "c = CHR ''{'' \<or> c = CHR ''}''")
      case True
      then show ?thesis using 2(1,2) e d False by fastforce
    next
      case c: False
      then show ?thesis using 2(3) e d False by fastforce
    qed
    then show ?thesis using e(1) d by auto
  qed
qed simp

lemma closing_brace_take:
  "closing_brace s d = Some e \<Longrightarrow> closing_brace (take (e + 1) s @ r) d = Some e"
  by (induction s d arbitrary: e rule: closing_brace.induct) (auto split: if_splits)

lemma closing_brace_append: "closing_brace s d = Some e \<Longrightarrow> closing_brace (s @ r) d = Some e"
  by (induction s d arbitrary: e rule: closing_brace.induct) (auto split: if_splits)

lemma closing_brace_length: "closing_brace s d = Some e \<Longrightarrow> e < length s"
  by (induction s d arbitrary: e rule: closing_brace.induct) (auto split: if_splits)

lemma block_closed: "b \<in> set (brace_blocks s) \<Longrightarrow> closing_brace b 0 = Some (length b - 1) \<and> sublist b s"
proof (induction s)
  case (Cons c cs)
  show ?case
  proof (cases "b \<in> set (brace_blocks cs)")
    case True
    with Cons.IH show ?thesis by (meson sublist_Cons_right)
  next
    case False
    with Cons.prems obtain e where e: "closing_brace (c # cs) 0 = Some e" "b = take (e + 1) (c # cs)"
      by (auto split: if_splits option.splits)
    have "closing_brace b 0 = Some e" using closing_brace_take [OF e(1), of "[]"] e(2) by simp
    moreover have "e = length b - 1" using closing_brace_length [OF e(1)] e(2) by simp
    ultimately show ?thesis using e(2) by (metis prefix_imp_sublist take_is_prefix)
  qed
qed simp

lemma brace_blocks_skip: "CHR ''{'' \<notin> set a \<Longrightarrow> brace_blocks (a @ s) = brace_blocks s"
  by (induction a) auto

text \<open>An object whose text has a brace in a string, so that the braces balance before its end, is never
  one of the blocks that are tried, wherever it stands.\<close>

theorem brace_in_string_hides_call:
  assumes "closing_brace obj 0 = Some e" and "e + 1 < length obj"
  shows "obj \<notin> set (brace_blocks s)"
  using block_closed [of obj s] assms by auto

definition quote :: "string \<Rightarrow> string" where
  "quote s = [CHR 0x22] @ s @ [CHR 0x22]"

theorem brace_in_string_hides_call_witness:
  "let obj = ''{'' @ quote ''name'' @ '':'' @ quote ''f'' @ '','' @ quote ''arguments'' @ '':{'' @ quote ''c'' @
     '':'' @ quote ''}}'' @ ''}}'' in obj \<notin> set (brace_blocks (''I call '' @ obj))"
  unfolding Let_def
  by (rule brace_in_string_hides_call [where e = 31]) (simp_all add: quote_def numeral_eq_Suc)

section \<open>Calls in prose\<close>

lemma find_text_absent:
  assumes "c \<in> set pat" and "c \<notin> set s"
  shows "find_text pat s pos = None"
proof -
  have "\<not> prefix pat (drop i s)" for i
    using assms by (meson in_set_dropD set_mono_prefix subsetD)
  then show ?thesis by (simp add: find_text_None)
qed

text \<open>A model that narrates and then writes a call as a bare object is understood: in text with no
  fence and no tag, whose first brace opens an object that closes at the end of a block which parses to
  calls, exactly those calls are returned.\<close>

theorem call_after_prose:
  assumes "CHR ''`'' \<notin> set (prose @ obj @ rest)" and "CHR ''<'' \<notin> set (prose @ obj @ rest)"
    and "CHR ''{'' \<notin> set prose" and "prefix ''{'' obj" and "closing_brace obj 0 = Some (length obj - 1)"
    and "j_parse api (prose @ obj @ rest) = None" and "j_parse api obj = Some j"
    and "extract_calls api j = Some (c # cs)"
  shows "parse_tool_calls api (prose @ obj @ rest) = Some (c # cs)"
proof -
  let ?raw = "prose @ obj @ rest"
  have none: "fenced_block ''```json'' ?raw = []" "fenced_block (''```'' @ [CHR 0x0A]) ?raw = []"
    "python_tag_block ?raw = []" "tool_tag_block ?raw = []"
    using find_text_absent [OF _ assms(1)] find_text_absent [OF _ assms(2)]
    by (simp_all add: fenced_block_def python_tag_block_def tool_tag_block_def)
  obtain os where obj: "obj = CHR ''{'' # os" using assms(4) by (auto simp: prefix_def)
  have "closing_brace (obj @ rest) 0 = Some (length obj - 1)" by (rule closing_brace_append [OF assms(5)])
  moreover have "brace_blocks (CHR ''{'' # cs) = (case closing_brace (CHR ''{'' # cs) 0 of
      Some e \<Rightarrow> take (e + 1) (CHR ''{'' # cs) # brace_blocks cs | None \<Rightarrow> brace_blocks cs)" for cs
    by (simp only: brace_blocks.simps refl if_True)
  ultimately have "brace_blocks (obj @ rest) = obj # brace_blocks (os @ rest)"
    using obj by (simp del: closing_brace.simps brace_blocks.simps)
  then have "call_blocks ?raw = [?raw] @ obj # brace_blocks (os @ rest)"
    unfolding call_blocks_def none using brace_blocks_skip [OF assms(3), of "obj @ rest"] by simp
  then show ?thesis using assms(6-8) by (simp add: parse_tool_calls_def)
qed

definition call_object :: json where
  "call_object = JObj [(''name'', JStr ''f'')]"

theorem call_after_prose_witness:
  "parse_tool_calls (demo_json\<lparr>j_parse := (\<lambda>s. if s = ''{f}'' then Some call_object else None)\<rparr>) ''so: {f}'' =
     Some [call_json ''call_0'' ''f'' (JObj [])]"
  using call_after_prose [where prose = "''so: ''" and obj = "''{f}''" and rest = "[]" and
      api = "demo_json\<lparr>j_parse := (\<lambda>s. if s = ''{f}'' then Some call_object else None)\<rparr>" and
      j = call_object and c = "call_json ''call_0'' ''f'' (JObj [])" and cs = "[]"]
  by (simp add: call_object_def extract_calls_def normalise_single_call_def read_single_def demo_json_def
      call_args_of_def)

text \<open>Model output that is one JSON object whose \<open>name\<close> is null, and that has no array of tool
  calls, makes the parser throw instead of returning no calls.\<close>

theorem null_name_raises:
  assumes "json_laws api" and "j_parse api raw = Some (JObj kvs)" and "map_of kvs ''name'' = Some JNull"
    and "\<forall>cs. map_of kvs ''tool_calls'' \<noteq> Some (JArr cs)"
  shows "parse_tool_calls api raw = None \<and> normalise_single_call api (JObj kvs) = None"
proof -
  have "j_str api (JObj kvs) ''name'' [] = None" using assms(1,3) by (simp add: json_laws_def)
  then have n: "normalise_single_call api (JObj kvs) = None"
    using assms(3) by (simp add: normalise_single_call_def read_single_def)
  then have "extract_calls api (JObj kvs) = None"
    using assms(4) by (auto simp: extract_calls_def split: option.split json.split)
  with n show ?thesis using assms(2) by (simp add: parse_tool_calls_def call_blocks_def)
qed

theorem null_name_raises_witness:
  "parse_tool_calls (demo_json\<lparr>j_parse := (\<lambda>s. Some (JObj [(''name'', JNull)]))\<rparr>) ''x'' = None"
  using null_name_raises [of "demo_json\<lparr>j_parse := (\<lambda>s. Some (JObj [(''name'', JNull)]))\<rparr>" "''x''"
      "[(''name'', JNull)]"] by (simp add: demo_json_laws)

section \<open>The wire form of calls\<close>

definition wire_call :: "json \<Rightarrow> bool" where
  "wire_call c \<longleftrightarrow> (\<exists>cid name args. c = call_json cid name (JStr args))"

lemma canonical_call_wire: "canonical_call api idx c = Some d \<Longrightarrow> wire_call d"
  by (auto simp: canonical_call_def wire_call_def split: option.splits)

lemma canonical_call_fixed:
  assumes "json_laws api"
  shows "canonical_call api idx (call_json cid name (JStr args)) = Some (call_json cid name (JStr args))"
proof -
  have s: "map_of kvs k = Some (JStr s) \<Longrightarrow> j_str api (JObj kvs) k d = Some s" for kvs k s d
    using assms by (simp add: json_laws_def)
  have "j_str api (call_json cid name (JStr args)) ''id'' d = Some cid" for d
    unfolding call_json_def by (rule s) simp
  moreover have "j_str api (JObj [(''name'', JStr name), (''arguments'', JStr args)]) ''name'' [] = Some name"
    by (rule s) simp
  ultimately show ?thesis
    by (simp add: canonical_call_def tool_args_string_def call_json_def)
qed

lemma canonical_from_wire:
  "canonical_from api idx cs = Some ds \<Longrightarrow> length ds = length cs \<and> (\<forall>d \<in> set ds. wire_call d)"
  by (induction cs arbitrary: idx ds)
    (auto split: option.splits dest: canonical_call_wire)

lemma canonical_from_fixed:
  assumes "json_laws api"
  shows "\<forall>d \<in> set ds. wire_call d \<Longrightarrow> canonical_from api idx ds = Some ds"
  by (induction ds arbitrary: idx) (auto simp: wire_call_def canonical_call_fixed [OF assms])



section \<open>What a client sees of a tool round\<close>

definition calls_key :: string where
  "calls_key = CHR 0x22 # ''tool_calls'' @ [CHR 0x22]"

lemma take_prefix_drop:
  assumes "sublist pat (take n s)" and "find_text pat s 0 = Some k"
  shows "k + length pat \<le> n"
proof -
  obtain a b where ab: "take n s = a @ pat @ b" using assms(1) by (auto simp: sublist_def)
  then have s: "s = a @ pat @ b @ drop n s" by (metis append.assoc append_take_drop_id)
  have len: "length a + length pat \<le> n" using arg_cong [OF ab, of length] by simp
  have "k \<le> length a"
  proof (rule ccontr)
    assume "\<not> k \<le> length a"
    moreover have "prefix pat (drop (length a) s)" by (subst s) simp
    moreover have "\<forall>i < k. \<not> prefix pat (drop i s)"
      using assms(2) by (auto simp: find_text_def find_Some_iff nth_append simp del: upt_Suc)
    ultimately show False by simp
  qed
  with len show ?thesis by simp
qed

text \<open>The text shown for a tool round contains the key of the tool calls only where no brace opened
  before the key in the round's text, so the payload of a call list is never shown.\<close>

theorem call_list_not_shown:
  assumes "sublist calls_key (strip_tool_call_json t)"
  shows "\<exists>a b. t = a @ calls_key @ b \<and> CHR ''{'' \<notin> set a"
proof (cases "find_text calls_key t 0")
  case None
  then have "strip_tool_call_json t = trim_by c_space t" by (simp add: strip_tool_call_json_def calls_key_def)
  with assms None show ?thesis
    using sublist_find_text [OF None] trim_by_sublist sublist_order.order_trans by metis
next
  case (Some k)
  show ?thesis
  proof (cases "find_back (\<lambda>c. c = CHR ''{'') t k")
    case None
    have "t = take k t @ calls_key @ drop (length calls_key) (drop k t)"
      using find_text_Some [OF Some] by (metis append_take_drop_id append_eq_conv_conj prefix_def)
    moreover have "CHR ''{'' \<notin> set (take k t)"
    proof
      assume "CHR ''{'' \<in> set (take k t)"
      then obtain i where "i < k" "i < length t" "t ! i = CHR ''{''" by (auto simp: in_set_conv_nth)
      with None show False by (auto simp: find_back_def find_None_iff)
    qed
    ultimately show ?thesis by blast
  next
    case brace: (Some br)
    define hd' where "hd' = take br t"
    have "\<exists>n. strip_tool_call_json t = trim_by c_space (take n t) \<and> n \<le> br"
    proof (cases "rfind_text ''```'' hd'")
      case None
      then show ?thesis using Some brace
        by (intro exI [of _ br]) (simp add: strip_tool_call_json_def calls_key_def hd'_def Let_def)
    next
      case (Some f)
      then show ?thesis using \<open>find_text calls_key t 0 = Some k\<close> brace
        by (intro exI [of _ "if list_all fence_char (drop f hd') then min f br else br"])
          (simp add: strip_tool_call_json_def calls_key_def hd'_def Let_def min_def)
    qed
    then obtain n where n: "strip_tool_call_json t = trim_by c_space (take n t)" "n \<le> br" by blast
    then have "sublist calls_key (take n t)"
      using assms trim_by_sublist sublist_order.order_trans by metis
    then have "k + length calls_key \<le> n" by (rule take_prefix_drop [OF _ Some])
    with n(2) find_back_Some [OF brace] show ?thesis by (simp add: calls_key_def)
  qed
qed

theorem call_list_not_shown_witness:
  "\<exists>a b. calls_key = a @ calls_key @ b \<and> CHR ''{'' \<notin> set a"
proof (rule call_list_not_shown)
  have "strip_tool_call_json calls_key = calls_key"
    by (simp add: strip_tool_call_json_def calls_key_def find_text_def find_back_def trim_by_def c_space_def
        json_space_def upt_rec)
  then show "sublist calls_key (strip_tool_call_json calls_key)" by simp
qed

end
