(* ===== verification/Actions.thy ===== *)
theory Actions
  imports Prelude
begin

text \<open>
  Actions: pieces of the program that change a state and may throw.  The HTTP handlers use them over the world of
  the bridge, the CUDA engine over its own state.
\<close>

section \<open>Actions\<close>

text \<open>The outcome of an action: a value, an exception, undefined behaviour, or no return. The
  state an exception leaves is the one at the throw.\<close>

datatype 'a outcome = Ret 'a | Threw | Stuck ub | Diverges

type_synonym ('s, 'a) act = "'s \<Rightarrow> 'a outcome \<times> 's"

definition ret :: "'a \<Rightarrow> ('s, 'a) act" where
  "ret x s = (Ret x, s)"

definition throw :: "('s, 'a) act" where
  "throw s = (Threw, s)"

definition andthen :: "('s, 'a) act \<Rightarrow> ('a \<Rightarrow> ('s, 'b) act) \<Rightarrow> ('s, 'b) act" where
  "andthen m f s =
     (case m s of (Ret x, s') \<Rightarrow> f x s' | (Threw, s') \<Rightarrow> (Threw, s') | (Stuck u, s') \<Rightarrow> (Stuck u, s')
      | (Diverges, s') \<Rightarrow> (Diverges, s'))"

definition orthrow :: "'a option \<Rightarrow> ('s, 'a) act" where
  "orthrow x = (case x of None \<Rightarrow> throw | Some y \<Rightarrow> ret y)"

text \<open>A call of a component whose undefined behaviour is an error value.\<close>

definition calling :: "('s \<Rightarrow> ('s \<times> 'a) exec) \<Rightarrow> ('s, 'a) act" where
  "calling f s = (case f s of Inl u \<Rightarrow> (Stuck u, s) | Inr (s', x) \<Rightarrow> (Ret x, s'))"

definition reading :: "('s \<Rightarrow> 'a) \<Rightarrow> ('s, 'a) act" where
  "reading f s = (Ret (f s), s)"

definition stepping :: "('s \<Rightarrow> 's \<times> 'a) \<Rightarrow> ('s, 'a) act" where
  "stepping f s = (case f s of (s', x) \<Rightarrow> (Ret x, s'))"

definition changing :: "('s \<Rightarrow> 's) \<Rightarrow> ('s, unit) act" where
  "changing f s = (Ret (), f s)"

text \<open>\<open>catch (...)\<close>.\<close>

definition catching :: "('s, 'a) act \<Rightarrow> ('s, 'a) act \<Rightarrow> ('s, 'a) act" where
  "catching m h s = (case m s of (Threw, s') \<Rightarrow> h s' | r \<Rightarrow> r)"

text \<open>A loop that may not return, and undefined behaviour at this point.\<close>

definition looping :: "'a option \<Rightarrow> ('s, 'a) act" where
  "looping x s = (case x of None \<Rightarrow> (Diverges, s) | Some y \<Rightarrow> (Ret y, s))"

definition stuck :: "ub \<Rightarrow> ('s, 'a) act" where
  "stuck u s = (Stuck u, s)"

lemmas act_defs = looping_def stuck_def ret_def throw_def andthen_def orthrow_def calling_def reading_def stepping_def changing_def
  catching_def

lemma andthen_ret [simp]: "andthen (ret x) f = f x"
  by (rule ext) (simp add: act_defs)

lemma andthen_throw [simp]: "andthen throw f = throw"
  by (rule ext) (simp add: act_defs)

lemma orthrow_simps [simp]: "orthrow None = throw" "orthrow (Some x) = ret x"
  by (simp_all add: orthrow_def)

lemma andthen_Ret: "m s = (Ret x, s') \<Longrightarrow> andthen m f s = f x s'"
  by (simp add: andthen_def)

lemma andthen_Threw: "m s = (Threw, s') \<Longrightarrow> andthen m f s = (Threw, s')"
  by (simp add: andthen_def)

lemma andthen_eq_Ret:
  "andthen m f s = (Ret y, s'') \<longleftrightarrow> (\<exists>x s'. m s = (Ret x, s') \<and> f x s' = (Ret y, s''))"
  by (auto simp: andthen_def split: prod.split outcome.split)

text \<open>A relation between the state before and after an action, whatever its outcome.\<close>

definition act_rel :: "('s \<Rightarrow> 's \<Rightarrow> bool) \<Rightarrow> ('s, 'a) act \<Rightarrow> bool" where
  "act_rel R m \<longleftrightarrow> (\<forall>s. R s (snd (m s)))"

lemma act_rel_andthen:
  assumes "act_rel R m" and "\<And>x. act_rel S (f x)" and "\<And>a b c. R a b \<Longrightarrow> S b c \<Longrightarrow> T a c"
    and "\<And>a b. R a b \<Longrightarrow> T a b"
  shows "act_rel T (andthen m f)"
  using assms by (fastforce simp: act_rel_def andthen_def split: prod.split outcome.split)

lemma act_rel_pure [simp]:
  assumes "\<And>s. R s s"
  shows "act_rel R (ret x)" "act_rel R throw" "act_rel R (orthrow x')" "act_rel R (reading g)"
    "act_rel R (looping x')" "act_rel R (stuck u)"
  using assms by (auto simp: act_rel_def act_defs split: option.split)

text \<open>The relation that keeps a function of the state.\<close>

abbreviation keeps :: "('s \<Rightarrow> 'b) \<Rightarrow> ('s, 'a) act \<Rightarrow> bool" where
  "keeps n m \<equiv> act_rel (\<lambda>s s'. n s' = n s) m"

lemma keeps_andthen: "keeps n m \<Longrightarrow> (\<And>x. keeps n (f x)) \<Longrightarrow> keeps n (andthen m f)"
  by (rule act_rel_andthen [where R = "\<lambda>s s'. n s' = n s" and S = "\<lambda>s s'. n s' = n s"]) simp_all

lemma keeps_changing: "(\<And>s. n (f s) = n s) \<Longrightarrow> keeps n (changing f)"
  by (simp add: act_rel_def changing_def)

section \<open>Triples\<close>

text \<open>From a state with \<open>P\<close> a value comes with \<open>Q\<close> and an exception with \<open>R\<close>.\<close>

definition spec :: "('s \<Rightarrow> bool) \<Rightarrow> ('s, 'a) act \<Rightarrow> ('a \<Rightarrow> 's \<Rightarrow> bool) \<Rightarrow> ('s \<Rightarrow> bool) \<Rightarrow> bool" where
  "spec P m Q R \<longleftrightarrow> (\<forall>s. P s \<longrightarrow> (case m s of (Ret x, s') \<Rightarrow> Q x s' | (Threw, s') \<Rightarrow> R s' | _ \<Rightarrow> True))"

lemma spec_ret: "(\<And>s. P s \<Longrightarrow> Q x s) \<Longrightarrow> spec P (ret x) Q R"
  by (simp add: spec_def ret_def)

lemma spec_throw: "(\<And>s. P s \<Longrightarrow> R s) \<Longrightarrow> spec P throw Q R"
  by (simp add: spec_def throw_def)

lemma spec_stuck: "spec P (stuck u) Q R"
  by (simp add: spec_def stuck_def)

lemma spec_reading: "(\<And>s. P s \<Longrightarrow> Q (f s) s) \<Longrightarrow> spec P (reading f) Q R"
  by (simp add: spec_def reading_def)

lemma spec_changing: "(\<And>s. P s \<Longrightarrow> Q () (f s)) \<Longrightarrow> spec P (changing f) Q R"
  by (simp add: spec_def changing_def)

lemma spec_andthen:
  assumes "spec P m Q R" and "\<And>x. spec (Q x) (f x) Q' R"
  shows "spec P (andthen m f) Q' R"
  unfolding spec_def
proof (intro allI impI)
  fix s assume "P s"
  show "case andthen m f s of (Ret x, s') \<Rightarrow> Q' x s' | (Threw, s') \<Rightarrow> R s' | _ \<Rightarrow> True"
  proof (cases "m s")
    case (Pair r s')
    then show ?thesis using assms \<open>P s\<close>
      by (cases r) (fastforce simp: spec_def andthen_def)+
  qed
qed

lemma spec_if: "(b \<Longrightarrow> spec P m Q R) \<Longrightarrow> (\<not> b \<Longrightarrow> spec P m' Q R) \<Longrightarrow> spec P (if b then m else m') Q R"
  by simp

lemma spec_weaken:
  assumes "spec P m Q R" and "\<And>s. P' s \<Longrightarrow> P s" and "\<And>x s. Q x s \<Longrightarrow> Q' x s" and "\<And>s. R s \<Longrightarrow> R' s"
  shows "spec P' m Q' R'"
  unfolding spec_def
proof (intro allI impI)
  fix s assume "P' s"
  then have "case m s of (Ret x, s') \<Rightarrow> Q x s' | (Threw, s') \<Rightarrow> R s' | _ \<Rightarrow> True"
    using assms(1,2) by (simp add: spec_def)
  then show "case m s of (Ret x, s') \<Rightarrow> Q' x s' | (Threw, s') \<Rightarrow> R' s' | _ \<Rightarrow> True"
    by (auto intro: assms(3,4) split: prod.splits outcome.splits)
qed

lemma spec_keeps:
  assumes "keeps n m"
  shows "spec (\<lambda>s. n s = v) m (\<lambda>_ s. n s = v) (\<lambda>s. n s = v)"
  unfolding spec_def
proof (intro allI impI)
  fix s assume "n s = v"
  then have "n (snd (m s)) = v" using assms by (simp add: act_rel_def)
  then show "case m s of (Ret x, s') \<Rightarrow> n s' = v | (Threw, s') \<Rightarrow> n s' = v | _ \<Rightarrow> True"
    by (auto split: prod.splits outcome.splits)
qed

lemma specD_Ret: "spec P m Q R \<Longrightarrow> P s \<Longrightarrow> m s = (Ret x, s') \<Longrightarrow> Q x s'"
  unfolding spec_def by fastforce

lemma specD_Threw: "spec P m Q R \<Longrightarrow> P s \<Longrightarrow> m s = (Threw, s') \<Longrightarrow> R s'"
  unfolding spec_def by fastforce

end
