(* ===== verification/Handler.thy ===== *)
theory Handler
  imports Actions Bridge_Host Tool_Calls Bridge_Tools
begin

text \<open>
  What the HTTP handlers of \<open>src/server/\<close> share: requests and replies, typed reads of a JSON body, the
  per-request plugin context, and the execution of one tool call.
\<close>

section \<open>Requests and replies\<close>

record http_request =
  rq_body :: string
  rq_header :: "string \<Rightarrow> string"

text \<open>A JSON reply with its status, or the events written to the sink of a chunked reply.\<close>

datatype reply = Json_Reply nat string | Event_Stream "string list"

definition error_response :: "string \<Rightarrow> json" where
  "error_response msg =
     JObj [(''error'', JObj [(''message'', JStr msg), (''type'', JStr ''server_error'')])]"

definition fail_with :: "json_api \<Rightarrow> nat \<Rightarrow> string \<Rightarrow> reply" where
  "fail_with api status msg = Json_Reply status (j_dump api (error_response msg))"

text \<open>\<open>value(key, default)\<close> for a number or a flag.\<close>

definition body_get :: "(json \<Rightarrow> 'a option) \<Rightarrow> json \<Rightarrow> string \<Rightarrow> 'a \<Rightarrow> 'a option" where
  "body_get conv body key d =
     (if is_obj body then (case j_entry body key of None \<Rightarrow> Some d | Some v \<Rightarrow> conv v) else None)"

fun str_list :: "json list \<Rightarrow> string list" where
  "str_list [] = []"
| "str_list (JStr s # vs) = s # str_list vs"
| "str_list (_ # vs) = str_list vs"

definition stop_texts :: "json \<Rightarrow> string list" where
  "stop_texts body =
     (case j_entry body ''stop'' of
        Some (JStr s) \<Rightarrow> [s]
      | Some (JArr vs) \<Rightarrow> str_list vs
      | _ \<Rightarrow> [])"

section \<open>The plugin context of a request\<close>

definition set_ctx :: "req_context \<Rightarrow> ('v world, unit) act" where
  "set_ctx c = changing (\<lambda>w. w\<lparr>wd_ctx := c\<rparr>)"

text \<open>\<open>make_context\<close>; the handlers overwrite its request id.\<close>

definition model_name :: "truellm_config \<Rightarrow> string" where
  "model_name cfg = (if md_alias (tc_model cfg) = [] then ''default'' else md_alias (tc_model cfg))"

definition make_context :: "truellm_config \<Rightarrow> string \<Rightarrow> int \<Rightarrow> string \<Rightarrow> int \<Rightarrow> real \<Rightarrow> req_context" where
  "make_context cfg arch budget rid max_tokens temperature =
     \<lparr>cx_request_id = rid, cx_model_id = model_name cfg, cx_model_arch = arch,
      cx_token_budget = budget, cx_max_tokens = max_tokens, cx_temperature = temperature,
      cx_status = None, cx_recursion_depth = 0, cx_metadata = Map.empty\<rparr>"

text \<open>\<open>absorb_client_metadata\<close>: three channels, each overwriting the keys of the ones before it.\<close>

fun merge_object :: "json_api \<Rightarrow> json \<Rightarrow> (string \<rightharpoonup> string) \<Rightarrow> (string \<rightharpoonup> string)" where
  "merge_object api (JObj kvs) m =
     foldl (\<lambda>m (k, v). m(k \<mapsto> (case v of JStr s \<Rightarrow> s | _ \<Rightarrow> j_dump api v))) m kvs"
| "merge_object api _ m = m"

definition path_entry :: "json \<Rightarrow> string list \<Rightarrow> json option" where
  "path_entry j path = foldl (\<lambda>o' k. Option.bind o' (\<lambda>v. j_entry v k)) (Some j) path"

definition metadata_header :: string where
  "metadata_header = ''x-truellm-context-metadata''"

definition absorb_client_metadata ::
  "json_api \<Rightarrow> json \<Rightarrow> http_request \<Rightarrow> (string \<rightharpoonup> string) \<Rightarrow> (string \<rightharpoonup> string)" where
  "absorb_client_metadata api body req m =
     (let merge_opt = (\<lambda>o' m. case o' of None \<Rightarrow> m | Some v \<Rightarrow> merge_object api v m);
          m1 = merge_opt (path_entry body [''extra_body'', ''truellm'', ''context_metadata'']) m;
          m2 = merge_opt (j_entry body ''truellm_metadata'') m1;
          hv = rq_header req metadata_header
      in if hv = [] then m2 else merge_opt (j_parse api hv) m2)"

text \<open>\<open>merge_subcall_usage\<close>: usage fields in the order of their insertion.\<close>

definition merge_subcall_usage :: "bool \<Rightarrow> 'v world \<Rightarrow> (string \<times> json) list \<Rightarrow> (string \<times> json) list exec" where
  "merge_subcall_usage has_ctx w usage =
     (if \<not> has_ctx then Inr usage
      else let m = cx_metadata (wd_ctx w);
               p = metadata_number m ''research.subcall_prompt_tokens'';
               c = metadata_number m ''research.subcall_completion_tokens'';
               n = metadata_number m ''research.subcall_count''
           in if n \<le> 0 then Inr usage
              else if \<not> in_s64 (p + c) then Inl SignedOverflow
              else Inr (usage @ [(''research_prompt_tokens'', JInt p),
                     (''research_completion_tokens'', JInt c),
                     (''research_total_tokens'', JInt (p + c)), (''research_subcall_count'', JInt n)]))"

section \<open>Tool calls of a round\<close>

definition format_tool_denial :: "json_api \<Rightarrow> string \<Rightarrow> string" where
  "format_tool_denial api reason = j_dump api (JObj [(''denied'', JBool True), (''reason'', JStr reason)])"

text \<open>What the handlers read of a call: the name, the arguments, the id. A call without a function
  object throws, since the default of the first read is null.\<close>

definition call_parts :: "json_api \<Rightarrow> nat \<Rightarrow> json \<Rightarrow> (string \<times> string \<times> string) option" where
  "call_parts api tool_round call =
     (case j_value call ''function'' JNull of
        None \<Rightarrow> None
      | Some fn \<Rightarrow>
          (case (j_str api fn ''name'' [], tool_args_string api call,
                 j_str api call ''id'' (''call_'' @ show_nat tool_round)) of
             (Some q, Some args, Some cid) \<Rightarrow> Some (q, args, cid)
           | _ \<Rightarrow> None))"

definition result_text :: "json_api \<Rightarrow> tool_call_result \<Rightarrow> string" where
  "result_text api tc =
     (case tcr_error tc of
        Err_Ok \<Rightarrow> tcr_payload tc
      | Err_Permission \<Rightarrow>
          format_tool_denial api (if tcr_msg tc = [] then ''tool refused the request'' else tcr_msg tc)
      | _ \<Rightarrow> ''[Tool error] '' @ tcr_msg tc)"

text \<open>One call: its id and the text of its result. The context, and with it the allow-list, exists only
  if there is a bridge; the refusal text of the two handlers differs in its end.\<close>

definition execute_call ::
  "json_api \<Rightarrow> 'v world tool_registry \<Rightarrow> string \<Rightarrow> nat \<Rightarrow> json \<Rightarrow> ('v world, string \<times> string) act" where
  "execute_call api reg advice tool_round call =
     andthen (orthrow (call_parts api tool_round call)) (\<lambda>(q, args, cid).
     andthen (reading (allowed_tools True)) (\<lambda>csv.
       if \<not> is_tool_allowed q csv
       then ret (cid, format_tool_denial api
              (''tool '' @ CHR 0x27 # q @ CHR 0x27 # '' is not in the allow-list (agent.allowed_tools)'' @ advice))
       else andthen (calling (tool_dispatch q args reg)) (\<lambda>tc. ret (cid, result_text api tc))))"

fun execute_calls ::
  "json_api \<Rightarrow> 'v world tool_registry \<Rightarrow> string \<Rightarrow> nat \<Rightarrow> json list \<Rightarrow> ('v world, (string \<times> string) list) act" where
  "execute_calls api reg advice tool_round [] = ret []"
| "execute_calls api reg advice tool_round (c # cs) =
     andthen (execute_call api reg advice tool_round c) (\<lambda>r.
     andthen (execute_calls api reg advice tool_round cs) (\<lambda>rs. ret (r # rs)))"

lemma execute_call_keeps:
  assumes "\<And>q args w w' tc. tool_dispatch q args reg w = Inr (w', tc) \<Longrightarrow> n w' = n w"
  shows "keeps n (execute_call api reg advice k c)"
proof -
  have "keeps n (calling (tool_dispatch q args reg))" for q args
    using assms by (auto simp: act_rel_def calling_def split: sum.split)
  then show ?thesis
    unfolding execute_call_def by (auto intro!: keeps_andthen)
qed

lemma execute_calls_keeps:
  assumes "\<And>q args w w' tc. tool_dispatch q args reg w = Inr (w', tc) \<Longrightarrow> n w' = n w"
  shows "keeps n (execute_calls api reg advice k cs)"
  by (induction cs) (auto intro!: keeps_andthen execute_call_keeps assms)

section \<open>Routers\<close>

text \<open>What a router refers to: the configuration, the JSON library, the engine if there is one, the hooks
  of the plugin bridge if it is on, and the clock \<open>unix_now\<close>.\<close>

record 'v hooks =
  hk_tools :: "'v world tool_registry"
  hk_preps :: "'v world prep_entry list"
  hk_gens :: "'v world gen_entry list"

record 'v router =
  ro_cfg :: truellm_config
  ro_api :: json_api
  ro_get :: json_get
  ro_engine :: "'v engine option"
  ro_loaded :: "'v world \<Rightarrow> bool"
  ro_budget :: "'v world \<Rightarrow> int"
  ro_hooks :: "'v hooks option"
  ro_now :: "'v world \<Rightarrow> 'v world \<times> int"

text \<open>A router whose engine exists; the handlers reply 503 otherwise.\<close>

definition ready_engine :: "'v router \<Rightarrow> 'v world \<Rightarrow> 'v engine option" where
  "ready_engine r w =
     (case ro_engine r of None \<Rightarrow> None | Some e \<Rightarrow> if ro_loaded r w then Some e else None)"

definition generate :: "'v engine \<Rightarrow> generate_request \<Rightarrow> ('v world, generate_result) act" where
  "generate eng req = stepping (\<lambda>w. case en_generate eng req w of (w', res, pieces) \<Rightarrow> (w', res))"

definition has_tools :: "'v router \<Rightarrow> bool" where
  "has_tools r = (case ro_hooks r of None \<Rightarrow> False | Some h \<Rightarrow> 0 < tool_count (hk_tools h))"

definition tools_of :: "'v router \<Rightarrow> 'v world tool_registry" where
  "tools_of r = (case ro_hooks r of None \<Rightarrow> empty_tools | Some h \<Rightarrow> hk_tools h)"

text \<open>The context of the request, if the bridge is on.\<close>

definition open_context ::
  "'v router \<Rightarrow> 'v engine \<Rightarrow> json \<Rightarrow> http_request \<Rightarrow> string \<Rightarrow> int \<Rightarrow> real \<Rightarrow> ('v world, unit) act" where
  "open_context r eng body req rid max_tokens temperature =
     (if ro_hooks r = None then ret ()
      else andthen (reading (ro_budget r)) (\<lambda>budget.
        let c = make_context (ro_cfg r) (en_arch eng) budget rid max_tokens temperature
        in set_ctx (c\<lparr>cx_metadata := absorb_client_metadata (ro_api r) body req (cx_metadata c)\<rparr>)))"

text \<open>The preprocessor chain in front of a handler: the modified messages of a result are not read.\<close>

definition preprocessed ::
  "'v router \<Rightarrow> (reply \<Rightarrow> 'a) \<Rightarrow> string \<Rightarrow> (string \<Rightarrow> ('v world, 'a) act) \<Rightarrow> ('v world, 'a) act \<Rightarrow> ('v world, 'a) act" where
  "preprocessed r wrap msgs respond continue =
     (case ro_hooks r of
        None \<Rightarrow> continue
      | Some h \<Rightarrow>
          if has_preprocessors (hk_preps h)
          then andthen (stepping (run_chain (hk_preps h) msgs)) (\<lambda>pr.
                 case psr_decision pr of
                   Respond \<Rightarrow> respond (psr_response pr)
                 | Abort \<Rightarrow> ret (wrap (fail_with (ro_api r) 400 ''Request blocked by preprocessor''))
                 | Pass \<Rightarrow> continue)
          else continue)"

text \<open>The usage object of a result; an uninitialised counter reads as the engine's indeterminate value.\<close>

definition prompt_count :: "'v engine \<Rightarrow> generate_result \<Rightarrow> int" where
  "prompt_count eng res = (case r_prompt_tokens res of Some n \<Rightarrow> n | None \<Rightarrow> en_indet eng)"

definition generated_count :: "'v engine \<Rightarrow> generate_result \<Rightarrow> int" where
  "generated_count eng res = (case r_generated_tokens res of Some n \<Rightarrow> n | None \<Rightarrow> en_indet eng)"

definition usage_of :: "bool \<Rightarrow> int \<Rightarrow> int \<Rightarrow> 'v world \<Rightarrow> json exec" where
  "usage_of has_ctx p g w =
     ebind (s32 (p + g)) (\<lambda>total.
     ebind (merge_subcall_usage has_ctx w
              [(''prompt_tokens'', JInt p), (''completion_tokens'', JInt g), (''total_tokens'', JInt total)])
       (\<lambda>u. Inr (JObj u)))"

definition sse :: "json_api \<Rightarrow> json \<Rightarrow> string" where
  "sse api j = ''data: '' @ j_dump api j @ [CHR 0x0A, CHR 0x0A]"

definition sse_done :: string where
  "sse_done = ''data: [DONE]'' @ [CHR 0x0A, CHR 0x0A]"

section \<open>Refused calls\<close>

lemma denied_by_list:
  "cx_metadata (wd_ctx w) ''agent.allowed_tools'' = Some csv \<Longrightarrow> csv \<noteq> [] \<Longrightarrow>
   \<forall>tok \<in> set (map trim (commas csv)). \<not> grants tok q \<Longrightarrow> \<not> is_tool_allowed q (allowed_tools True w)"
  by (auto simp: is_tool_allowed_iff allowed_tools_def pull_def)

lemma denied_call:
  assumes "call_parts api n c = Some (q, args, cid)" and "\<not> is_tool_allowed q (allowed_tools True w)"
  shows "execute_call api reg advice n c w =
    (Ret (cid, format_tool_denial api (''tool '' @ CHR 0x27 # q @ CHR 0x27 #
       '' is not in the allow-list (agent.allowed_tools)'' @ advice)), w)"
  using assms by (simp add: execute_call_def act_defs)

lemma denied_calls:
  assumes "\<forall>c \<in> set cs. \<exists>q args cid. call_parts api n c = Some (q, args, cid) \<and>
    \<not> is_tool_allowed q (allowed_tools True w)"
  shows "\<exists>rs. execute_calls api reg advice n cs w = (Ret rs, w) \<and> length rs = length cs"
  using assms
proof (induction cs)
  case Nil
  then show ?case by (simp add: ret_def)
next
  case (Cons c cs)
  then obtain rs where rs: "execute_calls api reg advice n cs w = (Ret rs, w)" "length rs = length cs" by auto
  from Cons.prems obtain q args cid where "call_parts api n c = Some (q, args, cid)"
    "\<not> is_tool_allowed q (allowed_tools True w)" by auto
  from denied_call [OF this, of reg advice] rs show ?case by (auto simp: andthen_def ret_def)
qed


text \<open>A round in the plan world of \<^const>\<open>plan_world\<close>, whose list grants \<open>fs.read\<close> and \<open>web.*\<close>.\<close>

definition write_call :: json where
  "write_call = call_json ''call_7'' ''fs.write'' (JStr ''{}'')"

lemma write_call_parts: "call_parts demo_json n write_call = Some (''fs.write'', ''{}'', ''call_7'')"
  by (simp add: call_parts_def write_call_def call_json_def demo_json_def tool_args_string_def)


end
