(* ===== verification/Completions.thy ===== *)
theory Completions
  imports Handler
begin

text \<open>
  \<open>GET /v1/models\<close> and \<open>POST /v1/completions\<close> of \<open>src/server/openai_router.cpp\<close>. The events of a streamed
  reply are those the content provider writes when it runs, after the handler.
\<close>

section \<open>Models\<close>

definition handle_models :: "'v router \<Rightarrow> ('v world, reply) act" where
  "handle_models r =
     andthen (stepping (ro_now r)) (\<lambda>now.
       let name = (if md_alias (tc_model (ro_cfg r)) = [] then md_path (tc_model (ro_cfg r))
                   else md_alias (tc_model (ro_cfg r)));
           mid = (if name = [] then ''default'' else name)
       in ret (Json_Reply 200 (j_dump (ro_api r)
            (JObj [(''object'', JStr ''list''),
              (''data'', JArr [JObj [(''id'', JStr mid), (''object'', JStr ''model''), (''created'', JInt now),
                 (''owned_by'', JStr ''truellm'')]])]))))"

section \<open>The request\<close>

record completion_request =
  cr_prompt :: string
  cr_stream :: bool
  cr_gen :: generate_request

text \<open>The typed reads of the body, in order; the request id is set later.\<close>

definition read_completion :: "'v router \<Rightarrow> 'v engine \<Rightarrow> json \<Rightarrow> completion_request option" where
  "read_completion r eng body =
     (case (j_str (ro_api r) body ''prompt'' [],
            body_get (jg_s32 (ro_get r)) body ''max_tokens'' (smp_max_tokens (tc_sampling (ro_cfg r))),
            body_get (jg_float (ro_get r)) body ''temperature'' (smp_temperature (tc_sampling (ro_cfg r))),
            body_get (jg_bool (ro_get r)) body ''stream'' False,
            body_get (jg_float (ro_get r)) body ''top_p'' (smp_top_p (tc_sampling (ro_cfg r)))) of
        (Some prompt, Some max_tokens, Some temperature, Some do_stream, Some top_p) \<Rightarrow>
          Some \<lparr>cr_prompt = prompt, cr_stream = do_stream,
            cr_gen = \<lparr>g_tokens = en_tokenize eng prompt, g_max_tokens = max_tokens,
              g_temperature = temperature, g_top_p = top_p, g_top_k = 40, g_repeat_penalty = 11 / 10,
              g_on_token = False, g_stop_tokens = [], g_stop = stop_texts body, g_grammar = [],
              g_grammar_lazy = False, g_request_id = [], g_session_id = []\<rparr>\<rparr>
      | _ \<Rightarrow> None)"

definition completion_json :: "string \<Rightarrow> string \<Rightarrow> int \<Rightarrow> string \<Rightarrow> string \<Rightarrow> json option \<Rightarrow> json" where
  "completion_json rid mid now t finish usage =
     JObj ([(''id'', JStr rid), (''object'', JStr ''text_completion''), (''created'', JInt now),
            (''model'', JStr mid),
            (''choices'', JArr [JObj [(''text'', JStr t), (''index'', JInt 0), (''finish_reason'', JStr finish)]])]
           @ (case usage of None \<Rightarrow> [] | Some u \<Rightarrow> [(''usage'', u)]))"

text \<open>The tool instruction put in front of the prompt.\<close>

definition tool_preamble :: "string \<Rightarrow> string" where
  "tool_preamble schemas =
     ''You have access to the following tools:'' @ nl @ schemas @ nl @ nl @
     ''To call a tool respond with a JSON object of the form:'' @ nl @
     ''{'' @ quote ''tool_calls'' @ '':[{'' @ quote ''id'' @ '':'' @ quote ''call_0'' @ '','' @ quote ''type'' @ '':'' @
     quote ''function'' @ '','' @ quote ''function'' @ '':{'' @ quote ''name'' @ '':'' @
     quote ''<qualified_name>'' @ '','' @ quote ''arguments'' @ '':{<args>}}}]}'' @ nl @ nl"

definition inject_schemas :: "'v router \<Rightarrow> 'v engine \<Rightarrow> completion_request \<Rightarrow> completion_request" where
  "inject_schemas r eng cr =
     (if has_tools r
      then let schemas = tg_cache (tools_of r)
           in if schemas \<noteq> [] \<and> schemas \<noteq> ''[]''
              then let prompt = tool_preamble schemas @ cr_prompt cr
                   in cr\<lparr>cr_prompt := prompt, cr_gen := (cr_gen cr)\<lparr>g_tokens := en_tokenize eng prompt\<rparr>\<rparr>
              else cr
      else cr)"

section \<open>Tool rounds\<close>

definition results_block :: "(string \<times> string) list \<Rightarrow> string" where
  "results_block rs = concat (map (\<lambda>(cid, body). nl @ ''[Tool '' @ cid @ '' result]: '' @ body @ nl) rs)"

definition engine_failure :: "json_api \<Rightarrow> generate_result \<Rightarrow> reply" where
  "engine_failure api res = fail_with api 503 (''Inference engine error: '' @ r_error_message res)"

text \<open>The \<open>while\<close> loop with the number of rounds it may still do: an error reply, or the last result with
  the number of rounds that executed tools.\<close>

fun completion_rounds ::
  "'v router \<Rightarrow> 'v engine \<Rightarrow> nat \<Rightarrow> nat \<Rightarrow> string \<Rightarrow> generate_request \<Rightarrow> generate_result \<Rightarrow>
   ('v world, reply + generate_result \<times> nat) act" where
  "completion_rounds r eng 0 tool_round prompt req result = ret (Inr (result, tool_round))"
| "completion_rounds r eng (Suc n) tool_round prompt req result =
     andthen (generate eng req) (\<lambda>res.
       if r_error res \<noteq> Ok then ret (Inl (engine_failure (ro_api r) res))
       else if \<not> has_tools r then ret (Inr (res, tool_round))
       else andthen (orthrow (parse_tool_calls (ro_api r) (r_text res))) (\<lambda>calls.
         if calls = [] then ret (Inr (res, tool_round))
         else andthen (execute_calls (ro_api r) (tools_of r) [] tool_round calls) (\<lambda>rs.
           let prompt' = prompt @ r_text res @ results_block rs
           in completion_rounds r eng n (tool_round + 1) prompt'
                (req\<lparr>g_tokens := en_tokenize eng prompt', g_on_token := False\<rparr>) res)))"

text \<open>The result before any generation: its counters are not initialised.\<close>

definition blank_result :: generate_result where
  "blank_result = error_result Ok []"

definition finish_of :: "generate_result \<Rightarrow> string" where
  "finish_of res = (if r_finish_reason res = [] then ''stop'' else r_finish_reason res)"

definition answer_completion ::
  "'v router \<Rightarrow> 'v engine \<Rightarrow> string \<Rightarrow> completion_request \<Rightarrow> ('v world, reply) act" where
  "answer_completion r eng rid cr =
     andthen (completion_rounds r eng (nat (pl_tool_max_rounds (tc_plugins (ro_cfg r)) + 1)) 0
                (cr_prompt cr) (cr_gen cr) blank_result) (\<lambda>out.
       case out of
         Inl reply \<Rightarrow> ret reply
       | Inr (res, tool_round) \<Rightarrow>
           andthen (calling (\<lambda>w. ebind (usage_of (ro_hooks r \<noteq> None) (prompt_count eng res)
                                   (generated_count eng res) w) (\<lambda>u. Inr (w, u)))) (\<lambda>usage.
           andthen (stepping (ro_now r)) (\<lambda>now.
             ret (Json_Reply 200 (j_dump (ro_api r)
                    (completion_json rid (model_name (ro_cfg r)) now (r_text res) (finish_of res) (Some usage)))))))"

section \<open>Streaming\<close>

definition delta_event :: "json_api \<Rightarrow> string \<Rightarrow> string \<Rightarrow> string \<Rightarrow> string" where
  "delta_event api rid mid piece =
     sse api (JObj [(''id'', JStr rid), (''object'', JStr ''text_completion''), (''model'', JStr mid),
       (''choices'', JArr [JObj [(''text'', JStr piece), (''index'', JInt 0), (''finish_reason'', JNull)]])])"

definition stream_completion ::
  "'v router \<Rightarrow> 'v engine \<Rightarrow> string \<Rightarrow> completion_request \<Rightarrow> ('v world, reply) act" where
  "stream_completion r eng rid cr =
     stepping (\<lambda>w. case en_generate eng ((cr_gen cr)\<lparr>g_on_token := True\<rparr>) w of
       (w', res, pieces) \<Rightarrow>
         (w', Event_Stream (map (delta_event (ro_api r) rid (model_name (ro_cfg r))) pieces @ [sse_done])))"

section \<open>The handler\<close>

definition serve_completion ::
  "'v router \<Rightarrow> 'v engine \<Rightarrow> http_request \<Rightarrow> json \<Rightarrow> completion_request \<Rightarrow> ('v world, reply) act" where
  "serve_completion r eng req body cr =
     andthen (stepping (ro_now r)) (\<lambda>now.
       let rid = ''cmpl-'' @ show_int now;
           cr' = cr\<lparr>cr_gen := (cr_gen cr)\<lparr>g_request_id := rid\<rparr>\<rparr>
       in andthen (open_context r eng body req rid (g_max_tokens (cr_gen cr)) (g_temperature (cr_gen cr))) (\<lambda>_.
          preprocessed r id (j_dump (ro_api r) (JObj [(''prompt'', JStr (cr_prompt cr))]))
            (\<lambda>t. andthen (stepping (ro_now r)) (\<lambda>created.
               ret (Json_Reply 200 (j_dump (ro_api r)
                 (completion_json rid (model_name (ro_cfg r)) created t ''stop'' None)))))
            (if cr_stream cr then stream_completion r eng rid (inject_schemas r eng cr')
             else answer_completion r eng rid (inject_schemas r eng cr'))))"

definition handle_completions :: "'v router \<Rightarrow> http_request \<Rightarrow> ('v world, reply) act" where
  "handle_completions r req =
     (case j_parse (ro_api r) (rq_body req) of
        None \<Rightarrow> ret (fail_with (ro_api r) 400 ''Invalid JSON'')
      | Some body \<Rightarrow>
          andthen (reading (ready_engine r)) (\<lambda>engine.
            case engine of
              None \<Rightarrow> ret (fail_with (ro_api r) 503 ''No model loaded'')
            | Some eng \<Rightarrow>
                andthen (orthrow (read_completion r eng body)) (serve_completion r eng req body)))"

section \<open>Bounds of the tool loop\<close>

text \<open>A count of generations that every generation advances by one and that no tool touches.\<close>

definition counts_generations :: "('v world \<Rightarrow> nat) \<Rightarrow> 'v router \<Rightarrow> 'v engine \<Rightarrow> bool" where
  "counts_generations n r eng \<longleftrightarrow>
     (\<forall>req w. n (fst (en_generate eng req w)) = n w + 1) \<and>
     (\<forall>q args w w' tc. tool_dispatch q args (tools_of r) w = Inr (w', tc) \<longrightarrow> n w' = n w)"

lemma generate_counts:
  "counts_generations n r eng \<Longrightarrow> act_rel (\<lambda>w w'. n w' = n w + 1) (generate eng req)"
  by (auto simp: act_rel_def generate_def stepping_def counts_generations_def split: prod.split)
    (metis fst_conv)

lemma completion_rounds_count:
  assumes "counts_generations n r eng"
  shows "act_rel (\<lambda>w w'. n w' \<le> n w + m) (completion_rounds r eng m k prompt req res0)"
proof (induction m arbitrary: k prompt req res0)
  case 0
  show ?case by simp
next
  case (Suc m)
  have calls: "act_rel (\<lambda>w w'. n w' \<le> n w + m) (andthen (execute_calls (ro_api r) (tools_of r) [] k cs) f)"
    if "\<And>rs. act_rel (\<lambda>w w'. n w' \<le> n w + m) (f rs)" for cs f
  proof (rule act_rel_andthen [OF _ that])
    show "keeps n (execute_calls (ro_api r) (tools_of r) [] k cs)"
      by (rule execute_calls_keeps) (use assms in \<open>unfold counts_generations_def, blast\<close>)
  qed simp_all
  have parsed: "act_rel (\<lambda>w w'. n w' \<le> n w + m) (andthen (orthrow x) f)"
    if "\<And>y. act_rel (\<lambda>w w'. n w' \<le> n w + m) (f y)" for x :: "json list option" and f
    using that by (cases x) simp_all
  show ?case
    unfolding completion_rounds.simps
    by (rule act_rel_andthen [OF generate_counts [OF assms], where S = "\<lambda>w w'. n w' \<le> n w + m"])
      (auto simp: Let_def intro!: parsed calls Suc.IH)
qed

text \<open>The tool loop of a completion runs the engine at most once more than the configured number of
  rounds, whatever the model writes and the tools answer, and not at all when that number is
  negative.\<close>

theorem generations_bounded:
  assumes "counts_generations n r eng"
  shows "n (snd (completion_rounds r eng (nat (pl_tool_max_rounds (tc_plugins (ro_cfg r)) + 1)) 0
      prompt req res0 w)) \<le> n w + nat (pl_tool_max_rounds (tc_plugins (ro_cfg r)) + 1)"
  using completion_rounds_count [OF assms] by (simp add: act_rel_def)

section \<open>The end of the tool loop\<close>

text \<open>A model that answers every prompt with the same calls, in a world where they can be
  executed.\<close>

lemma stubborn_rounds:
  assumes "\<And>req w. \<exists>w' ps. en_generate eng req w = (w', res, ps)" and "r_error res = Ok"
    and "has_tools r" and "parse_tool_calls (ro_api r) (r_text res) = Some (c # cs)"
    and "\<And>k w. \<exists>rs w'. execute_calls (ro_api r) (tools_of r) [] k (c # cs) w = (Ret rs, w')"
  shows "\<exists>w'. completion_rounds r eng (Suc m) k prompt req res0 w = (Ret (Inr (res, k + Suc m)), w')"
proof (induction m arbitrary: k prompt req res0 w)
  case 0
  obtain w1 ps where g: "en_generate eng req w = (w1, res, ps)" using assms(1) by blast
  have gen: "generate eng req w = (Ret res, w1)" by (simp add: generate_def stepping_def g)
  obtain rs w2 where e: "execute_calls (ro_api r) (tools_of r) [] k (c # cs) w1 = (Ret rs, w2)"
    using assms(5) by blast
  then show ?case
    by (simp add: andthen_Ret [where m = "generate eng req" and s = w, OF gen] assms(2-4) andthen_Ret [where m = "execute_calls (ro_api r) (tools_of r) [] k (c # cs)" and s = w1, OF e] ret_def Let_def del: execute_calls.simps)
next
  case (Suc m)
  obtain w1 ps where g: "en_generate eng req w = (w1, res, ps)" using assms(1) by blast
  have gen: "generate eng req w = (Ret res, w1)" by (simp add: generate_def stepping_def g)
  obtain rs w2 where e: "execute_calls (ro_api r) (tools_of r) [] k (c # cs) w1 = (Ret rs, w2)"
    using assms(5) by blast
  have "completion_rounds r eng (Suc (Suc m)) k prompt req res0 w =
    completion_rounds r eng (Suc m) (k + 1) (prompt @ r_text res @ results_block rs)
      (req\<lparr>g_tokens := en_tokenize eng (prompt @ r_text res @ results_block rs), g_on_token := False\<rparr>) res w2"
    by (subst completion_rounds.simps)
      (simp add: andthen_Ret [where m = "generate eng req" and s = w, OF gen] assms(2-4) andthen_Ret [where m = "execute_calls (ro_api r) (tools_of r) [] k (c # cs)" and s = w1, OF e] Let_def
        del: execute_calls.simps completion_rounds.simps)
  with Suc.IH [of "k + 1"] show ?case by (simp del: completion_rounds.simps)
qed

text \<open>When the model calls tools in every round, the loop ends with the raw call as the answer, after
  executing tools whose results no generation reads.\<close>

theorem exhausted_rounds_leak_call:
  assumes "\<And>req w. \<exists>w' ps. en_generate eng req w = (w', res, ps)" and "r_error res = Ok"
    and "has_tools r" and "parse_tool_calls (ro_api r) (r_text res) = Some (c # cs)"
    and "\<And>k w. \<exists>rs w'. execute_calls (ro_api r) (tools_of r) [] k (c # cs) w = (Ret rs, w')"
    and "0 \<le> rounds"
  shows "\<exists>w'. completion_rounds r eng (nat (rounds + 1)) 0 prompt req blank_result w =
    (Ret (Inr (res, nat (rounds + 1))), w')"
proof -
  have "nat (rounds + 1) = Suc (nat rounds)" using assms(6) by simp
  with stubborn_rounds [OF assms(1-5), of "nat rounds" 0] show ?thesis by simp
qed

text \<open>With a negative number of rounds a completion answers without running the engine, from a result
  whose counters were never set.\<close>

theorem negative_rounds_answer:
  assumes "rounds < 0"
  shows "completion_rounds r eng (nat (rounds + 1)) 0 prompt req blank_result w =
      (Ret (Inr (blank_result, 0)), w) \<and>
    prompt_count eng blank_result = en_indet eng \<and> generated_count eng blank_result = en_indet eng"
  using assms by (simp add: ret_def blank_result_def error_result_def prompt_count_def generated_count_def)

section \<open>A router with a model that only calls tools\<close>

definition call_api :: json_api where
  "call_api = demo_json\<lparr>j_parse :=
     (\<lambda>s. if s = ''call'' then Some (JObj [(''tool_calls'', JArr [write_call])]) else None)\<rparr>"

definition stubborn_result :: generate_result where
  "stubborn_result = blank_result\<lparr>r_text := ''call''\<rparr>"

text \<open>Its engine counts the generations in the rest of the world.\<close>

definition stubborn_engine :: "nat engine" where
  "stubborn_engine = \<lparr>en_arch = ''llama'', en_tokenize = (\<lambda>t. []),
     en_generate = (\<lambda>req w. (w\<lparr>wd_rest := wd_rest w + 1\<rparr>, stubborn_result, [])),
     en_inject = (\<lambda>rid pos ids w. (w, Ok)), en_indet = 7\<rparr>"

definition echo_tool :: "nat world remote_entry" where
  "echo_tool = \<lparr>re_plugin = ''fs'', re_tool = ''write'', re_qualified = ''fs.write'', re_schema = ''{}'',
     re_fn = (\<lambda>w args. (w, \<lparr>tcr_payload = args, tcr_error = Err_Ok, tcr_msg = []\<rparr>))\<rparr>"

definition stubborn_router :: "nat router" where
  "stubborn_router = \<lparr>ro_cfg = default_truellm, ro_api = call_api,
     ro_get = \<lparr>jg_float = (\<lambda>j. None), jg_s32 = (\<lambda>j. None), jg_bool = (\<lambda>j. None)\<rparr>,
     ro_engine = Some stubborn_engine, ro_loaded = (\<lambda>w. True), ro_budget = (\<lambda>w. 4096),
     ro_hooks = Some \<lparr>hk_tools = \<lparr>tg_entries = [], tg_remote = [echo_tool], tg_cache = ''[]''\<rparr>,
       hk_preps = [], hk_gens = []\<rparr>, ro_now = (\<lambda>w. (w, 0))\<rparr>"

definition plain_request :: generate_request where
  "plain_request = \<lparr>g_tokens = [1], g_max_tokens = 16, g_temperature = 1 / 2, g_top_p = 1, g_top_k = 40,
     g_repeat_penalty = 1, g_on_token = False, g_stop_tokens = [], g_stop = [], g_grammar = [],
     g_grammar_lazy = False, g_request_id = [], g_session_id = []\<rparr>"

definition idle_world :: "nat world" where
  "idle_world = \<lparr>wd_host = undefined, wd_ctx = make_context default_truellm ''llama'' 4096 ''req'' 512 (7 / 10),
     wd_rest = 0\<rparr>"

lemma stubborn_tools: "tools_of stubborn_router = \<lparr>tg_entries = [], tg_remote = [echo_tool], tg_cache = ''[]''\<rparr>"
  by (simp add: tools_of_def stubborn_router_def)

lemma stubborn_dispatch:
  "tool_dispatch q args (tools_of stubborn_router) w = Inr (w', tc) \<Longrightarrow> w' = w"
  by (auto simp: tool_dispatch_def tool_lookup_def stubborn_tools echo_tool_def split: if_splits)

lemma stubborn_counts: "counts_generations wd_rest stubborn_router stubborn_engine"
  by (auto simp: counts_generations_def stubborn_engine_def dest: stubborn_dispatch)

lemma stubborn_parts: "call_parts call_api k write_call = Some (''fs.write'', ''{}'', ''call_7'')"
  by (simp add: call_parts_def write_call_def call_json_def call_api_def demo_json_def tool_args_string_def)

lemma stubborn_calls:
  "\<exists>rs w'. execute_calls (ro_api stubborn_router) (tools_of stubborn_router) [] k [write_call] w = (Ret rs, w')"
proof -
  have api: "ro_api stubborn_router = call_api" by (simp add: stubborn_router_def)
  show ?thesis
    by (cases "is_tool_allowed ''fs.write'' (allowed_tools True w)")
      (simp_all add: api execute_call_def stubborn_parts act_defs tool_dispatch_def tool_lookup_def stubborn_tools
        echo_tool_def)
qed

lemma stubborn_parse: "parse_tool_calls (ro_api stubborn_router) (r_text stubborn_result) = Some [write_call]"
  by (simp add: stubborn_router_def stubborn_result_def blank_result_def error_result_def parse_tool_calls_def
      call_blocks_def call_api_def extract_calls_def)

theorem generations_bounded_witness:
  "wd_rest (snd (completion_rounds stubborn_router stubborn_engine
     (nat (pl_tool_max_rounds (tc_plugins (ro_cfg stubborn_router)) + 1)) 0 [] plain_request blank_result idle_world)) \<le> 6"
  using generations_bounded [OF stubborn_counts, of "[]" plain_request blank_result idle_world]
  by (simp add: stubborn_router_def default_truellm_def default_plugin_def idle_world_def)

theorem exhausted_rounds_leak_call_witness:
  "\<exists>w'. completion_rounds stubborn_router stubborn_engine (nat (2 + 1)) 0 [] plain_request blank_result idle_world =
     (Ret (Inr (stubborn_result, nat (2 + 1))), w')"
proof (rule exhausted_rounds_leak_call [OF _ _ _ stubborn_parse])
  show "\<exists>w' ps. en_generate stubborn_engine req w = (w', stubborn_result, ps)" for req w
    by (simp add: stubborn_engine_def)
  show "has_tools stubborn_router"
    by (simp add: has_tools_def stubborn_router_def tool_count_def)
qed (simp_all add: stubborn_calls stubborn_result_def blank_result_def error_result_def del: execute_calls.simps)

theorem negative_rounds_answer_witness:
  "completion_rounds stubborn_router stubborn_engine (nat (-1 + 1)) 0 [] plain_request blank_result idle_world =
     (Ret (Inr (blank_result, 0)), idle_world)"
  using negative_rounds_answer [of "-1" stubborn_router stubborn_engine "[]" plain_request idle_world] by simp

end
