(* ===== verification/Chat_Format.thy ===== *)
theory Chat_Format
  imports Plugin_Abi
begin

text \<open>
  \<open>src/server/chat_format.cpp\<close>, the wrapper around the chat templates of llama.cpp's common library. The
  library is the parameter \<open>lib\<close>, with values of its own types in \<open>'c\<close>; an exception it throws is
  \<^const>\<open>None\<close>.
\<close>

section \<open>The library\<close>

datatype reasoning_format = Reasoning_None | Reasoning_Auto | Reasoning_Named string

record chat_call =
  ch_id :: string
  ch_name :: string
  ch_args :: string

record chat_msg =
  cm_content :: string
  cm_reasoning :: string
  cm_calls :: "chat_call list"

record msg_diff =
  df_reasoning :: string
  df_content :: string
  df_call :: "(nat \<times> chat_call) option"

record 'c chat_inputs =
  ci_messages :: 'c
  ci_tools :: "'c list"
  ci_choice :: "'c option"
  ci_schema :: string
  ci_thinking :: bool
  ci_reasoning :: reasoning_format

record 'c chat_params =
  ct_prompt :: string
  ct_grammar :: string
  ct_lazy :: bool
  ct_stops :: "string list"
  ct_parser :: string
  ct_rest :: 'c

record 'c parser_params =
  pq_base :: 'c
  pq_reasoning :: reasoning_format
  pq_in_content :: bool
  pq_calls :: bool

record 'c common_lib =
  lb_reasoning :: "string \<Rightarrow> reasoning_format option"
  lb_init :: "string \<Rightarrow> string \<Rightarrow> string \<Rightarrow> 'c option option"
  lb_messages :: "json \<Rightarrow> 'c option"
  lb_tools :: "json \<Rightarrow> 'c list option"
  lb_choice :: "string \<Rightarrow> 'c option"
  lb_apply :: "'c \<Rightarrow> 'c chat_inputs \<Rightarrow> 'c chat_params option"
  lb_load :: "'c \<Rightarrow> string \<Rightarrow> 'c option"
  lb_parse :: "'c parser_params \<Rightarrow> bool \<Rightarrow> string \<Rightarrow> chat_msg option"
  lb_empty :: "chat_msg \<Rightarrow> bool"
  lb_set_ids :: "string list \<Rightarrow> (nat \<Rightarrow> string) \<Rightarrow> nat \<Rightarrow> chat_msg \<Rightarrow> chat_msg \<times> string list \<times> nat"
  lb_diffs :: "chat_msg \<Rightarrow> chat_msg \<Rightarrow> msg_diff list option"
  lb_grammar :: "json \<Rightarrow> string option"

text \<open>\<open>lb_init\<close> gives \<^term>\<open>Some None\<close> for a null pointer. \<open>lb_set_ids\<close> calls the generator of ids with a
  counter and gives the message with ids, the ids known then and the counter.\<close>

section \<open>Parser\<close>

definition empty_msg :: chat_msg where
  "empty_msg = \<lparr>cm_content = [], cm_reasoning = [], cm_calls = []\<rparr>"

record 'c chat_parser =
  ps_params :: "'c parser_params"
  ps_prev :: chat_msg
  ps_ids :: "string list"
  ps_next :: nat

record call_delta =
  cd_index :: nat
  cd_id :: string
  cd_name :: string
  cd_args :: string

record stream_delta =
  sd_content :: string
  sd_reasoning :: string
  sd_calls :: "call_delta list"

definition empty_delta :: stream_delta where
  "empty_delta = \<lparr>sd_content = [], sd_reasoning = [], sd_calls = []\<rparr>"

definition add_diff :: "stream_delta \<Rightarrow> msg_diff \<Rightarrow> stream_delta" where
  "add_diff out d =
     out\<lparr>sd_reasoning := sd_reasoning out @ df_reasoning d, sd_content := sd_content out @ df_content d,
       sd_calls := sd_calls out @ (case df_call d of
         None \<Rightarrow> []
       | Some (i, c) \<Rightarrow> [\<lparr>cd_index = i, cd_id = ch_id c, cd_name = ch_name c, cd_args = ch_args c\<rparr>])\<rparr>"

definition call_id_text :: "nat \<Rightarrow> string" where
  "call_id_text n = ''call_'' @ show_nat n"

text \<open>\<open>push\<close>: ids assigned before the differences fail are kept, the last parsed message is not.\<close>

definition parser_push :: "'c common_lib \<Rightarrow> 'c chat_parser \<Rightarrow> string \<Rightarrow> 'c chat_parser \<times> stream_delta" where
  "parser_push lib p acc =
     (case lb_parse lib (ps_params p) True acc of
        None \<Rightarrow> (p, empty_delta)
      | Some cur \<Rightarrow>
          if lb_empty lib cur then (p, empty_delta)
          else let (cur', ids, next_id) = lb_set_ids lib (ps_ids p) call_id_text (ps_next p) cur;
                   p1 = p\<lparr>ps_ids := ids, ps_next := next_id\<rparr>
               in (case lb_diffs lib (ps_prev p) cur' of
                     None \<Rightarrow> (p1, empty_delta)
                   | Some ds \<Rightarrow> (p1\<lparr>ps_prev := cur'\<rparr>, foldl add_diff empty_delta ds)))"

definition parser_finish :: "'c common_lib \<Rightarrow> 'c chat_parser \<Rightarrow> string \<Rightarrow> chat_msg" where
  "parser_finish lib p t =
     (case lb_parse lib (ps_params p) False t of
        None \<Rightarrow> empty_msg\<lparr>cm_content := t\<rparr>
      | Some m \<Rightarrow>
          \<lparr>cm_content = cm_content m, cm_reasoning = cm_reasoning m,
           cm_calls = map (\<lambda>(i, c). c\<lparr>ch_id := (if ch_id c = [] then call_id_text i else ch_id c)\<rparr>)
             (enumerate 0 (cm_calls m))\<rparr>)"

section \<open>Formatter\<close>

record 'c formatter =
  fo_templates :: "'c option"
  fo_reasoning :: reasoning_format

definition reasoning_from_string :: "'c common_lib \<Rightarrow> string \<Rightarrow> reasoning_format" where
  "reasoning_from_string lib s =
     (if s = [] \<or> s = ''none'' then Reasoning_None
      else (case lb_reasoning lib s of None \<Rightarrow> Reasoning_Auto | Some f \<Rightarrow> f))"

definition formatter_init ::
  "'c common_lib \<Rightarrow> string \<Rightarrow> string \<Rightarrow> string \<Rightarrow> string \<Rightarrow> 'c formatter \<times> bool" where
  "formatter_init lib tmpl bos eos reasoning =
     (case lb_init lib (if tmpl = [] then ''chatml'' else tmpl) bos eos of
        Some (Some t) \<Rightarrow> (\<lparr>fo_templates = Some t, fo_reasoning = reasoning_from_string lib reasoning\<rparr>, True)
      | _ \<Rightarrow> (\<lparr>fo_templates = None, fo_reasoning = reasoning_from_string lib reasoning\<rparr>, False))"

definition formatter_valid :: "'c formatter \<Rightarrow> bool" where
  "formatter_valid f \<longleftrightarrow> fo_templates f \<noteq> None"

record applied =
  ap_prompt :: string
  ap_grammar :: string
  ap_lazy :: bool
  ap_stops :: "string list"
  ap_valid :: bool

definition not_applied :: applied where
  "not_applied = \<lparr>ap_prompt = [], ap_grammar = [], ap_lazy = False, ap_stops = [], ap_valid = False\<rparr>"

text \<open>The tools and the choice of \<open>apply\<close>: empty, \<open>[]\<close> and \<open>null\<close> texts mean no tools.\<close>

definition apply_tools :: "json_api \<Rightarrow> 'c common_lib \<Rightarrow> string \<Rightarrow> string \<Rightarrow> ('c list \<times> 'c option) option" where
  "apply_tools api lib tools choice =
     (if tools = [] \<or> tools = ''[]'' \<or> tools = ''null'' then Some ([], None)
      else (case Option.bind (j_parse api tools) (lb_tools lib) of
              None \<Rightarrow> None
            | Some ts \<Rightarrow>
                if choice = [] then Some (ts, None)
                else map_option (\<lambda>c. (ts, Some c)) (lb_choice lib choice)))"

definition apply_inputs ::
  "json_api \<Rightarrow> 'c common_lib \<Rightarrow> 'c formatter \<Rightarrow> string \<Rightarrow> string \<Rightarrow> string \<Rightarrow> string \<Rightarrow> bool \<Rightarrow>
   'c chat_inputs option" where
  "apply_inputs api lib f msgs tools choice schema thinking =
     (case (Option.bind (j_parse api msgs) (lb_messages lib), apply_tools api lib tools choice) of
        (Some ms, Some (ts, ch)) \<Rightarrow>
          Some \<lparr>ci_messages = ms, ci_tools = ts, ci_choice = ch, ci_schema = schema, ci_thinking = thinking,
            ci_reasoning = fo_reasoning f\<rparr>
      | _ \<Rightarrow> None)"

text \<open>A grammar parser that fails to load leaves the prompt but makes the result invalid, and leaves the
  parser's history as it was.\<close>

definition formatter_apply ::
  "json_api \<Rightarrow> 'c common_lib \<Rightarrow> 'c formatter \<Rightarrow> string \<Rightarrow> string \<Rightarrow> string \<Rightarrow> string \<Rightarrow> bool \<Rightarrow> 'c chat_parser \<Rightarrow>
   'c chat_parser \<times> applied" where
  "formatter_apply api lib f msgs tools choice schema thinking p =
     (case fo_templates f of
        None \<Rightarrow> (p, not_applied)
      | Some t \<Rightarrow>
          (case apply_inputs api lib f msgs tools choice schema thinking of
             None \<Rightarrow> (p, not_applied)
           | Some inp \<Rightarrow>
               (case lb_apply lib t inp of
                  None \<Rightarrow> (p, not_applied)
                | Some cp \<Rightarrow>
                    (let res = \<lparr>ap_prompt = ct_prompt cp, ap_grammar = ct_grammar cp, ap_lazy = ct_lazy cp,
                                ap_stops = ct_stops cp, ap_valid = True\<rparr>;
                         q = \<lparr>pq_base = ct_rest cp, pq_reasoning = fo_reasoning f, pq_in_content = False,
                              pq_calls = ci_tools inp \<noteq> []\<rparr>;
                         fresh = (\<lambda>q. \<lparr>ps_params = q, ps_prev = empty_msg, ps_ids = [], ps_next = 0\<rparr>)
                     in if ct_parser cp = [] then (fresh q, res)
                        else (case lb_load lib (pq_base q) (ct_parser cp) of
                                None \<Rightarrow> (p\<lparr>ps_params := q\<rparr>, res\<lparr>ap_valid := False\<rparr>)
                              | Some b \<Rightarrow> (fresh (q\<lparr>pq_base := b\<rparr>), res))))))"

definition schema_to_grammar :: "json_api \<Rightarrow> 'c common_lib \<Rightarrow> string \<Rightarrow> string" where
  "schema_to_grammar api lib s =
     (if s = [] then []
      else (case Option.bind (j_parse api s) (lb_grammar lib) of None \<Rightarrow> [] | Some g \<Rightarrow> g))"

section \<open>Streams of a parser\<close>

fun push_all :: "'c common_lib \<Rightarrow> 'c chat_parser \<Rightarrow> string list \<Rightarrow> 'c chat_parser \<times> stream_delta list" where
  "push_all lib p [] = (p, [])"
| "push_all lib p (t # ts) =
     (let (p', d) = parser_push lib p t; (p'', ds) = push_all lib p' ts in (p'', d # ds))"

text \<open>What the library promises of differences: applied to the previous message they give the current
  one.\<close>

definition diffs_ok :: "'c common_lib \<Rightarrow> bool" where
  "diffs_ok lib \<longleftrightarrow>
     (\<forall>prev cur ds. lb_diffs lib prev cur = Some ds \<longrightarrow>
        cm_content cur = cm_content prev @ concat (map df_content ds) \<and>
        cm_reasoning cur = cm_reasoning prev @ concat (map df_reasoning ds))"

lemma fold_diffs:
  "sd_content (foldl add_diff out ds) = sd_content out @ concat (map df_content ds)"
  "sd_reasoning (foldl add_diff out ds) = sd_reasoning out @ concat (map df_reasoning ds)"
  by (induction ds arbitrary: out) (simp_all add: add_diff_def)

lemma push_content:
  assumes "diffs_ok lib" and "parser_push lib p t = (p', d)"
  shows "cm_content (ps_prev p') = cm_content (ps_prev p) @ sd_content d \<and>
    cm_reasoning (ps_prev p') = cm_reasoning (ps_prev p) @ sd_reasoning d \<and> ps_params p' = ps_params p"
  using assms
  by (auto simp: parser_push_def diffs_ok_def fold_diffs empty_delta_def Let_def
      split: option.splits if_splits prod.splits)

lemma push_all_content:
  assumes "diffs_ok lib"
  shows "push_all lib p ts = (p', ds) \<Longrightarrow>
    cm_content (ps_prev p') = cm_content (ps_prev p) @ concat (map sd_content ds) \<and>
    cm_reasoning (ps_prev p') = cm_reasoning (ps_prev p) @ concat (map sd_reasoning ds) \<and>
    ps_params p' = ps_params p"
proof (induction ts arbitrary: p ds)
  case (Cons t ts)
  obtain p1 d where d: "parser_push lib p t = (p1, d)" by fastforce
  obtain p2 es where es: "push_all lib p1 ts = (p2, es)" by fastforce
  from Cons.prems d es have "p' = p2" "ds = d # es" by auto
  with push_content [OF assms d] Cons.IH [OF es [folded \<open>p' = p2\<close>]] show ?case by simp
qed simp

text \<open>Whatever pushes of a stream fail to parse, the answer and reasoning texts sent so far are
  together exactly those of the last message the parser accepted, and the final parse of the text is that
  of a parser nothing was pushed to.\<close>

theorem pushed_deltas_concat:
  assumes "diffs_ok lib" and "formatter_apply api lib f msgs tools choice schema thinking p0 = (p, a)"
    and "ap_valid a" and "push_all lib p ts = (p', ds)"
  shows "cm_content (ps_prev p') = concat (map sd_content ds) \<and>
    cm_reasoning (ps_prev p') = concat (map sd_reasoning ds) \<and>
    parser_finish lib p' t = parser_finish lib p t"
proof -
  have "ps_prev p = empty_msg"
    using assms(2,3) by (auto simp: formatter_apply_def not_applied_def Let_def split: option.splits if_splits)
  with push_all_content [OF assms(1,4)] show ?thesis by (simp add: empty_msg_def parser_finish_def)
qed

text \<open>A library whose templates echo and whose parser takes all text as the answer.\<close>

definition echo_lib :: "unit common_lib" where
  "echo_lib = \<lparr>lb_reasoning = (\<lambda>s. None), lb_init = (\<lambda>t b e. Some (Some ())), lb_messages = (\<lambda>j. Some ()),
     lb_tools = (\<lambda>j. None), lb_choice = (\<lambda>s. None),
     lb_apply = (\<lambda>t inp. Some \<lparr>ct_prompt = ''p'', ct_grammar = [], ct_lazy = False, ct_stops = [],
       ct_parser = [], ct_rest = ()\<rparr>),
     lb_load = (\<lambda>c s. None), lb_parse = (\<lambda>q partial t. Some (empty_msg\<lparr>cm_content := t\<rparr>)),
     lb_empty = (\<lambda>m. cm_content m = []), lb_set_ids = (\<lambda>ids gen n m. (m, ids, n)),
     lb_diffs = (\<lambda>prev cur. if cm_reasoning prev = cm_reasoning cur \<and>
         take (length (cm_content prev)) (cm_content cur) = cm_content prev
       then Some [\<lparr>df_reasoning = [], df_content = drop (length (cm_content prev)) (cm_content cur),
         df_call = None\<rparr>]
       else None), lb_grammar = (\<lambda>j. None)\<rparr>"

definition echo_parser :: "unit chat_parser" where
  "echo_parser = \<lparr>ps_params = \<lparr>pq_base = (), pq_reasoning = Reasoning_None, pq_in_content = False, pq_calls = False\<rparr>,
     ps_prev = empty_msg, ps_ids = [], ps_next = 0\<rparr>"

lemma echo_diffs: "diffs_ok echo_lib"
  unfolding diffs_ok_def echo_lib_def by (auto split: if_splits) (metis append_take_drop_id)

theorem pushed_deltas_concat_witness:
  "concat (map sd_content (snd (push_all echo_lib echo_parser [''a'', ''ab'', ''x'', ''abc'']))) = ''abc''"
proof -
  obtain p a where pa: "formatter_apply demo_json echo_lib \<lparr>fo_templates = Some (), fo_reasoning = Reasoning_None\<rparr>
      ''m'' [] [] [] False echo_parser = (p, a)" by fastforce
  then have p: "p = echo_parser" "ap_valid a"
    by (auto simp: formatter_apply_def apply_inputs_def apply_tools_def demo_json_def echo_lib_def echo_parser_def
        Let_def)
  obtain p' ds where ds: "push_all echo_lib p [''a'', ''ab'', ''x'', ''abc''] = (p', ds)" by fastforce
  have "cm_content (ps_prev p') = ''abc''"
    using ds unfolding p(1)
    by (auto simp: parser_push_def echo_lib_def echo_parser_def empty_msg_def Let_def)
  with pushed_deltas_concat [OF echo_diffs pa p(2) ds] ds p(1) show ?thesis by simp
qed

end
