(* ===== verification/Chat_Request.thy ===== *)
theory Chat_Request
  imports Completions Chat_Format
begin

text \<open>
  \<open>POST /v1/chat/completions\<close> of \<open>src/server/openai_router.cpp\<close>, up to the generation: the reads of the body,
  the prompt, the injection of tool schemas into the system message, and the reaction to a prompt that does
  not fit the context.
\<close>

section \<open>The chat router\<close>

text \<open>Besides the router: the template library and the formatter made from the loaded model, a parser as
  constructed, \<open>dump(2)\<close>, the product of a token budget and a fraction as the code computes it in floating
  point and truncates it, the texts a generator passed to its callback between two worlds, and the text of
  an exception.\<close>

record ('v, 'c) chat_router =
  cr_base :: "'v router"
  cr_lib :: "'c common_lib"
  cr_fmt :: "'c formatter"
  cr_blank :: "'c chat_parser"
  cr_pretty :: "json \<Rightarrow> string"
  cr_scale :: "int \<Rightarrow> real \<Rightarrow> int"
  cr_streamed :: "'v world \<Rightarrow> 'v world \<Rightarrow> string list"
  cr_what :: string

text \<open>\<open>ensure_chat_formatter\<close>: whether it was tried, and the formatter.\<close>

definition ensure_chat_formatter ::
  "'c common_lib \<Rightarrow> truellm_config \<Rightarrow> (string \<times> string \<times> string) option \<Rightarrow> bool \<times> 'c formatter \<Rightarrow> bool \<times> 'c formatter" where
  "ensure_chat_formatter lib cfg model_texts st =
     (if fst st then st
      else (case model_texts of
              None \<Rightarrow> (True, snd st)
            | Some (tmpl, bos, eos) \<Rightarrow>
                (True, fst (formatter_init lib tmpl bos eos (rs_format (inf_reasoning (tc_inference cfg)))))))"

definition reasoning_active :: "('v, 'c) chat_router \<Rightarrow> bool" where
  "reasoning_active R \<longleftrightarrow> formatter_valid (cr_fmt R) \<and>
     rs_format (inf_reasoning (tc_inference (ro_cfg (cr_base R)))) \<noteq> ''none''"

section \<open>Reads of the body\<close>

text \<open>\<open>empty()\<close> of a JSON value.\<close>

fun j_empty :: "json \<Rightarrow> bool" where
  "j_empty JNull \<longleftrightarrow> True"
| "j_empty (JArr vs) \<longleftrightarrow> vs = []"
| "j_empty (JObj kvs) \<longleftrightarrow> kvs = []"
| "j_empty _ \<longleftrightarrow> False"

record chat_request =
  cq_messages :: json
  cq_max_tokens :: int
  cq_temperature :: real
  cq_stream :: bool

definition read_chat :: "'v router \<Rightarrow> json \<Rightarrow> chat_request option" where
  "read_chat r body =
     (case (j_value body ''messages'' (JArr []),
            body_get (jg_s32 (ro_get r)) body ''max_tokens'' (smp_max_tokens (tc_sampling (ro_cfg r))),
            body_get (jg_float (ro_get r)) body ''temperature'' (smp_temperature (tc_sampling (ro_cfg r))),
            body_get (jg_bool (ro_get r)) body ''stream'' False) of
        (Some ms, Some mt, Some t, Some s) \<Rightarrow>
          Some \<lparr>cq_messages = ms, cq_max_tokens = mt, cq_temperature = t, cq_stream = s\<rparr>
      | _ \<Rightarrow> None)"

text \<open>\<open>client_tools\<close>: the flag of the extension object, whose reading may fail silently, or an array of tools
  in the body.\<close>

definition client_tools_flag :: "json_get \<Rightarrow> json \<Rightarrow> bool" where
  "client_tools_flag jg body =
     (case path_entry body [''extra_body'', ''truellm''] of
        Some (JObj kvs) \<Rightarrow> (case body_get (jg_bool jg) (JObj kvs) ''client_tools'' False of Some b \<Rightarrow> b | None \<Rightarrow> False)
      | _ \<Rightarrow> False)"

definition client_tools :: "json_get \<Rightarrow> json \<Rightarrow> bool" where
  "client_tools jg body \<longleftrightarrow>
     (case j_entry body ''tools'' of Some (JArr (t # ts)) \<Rightarrow> True | _ \<Rightarrow> client_tools_flag jg body)"

definition response_schema :: "json_api \<Rightarrow> json \<Rightarrow> string" where
  "response_schema api body =
     (case j_entry body ''response_format'' of
        Some (JObj kvs) \<Rightarrow>
          (case (j_str api (JObj kvs) ''type'' [], path_entry (JObj kvs) [''json_schema'', ''schema'']) of
             (Some t, Some s) \<Rightarrow> if t = ''json_schema'' then j_dump api s else []
           | _ \<Rightarrow> [])
      | _ \<Rightarrow> [])"

text \<open>The session of the request: the three channels in the order they are tried.\<close>

definition pick_session :: "json_api \<Rightarrow> json \<Rightarrow> http_request \<Rightarrow> string" where
  "pick_session api body req =
     (case path_entry body [''truellm_metadata'', ''session.id''] of
        Some (JStr s) \<Rightarrow> s
      | _ \<Rightarrow>
          (case path_entry body [''extra_body'', ''truellm'', ''context_metadata'', ''session.id''] of
             Some (JStr s) \<Rightarrow> s
           | _ \<Rightarrow>
               (case (if rq_header req metadata_header = [] then None
                      else Option.bind (j_parse api (rq_header req metadata_header)) (\<lambda>j. j_entry j ''session.id'')) of
                  Some (JStr s) \<Rightarrow> s
                | _ \<Rightarrow> [])))"

text \<open>Whether the client asked for tools.\<close>

definition choice_text :: "json \<Rightarrow> string option" where
  "choice_text body =
     map_option (\<lambda>v. case v of JStr s \<Rightarrow> s | _ \<Rightarrow> ''auto'') (j_value body ''tool_choice'' (JStr ''auto''))"

definition client_requested_tools :: "json \<Rightarrow> bool option" where
  "client_requested_tools body =
     (case (choice_text body, j_value body ''tools'' (JArr [])) of
        (Some tc, Some ct) \<Rightarrow> Some (\<not> j_empty ct \<or> tc = ''required'' \<or> tc = ''any'')
      | _ \<Rightarrow> None)"

section \<open>Prompt\<close>

definition chat_template_name :: "'v router \<Rightarrow> 'v engine \<Rightarrow> string" where
  "chat_template_name r eng = resolve_template (md_chat_template (tc_model (ro_cfg r))) (en_arch eng)"

definition thinking :: "('v, 'c) chat_router \<Rightarrow> bool" where
  "thinking R = rs_enable_thinking (inf_reasoning (tc_inference (ro_cfg (cr_base R))))"

definition render :: "('v, 'c) chat_router \<Rightarrow> 'v engine \<Rightarrow> json \<Rightarrow> string option" where
  "render R eng msgs =
     (let api = ro_api (cr_base R);
          a = snd (formatter_apply api (cr_lib R) (cr_fmt R) (j_dump api msgs) [] [] [] (thinking R) (cr_blank R))
      in if ap_valid a then Some (ap_prompt a)
         else apply_chat_template api msgs (chat_template_name (cr_base R) eng))"

text \<open>The first rendering, which configures the parser of the reply.\<close>

definition first_prompt ::
  "('v, 'c) chat_router \<Rightarrow> 'v engine \<Rightarrow> json \<Rightarrow> string \<Rightarrow> ('c chat_parser \<times> string \<times> string \<times> string list) option" where
  "first_prompt R eng msgs schema =
     (let api = ro_api (cr_base R);
          (p, a) = formatter_apply api (cr_lib R) (cr_fmt R) (j_dump api msgs) [] [] schema (thinking R) (cr_blank R);
          (prompt, grammar, stops) =
            (if ap_valid a then (ap_prompt a, ap_grammar a, ap_stops a) else ([], [], []))
      in if prompt = []
         then map_option (\<lambda>t. (p, t, grammar, stops))
                (apply_chat_template api msgs (chat_template_name (cr_base R) eng))
         else Some (p, prompt, grammar, stops))"

text \<open>The request to the engine, without its id.\<close>

definition chat_generation ::
  "('v, 'c) chat_router \<Rightarrow> 'v engine \<Rightarrow> http_request \<Rightarrow> json \<Rightarrow> chat_request \<Rightarrow>
   ('c chat_parser \<times> generate_request) option" where
  "chat_generation R eng req body cq =
     (let r = cr_base R
      in case first_prompt R eng (cq_messages cq) (response_schema (ro_api r) body) of
           None \<Rightarrow> None
         | Some (p, prompt, grammar, stops) \<Rightarrow>
             map_option (\<lambda>top_p. (p,
                 \<lparr>g_tokens = en_tokenize eng prompt, g_max_tokens = cq_max_tokens cq,
                  g_temperature = cq_temperature cq, g_top_p = top_p, g_top_k = 40, g_repeat_penalty = 11 / 10,
                  g_on_token = False, g_stop_tokens = [],
                  g_stop = stop_texts body @ filter (\<lambda>s. s \<noteq> []) stops, g_grammar = grammar,
                  g_grammar_lazy = False, g_request_id = [], g_session_id = pick_session (ro_api r) body req\<rparr>))
               (body_get (jg_float (ro_get r)) body ''top_p'' (smp_top_p (tc_sampling (ro_cfg r)))))"

section \<open>Injecting tool schemas\<close>

fun j_set :: "json \<Rightarrow> string \<Rightarrow> json \<Rightarrow> json" where
  "j_set (JObj kvs) k v = JObj (AList.update k v kvs)"
| "j_set j k v = j"

text \<open>The choice the code acts on, and the tool it names.\<close>

definition tool_choice :: "json_api \<Rightarrow> json \<Rightarrow> (string \<times> string) option" where
  "tool_choice api body =
     map_option (\<lambda>(c, f). (if c = [] then ''auto'' else c, f))
       (case j_entry body ''tool_choice'' of
          Some (JStr s) \<Rightarrow> Some (s, [])
        | Some (JObj kvs) \<Rightarrow>
            (case j_str api (JObj kvs) ''type'' [] of
               None \<Rightarrow> None
             | Some tt \<Rightarrow>
                 if tt = ''function''
                 then map_option (\<lambda>n. (''required'', n))
                        (Option.bind (j_value (JObj kvs) ''function'' (JObj [])) (\<lambda>fn. j_str api fn ''name'' []))
                 else if tt \<in> {''required'', ''auto'', ''none'', ''any''}
                 then Some (if tt = ''any'' then ''required'' else tt, [])
                 else Some (''auto'', []))
        | _ \<Rightarrow> Some (''auto'', []))"

definition short_tool_name :: "string \<Rightarrow> string option" where
  "short_tool_name q =
     (case find_back (\<lambda>c. c = CHR ''.'') q (length q) of None \<Rightarrow> None | Some i \<Rightarrow> Some (drop (i + 1) q))"

definition strip_plugin_prefix :: "json_api \<Rightarrow> json \<Rightarrow> json option" where
  "strip_plugin_prefix api t =
     (case j_entry t ''function'' of
        Some (JObj fn) \<Rightarrow>
          (case j_str api (JObj fn) ''name'' [] of
             None \<Rightarrow> None
           | Some q \<Rightarrow>
               (case short_tool_name q of
                  None \<Rightarrow> Some t
                | Some n \<Rightarrow> Some (j_set t ''function'' (j_set (JObj fn) ''name'' (JStr n)))))
      | _ \<Rightarrow> Some t)"

fun those_of :: "'a option list \<Rightarrow> 'a list option" where
  "those_of [] = Some []"
| "those_of (x # xs) = (case (x, those_of xs) of (Some y, Some ys) \<Rightarrow> Some (y # ys) | _ \<Rightarrow> None)"

definition all_schemas :: "'v router \<Rightarrow> json \<Rightarrow> json list option" where
  "all_schemas r body =
     (case j_value body ''tools'' (JArr []) of
        None \<Rightarrow> None
      | Some ct \<Rightarrow>
          if \<not> j_empty ct then Some (filter is_obj (json_elems ct))
          else if has_tools r then
            (let s = tg_cache (tools_of r)
             in if s \<noteq> [] \<and> s \<noteq> ''[]''
                then (case j_parse (ro_api r) s of
                        Some (JArr ts) \<Rightarrow> those_of (map (strip_plugin_prefix (ro_api r)) ts)
                      | _ \<Rightarrow> Some [])
                else Some [])
          else Some [])"

definition two_nl :: string where
  "two_nl = nl @ nl"

definition must_call_any :: string where
  "must_call_any = two_nl @ ''IMPORTANT: You MUST call one of the above tools to answer this request.  Do not reply with plain text until after you have called a tool and received its result.''"

definition must_call_named :: "string \<Rightarrow> string" where
  "must_call_named tool = two_nl @ ''IMPORTANT: You MUST call the tool '' @ quote tool @
     '' to answer this request '' @ [CHR 0xE2, CHR 0x80, CHR 0x94] @
     '' that exact tool, not any other.  Do not reply with plain text until you have called it and received its result.''"

definition tool_instruction :: "('v, 'c) chat_router \<Rightarrow> json list \<Rightarrow> string \<times> string \<Rightarrow> string" where
  "tool_instruction R schemas choice =
     ''You have access to the following tools.'' @ two_nl @
     ''To call a tool, output ONLY this JSON (no surrounding text):'' @ nl @
     ''{'' @ quote ''tool_calls'' @ '':[{'' @ quote ''id'' @ '':'' @ quote ''call_0'' @ '','' @ quote ''type'' @ '':'' @
     quote ''function'' @ '','' @ quote ''function'' @ '':{'' @ quote ''name'' @ '':'' @ quote ''TOOL_NAME'' @ '','' @
     quote ''arguments'' @ '':{'' @ quote ''param'' @ '':'' @ quote ''value'' @ ''}}}]}'' @ two_nl @
     ''Available tools (OpenAI format):'' @ nl @ cr_pretty R (JArr schemas) @ two_nl @
     ''Only use the tool names listed above. Do not use code_execution, python, browser, or any other tool not explicitly listed. Do not produce error messages about missing tools.'' @
     (if fst choice = ''required''
      then if snd choice \<noteq> [] then must_call_named (snd choice) else must_call_any
      else [])"

text \<open>The instruction goes in front of the first system message, or into a new one.\<close>

fun merge_system :: "json_api \<Rightarrow> string \<Rightarrow> json list \<Rightarrow> (json list \<times> bool) option" where
  "merge_system api instr [] = Some ([], False)"
| "merge_system api instr (m # ms) =
     (case j_str api m ''role'' [] of
        None \<Rightarrow> None
      | Some role \<Rightarrow>
          if role = ''system''
          then map_option (\<lambda>c. (j_set m ''content'' (JStr (instr @ two_nl @ c)) # ms, True)) (j_str api m ''content'' [])
          else map_option (\<lambda>(ms', merged). (m # ms', merged)) (merge_system api instr ms))"

fun with_elems :: "json \<Rightarrow> json list \<Rightarrow> json" where
  "with_elems (JArr _) xs = JArr xs"
| "with_elems (JObj kvs) xs = JObj (zip (map fst kvs) xs)"
| "with_elems JNull xs = JNull"
| "with_elems v xs = (case xs of [x] \<Rightarrow> x | _ \<Rightarrow> v)"

definition inject_instruction :: "json_api \<Rightarrow> string \<Rightarrow> json \<Rightarrow> json option" where
  "inject_instruction api instr msgs =
     (case merge_system api instr (json_elems msgs) of
        None \<Rightarrow> None
      | Some (ms, True) \<Rightarrow> Some (with_elems msgs ms)
      | Some (ms, False) \<Rightarrow>
          Some (JArr (JObj [(''role'', JStr ''system''), (''content'', JStr instr)] # json_elems msgs)))"

text \<open>The messages and tokens after the injection, and whether it happened.\<close>

definition inject_tools ::
  "('v, 'c) chat_router \<Rightarrow> 'v engine \<Rightarrow> json \<Rightarrow> json \<Rightarrow> int list \<Rightarrow> (json \<times> int list \<times> bool) option" where
  "inject_tools R eng body msgs tokens =
     (let r = cr_base R
      in case (tool_choice (ro_api r) body, all_schemas r body) of
           (Some choice, Some schemas) \<Rightarrow>
             (if schemas = [] then Some (msgs, tokens, False)
              else (case inject_instruction (ro_api r) (tool_instruction R schemas choice) msgs of
                      None \<Rightarrow> None
                    | Some msgs' \<Rightarrow>
                        map_option (\<lambda>t. (msgs', en_tokenize eng t, True)) (render R eng msgs')))
         | _ \<Rightarrow> None)"

section \<open>Overflow\<close>

definition context_budget :: "truellm_config \<Rightarrow> int \<Rightarrow> int" where
  "context_budget cfg max_tokens =
     (if 0 < inf_context_size (tc_inference cfg)
      then inf_context_size (tc_inference cfg) - max max_tokens 0 else 0)"

definition overflows :: "truellm_config \<Rightarrow> int \<Rightarrow> int list \<Rightarrow> bool" where
  "overflows cfg max_tokens tokens \<longleftrightarrow>
     0 < inf_context_size (tc_inference cfg) \<and> int (length tokens) > context_budget cfg max_tokens"

definition mark_overflow :: "int \<Rightarrow> int \<Rightarrow> (string \<rightharpoonup> string) \<Rightarrow> (string \<rightharpoonup> string)" where
  "mark_overflow n budget m =
     m(''rlm_eligible'' \<mapsto> ''1'', ''overflow_tokens'' \<mapsto> show_int n, ''context_budget'' \<mapsto> show_int budget)"

definition gens_of :: "'v router \<Rightarrow> 'v world gen_entry list" where
  "gens_of r = (case ro_hooks r of None \<Rightarrow> [] | Some h \<Rightarrow> hk_gens h)"

text \<open>An overflowing prompt is handed to the generators without the injected schemas.\<close>

definition react_to_overflow ::
  "('v, 'c) chat_router \<Rightarrow> 'v engine \<Rightarrow> chat_request \<Rightarrow> bool \<Rightarrow> json \<times> int list \<times> bool \<Rightarrow> ('v world, json \<times> int list) act" where
  "react_to_overflow R eng cq requested injection =
     (case injection of (msgs, tokens, injected) \<Rightarrow>
        let r = cr_base R; cfg = ro_cfg r
        in if requested \<or> \<not> has_generators (gens_of r) \<or> \<not> overflows cfg (cq_max_tokens cq) tokens
           then ret (msgs, tokens)
           else andthen (changing (\<lambda>w. w\<lparr>wd_ctx := (wd_ctx w)\<lparr>cx_metadata :=
                    mark_overflow (int (length tokens)) (context_budget cfg (cq_max_tokens cq))
                      (cx_metadata (wd_ctx w))\<rparr>\<rparr>)) (\<lambda>_.
                  if injected
                  then andthen (orthrow (render R eng (cq_messages cq)))
                         (\<lambda>t. ret (cq_messages cq, en_tokenize eng t))
                  else ret (msgs, tokens)))"

section \<open>One system message\<close>

definition is_system :: "json \<Rightarrow> bool" where
  "is_system m \<longleftrightarrow> j_entry m ''role'' = Some (JStr ''system'')"

definition role_given :: "json \<Rightarrow> bool" where
  "role_given m \<longleftrightarrow> (\<exists>kvs s. m = JObj kvs \<and> map_of kvs ''role'' = Some (JStr s))"

lemma role_of_given:
  assumes "json_laws api" and "role_given m"
  shows "j_str api m ''role'' d = Some ''system'' \<longleftrightarrow> is_system m" and "j_str api m ''role'' d \<noteq> None"
proof -
  obtain kvs s where "m = JObj kvs" "map_of kvs ''role'' = Some (JStr s)" using assms(2) by (auto simp: role_given_def)
  moreover then have "j_str api m ''role'' d = Some s" using assms(1) by (simp add: json_laws_def)
  ultimately show "j_str api m ''role'' d = Some ''system'' \<longleftrightarrow> is_system m" "j_str api m ''role'' d \<noteq> None"
    by (auto simp: is_system_def)
qed

lemma is_system_content [simp]: "is_system (j_set m ''content'' v) \<longleftrightarrow> is_system m"
  by (cases m) (simp_all add: is_system_def)

lemma merge_system_shape:
  assumes "json_laws api"
  shows "\<forall>m \<in> set ms. role_given m \<Longrightarrow> merge_system api instr ms = Some (ms', merged) \<Longrightarrow>
    map is_system ms' = map is_system ms \<and> filter (\<lambda>m. \<not> is_system m) ms' = filter (\<lambda>m. \<not> is_system m) ms \<and>
    (merged \<longleftrightarrow> list_ex is_system ms) \<and> (\<not> merged \<longrightarrow> ms' = ms)"
proof (induction ms arbitrary: ms' merged)
  case (Cons m ms)
  then have m: "role_given m" by simp
  show ?case
  proof (cases "is_system m")
    case True
    then have "j_str api m ''role'' [] = Some ''system''" using role_of_given(1) [OF assms m] by blast
    with Cons.prems(2) True show ?thesis by (auto split: option.splits)
  next
    case False
    then obtain role where role: "j_str api m ''role'' [] = Some role" "role \<noteq> ''system''"
      using role_of_given [OF assms m] by (metis not_None_eq)
    with Cons.prems(2) obtain ns where "merge_system api instr ms = Some (ns, merged)" "ms' = m # ns"
      by (auto split: option.splits)
    with Cons.IH [of ns merged] Cons.prems(1) False show ?thesis by auto
  qed
qed simp

lemma count_by_map:
  assumes "map P xs = map P ys"
  shows "length (filter P xs) = length (filter P ys)"
proof -
  have c: "length (filter P zs) = length (filter id (map P zs))" for zs by (induction zs) simp_all
  show ?thesis by (simp only: c [of xs] c [of ys] assms)
qed

text \<open>C25: The tool instruction never makes a second system message: after the injection there are as many
  system messages as before, or one if there was none, and the other messages are the same in the same
  order.\<close>

theorem injection_one_system:
  assumes "json_laws api" and "\<forall>m \<in> set ms. role_given m"
    and "inject_instruction api instr (JArr ms) = Some (JArr ms')"
  shows "length (filter is_system ms') = max 1 (length (filter is_system ms)) \<and>
    filter (\<lambda>m. \<not> is_system m) ms' = filter (\<lambda>m. \<not> is_system m) ms"
proof -
  obtain ns merged where ns: "merge_system api instr ms = Some (ns, merged)"
    using assms(3) by (auto simp: inject_instruction_def split: option.splits)
  note shape = merge_system_shape [OF assms(1,2) ns]
  show ?thesis
  proof (cases merged)
    case True
    then have "ms' = ns" using assms(3) ns by (simp add: inject_instruction_def)
    moreover have "1 \<le> length (filter is_system ms)"
      using shape True by (auto simp: list_ex_iff Suc_le_eq filter_empty_conv)
    ultimately show ?thesis using shape count_by_map [of is_system ns ms] by simp
  next
    case False
    then have "ms' = JObj [(''role'', JStr ''system''), (''content'', JStr instr)] # ms"
      using assms(3) ns by (simp add: inject_instruction_def)
    moreover have "filter is_system ms = []"
      using shape False by (auto simp: list_ex_iff filter_empty_conv)
    ultimately show ?thesis by (simp add: is_system_def)
  qed
qed

theorem injection_one_system_witness:
  "\<exists>ms'. inject_instruction demo_json ''use tools'' (JArr [plain_message ''user'' ''hi'']) = Some (JArr ms') \<and>
     length (filter is_system ms') = 1"
proof -
  have l: "json_laws demo_json" using demo_json_laws [of "j_parse demo_json"] by simp
  have i: "inject_instruction demo_json ''use tools'' (JArr [plain_message ''user'' ''hi'']) =
      Some (JArr [plain_message ''system'' ''use tools'', plain_message ''user'' ''hi''])"
    by (simp add: inject_instruction_def plain_message_def demo_json_def)
  have g: "\<forall>m \<in> set [plain_message ''user'' ''hi'']. role_given m" by (simp add: role_given_def plain_message_def)
  from injection_one_system [OF l g i] i show ?thesis
    by (auto simp: is_system_def plain_message_def)
qed

end
