(* ===== verification/Context_Splitter.thy ===== *)
theory Context_Splitter
  imports Chat_Request
begin

text \<open>
  What \<open>src/server/openai_router.cpp\<close> does with a tool result that is too large: truncation, or chunks that
  the engine summarises one by one.
\<close>

section \<open>Summaries\<close>

fun extract_user_question :: "json_api \<Rightarrow> json list \<Rightarrow> string option" where
  "extract_user_question api [] = Some []"
| "extract_user_question api (m # ms) =
     (case j_str api m ''role'' [] of
        None \<Rightarrow> None
      | Some role \<Rightarrow> if role = ''user'' then j_str api m ''content'' [] else extract_user_question api ms)"

definition summary_prompt :: "nat \<Rightarrow> int \<Rightarrow> string \<Rightarrow> json" where
  "summary_prompt i n chunk =
     JArr [plain_message ''system''
             ''You are a content summariser. Summarise the key topics, facts, and information in the provided content section. Be concise but informative. Preserve important details such as names, versions, URLs, and technical terms. If the section contains code, describe what it does.'',
           plain_message ''user''
             (''Content section '' @ show_nat (i + 1) @ '' of '' @ show_int n @ '':'' @ nl @ ''---'' @ nl @ chunk @
              nl @ ''---'' @ two_nl @ ''Summarise the key content of this section.'')]"

definition summary_request :: "'v router \<Rightarrow> int list \<Rightarrow> int \<Rightarrow> real \<Rightarrow> generate_request" where
  "summary_request r tokens max_tokens temperature =
     \<lparr>g_tokens = tokens, g_max_tokens = max_tokens, g_temperature = temperature,
      g_top_p = smp_top_p (tc_sampling (ro_cfg r)), g_top_k = 40, g_repeat_penalty = 11 / 10, g_on_token = False,
      g_stop_tokens = [], g_stop = [], g_grammar = [], g_grammar_lazy = False, g_request_id = [],
      g_session_id = []\<rparr>"

text \<open>The summaries of the chunks from index \<open>i\<close> on; a chunk without tokens, with an error or with an empty
  answer is left out.\<close>

fun summarize_from ::
  "'v router \<Rightarrow> 'v engine \<Rightarrow> string \<Rightarrow> int \<Rightarrow> real \<Rightarrow> int \<Rightarrow> nat \<Rightarrow> string list \<Rightarrow> ('v world, string) act" where
  "summarize_from r eng tmpl summary_tokens temperature n i [] = ret []"
| "summarize_from r eng tmpl summary_tokens temperature n i (c # cs) =
     (if int i < n
      then andthen (orthrow (apply_chat_template (ro_api r) (summary_prompt i n c) tmpl)) (\<lambda>prompt.
             let tokens = en_tokenize eng prompt
             in if tokens = [] then summarize_from r eng tmpl summary_tokens temperature n (i + 1) cs
                else andthen (generate eng (summary_request r tokens summary_tokens temperature)) (\<lambda>res.
                  andthen (summarize_from r eng tmpl summary_tokens temperature n (i + 1) cs) (\<lambda>rest.
                    ret ((if r_error res \<noteq> Ok \<or> r_text res = [] then []
                          else ''[Section '' @ show_nat (i + 1) @ '']: '' @ r_text res @ two_nl) @ rest))))
      else ret [])"

definition summarize_chunks ::
  "'v router \<Rightarrow> 'v engine \<Rightarrow> string list \<Rightarrow> string \<Rightarrow> int \<Rightarrow> real \<Rightarrow> ('v world, string) act" where
  "summarize_chunks r eng chunks tmpl summary_tokens temperature =
     (let n = min (int (length chunks)) (pl_context_split_max_chunks (tc_plugins (ro_cfg r)))
      in andthen (summarize_from r eng tmpl summary_tokens temperature n 0 chunks) (\<lambda>s.
           let all = s @ (if int (length chunks) > n
                          then ''[Note: content had '' @ show_nat (length chunks) @ '' sections; only first '' @
                               show_int n @ '' were processed due to context_split_max_chunks limit]'' @ nl
                          else [])
           in ret (if all = [] then ''[Tool result could not be summarised]'' else all)))"

section \<open>Sizes\<close>

text \<open>A budget's fraction as an \<open>int\<close>, which must fit, and three times a token count as a \<open>size_t\<close>.\<close>

definition scaled_int :: "('v, 'c) chat_router \<Rightarrow> int \<Rightarrow> real \<Rightarrow> ('v world, int) act" where
  "scaled_int R budget f = (if in_s32 (cr_scale R budget f) then ret (cr_scale R budget f) else stuck OutOfRange)"

definition chars_of_tokens :: "int \<Rightarrow> nat" where
  "chars_of_tokens toks = nat (toks * 3 mod 18446744073709551616)"

definition truncated_content :: "nat \<Rightarrow> string \<Rightarrow> string" where
  "truncated_content keep content =
     (if keep < length content
      then (let c = take keep content
            in (case find_back (\<lambda>c. c = CHR 0x0A) c (length c) of None \<Rightarrow> c | Some i \<Rightarrow> take (i + 1) c) @
               nl @ ''[... content truncated to fit context window ...]'')
      else content)"

section \<open>One pass over the messages\<close>

definition split_content ::
  "('v, 'c) chat_router \<Rightarrow> 'v engine \<Rightarrow> int \<Rightarrow> real \<Rightarrow> string option \<Rightarrow> string \<Rightarrow> ('v world, string) act" where
  "split_content R eng budget temperature question content =
     (let r = cr_base R; pl = tc_plugins (ro_cfg r)
      in if pl_context_split_strategy pl = ''truncate''
         then andthen (scaled_int R budget (pl_context_split_truncate_fraction pl)) (\<lambda>keep.
                ret (truncated_content (chars_of_tokens keep) content))
         else andthen (if pl_context_split_chunk_tokens pl > 0 then ret (pl_context_split_chunk_tokens pl)
                       else scaled_int R budget (pl_context_split_auto_chunk_fraction pl)) (\<lambda>toks.
              andthen (looping (chunk_content content (chars_of_tokens toks))) (\<lambda>chunks.
              andthen (orthrow question) (\<lambda>_.
              andthen (summarize_chunks r eng chunks (chat_template_name r eng)
                         (pl_context_split_summary_tokens pl) temperature) (\<lambda>s.
                ret (''[Summarised tool output]:'' @ nl @ s))))))"

text \<open>The messages before \<open>seen\<close> are done; a result below the threshold is left alone.\<close>

fun split_messages ::
  "('v, 'c) chat_router \<Rightarrow> 'v engine \<Rightarrow> int \<Rightarrow> real \<Rightarrow> json list \<Rightarrow> json list \<Rightarrow> ('v world, json list) act" where
  "split_messages R eng budget temperature seen [] = ret seen"
| "split_messages R eng budget temperature seen (m # ms) =
     (let r = cr_base R; api = ro_api r; pl = tc_plugins (ro_cfg r)
      in andthen (orthrow (j_str api m ''role'' [])) (\<lambda>role.
           if role \<noteq> ''tool'' then split_messages R eng budget temperature (seen @ [m]) ms
           else andthen (orthrow (j_str api m ''content'' [])) (\<lambda>content.
                if int (length (en_tokenize eng content)) <
                   cr_scale R budget (pl_context_split_trigger_fraction pl)
                then split_messages R eng budget temperature (seen @ [m]) ms
                else andthen (split_content R eng budget temperature
                                (extract_user_question api (seen @ m # ms)) content) (\<lambda>c.
                       split_messages R eng budget temperature
                         (seen @ [j_set m ''content'' (JStr c)]) ms))))"

definition split_context ::
  "('v, 'c) chat_router \<Rightarrow> 'v engine \<Rightarrow> real \<Rightarrow> json list \<Rightarrow> ('v world, json list) act" where
  "split_context R eng temperature msgs =
     andthen (reading (ro_budget (cr_base R))) (\<lambda>budget.
       if budget > 0 \<and> pl_context_split_enabled (tc_plugins (ro_cfg (cr_base R)))
       then split_messages R eng budget temperature [] msgs
       else ret msgs)"

section \<open>Properties\<close>

text \<open>A truncated content is a prefix of the content and the notice.\<close>

lemma truncated_prefix:
  "truncated_content keep content = content \<or>
   (\<exists>p. prefix p content \<and> length p \<le> keep \<and>
      truncated_content keep content = p @ nl @ ''[... content truncated to fit context window ...]'')"
proof (cases "keep < length content")
  case True
  show ?thesis
  proof (cases "find_back (\<lambda>c. c = CHR 0x0A) (take keep content) (length (take keep content))")
    case None
    with True show ?thesis
      by (intro disjI2 exI [of _ "take keep content"]) (simp add: truncated_content_def take_is_prefix)
  next
    case (Some i)
    with find_back_Some [OF Some] True show ?thesis
      by (intro disjI2 exI [of _ "take (i + 1) (take keep content)"])
        (auto simp: truncated_content_def take_is_prefix)
  qed
qed (simp add: truncated_content_def)

text \<open>What the pass may change of a message: the content of a tool message.\<close>

definition same_but_content :: "json \<Rightarrow> json \<Rightarrow> bool" where
  "same_but_content m m' \<longleftrightarrow> m' = m \<or> (\<exists>c. m' = j_set m ''content'' (JStr c))"

lemma split_messages_shape:
  "split_messages R eng budget temperature seen ms w = (Ret out, w') \<Longrightarrow>
   \<exists>ms'. out = seen @ ms' \<and> list_all2 (\<lambda>m m'. m' = m \<or>
     (j_str (ro_api (cr_base R)) m ''role'' [] = Some ''tool'' \<and> same_but_content m m')) ms ms'"
proof (induction ms arbitrary: seen w)
  case Nil
  then show ?case by (simp add: ret_def)
next
  case (Cons m ms)
  let ?api = "ro_api (cr_base R)"
  obtain role where role: "j_str ?api m ''role'' [] = Some role"
    using Cons.prems by (cases "j_str ?api m ''role'' []") (simp_all add: Let_def throw_def)
  have keep: ?case if "split_messages R eng budget temperature (seen @ [m]) ms w1 = (Ret out, w')" for w1
    using Cons.IH [OF that] by auto
  show ?case
  proof (cases "role = ''tool''")
    case False
    then show ?thesis using Cons.prems role keep [of w] by (simp add: Let_def)
  next
    case True
    obtain content where content: "j_str ?api m ''content'' [] = Some content"
      using Cons.prems role True by (cases "j_str ?api m ''content'' []") (simp_all add: Let_def throw_def)
    show ?thesis
    proof (cases "int (length (en_tokenize eng content)) <
        cr_scale R budget (pl_context_split_trigger_fraction (tc_plugins (ro_cfg (cr_base R))))")
      case lt: True
      then show ?thesis using Cons.prems role True content keep [of w] by (simp add: Let_def)
    next
      case ge: False
      then obtain c w1 where "split_messages R eng budget temperature (seen @ [j_set m ''content'' (JStr c)]) ms w1 =
          (Ret out, w')"
        using Cons.prems role True content by (auto simp: Let_def andthen_eq_Ret)
      from Cons.IH [OF this] role True show ?thesis by (auto simp: same_but_content_def)
    qed
  qed
qed

text \<open>The context splitter keeps the conversation: it changes nothing but the content of tool messages,
  and adds, drops or reorders none.\<close>

theorem splitter_keeps_conversation:
  assumes "split_context R eng temperature msgs w = (Ret out, w')"
  shows "list_all2 (\<lambda>m m'. m' = m \<or>
    (j_str (ro_api (cr_base R)) m ''role'' [] = Some ''tool'' \<and> same_but_content m m')) msgs out"
proof (cases "ro_budget (cr_base R) w > 0 \<and> pl_context_split_enabled (tc_plugins (ro_cfg (cr_base R)))")
  case True
  with assms have "split_messages R eng (ro_budget (cr_base R) w) temperature [] msgs w = (Ret out, w')"
    by (simp add: split_context_def andthen_def reading_def)
  from split_messages_shape [OF this] show ?thesis by simp
next
  case False
  with assms show ?thesis
    by (auto simp: split_context_def andthen_def reading_def ret_def list.rel_refl)
qed

text \<open>A router without plugins whose fractions are always zero tokens.\<close>

definition tiny_router :: "(nat, unit) chat_router" where
  "tiny_router = \<lparr>cr_base = stubborn_router\<lparr>ro_hooks := None\<rparr>, cr_lib = echo_lib,
     cr_fmt = \<lparr>fo_templates = None, fo_reasoning = Reasoning_None\<rparr>, cr_blank = echo_parser,
     cr_pretty = (\<lambda>j. []), cr_scale = (\<lambda>b f. 0), cr_streamed = (\<lambda>w w'. []), cr_what = ''error''\<rparr>"

lemma tiny_config: "ro_cfg (cr_base tiny_router) = default_truellm"
  by (simp add: tiny_router_def stubborn_router_def)

theorem splitter_keeps_conversation_witness:
  "list_all2 (\<lambda>m m'. m' = m \<or> (j_str (ro_api (cr_base tiny_router)) m ''role'' [] = Some ''tool'' \<and>
     same_but_content m m')) [plain_message ''user'' ''hi''] [plain_message ''user'' ''hi'']"
proof (rule splitter_keeps_conversation)
  show "split_context tiny_router stubborn_engine (1 / 2) [plain_message ''user'' ''hi''] idle_world =
    (Ret [plain_message ''user'' ''hi''], idle_world)"
    by (simp add: split_context_def tiny_router_def stubborn_router_def reading_def andthen_def
        default_truellm_def default_plugin_def plain_message_def call_api_def demo_json_def ret_def)
qed

text \<open>With the default strategy, a chunk size of zero tokens, which a small automatic fraction gives,
  makes the request hang on the first tool result that is large enough and not empty.\<close>

theorem zero_fraction_hangs:
  assumes "pl_context_split_strategy (tc_plugins (ro_cfg (cr_base R))) \<noteq> ''truncate''"
    and "pl_context_split_chunk_tokens (tc_plugins (ro_cfg (cr_base R))) \<le> 0"
    and "cr_scale R budget (pl_context_split_auto_chunk_fraction (tc_plugins (ro_cfg (cr_base R)))) = 0"
    and "content \<noteq> []"
  shows "split_content R eng budget temperature question content w = (Diverges, w)"
proof -
  have "chunk_content content 0 = None" using assms(4) zero_chunk_content by simp
  then show ?thesis
    using assms(1-3)
    by (simp add: split_content_def Let_def scaled_int_def in_s32_def chars_of_tokens_def andthen_def looping_def)
qed

theorem zero_fraction_hangs_witness:
  "split_content tiny_router stubborn_engine 4096 (1 / 2) (Some []) ''result'' idle_world = (Diverges, idle_world)"
  by (rule zero_fraction_hangs)
    (simp_all add: tiny_config default_truellm_def default_plugin_def, simp add: tiny_router_def)

end
