(* ===== verification/Chat_Rounds.thy ===== *)
theory Chat_Rounds
  imports Context_Splitter
begin

text \<open>
  The tool loop of \<open>POST /v1/chat/completions\<close> in \<open>src/server/openai_router.cpp\<close>: every round generates,
  returns, hands calls to the client, or executes them and continues with the longer conversation.
\<close>

section \<open>One executed round\<close>

text \<open>\<open>push_back\<close> turns null into an array and throws on any other value.\<close>

fun j_push :: "json \<Rightarrow> json \<Rightarrow> json option" where
  "j_push (JArr vs) v = Some (JArr (vs @ [v]))"
| "j_push JNull v = Some (JArr [v])"
| "j_push _ v = None"

definition tool_message :: "string \<times> string \<Rightarrow> json" where
  "tool_message r =
     JObj [(''role'', JStr ''tool''), (''tool_call_id'', JStr (fst r)), (''content'', JStr (snd r))]"

definition widen_advice :: string where
  "widen_advice = ''.  Use a different tool or ask the user to widen the scope.''"

text \<open>The thinking stage of a round.\<close>

definition round_stage :: "('v, 'c) chat_router \<Rightarrow> 'c chat_parser \<Rightarrow> string \<Rightarrow> string" where
  "round_stage R p t =
     (let rp = parser_finish (cr_lib R) p t;
          prose = strip_tool_call_json (if cm_content rp = [] then t else cm_content rp);
          stage = cm_reasoning rp
      in if prose = [] then stage else if stage = [] then prose else stage @ nl @ prose)"

definition add_stage :: "('v, 'c) chat_router \<Rightarrow> 'c chat_parser \<Rightarrow> string \<Rightarrow> string \<Rightarrow> string" where
  "add_stage R p t narrative =
     (if reasoning_active R
      then (let chunk = round_stage R p t
            in if chunk = [] then narrative
               else (if narrative = [] then [] else narrative @ two_nl) @ chunk)
      else narrative)"

text \<open>The directive that asks for a call is erased from the first system message, in the wording that names
  no tool.\<close>

definition erase_first :: "string \<Rightarrow> string \<Rightarrow> string option" where
  "erase_first pat s =
     map_option (\<lambda>pos. take pos s @ drop (pos + length pat) s) (find_text pat s 0)"

fun strip_required :: "json_api \<Rightarrow> json list \<Rightarrow> json list option" where
  "strip_required api [] = Some []"
| "strip_required api (m # ms) =
     (case j_str api m ''role'' [] of
        None \<Rightarrow> None
      | Some role \<Rightarrow>
          if role \<noteq> ''system'' then map_option ((#) m) (strip_required api ms)
          else map_option (\<lambda>c. (case erase_first must_call_any c of
                   None \<Rightarrow> m | Some c' \<Rightarrow> j_set m ''content'' (JStr c')) # ms)
                 (j_str api m ''content'' []))"

text \<open>The last tool message, whose content a prompt that still does not fit loses.\<close>

definition omitted_notice :: string where
  "omitted_notice = ''[Tool result omitted: response too large for context window. Please answer based on what you know about the requested URL.]''"

fun omit_first :: "json_api \<Rightarrow> json list \<Rightarrow> json list option" where
  "omit_first api [] = Some []"
| "omit_first api (m # ms) =
     (case j_str api m ''role'' [] of
        None \<Rightarrow> None
      | Some role \<Rightarrow>
          if role = ''tool'' then Some (j_set m ''content'' (JStr omitted_notice) # ms)
          else map_option ((#) m) (omit_first api ms))"

definition omit_last :: "json_api \<Rightarrow> json list \<Rightarrow> json list option" where
  "omit_last api ms = map_option rev (omit_first api (rev ms))"

text \<open>The conversation after the calls of a round: the assistant's turn, the results, without the
  directive, with large results reduced.\<close>

definition continue_conversation ::
  "('v, 'c) chat_router \<Rightarrow> 'v engine \<Rightarrow> real \<Rightarrow> nat \<Rightarrow> string \<Rightarrow> json list \<Rightarrow> json \<Rightarrow> ('v world, json list) act" where
  "continue_conversation R eng temperature tool_round t calls msgs =
     (let r = cr_base R; api = ro_api r
      in andthen (orthrow (j_push msgs (JObj [(''role'', JStr ''assistant''), (''content'', JStr t),
                    (''tool_calls'', JArr calls)]))) (\<lambda>msgs1.
         andthen (execute_calls api (tools_of r) widen_advice tool_round calls) (\<lambda>rs.
         andthen (orthrow (strip_required api (json_elems msgs1 @ map tool_message rs)))
           (split_context R eng temperature))))"

text \<open>A prompt over the budget: the last result is dropped and one more generation gives the answer,
  whose error is not looked at.\<close>

definition final_try ::
  "('v, 'c) chat_router \<Rightarrow> 'v engine \<Rightarrow> generate_request \<Rightarrow> json list \<Rightarrow>
   ('v world, (generate_request \<times> generate_result) option) act" where
  "final_try R eng req msgs =
     andthen (reading (ro_budget (cr_base R))) (\<lambda>budget.
       if budget > 0 \<and> budget \<le> int (length (g_tokens req))
       then andthen (orthrow (omit_last (ro_api (cr_base R)) msgs)) (\<lambda>msgs'.
            andthen (orthrow (render R eng (JArr msgs'))) (\<lambda>prompt.
              let req' = req\<lparr>g_tokens := en_tokenize eng prompt\<rparr>
              in andthen (generate eng req') (\<lambda>res. ret (Some (req', res)))))
       else ret None)"

section \<open>The loop\<close>

record loop_end =
  le_result :: generate_result
  le_pending :: "json list"
  le_narrative :: string

definition ended :: "generate_result \<Rightarrow> json list \<Rightarrow> string \<Rightarrow> loop_end" where
  "ended res pending narrative = \<lparr>le_result = res, le_pending = pending, le_narrative = narrative\<rparr>"

text \<open>Calls the client executes itself.\<close>

definition hand_over :: "json_api \<Rightarrow> generate_result \<Rightarrow> json list \<Rightarrow> string \<Rightarrow> loop_end option" where
  "hand_over api res calls narrative =
     (case (canonical_tool_calls api (JArr calls), text_is_pure_tool_call api (r_text res)) of
        (Some pending, Some pure) \<Rightarrow>
          Some (ended (res\<lparr>r_finish_reason := ''tool_calls'', r_text := (if pure then [] else r_text res)\<rparr>)
                  pending narrative)
      | _ \<Rightarrow> None)"

fun chat_rounds ::
  "('v, 'c) chat_router \<Rightarrow> 'v engine \<Rightarrow> 'c chat_parser \<Rightarrow> bool \<Rightarrow> nat \<Rightarrow> nat \<Rightarrow> json \<Rightarrow> generate_request \<Rightarrow>
   generate_result \<Rightarrow> string \<Rightarrow> ('v world, reply + loop_end) act" where
  "chat_rounds R eng p delegate 0 tool_round msgs req result narrative = ret (Inr (ended result [] narrative))"
| "chat_rounds R eng p delegate (Suc n) tool_round msgs req result narrative =
     andthen (generate eng req) (\<lambda>res.
       if r_error res \<noteq> Ok then ret (Inl (engine_failure (ro_api (cr_base R)) res))
       else andthen (orthrow (parse_tool_calls (ro_api (cr_base R)) (r_text res))) (\<lambda>calls.
         if calls = [] then ret (Inr (ended res [] narrative))
         else if delegate then andthen (orthrow (hand_over (ro_api (cr_base R)) res calls narrative)) (\<lambda>e. ret (Inr e))
         else if \<not> has_tools (cr_base R) then ret (Inr (ended res [] narrative))
         else let narrative' = add_stage R p (r_text res) narrative
              in andthen (continue_conversation R eng (g_temperature req) tool_round (r_text res) calls msgs) (\<lambda>msgs'.
                 andthen (orthrow (render R eng (JArr msgs'))) (\<lambda>prompt.
                   let req' = req\<lparr>g_tokens := en_tokenize eng prompt, g_on_token := False\<rparr>
                   in andthen (final_try R eng req' msgs') (\<lambda>last.
                        case last of
                          Some (req'', res') \<Rightarrow> ret (Inr (ended res' [] narrative'))
                        | None \<Rightarrow> chat_rounds R eng p delegate n (tool_round + 1) (JArr msgs') req' res narrative')))))"

section \<open>Client tools\<close>



end
