(* ===== verification/Chat_Handler.thy ===== *)
theory Chat_Handler
  imports Chat_Rounds
begin

text \<open>
  \<open>POST /v1/chat/completions\<close> and \<open>POST /v1/research\<close> of \<open>src/server/openai_router.cpp\<close>: the whole handler.
  What a content provider does when it runs, after the handler, follows the handler's own actions.
\<close>

section \<open>Replies\<close>

definition chat_json :: "string \<Rightarrow> string \<Rightarrow> int \<Rightarrow> json \<Rightarrow> string \<Rightarrow> json option \<Rightarrow> json" where
  "chat_json rid mid now message finish usage =
     JObj ([(''id'', JStr rid), (''object'', JStr ''chat.completion''), (''created'', JInt now), (''model'', JStr mid),
            (''choices'', JArr [JObj [(''message'', message), (''index'', JInt 0), (''finish_reason'', JStr finish)]])]
           @ (case usage of None \<Rightarrow> [] | Some u \<Rightarrow> [(''usage'', u)]))"

definition chunk_event :: "json_api \<Rightarrow> string \<Rightarrow> string \<Rightarrow> json \<Rightarrow> json \<Rightarrow> string" where
  "chunk_event api rid mid delta finish =
     sse api (JObj [(''id'', JStr rid), (''object'', JStr ''chat.completion.chunk''), (''model'', JStr mid),
       (''choices'', JArr [JObj [(''delta'', delta), (''index'', JInt 0), (''finish_reason'', finish)]])])"

definition role_event :: "json_api \<Rightarrow> string \<Rightarrow> string \<Rightarrow> string" where
  "role_event api rid mid = chunk_event api rid mid (JObj [(''role'', JStr ''assistant'')]) JNull"

text \<open>\<open>emit_delta\<close>: nothing for an empty text.\<close>

definition text_events :: "json_api \<Rightarrow> string \<Rightarrow> string \<Rightarrow> string \<Rightarrow> string \<Rightarrow> string list" where
  "text_events api rid mid key t =
     (if t = [] then [] else [chunk_event api rid mid (JObj [(key, JStr t)]) JNull])"

section \<open>Live streams\<close>

definition live_events :: "('v, 'c) chat_router \<Rightarrow> string \<Rightarrow> 'c chat_parser \<Rightarrow> string list \<Rightarrow> string list" where
  "live_events R rid p pieces =
     (let api = ro_api (cr_base R); mid = model_name (ro_cfg (cr_base R))
      in if reasoning_active R
         then concat (map (\<lambda>d. text_events api rid mid ''reasoning_content'' (sd_reasoning d) @
                               text_events api rid mid ''content'' (sd_content d))
                (snd (push_all (cr_lib R) p (map concat (tl (prefixes pieces))))))
         else concat (map (text_events api rid mid ''content'') (fst (stream_pieces [] pieces))))"

definition live_stream ::
  "('v, 'c) chat_router \<Rightarrow> 'v engine \<Rightarrow> string \<Rightarrow> 'c chat_parser \<Rightarrow> generate_request \<Rightarrow> ('v world, reply) act" where
  "live_stream R eng rid p req =
     stepping (\<lambda>w. case en_generate eng (req\<lparr>g_on_token := True\<rparr>) w of
       (w', res, pieces) \<Rightarrow>
         (w', Event_Stream ([role_event (ro_api (cr_base R)) rid (model_name (ro_cfg (cr_base R)))] @
                live_events R rid p pieces @ [sse_done])))"

section \<open>Generators\<close>

text \<open>The provider of a claimed stream: its events are the texts the generator passed to the callback; the
  outcome of the dispatch is not sent.\<close>

definition generator_stream :: "('v, 'c) chat_router \<Rightarrow> string \<Rightarrow> string \<Rightarrow> ('v world, reply) act" where
  "generator_stream R rid msgs =
     stepping (\<lambda>w. case try_dispatch_generator (gens_of (cr_base R)) msgs w of
       (w', out) \<Rightarrow>
         (let api = ro_api (cr_base R); mid = model_name (ro_cfg (cr_base R));
              texts = filter (\<lambda>t. t \<noteq> []) (cr_streamed R w w')
          in (w', Event_Stream ([role_event api rid mid] @
                    concat (map (text_events api rid mid ''content'') (fst (stream_pieces [] texts))) @
                    [sse_done]))))"

definition generator_reply ::
  "('v, 'c) chat_router \<Rightarrow> 'v engine \<Rightarrow> string \<Rightarrow> int \<Rightarrow> int list \<Rightarrow> gen_outcome \<Rightarrow> ('v world, reply) act" where
  "generator_reply R eng rid max_tokens tokens out =
     (let r = cr_base R
      in if \<not> go_ok out
         then ret (fail_with (ro_api r) 503 (''Generator '' @ CHR 0x27 # go_plugin out @ CHR 0x27 # '' error: '' @ go_msg out))
         else let c = (if go_text out = [] then 0 else int (length (en_tokenize eng (go_text out))));
                  p = int (length tokens)
              in andthen (calling (\<lambda>w. ebind (usage_of True p c w) (\<lambda>u. Inr (w, u)))) (\<lambda>usage.
                 andthen (stepping (ro_now r)) (\<lambda>now.
                   ret (Json_Reply 200 (j_dump (ro_api r)
                     (chat_json rid (model_name (ro_cfg r)) now
                       (JObj [(''role'', JStr ''assistant''), (''content'', JStr (sanitize_utf8 (go_text out)))])
                       (if max_tokens > 0 \<and> c \<ge> max_tokens then ''length'' else ''stop'') (Some usage)))))))"

section \<open>The answer of the tool loop\<close>

text \<open>The texts of the answer: what the parser separates, without a call, after the stages of the tool
  rounds.\<close>

definition answer_texts :: "('v, 'c) chat_router \<Rightarrow> 'c chat_parser \<Rightarrow> loop_end \<Rightarrow> string \<times> string" where
  "answer_texts R p e =
     (let t = r_text (le_result e);
          (answer, reasoning) =
            (if reasoning_active R \<and> t \<noteq> []
             then (let m = parser_finish (cr_lib R) p t in (cm_content m, cm_reasoning m)) else (t, []))
      in (strip_tool_call_json answer,
          if le_narrative e = [] then reasoning
          else if reasoning = [] then le_narrative e else le_narrative e @ two_nl @ reasoning))"

definition assistant_message :: "('v, 'c) chat_router \<Rightarrow> 'c chat_parser \<Rightarrow> loop_end \<Rightarrow> json" where
  "assistant_message R p e =
     (let (answer, reasoning) = answer_texts R p e
      in JObj ([(''role'', JStr ''assistant''), (''content'', JStr (sanitize_utf8 answer))] @
               (if reasoning = [] then [] else [(''reasoning_content'', JStr (sanitize_utf8 reasoning))]) @
               (if le_pending e = [] then [] else [(''tool_calls'', JArr (le_pending e))])))"

definition replay_events :: "json_api \<Rightarrow> string \<Rightarrow> string \<Rightarrow> json \<Rightarrow> string \<Rightarrow> string list" where
  "replay_events api rid mid msg finish =
     [role_event api rid mid] @
     (case j_entry msg ''reasoning_content'' of
        None \<Rightarrow> [] | Some v \<Rightarrow> [chunk_event api rid mid (JObj [(''reasoning_content'', v)]) JNull]) @
     (case j_entry msg ''content'' of
        Some (JStr (c # cs)) \<Rightarrow> [chunk_event api rid mid (JObj [(''content'', JStr (c # cs))]) JNull] | _ \<Rightarrow> []) @
     (case j_entry msg ''tool_calls'' of
        None \<Rightarrow> [] | Some v \<Rightarrow> [chunk_event api rid mid (JObj [(''tool_calls'', v)]) JNull]) @
     [chunk_event api rid mid (JObj []) (JStr finish), sse_done]"

definition loop_reply ::
  "('v, 'c) chat_router \<Rightarrow> 'v engine \<Rightarrow> string \<Rightarrow> bool \<Rightarrow> 'c chat_parser \<Rightarrow> loop_end \<Rightarrow> ('v world, reply) act" where
  "loop_reply R eng rid do_stream p e =
     (let r = cr_base R; res = le_result e; mid = model_name (ro_cfg r); msg = assistant_message R p e
      in andthen (calling (\<lambda>w. ebind (usage_of (ro_hooks r \<noteq> None) (prompt_count eng res) (generated_count eng res) w)
                    (\<lambda>u. Inr (w, u)))) (\<lambda>usage.
         if do_stream then ret (Event_Stream (replay_events (ro_api r) rid mid msg (finish_of res)))
         else andthen (stepping (ro_now r)) (\<lambda>now.
                ret (Json_Reply 200 (j_dump (ro_api r) (chat_json rid mid now msg (finish_of res) (Some usage)))))))"

definition run_tool_loop ::
  "('v, 'c) chat_router \<Rightarrow> 'v engine \<Rightarrow> string \<Rightarrow> bool \<Rightarrow> bool \<Rightarrow> 'c chat_parser \<Rightarrow> json \<Rightarrow> generate_request \<Rightarrow>
   ('v world, reply) act" where
  "run_tool_loop R eng rid do_stream delegate p msgs req =
     andthen (chat_rounds R eng p delegate (nat (pl_tool_max_rounds (tc_plugins (ro_cfg (cr_base R))) + 1)) 0
                msgs req blank_result []) (\<lambda>out.
       case out of Inl reply \<Rightarrow> ret reply | Inr e \<Rightarrow> loop_reply R eng rid do_stream p e)"

section \<open>The pipeline\<close>

text \<open>What the handler leaves to do: nothing, a live stream, or a stream of a generator that owns the
  context from then on.\<close>

datatype 'c plan = Replied reply | Live "'c chat_parser" generate_request | Generated string

definition respond_early :: "'v router \<Rightarrow> string \<Rightarrow> string \<Rightarrow> ('v world, 'c plan) act" where
  "respond_early r rid t =
     andthen (stepping (ro_now r)) (\<lambda>now.
       ret (Replied (Json_Reply 200 (j_dump (ro_api r)
         (chat_json rid (model_name (ro_cfg r)) now
            (JObj [(''role'', JStr ''assistant''), (''content'', JStr t)]) ''stop'' None)))))"

text \<open>Generators are asked unless the client wants tools; without a claim the engine generates.\<close>

definition generate_or_loop ::
  "('v, 'c) chat_router \<Rightarrow> 'v engine \<Rightarrow> json \<Rightarrow> string \<Rightarrow> chat_request \<Rightarrow> 'c chat_parser \<Rightarrow> bool \<Rightarrow> json \<Rightarrow>
   generate_request \<Rightarrow> ('v world, 'c plan) act" where
  "generate_or_loop R eng body rid cq p requested msgs req =
     (let r = cr_base R
      in if cq_stream cq \<and> \<not> (requested \<or> has_tools r) then ret (Live p req)
         else andthen (run_tool_loop R eng rid (cq_stream cq) (client_tools (ro_get r) body) p msgs req)
                (\<lambda>reply. ret (Replied reply)))"

definition ask_generators ::
  "('v, 'c) chat_router \<Rightarrow> 'v engine \<Rightarrow> json \<Rightarrow> string \<Rightarrow> chat_request \<Rightarrow> 'c chat_parser \<Rightarrow> bool \<Rightarrow> json \<Rightarrow>
   generate_request \<Rightarrow> ('v world, 'c plan) act" where
  "ask_generators R eng body rid cq p requested msgs req =
     (let r = cr_base R; continue = generate_or_loop R eng body rid cq p requested msgs req
      in if requested \<or> \<not> has_generators (gens_of r) then continue
         else if cq_stream cq
         then andthen (stepping (gen_claims (gens_of r) (j_dump (ro_api r) msgs))) (\<lambda>claimed.
                if claimed then ret (Generated (j_dump (ro_api r) msgs)) else continue)
         else andthen (stepping (try_dispatch_generator (gens_of r) (j_dump (ro_api r) msgs))) (\<lambda>out.
                if go_claimed out
                then andthen (generator_reply R eng rid (cq_max_tokens cq) (g_tokens req) out) (\<lambda>reply. ret (Replied reply))
                else continue))"

definition pipeline ::
  "('v, 'c) chat_router \<Rightarrow> 'v engine \<Rightarrow> json \<Rightarrow> string \<Rightarrow> chat_request \<Rightarrow> 'c chat_parser \<times> generate_request \<Rightarrow>
   ('v world, 'c plan) act" where
  "pipeline R eng body rid cq pg =
     (let r = cr_base R
      in preprocessed r Replied (j_dump (ro_api r) (cq_messages cq)) (respond_early r rid)
           (andthen (orthrow (client_requested_tools body)) (\<lambda>requested.
            andthen (orthrow (inject_tools R eng body (cq_messages cq) (g_tokens (snd pg)))) (\<lambda>injection.
            andthen (react_to_overflow R eng cq requested injection) (\<lambda>(msgs, tokens).
              ask_generators R eng body rid cq (fst pg) requested msgs
                ((snd pg)\<lparr>g_tokens := tokens, g_request_id := rid\<rparr>))))))"

section \<open>The handler\<close>

text \<open>The recorder, which runs on every exit of the pipeline, if there is a context.\<close>

definition record_outcomes :: "'v router \<Rightarrow> 'v world \<Rightarrow> 'v world" where
  "record_outcomes r w =
     (if ro_hooks r = None then w
      else w\<lparr>wd_host := (wd_host w)\<lparr>ht_chat := record_chat_outcome (Some (wd_ctx w)) (ht_chat (wd_host w)),
             ht_research := record_research_outcome (Some (wd_ctx w)) (ht_research (wd_host w))\<rparr>\<rparr>)"

definition finally_record :: "'v router \<Rightarrow> ('v world, 'c plan) act \<Rightarrow> ('v world, 'c plan) act" where
  "finally_record r m w =
     (case m w of
        (Ret (Generated msgs), w') \<Rightarrow> (Ret (Generated msgs), w')
      | (Ret x, w') \<Rightarrow> (Ret x, record_outcomes r w')
      | (Threw, w') \<Rightarrow> (Threw, record_outcomes r w')
      | stop \<Rightarrow> stop)"

definition carry_out :: "('v, 'c) chat_router \<Rightarrow> 'v engine \<Rightarrow> string \<Rightarrow> 'c plan \<Rightarrow> ('v world, reply) act" where
  "carry_out R eng rid plan =
     (case plan of
        Replied reply \<Rightarrow> ret reply
      | Live p req \<Rightarrow> live_stream R eng rid p req
      | Generated msgs \<Rightarrow>
          andthen (generator_stream R rid msgs) (\<lambda>reply.
          andthen (changing (record_outcomes (cr_base R))) (\<lambda>_. ret reply)))"

definition serve_chat ::
  "('v, 'c) chat_router \<Rightarrow> 'v engine \<Rightarrow> http_request \<Rightarrow> json \<Rightarrow> ('v world, string \<times> 'c plan) act" where
  "serve_chat R eng req body =
     andthen (orthrow (read_chat (cr_base R) body)) (\<lambda>cq.
     andthen (orthrow (chat_generation R eng req body cq)) (\<lambda>pg.
     andthen (stepping (ro_now (cr_base R))) (\<lambda>now.
       let rid = ''chatcmpl-'' @ show_int now
       in andthen (open_context (cr_base R) eng body req rid (cq_max_tokens cq) (cq_temperature cq)) (\<lambda>_.
          andthen (finally_record (cr_base R) (pipeline R eng body rid cq pg)) (\<lambda>plan. ret (rid, plan))))))"

definition handle_chat_completions :: "('v, 'c) chat_router \<Rightarrow> http_request \<Rightarrow> ('v world, reply) act" where
  "handle_chat_completions R req =
     (let r = cr_base R; api = ro_api r
      in case j_parse api (rq_body req) of
           None \<Rightarrow> ret (fail_with api 400 ''Invalid JSON'')
         | Some body \<Rightarrow>
             andthen (reading (ready_engine r)) (\<lambda>engine.
               case engine of
                 None \<Rightarrow> ret (fail_with api 503 ''No model loaded'')
               | Some eng \<Rightarrow>
                   andthen (catching (serve_chat R eng req body)
                              (ret ([], Replied (fail_with api 500 (''Internal server error: '' @ cr_what R)))))
                     (\<lambda>(rid, plan). carry_out R eng rid plan)))"

text \<open>\<open>/v1/research\<close>: the body of the request with the mode set.\<close>

definition research_body :: "json_api \<Rightarrow> string \<Rightarrow> string" where
  "research_body api text =
     (case j_parse api text of
        Some (JObj kvs) \<Rightarrow>
          (let meta = (case map_of kvs ''truellm_metadata'' of Some (JObj m) \<Rightarrow> m | _ \<Rightarrow> []);
               m1 = AList.update ''mode'' (JStr ''research'') meta;
               m2 = (if map_of m1 ''effort'' = None then AList.update ''effort'' (JStr ''medium'') m1 else m1)
           in j_dump api (JObj (AList.update ''truellm_metadata'' (JObj m2) kvs)))
      | _ \<Rightarrow> text)"

definition handle_research :: "('v, 'c) chat_router \<Rightarrow> http_request \<Rightarrow> ('v world, reply) act" where
  "handle_research R req =
     handle_chat_completions R (req\<lparr>rq_body := research_body (ro_api (cr_base R)) (rq_body req)\<rparr>)"

end
