(* ===== verification/Chat_Properties.thy ===== *)
theory Chat_Properties
  imports Chat_Handler
begin

text \<open>
  Properties of the whole chat handler: a request is recorded exactly once on every path, and a live
  stream loses nothing.
\<close>

section \<open>Actions that keep a part of the world\<close>

lemma keeps_stepping: "(\<And>w. n (fst (f w)) = n w) \<Longrightarrow> keeps n (stepping f)"
  by (auto simp: act_rel_def stepping_def split: prod.split) (metis fst_conv)

lemma keeps_calling: "(\<And>w w' x. f w = Inr (w', x) \<Longrightarrow> n w' = n w) \<Longrightarrow> keeps n (calling f)"
  by (auto simp: act_rel_def calling_def split: sum.split)

lemma keeps_pure:
  "keeps n (ret x)" "keeps n (orthrow y)" "keeps n (reading g)" "keeps n (looping y)" "keeps n (stuck u)"
  by simp_all

lemmas keeps_intros = keeps_andthen keeps_pure keeps_stepping keeps_changing

text \<open>A part of the world that the engine, the plugins and the clock leave alone, and that is not in the
  request context.\<close>

definition untouched :: "('v world \<Rightarrow> 'b) \<Rightarrow> ('v, 'c) chat_router \<Rightarrow> 'v engine \<Rightarrow> bool" where
  "untouched n R eng \<longleftrightarrow>
     (\<forall>req w. n (fst (en_generate eng req w)) = n w) \<and>
     (\<forall>w. n (fst (ro_now (cr_base R) w)) = n w) \<and>
     (\<forall>q args w w' tc. tool_dispatch q args (tools_of (cr_base R)) w = Inr (w', tc) \<longrightarrow> n w' = n w) \<and>
     (\<forall>h msgs w. ro_hooks (cr_base R) = Some h \<longrightarrow> n (fst (run_chain (hk_preps h) msgs w)) = n w) \<and>
     (\<forall>msgs w. n (fst (gen_claims (gens_of (cr_base R)) msgs w)) = n w) \<and>
     (\<forall>msgs w. n (fst (try_dispatch_generator (gens_of (cr_base R)) msgs w)) = n w) \<and>
     (\<forall>w c. n (w\<lparr>wd_ctx := c\<rparr>) = n w)"

lemma untouchedD:
  assumes "untouched n R eng"
  shows "n (fst (en_generate eng req w)) = n w" "n (fst (ro_now (cr_base R) w)) = n w"
    "tool_dispatch q args (tools_of (cr_base R)) w = Inr (w', tc) \<Longrightarrow> n w' = n w"
    "ro_hooks (cr_base R) = Some h \<Longrightarrow> n (fst (run_chain (hk_preps h) msgs w)) = n w"
    "n (fst (gen_claims (gens_of (cr_base R)) msgs w)) = n w"
    "n (fst (try_dispatch_generator (gens_of (cr_base R)) msgs w)) = n w"
    "n (w\<lparr>wd_ctx := c\<rparr>) = n w"
  using assms unfolding untouched_def by blast+

lemma kept_generate: "untouched n R eng \<Longrightarrow> keeps n (generate eng req)"
  unfolding generate_def
  by (rule keeps_stepping) (auto dest: untouchedD(1) split: prod.split, metis fst_conv untouchedD(1))

lemma kept_clock: "untouched n R eng \<Longrightarrow> keeps n (stepping (ro_now (cr_base R)))"
  by (rule keeps_stepping) (rule untouchedD(2))

lemma kept_calls: "untouched n R eng \<Longrightarrow> keeps n (execute_calls api (tools_of (cr_base R)) advice k cs)"
  by (rule execute_calls_keeps) (rule untouchedD(3))

lemma kept_usage: "keeps n (calling (\<lambda>w. ebind (f w) (\<lambda>u. Inr (w, u))))"
  by (rule keeps_calling) (auto simp: ebind_eq_Inr)

lemma kept_summaries:
  assumes "untouched n R eng"
  shows "keeps n (summarize_from r eng tmpl st temp m i cs)"
proof (induction cs arbitrary: i)
  case (Cons c cs)
  then show ?case by (auto simp: Let_def intro!: keeps_intros kept_generate [OF assms])
qed simp

lemma kept_split_content:
  assumes "untouched n R eng"
  shows "keeps n (split_content R eng budget temp question content)"
  unfolding split_content_def summarize_chunks_def scaled_int_def Let_def
  by (auto intro!: keeps_intros kept_summaries [OF assms])

lemma kept_split_messages:
  assumes "untouched n R eng"
  shows "keeps n (split_messages R eng budget temp seen ms)"
proof (induction ms arbitrary: seen)
  case (Cons m ms)
  then show ?case by (auto simp: Let_def intro!: keeps_intros kept_split_content [OF assms])
qed simp

lemma kept_rounds:
  assumes "untouched n R eng"
  shows "keeps n (chat_rounds R eng p delegate m k msgs req res narrative)"
proof (induction m arbitrary: delegate k msgs req res narrative)
  case (Suc m)
  have conv: "keeps n (continue_conversation R eng temp k t calls msgs)" for temp k t calls msgs
    unfolding continue_conversation_def split_context_def Let_def
    by (auto intro!: keeps_intros kept_calls [OF assms] kept_split_messages [OF assms])
  have final: "keeps n (final_try R eng req msgs)" for req msgs
    unfolding final_try_def Let_def by (auto intro!: keeps_intros kept_generate [OF assms])
  show ?case
    by (auto simp: Let_def intro!: keeps_intros kept_generate [OF assms] conv final Suc.IH split: option.split)
qed simp

lemma kept_pipeline:
  assumes "untouched n R eng"
  shows "keeps n (pipeline R eng body rid cq pg)"
proof -
  note clock = kept_clock [OF assms]
  have loop: "keeps n (run_tool_loop R eng rid s d p msgs req)" for s d p msgs req
    unfolding run_tool_loop_def loop_reply_def Let_def
    by (auto intro!: keeps_intros kept_rounds [OF assms] kept_usage clock split: sum.split)
  have go: "keeps n (generate_or_loop R eng body rid cq p requested msgs req)" for p requested msgs req
    unfolding generate_or_loop_def Let_def by (auto intro!: keeps_intros loop)
  have claims: "keeps n (stepping (gen_claims (gens_of (cr_base R)) ms))" for ms
    by (rule keeps_stepping) (rule untouchedD(5) [OF assms])
  have dispatch: "keeps n (stepping (try_dispatch_generator (gens_of (cr_base R)) ms))" for ms
    by (rule keeps_stepping) (rule untouchedD(6) [OF assms])
  have reply: "keeps n (generator_reply R eng rid mt tokens out)" for mt tokens out
    unfolding generator_reply_def Let_def by (auto intro!: keeps_intros kept_usage clock)
  have ask: "keeps n (ask_generators R eng body rid cq p requested msgs req)" for p requested msgs req
    unfolding ask_generators_def Let_def by (auto intro!: keeps_intros go claims dispatch reply)
  have react: "keeps n (react_to_overflow R eng cq requested injection)" for requested injection
    unfolding react_to_overflow_def Let_def
    by (auto intro!: keeps_intros untouchedD(7) [OF assms] split: prod.split)
  have early: "keeps n (respond_early (cr_base R) rid t)" for t
    unfolding respond_early_def by (auto intro!: keeps_intros clock)
  have prep: "keeps n (stepping (run_chain (hk_preps h) ms))" if "ro_hooks (cr_base R) = Some h" for h ms
    by (rule keeps_stepping) (rule untouchedD(4) [OF assms that])
  show ?thesis
    unfolding pipeline_def preprocessed_def Let_def
    by (auto intro!: keeps_intros ask react early prep split: option.split preproc_decision.split prod.split)
qed

section \<open>One record for each request\<close>

definition recorded :: "'v world \<Rightarrow> nat" where
  "recorded w = co_total (ht_chat (wd_host w))"

lemma recorded_once: "recorded (record_outcomes r w) = (if ro_hooks r = None then recorded w else u64_add (recorded w) 1)"
  by (simp add: recorded_def record_outcomes_def record_chat_outcome_def Let_def)

text \<open>The actions of a request after its context is built.\<close>

definition answered_chat ::
  "('v, 'c) chat_router \<Rightarrow> 'v engine \<Rightarrow> json \<Rightarrow> string \<Rightarrow> chat_request \<Rightarrow> 'c chat_parser \<times> generate_request \<Rightarrow>
   ('v world, reply) act" where
  "answered_chat R eng body rid cq pg =
     andthen (catching (andthen (finally_record (cr_base R) (pipeline R eng body rid cq pg)) (\<lambda>plan. ret (rid, plan)))
                (ret ([], Replied (fail_with (ro_api (cr_base R)) 500 (''Internal server error: '' @ cr_what R)))))
       (\<lambda>(rid, plan). carry_out R eng rid plan)"

lemma answered_once:
  assumes "untouched recorded R eng" and "ro_hooks (cr_base R) \<noteq> None"
    and "answered_chat R eng body rid cq pg w = (Ret reply, w')"
  shows "recorded w' = u64_add (recorded w) 1"
proof -
  obtain out w1 where p: "pipeline R eng body rid cq pg w = (out, w1)" by fastforce
  have n1: "recorded w1 = recorded w"
    using kept_pipeline [OF assms(1), of body rid cq pg] p by (auto simp: act_rel_def) (metis snd_conv)
  have live: "recorded (snd (live_stream R eng rid' q req' w2)) = recorded w2" for rid' q req' w2
    using untouchedD(1) [OF assms(1), of "req'\<lparr>g_on_token := True\<rparr>" w2]
    by (auto simp: live_stream_def stepping_def split: prod.split)
  have gen: "recorded (snd (generator_stream R rid' msgs w2)) = recorded w2" for rid' msgs w2
    using untouchedD(6) [OF assms(1), of msgs w2]
    by (auto simp: generator_stream_def stepping_def Let_def split: prod.split)
  show ?thesis
  proof (cases out)
    case (Ret plan)
    show ?thesis
    proof (cases plan)
      case (Replied x)
      with assms(2,3) p Ret n1 show ?thesis
        by (auto simp: answered_chat_def finally_record_def catching_def andthen_def carry_out_def ret_def recorded_once)
    next
      case (Live q req')
      with assms(3) p Ret have "live_stream R eng rid q req' (record_outcomes (cr_base R) w1) = (Ret reply, w')"
        by (simp add: answered_chat_def finally_record_def catching_def andthen_def carry_out_def ret_def)
      with live [of rid q req' "record_outcomes (cr_base R) w1"] assms(2) n1 show ?thesis by (simp add: recorded_once)
    next
      case (Generated msgs)
      obtain o2 w2 where g: "generator_stream R rid msgs w1 = (o2, w2)" by fastforce
      with gen [of rid msgs w1] have "recorded w2 = recorded w1" by simp
      with assms(2,3) p Ret Generated g n1 show ?thesis
        by (auto simp: answered_chat_def finally_record_def catching_def andthen_def carry_out_def ret_def
            changing_def recorded_once split: outcome.splits)
    qed
  next
    case Threw
    with assms(2,3) p n1 show ?thesis
      by (auto simp: answered_chat_def finally_record_def catching_def andthen_def carry_out_def ret_def recorded_once)
  next
    case (Stuck u)
    with assms(3) p show ?thesis
      by (auto simp: answered_chat_def finally_record_def catching_def andthen_def)
  next
    case Diverges
    with assms(3) p show ?thesis
      by (auto simp: answered_chat_def finally_record_def catching_def andthen_def)
  qed
qed

lemma open_context_ret: "\<exists>w'. open_context r eng body req rid mt temp w = (Ret (), w')"
  by (auto simp: open_context_def Let_def set_ctx_def act_defs)

lemma open_context_recorded:
  assumes "untouched recorded R eng" and "open_context (cr_base R) eng body req rid mt temp w = (Ret (), w')"
  shows "recorded w' = recorded w"
  using assms(2) by (auto simp: open_context_def Let_def set_ctx_def act_defs recorded_def split: if_splits)


text \<open>A request that a preprocessor answers.\<close>

definition greeter :: "nat world prep_entry" where
  "greeter = \<lparr>pe_prep = \<lparr>pp_abi = 1, pp_plugin_id = Some ''greet'', pp_version = None, pp_priority = 0,
     pp_preprocess = Some (\<lambda>w msgs. (w, \<lparr>pr_decision = Respond, pr_messages = None, pr_response = Some ''hello'',
       pr_free = None\<rparr>)), pp_destroy = None\<rparr>, pe_plugin = ''greet'', pe_priority = 0\<rparr>"

definition greeting_router :: "(nat, unit) chat_router" where
  "greeting_router = tiny_router\<lparr>cr_base := stubborn_router\<lparr>
     ro_api := demo_json\<lparr>j_parse := (\<lambda>s. Some (JObj []))\<rparr>,
     ro_hooks := Some \<lparr>hk_tools = empty_tools, hk_preps = [greeter], hk_gens = []\<rparr>\<rparr>\<rparr>"

lemma greeting_untouched: "untouched recorded greeting_router stubborn_engine"
  by (auto simp: untouched_def greeting_router_def tiny_router_def stubborn_router_def stubborn_engine_def
      recorded_def tools_of_def tool_dispatch_def tool_lookup_def empty_tools_def gens_of_def greeter_def
      run_chain_def prep_step_def call_free_def try_dispatch_generator_def Let_def)

definition hello_request :: http_request where
  "hello_request = \<lparr>rq_body = [], rq_header = (\<lambda>h. [])\<rparr>"


section \<open>Live streams\<close>

text \<open>Without reasoning, a live stream of well-formed output is one event for each complete text: the
  texts are not empty, each is well-formed, and together they are the output.\<close>

theorem live_stream_complete:
  assumes "\<not> reasoning_active R" and "well_formed (concat pieces)"
  shows "\<exists>es. live_events R rid p pieces =
      map (\<lambda>e. chunk_event (ro_api (cr_base R)) rid (model_name (ro_cfg (cr_base R))) (JObj [(''content'', JStr e)]) JNull) es \<and>
    concat es = concat pieces \<and> (\<forall>e \<in> set es. e \<noteq> [] \<and> well_formed e)"
proof -
  define es where "es = fst (stream_pieces [] pieces)"
  have es: "concat es = concat pieces" "\<forall>e \<in> set es. e \<noteq> [] \<and> well_formed e"
    using stream_carry [of "[]" pieces] assms(2) by (simp_all add: cut_point_def es_def)
  have "concat (map (text_events api rid mid key) xs) = map (\<lambda>e. chunk_event api rid mid (JObj [(key, JStr e)]) JNull) xs"
    if "\<forall>e \<in> set xs. e \<noteq> []" for api rid mid key xs
    using that by (induction xs) (simp_all add: text_events_def)
  with es assms(1) show ?thesis
    by (intro exI [of _ es]) (auto simp: live_events_def Let_def es_def)
qed

theorem live_stream_complete_witness:
  "\<exists>es. live_events tiny_router ''r'' echo_parser [''hi'', '' there''] =
     map (\<lambda>e. chunk_event (ro_api (cr_base tiny_router)) ''r'' (model_name (ro_cfg (cr_base tiny_router)))
       (JObj [(''content'', JStr e)]) JNull) es \<and> concat es = ''hi there''"
proof -
  have "well_formed (concat [''hi'', '' there''])"
    unfolding well_formed_def
    by (rule exI [of _ "map (\<lambda>c. [c]) ''hi there''"]) (simp add: code_point_def seq_length_def byte_def)
  moreover have "\<not> reasoning_active tiny_router"
    by (simp add: reasoning_active_def tiny_router_def formatter_valid_def)
  ultimately show ?thesis using live_stream_complete [of tiny_router "[''hi'', '' there'']" "''r''" echo_parser] by auto
qed

end
