(* ===== verification/Glob_Match.thy ===== *)
theory Glob_Match
  imports Prelude
begin

text \<open>
  \<open>tool_glob_match\<close> of \<open>src/server/anthropic_router.cpp\<close>: the wildcard matcher with one backtracking point,
  by positions as the code has it, and its equivalence with the meaning of a pattern.
\<close>

section \<open>The matcher\<close>

text \<open>The loop at pattern position \<open>p\<close> and name position \<open>n\<close>; \<open>back\<close> is the last star with the name position
  it was tried at.\<close>

function glob_loop :: "string \<Rightarrow> string \<Rightarrow> nat \<Rightarrow> nat \<Rightarrow> (nat \<times> nat) option \<Rightarrow> bool" where
  "glob_loop pat name p n back =
     (if n < length name
      then if p < length pat \<and> pat ! p = name ! n then glob_loop pat name (p + 1) (n + 1) back
           else if p < length pat \<and> pat ! p = CHR ''*'' then glob_loop pat name (p + 1) n (Some (p, n))
           else (case back of
                   Some (star, mark) \<Rightarrow> glob_loop pat name (star + 1) (mark + 1) (Some (star, mark + 1))
                 | None \<Rightarrow> False)
      else \<forall>c \<in> set (drop p pat). c = CHR ''*'')"
  by pat_completeness auto
termination
  by (relation "measures [\<lambda>(pat, name, p, n, back). case back of None \<Rightarrow> 0 | Some (s, m) \<Rightarrow> if p \<le> s then 1 else 0,
      \<lambda>(pat, name, p, n, back). length pat - (case back of None \<Rightarrow> 0 | Some (s, m) \<Rightarrow> Suc s)
        + (if back = None then 1 else 0),
      \<lambda>(pat, name, p, n, back). length name - (case back of None \<Rightarrow> 0 | Some (s, m) \<Rightarrow> m),
      \<lambda>(pat, name, p, n, back). length name - n]") (auto split: option.splits)

declare glob_loop.simps [simp del]

definition tool_glob_match :: "string \<Rightarrow> string \<Rightarrow> bool" where
  "tool_glob_match pat name = glob_loop pat name 0 0 None"

section \<open>Meaning\<close>

text \<open>A star stands for any text, every other character for itself.\<close>

fun glob :: "string \<Rightarrow> string \<Rightarrow> bool" where
  "glob [] x \<longleftrightarrow> x = []"
| "glob (c # p) x \<longleftrightarrow>
     (if c = CHR ''*'' then \<exists>k \<le> length x. glob p (drop k x)
      else (case x of [] \<Rightarrow> False | d # y \<Rightarrow> c = d \<and> glob p y))"

lemma glob_literal: "CHR ''*'' \<notin> set lit \<Longrightarrow> glob (lit @ p) x \<longleftrightarrow> (\<exists>y. x = lit @ y \<and> glob p y)"
  by (induction lit arbitrary: x) (auto split: list.split)

lemma glob_end: "glob p [] \<longleftrightarrow> (\<forall>c \<in> set p. c = CHR ''*'')"
  by (induction p) auto

section \<open>Equivalence\<close>

text \<open>What holds in the loop: since the last star a literal piece of the pattern has matched the name from
  the mark on.\<close>

definition glob_state :: "string \<Rightarrow> string \<Rightarrow> nat \<Rightarrow> nat \<Rightarrow> nat \<Rightarrow> nat \<Rightarrow> bool" where
  "glob_state pat name s m p n \<longleftrightarrow>
     (\<exists>lit. CHR ''*'' \<notin> set lit \<and> drop s pat = lit @ drop p pat \<and> drop m name = lit @ drop n name \<and>
        p = s + length lit \<and> n = m + length lit \<and> p \<le> length pat \<and> n \<le> length name)"

lemma glob_state_start: "s \<le> length pat \<Longrightarrow> m \<le> length name \<Longrightarrow> glob_state pat name s m s m"
  unfolding glob_state_def by (rule exI [of _ "[]"]) simp

lemma glob_state_step:
  assumes "glob_state pat name s m p n" and "p < length pat" and "n < length name" and "pat ! p = name ! n"
    and "name ! n \<noteq> CHR ''*''"
  shows "glob_state pat name s m (p + 1) (n + 1)"
proof -
  obtain lit where l: "CHR ''*'' \<notin> set lit" "drop s pat = lit @ drop p pat" "drop m name = lit @ drop n name"
    "p = s + length lit" "n = m + length lit" using assms(1) by (auto simp: glob_state_def)
  have "drop p pat = pat ! p # drop (p + 1) pat" "drop n name = name ! n # drop (n + 1) name"
    using assms(2,3) by (simp_all add: Cons_nth_drop_Suc)
  with l assms show ?thesis
    unfolding glob_state_def by (intro exI [of _ "lit @ [name ! n]"]) simp
qed

text \<open>The texts from the mark on that the pattern after the last star matches.\<close>

definition later_match :: "string \<Rightarrow> string \<Rightarrow> nat \<Rightarrow> nat \<Rightarrow> bool" where
  "later_match pat name s m \<longleftrightarrow> (\<exists>k. m \<le> k \<and> k \<le> length name \<and> glob (drop s pat) (drop k name))"

lemma glob_state_here:
  "glob_state pat name s m p n \<Longrightarrow> glob (drop s pat) (drop m name) \<longleftrightarrow> glob (drop p pat) (drop n name)"
  by (auto simp: glob_state_def glob_literal)

lemma later_match_next:
  assumes "glob_state pat name s m p n" and "\<not> glob (drop p pat) (drop n name)"
  shows "later_match pat name s m \<longleftrightarrow> later_match pat name s (m + 1)"
proof
  assume "later_match pat name s m"
  then obtain k where k: "m \<le> k" "k \<le> length name" "glob (drop s pat) (drop k name)"
    unfolding later_match_def by blast
  with glob_state_here [OF assms(1)] assms(2) have "m \<noteq> k" by auto
  with k show "later_match pat name s (m + 1)" unfolding later_match_def by (intro exI [of _ k]) simp
next
  assume "later_match pat name s (m + 1)"
  then obtain k where "m + 1 \<le> k" "k \<le> length name" "glob (drop s pat) (drop k name)"
    unfolding later_match_def by blast
  then show "later_match pat name s m" unfolding later_match_def by (intro exI [of _ k]) simp
qed

lemma later_match_star:
  assumes "glob_state pat name s m p n" and "p < length pat" and "pat ! p = CHR ''*''"
  shows "later_match pat name s m \<longleftrightarrow> later_match pat name (p + 1) n"
proof -
  obtain lit where l: "CHR ''*'' \<notin> set lit" "drop s pat = lit @ drop p pat" "drop m name = lit @ drop n name"
    "n = m + length lit" "n \<le> length name" using assms(1) by (auto simp: glob_state_def)
  have d: "drop p pat = CHR ''*'' # drop (p + 1) pat" using assms(2,3) by (metis Cons_nth_drop_Suc Suc_eq_plus1)
  have g: "glob (drop p pat) x \<longleftrightarrow> (\<exists>k \<le> length x. glob (drop (p + 1) pat) (drop k x))" for x by (simp add: d)
  show ?thesis
  proof
    assume "later_match pat name s m"
    then obtain k where k: "m \<le> k" "k \<le> length name" "glob (lit @ drop p pat) (drop k name)"
      unfolding later_match_def l(2) by blast
    then obtain y where y: "drop k name = lit @ y" "glob (drop p pat) y" using glob_literal [OF l(1)] by blast
    have "drop (length lit) (drop k name) = y" unfolding y(1) by simp
    then have "y = drop (length lit + k) name" by simp
    moreover obtain j where j: "j \<le> length y" "glob (drop (p + 1) pat) (drop j y)" using y(2) g by blast
    ultimately have "glob (drop (p + 1) pat) (drop (k + length lit + j) name)" by (simp add: ac_simps)
    note this j(1)
    moreover have "length y = length name - k - length lit" using arg_cong [OF y(1), of length] by simp
    moreover have "k + length lit \<le> length name" using arg_cong [OF y(1), of length] k(2) by simp
    ultimately show "later_match pat name (p + 1) n"
      unfolding later_match_def using k(1) l(4) by (intro exI [of _ "k + length lit + j"]) simp
  next
    assume "later_match pat name (p + 1) n"
    then obtain k where "n \<le> k" "k \<le> length name" "glob (drop (p + 1) pat) (drop k name)"
      unfolding later_match_def by blast
    then have "glob (drop p pat) (drop n name)"
      unfolding g using le_Suc_ex by (intro exI [of _ "k - n"]) simp
    with glob_state_here [OF assms(1)] l(4,5) show "later_match pat name s m"
      unfolding later_match_def by (intro exI [of _ m]) simp
  qed
qed

lemma later_match_end:
  assumes "glob_state pat name s m p (length name)"
  shows "later_match pat name s m \<longleftrightarrow> (\<forall>c \<in> set (drop p pat). c = CHR ''*'')"
proof -
  obtain lit where l: "CHR ''*'' \<notin> set lit" "drop s pat = lit @ drop p pat" "length name = m + length lit"
    using assms unfolding glob_state_def by blast
  show ?thesis
  proof
    assume "later_match pat name s m"
    then obtain k where m: "m \<le> k" and "glob (lit @ drop p pat) (drop k name)"
      unfolding later_match_def l(2) by blast
    from this(2) obtain y where y: "drop k name = lit @ y" "glob (drop p pat) y"
      unfolding glob_literal [OF l(1)] by blast
    note k = m y
    have "length name - k = length lit + length y" using arg_cong [OF k(2), of length] by simp
    with k(1) l(3) have "length y = 0" by arith
    then have "y = []" by simp
    with k(3) glob_end show "\<forall>c \<in> set (drop p pat). c = CHR ''*''" by blast
  next
    assume "\<forall>c \<in> set (drop p pat). c = CHR ''*''"
    then have "glob (drop p pat) (drop (length name) name)" by (simp add: glob_end)
    with glob_state_here [OF assms] l(3) show "later_match pat name s m"
      unfolding later_match_def by (intro exI [of _ m]) simp
  qed
qed

lemma mismatch:
  assumes "n < length name" and "\<not> (p < length pat \<and> pat ! p = name ! n)"
    and "\<not> (p < length pat \<and> pat ! p = CHR ''*'')"
  shows "\<not> glob (drop p pat) (drop n name)"
proof (cases "p < length pat")
  case True
  then have "drop p pat = pat ! p # drop (p + 1) pat" "drop n name = name ! n # drop (n + 1) name"
    using assms(1) by (simp_all add: Cons_nth_drop_Suc)
  with assms(2,3) True show ?thesis by simp
qed (use assms(1) in simp)

lemma glob_loop_other:
  "n < length name \<Longrightarrow> \<not> (p < length pat \<and> pat ! p = name ! n) \<Longrightarrow> \<not> (p < length pat \<and> pat ! p = CHR ''*'') \<Longrightarrow>
   glob_loop pat name p n back = (case back of
     Some (star, mark) \<Rightarrow> glob_loop pat name (star + 1) (mark + 1) (Some (star, mark + 1)) | None \<Rightarrow> False)"
  by (simp only: glob_loop.simps [of pat name p n "back"] if_True if_False)

lemma glob_loop_back:
  "CHR ''*'' \<notin> set name \<Longrightarrow> glob_state pat name (s + 1) m p n \<Longrightarrow> s < length pat \<Longrightarrow>
   glob_loop pat name p n (Some (s, m)) \<longleftrightarrow> later_match pat name (s + 1) m"
proof (induction pat name p n "Some (s, m)" arbitrary: s m rule: glob_loop.induct)
  case (1 pat name p n)
  note st = 1(5)
  have b: "p \<le> length pat" "n \<le> length name" "m \<le> n" using st by (auto simp: glob_state_def)
  show ?case
  proof (cases "n < length name")
    case False
    with b(2) st later_match_end show ?thesis by (subst glob_loop.simps) auto
  next
    case n: True
    then have ns: "name ! n \<noteq> CHR ''*''" using 1(4) nth_mem by metis
    consider (same) "p < length pat" "pat ! p = name ! n"
      | (star) "p < length pat" "pat ! p = CHR ''*''"
      | (other) "\<not> (p < length pat \<and> pat ! p = name ! n)" "\<not> (p < length pat \<and> pat ! p = CHR ''*'')" by blast
    then show ?thesis
    proof cases
      case same
      then have c: "p < length pat \<and> pat ! p = name ! n" by simp
      from 1(1) [OF n c 1(4) glob_state_step [OF st same(1) n same(2) ns] 1(6)] n same show ?thesis
        by (subst glob_loop.simps) simp
    next
      case star
      with ns have x: "\<not> (p < length pat \<and> pat ! p = name ! n)" by auto
      have "glob_state pat name (p + 1) n (p + 1) n" using star(1) n by (intro glob_state_start) auto
      from 1(2) [OF n x conjI [OF star] 1(4) this star(1)] star n x later_match_star [OF st star] show ?thesis
        by (subst glob_loop.simps) simp
    next
      case other
      have "glob_state pat name (s + 1) (m + 1) (s + 1) (m + 1)"
        using 1(6) b n by (intro glob_state_start) auto
      from 1(3) [OF n other refl refl 1(4) this 1(6)] later_match_next [OF st mismatch [OF n other]]
      show ?thesis by (simp add: glob_loop_other [OF n other])
    qed
  qed
qed

lemma glob_loop_start:
  "CHR ''*'' \<notin> set name \<Longrightarrow> glob_state pat name 0 0 p n \<Longrightarrow>
   glob_loop pat name p n None \<longleftrightarrow> glob pat name"
proof (induction pat name p n "None :: (nat \<times> nat) option" rule: glob_loop.induct)
  case (1 pat name p n)
  note st = 1(3)
  have b: "p \<le> length pat" "n \<le> length name" using st by (auto simp: glob_state_def)
  have here: "glob pat name \<longleftrightarrow> glob (drop p pat) (drop n name)" using glob_state_here [OF st] by simp
  show ?case
  proof (cases "n < length name")
    case False
    with b(2) here show ?thesis by (subst glob_loop.simps) (simp add: glob_end)
  next
    case n: True
    then have ns: "name ! n \<noteq> CHR ''*''" using 1(2) nth_mem by metis
    consider (same) "p < length pat" "pat ! p = name ! n"
      | (star) "p < length pat" "pat ! p = CHR ''*''"
      | (other) "\<not> (p < length pat \<and> pat ! p = name ! n)" "\<not> (p < length pat \<and> pat ! p = CHR ''*'')" by blast
    then show ?thesis
    proof cases
      case same
      then have c: "p < length pat \<and> pat ! p = name ! n" by simp
      from 1(1) [OF n c 1(2) glob_state_step [OF st same(1) n same(2) ns]] n same show ?thesis
        by (subst glob_loop.simps) simp
    next
      case star
      have "glob_state pat name (p + 1) n (p + 1) n" using star(1) n by (intro glob_state_start) auto
      from glob_loop_back [OF 1(2) this star(1)] have "glob_loop pat name (p + 1) n (Some (p, n)) \<longleftrightarrow>
          (\<exists>k. n \<le> k \<and> k \<le> length name \<and> glob (drop (p + 1) pat) (drop k name))"
        by (simp add: later_match_def)
      also have "\<dots> \<longleftrightarrow> (\<exists>k \<le> length (drop n name). glob (drop (p + 1) pat) (drop k (drop n name)))"
      proof
        assume "\<exists>k. n \<le> k \<and> k \<le> length name \<and> glob (drop (p + 1) pat) (drop k name)"
        then obtain k where "n \<le> k" "k \<le> length name" "glob (drop (p + 1) pat) (drop k name)" by blast
        then show "\<exists>k \<le> length (drop n name). glob (drop (p + 1) pat) (drop k (drop n name))"
          by (intro exI [of _ "k - n"]) simp
      next
        assume "\<exists>k \<le> length (drop n name). glob (drop (p + 1) pat) (drop k (drop n name))"
        then obtain k where "k \<le> length name - n" "glob (drop (p + 1) pat) (drop (n + k) name)"
          by (auto simp: add.commute)
        then show "\<exists>k. n \<le> k \<and> k \<le> length name \<and> glob (drop (p + 1) pat) (drop k name)"
          using n by (intro exI [of _ "n + k"]) simp
      qed
      also have "\<dots> \<longleftrightarrow> glob (drop p pat) (drop n name)"
        using star by (subst (2) Cons_nth_drop_Suc [symmetric]) simp_all
      finally show ?thesis using star n ns here by (subst glob_loop.simps) auto
    next
      case other
      with here mismatch [OF n other] show ?thesis by (simp add: glob_loop_other [OF n other])
    qed
  qed
qed



text \<open>A star in a name is compared before it is taken as a wildcard, so a pattern can miss a name it
  should match.\<close>

theorem glob_match_literal_star: "\<not> tool_glob_match ''*b'' ''*xb'' \<and> glob ''*b'' ''*xb''"
  by (simp add: tool_glob_match_def glob_loop.simps) (rule exI [of _ 2], simp)

end
