(* ===== verification/Anthropic_Request.thy ===== *)
theory Anthropic_Request
  imports Glob_Match Chat_Handler
begin

text \<open>
  The request translation of \<open>src/server/anthropic_router.cpp\<close>: from an Anthropic \<open>Messages\<close> request to the
  body of a chat completion. An exception of the JSON accessors is \<^const>\<open>None\<close>.
\<close>

section \<open>System prompt\<close>

definition append_part :: "string \<Rightarrow> string \<Rightarrow> string" where
  "append_part sys s = (if s = [] then sys else (if sys = [] then [] else sys @ two_nl) @ s)"

definition join_line :: "string \<Rightarrow> string \<Rightarrow> string" where
  "join_line acc s = (if acc = [] then [] else acc @ nl) @ s"

text \<open>A loop over a JSON array that threads an accumulator and may throw.\<close>

fun ofold :: "('a \<Rightarrow> 'b \<Rightarrow> 'b option) \<Rightarrow> 'a list \<Rightarrow> 'b \<Rightarrow> 'b option" where
  "ofold f [] acc = Some acc"
| "ofold f (x # xs) acc = (case f x acc of None \<Rightarrow> None | Some acc' \<Rightarrow> ofold f xs acc')"

definition system_text_block :: "json_api \<Rightarrow> json \<Rightarrow> string \<Rightarrow> string option" where
  "system_text_block api b acc =
     Option.bind (j_str api b ''type'' []) (\<lambda>ty.
       if ty = ''text'' then map_option (join_line acc) (j_str api b ''text'' []) else Some acc)"

text \<open>A line that is added when the entry has the key.\<close>

definition entry_line :: "json_api \<Rightarrow> json \<Rightarrow> string \<Rightarrow> string option" where
  "entry_line api a key = (if j_contains a key then map_option (\<lambda>s. s @ nl) (j_str api a key []) else Some [])"

definition agent_entry :: "json_api \<Rightarrow> json \<Rightarrow> string \<Rightarrow> string option" where
  "agent_entry api a block =
     Option.bind (j_str api a ''name'' ''agent'') (\<lambda>name.
     Option.bind (entry_line api a ''description'') (\<lambda>d.
     Option.bind (entry_line api a ''prompt'') (\<lambda>p.
       Some (block @ nl @ ''## '' @ name @ nl @ d @ p))))"

definition agents_heading :: string where
  "agents_heading = ''# Available agents'' @ nl @
     ''Specialised agents you may delegate focused sub-tasks to. Each has its own remit; use the closest match.'' @ nl"

definition limited_note :: string where
  "limited_note = ''While this skill is active only its permitted tools are offered; do not expect others.'' @ nl"

definition skill_entry :: "json_api \<Rightarrow> json \<Rightarrow> string \<Rightarrow> string option" where
  "skill_entry api sk block =
     Option.bind (j_str api sk ''name'' ''skill'') (\<lambda>name.
     Option.bind (entry_line api sk ''description'') (\<lambda>d.
     Option.bind (entry_line api sk ''instructions'') (\<lambda>i.
       Some (block @ nl @ ''## '' @ name @ nl @ d @ i @
         (case j_entry sk ''allowed_tools'' of None \<Rightarrow> [] | Some JNull \<Rightarrow> [] | Some v \<Rightarrow> limited_note)))))"

definition skills_heading :: string where
  "skills_heading = ''# Available skills'' @ nl @
     ''Skills extend what you can do.  Apply a skill'' @ CHR 0x27 # ''s instructions when its description matches the task.'' @ nl"

text \<open>The block of a nonempty array of the extension object.\<close>

definition listing :: "(json \<Rightarrow> string \<Rightarrow> string option) \<Rightarrow> string \<Rightarrow> json option \<Rightarrow> string option" where
  "listing entry heading v =
     (case v of Some (JArr (x # xs)) \<Rightarrow> ofold entry (x # xs) heading | _ \<Rightarrow> Some [])"

definition extension :: "json \<Rightarrow> json option" where
  "extension areq = (case j_entry areq ''truellm'' of Some (JObj kvs) \<Rightarrow> Some (JObj kvs) | _ \<Rightarrow> None)"

definition compose_system :: "json_api \<Rightarrow> json \<Rightarrow> string option" where
  "compose_system api areq =
     Option.bind (case j_entry areq ''system'' of
         Some (JStr s) \<Rightarrow> Some (append_part [] s)
       | Some (JArr bs) \<Rightarrow> map_option (append_part []) (ofold (system_text_block api) bs [])
       | _ \<Rightarrow> Some []) (\<lambda>sys.
       case extension areq of
         None \<Rightarrow> Some sys
       | Some t \<Rightarrow>
           Option.bind (listing (agent_entry api) agents_heading (j_entry t ''agents'')) (\<lambda>agents.
           Option.bind (listing (skill_entry api) skills_heading (j_entry t ''skills'')) (\<lambda>skills.
             Some (append_part (append_part
               (case j_entry t ''system_prompt'' of Some (JStr s) \<Rightarrow> append_part sys s | _ \<Rightarrow> sys) agents) skills))))"

section \<open>Messages\<close>

definition text_block :: "json_api \<Rightarrow> json \<Rightarrow> string \<Rightarrow> string \<Rightarrow> string option" where
  "text_block api blk ty acc =
     (if ty = ''text'' then map_option (join_line acc) (j_str api blk ''text'' [])
      else if ty = ''image'' then Some (join_line acc ''[image]'')
      else Some acc)"

definition blocks_to_text :: "json_api \<Rightarrow> json \<Rightarrow> string option" where
  "blocks_to_text api content =
     (case content of
        JStr s \<Rightarrow> Some s
      | JArr bs \<Rightarrow>
          ofold (\<lambda>b acc. Option.bind (j_str api b ''type'' []) (\<lambda>ty. text_block api b ty acc)) bs []
      | _ \<Rightarrow> Some [])"

text \<open>One block of a message: its text, its calls and its results.\<close>

definition tool_use_call :: "json_api \<Rightarrow> json \<Rightarrow> json option" where
  "tool_use_call api blk =
     (case (j_str api blk ''id'' [], j_str api blk ''name'' []) of
        (Some cid, Some name) \<Rightarrow>
          Some (call_json cid name (JStr (j_dump api
            (case j_entry blk ''input'' of None \<Rightarrow> JObj [] | Some v \<Rightarrow> v))))
      | _ \<Rightarrow> None)"

definition tool_result_message :: "json_api \<Rightarrow> json \<Rightarrow> json option" where
  "tool_result_message api blk =
     (case (j_str api blk ''tool_use_id'' [],
            blocks_to_text api (case j_entry blk ''content'' of None \<Rightarrow> JStr [] | Some v \<Rightarrow> v)) of
        (Some cid, Some t) \<Rightarrow> Some (tool_message (cid, t))
      | _ \<Rightarrow> None)"

definition message_block ::
  "json_api \<Rightarrow> json \<Rightarrow> string \<times> json list \<times> json list \<Rightarrow> (string \<times> json list \<times> json list) option" where
  "message_block api blk acc =
     (case acc of (t, calls, results) \<Rightarrow>
        Option.bind (j_str api blk ''type'' []) (\<lambda>ty.
          if ty = ''tool_use'' then map_option (\<lambda>c. (t, calls @ [c], results)) (tool_use_call api blk)
          else if ty = ''tool_result'' then map_option (\<lambda>r. (t, calls, results @ [r])) (tool_result_message api blk)
          else map_option (\<lambda>t'. (t', calls, results)) (text_block api blk ty t)))"

definition unfold_turn :: "string \<Rightarrow> string \<times> json list \<times> json list \<Rightarrow> json list" where
  "unfold_turn role parts =
     (case parts of (t, calls, results) \<Rightarrow>
        results @
        (if role = ''assistant'' \<and> calls \<noteq> []
         then [JObj [(''role'', JStr ''assistant''), (''content'', JStr t), (''tool_calls'', JArr calls)]]
         else if t \<noteq> [] \<or> results = [] then [plain_message role t]
         else []))"

definition translate_message :: "json_api \<Rightarrow> json \<Rightarrow> json list option" where
  "translate_message api m =
     Option.bind (j_str api m ''role'' ''user'') (\<lambda>role.
       case (case j_entry m ''content'' of None \<Rightarrow> JStr [] | Some v \<Rightarrow> v) of
         JStr s \<Rightarrow> Some [plain_message role s]
       | JArr bs \<Rightarrow> map_option (unfold_turn role) (ofold (message_block api) bs ([], [], []))
       | _ \<Rightarrow> Some [plain_message role []])"

definition translate_messages :: "json_api \<Rightarrow> json \<Rightarrow> json list option" where
  "translate_messages api amsgs =
     (case amsgs of
        JArr ms \<Rightarrow> ofold (\<lambda>m acc. map_option (\<lambda>xs. acc @ xs) (translate_message api m)) ms []
      | _ \<Rightarrow> Some [])"

section \<open>Tools\<close>

definition function_tool :: "string \<Rightarrow> string \<Rightarrow> json \<Rightarrow> json" where
  "function_tool name desc params =
     JObj [(''type'', JStr ''function''),
       (''function'', JObj [(''name'', JStr name), (''description'', JStr desc), (''parameters'', params)])]"

definition translate_tool :: "json_api \<Rightarrow> json \<Rightarrow> json option" where
  "translate_tool api t =
     (case (j_str api t ''name'' [], j_str api t ''description'' []) of
        (Some name, Some desc) \<Rightarrow>
          Some (function_tool name desc
            (case j_entry t ''input_schema'' of Some (JObj kvs) \<Rightarrow> JObj kvs | _ \<Rightarrow> JObj []))
      | _ \<Rightarrow> None)"

definition translate_tools :: "json_api \<Rightarrow> json \<Rightarrow> json list option" where
  "translate_tools api atools =
     (case atools of JArr ts \<Rightarrow> those_of (map (translate_tool api) ts) | _ \<Rightarrow> Some [])"

definition agent_parameters :: json where
  "agent_parameters =
     JObj [(''type'', JStr ''object''),
       (''properties'', JObj [(''prompt'', JObj [(''type'', JStr ''string''),
          (''description'', JStr ''Self-contained task description for the agent'')])]),
       (''required'', JArr [JStr ''prompt''])]"

definition agent_tool :: "json_api \<Rightarrow> json \<Rightarrow> json list \<Rightarrow> json list option" where
  "agent_tool api a acc =
     Option.bind (j_str api a ''name'' []) (\<lambda>name.
       if name = [] then Some acc
       else map_option (\<lambda>d. acc @ [function_tool (''agent_'' @ name)
               (''Delegate a focused, self-contained sub-task to the '' @ CHR 0x27 # name @ CHR 0x27 # '' agent. '' @ d)
               agent_parameters]) (j_str api a ''description'' []))"

definition agent_tools :: "json_api \<Rightarrow> json \<Rightarrow> json list option" where
  "agent_tools api areq =
     (case extension areq of
        None \<Rightarrow> Some []
      | Some t \<Rightarrow> (case j_entry t ''agents'' of Some (JArr as) \<Rightarrow> ofold (agent_tool api) as [] | _ \<Rightarrow> Some []))"

section \<open>Skills that scope the tools\<close>

text \<open>The comma-separated patterns: the scan of the allow-list without its tests.\<close>

function csv_tokens :: "string \<Rightarrow> nat \<Rightarrow> string list" where
  "csv_tokens raw pos =
     (if pos \<le> length raw
      then (case entry_token raw pos of Some tok \<Rightarrow> if tok = [] then [] else [tok] | None \<Rightarrow> []) @
           (if entry_end raw pos = length raw then [] else csv_tokens raw (entry_end raw pos + 1))
      else [])"
  by pat_completeness auto
termination
proof (relation "measure (\<lambda>(raw, pos). length raw - pos)", goal_cases)
  case (2 raw pos)
  then have "pos < length raw" using entry_end_ge [of pos raw]
    by (cases "pos = length raw") (auto simp: entry_end_def find_from_def)
  with entry_end_ge [of pos raw] show ?case by simp
qed simp

declare csv_tokens.simps [simp del]

definition skill_patterns :: "json \<Rightarrow> string list" where
  "skill_patterns sk =
     (case j_entry sk ''allowed_tools'' of
        Some (JStr s) \<Rightarrow> csv_tokens s 0
      | Some (JArr es) \<Rightarrow> concat (map (\<lambda>s. csv_tokens s 0) (str_list es))
      | _ \<Rightarrow> [])"

definition skill_tool_patterns :: "json \<Rightarrow> string list" where
  "skill_tool_patterns areq =
     (case path_entry areq [''truellm'', ''skills''] of
        Some (JArr sks) \<Rightarrow> concat (map skill_patterns sks)
      | _ \<Rightarrow> [])"

definition tool_name :: "json_api \<Rightarrow> json \<Rightarrow> string option" where
  "tool_name api t = Option.bind (j_value t ''function'' (JObj [])) (\<lambda>fn. j_str api fn ''name'' [])"

definition gate_tools :: "json_api \<Rightarrow> json list \<Rightarrow> string list \<Rightarrow> json list option" where
  "gate_tools api tools pats =
     (if pats = [] then Some tools
      else ofold (\<lambda>t acc. map_option (\<lambda>name. if list_ex (\<lambda>p. tool_glob_match p name) pats then acc @ [t] else acc)
             (tool_name api t)) tools [])"

section \<open>The whole request\<close>

definition translated_choice :: "json_api \<Rightarrow> json \<Rightarrow> (string \<times> json) list option" where
  "translated_choice api areq =
     (case j_entry areq ''tool_choice'' of
        Some (JObj kvs) \<Rightarrow>
          Option.bind (j_str api (JObj kvs) ''type'' ''auto'') (\<lambda>tt.
            if tt = ''auto'' then Some [(''tool_choice'', JStr ''auto'')]
            else if tt = ''any'' then Some [(''tool_choice'', JStr ''required'')]
            else if tt = ''tool''
            then map_option (\<lambda>n. [(''tool_choice'', JObj [(''type'', JStr ''function''),
                   (''function'', JObj [(''name'', JStr n)])])]) (j_str api (JObj kvs) ''name'' [])
            else Some [])
      | _ \<Rightarrow> Some [])"

definition request_tools :: "json_api \<Rightarrow> json \<Rightarrow> json list option" where
  "request_tools api areq =
     Option.bind (case j_entry areq ''tools'' of Some (JArr ts) \<Rightarrow> translate_tools api (JArr ts) | _ \<Rightarrow> Some []) (\<lambda>ts.
     Option.bind (agent_tools api areq) (\<lambda>as.
       gate_tools api (ts @ as) (skill_tool_patterns areq)))"

definition context_metadata :: "json \<Rightarrow> (string \<times> json) list" where
  "context_metadata areq =
     (let given = (case path_entry areq [''truellm'', ''context_metadata''] of Some (JObj kvs) \<Rightarrow> kvs | _ \<Rightarrow> [])
      in case (map_of given ''session.id'', path_entry areq [''metadata'', ''user_id'']) of
           (None, Some (JStr s)) \<Rightarrow> given @ [(''session.id'', JStr s)]
         | _ \<Rightarrow> given)"

definition copied :: "json \<Rightarrow> string \<Rightarrow> (string \<times> json) list" where
  "copied areq key = (case j_entry areq key of None \<Rightarrow> [] | Some v \<Rightarrow> [(key, v)])"

definition translate_request :: "json_api \<Rightarrow> json_get \<Rightarrow> json \<Rightarrow> json option" where
  "translate_request api jg areq =
     Option.bind (j_str api areq ''model'' ''default'') (\<lambda>model.
     Option.bind (compose_system api areq) (\<lambda>sys.
     Option.bind (Option.bind (j_value areq ''messages'' (JArr [])) (translate_messages api)) (\<lambda>msgs.
     Option.bind (body_get (jg_s32 jg) areq ''max_tokens'' 1024) (\<lambda>mt.
     Option.bind (request_tools api areq) (\<lambda>tools.
     Option.bind (if tools = [] then Some [] else translated_choice api areq) (\<lambda>choice.
       Some (JObj ([(''model'', JStr model),
           (''messages'', JArr ((if sys = [] then [] else [plain_message ''system'' sys]) @ msgs)),
           (''max_tokens'', JInt mt)] @ copied areq ''temperature'' @ copied areq ''top_p'' @
           (case j_entry areq ''stop_sequences'' of Some (JArr ss) \<Rightarrow> [(''stop'', JArr ss)] | _ \<Rightarrow> []) @
           (if tools = [] then [] else [(''tools'', JArr tools)]) @ choice @
           [(''stream'', JBool False),
            (''extra_body'', JObj [(''truellm'', JObj ((''client_tools'', JBool True) #
               (if context_metadata areq = [] then []
                else [(''context_metadata'', JObj (context_metadata areq))])))])]))))))))"

end
