(* ===== verification/Anthropic_Router.thy ===== *)
theory Anthropic_Router
  imports Anthropic_Request
begin

text \<open>
  The response translation, the event replay and the two handlers of \<open>src/server/anthropic_router.cpp\<close>. The
  chat handler it delegates to is that of \<open>OpenAIRouter\<close>.
\<close>

section \<open>Response\<close>

definition or_object :: "json option \<Rightarrow> json" where
  "or_object v = (case v of None \<Rightarrow> JObj [] | Some x \<Rightarrow> x)"

definition tool_use_block :: "string \<Rightarrow> string \<Rightarrow> json \<Rightarrow> json" where
  "tool_use_block cid name inp =
     JObj [(''type'', JStr ''tool_use''), (''id'', JStr cid), (''name'', JStr name), (''input'', inp)]"

definition text_json :: "string \<Rightarrow> json" where
  "text_json t = JObj [(''type'', JStr ''text''), (''text'', JStr t)]"

text \<open>The arguments of a call as an object; what cannot be read or parsed is an empty one.\<close>

definition call_input :: "json_api \<Rightarrow> json \<Rightarrow> json" where
  "call_input api fn =
     (case Option.bind (j_str api fn ''arguments'' ''{}'') (j_parse api) of
        Some (JObj kvs) \<Rightarrow> JObj kvs
      | _ \<Rightarrow> JObj [])"

definition call_block :: "json_api \<Rightarrow> json \<Rightarrow> json option" where
  "call_block api tc =
     (let fn = or_object (j_entry tc ''function'')
      in case (j_str api tc ''id'' [], j_str api fn ''name'' []) of
           (Some cid, Some name) \<Rightarrow> Some (tool_use_block cid name (call_input api fn))
         | _ \<Rightarrow> None)"

definition content_blocks :: "string \<Rightarrow> string \<Rightarrow> json list \<Rightarrow> json list" where
  "content_blocks reasoning t calls =
     (let bs = (if reasoning = [] then [] else [JObj [(''type'', JStr ''thinking''), (''thinking'', JStr reasoning)]]) @
               (if t = [] then [] else [text_json t]) @ calls
      in if bs = [] then [text_json []] else bs)"

definition stop_reason :: "string \<Rightarrow> string" where
  "stop_reason finish =
     (if finish = ''length'' then ''max_tokens'' else if finish = ''tool_calls'' then ''tool_use'' else ''end_turn'')"

definition first_choice :: "json \<Rightarrow> json" where
  "first_choice oresp = (case j_entry oresp ''choices'' of Some (JArr (c # cs)) \<Rightarrow> c | _ \<Rightarrow> JObj [])"

definition message_calls :: "json_api \<Rightarrow> json \<Rightarrow> json list option" where
  "message_calls api msg =
     (case j_entry msg ''tool_calls'' of Some (JArr tcs) \<Rightarrow> those_of (map (call_block api) tcs) | _ \<Rightarrow> Some [])"

definition anthropic_message :: "string \<Rightarrow> string \<Rightarrow> json list \<Rightarrow> string \<Rightarrow> int \<Rightarrow> int \<Rightarrow> json" where
  "anthropic_message mid model content stop inp out =
     JObj [(''id'', JStr mid), (''type'', JStr ''message''), (''role'', JStr ''assistant''), (''model'', JStr model),
       (''content'', JArr content), (''stop_reason'', JStr stop), (''stop_sequence'', JNull),
       (''usage'', JObj [(''input_tokens'', JInt inp), (''output_tokens'', JInt out)])]"

definition translate_response :: "json_api \<Rightarrow> json_get \<Rightarrow> string \<Rightarrow> json \<Rightarrow> json option" where
  "translate_response api jg mid oresp =
     (let choice = first_choice oresp; msg = or_object (j_entry choice ''message'');
          usage = or_object (j_entry oresp ''usage'')
      in case (j_str api choice ''finish_reason'' ''stop'', j_str api msg ''content'' [],
               j_str api msg ''reasoning_content'' [], message_calls api msg, j_str api oresp ''model'' ''default'',
               body_get (jg_s32 jg) usage ''prompt_tokens'' 0, body_get (jg_s32 jg) usage ''completion_tokens'' 0) of
           (Some finish, Some t, Some reasoning, Some calls, Some model, Some inp, Some out) \<Rightarrow>
             Some (anthropic_message mid model (content_blocks reasoning t calls) (stop_reason finish) inp out)
         | _ \<Rightarrow> None)"

section \<open>Events\<close>

definition named_event :: "json_api \<Rightarrow> string \<Rightarrow> json \<Rightarrow> string" where
  "named_event api event data = ''event: '' @ event @ nl @ ''data: '' @ j_dump api data @ two_nl"

definition block_start :: "json_api \<Rightarrow> nat \<Rightarrow> json \<Rightarrow> string" where
  "block_start api idx b =
     named_event api ''content_block_start''
       (JObj [(''type'', JStr ''content_block_start''), (''index'', JInt (int idx)), (''content_block'', b)])"

definition block_delta :: "json_api \<Rightarrow> nat \<Rightarrow> json \<Rightarrow> string" where
  "block_delta api idx d =
     named_event api ''content_block_delta''
       (JObj [(''type'', JStr ''content_block_delta''), (''index'', JInt (int idx)), (''delta'', d)])"

definition block_stop :: "json_api \<Rightarrow> nat \<Rightarrow> string" where
  "block_stop api idx =
     named_event api ''content_block_stop'' (JObj [(''type'', JStr ''content_block_stop''), (''index'', JInt (int idx))])"

definition block_events :: "json_api \<Rightarrow> nat \<Rightarrow> json \<Rightarrow> string option" where
  "block_events api idx blk =
     Option.bind (j_str api blk ''type'' ''text'') (\<lambda>ty.
       if ty = ''thinking''
       then map_option (\<lambda>t.
              block_start api idx (JObj [(''type'', JStr ''thinking''), (''thinking'', JStr [])]) @
              block_delta api idx (JObj [(''type'', JStr ''thinking_delta''), (''thinking'', JStr t)]) @
              block_stop api idx) (j_str api blk ''thinking'' [])
       else if ty = ''tool_use''
       then (case (j_str api blk ''id'' [], j_str api blk ''name'' []) of
               (Some cid, Some name) \<Rightarrow> Some
                 (block_start api idx (tool_use_block cid name (JObj [])) @
                  block_delta api idx (JObj [(''type'', JStr ''input_json_delta''),
                    (''partial_json'', JStr (j_dump api (or_object (j_entry blk ''input''))))]) @
                  block_stop api idx)
             | _ \<Rightarrow> None)
       else map_option (\<lambda>t.
              block_start api idx (text_json []) @
              block_delta api idx (JObj [(''type'', JStr ''text_delta''), (''text'', JStr t)]) @
              block_stop api idx) (j_str api blk ''text'' []))"

fun blocks_events :: "json_api \<Rightarrow> nat \<Rightarrow> json list \<Rightarrow> string option" where
  "blocks_events api idx [] = Some []"
| "blocks_events api idx (b # bs) =
     Option.bind (block_events api idx b) (\<lambda>e. map_option (\<lambda>r. e @ r) (blocks_events api (idx + 1) bs))"

text \<open>The replay of a finished message, whose \<open>model\<close> is the one the client asked for.\<close>

definition render_sse_stream :: "json_api \<Rightarrow> string \<Rightarrow> json \<Rightarrow> json list \<Rightarrow> string \<Rightarrow> int \<Rightarrow> int \<Rightarrow> string option" where
  "render_sse_stream api mid model content stop inp out =
     map_option (\<lambda>events.
       named_event api ''message_start'' (JObj [(''type'', JStr ''message_start''), (''message'',
         JObj [(''type'', JStr ''message''), (''id'', JStr mid), (''role'', JStr ''assistant''), (''model'', model),
           (''content'', JArr []), (''stop_reason'', JNull), (''stop_sequence'', JNull),
           (''usage'', JObj [(''input_tokens'', JInt inp), (''output_tokens'', JInt 0)])])]) @
       events @
       named_event api ''message_delta'' (JObj [(''type'', JStr ''message_delta''),
         (''delta'', JObj [(''stop_reason'', JStr stop), (''stop_sequence'', JNull)]),
         (''usage'', JObj [(''output_tokens'', JInt out)])]) @
       named_event api ''message_stop'' (JObj [(''type'', JStr ''message_stop'')]))
       (blocks_events api 0 content)"

text \<open>The replay of the object \<open>translate_response\<close> made.\<close>

definition render_message :: "json_api \<Rightarrow> json \<Rightarrow> string option" where
  "render_message api amsg =
     (case (j_entry amsg ''id'', j_entry amsg ''model'', j_entry amsg ''content'', j_entry amsg ''stop_reason'',
            path_entry amsg [''usage'', ''input_tokens''], path_entry amsg [''usage'', ''output_tokens'']) of
        (Some (JStr mid), Some model, Some (JArr content), Some (JStr stop), Some (JInt inp), Some (JInt out)) \<Rightarrow>
          render_sse_stream api mid model content stop inp out
      | _ \<Rightarrow> None)"

section \<open>Handlers\<close>

text \<open>\<open>new_id\<close> is made of the clock and a counter, and is a parameter. The headers of a reply are left out.\<close>

record ('v, 'c) anthropic_router =
  an_chat :: "('v, 'c) chat_router"
  an_next_id :: "string \<Rightarrow> 'v world \<Rightarrow> 'v world \<times> string"

definition anthropic_error :: "string \<Rightarrow> string \<Rightarrow> json" where
  "anthropic_error ty msg =
     JObj [(''type'', JStr ''error''), (''error'', JObj [(''type'', JStr ty), (''message'', JStr msg)])]"

definition anthropic_fail :: "json_api \<Rightarrow> nat \<Rightarrow> string \<Rightarrow> string \<Rightarrow> reply" where
  "anthropic_fail api status ty msg = Json_Reply status (j_dump api (anthropic_error ty msg))"

text \<open>The message of an upstream error.\<close>

definition upstream_message :: "json_api \<Rightarrow> string \<Rightarrow> string" where
  "upstream_message api body =
     (case Option.bind (j_parse api body) (\<lambda>e. j_entry e ''error'') of
        Some (JObj kvs) \<Rightarrow> (case j_str api (JObj kvs) ''message'' ''upstream error'' of Some m \<Rightarrow> m | None \<Rightarrow> ''upstream error'')
      | Some (JStr s) \<Rightarrow> s
      | _ \<Rightarrow> ''upstream error'')"

text \<open>A chunked upstream reply has no body text when the handler looks at it.\<close>

fun upstream_parts :: "reply \<Rightarrow> nat \<times> string" where
  "upstream_parts (Json_Reply status body) = (status, body)"
| "upstream_parts (Event_Stream es) = (200, [])"

definition with_model :: "json \<Rightarrow> json \<Rightarrow> json" where
  "with_model areq amsg =
     (case j_entry areq ''model'' of Some (JStr m) \<Rightarrow> j_set amsg ''model'' (JStr m) | _ \<Rightarrow> amsg)"

definition finish_message ::
  "('v, 'c) anthropic_router \<Rightarrow> json \<Rightarrow> bool \<Rightarrow> string \<Rightarrow> ('v world, reply) act" where
  "finish_message A areq want_stream body =
     (let r = cr_base (an_chat A); api = ro_api r
      in andthen (orthrow (j_parse api body)) (\<lambda>oresp.
         andthen (stepping (an_next_id A ''msg_'')) (\<lambda>mid.
         andthen (orthrow (translate_response api (ro_get r) mid oresp)) (\<lambda>amsg0.
           let amsg = with_model areq amsg0
           in andthen (stepping (an_next_id A ''req_'')) (\<lambda>rid.
                if want_stream
                then andthen (orthrow (render_message api amsg)) (\<lambda>events. ret (Event_Stream [events]))
                else ret (Json_Reply 200 (j_dump api amsg)))))))"

definition run_message ::
  "('v, 'c) anthropic_router \<Rightarrow> http_request \<Rightarrow> json \<Rightarrow> bool \<Rightarrow> ('v world, reply) act" where
  "run_message A req areq want_stream =
     (let r = cr_base (an_chat A); api = ro_api r
      in andthen (orthrow (translate_request api (ro_get r) areq)) (\<lambda>obody.
         andthen (handle_chat_completions (an_chat A) (req\<lparr>rq_body := j_dump api obody\<rparr>)) (\<lambda>ores.
           let (status, body) = upstream_parts ores
           in if 400 \<le> status then ret (anthropic_fail api status ''api_error'' (upstream_message api body))
              else finish_message A areq want_stream body)))"

definition handle_messages :: "('v, 'c) anthropic_router \<Rightarrow> http_request \<Rightarrow> ('v world, reply) act" where
  "handle_messages A req =
     (let R = an_chat A; r = cr_base R; api = ro_api r
      in case j_parse api (rq_body req) of
           None \<Rightarrow> ret (anthropic_fail api 400 ''invalid_request_error'' ''Invalid JSON body'')
         | Some areq \<Rightarrow>
             if ro_engine r = None then ret (anthropic_fail api 503 ''api_error'' ''Server not ready'')
             else andthen (orthrow (body_get (jg_bool (ro_get r)) areq ''stream'' False)) (\<lambda>want_stream.
                  catching (run_message A req areq want_stream)
                    (ret (anthropic_fail api 500 ''api_error'' (''Internal error: '' @ cr_what R)))))"

definition count_prompt_tokens :: "('v, 'c) anthropic_router \<Rightarrow> 'v engine \<Rightarrow> json \<Rightarrow> nat option" where
  "count_prompt_tokens A eng areq =
     (let r = cr_base (an_chat A); api = ro_api r
      in Option.bind (translate_request api (ro_get r) areq) (\<lambda>obody.
         Option.bind (j_value obody ''messages'' (JArr [])) (\<lambda>msgs.
           map_option (\<lambda>p. length (en_tokenize eng p))
             (apply_chat_template api msgs (chat_template_name r eng)))))"

definition handle_count_tokens :: "('v, 'c) anthropic_router \<Rightarrow> http_request \<Rightarrow> ('v world, reply) act" where
  "handle_count_tokens A req =
     (let R = an_chat A; r = cr_base R; api = ro_api r
      in case j_parse api (rq_body req) of
           None \<Rightarrow> ret (anthropic_fail api 400 ''invalid_request_error'' ''Invalid JSON body'')
         | Some areq \<Rightarrow>
             andthen (reading (ready_engine r)) (\<lambda>engine.
               case engine of
                 None \<Rightarrow> ret (anthropic_fail api 503 ''api_error'' ''No model loaded'')
               | Some eng \<Rightarrow>
                   (case count_prompt_tokens A eng areq of
                      None \<Rightarrow> ret (anthropic_fail api 500 ''api_error'' (''Internal error: '' @ cr_what R))
                    | Some n \<Rightarrow> ret (Json_Reply 200 (j_dump api (JObj [(''input_tokens'', JInt (int n))]))))))"

section \<open>A turn sent back\<close>

text \<open>The library parses what it printed of an object, which it does for arguments that it parsed itself.\<close>

definition round_trips :: "json_api \<Rightarrow> (string \<times> json) list \<Rightarrow> bool" where
  "round_trips api kvs \<longleftrightarrow> j_parse api (j_dump api (JObj kvs)) = Some (JObj kvs)"

lemma j_str_of: "json_laws api \<Longrightarrow> map_of kvs k = Some (JStr s) \<Longrightarrow> j_str api (JObj kvs) k d = Some s"
  by (simp add: json_laws_def)

text \<open>A call as it leaves the engine, with an object for its arguments.\<close>

definition object_call :: "json_api \<Rightarrow> string \<times> string \<times> (string \<times> json) list \<Rightarrow> json" where
  "object_call api c = (case c of (cid, name, kvs) \<Rightarrow> call_json cid name (JStr (j_dump api (JObj kvs))))"

lemma object_call_block:
  assumes "json_laws api" and "round_trips api kvs"
  shows "call_block api (object_call api (cid, name, kvs)) = Some (tool_use_block cid name (JObj kvs))"
proof -
  let ?fn = "JObj [(''name'', JStr name), (''arguments'', JStr (j_dump api (JObj kvs)))]"
  have "j_str api (object_call api (cid, name, kvs)) ''id'' [] = Some cid" "j_str api ?fn ''name'' [] = Some name"
    "j_str api ?fn ''arguments'' ''{}'' = Some (j_dump api (JObj kvs))"
    unfolding object_call_def prod.case call_json_def by (rule j_str_of [OF assms(1)]; simp)+
  moreover have "j_entry (object_call api (cid, name, kvs)) ''function'' = Some ?fn"
    by (simp add: object_call_def call_json_def)
  ultimately show ?thesis
    using assms(2) by (simp add: call_block_def or_object_def call_input_def round_trips_def)
qed

lemma tool_use_back:
  assumes "json_laws api"
  shows "message_block api (tool_use_block cid name (JObj kvs)) (t, calls, results) =
    Some (t, calls @ [object_call api (cid, name, kvs)], results)"
proof -
  have "j_str api (tool_use_block cid name (JObj kvs)) ''type'' [] = Some ''tool_use''"
    "j_str api (tool_use_block cid name (JObj kvs)) ''id'' [] = Some cid"
    "j_str api (tool_use_block cid name (JObj kvs)) ''name'' [] = Some name"
    unfolding tool_use_block_def by (rule j_str_of [OF assms]; simp)+
  moreover have "j_entry (tool_use_block cid name (JObj kvs)) ''input'' = Some (JObj kvs)"
    by (simp add: tool_use_block_def)
  ultimately show ?thesis by (simp add: message_block_def tool_use_call_def object_call_def)
qed

lemma text_back:
  assumes "json_laws api"
  shows "message_block api (text_json t) (acc, calls, results) = Some (join_line acc t, calls, results)"
proof -
  have "j_str api (text_json t) ''type'' [] = Some ''text''" "j_str api (text_json t) ''text'' [] = Some t"
    unfolding text_json_def by (rule j_str_of [OF assms]; simp)+
  then show ?thesis by (simp add: message_block_def text_block_def)
qed

lemma thinking_back:
  assumes "json_laws api"
  shows "message_block api (JObj [(''type'', JStr ''thinking''), (''thinking'', JStr s)]) acc = Some acc"
proof -
  have "j_str api (JObj [(''type'', JStr ''thinking''), (''thinking'', JStr s)]) ''type'' [] = Some ''thinking''"
    by (rule j_str_of [OF assms]) simp
  then show ?thesis by (simp add: message_block_def text_block_def split: prod.split)
qed

lemma calls_back:
  assumes "json_laws api"
  shows "ofold (message_block api) (map (\<lambda>(cid, name, kvs). tool_use_block cid name (JObj kvs)) cs) (t, calls, results) =
    Some (t, calls @ map (object_call api) cs, results)"
  by (induction cs arbitrary: calls) (auto simp: tool_use_back [OF assms])

lemma calls_out:
  assumes "json_laws api"
  shows "\<forall>(cid, name, kvs) \<in> set cs. round_trips api kvs \<Longrightarrow>
    those_of (map (call_block api) (map (object_call api) cs)) =
    Some (map (\<lambda>(cid, name, kvs). tool_use_block cid name (JObj kvs)) cs)"
  by (induction cs) (auto simp: object_call_block [OF assms])

text \<open>The assistant message of a chat completion.\<close>

definition openai_turn :: "json_api \<Rightarrow> string \<Rightarrow> (string \<times> string \<times> (string \<times> json) list) list \<Rightarrow> json" where
  "openai_turn api t cs =
     JObj ([(''role'', JStr ''assistant''), (''content'', JStr t)] @
           (if cs = [] then [] else [(''tool_calls'', JArr (map (object_call api) cs))]))"



section \<open>Tools a skill permits\<close>

lemma gate_fold:
  assumes "\<forall>t \<in> set tools. tool_name api t = Some (name t)"
  shows "ofold (\<lambda>t acc. map_option (\<lambda>n. if P n then acc @ [t] else acc) (tool_name api t)) tools acc =
    Some (acc @ filter (\<lambda>t. P (name t)) tools)"
  using assms by (induction tools arbitrary: acc) auto

text \<open>The tools offered under patterns are exactly those whose name some pattern means, in their
  order.\<close>

theorem gate_exact:
  assumes "\<forall>t \<in> set tools. tool_name api t = Some (name t) \<and> CHR ''*'' \<notin> set (name t)" and "pats \<noteq> []"
  shows "gate_tools api tools pats = Some (filter (\<lambda>t. \<exists>p \<in> set pats. glob p (name t)) tools)"
proof -
  have "gate_tools api tools pats = Some (filter (\<lambda>t. list_ex (\<lambda>p. tool_glob_match p (name t)) pats) tools)"
    using gate_fold [of tools api name "\<lambda>n. list_ex (\<lambda>p. tool_glob_match p n) pats" "[]"] assms
    by (simp add: gate_tools_def)
  moreover have "tool_glob_match p (name t) \<longleftrightarrow> glob p (name t)" if "t \<in> set tools" for p t
    unfolding tool_glob_match_def using assms(1) that
    by (intro glob_loop_start glob_state_start) auto
  ultimately show ?thesis
    by (simp add: list_ex_iff cong: filter_cong)
qed

text \<open>A skill that permits no tools restricts nothing: when every skill's list of allowed tools is
  empty, the request offers all its tools.\<close>

theorem empty_scope_offers_all:
  assumes "path_entry areq [''truellm'', ''skills''] = Some (JArr sks)"
    and "\<forall>sk \<in> set sks. j_entry sk ''allowed_tools'' = Some (JArr [])"
  shows "gate_tools api tools (skill_tool_patterns areq) = Some tools"
proof -
  have "concat (map skill_patterns sks) = []" using assms(2) by (simp add: skill_patterns_def)
  then have "skill_tool_patterns areq = []" using assms(1) by (simp add: skill_tool_patterns_def)
  then show ?thesis by (simp add: gate_tools_def)
qed

text \<open>Two tools under a pattern, and a skill with no tools.\<close>

lemma write_tool_name: "tool_name demo_json (function_tool n d ps) = Some n"
  by (simp add: tool_name_def function_tool_def demo_json_def)

definition offered_name :: "json \<Rightarrow> string" where
  "offered_name t = (case tool_name demo_json t of Some n \<Rightarrow> n | None \<Rightarrow> [])"

theorem gate_exact_witness:
  "gate_tools demo_json [function_tool ''fs.read'' [] JNull, function_tool ''web.get'' [] JNull] [''fs.*''] =
     Some (filter (\<lambda>t. \<exists>p \<in> set [''fs.*'']. glob p (offered_name t))
       [function_tool ''fs.read'' [] JNull, function_tool ''web.get'' [] JNull])"
  by (rule gate_exact) (simp_all add: offered_name_def write_tool_name)

theorem empty_scope_offers_all_witness:
  "gate_tools demo_json [function_tool ''fs.read'' [] JNull]
     (skill_tool_patterns (JObj [(''truellm'', JObj [(''skills'', JArr [JObj [(''allowed_tools'', JArr [])]])])])) =
   Some [function_tool ''fs.read'' [] JNull]"
  by (rule empty_scope_offers_all [where sks = "[JObj [(''allowed_tools'', JArr [])]]"]) (simp_all add: path_entry_def)

end
