(* ===== verification/Float_Ops.thy ===== *)
theory Float_Ops
  imports Complex_Main Prelude
begin

text \<open>
  The \<open>float\<close> arithmetic of C++ as the components use it: a value is a real, an infinity with its sign or a
  NaN, and every operation rounds with the parameter \<open>fl\<close>.  The sign of a zero is not kept; no branch of the
  modelled code can observe it.  Beside the rounding, \<open>std::log\<close> (not correctly rounded) and
  \<open>std::partial_sort\<close> (the order of equal elements is open) are the parameters of the library.
\<close>

section \<open>Values\<close>

datatype fvalue = Finite real | Infinite bool | Not_A_Number

section \<open>Operations\<close>

record float_lib =
  fl :: "real \<Rightarrow> fvalue"
  float_log :: "fvalue \<Rightarrow> fvalue"
  partial_sort :: "(nat \<Rightarrow> nat \<Rightarrow> bool) \<Rightarrow> nat \<Rightarrow> nat list \<Rightarrow> nat list"

fun fadd :: "float_lib \<Rightarrow> fvalue \<Rightarrow> fvalue \<Rightarrow> fvalue" where
  "fadd L (Finite x) (Finite y) = fl L (x + y)"
| "fadd L (Infinite s) (Infinite t) = (if s = t then Infinite s else Not_A_Number)"
| "fadd L (Infinite s) (Finite y) = Infinite s"
| "fadd L (Finite x) (Infinite t) = Infinite t"
| "fadd L Not_A_Number y = Not_A_Number"
| "fadd L x Not_A_Number = Not_A_Number"

fun fmul :: "float_lib \<Rightarrow> fvalue \<Rightarrow> fvalue \<Rightarrow> fvalue" where
  "fmul L (Finite x) (Finite y) = fl L (x * y)"
| "fmul L (Infinite s) (Infinite t) = Infinite (s \<noteq> t)"
| "fmul L (Infinite s) (Finite y) = (if y = 0 then Not_A_Number else Infinite (s \<noteq> (y < 0)))"
| "fmul L (Finite x) (Infinite t) = (if x = 0 then Not_A_Number else Infinite ((x < 0) \<noteq> t))"
| "fmul L Not_A_Number y = Not_A_Number"
| "fmul L x Not_A_Number = Not_A_Number"

text \<open>Divisors here are positive, or a square root that is.\<close>

fun fdiv :: "float_lib \<Rightarrow> fvalue \<Rightarrow> fvalue \<Rightarrow> fvalue" where
  "fdiv L (Finite x) (Finite y) =
     (if y = 0 then if x = 0 then Not_A_Number else Infinite (x < 0) else fl L (x / y))"
| "fdiv L (Infinite s) (Infinite t) = Not_A_Number"
| "fdiv L (Infinite s) (Finite y) = Infinite (s \<noteq> (y < 0))"
| "fdiv L (Finite x) (Infinite t) = Finite 0"
| "fdiv L Not_A_Number y = Not_A_Number"
| "fdiv L x Not_A_Number = Not_A_Number"

fun fsqrt :: "float_lib \<Rightarrow> fvalue \<Rightarrow> fvalue" where
  "fsqrt L (Finite x) = (if x < 0 then Not_A_Number else fl L (sqrt x))"
| "fsqrt L (Infinite s) = (if s then Not_A_Number else Infinite False)"
| "fsqrt L Not_A_Number = Not_A_Number"

fun fless :: "fvalue \<Rightarrow> fvalue \<Rightarrow> bool" where
  "fless (Finite x) (Finite y) \<longleftrightarrow> x < y"
| "fless (Finite x) (Infinite t) \<longleftrightarrow> \<not> t"
| "fless (Infinite s) (Finite y) \<longleftrightarrow> s"
| "fless (Infinite s) (Infinite t) \<longleftrightarrow> s \<and> \<not> t"
| "fless Not_A_Number y \<longleftrightarrow> False"
| "fless x Not_A_Number \<longleftrightarrow> False"

text \<open>\<open>static_cast<int>(std::ceil(x))\<close>: a value outside \<open>int\<close> is undefined.\<close>

fun ceil_int :: "fvalue \<Rightarrow> int exec" where
  "ceil_int (Finite x) = (if in_s32 \<lceil>x\<rceil> then Inr \<lceil>x\<rceil> else Inl OutOfRange)"
| "ceil_int _ = Inl OutOfRange"

lemma fless_asym: "fless x y \<Longrightarrow> \<not> fless y x"
  by (cases x; cases y) auto

end
