(* ===== verification/Gpu_Device.thy ===== *)
theory Gpu_Device
  imports Float_Ops
begin

text \<open>
  \<open>src/inference/gpu/gpu_device.cpp\<close>: the devices ggml's CUDA backend sees, and how many layers fit.  The
  backend is a parameter: the number of devices, and the name and memory of each.  A build without CUDA
  is the driver \<open>None\<close>.
\<close>

record gpu_driver =
  gd_count :: int
  gd_name :: "int \<Rightarrow> string"
  gd_memory :: "int \<Rightarrow> int \<times> int"

record gpu_info =
  gi_device_id :: int
  gi_name :: string
  gi_total :: int
  gi_free :: int

record gpu_stats =
  gs_device_id :: int
  gs_device_name :: string
  gs_vram_total :: int
  gs_vram_free :: int
  gs_layers :: int

definition no_gpu_stats :: gpu_stats where
  "no_gpu_stats = \<lparr>gs_device_id = -1, gs_device_name = [], gs_vram_total = 0, gs_vram_free = 0, gs_layers = 0\<rparr>"

definition device_count :: "gpu_driver option \<Rightarrow> int" where
  "device_count D = (case D of None \<Rightarrow> 0 | Some d \<Rightarrow> gd_count d)"

text \<open>The description is truncated to the buffer of 256 characters, sizes are cast to \<open>int64_t\<close>.\<close>

definition cast_s64 :: "int \<Rightarrow> int" where
  "cast_s64 x = ((x + 9223372036854775808) mod 18446744073709551616) - 9223372036854775808"

definition query_device :: "gpu_driver option \<Rightarrow> int \<Rightarrow> gpu_info" where
  "query_device D i =
     (case D of
        None \<Rightarrow> \<lparr>gi_device_id = i, gi_name = [], gi_total = 0, gi_free = 0\<rparr>
      | Some d \<Rightarrow>
          if i < 0 \<or> gd_count d \<le> i
          then \<lparr>gi_device_id = -1, gi_name = [], gi_total = 0, gi_free = 0\<rparr>
          else case gd_memory d i of (fr, tot) \<Rightarrow>
            \<lparr>gi_device_id = i, gi_name = take 255 (gd_name d i), gi_total = cast_s64 tot, gi_free = cast_s64 fr\<rparr>)"

text \<open>\<open>static_cast<int64_t>\<close> of a float truncates; a value outside the type is undefined.\<close>

fun trunc_s64 :: "fvalue \<Rightarrow> int exec" where
  "trunc_s64 (Finite x) =
     (let n = (if 0 \<le> x then \<lfloor>x\<rfloor> else \<lceil>x\<rceil>)
      in if - 9223372036854775808 \<le> n \<and> n < 9223372036854775808 then Inr n else Inl OutOfRange)"
| "trunc_s64 _ = Inl OutOfRange"

definition estimate_gpu_layers :: "float_lib \<Rightarrow> gpu_driver option \<Rightarrow> int \<Rightarrow> int \<Rightarrow> int \<Rightarrow> fvalue \<Rightarrow> int exec" where
  "estimate_gpu_layers L D i layer_bytes kv_budget fraction =
     (if D = None \<or> layer_bytes \<le> 0 then Inr (-1)
      else if gi_total (query_device D i) = 0 then Inr (-1)
      else ebind (trunc_s64 (fmul L (fl L (real_of_int (gi_free (query_device D i)))) fraction)) (\<lambda>b.
        if b - kv_budget \<le> 0 then Inr 0 else Inr (cast_s32 (tdiv (b - kv_budget) layer_bytes))))"

section \<open>What the estimate promises\<close>

text \<open>The layers it allows fit in the budget, unless their number does not fit an \<open>int\<close>.\<close>

lemma estimate_fits:
  assumes "estimate_gpu_layers L D i layer_bytes kv_budget fraction = Inr n" and "0 < n"
    and "trunc_s64 (fmul L (fl L (real_of_int (gi_free (query_device D i)))) fraction) = Inr b"
    and "b - kv_budget < 2147483648 * layer_bytes"
  shows "n * layer_bytes + kv_budget \<le> b"
proof -
  have l: "0 < layer_bytes" and k: "0 < b - kv_budget" and n: "n = cast_s32 ((b - kv_budget) div layer_bytes)"
    using assms(1-3) by (auto simp: estimate_gpu_layers_def split: if_splits)
  have "0 \<le> (b - kv_budget) div layer_bytes" using l k by (simp add: pos_imp_zdiv_nonneg_iff)
  moreover have "(b - kv_budget) div layer_bytes < 2147483648"
  proof (rule ccontr)
    assume "\<not> ?thesis"
    then have "2147483648 * layer_bytes \<le> (b - kv_budget) div layer_bytes * layer_bytes"
      using l by (intro mult_right_mono) simp_all
    also have "\<dots> \<le> b - kv_budget" using l by (simp add: minus_mod_eq_div_mult [symmetric])
    finally show False using assms(4) by simp
  qed
  ultimately have "n = (b - kv_budget) div layer_bytes" unfolding n by (intro cast_s32_id) (simp add: in_s32_def)
  then have "n * layer_bytes \<le> b - kv_budget"
    using l by (metis minus_mod_eq_div_mult mult.commute pos_mod_sign diff_le_eq le_add_same_cancel1)
  then show ?thesis by simp
qed

end
