(* ===== verification/Native_Router.thy ===== *)
theory Native_Router
  imports Handler Plugin_Loading Kv_Allocator Gpu_Device
begin

text \<open>
  \<open>src/server/native_router.cpp\<close>: the status pages under \<open>/truellm/v1\<close> and the debug dispatch of a tool.
  The pages are JSON objects over the configuration, the engine's statistics and the bridge's counters.
\<close>

section \<open>State\<close>

text \<open>The engine's statistics, the clocks and the bridge's list of plugins are read from the world.\<close>

record 'v native_router =
  na_base :: "'v router"
  na_gpu :: "'v world \<Rightarrow> gpu_stats"
  na_kv :: "'v world \<Rightarrow> kv_cache_stats"
  na_plugins :: "'v world \<Rightarrow> json"
  na_uptime :: "'v world \<Rightarrow> int"
  na_millis :: "'v world \<Rightarrow> int"

definition ok_json :: "json_api \<Rightarrow> json \<Rightarrow> reply" where
  "ok_json api j = Json_Reply 200 (j_dump api j)"

definition counts_json :: "(string \<times> nat) list \<Rightarrow> json" where
  "counts_json kvs = JObj (map (\<lambda>(k, n). (k, JInt (int n))) kvs)"

section \<open>Status\<close>

definition any_stage :: "compression_config \<Rightarrow> bool" where
  "any_stage cc \<longleftrightarrow> ps_enabled (cp_presis cc) \<or> tm_enabled (cp_tome cc) \<or> fv_enabled (cp_fastv cc) \<or>
     pd_enabled (cp_pyramid_drop cc) \<or> vq_enabled (cp_kv_vq cc) \<or> ki_enabled (cp_kv_kivi cc)"

definition compression_summary :: "compression_config \<Rightarrow> json" where
  "compression_summary cc =
     JObj [(''presis'', JObj [(''enabled'', JBool (ps_enabled (cp_presis cc))),
              (''keep_fraction'', JFloat (ps_keep_fraction (cp_presis cc)))]),
       (''tome'', JObj [(''enabled'', JBool (tm_enabled (cp_tome cc))), (''r'', JInt (tm_r (cp_tome cc)))]),
       (''fastv'', JObj [(''enabled'', JBool (fv_enabled (cp_fastv cc))),
              (''start_layer'', JInt (fv_start_layer (cp_fastv cc))),
              (''keep_ratio'', JFloat (fv_keep_ratio (cp_fastv cc)))]),
       (''pyramid_drop'', JObj [(''enabled'', JBool (pd_enabled (cp_pyramid_drop cc))),
              (''final_keep_ratio'', JFloat (pd_final_keep_ratio (cp_pyramid_drop cc)))]),
       (''kv_vq'', JObj [(''enabled'', JBool (vq_enabled (cp_kv_vq cc))),
              (''codebook_size'', JInt (vq_codebook_size (cp_kv_vq cc)))]),
       (''kv_kivi'', JObj [(''enabled'', JBool (ki_enabled (cp_kv_kivi cc))), (''bits'', JInt (ki_bits (cp_kv_kivi cc))),
              (''residual_length'', JInt (ki_residual_length (cp_kv_kivi cc)))])]"

definition gpu_block :: "gpu_stats \<Rightarrow> (string \<times> json) list" where
  "gpu_block g =
     (if gs_device_id g \<ge> 0
      then [(''gpu'', JObj [(''device_id'', JInt (gs_device_id g)), (''device_name'', JStr (gs_device_name g)),
              (''vram_total_mb'', JInt (tdiv (gs_vram_total g) 1048576)),
              (''vram_free_mb'', JInt (tdiv (gs_vram_free g) 1048576)), (''layers_on_gpu'', JInt (gs_layers g))])]
      else [])"

definition kv_block :: "kv_cache_stats \<Rightarrow> (string \<times> json) list" where
  "kv_block k =
     (if st_block_size_tokens k > 0
      then [(''kv_cache'', JObj [(''block_size_tokens'', JInt (st_block_size_tokens k)),
              (''blocks_total'', JInt (st_blocks_total k)), (''blocks_used'', JInt (st_blocks_used k)),
              (''blocks_free'', JInt (st_blocks_free k)), (''utilization_pct'', JFloat (st_utilization_pct k)),
              (''fp8_enabled'', JBool (st_fp8_enabled k))])]
      else [])"

definition rlm_block :: "rlm_config \<Rightarrow> (string \<times> json) list" where
  "rlm_block m =
     (if rm_enabled m
      then [(''rlm'', JObj [(''enabled'', JBool True), (''chunk_size'', JInt (rm_chunk_size_tokens m)),
              (''overlap'', JInt (rm_chunk_overlap_tokens m)), (''summary_tokens'', JInt (rm_summary_tokens_per_chunk m)),
              (''max_hierarchy_depth'', JInt (rm_max_hierarchy_depth m))])]
      else [])"

definition status_json :: "'v native_router \<Rightarrow> 'v world \<Rightarrow> json" where
  "status_json N w =
     (let r = na_base N; cfg = ro_cfg r; inf = tc_inference cfg;
          loaded = (ready_engine r w \<noteq> None);
          model = (if md_alias (tc_model cfg) = [] then md_path (tc_model cfg) else md_alias (tc_model cfg))
      in JObj
        ([(''status'', JStr (if loaded then ''ready'' else ''idle'')), (''version'', JStr ''0.1.0''), (''model'', JStr model),
          (''backend'', JStr (inf_backend inf)),
          (''context_used'', JInt (if loaded then inf_context_size inf - ro_budget r w else 0)),
          (''context_max'', JInt (inf_context_size inf)), (''uptime_s'', JInt (na_uptime N w))] @
         (if ro_engine r = None then [] else gpu_block (na_gpu N w) @ kv_block (na_kv N w)) @
         (if any_stage (inf_compression inf) then [(''compression'', compression_summary (inf_compression inf))] else []) @
         rlm_block (inf_rlm inf)))"

definition handle_status :: "'v native_router \<Rightarrow> http_request \<Rightarrow> ('v world, reply) act" where
  "handle_status N req = reading (\<lambda>w. ok_json (ro_api (na_base N)) (status_json N w))"

definition handle_plugins :: "'v native_router \<Rightarrow> http_request \<Rightarrow> ('v world, reply) act" where
  "handle_plugins N req =
     reading (\<lambda>w. ok_json (ro_api (na_base N))
       (if ro_hooks (na_base N) = None
        then JObj [(''plugin_count'', JInt 0), (''tool_count'', JInt 0), (''plugins'', JArr [])]
        else na_plugins N w))"

section \<open>Counters\<close>

definition zero_counters :: runtime_counters where
  "zero_counters = \<lparr>rc_attempted = 0, rc_claimed = 0, rc_failed = 0, rc_subcalls = 0, rc_depth_aborts = 0,
     rc_max_depth = 0, rc_inject_calls = 0, rc_inject_not_impl = 0, rc_per_plugin = []\<rparr>"

definition runtime_json :: "runtime_counters \<Rightarrow> json" where
  "runtime_json c =
     JObj [(''generator_dispatches_attempted'', JInt (int (rc_attempted c))),
       (''generator_dispatches_claimed'', JInt (int (rc_claimed c))),
       (''generator_dispatches_failed'', JInt (int (rc_failed c))),
       (''call_engine_subcalls'', JInt (int (rc_subcalls c))),
       (''call_engine_depth_aborts'', JInt (int (rc_depth_aborts c))),
       (''max_recursion_depth_reached'', JInt (int (rc_max_depth c))),
       (''inject_tokens_calls'', JInt (int (rc_inject_calls c))),
       (''inject_tokens_not_impl'', JInt (int (rc_inject_not_impl c))),
       (''claims_per_plugin'', counts_json (rc_per_plugin c))]"

definition handle_rlm_status :: "'v native_router \<Rightarrow> http_request \<Rightarrow> ('v world, reply) act" where
  "handle_rlm_status N req =
     reading (\<lambda>w. let r = na_base N; m = inf_rlm (tc_inference (ro_cfg r))
       in ok_json (ro_api r)
         (JObj [(''config'', JObj [(''enabled'', JBool (rm_enabled m)), (''chunk_size_tokens'', JInt (rm_chunk_size_tokens m)),
                  (''chunk_overlap_tokens'', JInt (rm_chunk_overlap_tokens m)),
                  (''summary_tokens_per_chunk'', JInt (rm_summary_tokens_per_chunk m)),
                  (''max_hierarchy_depth'', JInt (rm_max_hierarchy_depth m))]),
            (''runtime'', runtime_json (if ro_hooks r = None then zero_counters else ht_counters (wd_host w)))]))"

definition stages_json :: "compression_config \<Rightarrow> json" where
  "stages_json cc =
     (let a = cp_presis cc; b = cp_tome cc; c = cp_fastv cc; d = cp_pyramid_drop cc; e = cp_kv_kivi cc; f = cp_kv_vq cc
      in JObj
       [(''presis'', JObj [(''enabled'', JBool (ps_enabled a)), (''threshold'', JFloat (ps_threshold a)),
           (''keep_fraction'', JFloat (ps_keep_fraction a)), (''importance_layers'', JInt (ps_importance_layers a)),
           (''fallback_tfidf'', JBool (ps_fallback_tfidf a))]),
        (''tome'', JObj [(''enabled'', JBool (tm_enabled b)), (''r'', JInt (tm_r b)), (''start_layer'', JInt (tm_start_layer b)),
           (''apply_all_layers'', JBool (tm_apply_all_layers b)), (''merge_mode'', JStr (tm_merge_mode b))]),
        (''fastv'', JObj [(''enabled'', JBool (fv_enabled c)), (''start_layer'', JInt (fv_start_layer c)),
           (''keep_ratio'', JFloat (fv_keep_ratio c)), (''importance_metric'', JStr (fv_importance_metric c))]),
        (''pyramid_drop'', JObj [(''enabled'', JBool (pd_enabled d)), (''final_keep_ratio'', JFloat (pd_final_keep_ratio d)),
           (''drop_schedule'', JStr (pd_drop_schedule d)), (''warmup_layers'', JInt (pd_warmup_layers d)),
           (''protect_last_n_tokens'', JInt (pd_protect_last_n_tokens d))]),
        (''kv_kivi'', JObj [(''enabled'', JBool (ki_enabled e)), (''bits'', JInt (ki_bits e)),
           (''residual_length'', JInt (ki_residual_length e)), (''key_granularity'', JStr (ki_key_granularity e)),
           (''value_granularity'', JStr (ki_value_granularity e)), (''pre_rope_keys'', JBool (ki_pre_rope_keys e))]),
        (''kv_vq'', JObj [(''enabled'', JBool (vq_enabled f)), (''codebook_size'', JInt (vq_codebook_size f)),
           (''residual_depth'', JInt (vq_residual_depth f)), (''outlier_tracing'', JBool (vq_outlier_tracing f)),
           (''disable_in_subcalls'', JBool (vq_disable_in_subcalls f))])])"

definition handle_compression_status :: "'v native_router \<Rightarrow> http_request \<Rightarrow> ('v world, reply) act" where
  "handle_compression_status N req =
     reading (\<lambda>w. let r = na_base N; cc = inf_compression (tc_inference (ro_cfg r)); c = ht_counters (wd_host w)
       in ok_json (ro_api r)
         (JObj ([(''compression_enabled'', JBool (cp_enabled cc)), (''any_stage_enabled'', JBool (any_stage cc)),
                 (''pipeline'', JStr (cp_pipeline cc)), (''stages'', stages_json cc)] @
            (if ro_hooks r = None then []
             else [(''runtime'', JObj [(''generator_dispatches_attempted'', JInt (int (rc_attempted c))),
                     (''generator_dispatches_claimed'', JInt (int (rc_claimed c))),
                     (''call_engine_subcalls'', JInt (int (rc_subcalls c)))])]))))"

definition chat_status_json :: "chat_outcomes option \<Rightarrow> json" where
  "chat_status_json co =
     (let num = (\<lambda>f. case co of None \<Rightarrow> JInt 0 | Some c \<Rightarrow> JInt (int (f c)));
          counts = (\<lambda>f. case co of None \<Rightarrow> JObj [] | Some c \<Rightarrow> counts_json (f c))
      in JObj [(''compaction_loaded'', JBool (co \<noteq> None)),
           (''totals'', JObj [(''requests'', num co_total), (''with_session_id'', num co_with_session),
              (''auto_compactor_skipped'', num co_skipped),
              (''consecutive_compact_failures_max'', num co_failures_max)]),
           (''phase_counts'', counts co_phase), (''strategy_counts'', counts co_strategy),
           (''classification_counts'', counts co_class)])"

definition handle_chat_status :: "'v native_router \<Rightarrow> http_request \<Rightarrow> ('v world, reply) act" where
  "handle_chat_status N req =
     reading (\<lambda>w. ok_json (ro_api (na_base N))
       (chat_status_json (if ro_hooks (na_base N) = None then None else Some (ht_chat (wd_host w)))))"

definition research_status_json :: "research_outcomes option \<Rightarrow> json" where
  "research_status_json out =
     (let num = (\<lambda>f. case out of None \<Rightarrow> JInt 0 | Some c \<Rightarrow> JInt (int (f c)));
          counts = (\<lambda>f. case out of None \<Rightarrow> JObj [] | Some c \<Rightarrow> counts_json (f c))
      in JObj [(''research_loaded'', JBool (case out of None \<Rightarrow> False | Some c \<Rightarrow> 0 < ro_total c)),
           (''totals'', JObj [(''requests'', num ro_total), (''subcalls'', num ro_subcalls),
              (''prompt_tokens'', num ro_prompt), (''completion_tokens'', num ro_completion)]),
           (''effort_counts'', counts ro_effort), (''terminal_reason_counts'', counts ro_terminal)])"

definition handle_research_status :: "'v native_router \<Rightarrow> http_request \<Rightarrow> ('v world, reply) act" where
  "handle_research_status N req =
     reading (\<lambda>w. ok_json (ro_api (na_base N))
       (research_status_json (if ro_hooks (na_base N) = None then None else Some (ht_research (wd_host w)))))"

section \<open>Debug dispatch\<close>

definition refused_dispatch :: "nat \<Rightarrow> nat \<Rightarrow> string \<Rightarrow> reply" where
  "refused_dispatch status code msg =
     Json_Reply status (CHR ''{'' # quote ''ok'' @ '':false,'' @ quote ''error_code'' @ CHR '':'' # show_nat code @ CHR '','' #
       quote ''error_msg'' @ CHR '':'' # quote msg @ CHR '','' # quote ''payload'' @ CHR '':'' # quote [] @ ''}'')"

definition dispatch_args :: "json_api \<Rightarrow> json \<Rightarrow> string" where
  "dispatch_args api body =
     (case j_entry body ''args'' of None \<Rightarrow> ''{}'' | Some (JStr s) \<Rightarrow> s | Some v \<Rightarrow> j_dump api v)"

definition debug_context :: "'v native_router \<Rightarrow> json \<Rightarrow> 'v world \<Rightarrow> req_context" where
  "debug_context N body w =
     (let r = na_base N; eng = ro_engine r;
          c = make_context (ro_cfg r) (case eng of None \<Rightarrow> ''unknown'' | Some e \<Rightarrow> en_arch e)
                (if eng = None then 0 else ro_budget r w) (''debug-tool-'' @ show_int (na_millis N w)) 512 (2 / 10)
      in c\<lparr>cx_metadata := (case j_entry body ''context_metadata'' of
             Some (JObj kvs) \<Rightarrow> merge_object (ro_api r) (JObj kvs) (cx_metadata c) | _ \<Rightarrow> cx_metadata c)\<rparr>)"

definition dispatch_json :: "tool_call_result \<Rightarrow> json" where
  "dispatch_json tc =
     JObj [(''ok'', JBool (tcr_error tc = Err_Ok)), (''error_code'', JInt (int (trl_error_code (tcr_error tc)))),
       (''error_msg'', JStr (tcr_msg tc)),
       (''payload'', JStr (if tcr_error tc = Err_Ok then tcr_payload tc else []))]"

text \<open>A name of another JSON type makes \<open>value\<close> throw; there is no \<open>try\<close> around the handler.\<close>

definition handle_tools_dispatch :: "'v native_router \<Rightarrow> http_request \<Rightarrow> ('v world, reply) act" where
  "handle_tools_dispatch N req =
     (let r = na_base N; api = ro_api r
      in if ro_hooks r = None then ret (refused_dispatch 503 3 ''plugin_bridge unavailable'')
         else case j_parse api (rq_body req) of
                Some (JObj kvs) \<Rightarrow>
                  andthen (orthrow (j_str api (JObj kvs) ''qualified_name'' [])) (\<lambda>q.
                    if q = [] then ret (refused_dispatch 400 1 ''qualified_name required'')
                    else andthen (changing (\<lambda>w. w\<lparr>wd_ctx := debug_context N (JObj kvs) w\<rparr>)) (\<lambda>_.
                         andthen (calling (tool_dispatch q (dispatch_args api (JObj kvs)) (tools_of r))) (\<lambda>tc.
                           ret (ok_json api (dispatch_json tc)))))
              | _ \<Rightarrow> ret (refused_dispatch 400 1 ''invalid JSON body''))"

section \<open>Properties\<close>

text \<open>No status page changes the world.\<close>

lemma pages_read_only:
  "snd (handle_status N req w) = w" "snd (handle_plugins N req w) = w" "snd (handle_rlm_status N req w) = w"
  "snd (handle_compression_status N req w) = w" "snd (handle_chat_status N req w) = w"
  "snd (handle_research_status N req w) = w"
  by (simp_all add: handle_status_def handle_plugins_def handle_rlm_status_def handle_compression_status_def
      handle_chat_status_def handle_research_status_def reading_def Let_def)

text \<open>The debug dispatch ignores the allow-list of its own context: a request that brings the list in its
  metadata, as the comment above the handler suggests, still runs any tool it names.\<close>

theorem debug_ignores_allow_list:
  assumes "ro_hooks (na_base N) \<noteq> None"
    and "j_parse (ro_api (na_base N)) (rq_body req) = Some (JObj kvs)"
    and "j_str (ro_api (na_base N)) (JObj kvs) ''qualified_name'' [] = Some q" and "q \<noteq> []"
    and "tool_dispatch q (dispatch_args (ro_api (na_base N)) (JObj kvs)) (tools_of (na_base N))
           (w\<lparr>wd_ctx := debug_context N (JObj kvs) w\<rparr>) = Inr (w', tc)"
  shows "handle_tools_dispatch N req w = (Ret (ok_json (ro_api (na_base N)) (dispatch_json tc)), w') \<and>
    (map_of kvs ''context_metadata'' = Some (JObj [(''agent.allowed_tools'', JStr csv)]) \<longrightarrow>
       allowed_tools True (w\<lparr>wd_ctx := debug_context N (JObj kvs) w\<rparr>) = csv)"
  using assms
  by (auto simp: handle_tools_dispatch_def Let_def act_defs allowed_tools_def pull_def debug_context_def)

end
