(* ===== verification/Http_Server.thy ===== *)
theory Http_Server
  imports Anthropic_Router Native_Router Rate_Limiter
begin

text \<open>
  \<open>src/server/http_server.cpp\<close> and \<open>middleware/auth_middleware.cpp\<close>: the gate in front of the routers (rate
  limit, API key, CORS) and the table of routes. How the HTTP library finds a route is the parameter
  \<open>sr_lookup\<close>; a request it finds no route for is answered with 404. The request logger is left out.
\<close>

section \<open>Gate\<close>

text \<open>The calls of \<open>set_header\<close> on a response, in order.\<close>

record response =
  rp_reply :: reply
  rp_headers :: "(string \<times> string) list"

definition check_api_key :: "json_api \<Rightarrow> string \<Rightarrow> http_request \<Rightarrow> reply option" where
  "check_api_key api expected req =
     (if expected = [] then None
      else if rq_header req ''Authorization'' = ''Bearer '' @ expected then None
      else Some (Json_Reply 401 (j_dump api (JObj [(''error'', JObj
             [(''message'', JStr ''Unauthorized: missing or invalid API key''),
              (''type'', JStr ''authentication_error'')])]))))"

definition resolve_cors_origin :: "server_config \<Rightarrow> http_request \<Rightarrow> string" where
  "resolve_cors_origin cfg req =
     (case sv_cors_origins cfg of
        [] \<Rightarrow> ''*''
      | first # rest \<Rightarrow>
          (let o' = rq_header req ''Origin''
           in if o' \<noteq> [] \<and> o' \<in> set (first # rest) then o' else first))"

definition too_many :: "json_api \<Rightarrow> response" where
  "too_many api =
     \<lparr>rp_reply = Json_Reply 429 (j_dump api (JObj [(''error'', JObj
        [(''message'', JStr (''Too Many Requests '' @ [CHR 0xE2, CHR 0x80, CHR 0x94] @ '' rate limit exceeded'')),
         (''type'', JStr ''rate_limit_error'')])])),
      rp_headers = [(''Retry-After'', ''1'')]\<rparr>"

definition read_timeout :: "int \<Rightarrow> int \<times> int" where
  "read_timeout ms = (tdiv ms 1000, tmod ms 1000 * 1000)"

section \<open>Routes\<close>

datatype endpoint =
    Preflight | Health | Models | Text_Completions | Chat | Research | Native_Status | Native_Plugins | Rlm_Status
  | Compression_Status | Chat_Status | Research_Status | Tools_Dispatch | Messages | Count_Tokens

text \<open>What each router registers, the debug route only if it is enabled.\<close>

definition openai_routes :: "(string \<times> string \<times> endpoint) list" where
  "openai_routes =
     [(''GET'', ''/v1/models'', Models), (''POST'', ''/v1/completions'', Text_Completions),
      (''POST'', ''/v1/chat/completions'', Chat), (''POST'', ''/v1/research'', Research)]"

definition native_routes :: "server_config \<Rightarrow> (string \<times> string \<times> endpoint) list" where
  "native_routes cfg =
     [(''GET'', ''/truellm/v1/status'', Native_Status), (''GET'', ''/truellm/v1/plugins'', Native_Plugins),
      (''GET'', ''/truellm/v1/rlm/status'', Rlm_Status), (''GET'', ''/truellm/v1/compression/status'', Compression_Status),
      (''GET'', ''/truellm/v1/chat/status'', Chat_Status), (''GET'', ''/truellm/v1/research/status'', Research_Status)] @
     (if sv_enable_debug_endpoints cfg then [(''POST'', ''/truellm/v1/tools/dispatch'', Tools_Dispatch)] else [])"

definition anthropic_routes :: "(string \<times> string \<times> endpoint) list" where
  "anthropic_routes =
     [(''POST'', ''/v1/messages'', Messages), (''POST'', ''/v1/messages/count_tokens'', Count_Tokens)]"

definition routes :: "server_config \<Rightarrow> (string \<times> string \<times> endpoint) list" where
  "routes cfg =
     [(''OPTIONS'', ''.*'', Preflight), (''GET'', ''/health'', Health)] @
     openai_routes @ native_routes cfg @ anthropic_routes"

lemmas route_tables = routes_def openai_routes_def native_routes_def anthropic_routes_def

record ('v, 'c) server =
  sr_anthropic :: "('v, 'c) anthropic_router"
  sr_native :: "'v native_router"
  sr_lookup :: "(string \<times> string \<times> endpoint) list \<Rightarrow> string \<Rightarrow> string \<Rightarrow> endpoint option"
  sr_round :: "real \<Rightarrow> real"

abbreviation chat_of :: "('v, 'c) server \<Rightarrow> ('v, 'c) chat_router" where
  "chat_of S \<equiv> an_chat (sr_anthropic S)"

abbreviation server_cfg :: "('v, 'c) server \<Rightarrow> truellm_config" where
  "server_cfg S \<equiv> ro_cfg (cr_base (chat_of S))"

abbreviation server_api :: "('v, 'c) server \<Rightarrow> json_api" where
  "server_api S \<equiv> ro_api (cr_base (chat_of S))"

text \<open>What the library documents of the lookup: only a registered route is found, for its method, and for
  its very path unless it is the pattern for all paths.\<close>

definition finds_registered :: "((string \<times> string \<times> endpoint) list \<Rightarrow> string \<Rightarrow> string \<Rightarrow> endpoint option) \<Rightarrow> bool" where
  "finds_registered lookup \<longleftrightarrow>
     (\<forall>rs m p e. lookup rs m p = Some e \<longrightarrow> (\<exists>pat. (m, pat, e) \<in> set rs \<and> (pat = p \<or> pat = ''.*'')))"

definition preflight :: "server_config \<Rightarrow> http_request \<Rightarrow> response" where
  "preflight cfg req =
     \<lparr>rp_reply = Json_Reply 204 [],
      rp_headers = [(''Access-Control-Allow-Origin'', resolve_cors_origin cfg req),
        (''Access-Control-Allow-Methods'', ''GET, POST, OPTIONS''),
        (''Access-Control-Allow-Headers'', ''Content-Type, Authorization'')]\<rparr>"

definition health_page :: response where
  "health_page = \<lparr>rp_reply = Json_Reply 200 (CHR ''{'' # quote ''status'' @ CHR '':'' # quote ''ok'' @ ''}''), rp_headers = []\<rparr>"

text \<open>The handler behind the key.\<close>

fun run_endpoint :: "('v, 'c) server \<Rightarrow> endpoint \<Rightarrow> http_request \<Rightarrow> ('v world, reply) act" where
  "run_endpoint S Models req = handle_models (cr_base (chat_of S))"
| "run_endpoint S Text_Completions req = handle_completions (cr_base (chat_of S)) req"
| "run_endpoint S Chat req = handle_chat_completions (chat_of S) req"
| "run_endpoint S Research req = handle_research (chat_of S) req"
| "run_endpoint S Native_Status req = handle_status (sr_native S) req"
| "run_endpoint S Native_Plugins req = handle_plugins (sr_native S) req"
| "run_endpoint S Rlm_Status req = handle_rlm_status (sr_native S) req"
| "run_endpoint S Compression_Status req = handle_compression_status (sr_native S) req"
| "run_endpoint S Chat_Status req = handle_chat_status (sr_native S) req"
| "run_endpoint S Research_Status req = handle_research_status (sr_native S) req"
| "run_endpoint S Tools_Dispatch req = handle_tools_dispatch (sr_native S) req"
| "run_endpoint S Messages req = handle_messages (sr_anthropic S) req"
| "run_endpoint S Count_Tokens req = handle_count_tokens (sr_anthropic S) req"
| "run_endpoint S Preflight req = ret (Json_Reply 204 [])"
| "run_endpoint S Health req = ret (rp_reply health_page)"

definition plain :: "reply \<Rightarrow> response" where
  "plain r = \<lparr>rp_reply = r, rp_headers = []\<rparr>"

definition guarded :: "('v, 'c) server \<Rightarrow> endpoint \<Rightarrow> http_request \<Rightarrow> ('v world, response) act" where
  "guarded S e req =
     (case check_api_key (server_api S) (sv_api_key (tc_server (server_cfg S))) req of
        Some refusal \<Rightarrow> ret (plain refusal)
      | None \<Rightarrow> andthen (run_endpoint S e req) (\<lambda>r. ret (plain r)))"

definition route :: "('v, 'c) server \<Rightarrow> string \<Rightarrow> string \<Rightarrow> http_request \<Rightarrow> ('v world, response) act" where
  "route S method path req =
     (case sr_lookup S (routes (tc_server (server_cfg S))) method path of
        None \<Rightarrow> ret (plain (Json_Reply 404 []))
      | Some Preflight \<Rightarrow> ret (preflight (tc_server (server_cfg S)) req)
      | Some Health \<Rightarrow> ret health_page
      | Some e \<Rightarrow> guarded S e req)"

section \<open>One request\<close>

record http_call =
  hc_now :: int
  hc_method :: string
  hc_path :: string
  hc_addr :: string
  hc_request :: http_request

record 'v served =
  sd_world :: "'v world"
  sd_limiter :: rate_limiter

definition new_served :: "truellm_config \<Rightarrow> 'v world \<Rightarrow> 'v served" where
  "new_served cfg w =
     \<lparr>sd_world = w, sd_limiter = new_rate_limiter (config_for_guardrail_preset (gr_preset (hw_guardrails (tc_hardware cfg))))\<rparr>"

definition limiter_key :: "http_call \<Rightarrow> string" where
  "limiter_key c = (if hc_addr c = [] then ''unknown'' else hc_addr c)"

text \<open>The pre-routing handler: whether the request goes on.\<close>

definition pass_limiter :: "('v, 'c) server \<Rightarrow> http_call \<Rightarrow> rate_limiter \<Rightarrow> bool \<times> rate_limiter" where
  "pass_limiter S c rl =
     (if hc_path c \<noteq> ''/health'' \<and> rl_enabled (rl_cfg rl)
      then try_acquire (sr_round S) (hc_now c) (limiter_key c) rl else (True, rl))"

text \<open>The post-routing handler sets the origin on every response.\<close>

definition with_origin :: "('v, 'c) server \<Rightarrow> http_request \<Rightarrow> response \<Rightarrow> response" where
  "with_origin S req resp =
     resp\<lparr>rp_headers := rp_headers resp @
       [(''Access-Control-Allow-Origin'', resolve_cors_origin (tc_server (server_cfg S)) req)]\<rparr>"

definition serve :: "('v, 'c) server \<Rightarrow> http_call \<Rightarrow> ('v served, response) act" where
  "serve S c st =
     (case pass_limiter S c (sd_limiter st) of
        (False, rl) \<Rightarrow> (Ret (with_origin S (hc_request c) (too_many (server_api S))), st\<lparr>sd_limiter := rl\<rparr>)
      | (True, rl) \<Rightarrow>
          (case andthen (route S (hc_method c) (hc_path c) (hc_request c))
                  (\<lambda>resp. ret (with_origin S (hc_request c) resp)) (sd_world st) of
             (out, w) \<Rightarrow> (out, \<lparr>sd_world = w, sd_limiter = rl\<rparr>)))"

definition refused :: "('v, 'c) server \<Rightarrow> http_call \<Rightarrow> 'v served \<Rightarrow> bool" where
  "refused S c st \<longleftrightarrow> \<not> fst (pass_limiter S c (sd_limiter st))"

section \<open>The key\<close>

fun status_of :: "reply \<Rightarrow> nat" where
  "status_of (Json_Reply n s) = n"
| "status_of (Event_Stream es) = 200"

lemma guarded_refuses:
  assumes "sv_api_key (tc_server (server_cfg S)) = key" and "key \<noteq> []"
    and "rq_header req ''Authorization'' \<noteq> ''Bearer '' @ key"
  shows "\<exists>body. guarded S e req w = (Ret (plain (Json_Reply 401 body)), w)"
  using assms by (simp add: guarded_def check_api_key_def ret_def plain_def)

lemma route_public:
  assumes "sv_api_key (tc_server (server_cfg S)) = key" and "key \<noteq> []"
    and "rq_header req ''Authorization'' \<noteq> ''Bearer '' @ key"
    and "route S m p req w = (out, w')"
  shows "w' = w \<and> (\<exists>resp. out = Ret resp \<and> (status_of (rp_reply resp) \<in> {401, 404} \<or>
     sr_lookup S (routes (tc_server (server_cfg S))) m p \<in> {Some Preflight, Some Health}))"
proof (cases "sr_lookup S (routes (tc_server (server_cfg S))) m p")
  case None
  with assms(4) show ?thesis by (auto simp: route_def ret_def plain_def)
next
  case (Some e)
  from guarded_refuses [OF assms(1-3)] obtain body where
    "guarded S e req w = (Ret (plain (Json_Reply 401 body)), w)" by blast
  with Some assms(4) show ?thesis by (cases e) (auto simp: route_def ret_def plain_def)
qed

lemma registered_public:
  assumes "finds_registered lookup" and "lookup (routes cfg) m p \<in> {Some Preflight, Some Health}"
  shows "m = ''OPTIONS'' \<or> (m = ''GET'' \<and> p = ''/health'')"
proof -
  have "e = Preflight \<longrightarrow> m = ''OPTIONS''" and "e = Health \<longrightarrow> m = ''GET'' \<and> p = ''/health''"
    if "lookup (routes cfg) m p = Some e" for e
  proof -
    from assms(1) that obtain pat where pat: "(m, pat, e) \<in> set (routes cfg)" "pat = p \<or> pat = ''.*''"
      unfolding finds_registered_def by blast
    show "e = Preflight \<longrightarrow> m = ''OPTIONS''" and "e = Health \<longrightarrow> m = ''GET'' \<and> p = ''/health''"
      using pat by (auto simp: route_tables split: if_splits)
  qed
  with assms(2) show ?thesis by blast
qed


text \<open>The debug route is off unless the configuration turns it on.\<close>

lemma debug_route_off:
  assumes "finds_registered (sr_lookup S)" and "\<not> sv_enable_debug_endpoints (tc_server (server_cfg S))"
  shows "sr_lookup S (routes (tc_server (server_cfg S))) m p \<noteq> Some Tools_Dispatch"
  using assms by (fastforce simp: finds_registered_def route_tables)

section \<open>The rate limit in front of the routes\<close>

fun passed :: "('v, 'c) server \<Rightarrow> string \<Rightarrow> http_call list \<Rightarrow> 'v served \<Rightarrow> nat" where
  "passed S k [] st = 0"
| "passed S k (c # cs) st =
     (if limiter_key c = k \<and> hc_path c \<noteq> ''/health'' \<and> \<not> refused S c st then 1 else 0) +
     passed S k cs (snd (serve S c st))"

definition counted :: "http_call list \<Rightarrow> (int \<times> string) list" where
  "counted cs = map (\<lambda>c. (hc_now c, limiter_key c)) (filter (\<lambda>c. hc_path c \<noteq> ''/health'') cs)"

lemma serve_limiter: "sd_limiter (snd (serve S c st)) = snd (pass_limiter S c (sd_limiter st))"
  by (auto simp: serve_def split: prod.split bool.split)

lemma pass_limiter_cfg: "rl_cfg (snd (pass_limiter S c rl)) = rl_cfg rl"
  by (simp add: pass_limiter_def try_acquire_cfg)

lemma passed_admitted:
  "rl_enabled (rl_cfg (sd_limiter st)) \<Longrightarrow> passed S k cs st = admitted (sr_round S) k (counted cs) (sd_limiter st)"
proof (induction cs arbitrary: st)
  case Nil
  then show ?case by (simp add: counted_def)
next
  case (Cons c cs)
  have l: "sd_limiter (snd (serve S c st)) = snd (pass_limiter S c (sd_limiter st))" by (rule serve_limiter)
  have "rl_enabled (rl_cfg (sd_limiter (snd (serve S c st))))"
    using Cons.prems by (simp add: l pass_limiter_cfg)
  from Cons.IH [OF this] show ?case
    using Cons.prems by (auto simp: l counted_def refused_def pass_limiter_def)
qed

text \<open>Over any interval and whatever other clients, routes and handlers do in between, the requests of one
  address that get past the gate, health probes aside, are at most the burst of the guardrail preset plus
  its refill, up to rounding.\<close>

theorem address_bound:
  assumes "rl = config_for_guardrail_preset (gr_preset (hw_guardrails (tc_hardware cfg)))" and "rl_enabled rl"
    and "rounds_ok (sr_round S) rl" and "rel_error (sr_round S) u"
    and "sorted (t0 # map hc_now cs)" and "0 < t0" and "\<forall>c \<in> set cs. hc_now c \<le> T" and "t0 \<le> T"
  shows "real (passed S k cs (new_served cfg w)) \<le>
    burst_size rl + (1 + u) ^ 4 * rate_per_second rl * (of_int (T - t0) / 1000000000)
      + 2 * u * burst_size rl * length (counted cs)"
proof -
  let ?l = "new_rate_limiter rl"
  have times: "map fst (counted cs) = map hc_now (filter (\<lambda>c. hc_path c \<noteq> ''/health'') cs)"
    by (simp add: counted_def)
  have "sorted (t0 # map fst (counted cs))"
    using assms(5) sorted_filter [of hc_now cs "\<lambda>c. hc_path c \<noteq> ''/health''"] by (auto simp: times)
  moreover have "\<forall>t \<in> set (t0 # map fst (counted cs)). t \<le> T" using assms(7,8) by (auto simp: times)
  moreover have "rl_cfg ?l = rl" by (simp add: new_rate_limiter_def)
  ultimately show ?thesis
    using admitted_bound_new [of "sr_round S" ?l u k t0 "counted cs" T] assms
    by (simp add: passed_admitted new_served_def new_rate_limiter_def budget_def)
qed

section \<open>Origins\<close>

text \<open>Every preflight response sets the origin header twice, once in its handler and once after routing.\<close>

lemma preflight_two_origins:
  assumes "sr_lookup S (routes (tc_server (server_cfg S))) m p = Some Preflight"
    and "pass_limiter S c (sd_limiter st) = (True, rl)" and "hc_method c = m" and "hc_path c = p"
  shows "\<exists>resp. fst (serve S c st) = Ret resp \<and>
    length (filter (\<lambda>(k, v). k = ''Access-Control-Allow-Origin'') (rp_headers resp)) = 2"
  using assms by (simp add: serve_def route_def act_defs with_origin_def preflight_def)

text \<open>A star that is not the first configured origin has no effect.\<close>

lemma later_star_ignored:
  assumes "sv_cors_origins cfg = first # rest" and "rq_header req ''Origin'' \<notin> set (first # rest)"
  shows "resolve_cors_origin cfg req = first"
  using assms by (simp add: resolve_cors_origin_def Let_def)

lemma read_timeout_total:
  "0 \<le> ms \<Longrightarrow> read_timeout ms = (s, us) \<Longrightarrow> s * 1000000 + us = ms * 1000 \<and> 0 \<le> us \<and> us < 1000000"
  
  using div_mult_mod_eq [of ms 1000] by (auto simp: read_timeout_def tdiv_nonneg tmod_nonneg)

section \<open>A server\<close>

fun first_route :: "(string \<times> string \<times> endpoint) list \<Rightarrow> string \<Rightarrow> string \<Rightarrow> endpoint option" where
  "first_route [] m p = None"
| "first_route ((m', pat, e) # rs) m p =
     (if m' = m \<and> (pat = p \<or> pat = ''.*'') then Some e else first_route rs m p)"

lemma first_route_registered: "finds_registered first_route"
proof -
  have "\<exists>pat. (m, pat, e) \<in> set rs \<and> (pat = p \<or> pat = ''.*'')" if "first_route rs m p = Some e" for rs m p e
    using that by (induction rs m p rule: first_route.induct) (auto split: if_splits)
  then show ?thesis by (simp add: finds_registered_def)
qed

definition locked_cfg :: truellm_config where
  "locked_cfg = default_truellm\<lparr>tc_server := default_server\<lparr>sv_api_key := ''secret''\<rparr>\<rparr>"

definition locked_chat :: "(nat, unit) chat_router" where
  "locked_chat = tiny_router\<lparr>cr_base := stubborn_router\<lparr>ro_cfg := locked_cfg\<rparr>\<rparr>"

definition locked_server :: "(nat, unit) server" where
  "locked_server = \<lparr>sr_anthropic = \<lparr>an_chat = locked_chat, an_next_id = (\<lambda>pre w. (w, pre))\<rparr>,
     sr_native = \<lparr>na_base = stubborn_router, na_gpu = (\<lambda>w. \<lparr>gs_device_id = -1, gs_device_name = [], gs_vram_total = 0,
         gs_vram_free = 0, gs_layers = 0\<rparr>),
       na_kv = (\<lambda>w. \<lparr>st_block_size_tokens = 0, st_blocks_total = 0, st_blocks_used = 0, st_blocks_free = 0,
         st_utilization_pct = 0, st_fp8_enabled = False\<rparr>),
       na_plugins = (\<lambda>w. JArr []), na_uptime = (\<lambda>w. 0), na_millis = (\<lambda>w. 0)\<rparr>,
     sr_lookup = first_route, sr_round = (\<lambda>x. x)\<rparr>"

definition chat_call_at :: "int \<Rightarrow> http_call" where
  "chat_call_at now = \<lparr>hc_now = now, hc_method = ''POST'', hc_path = ''/v1/chat/completions'', hc_addr = ''10.0.0.1'',
     hc_request = \<lparr>rq_body = ''call'', rq_header = (\<lambda>k. [])\<rparr>\<rparr>"


theorem address_bound_witness:
  "real (passed locked_server ''10.0.0.1'' (replicate 60 (chat_call_at 7)) (new_served locked_cfg idle_world)) \<le> 40"
proof -
  let ?rl = "config_for_guardrail_preset (gr_preset (hw_guardrails (tc_hardware locked_cfg)))"
  have rl: "?rl = \<lparr>rate_per_second = 20, burst_size = 40, rl_enabled = True\<rparr>"
    by (simp add: locked_cfg_def default_truellm_def default_hardware_def default_guardrails_def
        config_for_guardrail_preset_def)
  have round: "sr_round locked_server = (\<lambda>x. x)" by (simp add: locked_server_def)
  have "rounds_ok (sr_round locked_server) ?rl" unfolding round by (rule rounds_ok_exact) (simp_all add: rl)
  moreover have "rel_error (sr_round locked_server) 0" unfolding round by (rule rel_error_exact)
  moreover have "sorted (7 # map hc_now (replicate 60 (chat_call_at 7)))" by (simp add: chat_call_at_def)
  moreover have "\<forall>c \<in> set (replicate 60 (chat_call_at 7)). hc_now c \<le> 7" by (simp add: chat_call_at_def)
  moreover have "rl_enabled ?rl" by (simp add: rl)
  ultimately show ?thesis
    using address_bound [OF refl, of locked_cfg locked_server 0 7 "replicate 60 (chat_call_at 7)" 7 "''10.0.0.1''" idle_world]
    by (simp add: rl)
qed

end
