(* ===== verification/Half_Float.thy ===== *)
theory Half_Float
  imports Float_Ops "HOL-Library.Word"
begin

text \<open>
  The conversion of half-precision bits to a \<open>float\<close> that
  \<open>src/inference/backends/cuda/compression/compression_scoring_pass.cpp\<close> writes out in \<open>get_vec\<close>, against
  the values IEEE 754 gives the two formats.
\<close>

unbundle bit_operations_syntax

section \<open>Values\<close>

text \<open>What the bits of the two formats mean; the flag of an infinity is its sign.\<close>

definition half_value :: "16 word \<Rightarrow> fvalue" where
  "half_value h =
     (let s = bit h 15; e = unat (drop_bit 10 h AND 0x1F); m = unat (h AND 0x3FF);
          sign = (if s then - 1 else 1 :: real)
      in if e = 31 then (if m = 0 then Infinite s else Not_A_Number)
         else if e = 0 then Finite (sign * (real m / 2 ^ 24))
         else Finite (sign * ((1 + real m / 2 ^ 10) * 2 powi (int e - 15))))"

definition single_value :: "32 word \<Rightarrow> fvalue" where
  "single_value w =
     (let s = bit w 31; e = unat (drop_bit 23 w AND 0xFF); m = unat (w AND 0x7FFFFF);
          sign = (if s then - 1 else 1 :: real)
      in if e = 255 then (if m = 0 then Infinite s else Not_A_Number)
         else if e = 0 then Finite (sign * (real m / 2 ^ 149))
         else Finite (sign * ((1 + real m / 2 ^ 23) * 2 powi (int e - 127))))"

section \<open>The conversion\<close>

definition half_sign :: "16 word \<Rightarrow> 32 word" where
  "half_sign h = ucast (drop_bit 15 h AND 1)"

definition half_exp :: "16 word \<Rightarrow> 32 word" where
  "half_exp h = ucast (drop_bit 10 h AND 0x1F)"

definition half_mant :: "16 word \<Rightarrow> 32 word" where
  "half_mant h = ucast (h AND 0x3FF)"

definition half_bits :: "16 word \<Rightarrow> 32 word" where
  "half_bits h = push_bit 31 (half_sign h) OR push_bit 23 (half_exp h + 112) OR push_bit 13 (half_mant h)"

definition half_to_float :: "16 word \<Rightarrow> fvalue" where
  "half_to_float h =
     (if half_exp h = 0 \<and> half_mant h = 0 then Finite 0
      else if half_exp h = 31 then (if half_mant h = 0 then Infinite (half_sign h \<noteq> 0) else Not_A_Number)
      else single_value (half_bits h))"

section \<open>The fields\<close>

lemma small_bits:
  fixes x :: "'a::len word"
  assumes "unat x < 2 ^ k" and "bit x n"
  shows "n < k"
proof -
  have "unat (take_bit k x) = unat x"
    using assms(1) by (simp add: unsigned_take_bit_eq take_bit_nat_eq_self)
  then have "take_bit k x = x" by (rule word_unat_eq_iff [THEN iffD2])
  with assms(2) show ?thesis by (metis bit_take_bit_iff)
qed

lemma masks: "0x1F = (mask 5 :: 'a::len word)" "0x3FF = (mask 10 :: 'a::len word)" "0x7FFFFF = (mask 23 :: 'a::len word)"
  "0xFF = (mask 8 :: 'a::len word)"
  by (simp_all add: mask_numeral)

lemma unat_and_mask: "unat (x AND mask n) = unat x mod 2 ^ n"
  by (simp flip: take_bit_eq_mask take_bit_eq_mod add: unsigned_take_bit_eq)

lemma unat_ucast_16: "unat (ucast (x :: 16 word) :: 32 word) = unat x"
proof -
  have "unat x < 2 ^ 16" using unsigned_less [of x, where ?'a = nat] by simp
  then have "unat x < 2 ^ 32" by simp
  then show ?thesis by (simp add: unsigned_ucast_eq take_bit_nat_eq_self)
qed

lemma half_fields:
  "unat (half_exp h) = unat (drop_bit 10 h AND 0x1F)" "unat (half_mant h) = unat (h AND 0x3FF)"
  by (simp_all only: half_exp_def half_mant_def unat_ucast_16)

lemma half_exp_less: "unat (half_exp h) < 32" and half_mant_less: "unat (half_mant h) < 1024"
  by (simp_all add: half_fields masks unat_and_mask)

lemma half_sign_bit: "bit (half_sign h) n \<longleftrightarrow> n = 0 \<and> bit h 15"
  by (auto simp: half_sign_def bit_ucast_iff bit_and_iff bit_drop_bit_eq bit_1_iff)

lemma biased_exp: "unat (half_exp h + 112) = unat (half_exp h) + 112"
  using half_exp_less [of h] by (simp add: unat_word_ariths)

lemma biased_exp_bit: "bit (half_exp h + 112) n \<Longrightarrow> n < 8"
  using half_exp_less [of h] small_bits [of "half_exp h + 112" 8 n] by (simp add: biased_exp)

lemma half_mant_bit: "bit (half_mant h) n \<Longrightarrow> n < 10"
  using half_mant_less [of h] small_bits [of "half_mant h" 10 n] by simp

lemma packed_fields:
  fixes s e m :: "32 word"
  assumes "\<And>n. bit s n \<Longrightarrow> n = 0" and "\<And>n. bit e n \<Longrightarrow> n < 8" and "\<And>n. bit m n \<Longrightarrow> n < 10"
  defines "w \<equiv> push_bit 31 s OR push_bit 23 e OR push_bit 13 m"
  shows "bit w 31 = bit s 0" "drop_bit 23 w AND mask 8 = e" "w AND mask 23 = push_bit 13 m"
proof -
  show "bit w 31 = bit s 0"
    using assms(2) [of 8] assms(3) [of 18] by (auto simp: w_def bit_or_iff bit_push_bit_iff)
  show "drop_bit 23 w AND mask 8 = e"
  proof (rule bit_word_eqI)
    fix n
    assume "n < LENGTH(32)"
    show "bit (drop_bit 23 w AND mask 8) n = bit e n"
      using assms(1) [of "n - 8"] assms(2) [of n] assms(3) [of "10 + n"]
      by (auto simp: w_def bit_and_iff bit_drop_bit_eq bit_or_iff bit_push_bit_iff bit_mask_iff)
  qed
  show "w AND mask 23 = push_bit 13 m"
  proof (rule bit_word_eqI)
    fix n
    assume "n < LENGTH(32)"
    show "bit (w AND mask 23) n = bit (push_bit 13 m) n"
      using assms(3) [of "n - 13"]
      by (auto simp: w_def bit_and_iff bit_or_iff bit_push_bit_iff bit_mask_iff)
  qed
qed

lemma half_bits_fields:
  "bit (half_bits h) 31 = bit h 15" "drop_bit 23 (half_bits h) AND 0xFF = half_exp h + 112"
  "half_bits h AND 0x7FFFFF = push_bit 13 (half_mant h)"
  unfolding masks half_bits_def
  using packed_fields [of "half_sign h" "half_exp h + 112" "half_mant h"] half_sign_bit [of h]
    biased_exp_bit [of h] half_mant_bit [of h]
  by auto

lemma mant_scaled: "unat (push_bit 13 (half_mant h)) = unat (half_mant h) * 2 ^ 13"
proof -
  have "unat (half_mant h) * 2 ^ 13 < 2 ^ 32" using half_mant_less [of h] by simp
  then show ?thesis by (simp add: push_bit_eq_mult unat_word_ariths)
qed

section \<open>Correctness\<close>

lemma half_bits_value:
  assumes "unat (half_exp h) < 31"
  shows "single_value (half_bits h) =
    Finite ((if bit h 15 then - 1 else 1) * ((1 + real (unat (half_mant h)) / 2 ^ 10) * 2 powi (int (unat (half_exp h)) - 15)))"
proof -
  have e: "unat (half_exp h) + 112 \<noteq> 255" "unat (half_exp h) + 112 \<noteq> 0" using assms by simp_all
  have "real (unat (half_mant h) * 2 ^ 13) / 2 ^ 23 = real (unat (half_mant h)) / 2 ^ 10" by simp
  moreover have "int (unat (half_exp h) + 112) - 127 = int (unat (half_exp h)) - 15" by simp
  ultimately show ?thesis
    using e by (simp add: single_value_def Let_def half_bits_fields biased_exp mant_scaled)
qed

text \<open>The conversion gives the value of every half except two kinds: subnormals, and the sign of zero, which
  a real does not have.\<close>

theorem half_to_float_exact:
  assumes "\<not> (unat (drop_bit 10 h AND 0x1F) = 0 \<and> unat (h AND 0x3FF) \<noteq> 0)"
  shows "half_to_float h = half_value h"
proof -
  have z: "half_exp h = 0 \<longleftrightarrow> unat (half_exp h) = 0" "half_mant h = 0 \<longleftrightarrow> unat (half_mant h) = 0"
    "half_exp h = 31 \<longleftrightarrow> unat (half_exp h) = 31"
    by (simp add: unat_eq_0, simp add: unat_eq_0, simp only: word_unat_eq_iff, simp)
  have s: "half_sign h \<noteq> 0 \<longleftrightarrow> bit h 15"
  proof
    assume "half_sign h \<noteq> 0"
    then obtain n where "bit (half_sign h) n" by (metis bit_word_eqI bit_0_eq bot_apply bot_bool_def)
    then show "bit h 15" by (simp add: half_sign_bit)
  next
    assume "bit h 15"
    then have "bit (half_sign h) 0" by (simp add: half_sign_bit)
    then show "half_sign h \<noteq> 0" by force
  qed
  consider (zero) "unat (half_exp h) = 0" "unat (half_mant h) = 0" | (special) "unat (half_exp h) = 31"
    | (normal) "unat (half_exp h) \<noteq> 0" "unat (half_exp h) < 31"
  proof -
    have "unat (half_exp h) = 0 \<and> unat (half_mant h) = 0 \<or> unat (half_exp h) = 31 \<or>
        unat (half_exp h) \<noteq> 0 \<and> unat (half_exp h) < 31"
      using assms half_exp_less [of h] unfolding half_fields [symmetric] by linarith
    then show thesis using that by blast
  qed
  then show ?thesis
  proof cases
    case zero
    then show ?thesis by (simp add: half_to_float_def half_value_def Let_def z half_fields)
  next
    case special
    then show ?thesis by (simp add: half_to_float_def half_value_def Let_def z s half_fields)
  next
    case normal
    let ?v = "Finite ((if bit h 15 then - 1 else 1) * ((1 + real (unat (half_mant h)) / 2 ^ 10) *
        2 powi (int (unat (half_exp h)) - 15)))"
    have "half_to_float h = single_value (half_bits h)" using normal by (simp add: half_to_float_def z)
    also have "\<dots> = ?v" using normal(2) by (rule half_bits_value)
    also have "\<dots> = half_value h"
    proof -
      have "unat (drop_bit 10 h AND 0x1F) \<noteq> 0" "unat (drop_bit 10 h AND 0x1F) \<noteq> 31"
        using normal unfolding half_fields by linarith+
      then show ?thesis by (simp only: half_value_def Let_def half_fields if_False)
    qed
    finally show ?thesis .
  qed
qed

theorem half_to_float_exact_witness: "half_to_float 0xC500 = Finite (- 5)"
proof -
  have "half_to_float 0xC500 = half_value 0xC500" by (rule half_to_float_exact) simp
  then show ?thesis by (simp add: half_value_def bit_simps)
qed

text \<open>Every subnormal half is read as another, larger number.\<close>

theorem subnormal_misread:
  assumes "unat (drop_bit 10 h AND 0x1F) = 0" and "unat (h AND 0x3FF) = m" and "m \<noteq> 0"
  shows "\<exists>sign. \<bar>sign\<bar> = 1 \<and> half_value h = Finite (sign * (real m / 2 ^ 24)) \<and>
    half_to_float h = Finite (sign * ((1024 + real m) / 2 ^ 25))"
proof -
  have f: "unat (half_exp h) = 0" "unat (half_mant h) = m" using assms by (simp_all add: half_fields)
  have z: "\<not> (half_exp h = 0 \<and> half_mant h = 0)" "half_exp h \<noteq> 31" using f assms(3) by auto
  have "(1 + real m / 2 ^ 10) * 2 powi (int 0 - 15) = (1024 + real m) / 2 ^ 25"
    by (simp add: power_int_minus field_simps)
  then show ?thesis
    using z f half_bits_value [of h] assms
    by (intro exI [of _ "if bit h 15 then - 1 else 1"]) (simp add: half_to_float_def half_value_def Let_def)
qed

theorem subnormal_misread_witness: "half_value 1 = Finite (1 / 2 ^ 24) \<and> half_to_float 1 = Finite (1025 / 2 ^ 25)"
proof -
  obtain sign where s: "\<bar>sign\<bar> = 1" "half_value 1 = Finite (sign * (real 1 / 2 ^ 24))"
    "half_to_float 1 = Finite (sign * ((1024 + real 1) / 2 ^ 25))"
    using subnormal_misread [of 1 1] by auto
  moreover have "half_value 1 = Finite (1 / 2 ^ 24)" by (simp add: half_value_def bit_simps)
  ultimately show ?thesis by auto
qed

end
