(* ===== verification/Token_Reduction.thy ===== *)
theory Token_Reduction
  imports Half_Float Config_Schema
begin

text \<open>
  \<open>src/inference/backends/cuda/compression/compression_scoring_pass.cpp\<close>: the tokens of a prompt are
  merged (ToMe) and pruned (Presis) before they are prefilled, by scores that are floats of \<open>Float_Ops\<close>.
\<close>

section \<open>Maxima\<close>

text \<open>\<open>std::max_element\<close>: the first of the largest elements, and the first element when it is a NaN.\<close>

fun max_from :: "fvalue \<Rightarrow> fvalue list \<Rightarrow> fvalue" where
  "max_from m [] = m"
| "max_from m (x # xs) = max_from (if fless m x then x else m) xs"

fun max_element :: "fvalue list \<Rightarrow> fvalue exec" where
  "max_element [] = Inl OutOfRange"
| "max_element (x # xs) = Inr (max_from x xs)"

definition normalise :: "float_lib \<Rightarrow> fvalue list \<Rightarrow> fvalue list exec" where
  "normalise L scores =
     ebind (max_element scores) (\<lambda>mx.
       Inr (if fless (Finite 0) mx then map (\<lambda>s. fdiv L s mx) scores else scores))"

section \<open>The pass\<close>

record scoring_pass =
  sp_presis :: presis_config
  sp_tome :: tome_config
  sp_n_heads :: int
  sp_head_dim :: int
  sp_hidden_size :: int
  sp_attn :: "fvalue list"
  sp_hidden :: "16 word list"
  sp_seq_len :: int
  sp_kv_seq :: int

definition scoring_construct :: "compression_config \<Rightarrow> int \<Rightarrow> int \<Rightarrow> int \<Rightarrow> scoring_pass" where
  "scoring_construct cfg n_heads head_dim hidden_size =
     \<lparr>sp_presis = cp_presis cfg, sp_tome = cp_tome cfg, sp_n_heads = n_heads, sp_head_dim = head_dim,
      sp_hidden_size = hidden_size, sp_attn = [], sp_hidden = [], sp_seq_len = 0, sp_kv_seq = 0\<rparr>"

definition presis_enabled :: "scoring_pass \<Rightarrow> bool" where
  "presis_enabled P \<longleftrightarrow> ps_enabled (sp_presis P)"

definition tome_enabled :: "scoring_pass \<Rightarrow> bool" where
  "tome_enabled P \<longleftrightarrow> tm_enabled (sp_tome P)"

definition any_enabled :: "scoring_pass \<Rightarrow> bool" where
  "any_enabled P \<longleftrightarrow> presis_enabled P \<or> tome_enabled P"

text \<open>
  \<open>update_cache\<close>: a device pointer is \<open>None\<close> when null, and otherwise the memory it points to.  The
  lengths are recorded whether or not anything was copied.
\<close>

definition update_cache ::
  "fvalue list option \<Rightarrow> 16 word list option \<Rightarrow> int \<Rightarrow> int \<Rightarrow> scoring_pass \<Rightarrow> scoring_pass" where
  "update_cache attn hidden seq_len kv_seq P =
     (let P = P\<lparr>sp_seq_len := seq_len, sp_kv_seq := kv_seq\<rparr>;
          P = (case attn of None \<Rightarrow> P | Some a \<Rightarrow>
                if ps_enabled (sp_presis P)
                then P\<lparr>sp_attn := take (nat (sp_n_heads P * seq_len * kv_seq)) a\<rparr> else P)
      in case hidden of None \<Rightarrow> P | Some x \<Rightarrow>
           if tm_enabled (sp_tome P)
           then P\<lparr>sp_hidden := take (nat (seq_len * sp_hidden_size P)) x\<rparr> else P)"

definition set_host_caches_for_test :: "fvalue list \<Rightarrow> 16 word list \<Rightarrow> int \<Rightarrow> int \<Rightarrow> scoring_pass \<Rightarrow> scoring_pass" where
  "set_host_caches_for_test attn hidden seq_len kv_seq P =
     P\<lparr>sp_attn := attn, sp_hidden := hidden, sp_seq_len := seq_len, sp_kv_seq := kv_seq\<rparr>"

section \<open>Scores\<close>

fun efold :: "('s \<Rightarrow> 'a \<Rightarrow> 's exec) \<Rightarrow> 'a list \<Rightarrow> 's \<Rightarrow> 's exec" where
  "efold f [] s = Inr s"
| "efold f (x # xs) s = ebind (f s x) (efold f xs)"

definition read_at :: "'a list \<Rightarrow> int \<Rightarrow> 'a exec" where
  "read_at xs i = (if 0 \<le> i \<and> i < int (length xs) then Inr (xs ! nat i) else Inl OutOfRange)"

definition add_row :: "float_lib \<Rightarrow> fvalue list \<Rightarrow> int \<Rightarrow> int \<Rightarrow> fvalue list \<Rightarrow> fvalue list exec" where
  "add_row L cache off use_kv scores =
     efold (\<lambda>s k. ebind (read_at cache (off + int k)) (\<lambda>v. Inr (s[k := fadd L (s ! k) v])))
       [0..<nat use_kv] scores"

text \<open>The offset of a row is computed in \<open>int\<close>.\<close>

definition row_offset :: "int \<Rightarrow> int \<Rightarrow> int \<Rightarrow> int \<Rightarrow> int exec" where
  "row_offset cached_s cached_kv h q =
     ebind (s32 (h * cached_s)) (\<lambda>x. ebind (s32 (x + q)) (\<lambda>y. s32 (y * cached_kv)))"

text \<open>The size of the cache is cast to \<open>int\<close> and then compared, as \<open>size_t\<close>, with the product.\<close>

definition cache_too_small :: "scoring_pass \<Rightarrow> bool" where
  "cache_too_small P \<longleftrightarrow>
     cast_s32 (int (length (sp_attn P))) mod 2 ^ 64 <
       (sp_n_heads P mod 2 ^ 64) * (sp_seq_len P mod 2 ^ 64) * (sp_kv_seq P mod 2 ^ 64) mod 2 ^ 64"

definition column_sums :: "float_lib \<Rightarrow> scoring_pass \<Rightarrow> nat \<Rightarrow> fvalue list exec" where
  "column_sums L P seq_len =
     efold (\<lambda>s h. efold (\<lambda>s q.
         ebind (row_offset (sp_seq_len P) (sp_kv_seq P) (int h) (int q)) (\<lambda>off.
           add_row L (sp_attn P) off (min (int seq_len) (sp_kv_seq P)) s))
       [0..<nat (sp_seq_len P)] s)
     [0..<nat (sp_n_heads P)] (replicate seq_len (Finite 0))"

definition score_attention :: "float_lib \<Rightarrow> scoring_pass \<Rightarrow> nat \<Rightarrow> fvalue list exec" where
  "score_attention L P seq_len =
     (if cache_too_small P then Inr (replicate seq_len (Finite 0))
      else ebind (column_sums L P seq_len) (normalise L))"

definition tfidf_score :: "float_lib \<Rightarrow> int list \<Rightarrow> int \<Rightarrow> fvalue" where
  "tfidf_score L tokens t =
     (let tf = fdiv L (Finite 1) (fl L (real (count_list tokens t)));
          idf = float_log L (fadd L (Finite 1) (fdiv L (fl L (real_of_int t)) (Finite 32000)))
      in fmul L tf idf)"

definition score_tfidf :: "float_lib \<Rightarrow> int list \<Rightarrow> fvalue list exec" where
  "score_tfidf L tokens =
     (if tokens = [] then Inr [] else normalise L (map (tfidf_score L tokens) tokens))"

section \<open>Presis\<close>

text \<open>
  A comparison that is no strict weak order violates the precondition of \<open>std::partial_sort\<close>; that
  happens when a score is a NaN and two others differ.
\<close>

definition weak_order :: "fvalue list \<Rightarrow> bool" where
  "weak_order xs \<longleftrightarrow>
     list_all (\<lambda>x. list_all (\<lambda>y. list_all (\<lambda>z.
       fless x z \<longrightarrow> fless x y \<or> fless y z) xs) xs) xs"

definition keep_count :: "float_lib \<Rightarrow> presis_config \<Rightarrow> nat \<Rightarrow> nat exec" where
  "keep_count L cfg N =
     ebind (ceil_int (fmul L (fl L (real N)) (Finite (ps_keep_fraction cfg))))
       (\<lambda>k. Inr (nat (max 1 (min k (int N)))))"

definition forced :: "nat \<Rightarrow> nat \<Rightarrow> bool" where
  "forced N i \<longleftrightarrow> i = 0 \<or> N - 8 \<le> i"

definition top_indices :: "float_lib \<Rightarrow> fvalue list \<Rightarrow> nat \<Rightarrow> nat list" where
  "top_indices L scores k =
     take k (partial_sort L (\<lambda>a b. fless (scores ! b) (scores ! a)) k [0..<length scores])"

text \<open>The last loop of both passes: the positions that are marked, in order.\<close>

definition pick :: "(nat \<Rightarrow> bool) \<Rightarrow> 'a list \<Rightarrow> 'a list" where
  "pick keep xs = map (\<lambda>i. xs ! i) (filter keep [0..<length xs])"

definition apply_presis :: "float_lib \<Rightarrow> scoring_pass \<Rightarrow> int list \<Rightarrow> fvalue list \<Rightarrow> int list exec" where
  "apply_presis L P tokens scores =
     (if tokens = [] \<or> length scores \<noteq> length tokens then Inr tokens
      else ebind (keep_count L (sp_presis P) (length tokens)) (\<lambda>k.
        if weak_order scores
        then Inr (pick (\<lambda>i. i \<in> set (top_indices L scores k) \<or> forced (length tokens) i) tokens)
        else Inl AssertFail))"

section \<open>ToMe\<close>

definition get_vec :: "scoring_pass \<Rightarrow> nat \<Rightarrow> fvalue list exec" where
  "get_vec P pos =
     ebind (s32 (int pos * sp_hidden_size P)) (\<lambda>off.
       efold (\<lambda>out d. ebind (read_at (sp_hidden P) (off + int d)) (\<lambda>b. Inr (out @ [half_to_float b])))
         [0..<nat (sp_hidden_size P)] [])"

text \<open>The three running sums of \<open>cosine\<close>.\<close>

fun dot_sums :: "float_lib \<Rightarrow> fvalue list \<Rightarrow> fvalue list \<Rightarrow> fvalue \<times> fvalue \<times> fvalue \<Rightarrow> fvalue \<times> fvalue \<times> fvalue" where
  "dot_sums L (a # as) (b # bs) (dot, na, nb) =
     dot_sums L as bs (fadd L dot (fmul L a b), fadd L na (fmul L a a), fadd L nb (fmul L b b))"
| "dot_sums L _ _ s = s"

definition eps :: "float_lib \<Rightarrow> fvalue" where
  "eps L = fl L (1 / 10 ^ 12)"

definition cosine :: "float_lib \<Rightarrow> fvalue list \<Rightarrow> fvalue list \<Rightarrow> fvalue" where
  "cosine L a b =
     (case dot_sums L a b (Finite 0, Finite 0, Finite 0) of (dot, na, nb) \<Rightarrow>
        if fless na (eps L) \<and> fless nb (eps L) then Finite 1
        else if fless na (eps L) \<or> fless nb (eps L) then Finite 0
        else fdiv L dot (fsqrt L (fmul L na nb)))"

text \<open>The inner loop: the most similar odd position that is still there; \<open>-1\<close> is \<open>None\<close>.\<close>

fun best_match ::
  "float_lib \<Rightarrow> scoring_pass \<Rightarrow> nat \<Rightarrow> nat list \<Rightarrow> bool list \<Rightarrow> nat option \<times> fvalue \<Rightarrow> (nat option \<times> fvalue) exec" where
  "best_match L P a [] removed best = Inr best"
| "best_match L P a (b # bs) removed best =
     (if removed ! b then best_match L P a bs removed best
      else ebind (get_vec P a) (\<lambda>va. ebind (get_vec P b) (\<lambda>vb.
        let sim = cosine L va vb
        in best_match L P a bs removed (if fless (snd best) sim then (Some b, sim) else best))))"

fun merge_pairs ::
  "float_lib \<Rightarrow> scoring_pass \<Rightarrow> int \<Rightarrow> nat list \<Rightarrow> nat list \<Rightarrow> bool list \<Rightarrow> nat \<Rightarrow> (bool list \<times> nat) exec" where
  "merge_pairs L P r [] odds removed merges = Inr (removed, merges)"
| "merge_pairs L P r (a # as) odds removed merges =
     (if int merges < r then
        ebind (best_match L P a odds removed (None, Finite (- 2))) (\<lambda>best.
          case best of
            (Some b, sim) \<Rightarrow>
              if fless (Finite 0) sim then merge_pairs L P r as odds (removed[b := True]) (Suc merges)
              else merge_pairs L P r as odds removed merges
          | (None, sim) \<Rightarrow> merge_pairs L P r as odds removed merges)
      else Inr (removed, merges))"

definition apply_tome :: "float_lib \<Rightarrow> scoring_pass \<Rightarrow> int list \<Rightarrow> int list exec" where
  "apply_tome L P tokens =
     (let r = tm_r (sp_tome P); use_seq = min (int (length tokens)) (sp_seq_len P)
      in if r \<le> 0 \<or> sp_hidden P = [] \<or> use_seq < 2 then Inr tokens
         else
           let n = nat use_seq
           in ebind (merge_pairs L P r (filter even [0..<n - 1]) (filter odd [0..<n]) (replicate n False) 0)
                (\<lambda>(removed, merges). Inr (pick (\<lambda>i. \<not> (i < n \<and> removed ! i)) tokens)))"

section \<open>Both\<close>

definition reduce_tome :: "float_lib \<Rightarrow> scoring_pass \<Rightarrow> int list \<Rightarrow> int \<Rightarrow> int list exec" where
  "reduce_tome L P tokens seq_len =
     (if tm_enabled (sp_tome P) \<and> 0 < sp_seq_len P \<and> sp_hidden P \<noteq> [] \<and> sp_seq_len P = seq_len
      then apply_tome L P tokens else Inr tokens)"

definition have_attn :: "scoring_pass \<Rightarrow> int list \<Rightarrow> int \<Rightarrow> bool" where
  "have_attn P result seq_len \<longleftrightarrow>
     sp_attn P \<noteq> [] \<and> 0 < sp_seq_len P \<and> sp_seq_len P = int (length result) \<and>
     seq_len \<le> ps_max_seqlen_for_attn (sp_presis P)"

definition presis_scores :: "float_lib \<Rightarrow> scoring_pass \<Rightarrow> int list \<Rightarrow> int \<Rightarrow> fvalue list exec" where
  "presis_scores L P result seq_len =
     (if have_attn P result seq_len
      then ebind (score_attention L P (length result)) (\<lambda>scores.
             if fless (Finite 0) (max_from (Finite 0) scores) then Inr scores else score_tfidf L result)
      else score_tfidf L result)"

definition compress_tokens :: "float_lib \<Rightarrow> scoring_pass \<Rightarrow> int list \<Rightarrow> int \<Rightarrow> int list exec" where
  "compress_tokens L P tokens seq_len =
     (if tokens = [] then Inr tokens
      else ebind (reduce_tome L P tokens seq_len) (\<lambda>result.
        if ps_enabled (sp_presis P)
        then ebind (presis_scores L P result seq_len) (apply_presis L P result)
        else Inr result))"

section \<open>Picking\<close>

lemma pick_nths: "pick keep xs = nths xs {i. keep i}"
proof (induction xs arbitrary: keep)
  case Nil
  then show ?case by (simp add: pick_def)
next
  case (Cons x xs)
  have "[0..<length (x # xs)] = 0 # map Suc [0..<length xs]" using upt_conv_Cons [of 0 "length (x # xs)"] by (simp add: map_Suc_upt)
  then have "pick keep (x # xs) = (if keep 0 then [x] else []) @ pick (keep \<circ> Suc) xs"
    by (simp add: pick_def filter_map comp_def)
  then show ?case by (simp add: Cons.IH nths_Cons)
qed

lemma subseq_pick: "subseq (pick keep xs) xs"
  unfolding pick_nths by (metis subseq_conv_nths)

lemma pick_cong: "(\<And>i. i < length xs \<Longrightarrow> p i = q i) \<Longrightarrow> pick p xs = pick q xs"
  unfolding pick_def by (rule arg_cong [where f = "map ((!) xs)"]) (rule filter_cong, simp_all)

lemma pick_all: "(\<And>i. i < length xs \<Longrightarrow> keep i) \<Longrightarrow> pick keep xs = xs"
  by (simp add: pick_nths nths_all)

lemma pick_first: "xs \<noteq> [] \<Longrightarrow> keep 0 \<Longrightarrow> pick keep xs \<noteq> [] \<and> hd (pick keep xs) = hd xs"
  by (cases xs) (simp_all add: pick_nths nths_Cons)

lemma pick_suffix:
  assumes "\<And>i. n \<le> i \<Longrightarrow> keep i"
  shows "\<exists>ys. pick keep xs = ys @ drop n xs"
proof (cases "n \<le> length xs")
  case True
  have "xs = take n xs @ drop n xs" by simp
  then have "pick keep xs = nths (take n xs) {i. keep i} @ nths (drop n xs) {j. keep (j + n)}"
    using True unfolding pick_nths by (metis (no_types, lifting) nths_append length_take min.absorb2 mem_Collect_eq Collect_cong)
  then show ?thesis using assms by (simp add: nths_all)
next
  case False
  then show ?thesis by simp
qed

lemma length_pick: "length (pick keep xs) = card {i. i < length xs \<and> keep i}"
  by (simp add: pick_nths length_nths conj_commute)

section \<open>What is removed\<close>

lemma presis_picks:
  assumes "apply_presis L P tokens scores = Inr r"
  shows "\<exists>keep. r = pick keep tokens \<and> (\<forall>i. forced (length tokens) i \<longrightarrow> keep i)"
proof (cases "tokens = [] \<or> length scores \<noteq> length tokens")
  case True
  then show ?thesis using assms by (auto simp: apply_presis_def pick_all [of _ "\<lambda>_. True"] intro!: exI [of _ "\<lambda>_. True"])
next
  case False
  then show ?thesis
    using assms by (auto simp: apply_presis_def ebind_eq_Inr split: if_splits)
qed

lemma best_match_found:
  "best_match L P a bs removed best = Inr (Some b, sim) \<Longrightarrow> fst best = Some b \<or> b \<in> set bs \<and> \<not> removed ! b"
proof (induction L P a bs removed best rule: best_match.induct)
  case (2 L P a c bs removed best)
  show ?case
  proof (cases "removed ! c")
    case True
    then show ?thesis using 2 by auto
  next
    case False
    with 2(3) obtain va vb where
      "best_match L P a bs removed (if fless (snd best) (cosine L va vb) then (Some c, cosine L va vb) else best) = Inr (Some b, sim)"
      "get_vec P a = Inr va" "get_vec P c = Inr vb"
      by (auto simp: ebind_eq_Inr Let_def)
    let ?best = "if fless (snd best) (cosine L va vb) then (Some c, cosine L va vb) else best"
    have "fst ?best = Some b \<or> b \<in> set bs \<and> \<not> removed ! b"
      by (rule 2(2) [OF False refl]) (rule \<open>best_match L P a bs removed ?best = Inr (Some b, sim)\<close>)
    then show ?thesis using False by (auto split: if_splits)
  qed
qed simp

definition marked :: "bool list \<Rightarrow> nat set" where
  "marked removed = {i. i < length removed \<and> removed ! i}"

lemma finite_marked [simp]: "finite (marked removed)"
  by (simp add: marked_def)

lemma marked_update: "marked (removed[b := True]) \<subseteq> insert b (marked removed)"
  by (auto simp: marked_def nth_list_update split: if_splits)

lemma card_marked_update: "card (marked (removed[b := True])) \<le> Suc (card (marked removed))"
proof -
  have "card (marked (removed[b := True])) \<le> card (insert b (marked removed))"
    by (rule card_mono) (simp_all add: marked_update)
  also have "\<dots> \<le> Suc (card (marked removed))" by (rule card_insert_le_m1 [where n = "Suc (card (marked removed))"]) simp_all
  finally show ?thesis .
qed

lemma merge_pairs_removed:
  "merge_pairs L P r as odds removed merges = Inr (removed', merges') \<Longrightarrow> int merges \<le> r \<Longrightarrow>
   length removed' = length removed \<and> merges \<le> merges' \<and> int merges' \<le> r \<and>
   card (marked removed') \<le> card (marked removed) + (merges' - merges) \<and>
   marked removed' \<subseteq> marked removed \<union> set odds"
proof (induction as arbitrary: removed merges)
  case Nil
  then show ?case by simp
next
  case (Cons a as)
  show ?case
  proof (cases "int merges < r")
    case False
    then show ?thesis using Cons.prems by simp
  next
    case True
    with Cons.prems(1) obtain bo sim where best: "best_match L P a odds removed (None, Finite (- 2)) = Inr (bo, sim)"
      and rest: "(case (bo, sim) of (Some b, sim) \<Rightarrow>
          if fless (Finite 0) sim then merge_pairs L P r as odds (removed[b := True]) (Suc merges)
          else merge_pairs L P r as odds removed merges
        | (None, sim) \<Rightarrow> merge_pairs L P r as odds removed merges) = Inr (removed', merges')"
      by (auto simp: ebind_eq_Inr)
    show ?thesis
    proof (cases "\<exists>b. bo = Some b \<and> fless (Finite 0) sim")
      case True
      then obtain b where b: "bo = Some b" "fless (Finite 0) sim" by blast
      have "b \<in> set odds" using best_match_found [of L P a odds removed "(None, Finite (- 2))" b sim] best b by simp
      with Cons.IH [of "removed[b := True]" "Suc merges"] rest b \<open>int merges < r\<close>
      show ?thesis using card_marked_update [of removed b] marked_update [of removed b] by fastforce
    next
      case False
      then have "merge_pairs L P r as odds removed merges = Inr (removed', merges')"
        using rest by (cases bo) auto
      then show ?thesis using Cons.IH Cons.prems(2) by blast
    qed
  qed
qed

lemma marked_none [simp]: "marked (replicate n False) = {}"
  by (auto simp: marked_def)

lemma tome_picks:
  assumes "apply_tome L P tokens = Inr r"
  shows "\<exists>gone. r = pick (\<lambda>i. i \<notin> gone) tokens \<and> gone \<subseteq> {i. odd i} \<and> card gone \<le> nat (tm_r (sp_tome P))"
proof (cases "tm_r (sp_tome P) \<le> 0 \<or> sp_hidden P = [] \<or> min (int (length tokens)) (sp_seq_len P) < 2")
  case True
  then have "r = tokens" using assms by (auto simp: apply_tome_def Let_def split: if_splits)
  then show ?thesis by (intro exI [of _ "{}"]) (simp add: pick_all)
next
  case False
  define n where "n = nat (min (int (length tokens)) (sp_seq_len P))"
  from False assms obtain removed merges where
    m: "merge_pairs L P (tm_r (sp_tome P)) (filter even [0..<n - 1]) (filter odd [0..<n]) (replicate n False) 0 =
      Inr (removed, merges)"
    and r: "r = pick (\<lambda>i. \<not> (i < n \<and> removed ! i)) tokens"
    by (auto simp: apply_tome_def Let_def n_def ebind_eq_Inr)
  have *: "length removed = n" "int merges \<le> tm_r (sp_tome P)" "card (marked removed) \<le> merges"
    "marked removed \<subseteq> set (filter odd [0..<n])"
    using merge_pairs_removed [OF m] False by simp_all
  have "r = pick (\<lambda>i. i \<notin> marked removed) tokens" using r * by (simp add: marked_def)
  then show ?thesis using * by (intro exI [of _ "marked removed"]) auto
qed

section \<open>Both passes\<close>

lemma compress_picks:
  assumes "compress_tokens L P tokens n = Inr r"
  obtains gone keep where "r = pick keep (pick (\<lambda>i. i \<notin> gone) tokens)" "gone \<subseteq> {i. odd i}"
    "card gone \<le> nat (tm_r (sp_tome P))" "\<not> tome_enabled P \<Longrightarrow> gone = {}"
    "\<And>i. forced (length (pick (\<lambda>i. i \<notin> gone) tokens)) i \<Longrightarrow> keep i"
proof (cases "tokens = []")
  case True
  then have "r = pick (\<lambda>_. True) (pick (\<lambda>i. i \<notin> {}) tokens)" using assms by (simp add: compress_tokens_def pick_def)
  then show ?thesis using that [of "\<lambda>_. True" "{}"] by simp
next
  case False
  with assms obtain t where t: "reduce_tome L P tokens n = Inr t"
    and r: "if ps_enabled (sp_presis P) then ebind (presis_scores L P t n) (apply_presis L P t) = Inr r else r = t"
    by (auto simp: compress_tokens_def ebind_eq_Inr split: if_splits)
  have "\<exists>gone. t = pick (\<lambda>i. i \<notin> gone) tokens \<and> gone \<subseteq> {i. odd i} \<and> card gone \<le> nat (tm_r (sp_tome P)) \<and>
      (\<not> tome_enabled P \<longrightarrow> gone = {})"
  proof (cases "apply_tome L P tokens = Inr t \<and> tome_enabled P")
    case True
    then show ?thesis using tome_picks by blast
  next
    case False
    then have "t = tokens" using t by (auto simp: reduce_tome_def tome_enabled_def split: if_splits)
    then show ?thesis by (intro exI [of _ "{}"]) (simp add: pick_all)
  qed
  then obtain gone where g: "t = pick (\<lambda>i. i \<notin> gone) tokens" "gone \<subseteq> {i. odd i}"
    "card gone \<le> nat (tm_r (sp_tome P))" "\<not> tome_enabled P \<Longrightarrow> gone = {}" by blast
  have "\<exists>keep. r = pick keep t \<and> (\<forall>i. forced (length t) i \<longrightarrow> keep i)"
  proof (cases "ps_enabled (sp_presis P)")
    case True
    then show ?thesis using r presis_picks by (auto simp: ebind_eq_Inr)
  next
    case False
    then show ?thesis using r by (intro exI [of _ "\<lambda>_. True"]) (simp add: pick_all)
  qed
  then show ?thesis using that [of _ gone] g by auto
qed

lemma forced_first [simp]: "forced n 0"
  by (simp add: forced_def)

text \<open>C27: Whatever the scores are, a reduced prompt is a subsequence of the prompt that keeps the first token
  and, without ToMe, the last eight.\<close>

theorem compress_keeps_ends:
  assumes "compress_tokens L P tokens n = Inr r" and "tokens \<noteq> []"
  shows "subseq r tokens \<and> r \<noteq> [] \<and> hd r = hd tokens \<and>
    (\<not> tome_enabled P \<longrightarrow> (\<exists>ys. r = ys @ drop (length tokens - 8) tokens))"
proof -
  obtain gone keep where r: "r = pick keep (pick (\<lambda>i. i \<notin> gone) tokens)" and g: "gone \<subseteq> {i. odd i}"
    and n: "\<not> tome_enabled P \<Longrightarrow> gone = {}"
    and k: "\<And>i. forced (length (pick (\<lambda>i. i \<notin> gone) tokens)) i \<Longrightarrow> keep i"
    using compress_picks [OF assms(1)] by metis
  let ?t = "pick (\<lambda>i. i \<notin> gone) tokens"
  have "0 \<notin> gone" using g by auto
  then have t: "?t \<noteq> []" "hd ?t = hd tokens" using pick_first [OF assms(2), of "\<lambda>i. i \<notin> gone"] by simp_all
  have "pick keep ?t \<noteq> []" "hd (pick keep ?t) = hd ?t" using pick_first [OF t(1), of keep] k [OF forced_first] by simp_all
  moreover have "subseq (pick keep ?t) tokens" using subseq_pick subseq_order.trans by blast
  moreover have "\<exists>ys. pick keep ?t = ys @ drop (length tokens - 8) tokens" if "\<not> tome_enabled P"
  proof -
    have "?t = tokens" using n [OF that] by (simp add: pick_all)
    then show ?thesis using k pick_suffix [of "length tokens - 8" keep tokens] by (simp add: forced_def)
  qed
  ultimately show ?thesis using r t by simp
qed

text \<open>The pass removes nothing from a prompt of at most nine tokens when ToMe is off.\<close>

theorem short_prompts_kept:
  assumes "compress_tokens L P tokens n = Inr r" and "length tokens \<le> 9" and "\<not> tome_enabled P"
  shows "r = tokens"
proof -
  obtain gone keep where r: "r = pick keep (pick (\<lambda>i. i \<notin> gone) tokens)" and n: "\<not> tome_enabled P \<Longrightarrow> gone = {}"
    and k: "\<And>i. forced (length (pick (\<lambda>i. i \<notin> gone) tokens)) i \<Longrightarrow> keep i"
    using compress_picks [OF assms(1)] by metis
  have t: "pick (\<lambda>i. i \<notin> gone) tokens = tokens" using n [OF assms(3)] by (simp add: pick_all)
  show ?thesis unfolding r t
  proof (rule pick_all)
    fix i
    assume "i < length tokens"
    with assms(2) have "forced (length tokens) i" by (auto simp: forced_def)
    then show "keep i" using k by (simp only: t)
  qed
qed

text \<open>
  The attention of the last forward pass is used for any prompt of the same length: which positions survive
  does not depend on the tokens.
\<close>

theorem stale_attention:
  assumes "\<not> tome_enabled P" and "length ts = length us" and "have_attn P ts n"
    and "score_attention L P (length ts) = Inr scores" and "fless (Finite 0) (max_from (Finite 0) scores)"
  shows "\<exists>res. compress_tokens L P ts n = map_sum id (\<lambda>keep. pick keep ts) res \<and>
    compress_tokens L P us n = map_sum id (\<lambda>keep. pick keep us) res"
proof -
  have sh: "have_attn P us n" "score_attention L P (length us) = Inr scores"
    using assms(2,3,4) unfolding have_attn_def by metis+
  have "0 < length ts" using assms(3) unfolding have_attn_def by linarith
  then have ne: "ts \<noteq> []" "us \<noteq> []" using assms(2) by auto
  have tm: "reduce_tome L P ts n = Inr ts" "reduce_tome L P us n = Inr us"
    using assms(1) by (simp_all add: reduce_tome_def tome_enabled_def)
  have sc: "presis_scores L P ts n = Inr scores" "presis_scores L P us n = Inr scores"
    using assms(3-5) sh by (simp_all add: presis_scores_def)
  consider "\<not> ps_enabled (sp_presis P)" | "ps_enabled (sp_presis P)" "length scores \<noteq> length ts"
    | (prune) "ps_enabled (sp_presis P)" "length scores = length ts" by blast
  then show ?thesis
  proof cases
    case 1
    then show ?thesis using ne tm
      by (intro exI [of _ "Inr (\<lambda>_. True)"]) (simp add: compress_tokens_def pick_all)
  next
    case 2
    then show ?thesis using ne tm sc assms(2)
      by (intro exI [of _ "Inr (\<lambda>_. True)"]) (simp add: compress_tokens_def apply_presis_def pick_all)
  next
    case prune
    let ?res = "ebind (keep_count L (sp_presis P) (length ts)) (\<lambda>k. if weak_order scores
       then Inr (\<lambda>i. i \<in> set (top_indices L scores k) \<or> forced (length ts) i) else Inl AssertFail)"
    have both: "compress_tokens L P x n = map_sum id (\<lambda>keep. pick keep x) ?res"
      if "x \<noteq> []" "reduce_tome L P x n = Inr x" "presis_scores L P x n = Inr scores" "length x = length ts" for x
      using that prune by (cases "keep_count L (sp_presis P) (length ts)")
        (simp_all add: compress_tokens_def apply_presis_def)
    show ?thesis
      using both [OF ne(1) tm(1) sc(1) refl] both [OF ne(2) tm(2) sc(2) assms(2) [symmetric]]
      by (intro exI [of _ ?res] conjI)
  qed
qed

section \<open>What is kept\<close>

definition strict_weak :: "('a \<Rightarrow> 'a \<Rightarrow> bool) \<Rightarrow> 'a set \<Rightarrow> bool" where
  "strict_weak cmp A \<longleftrightarrow>
     (\<forall>x\<in>A. \<forall>y\<in>A. cmp x y \<longrightarrow> \<not> cmp y x) \<and> (\<forall>x\<in>A. \<forall>y\<in>A. \<forall>z\<in>A. cmp x z \<longrightarrow> cmp x y \<or> cmp y z)"

lemma strict_weakD:
  "strict_weak cmp A \<Longrightarrow> x \<in> A \<Longrightarrow> y \<in> A \<Longrightarrow> z \<in> A \<Longrightarrow> cmp x z \<Longrightarrow> cmp x y \<or> cmp y z"
  unfolding strict_weak_def by blast

lemma strict_weak_asym: "strict_weak cmp A \<Longrightarrow> x \<in> A \<Longrightarrow> y \<in> A \<Longrightarrow> cmp x y \<Longrightarrow> \<not> cmp y x"
  unfolding strict_weak_def by blast

lemma strict_weak_subset: "strict_weak cmp A \<Longrightarrow> B \<subseteq> A \<Longrightarrow> strict_weak cmp B"
  unfolding strict_weak_def by (intro conjI ballI impI) (meson subsetD)+

text \<open>What the standard promises of \<open>std::partial_sort\<close>, less the order of the first part.\<close>

definition partial_sort_spec :: "((nat \<Rightarrow> nat \<Rightarrow> bool) \<Rightarrow> nat \<Rightarrow> nat list \<Rightarrow> nat list) \<Rightarrow> bool" where
  "partial_sort_spec ps \<longleftrightarrow>
     (\<forall>cmp k xs. strict_weak cmp (set xs) \<longrightarrow>
        mset (ps cmp k xs) = mset xs \<and>
        (\<forall>x \<in> set (take k (ps cmp k xs)). \<forall>y \<in> set (drop k (ps cmp k xs)). \<not> cmp y x))"

lemma partial_sort_specD:
  assumes "partial_sort_spec ps" and "strict_weak cmp (set xs)"
  shows "mset (ps cmp k xs) = mset xs"
    and "\<forall>x \<in> set (take k (ps cmp k xs)). \<forall>y \<in> set (drop k (ps cmp k xs)). \<not> cmp y x"
  using assms unfolding partial_sort_spec_def by blast+

lemma weak_scores:
  assumes "weak_order scores"
  shows "strict_weak (\<lambda>a b. fless (scores ! b) (scores ! a)) {..<length scores}"
proof -
  have "\<forall>x\<in>set scores. \<forall>y\<in>set scores. \<forall>z\<in>set scores. fless x z \<longrightarrow> fless x y \<or> fless y z"
    using assms by (simp add: weak_order_def list_all_iff)
  then show ?thesis unfolding strict_weak_def by (meson fless_asym lessThan_iff nth_mem)
qed

lemma keep_count_range:
  "keep_count L cfg N = Inr k \<Longrightarrow> 0 < N \<Longrightarrow> 1 \<le> k \<and> k \<le> N"
  by (auto simp: keep_count_def ebind_eq_Inr)

text \<open>Presis keeps exactly the computed number of best positions, and beside them only the forced ones.\<close>

theorem presis_keeps_best:
  assumes "partial_sort_spec (partial_sort L)" and "apply_presis L P tokens scores = Inr r"
    and "tokens \<noteq> []" and "length scores = length tokens"
  shows "\<exists>best k. keep_count L (sp_presis P) (length tokens) = Inr k \<and> best \<subseteq> {..<length tokens} \<and> card best = k \<and>
    (\<forall>i\<in>best. \<forall>j<length tokens. j \<notin> best \<longrightarrow> \<not> fless (scores ! i) (scores ! j)) \<and>
    r = pick (\<lambda>i. i \<in> best \<or> forced (length tokens) i) tokens"
proof -
  obtain k where k: "keep_count L (sp_presis P) (length tokens) = Inr k" and w: "weak_order scores"
    and r: "r = pick (\<lambda>i. i \<in> set (top_indices L scores k) \<or> forced (length tokens) i) tokens"
    using assms(2-4) by (auto simp: apply_presis_def ebind_eq_Inr split: if_splits)
  define ys where "ys = partial_sort L (\<lambda>a b. fless (scores ! b) (scores ! a)) k [0..<length scores]"
  have perm: "mset ys = mset [0..<length scores]"
    and best: "\<forall>x \<in> set (take k ys). \<forall>y \<in> set (drop k ys). \<not> fless (scores ! x) (scores ! y)"
    using partial_sort_specD [OF assms(1), of "\<lambda>a b. fless (scores ! b) (scores ! a)" "[0..<length scores]" k]
      weak_scores [OF w] unfolding ys_def set_upt atLeast0LessThan by blast+
  have d: "distinct ys" "set ys = {..<length scores}" "length ys = length scores"
    using perm by (metis mset_eq_imp_distinct_iff distinct_upt, metis mset_eq_setD set_upt atLeast0LessThan,
      metis mset_eq_length length_upt diff_zero)
  have top: "top_indices L scores k = take k ys" by (simp add: top_indices_def ys_def)
  have "k \<le> length tokens" using keep_count_range [OF k] assms(3) by simp
  then have "card (set (take k ys)) = k" using d assms(4) by (simp add: distinct_card distinct_take)
  moreover have "set (take k ys) \<subseteq> {..<length tokens}" using d assms(4) set_take_subset by metis
  moreover have "j \<in> set (drop k ys)" if "j < length tokens" "j \<notin> set (take k ys)" for j
    using that d assms(4) by (metis Un_iff append_take_drop_id lessThan_iff set_append)
  ultimately show ?thesis using k r best top by (intro exI [of _ "set (take k ys)"] exI [of _ k]) auto
qed

section \<open>Reads stay inside the attention cache\<close>

lemma efold_total:
  "I s \<Longrightarrow> (\<And>s x. x \<in> set xs \<Longrightarrow> I s \<Longrightarrow> \<exists>s'. f s x = Inr s' \<and> I s') \<Longrightarrow> \<exists>s'. efold f xs s = Inr s' \<and> I s'"
proof (induction xs arbitrary: s)
  case (Cons x xs)
  then obtain s' where "f s x = Inr s'" "I s'" by (meson list.set_intros(1))
  with Cons show ?case by simp
qed simp

text \<open>The dimensions of a capture are consistent when the copies of \<open>update_cache\<close> have been made.\<close>

definition attn_complete :: "scoring_pass \<Rightarrow> bool" where
  "attn_complete P \<longleftrightarrow> 0 \<le> sp_n_heads P \<and> 0 \<le> sp_seq_len P \<and> 0 \<le> sp_kv_seq P \<and>
     int (length (sp_attn P)) = sp_n_heads P * sp_seq_len P * sp_kv_seq P"

lemma flat_index:
  assumes "h < H" "q < S" "k < K"
  shows "(h * S + q) * K + k < H * S * (K :: nat)"
proof -
  have "h * S + q < H * S"
  proof -
    have "h * S + q < Suc h * S" using assms(2) by simp
    also have "\<dots> \<le> H * S" using assms(1) by (intro mult_le_mono1) simp
    finally show ?thesis .
  qed
  then have "(h * S + q) * K + k < Suc (h * S + q) * K" "Suc (h * S + q) * K \<le> H * S * K"
    using assms(3) by (simp, intro mult_le_mono1) simp
  then show ?thesis by linarith
qed

lemma row_offset_ok:
  assumes "h < H" "q < S" "H * S * K < 2 ^ 31" "0 < (K :: nat)"
  shows "row_offset (int S) (int K) (int h) (int q) = Inr (int ((h * S + q) * K))"
proof -
  have "(h * S + q) * K + 0 < H * S * K" using assms by (intro flat_index) simp_all
  then have b: "(h * S + q) * K < 2 ^ 31" using assms(3) unfolding add_0_right by linarith
  moreover have "h * S + q \<le> (h * S + q) * K" using assms(4) by simp
  ultimately have "h * S + q < 2 ^ 31" by linarith
  then have n: "h * S < 2147483648" "h * S + q < 2147483648" "(h * S + q) * K < 2147483648" using b by simp_all
  have i: "x < 2147483648 \<Longrightarrow> s32 (int x) = Inr (int x)" for x by (simp add: in_s32_def)
  have "row_offset (int S) (int K) (int h) (int q) =
      ebind (s32 (int (h * S))) (\<lambda>x. ebind (s32 (x + int q)) (\<lambda>y. s32 (y * int K)))"
    by (simp add: row_offset_def)
  also have "\<dots> = ebind (s32 (int (h * S + q))) (\<lambda>y. s32 (y * int K))" by (simp add: i [OF n(1), simplified])
  also have "\<dots> = s32 (int ((h * S + q) * K))" by (simp only: i [OF n(2)] ebind_Inr of_nat_mult)
  also have "\<dots> = Inr (int ((h * S + q) * K))" by (rule i [OF n(3)])
  finally show ?thesis .
qed

lemma add_row_total:
  assumes "length s = n" and "\<And>k. k < nat use_kv \<Longrightarrow> off + k < length cache"
  shows "\<exists>s'. add_row L cache (int off) use_kv s = Inr s' \<and> length s' = n"
  unfolding add_row_def
proof (rule efold_total [where I = "\<lambda>s. length s = n"])
  fix s :: "fvalue list" and k
  assume "k \<in> set [0..<nat use_kv]" "length s = n"
  moreover have "off + k < length cache" using assms(2) calculation by simp
  ultimately show "\<exists>s'. ebind (read_at cache (int off + int k)) (\<lambda>v. Inr (s[k := fadd L (s ! k) v])) = Inr s' \<and> length s' = n"
    by (simp add: read_at_def)
qed (rule assms(1))

lemma column_sums_total:
  assumes "attn_complete P" and "length (sp_attn P) < 2 ^ 31" and "sp_attn P \<noteq> []"
  shows "\<exists>scores. column_sums L P n = Inr scores \<and> length scores = n"
proof -
  obtain H S K where d: "sp_n_heads P = int H" "sp_seq_len P = int S" "sp_kv_seq P = int K"
    using assms(1) unfolding attn_complete_def by (metis nonneg_int_cases)
  then have len: "length (sp_attn P) = H * S * K"
    using assms(1) unfolding attn_complete_def by (metis of_nat_eq_iff of_nat_mult)
  then have K: "0 < K" using assms(3) by (cases K) auto
  have row: "\<exists>s'. ebind (row_offset (int S) (int K) (int h) (int q))
      (\<lambda>off. add_row L (sp_attn P) off (min (int n) (int K)) s) = Inr s' \<and> length s' = n"
    if "h < H" "q < S" "length s = n" for h q s
  proof -
    have "row_offset (int S) (int K) (int h) (int q) = Inr (int ((h * S + q) * K))"
      using row_offset_ok [OF that(1,2) _ K] assms(2) len by simp
    moreover have "(h * S + q) * K + k < length (sp_attn P)" if "k < nat (min (int n) (int K))" for k
      using flat_index [OF \<open>h < H\<close> \<open>q < S\<close>, of k K] that len by simp
    ultimately show ?thesis using add_row_total [OF that(3)] by (simp only: ebind_Inr)
  qed
  show ?thesis unfolding column_sums_def d nat_int
    by (intro efold_total [where I = "\<lambda>s. length s = n"]) (simp_all add: row)
qed

lemma max_element_total: "xs \<noteq> [] \<Longrightarrow> \<exists>m. max_element xs = Inr m"
  by (cases xs) simp_all

text \<open>After a capture whose size is an \<open>int\<close>, scoring by attention returns one score per token.\<close>

theorem attention_in_bounds:
  assumes "attn_complete P" and "length (sp_attn P) < 2 ^ 31" and "sp_attn P \<noteq> []" and "0 < n"
  shows "\<exists>scores. score_attention L P n = Inr scores \<and> length scores = n"
proof -
  obtain s where s: "column_sums L P n = Inr s" "length s = n" using column_sums_total [OF assms(1-3)] by blast
  then have "s \<noteq> []" using assms(4) by auto
  then obtain m where "max_element s = Inr m" using max_element_total by blast
  then show ?thesis using s by (simp add: score_attention_def normalise_def)
qed

text \<open>Past \<open>2^31\<close> entries the offsets of the rows overflow.\<close>

lemma offset_overflow: "row_offset 8192 8192 32 0 = Inl SignedOverflow"
  by (simp add: row_offset_def s32_def in_s32_def)

section \<open>Concrete passes\<close>

fun insert_by :: "('a \<Rightarrow> 'a \<Rightarrow> bool) \<Rightarrow> 'a \<Rightarrow> 'a list \<Rightarrow> 'a list" where
  "insert_by cmp x [] = [x]"
| "insert_by cmp x (y # ys) = (if cmp y x then y # insert_by cmp x ys else x # y # ys)"

definition exact_lib :: float_lib where
  "exact_lib = \<lparr>fl = Finite, float_log = (\<lambda>x. x), partial_sort = (\<lambda>cmp k xs. foldr (insert_by cmp) xs [])\<rparr>"

lemma mset_insert_by [simp]: "mset (insert_by cmp x xs) = add_mset x (mset xs)"
  by (induction xs) auto

lemma set_insert_by [simp]: "set (insert_by cmp x xs) = insert x (set xs)"
  by (induction xs) auto

lemma sorted_insert_by:
  "strict_weak cmp (insert x (set xs)) \<Longrightarrow> sorted_wrt (\<lambda>a b. \<not> cmp b a) xs \<Longrightarrow>
   sorted_wrt (\<lambda>a b. \<not> cmp b a) (insert_by cmp x xs)"
proof (induction xs)
  case (Cons y ys)
  have w: "strict_weak cmp (insert x (set ys))" by (rule strict_weak_subset [OF Cons.prems(1)]) auto
  have asym: "cmp y x \<Longrightarrow> \<not> cmp x y" by (rule strict_weak_asym [OF Cons.prems(1)]) simp_all
  have neg: "cmp z x \<Longrightarrow> cmp z y \<or> cmp y x" if "z \<in> set ys" for z
    by (rule strict_weakD [OF Cons.prems(1)]) (use that in simp_all)
  have far: "\<not> cmp z x" if "\<not> cmp y x" "z \<in> set ys" for z
    using that neg [OF that(2)] Cons.prems(2) by auto
  show ?case
  proof (cases "cmp y x")
    case True
    then show ?thesis using Cons.IH [OF w] Cons.prems(2) asym by simp
  next
    case False
    then show ?thesis using Cons.prems(2) far by simp
  qed
qed simp

lemma exact_partial_sort: "partial_sort_spec (partial_sort exact_lib)"
proof -
  have m: "mset (foldr (insert_by cmp) xs []) = mset xs" for cmp and xs :: "nat list"
    by (induction xs) auto
  have s: "strict_weak cmp (set xs) \<Longrightarrow> sorted_wrt (\<lambda>a b. \<not> cmp b a) (foldr (insert_by cmp) xs [])" for cmp and xs :: "nat list"
  proof (induction xs)
    case (Cons x xs)
    have "set (foldr (insert_by cmp) xs []) = set xs" using m by (metis mset_eq_setD)
    moreover have "strict_weak cmp (set xs)" by (rule strict_weak_subset [OF Cons.prems]) auto
    ultimately show ?case using Cons by (simp add: sorted_insert_by)
  qed simp
  have split: "sorted_wrt R ys \<Longrightarrow> x \<in> set (take k ys) \<Longrightarrow> y \<in> set (drop k ys) \<Longrightarrow> R x y" for R k x y and ys :: "nat list"
    by (metis append_take_drop_id sorted_wrt_append)
  have "partial_sort exact_lib cmp k xs = foldr (insert_by cmp) xs []" for cmp k xs by (simp add: exact_lib_def)
  then show ?thesis unfolding partial_sort_spec_def
    by (intro allI impI conjI ballI) (simp only: m, metis split s)
qed

definition demo_pass :: scoring_pass where
  "demo_pass = scoring_construct default_compression 1 1 1"

definition demo_prompt :: "int list" where
  "demo_prompt = [0, 0, 1, 2, 3, 4, 5, 6, 7, 8]"

lemmas demo_eval = demo_prompt_def demo_pass_def exact_lib_def scoring_construct_def default_compression_def
  default_presis_def default_tome_def

lemmas presis_eval = apply_presis_def keep_count_def in_s32_def weak_order_def top_indices_def pick_def forced_def

lemma demo_compressed: "compress_tokens exact_lib demo_pass demo_prompt 10 = Inr [0, 1, 2, 3, 4, 5, 6, 7, 8]"
  by (simp add: demo_eval compress_tokens_def reduce_tome_def presis_scores_def have_attn_def score_tfidf_def tfidf_score_def
      normalise_def presis_eval upt_rec [of _ "Suc _"])

theorem compress_keeps_ends_witness:
  "compress_tokens exact_lib demo_pass demo_prompt 10 = Inr [0, 1, 2, 3, 4, 5, 6, 7, 8] \<and>
   (\<exists>ys. [0, 1, 2, 3, 4, 5, 6, 7, 8] = ys @ drop (length demo_prompt - 8) demo_prompt)"
  using demo_compressed compress_keeps_ends [OF demo_compressed]
  by (simp add: demo_prompt_def tome_enabled_def demo_pass_def scoring_construct_def default_compression_def default_tome_def)

text \<open>A capture of one head and ten queries over one position, kept at one token in ten.\<close>

definition attn_pass :: scoring_pass where
  "attn_pass = set_host_caches_for_test (replicate 10 (Finite 1)) [] 10 1
     (demo_pass\<lparr>sp_presis := default_presis\<lparr>ps_keep_fraction := 1 / 10\<rparr>\<rparr>)"

definition other_prompt :: "int list" where
  "other_prompt = [31, 999, 32, 33, 34, 35, 36, 37, 38, 39]"

lemmas attn_eval = attn_pass_def set_host_caches_for_test_def demo_eval

lemma replicate_10: "replicate 10 x = [x, x, x, x, x, x, x, x, x, x]"
  by (simp add: numeral_eq_Suc)

lemma upt_10: "[0..<10] = [0, 1, 2, 3, 4, 5, 6, 7, 8, 9]"
  by (simp add: upt_rec)

definition attn_ones :: "fvalue list" where
  "attn_ones = [Finite 1, Finite 0, Finite 0, Finite 0, Finite 0, Finite 0, Finite 0, Finite 0, Finite 0, Finite 0]"

lemma attn_size: "\<not> cache_too_small attn_pass"
  by (simp add: attn_eval cache_too_small_def cast_s32_def)

lemma attn_columns: "column_sums exact_lib attn_pass 10 = Inr (attn_ones[0 := Finite 10])"
  by (simp add: attn_eval attn_ones_def column_sums_def replicate_10 upt_10 row_offset_def add_row_def read_at_def in_s32_def)

lemma attn_scores: "score_attention exact_lib attn_pass 10 = Inr attn_ones"
  using attn_size attn_columns by (simp add: score_attention_def normalise_def attn_ones_def exact_lib_def)

lemma attn_have: "have_attn attn_pass demo_prompt 10"
  by (simp add: attn_eval have_attn_def)

theorem stale_attention_witness:
  "\<exists>res. compress_tokens exact_lib attn_pass demo_prompt 10 = map_sum id (\<lambda>keep. pick keep demo_prompt) res \<and>
    compress_tokens exact_lib attn_pass other_prompt 10 = map_sum id (\<lambda>keep. pick keep other_prompt) res"
proof -
  have "length demo_prompt = 10" "length other_prompt = 10" by (simp_all add: demo_prompt_def other_prompt_def)
  moreover have "\<not> tome_enabled attn_pass" by (simp add: attn_eval tome_enabled_def)
  moreover have "fless (Finite 0) (max_from (Finite 0) attn_ones)" by (simp add: attn_ones_def)
  ultimately show ?thesis
    using stale_attention [of attn_pass demo_prompt other_prompt 10 exact_lib] attn_have attn_scores by simp
qed

text \<open>The second position of either prompt is dropped, the rarest token of the second one.\<close>

lemma stale_attention_effect:
  "compress_tokens exact_lib attn_pass other_prompt 10 = Inr [31, 32, 33, 34, 35, 36, 37, 38, 39]"
proof -
  have l: "length other_prompt = 10" by (simp add: other_prompt_def)
  have "presis_scores exact_lib attn_pass other_prompt 10 = Inr attn_ones"
    using attn_scores l attn_have by (simp add: presis_scores_def have_attn_def demo_prompt_def attn_ones_def)
  moreover have "apply_presis exact_lib attn_pass other_prompt attn_ones = Inr [31, 32, 33, 34, 35, 36, 37, 38, 39]"
    by (simp add: attn_eval other_prompt_def attn_ones_def presis_eval)
  moreover have "reduce_tome exact_lib attn_pass other_prompt 10 = Inr other_prompt" "ps_enabled (sp_presis attn_pass)"
    "other_prompt \<noteq> []"
    by (simp_all add: attn_eval reduce_tome_def other_prompt_def)
  ultimately show ?thesis by (simp add: compress_tokens_def)
qed

theorem presis_keeps_best_witness:
  "\<exists>best k. keep_count exact_lib (sp_presis attn_pass) 3 = Inr k \<and> best \<subseteq> {..<3} \<and> card best = k \<and>
    (\<forall>i\<in>best. \<forall>j<3. j \<notin> best \<longrightarrow> \<not> fless ([Finite 1, Finite 3, Finite 2] ! i) ([Finite 1, Finite 3, Finite 2] ! j)) \<and>
    [7, 8, 9] = pick (\<lambda>i. i \<in> best \<or> forced 3 i) [7, 8, 9 :: int]"
proof -
  have "apply_presis exact_lib attn_pass [7, 8, 9] [Finite 1, Finite 3, Finite 2] = Inr [7, 8, 9]"
    by (simp add: attn_eval presis_eval upt_rec [of _ "Suc _"])
  from presis_keeps_best [OF exact_partial_sort this] show ?thesis by (simp add: numeral_3_eq_3)
qed

theorem attention_in_bounds_witness: "\<exists>scores. score_attention exact_lib attn_pass 4 = Inr scores \<and> length scores = 4"
  by (rule attention_in_bounds) (simp_all add: attn_eval attn_complete_def)

text \<open>One column that is not a number leaves the comparison without an order.\<close>

lemma nan_column: "apply_presis exact_lib demo_pass [7, 8, 9] [Finite 1, Not_A_Number, Finite 2] = Inl AssertFail"
  by (simp add: demo_eval presis_eval)

end
