(* ===== verification/Multi_Gpu.thy ===== *)
theory Multi_Gpu
  imports Gpu_Device
begin

text \<open>
  The tensor handle of \<open>include/truellm/types.h\<close> and the tensor-parallel coordinator of
  \<open>src/inference/backends/cuda/multi_gpu.cpp\<close>.  NCCL is a parameter (\<open>None\<close> in a build without it): whether
  each of its calls succeeds.  A communicator is the number of its rank, an address is an integer, and the
  products of the addressing stay far below \<open>int64_t\<close>, as sizes of device memory do.
\<close>

section \<open>Tensors\<close>

datatype data_type =
    DT_F32 | DT_F16 | DT_BF16 | DT_I32 | DT_I16 | DT_I8 | DT_Q8_0 | DT_Q4_0 | DT_Q4_1 | DT_Q5_0 | DT_Q5_1 | DT_Q4_K_M

fun data_type_num :: "data_type \<Rightarrow> nat" where
  "data_type_num DT_F32 = 0"
| "data_type_num DT_F16 = 1"
| "data_type_num DT_BF16 = 2"
| "data_type_num DT_I32 = 3"
| "data_type_num DT_I16 = 4"
| "data_type_num DT_I8 = 5"
| "data_type_num DT_Q8_0 = 10"
| "data_type_num DT_Q4_0 = 11"
| "data_type_num DT_Q4_1 = 12"
| "data_type_num DT_Q5_0 = 13"
| "data_type_num DT_Q5_1 = 14"
| "data_type_num DT_Q4_K_M = 20"

record true_buffer =
  tb_data :: int
  tb_bytes :: int
  tb_dtype :: data_type
  tb_device :: int
  tb_ndim :: nat
  tb_shape :: "int list"
  tb_stride :: "int list"

section \<open>The coordinator\<close>

datatype tp_mode = Single_Process_All_Ranks | Multi_Process_Rank

datatype mg_error = Invalid_Argument_Exn string | Runtime_Exn string

record nccl_api =
  nc_init_all :: "int list \<Rightarrow> bool"
  nc_init_rank :: "int \<Rightarrow> 8 word list \<Rightarrow> int \<Rightarrow> bool"
  nc_set_device :: "int \<Rightarrow> bool"
  nc_all_reduce :: "int \<Rightarrow> int \<Rightarrow> bool"
  nc_unique_id :: "8 word list option"
  nc_id_size :: nat
  nc_error :: string

record multi_gpu =
  mg_tp_size :: int
  mg_rank :: int
  mg_device :: int
  mg_ready :: bool
  mg_mode :: tp_mode
  mg_comms :: "int list"

definition init_single_process :: "nccl_api \<Rightarrow> multi_gpu \<Rightarrow> mg_error + multi_gpu" where
  "init_single_process N M =
     (let ranks = map int [0..<nat (mg_tp_size M)]
      in if nc_init_all N ranks then Inr (M\<lparr>mg_comms := ranks, mg_ready := True\<rparr>)
         else Inl (Runtime_Exn (''[MultiGpu] ncclCommInitAll failed: '' @ nc_error N)))"

definition init_multi_process :: "nccl_api \<Rightarrow> 8 word list \<Rightarrow> multi_gpu \<Rightarrow> mg_error + multi_gpu" where
  "init_multi_process N uid M =
     (if \<not> nc_set_device N (mg_device M) then Inl (Runtime_Exn (''[MultiGpu] cudaSetDevice('' @ show_int (mg_device M) @ '') failed before NCCL init''))
      else if \<not> nc_init_rank N (mg_tp_size M) uid (mg_rank M)
      then Inl (Runtime_Exn (''[MultiGpu] ncclCommInitRank failed: '' @ nc_error N))
      else Inr (M\<lparr>mg_comms := [mg_rank M], mg_ready := True\<rparr>))"

definition new_single_process :: "nccl_api option \<Rightarrow> gpu_driver option \<Rightarrow> int \<Rightarrow> int \<Rightarrow> mg_error + multi_gpu" where
  "new_single_process N D tp_size primary =
     (let M = \<lparr>mg_tp_size = max 1 tp_size, mg_rank = 0, mg_device = primary, mg_ready = False,
               mg_mode = Single_Process_All_Ranks, mg_comms = []\<rparr>
      in if mg_tp_size M = 1 then Inr M
         else case N of
           None \<Rightarrow> Inl (Runtime_Exn (''[MultiGpu] tensor_parallel_size='' @ show_int (mg_tp_size M) @
             '' requires the engine to be built with TRUELLM_HAS_NCCL.  '' @
             ''Either set tensor_parallel_size=1 or rebuild with NCCL support '' @
             ''(install libnccl-dev / nccl_<ver>-cuda<ver> and re-run cmake).''))
         | Some n \<Rightarrow>
             if device_count D < mg_tp_size M
             then Inl (Invalid_Argument_Exn (''[MultiGpu] tensor_parallel_size='' @ show_int (mg_tp_size M) @
               '' exceeds available device count='' @ show_int (device_count D)))
             else init_single_process n M)"

definition bad_unique_id :: string where
  "bad_unique_id = ''[MultiGpu] multi-process init: unique_id must be a '' @
     ''sizeof(ncclUniqueId)-byte blob produced by create_unique_id()''"

text \<open>A null id is \<open>None\<close>.\<close>

definition new_multi_process ::
  "nccl_api option \<Rightarrow> int \<Rightarrow> int \<Rightarrow> int \<Rightarrow> 8 word list option \<Rightarrow> nat \<Rightarrow> mg_error + multi_gpu" where
  "new_multi_process N tp_size rank device uid uid_size =
     (let M = \<lparr>mg_tp_size = max 1 tp_size, mg_rank = rank, mg_device = device, mg_ready = False,
               mg_mode = Multi_Process_Rank, mg_comms = []\<rparr>
      in if mg_tp_size M = 1 then Inr M
         else if rank < 0 \<or> mg_tp_size M \<le> rank
         then Inl (Invalid_Argument_Exn (''[MultiGpu] rank='' @ show_int rank @ '' is outside [0, tp_size='' @
           show_int (mg_tp_size M) @ '')''))
         else case N of
           None \<Rightarrow> Inl (Runtime_Exn (''[MultiGpu] multi-process tensor parallelism requires '' @
             ''TRUELLM_HAS_NCCL.  Set tensor_parallel_size=1 or rebuild with NCCL support.''))
         | Some n \<Rightarrow>
             (case uid of
                None \<Rightarrow> Inl (Invalid_Argument_Exn bad_unique_id)
              | Some u \<Rightarrow>
                  if uid_size \<noteq> nc_id_size n
                  then Inl (Invalid_Argument_Exn bad_unique_id)
                  else init_multi_process n u M))"

definition destroy_comms :: "multi_gpu \<Rightarrow> multi_gpu" where
  "destroy_comms M = M\<lparr>mg_comms := [], mg_ready := False\<rparr>"

definition is_single_device :: "multi_gpu \<Rightarrow> bool" where
  "is_single_device M \<longleftrightarrow> mg_tp_size M = 1"

section \<open>Collectives\<close>

text \<open>\<open>to_nccl_dtype\<close> has no equivalent for \<open>I16\<close> and the quantised types.\<close>

fun nccl_dtype :: "data_type \<Rightarrow> nat option" where
  "nccl_dtype DT_F32 = Some 4"
| "nccl_dtype DT_F16 = Some 2"
| "nccl_dtype DT_BF16 = Some 2"
| "nccl_dtype DT_I32 = Some 4"
| "nccl_dtype DT_I8 = Some 1"
| "nccl_dtype _ = None"

definition all_reduce :: "nccl_api option \<Rightarrow> int \<Rightarrow> int \<Rightarrow> data_type \<Rightarrow> multi_gpu \<Rightarrow> error_code" where
  "all_reduce N buf n dt M =
     (if mg_tp_size M \<le> 1 then Ok
      else if \<not> mg_ready M then Unavailable
      else if buf = 0 \<or> n = 0 then InvalidArgument
      else case N of
        None \<Rightarrow> Unavailable
      | Some a \<Rightarrow>
          if nccl_dtype dt = None then InvalidArgument
          else if mg_mode M = Single_Process_All_Ranks
          then if mg_rank M < 0 \<or> int (length (mg_comms M)) \<le> mg_rank M then InternalError
               else if nc_all_reduce a (mg_comms M ! nat (mg_rank M)) n then Ok else BackendError
          else if mg_comms M = [] then InternalError
          else if nc_all_reduce a (hd (mg_comms M)) n then Ok else BackendError)"

definition create_unique_id :: "nccl_api option \<Rightarrow> mg_error + 8 word list" where
  "create_unique_id N =
     (case N of
        None \<Rightarrow> Inl (Runtime_Exn (''[MultiGpu] create_unique_id requires the engine to be built '' @ ''with TRUELLM_HAS_NCCL.''))
      | Some n \<Rightarrow>
          (case nc_unique_id n of
             None \<Rightarrow> Inl (Runtime_Exn (''[MultiGpu] ncclGetUniqueId failed: '' @ nc_error n))
           | Some u \<Rightarrow> Inr u))"

section \<open>Shards\<close>

fun elem_size :: "data_type \<Rightarrow> int" where
  "elem_size DT_F32 = 4"
| "elem_size DT_F16 = 2"
| "elem_size DT_BF16 = 2"
| "elem_size DT_I32 = 4"
| "elem_size DT_I16 = 2"
| "elem_size DT_I8 = 1"
| "elem_size _ = 0"

lemma elem_size_nonneg [simp]: "0 \<le> elem_size dt"
  by (cases dt) simp_all

definition scatter_weight :: "true_buffer \<Rightarrow> int \<Rightarrow> multi_gpu \<Rightarrow> mg_error + true_buffer" where
  "scatter_weight w axis M =
     (if mg_tp_size M = 1 then Inr w
      else if axis < 0 \<or> int (tb_ndim w) \<le> axis
      then Inl (Invalid_Argument_Exn (''[MultiGpu] scatter_weight: split_axis='' @ show_int axis @
        '' out of range for ndim='' @ show_nat (tb_ndim w)))
      else
        let a = nat axis; axis_len = tb_shape w ! a
        in if tmod axis_len (mg_tp_size M) \<noteq> 0
           then Inl (Invalid_Argument_Exn (''[MultiGpu] scatter_weight: axis length='' @ show_int axis_len @
             '' is not divisible by tp_size='' @ show_int (mg_tp_size M)))
           else
             let shard_len = tdiv axis_len (mg_tp_size M);
                 offset = shard_len * mg_rank M;
                 stride = (if tb_stride w ! a = 0 then 1 else tb_stride w ! a);
                 es = elem_size (tb_dtype w)
             in if es = 0 then Inl (Invalid_Argument_Exn ''[MultiGpu] scatter_weight: cannot stride a quantised dtype'')
                else Inr (w\<lparr>tb_shape := (tb_shape w)[a := shard_len], tb_data := tb_data w + offset * stride * es,
                            tb_bytes := shard_len * stride * es\<rparr>))"

section \<open>Construction\<close>

definition mg_ok :: "multi_gpu \<Rightarrow> bool" where
  "mg_ok M \<longleftrightarrow> 1 \<le> mg_tp_size M \<and>
     (mg_tp_size M = 1 \<or> 0 \<le> mg_rank M \<and> mg_rank M < mg_tp_size M) \<and>
     (mg_ready M \<longrightarrow> (case mg_mode M of
        Single_Process_All_Ranks \<Rightarrow> mg_comms M = map int [0..<nat (mg_tp_size M)]
      | Multi_Process_Rank \<Rightarrow> mg_comms M = [mg_rank M]))"

lemma new_single_ok: "new_single_process N D tp dev = Inr M \<Longrightarrow> mg_ok M \<and> mg_ready M = (1 < tp)"
  by (auto simp: new_single_process_def init_single_process_def mg_ok_def Let_def split: if_splits option.splits)

lemma new_multi_ok: "new_multi_process N tp rank dev uid n = Inr M \<Longrightarrow> mg_ok M \<and> mg_ready M = (1 < tp)"
  by (auto simp: new_multi_process_def init_multi_process_def mg_ok_def Let_def split: if_splits option.splits)

text \<open>A coordinator of either constructor never takes the internal error of \<open>all_reduce\<close>: it always has the
  communicator of its own rank.\<close>

lemma all_reduce_comm:
  assumes "mg_ok M" and "N = None \<Longrightarrow> \<not> mg_ready M"
  shows "all_reduce N buf n dt M \<noteq> InternalError"
proof (cases "1 < mg_tp_size M \<and> mg_ready M")
  case False
  then show ?thesis by (auto simp: all_reduce_def)
next
  case True
  then show ?thesis using assms
    by (auto simp: all_reduce_def mg_ok_def Let_def split: option.splits tp_mode.splits)
qed

section \<open>Addresses\<close>

text \<open>The address of an element, and the row-major strides of a contiguous tensor.\<close>

fun dot_index :: "int list \<Rightarrow> int list \<Rightarrow> int" where
  "dot_index (i # is) (s # ss) = i * s + dot_index is ss"
| "dot_index _ _ = 0"

definition elem_addr :: "true_buffer \<Rightarrow> int list \<Rightarrow> int" where
  "elem_addr b idx = tb_data b + dot_index idx (tb_stride b) * elem_size (tb_dtype b)"

definition in_shape :: "true_buffer \<Rightarrow> int list \<Rightarrow> bool" where
  "in_shape b idx \<longleftrightarrow> length idx = length (tb_shape b) \<and> list_all2 (\<lambda>i n. 0 \<le> i \<and> i < n) idx (tb_shape b)"

lemma dot_index_update:
  "a < length idx \<Longrightarrow> a < length ss \<Longrightarrow> dot_index (idx[a := v]) ss = dot_index idx ss + (v - idx ! a) * ss ! a"
proof (induction idx ss arbitrary: a rule: dot_index.induct)
  case (1 i "is" s ss)
  then show ?case by (cases a) (simp_all add: algebra_simps)
qed auto

lemma scatter_elements:
  assumes "scatter_weight w axis M = Inr v" and "mg_tp_size M \<noteq> 1"
    and "a = nat axis" and "a < length idx" and "a < length (tb_stride w)" and "tb_stride w ! a \<noteq> 0"
  shows "elem_addr v idx = elem_addr w (idx[a := mg_rank M * tdiv (tb_shape w ! a) (mg_tp_size M) + idx ! a])"
proof -
  have v: "tb_data v = tb_data w + tdiv (tb_shape w ! a) (mg_tp_size M) * mg_rank M * tb_stride w ! a * elem_size (tb_dtype w)"
    "tb_stride v = tb_stride w" "tb_dtype v = tb_dtype w"
    using assms by (auto simp: scatter_weight_def Let_def split: if_splits)
  show ?thesis using assms(4,5)
    by (simp add: elem_addr_def v dot_index_update algebra_simps)
qed

lemma scatter_shape:
  assumes "scatter_weight w axis M = Inr v" and "mg_tp_size M \<noteq> 1"
  shows "tb_shape v = (tb_shape w)[nat axis := tdiv (tb_shape w ! nat axis) (mg_tp_size M)]"
    and "tmod (tb_shape w ! nat axis) (mg_tp_size M) = 0" and "0 \<le> axis" and "axis < int (tb_ndim w)"
  using assms by (auto simp: scatter_weight_def Let_def split: if_splits)

lemma list_all2_update_iff:
  "a < length xs \<Longrightarrow> length xs = length ys \<Longrightarrow>
   list_all2 P (xs[a := x]) (ys[a := y]) \<longleftrightarrow> P x y \<and> (\<forall>i < length xs. i \<noteq> a \<longrightarrow> P (xs ! i) (ys ! i))"
  by (auto simp: list_all2_conv_all_nth nth_list_update)

lemma in_shape_axis:
  assumes "a < length (tb_shape w)" and "tb_shape v = (tb_shape w)[a := s]"
  shows "in_shape v idx \<longleftrightarrow> length idx = length (tb_shape w) \<and> 0 \<le> idx ! a \<and> idx ! a < s \<and>
    (\<forall>i < length idx. i \<noteq> a \<longrightarrow> 0 \<le> idx ! i \<and> idx ! i < tb_shape w ! i)"
  using assms by (auto simp: in_shape_def list_all2_conv_all_nth nth_list_update)

text \<open>C17: The shards of the ranks partition the tensor: the elements of all views together are the elements of the
  weight, each exactly once, and at the same addresses.
\<close>

theorem shards_partition:
  assumes "1 < mg_tp_size M" and "\<And>r. 0 \<le> r \<Longrightarrow> r < mg_tp_size M \<Longrightarrow> scatter_weight w axis (M\<lparr>mg_rank := r\<rparr>) = Inr (view r)"
    and "nat axis < length (tb_shape w)" and "length (tb_stride w) = length (tb_shape w)"
    and "tb_stride w ! nat axis \<noteq> 0" and "0 < tb_shape w ! nat axis"
  defines "place \<equiv> \<lambda>(r, idx). idx[nat axis := r * (tb_shape w ! nat axis div mg_tp_size M) + idx ! nat axis]"
  shows "bij_betw place {(r, idx). 0 \<le> r \<and> r < mg_tp_size M \<and> in_shape (view r) idx} {idx. in_shape w idx} \<and>
    (\<forall>r idx. 0 \<le> r \<longrightarrow> r < mg_tp_size M \<longrightarrow> in_shape (view r) idx \<longrightarrow>
       elem_addr (view r) idx = elem_addr w (place (r, idx)))"
proof -
  define a s where "a = nat axis" and "s = tb_shape w ! nat axis div mg_tp_size M"
  have shape: "tb_shape (view r) = (tb_shape w)[a := s]" if "0 \<le> r" "r < mg_tp_size M" for r
    using scatter_shape(1) [OF assms(2) [OF that]] assms(1,6) by (simp add: a_def s_def)
  have "tmod (tb_shape w ! a) (mg_tp_size M) = 0"
    using scatter_shape(2) [OF assms(2) [of 0]] assms(1) by (simp add: a_def)
  then have total: "tb_shape w ! a = mg_tp_size M * s" "0 < s"
    using assms(1,6) by (auto simp: a_def s_def intro: pos_imp_zdiv_pos_iff [THEN iffD2] zdvd_imp_le)
  have al: "a < length (tb_shape w)" using assms(3) by (simp add: a_def)
  have view: "in_shape (view r) idx \<longleftrightarrow> length idx = length (tb_shape w) \<and> 0 \<le> idx ! a \<and> idx ! a < s \<and>
      (\<forall>i < length idx. i \<noteq> a \<longrightarrow> 0 \<le> idx ! i \<and> idx ! i < tb_shape w ! i)" if "0 \<le> r" "r < mg_tp_size M" for r idx
    using in_shape_axis [OF al shape [OF that]] .
  have whole: "in_shape w idx \<longleftrightarrow> length idx = length (tb_shape w) \<and> 0 \<le> idx ! a \<and> idx ! a < mg_tp_size M * s \<and>
      (\<forall>i < length idx. i \<noteq> a \<longrightarrow> 0 \<le> idx ! i \<and> idx ! i < tb_shape w ! i)" for idx
    using in_shape_axis [OF al list_update_id [symmetric], of idx] unfolding total(1) .
  have place: "place (r, idx) = idx[a := r * s + idx ! a]" for r idx by (simp add: place_def a_def s_def)
  have "bij_betw place {(r, idx). 0 \<le> r \<and> r < mg_tp_size M \<and> in_shape (view r) idx} {idx. in_shape w idx}"
  proof (rule bij_betw_byWitness [where f' = "\<lambda>idx. (idx ! a div s, idx[a := idx ! a mod s])"])
    show "\<forall>x\<in>{(r, idx). 0 \<le> r \<and> r < mg_tp_size M \<and> in_shape (view r) idx}. (place x ! a div s, (place x)[a := place x ! a mod s]) = x"
      using total(2) al by (auto simp: view place list_update_id)
    show "\<forall>idx\<in>{idx. in_shape w idx}. place (idx ! a div s, idx[a := idx ! a mod s]) = idx"
      using total(2) al by (auto simp: whole place)
    show "place ` {(r, idx). 0 \<le> r \<and> r < mg_tp_size M \<and> in_shape (view r) idx} \<subseteq> {idx. in_shape w idx}"
    proof (rule image_subsetI)
      fix x
      assume "x \<in> {(r, idx). 0 \<le> r \<and> r < mg_tp_size M \<and> in_shape (view r) idx}"
      then obtain r idx where 1: "0 \<le> r" "r < mg_tp_size M" "in_shape (view r) idx" and x: "x = (r, idx)" by auto
      from 1 have i: "length idx = length (tb_shape w)" "0 \<le> idx ! a" "idx ! a < s"
        "\<forall>i < length idx. i \<noteq> a \<longrightarrow> 0 \<le> idx ! i \<and> idx ! i < tb_shape w ! i" by (simp_all add: view)
      have "r * s + idx ! a < (r + 1) * s" using i(3) by (simp add: algebra_simps)
      also have "\<dots> \<le> mg_tp_size M * s" using 1(2) total(2) by (intro mult_right_mono) simp_all
      finally have "r * s + idx ! a < mg_tp_size M * s" .
      then show "place x \<in> {idx. in_shape w idx}"
        using i 1(1) total(2) al by (simp add: x whole place nth_list_update)
    qed
    show "(\<lambda>idx. (idx ! a div s, idx[a := idx ! a mod s])) ` {idx. in_shape w idx}
        \<subseteq> {(r, idx). 0 \<le> r \<and> r < mg_tp_size M \<and> in_shape (view r) idx}"
    proof (rule image_subsetI)
      fix idx
      assume "idx \<in> {idx. in_shape w idx}"
      then have 1: "in_shape w idx" by simp
      then have b: "0 \<le> idx ! a" "idx ! a < mg_tp_size M * s" by (simp_all add: whole)
      then have "0 \<le> idx ! a div s" using total(2) by (simp add: pos_imp_zdiv_nonneg_iff)
      moreover have "idx ! a div s < mg_tp_size M"
      proof (rule ccontr)
        assume "\<not> ?thesis"
        then have "mg_tp_size M * s \<le> idx ! a div s * s" using total(2) by (intro mult_right_mono) simp_all
        also have "\<dots> \<le> idx ! a" using total(2) by (simp add: minus_mod_eq_div_mult [symmetric])
        finally show False using b by simp
      qed
      ultimately show "(idx ! a div s, idx[a := idx ! a mod s]) \<in> {(r, idx). 0 \<le> r \<and> r < mg_tp_size M \<and> in_shape (view r) idx}"
        using 1 total(2) al by (simp add: whole view nth_list_update)
    qed
  qed
  moreover have "elem_addr (view r) idx = elem_addr w (place (r, idx))"
    if "0 \<le> r" "r < mg_tp_size M" "in_shape (view r) idx" for r idx
  proof -
    have "elem_addr (view r) idx = elem_addr w (idx[a := mg_rank (M\<lparr>mg_rank := r\<rparr>) *
        tdiv (tb_shape w ! a) (mg_tp_size (M\<lparr>mg_rank := r\<rparr>)) + idx ! a])"
      using that view [OF that(1,2)] assms(1,4,5) al
      by (intro scatter_elements [OF assms(2) [OF that(1,2)]]) (simp_all add: a_def)
    then show ?thesis using assms(1,6) by (simp add: place a_def s_def)
  qed
  ultimately show ?thesis by blast
qed

text \<open>Two ranks share a matrix of two rows of four halves by columns.\<close>

definition demo_matrix :: true_buffer where
  "demo_matrix = \<lparr>tb_data = 4096, tb_bytes = 16, tb_dtype = DT_F16, tb_device = 0, tb_ndim = 2,
     tb_shape = [2, 4], tb_stride = [4, 1]\<rparr>"

definition demo_ranks :: multi_gpu where
  "demo_ranks = \<lparr>mg_tp_size = 2, mg_rank = 0, mg_device = 0, mg_ready = True,
     mg_mode = Single_Process_All_Ranks, mg_comms = [0, 1]\<rparr>"

definition demo_view :: "int \<Rightarrow> true_buffer" where
  "demo_view r = demo_matrix\<lparr>tb_shape := [2, 2], tb_data := 4096 + 4 * r, tb_bytes := 4\<rparr>"

lemma demo_scatter: "scatter_weight demo_matrix 1 (demo_ranks\<lparr>mg_rank := r\<rparr>) = Inr (demo_view r)"
  by (simp add: scatter_weight_def demo_matrix_def demo_ranks_def demo_view_def)

theorem shards_partition_witness:
  "bij_betw (\<lambda>(r, idx). idx[1 := r * 2 + idx ! 1]) {(r, idx). 0 \<le> r \<and> r < 2 \<and> in_shape (demo_view r) idx}
     {idx. in_shape demo_matrix idx} \<and>
   elem_addr (demo_view 1) [1, 0] = elem_addr demo_matrix [1, 2]"
proof -
  have p: "1 < mg_tp_size demo_ranks" "nat 1 < length (tb_shape demo_matrix)"
    "length (tb_stride demo_matrix) = length (tb_shape demo_matrix)" "tb_stride demo_matrix ! nat 1 \<noteq> 0"
    "0 < tb_shape demo_matrix ! nat 1"
    by (simp_all add: demo_ranks_def demo_matrix_def)
  have e: "mg_tp_size demo_ranks = 2" "tb_shape demo_matrix ! Suc 0 div 2 = 2" "nat 1 = 1"
    by (simp_all add: demo_ranks_def demo_matrix_def)
  have "in_shape (demo_view 1) [1, 0]" by (simp add: in_shape_def demo_view_def demo_matrix_def)
  then show ?thesis
    using shards_partition [OF p(1) demo_scatter p(2-5)]  by (simp add: e)
qed

text \<open>The size a view reports is the size of one run along the axis: unless the axis is the outermost one, the
  last row of the view lies behind it.\<close>

lemma shard_bytes_short:
  assumes "scatter_weight w 1 M = Inr v" and "mg_tp_size M \<noteq> 1" and "tb_shape w = [R, C]" and "tb_stride w = [C, 1]"
    and "1 < R" and "0 < C" and "0 < mg_tp_size M"
  shows "tb_data v + tb_bytes v \<le> elem_addr v [R - 1, 0]"
proof -
  have v: "tb_bytes v = C div mg_tp_size M * elem_size (tb_dtype w)" "tb_stride v = [C, 1]" "tb_dtype v = tb_dtype w"
    using assms by (auto simp: scatter_weight_def Let_def split: if_splits)
  have "C div mg_tp_size M \<le> C" using assms(6) using assms(7) zdiv_mono2 [of C 1 "mg_tp_size M"] by simp
  also have "C = 1 * C" by simp
  also have "\<dots> \<le> (R - 1) * C" using assms(5,6) by (intro mult_right_mono) simp_all
  finally have "C div mg_tp_size M * elem_size (tb_dtype w) \<le> (R - 1) * C * elem_size (tb_dtype w)"
    by (rule mult_right_mono) (rule elem_size_nonneg)
  then show ?thesis by (simp add: elem_addr_def v)
qed

lemma shard_bytes_outermost:
  assumes "scatter_weight w 0 M = Inr v" and "mg_tp_size M \<noteq> 1" and "tb_shape w = [R, C]" and "tb_stride w = [C, 1]"
    and "0 < C" and "0 < mg_tp_size M" and "0 \<le> R"
  shows "tb_bytes v = (R div mg_tp_size M) * C * elem_size (tb_dtype w)"
  using assms by (auto simp: scatter_weight_def Let_def split: if_splits)

end
