(* ===== verification/Cuda_Stream.thy ===== *)
theory Cuda_Stream
  imports Prelude
begin

text \<open>
  \<open>src/inference/backends/cuda/cuda_stream.{h,cpp}\<close>: the pool of streams and the ring of events that order
  them.  The device is the list of operations submitted to each stream and, for each event, the point of the
  stream it was last recorded at; whether a CUDA call succeeds is a parameter.  A thrown error is an \<open>Inl\<close>
  together with what has been created by then.
\<close>

section \<open>State\<close>

datatype stream_role = Prefill_Role | Decode_Role | Copy_Role

fun role_index :: "stream_role \<Rightarrow> nat" where
  "role_index Prefill_Role = 0"
| "role_index Decode_Role = 1"
| "role_index Copy_Role = 2"

datatype cuda_call =
    Set_Device int | Create_Stream nat | Create_Event nat | Sync_Stream nat | Record_Event nat nat | Wait_Event nat nat

text \<open>An operation on a stream is work, or a wait for the first \<open>n\<close> operations of another stream.\<close>

datatype stream_op = Work nat | Wait_For nat nat

record stream_pool =
  st_ops :: "stream_op list list"
  st_events :: "(nat \<times> nat) option list"
  st_next :: nat
  st_device :: int

definition num_streams :: "stream_pool \<Rightarrow> nat" where
  "num_streams P = length (st_ops P)"

definition pool_device :: "stream_pool \<Rightarrow> int" where
  "pool_device P = st_device P"

section \<open>Construction\<close>

fun create_all :: "(nat \<Rightarrow> bool) \<Rightarrow> nat \<Rightarrow> nat \<Rightarrow> nat + nat" where
  "create_all ok i 0 = Inr i"
| "create_all ok i (Suc n) = (if ok i then create_all ok (Suc i) n else Inl i)"

text \<open>
  The error carries the numbers of streams and events that exist when the constructor throws: the
  destructor of an object that was never constructed does not run.
\<close>

definition new_stream_pool :: "(cuda_call \<Rightarrow> bool) \<Rightarrow> int \<Rightarrow> int \<Rightarrow> nat \<times> nat + stream_pool" where
  "new_stream_pool cu num device =
     (if \<not> cu (Set_Device device) then Inl (0, 0)
      else
        let n = nat (max num 3)
        in case create_all (\<lambda>i. cu (Create_Stream i)) 0 n of
             Inl i \<Rightarrow> Inl (i, 0)
           | Inr _ \<Rightarrow>
               (case create_all (\<lambda>i. cu (Create_Event i)) 0 16 of
                  Inl j \<Rightarrow> Inl (n, j)
                | Inr _ \<Rightarrow> Inr \<lparr>st_ops = replicate n [], st_events = replicate 16 None, st_next = 0, st_device = device\<rparr>))"

section \<open>Operations\<close>

definition get_stream :: "int \<Rightarrow> stream_pool \<Rightarrow> nat exec" where
  "get_stream i P = (if 0 \<le> i \<and> i < int (num_streams P) then Inr (nat i) else Inl AssertFail)"

definition get_role :: "stream_role \<Rightarrow> stream_pool \<Rightarrow> nat exec" where
  "get_role r P = get_stream (int (role_index r)) P"

text \<open>Kernels and copies are submitted by the callers.\<close>

definition submit_work :: "nat \<Rightarrow> nat \<Rightarrow> stream_pool \<Rightarrow> stream_pool" where
  "submit_work s k P = P\<lparr>st_ops := (st_ops P)[s := st_ops P ! s @ [Work k]]\<rparr>"

definition sync_role :: "(cuda_call \<Rightarrow> bool) \<Rightarrow> stream_role \<Rightarrow> stream_pool \<Rightarrow> bool" where
  "sync_role cu r P = cu (Sync_Stream (role_index r))"

definition sync_all :: "(cuda_call \<Rightarrow> bool) \<Rightarrow> stream_pool \<Rightarrow> bool" where
  "sync_all cu P = list_all (\<lambda>i. cu (Sync_Stream i)) [0..<num_streams P]"

text \<open>The ring advances before the call that may throw.\<close>

definition record_event :: "(cuda_call \<Rightarrow> bool) \<Rightarrow> stream_role \<Rightarrow> stream_pool \<Rightarrow> nat option \<times> stream_pool" where
  "record_event cu from_role P =
     (let handle = st_next P mod length (st_events P); f = role_index from_role;
          P' = P\<lparr>st_next := (st_next P + 1) mod length (st_events P)\<rparr>
      in if cu (Record_Event handle f)
         then (Some handle, P'\<lparr>st_events := (st_events P)[handle := Some (f, length (st_ops P ! f))]\<rparr>)
         else (None, P'))"

text \<open>\<open>False\<close> is the exception; a handle outside the ring, and an event never recorded, make no wait.\<close>

definition wait_event :: "(cuda_call \<Rightarrow> bool) \<Rightarrow> stream_role \<Rightarrow> int \<Rightarrow> stream_pool \<Rightarrow> bool \<times> stream_pool" where
  "wait_event cu to_role handle P =
     (if handle < 0 \<or> int (length (st_events P)) \<le> handle then (True, P)
      else let h = nat handle; t = role_index to_role
      in if \<not> cu (Wait_Event h t) then (False, P)
         else case st_events P ! h of
           None \<Rightarrow> (True, P)
         | Some (f, n) \<Rightarrow> (True, P\<lparr>st_ops := (st_ops P)[t := st_ops P ! t @ [Wait_For f n]]\<rparr>))"

section \<open>Invariant\<close>

definition pool_ok :: "stream_pool \<Rightarrow> bool" where
  "pool_ok P \<longleftrightarrow> 3 \<le> length (st_ops P) \<and> length (st_events P) = 16 \<and> st_next P < 16 \<and>
     (\<forall>f n. Some (f, n) \<in> set (st_events P) \<longrightarrow> f < length (st_ops P) \<and> n \<le> length (st_ops P ! f))"

lemma create_all_total: "(\<And>i. ok i) \<Longrightarrow> create_all ok i n = Inr (i + n)"
  by (induction n arbitrary: i) simp_all

lemma role_index_less: "pool_ok P \<Longrightarrow> role_index r < length (st_ops P)"
  by (cases r) (auto simp: pool_ok_def)

lemma new_pool_ok: "new_stream_pool cu num device = Inr P \<Longrightarrow> pool_ok P"
  by (auto simp: new_stream_pool_def pool_ok_def Let_def split: if_splits sum.splits)

lemma get_role_ok: "pool_ok P \<Longrightarrow> get_role r P = Inr (role_index r)"
  using role_index_less [of P r] by (simp add: get_role_def get_stream_def num_streams_def)

lemma grow_ops:
  assumes "pool_ok P" and "s < length (st_ops P)"
  shows "pool_ok (P\<lparr>st_ops := (st_ops P)[s := st_ops P ! s @ [x]]\<rparr>)"
  using assms by (auto simp: pool_ok_def nth_list_update le_SucI)

lemma submit_work_ok: "pool_ok P \<Longrightarrow> s < length (st_ops P) \<Longrightarrow> pool_ok (submit_work s k P)"
  unfolding submit_work_def by (rule grow_ops)

lemma record_event_ok:
  assumes "pool_ok P"
  shows "pool_ok (snd (record_event cu r P))"
proof -
  have "Some (f, n) \<in> set ((st_events P)[h := Some (role_index r, length (st_ops P ! role_index r))]) \<Longrightarrow>
      Some (f, n) \<in> set (st_events P) \<or> f = role_index r \<and> n = length (st_ops P ! f)" for f n h
    using set_update_subset_insert [of "st_events P"] by fastforce
  then show ?thesis using assms role_index_less [OF assms, of r]
    by (fastforce simp: record_event_def pool_ok_def Let_def)
qed

lemma wait_event_ok: "pool_ok P \<Longrightarrow> pool_ok (snd (wait_event cu r h P))"
  by (auto simp: wait_event_def Let_def role_index_less intro: grow_ops split: option.splits)

section \<open>Order\<close>

text \<open>What runs before what: an operation after the earlier ones of its stream, and a wait after those it
  waits for.\<close>

inductive before :: "stream_pool \<Rightarrow> nat \<times> nat \<Rightarrow> nat \<times> nat \<Rightarrow> bool" for P where
  same: "s < length (st_ops P) \<Longrightarrow> i < j \<Longrightarrow> j < length (st_ops P ! s) \<Longrightarrow> before P (s, i) (s, j)"
| wait: "t < length (st_ops P) \<Longrightarrow> j < length (st_ops P ! t) \<Longrightarrow> st_ops P ! t ! j = Wait_For f n \<Longrightarrow> i < n \<Longrightarrow>
    before P (f, i) (t, j)"
| trans: "before P a b \<Longrightarrow> before P b c \<Longrightarrow> before P a c"

text \<open>
  Work submitted to a stream after it waited for an event runs after everything that was on the recorded
  stream, whatever is submitted in between on any stream, as long as the slot of the ring was not reused.
\<close>

definition extends :: "stream_pool \<Rightarrow> stream_pool \<Rightarrow> bool" where
  "extends P Q \<longleftrightarrow> length (st_ops Q) = length (st_ops P) \<and>
     (\<forall>s < length (st_ops P). \<exists>xs. st_ops Q ! s = st_ops P ! s @ xs)"

lemma extends_refl: "extends P P"
  by (simp add: extends_def)

lemma extends_trans: "extends P Q \<Longrightarrow> extends Q R \<Longrightarrow> extends P R"
  by (fastforce simp: extends_def)

lemma extends_grow: "s < length (st_ops P) \<Longrightarrow> st_ops Q = (st_ops P)[s := st_ops P ! s @ xs] \<Longrightarrow> extends P Q"
  by (auto simp: extends_def nth_list_update)

theorem record_wait_orders:
  assumes "pool_ok P" and "record_event cu from P = (Some h, P1)" and "extends P1 P2" and "pool_ok P2"
    and "st_events P2 ! h = st_events P1 ! h" and "wait_event cu to (int h) P2 = (True, P3)"
    and "extends P3 P4" and "i < length (st_ops P ! role_index from)"
    and "length (st_ops P3 ! role_index to) \<le> j" and "j < length (st_ops P4 ! role_index to)"
  shows "before P4 (role_index from, i) (role_index to, j)"
proof -
  let ?f = "role_index from" and ?t = "role_index to"
  have h: "h < 16" and ev: "st_events P1 ! h = Some (?f, length (st_ops P ! ?f))"
    using assms(1,2) by (auto simp: record_event_def pool_ok_def Let_def split: if_splits)
  have t: "?t < length (st_ops P2)" by (rule role_index_less [OF assms(4)])
  have P3: "st_ops P3 = (st_ops P2)[?t := st_ops P2 ! ?t @ [Wait_For ?f (length (st_ops P ! ?f))]]"
    using assms(4,5,6) h ev by (auto simp: wait_event_def pool_ok_def Let_def split: if_splits)
  obtain xs where xs: "st_ops P4 ! ?t = st_ops P3 ! ?t @ xs" and l: "length (st_ops P4) = length (st_ops P3)"
    using assms(7) t P3 by (auto simp: extends_def)
  let ?w = "length (st_ops P2 ! ?t)"
  have w: "st_ops P4 ! ?t ! ?w = Wait_For ?f (length (st_ops P ! ?f))" "?w < length (st_ops P4 ! ?t)"
    using xs P3 t by (simp_all add: nth_append)
  have t4: "?t < length (st_ops P4)" using l P3 t by simp
  have "before P4 (?f, i) (?t, ?w)" using before.wait [OF t4 w(2) w(1) assms(8)] .
  moreover have "before P4 (?t, ?w) (?t, j)"
    using before.same [OF t4, of ?w j] assms(9,10) P3 t by simp
  ultimately show ?thesis by (rule before.trans)
qed

text \<open>An upload on the copy stream, a wait of the decode stream for it, and a kernel behind the wait.\<close>

definition demo_pool :: stream_pool where
  "demo_pool = submit_work 2 7 \<lparr>st_ops = [[], [], []], st_events = replicate 16 None, st_next = 15, st_device = 0\<rparr>"

definition demo_recorded :: stream_pool where
  "demo_recorded = snd (record_event (\<lambda>_. True) Copy_Role demo_pool)"

definition demo_waited :: stream_pool where
  "demo_waited = snd (wait_event (\<lambda>_. True) Decode_Role 15 demo_recorded)"

lemmas demo_pool_eval = demo_pool_def demo_recorded_def demo_waited_def submit_work_def record_event_def wait_event_def Let_def

theorem record_wait_orders_witness: "before (submit_work 1 8 demo_waited) (2, 0) (1, 1)"
proof -
  have r: "pool_ok demo_pool" "record_event (\<lambda>_. True) Copy_Role demo_pool = (Some 15, demo_recorded)" "pool_ok demo_recorded"
  proof -
    show "pool_ok demo_pool" by (simp add: demo_pool_eval pool_ok_def)
    then show "pool_ok demo_recorded" unfolding demo_recorded_def by (rule record_event_ok)
    show "record_event (\<lambda>_. True) Copy_Role demo_pool = (Some 15, demo_recorded)" by (simp add: demo_pool_eval)
  qed
  have w: "wait_event (\<lambda>_. True) Decode_Role (int 15) demo_recorded = (True, demo_waited)"
    "extends demo_waited (submit_work 1 8 demo_waited)"
    by (simp add: demo_pool_eval) (rule extends_grow [of 1 _ _ "[Work 8]"], simp_all add: demo_pool_eval)
  have "before (submit_work 1 8 demo_waited) (role_index Copy_Role, 0) (role_index Decode_Role, 1)"
    by (rule record_wait_orders [OF r(1,2) extends_refl r(3) refl w]) (simp_all add: demo_pool_eval)
  then show ?thesis by simp
qed

text \<open>Recording touches one slot of the ring, so a handle keeps its meaning for the next fifteen recordings.\<close>

lemma other_slots_kept:
  "record_event cu r P = (Some h, P1) \<Longrightarrow> k \<noteq> h \<Longrightarrow> st_events P1 ! k = st_events P ! k"
  by (auto simp: record_event_def Let_def split: if_splits)

lemma slots_in_turn:
  "record_event cu r P = (x, P1) \<Longrightarrow> pool_ok P \<Longrightarrow> st_next P1 = (st_next P + 1) mod 16 \<and> (x = Some h \<longrightarrow> h = st_next P)"
  by (auto simp: record_event_def pool_ok_def Let_def split: if_splits)

text \<open>A constructor that throws half-way leaks what it created; the code has no owner for it yet.\<close>

lemma partial_construction:
  "new_stream_pool (\<lambda>c. c \<noteq> Create_Event 4) 3 0 = Inl (3, 4)"
  by (simp add: new_stream_pool_def eval_nat_numeral)

end
