(* ===== verification/Kivi_Cache.thy ===== *)
theory Kivi_Cache
  imports Half_Float
begin

text \<open>
  \<open>src/inference/backends/cuda/compression/kivi_cache.{cuh,cu}\<close>: the compressed form of one KV vector, its
  largest channels kept as halves and the rest quantised to four bits by groups.  One thread handles one
  vector, so a kernel is a function of the vector's halves to the bytes it writes; halves are bits, their
  value is \<^const>\<open>half_value\<close>, and \<open>__float2half\<close> is a parameter.  The arithmetic is that of \<open>Float_Ops\<close>.
\<close>

unbundle bit_operations_syntax

record device_lib =
  dl_float :: float_lib
  dl_half :: "fvalue \<Rightarrow> 16 word"

section \<open>Device intrinsics\<close>

text \<open>\<open>__float2int_rn\<close> rounds half to even, saturates, and maps a NaN to zero.\<close>

definition round_even :: "real \<Rightarrow> int" where
  "round_even x = (let r = \<lfloor>x + 1 / 2\<rfloor> in if real_of_int r - x = 1 / 2 \<and> odd r then r - 1 else r)"

fun float2int_rn :: "fvalue \<Rightarrow> int" where
  "float2int_rn (Finite x) = max (- 2147483648) (min 2147483647 (round_even x))"
| "float2int_rn (Infinite s) = (if s then - 2147483648 else 2147483647)"
| "float2int_rn Not_A_Number = 0"

fun fabs :: "fvalue \<Rightarrow> fvalue" where
  "fabs (Finite x) = Finite \<bar>x\<bar>"
| "fabs (Infinite s) = Infinite False"
| "fabs Not_A_Number = Not_A_Number"

fun fneg :: "fvalue \<Rightarrow> fvalue" where
  "fneg (Finite x) = Finite (- x)"
| "fneg (Infinite s) = Infinite (\<not> s)"
| "fneg Not_A_Number = Not_A_Number"

definition fsub :: "float_lib \<Rightarrow> fvalue \<Rightarrow> fvalue \<Rightarrow> fvalue" where
  "fsub L x y = fadd L x (fneg y)"

definition flt_max :: fvalue where
  "flt_max = Finite ((2 - 1 / 2 ^ 23) * 2 ^ 127)"

text \<open>\<open>memcpy\<close> of a half to and from two bytes, on a little-endian device.\<close>

definition half_bytes :: "16 word \<Rightarrow> 8 word list" where
  "half_bytes h = [ucast h, ucast (drop_bit 8 h)]"

definition read_half :: "8 word \<Rightarrow> 8 word \<Rightarrow> 16 word" where
  "read_half lo hi = ucast lo OR push_bit 8 (ucast hi)"

section \<open>Sizes\<close>

definition kivi_max_head_dim :: int where
  "kivi_max_head_dim = 128"

definition kivi_max_outliers :: int where
  "kivi_max_outliers = 64"

definition kivi_params_supported :: "int \<Rightarrow> int \<Rightarrow> int \<Rightarrow> bool" where
  "kivi_params_supported head_dim n_outliers group_size \<longleftrightarrow>
     0 < head_dim \<and> head_dim \<le> kivi_max_head_dim \<and> 0 \<le> n_outliers \<and> n_outliers \<le> kivi_max_outliers \<and>
     0 < group_size \<and> n_outliers \<le> head_dim"

text \<open>The count of groups is an \<open>int\<close> division; the sections are added as \<open>size_t\<close>, for the parameters above
  without wrapping.\<close>

definition group_count :: "int \<Rightarrow> int \<Rightarrow> int" where
  "group_count n_res group_size = tdiv (n_res + group_size - 1) group_size"

definition kivi_compressed_bytes :: "int \<Rightarrow> int \<Rightarrow> int \<Rightarrow> int" where
  "kivi_compressed_bytes head_dim n_outliers group_size =
     n_outliers * 3 + group_count (head_dim - n_outliers) group_size * (tdiv group_size 2 + 4)"

section \<open>Compression\<close>

text \<open>The outlier search: the slots, their magnitudes, the least of them and where it is.\<close>

record outliers =
  ou_idx :: "nat list"
  ou_mag :: "fvalue list"
  ou_min :: fvalue
  ou_pos :: nat

definition no_outliers :: "nat \<Rightarrow> outliers" where
  "no_outliers n_out = \<lparr>ou_idx = replicate (nat kivi_max_outliers) 0, ou_mag = replicate (nat kivi_max_outliers) (Finite (- 1)),
     ou_min = Finite (- 1), ou_pos = 0\<rparr>"

fun least_slot :: "fvalue list \<Rightarrow> nat list \<Rightarrow> fvalue \<times> nat \<Rightarrow> fvalue \<times> nat" where
  "least_slot mags [] m = m"
| "least_slot mags (i # is) (mn, pos) =
     least_slot mags is (if fless (mags ! i) mn then (mags ! i, i) else (mn, pos))"

text \<open>The channel number is cast to \<open>uint8_t\<close>.\<close>

definition offer :: "nat \<Rightarrow> outliers \<Rightarrow> nat \<times> 16 word \<Rightarrow> outliers" where
  "offer n_out S = (\<lambda>(d, h).
     let v = fabs (half_value h)
     in if fless (ou_min S) v
        then let mags = (ou_mag S)[ou_pos S := v];
                 (mn, pos) = least_slot mags [1..<n_out] (mags ! 0, 0)
             in \<lparr>ou_idx = (ou_idx S)[ou_pos S := d mod 256], ou_mag = mags, ou_min = mn, ou_pos = pos\<rparr>
        else S)"

definition find_outliers :: "nat \<Rightarrow> 16 word list \<Rightarrow> nat list" where
  "find_outliers n_out src = take n_out (ou_idx (foldl (offer n_out) (no_outliers n_out) (enumerate 0 src)))"

text \<open>The residual channels, of which at most \<open>n_res\<close> are collected.\<close>

definition residual_channels :: "nat list \<Rightarrow> nat \<Rightarrow> nat \<Rightarrow> nat list" where
  "residual_channels outs head_dim n_res = take n_res (filter (\<lambda>d. d \<notin> set outs) [0..<head_dim])"

definition group_min :: "fvalue list \<Rightarrow> fvalue" where
  "group_min vs = foldl (\<lambda>m v. if fless v m then v else m) flt_max vs"

definition group_max :: "fvalue list \<Rightarrow> fvalue" where
  "group_max vs = foldl (\<lambda>m v. if fless m v then v else m) (fneg flt_max) vs"

definition group_degenerate :: "float_lib \<Rightarrow> fvalue list \<Rightarrow> bool" where
  "group_degenerate L vs \<longleftrightarrow> \<not> fless (fl L (1 / 10 ^ 6)) (fsub L (group_max vs) (group_min vs))"

definition group_scale :: "float_lib \<Rightarrow> fvalue list \<Rightarrow> fvalue" where
  "group_scale L vs =
     (if group_degenerate L vs then Finite 0 else fdiv L (Finite 15) (fsub L (group_max vs) (group_min vs)))"

definition clamp15 :: "int \<Rightarrow> int" where
  "clamp15 q = (if q < 0 then 0 else if 15 < q then 15 else q)"

definition quantise :: "float_lib \<Rightarrow> fvalue list \<Rightarrow> fvalue \<Rightarrow> int" where
  "quantise L vs v = clamp15 (float2int_rn (fmul L (fsub L v (group_min vs)) (group_scale L vs)))"

fun pack_pairs :: "int list \<Rightarrow> 8 word list" where
  "pack_pairs [] = []"
| "pack_pairs [q0] = [word_of_int q0]"
| "pack_pairs (q0 # q1 # qs) = (push_bit 4 (word_of_int q1) OR word_of_int q0) # pack_pairs qs"

definition group_step :: "float_lib \<Rightarrow> fvalue list \<Rightarrow> fvalue" where
  "group_step L vs = (if group_degenerate L vs then Finite 0 else fdiv L (Finite 1) (group_scale L vs))"

definition group_zero :: "fvalue list \<Rightarrow> fvalue" where
  "group_zero vs = (let m = group_min vs in if m = Not_A_Number \<or> \<not> fless (fneg flt_max) m \<or> \<not> fless m flt_max
     then Finite 0 else m)"

definition compress_group :: "device_lib \<Rightarrow> fvalue list \<Rightarrow> 8 word list" where
  "compress_group D vs =
     pack_pairs (map (quantise (dl_float D) vs) vs) @
     half_bytes (dl_half D (group_step (dl_float D) vs)) @ half_bytes (dl_half D (group_zero vs))"

fun chunks :: "nat \<Rightarrow> nat \<Rightarrow> 'a list \<Rightarrow> 'a list list" where
  "chunks 0 n xs = []"
| "chunks (Suc k) n xs = take n xs # chunks k n (drop n xs)"

text \<open>The kernel's body for a vector of \<open>head_dim\<close> halves, with the clamped number of outliers.\<close>

definition clamp_outliers :: "int \<Rightarrow> int \<Rightarrow> nat" where
  "clamp_outliers n_outliers head_dim = nat (min (max 0 (min n_outliers kivi_max_outliers)) head_dim)"

definition outlier_bytes :: "16 word list \<Rightarrow> nat list \<Rightarrow> 8 word list" where
  "outlier_bytes src outs = concat (map (\<lambda>c. of_nat c # half_bytes (src ! c)) outs)"

definition compress_vec :: "device_lib \<Rightarrow> int \<Rightarrow> int \<Rightarrow> int \<Rightarrow> 16 word list \<Rightarrow> 8 word list" where
  "compress_vec D head_dim n_outliers group_size src =
     (let n_out = clamp_outliers n_outliers head_dim;
          outs = find_outliers n_out src;
          n_res = nat head_dim - n_out;
          res = map (\<lambda>d. half_value (src ! d)) (residual_channels outs (nat head_dim) n_res)
      in outlier_bytes src outs @
         concat (map (compress_group D) (chunks (nat (group_count (int n_res) group_size)) (nat group_size) res)))"

section \<open>Decompression\<close>

text \<open>Reading past the bytes of the vector is \<^const>\<open>None\<close>.\<close>

fun read_outliers :: "nat \<Rightarrow> 8 word list \<Rightarrow> ((nat \<times> 16 word) list \<times> 8 word list) option" where
  "read_outliers 0 bs = Some ([], bs)"
| "read_outliers (Suc n) (c # lo # hi # bs) =
     (case read_outliers n bs of None \<Rightarrow> None | Some (os, rest) \<Rightarrow> Some ((unat c, read_half lo hi) # os, rest))"
| "read_outliers (Suc n) _ = None"

definition nibble_at :: "8 word list \<Rightarrow> nat \<Rightarrow> int" where
  "nibble_at pack i = (if even i then uint (pack ! (i div 2) AND 0x0F) else uint (drop_bit 4 (pack ! (i div 2))))"

definition read_group :: "float_lib \<Rightarrow> nat \<Rightarrow> 8 word list \<Rightarrow> (fvalue list \<times> 8 word list) option" where
  "read_group L n bs =
     (let k = (n + 1) div 2
      in case drop k bs of
           s0 # s1 # z0 # z1 # rest \<Rightarrow>
             (let scale = half_value (read_half s0 s1); zero = half_value (read_half z0 z1)
              in Some (map (\<lambda>i. fadd L (fmul L (Finite (real_of_int (nibble_at (take k bs) i))) scale) zero) [0..<n], rest))
         | _ \<Rightarrow> None)"

fun read_groups :: "float_lib \<Rightarrow> nat \<Rightarrow> nat \<Rightarrow> nat \<Rightarrow> 8 word list \<Rightarrow> fvalue list option" where
  "read_groups L 0 g n bs = Some []"
| "read_groups L (Suc k) g n bs =
     (case read_group L (min g n) bs of
        None \<Rightarrow> None
      | Some (vs, rest) \<Rightarrow> (case read_groups L k g (n - g) rest of None \<Rightarrow> None | Some ws \<Rightarrow> Some (vs @ ws)))"

fun put_all :: "(nat \<times> 'a) list \<Rightarrow> 'a list \<Rightarrow> 'a list" where
  "put_all [] xs = xs"
| "put_all ((i, v) # ps) xs = put_all ps (if i < length xs then xs[i := v] else xs)"

definition decompress_vec :: "device_lib \<Rightarrow> int \<Rightarrow> int \<Rightarrow> int \<Rightarrow> 8 word list \<Rightarrow> 16 word list option" where
  "decompress_vec D head_dim n_outliers group_size bs =
     (let n_out = clamp_outliers n_outliers head_dim; n_res = nat head_dim - n_out
      in case read_outliers n_out bs of
           None \<Rightarrow> None
         | Some (os, rest) \<Rightarrow>
             (case read_groups (dl_float D) (nat (group_count (int n_res) group_size)) (nat group_size) n_res rest of
                None \<Rightarrow> None
              | Some vs \<Rightarrow>
                  (let result = put_all (map (\<lambda>(c, h). (c, half_value h)) os) (replicate (nat head_dim) (Finite 0));
                       chans = residual_channels (map fst os) (nat head_dim) n_res
                   in Some (map (dl_half D) (put_all (zip chans vs) result)))))"

section \<open>The outlier slots\<close>

lemma read_half_bytes: "read_half (ucast h) (ucast (drop_bit 8 h)) = h"
  unfolding read_half_def
  by (rule bit_word_eqI) (auto simp: bit_or_iff bit_ucast_iff bit_push_bit_iff bit_drop_bit_eq)

definition outlier_slots_ok :: "nat \<Rightarrow> nat \<Rightarrow> outliers \<Rightarrow> bool" where
  "outlier_slots_ok n_out m S \<longleftrightarrow> length (ou_idx S) = nat kivi_max_outliers \<and> length (ou_mag S) = nat kivi_max_outliers \<and>
     ou_pos S < max 1 n_out \<and> (\<forall>i \<in> set (ou_idx S). i = 0 \<or> i < m)"

lemma least_slot_pos: "snd (least_slot mags is (mn, pos)) \<in> insert pos (set is)"
  by (induction mags "is" "(mn, pos)" arbitrary: mn pos rule: least_slot.induct) (auto split: if_splits)

lemma offer_slots:
  assumes "outlier_slots_ok n_out d S"
  shows "outlier_slots_ok n_out (Suc d) (offer n_out S (d, h))"
proof (cases "fless (ou_min S) (fabs (half_value h))")
  case False
  then show ?thesis using assms by (auto simp: offer_def outlier_slots_ok_def)
next
  case True
  let ?mags = "(ou_mag S)[ou_pos S := fabs (half_value h)]"
  obtain mn pos where m: "least_slot ?mags [1..<n_out] (?mags ! 0, 0) = (mn, pos)" by force
  have "pos \<in> insert 0 (set [1..<n_out])" using least_slot_pos [of ?mags "[1..<n_out]" "?mags ! 0" 0] m by simp
  then have "pos < max 1 n_out" by auto
  moreover have "i = 0 \<or> i < Suc d" if "i \<in> set ((ou_idx S)[ou_pos S := d mod 256])" for i
  proof -
    have "i = d mod 256 \<or> i \<in> set (ou_idx S)" using that set_update_subset_insert by fastforce
    then show ?thesis using assms by (auto simp: outlier_slots_ok_def less_Suc_eq intro: le_imp_less_Suc mod_less_eq_dividend)
  qed
  ultimately show ?thesis using assms True m by (simp add: offer_def outlier_slots_ok_def Let_def)
qed

lemma offer_all_slots:
  "outlier_slots_ok n_out d S \<Longrightarrow> outlier_slots_ok n_out (d + length src) (foldl (offer n_out) S (enumerate d src))"
proof (induction src arbitrary: d S)
  case (Cons h src)
  then show ?case using offer_slots [of n_out d S h] by (simp add: Cons.IH [of "Suc d", simplified])
qed simp

lemma find_outliers_ok:
  assumes "src \<noteq> []" and "n_out \<le> nat kivi_max_outliers"
  shows "length (find_outliers n_out src) = n_out" and "\<forall>c \<in> set (find_outliers n_out src). c < length src"
proof -
  have "outlier_slots_ok n_out 0 (no_outliers n_out)"
    by (auto simp: outlier_slots_ok_def no_outliers_def kivi_max_outliers_def)
  then have ok: "outlier_slots_ok n_out (length src) (foldl (offer n_out) (no_outliers n_out) (enumerate 0 src))"
    using offer_all_slots [of n_out 0 _ src] by simp
  then show "length (find_outliers n_out src) = n_out" using assms(2) by (simp add: find_outliers_def outlier_slots_ok_def)
  show "\<forall>c \<in> set (find_outliers n_out src). c < length src"
    using ok assms(1) by (auto simp: find_outliers_def outlier_slots_ok_def dest!: in_set_takeD)
qed

section \<open>The layout\<close>

lemma read_outliers_bytes:
  assumes "\<forall>c \<in> set outs. c < 256"
  shows "read_outliers (length outs) (outlier_bytes src outs @ rest) = Some (map (\<lambda>c. (c, src ! c)) outs, rest)"
  using assms
proof (induction outs)
  case (Cons c outs)
  then have "unat (of_nat c :: 8 word) = c" by (simp add: unat_of_nat take_bit_nat_eq_self)
  with Cons show ?case by (simp add: outlier_bytes_def half_bytes_def read_half_bytes)
qed (simp add: outlier_bytes_def)

lemma length_pack_pairs: "length (pack_pairs qs) = (length qs + 1) div 2"
  by (induction qs rule: pack_pairs.induct) auto

lemma length_compress_group: "length (compress_group D vs) = (length vs + 1) div 2 + 4"
  by (simp add: compress_group_def length_pack_pairs half_bytes_def)

lemma read_compress_group:
  "length vs = n \<Longrightarrow> \<exists>ws. read_group L n (compress_group D vs @ rest) = Some (ws, rest) \<and> length ws = n"
  by (simp add: read_group_def compress_group_def length_pack_pairs half_bytes_def Let_def)

lemma read_compress_groups:
  "length xs = n \<Longrightarrow> n \<le> k * g \<Longrightarrow>
   \<exists>ws. read_groups L k g n (concat (map (compress_group D) (chunks k g xs)) @ rest) = Some ws \<and> length ws = n"
proof (induction k arbitrary: n xs rest)
  case (Suc k)
  have t: "length (take g xs) = min g n" "length (drop g xs) = n - g" using Suc.prems(1) by simp_all
  obtain vs where v: "read_group L (min g n) (compress_group D (take g xs) @
      concat (map (compress_group D) (chunks k g (drop g xs))) @ rest) =
      Some (vs, concat (map (compress_group D) (chunks k g (drop g xs))) @ rest)" "length vs = min g n"
    using read_compress_group [OF t(1)] by blast
  obtain ws where w: "read_groups L k g (n - g) (concat (map (compress_group D) (chunks k g (drop g xs))) @ rest) = Some ws"
    "length ws = n - g"
  proof -
    have "n - g \<le> k * g" using Suc.prems(2) by (simp add: le_diff_conv)
    then show thesis using Suc.IH [OF t(2)] that by blast
  qed
  show ?case using v w by simp
qed simp

lemma put_all_other: "i \<notin> fst ` set ps \<Longrightarrow> put_all ps xs ! i = xs ! i"
  by (induction ps xs rule: put_all.induct) (auto simp: nth_list_update)

lemma length_put_all [simp]: "length (put_all ps xs) = length xs"
  by (induction ps xs rule: put_all.induct) auto

lemma put_all_map:
  "i < length xs \<Longrightarrow> (i \<in> set is \<or> xs ! i = f i) \<Longrightarrow> put_all (map (\<lambda>c. (c, f c)) is) xs ! i = f i"
  by (induction "is" arbitrary: xs) (auto simp: nth_list_update)

lemma group_count_covers:
  assumes "0 \<le> n" and "0 < g"
  shows "n \<le> group_count n g * g" "0 \<le> group_count n g"
proof -
  have t: "group_count n g = (n + g - 1) div g" using assms by (simp add: group_count_def)
  have "n + g - 1 = (n + g - 1) div g * g + (n + g - 1) mod g" by simp
  moreover have "(n + g - 1) mod g < g" using assms(2) by simp
  ultimately show "n \<le> group_count n g * g" unfolding t by linarith
  show "0 \<le> group_count n g" using assms unfolding t by (intro pos_imp_zdiv_nonneg_iff [THEN iffD2]) simp_all
qed

lemma residual_length: "length (residual_channels outs n (n - length outs)) = n - length outs"
proof -
  have "length (filter (\<lambda>d. d \<notin> set outs) [0..<n]) = card ({..<n} - set outs)"
    by (subst distinct_card [symmetric]) (auto intro!: arg_cong [where f = card])
  also have "\<dots> \<ge> n - card (set outs)" using diff_card_le_card_Diff [of "set outs" "{..<n}"] by simp
  finally have "n - length outs \<le> length (filter (\<lambda>d. d \<notin> set outs) [0..<n])"
    using card_length [of outs] by linarith
  then show ?thesis by (simp add: residual_channels_def)
qed


section \<open>The size of a compressed vector\<close>

lemma length_chunk: "xs \<in> set (chunks k g ys) \<Longrightarrow> length xs \<le> g"
  by (induction k g ys rule: chunks.induct) auto

lemma length_groups:
  assumes "even g"
  shows "length (concat (map (compress_group D) (chunks k g xs))) \<le> k * (g div 2 + 4)"
proof (induction k arbitrary: xs)
  case (Suc k)
  have "(length (take g xs) + 1) div 2 \<le> g div 2" using assms by (elim evenE) simp
  then show ?case using Suc.IH [of "drop g xs"] by (simp add: length_compress_group)
qed simp

text \<open>With an even group size no thread writes past the bytes that separate two vectors.\<close>

lemma kivi_fits_vec:
  assumes "kivi_params_supported head_dim n_outliers group_size" and "even group_size" and "length src = nat head_dim"
  shows "int (length (compress_vec D head_dim n_outliers group_size src)) \<le> kivi_compressed_bytes head_dim n_outliers group_size"
proof -
  let ?n = "nat head_dim - nat n_outliers"
  have p: "0 < head_dim" "0 \<le> n_outliers" "n_outliers \<le> 64" "0 < group_size" "n_outliers \<le> head_dim"
    using assms(1) by (simp_all add: kivi_params_supported_def kivi_max_outliers_def)
  have cl: "clamp_outliers n_outliers head_dim = nat n_outliers"
    using p by (simp add: clamp_outliers_def kivi_max_outliers_def)
  have "src \<noteq> []" using assms(3) p(1) by auto
  then have o: "length (find_outliers (nat n_outliers) src) = nat n_outliers"
    using find_outliers_ok(1) [of src "nat n_outliers"] p(3) by (simp add: kivi_max_outliers_def nat_mono)
  have len: "length (outlier_bytes src outs) = 3 * length outs" for outs
    by (induction outs) (simp_all add: outlier_bytes_def half_bytes_def)
  have ev: "even (nat group_size)" using assms(2) p(4) by (simp add: even_nat_iff)
  have n: "int ?n = head_dim - n_outliers" using p by simp
  have "length (compress_vec D head_dim n_outliers group_size src) \<le>
      3 * nat n_outliers + nat (group_count (int ?n) group_size) * (nat group_size div 2 + 4)"
    using length_groups [OF ev] o by (simp add: compress_vec_def cl Let_def len)
  then have "int (length (compress_vec D head_dim n_outliers group_size src)) \<le>
      3 * n_outliers + group_count (int ?n) group_size * (group_size div 2 + 4)"
    using group_count_covers(2) [of "int ?n" group_size] p by (simp add: nat_le_iff [symmetric] le_nat_iff zdiv_int flip: of_nat_le_iff [where ?'a = int])
  then show ?thesis using p by (simp add: kivi_compressed_bytes_def n)
qed

text \<open>With an odd one it can: three channels in one group take two bytes and not one.\<close>

lemma odd_group_overflows: "kivi_compressed_bytes 3 0 3 < int (length (compress_vec D 3 0 3 [a, b, c]))"
proof -
  have "find_outliers 0 [a, b, c] = []" by (simp add: find_outliers_def)
  then have "compress_vec D 3 0 3 [a, b, c] = compress_group D [half_value a, half_value b, half_value c]"
    by (simp add: compress_vec_def clamp_outliers_def kivi_max_outliers_def Let_def residual_channels_def group_count_def
        outlier_bytes_def upt_rec)
  then show ?thesis by (simp add: length_compress_group kivi_compressed_bytes_def group_count_def)
qed

section \<open>The error of a residual channel\<close>

lemma round_even_close: "\<bar>real_of_int (round_even x) - x\<bar> \<le> 1 / 2"
proof -
  have f: "real_of_int \<lfloor>x + 1 / 2\<rfloor> \<le> x + 1 / 2" "x + 1 / 2 < real_of_int \<lfloor>x + 1 / 2\<rfloor> + 1" by linarith+
  have "round_even x = (if real_of_int \<lfloor>x + 1 / 2\<rfloor> - x = 1 / 2 \<and> odd \<lfloor>x + 1 / 2\<rfloor> then \<lfloor>x + 1 / 2\<rfloor> - 1 else \<lfloor>x + 1 / 2\<rfloor>)"
    by (simp add: round_even_def Let_def)
  then consider "round_even x = \<lfloor>x + 1 / 2\<rfloor>" | "round_even x = \<lfloor>x + 1 / 2\<rfloor> - 1" "real_of_int \<lfloor>x + 1 / 2\<rfloor> - x = 1 / 2"
    by presburger
  then show ?thesis
  proof cases
    case 1
    show ?thesis using f unfolding 1 abs_le_iff by linarith
  next
    case 2
    show ?thesis using 2(2) unfolding 2(1) by simp
  qed
qed

lemma group_min_finite:
  "\<exists>m. foldl (\<lambda>m v. if fless v m then v else m) (Finite a) (map Finite xs) = Finite m \<and> m \<le> a \<and> (\<forall>x \<in> set xs. m \<le> x)"
proof (induction xs arbitrary: a)
  case (Cons x xs)
  show ?case
  proof (cases "x < a")
    case True
    then show ?thesis using Cons [of x] by force
  next
    case False
    then show ?thesis using Cons [of a] by force
  qed
qed simp

lemma group_max_finite:
  "\<exists>m. foldl (\<lambda>m v. if fless m v then v else m) (Finite a) (map Finite xs) = Finite m \<and> a \<le> m \<and> (\<forall>x \<in> set xs. x \<le> m)"
proof (induction xs arbitrary: a)
  case (Cons x xs)
  show ?case
  proof (cases "a < x")
    case True
    then show ?thesis using Cons [of x] by force
  next
    case False
    then show ?thesis using Cons [of a] by force
  qed
qed simp

text \<open>What the decompressor computes for a channel of a group, before it is rounded to a half.\<close>

definition restored :: "float_lib \<Rightarrow> fvalue list \<Rightarrow> fvalue \<Rightarrow> fvalue" where
  "restored L vs v = fadd L (fmul L (Finite (real_of_int (quantise L vs v))) (group_step L vs)) (group_min vs)"

text \<open>In exact arithmetic a channel comes back within half a quantisation step of its group, and within the
  threshold where the group counts as constant.\<close>

theorem kivi_group_error:
  assumes "\<And>x. fl L x = Finite x" and "x \<in> set xs"
  shows "\<exists>lo hi y. group_min (map Finite xs) = Finite lo \<and> group_max (map Finite xs) = Finite hi \<and>
    restored L (map Finite xs) (Finite x) = Finite y \<and> \<bar>y - x\<bar> \<le> max (1 / 10 ^ 6) ((hi - lo) / 30)"
proof -
  obtain lo where lo: "group_min (map Finite xs) = Finite lo" "lo \<le> x"
    using group_min_finite [of _ xs] assms(2) unfolding group_min_def flt_max_def by blast
  obtain hi where hi: "group_max (map Finite xs) = Finite hi" "x \<le> hi"
    using group_max_finite [of _ xs] assms(2) unfolding group_max_def flt_max_def fneg.simps by blast
  have d: "group_degenerate L (map Finite xs) \<longleftrightarrow> hi - lo \<le> 1 / 10 ^ 6"
    by (auto simp: group_degenerate_def lo hi fsub_def assms(1))
  show ?thesis
  proof (cases "hi - lo \<le> 1 / 10 ^ 6")
    case True
    then have "restored L (map Finite xs) (Finite x) = Finite lo"
      by (simp add: restored_def group_step_def d lo assms(1))
    then show ?thesis using lo hi True by auto
  next
    case False
    define y where "y = (x - lo) * (15 / (hi - lo))"
    have pos: "0 < hi - lo" using False by (smt (verit) divide_pos_pos zero_less_power)
    have y: "0 \<le> y" "y \<le> 15" using lo(2) hi(2) pos by (simp_all add: y_def field_simps)
    have close: "\<bar>real_of_int (round_even y) - y\<bar> \<le> 1 / 2" by (rule round_even_close)
    then have "0 \<le> round_even y" "round_even y \<le> 15" using y by linarith+
    then have q: "quantise L (map Finite xs) (Finite x) = round_even y"
      using False pos by (simp add: quantise_def group_scale_def d lo hi fsub_def assms(1) clamp15_def y_def)
    have "restored L (map Finite xs) (Finite x) = Finite (real_of_int (round_even y) * ((hi - lo) / 15) + lo)"
      using False pos by (simp add: restored_def q group_step_def group_scale_def d lo hi fsub_def assms(1))
    moreover have "\<bar>real_of_int (round_even y) * ((hi - lo) / 15) + lo - x\<bar> \<le> (hi - lo) / 30"
    proof -
      have "real_of_int (round_even y) * ((hi - lo) / 15) + lo - x = (real_of_int (round_even y) - y) * ((hi - lo) / 15)"
        using pos by (simp add: y_def field_simps)
      then have "\<bar>real_of_int (round_even y) * ((hi - lo) / 15) + lo - x\<bar> = \<bar>real_of_int (round_even y) - y\<bar> * ((hi - lo) / 15)"
        using pos by (simp only: abs_mult) simp
      also have "\<dots> \<le> 1 / 2 * ((hi - lo) / 15)" using close pos by (intro mult_right_mono) simp_all
      finally show ?thesis by simp
    qed
    ultimately show ?thesis using lo hi by (intro exI conjI) (assumption, assumption, assumption, linarith)
  qed
qed

text \<open>An infinite channel that is no outlier makes the step infinite, and every channel of its group a NaN:
  the test for a degenerate range lets an infinite range pass.\<close>

lemma infinite_group:
  assumes "group_min vs = Finite lo" and "group_max vs = Infinite False" and "fl L (1 / 10 ^ 6) = Finite e" and "fl L 0 = Finite 0"
    and "v = Finite x \<and> fl L (x - lo) = Finite y \<or> v = Infinite False"
  shows "group_step L vs = Infinite False \<and> restored L vs v = Not_A_Number"
proof -
  have d: "\<not> group_degenerate L vs" using assms(3) by (simp add: group_degenerate_def assms(1,2) fsub_def)
  have s: "group_scale L vs = Finite 0" by (simp add: group_scale_def d assms(1,2) fsub_def)
  have st: "group_step L vs = Infinite False" by (simp add: group_step_def d s)
  have "round_even 0 = 0" by (simp add: round_even_def)
  then have "quantise L vs v = 0"
    using assms(4,5) by (auto simp: quantise_def s assms(1) fsub_def clamp15_def)
  then show ?thesis by (simp add: restored_def st)
qed

section \<open>The launches\<close>

text \<open>
  One thread per vector over a device buffer, \<open>Inl OutOfRange\<close> where a thread would leave it.  The threads
  write disjoint parts, so their order does not matter.
\<close>

definition write_at :: "'a list \<Rightarrow> int \<Rightarrow> 'a list \<Rightarrow> 'a list exec" where
  "write_at buf off xs =
     (if 0 \<le> off \<and> off + int (length xs) \<le> int (length buf)
      then Inr (take (nat off) buf @ xs @ drop (nat off + length xs) buf) else Inl OutOfRange)"

definition slice_at :: "'a list \<Rightarrow> int \<Rightarrow> int \<Rightarrow> 'a list exec" where
  "slice_at buf off n =
     (if 0 \<le> off \<and> 0 \<le> n \<and> off + n \<le> int (length buf) then Inr (take (nat n) (drop (nat off) buf)) else Inl OutOfRange)"

fun run_threads :: "(int \<Rightarrow> 's \<Rightarrow> 's exec) \<Rightarrow> nat \<Rightarrow> 's \<Rightarrow> 's exec" where
  "run_threads body 0 s = Inr s"
| "run_threads body (Suc n) s = ebind (run_threads body n s) (body (int n))"

definition kivi_compress ::
  "device_lib \<Rightarrow> 16 word list \<Rightarrow> int \<Rightarrow> int \<Rightarrow> int \<Rightarrow> int \<Rightarrow> 8 word list \<Rightarrow> 8 word list exec" where
  "kivi_compress D kv n_vecs head_dim n_outliers group_size out =
     (if n_vecs \<le> 0 \<or> \<not> kivi_params_supported head_dim n_outliers group_size then Inr out
      else run_threads (\<lambda>tid buf.
             ebind (slice_at kv (tid * head_dim) head_dim) (\<lambda>src.
               write_at buf (tid * kivi_compressed_bytes head_dim n_outliers group_size)
                 (compress_vec D head_dim n_outliers group_size src)))
           (nat n_vecs) out)"

definition kivi_decompress ::
  "device_lib \<Rightarrow> 8 word list \<Rightarrow> int \<Rightarrow> int \<Rightarrow> int \<Rightarrow> int \<Rightarrow> 16 word list \<Rightarrow> 16 word list exec" where
  "kivi_decompress D packed n_vecs head_dim n_outliers group_size kv =
     (if n_vecs \<le> 0 \<or> \<not> kivi_params_supported head_dim n_outliers group_size then Inr kv
      else run_threads (\<lambda>tid buf.
             ebind (slice_at packed (tid * kivi_compressed_bytes head_dim n_outliers group_size)
                      (kivi_compressed_bytes head_dim n_outliers group_size)) (\<lambda>bs.
               case decompress_vec D head_dim n_outliers group_size bs of
                 None \<Rightarrow> Inl OutOfRange
               | Some v \<Rightarrow> write_at buf (tid * head_dim) v))
           (nat n_vecs) kv)"

lemma run_threads_total:
  "I s \<Longrightarrow> (\<And>t s. t < n \<Longrightarrow> I s \<Longrightarrow> \<exists>s'. body (int t) s = Inr s' \<and> I s') \<Longrightarrow> \<exists>s'. run_threads body n s = Inr s' \<and> I s'"
proof (induction n)
  case (Suc n)
  then obtain s' where "run_threads body n s = Inr s'" "I s'" by (meson less_SucI)
  with Suc.prems(2) [of n s'] show ?case by simp
qed simp

lemma write_at_length: "write_at buf off xs = Inr buf' \<Longrightarrow> length buf' = length buf"
  by (auto simp: write_at_def split: if_splits)

lemma compressed_bytes_nonneg:
  "kivi_params_supported head_dim n_outliers group_size \<Longrightarrow> 0 \<le> kivi_compressed_bytes head_dim n_outliers group_size"
  using group_count_covers(2) [of "head_dim - n_outliers" group_size]
  by (simp add: kivi_params_supported_def kivi_compressed_bytes_def)

text \<open>A compression whose vectors and scratch have the sizes of the call stays inside both.\<close>

lemma kivi_compress_total:
  assumes "n_vecs * head_dim \<le> int (length kv)" and "n_vecs * kivi_compressed_bytes head_dim n_outliers group_size \<le> int (length out)"
    and "even group_size"
  shows "\<exists>buf. kivi_compress D kv n_vecs head_dim n_outliers group_size out = Inr buf \<and> length buf = length out"
proof (cases "n_vecs \<le> 0 \<or> \<not> kivi_params_supported head_dim n_outliers group_size")
  case False
  then have n: "0 < n_vecs" and sup: "kivi_params_supported head_dim n_outliers group_size" by simp_all
  let ?stride = "kivi_compressed_bytes head_dim n_outliers group_size"
  have hd: "0 < head_dim" using sup by (simp add: kivi_params_supported_def)
  have step: "\<exists>buf'. ebind (slice_at kv (int t * head_dim) head_dim) (\<lambda>src. write_at buf (int t * ?stride)
      (compress_vec D head_dim n_outliers group_size src)) = Inr buf' \<and> length buf' = length out"
    if t: "t < nat n_vecs" and len: "length buf = length out" for t buf
  proof -
    have t1: "int t + 1 \<le> n_vecs" using t by linarith
    then have "(int t + 1) * head_dim \<le> n_vecs * head_dim" using hd by (intro mult_right_mono) simp_all
    also have "\<dots> \<le> int (length kv)" by (rule assms(1))
    finally have "(int t + 1) * head_dim \<le> int (length kv)" .
    then have "int t * head_dim + head_dim \<le> int (length kv)" by (simp add: algebra_simps)
    then have off: "int t * head_dim + head_dim \<le> int (length kv)" "0 \<le> int t * head_dim" using hd by simp_all
    define src where "src = take (nat head_dim) (drop (nat (int t * head_dim)) kv)"
    have src: "slice_at kv (int t * head_dim) head_dim = Inr src" "length src = nat head_dim"
    proof -
      show "slice_at kv (int t * head_dim) head_dim = Inr src" using off hd by (simp add: slice_at_def src_def)
      have "nat head_dim \<le> length kv - nat (int t * head_dim)" using off hd by linarith
      then show "length src = nat head_dim" by (simp add: src_def)
    qed
    have "(int t + 1) * ?stride \<le> n_vecs * ?stride" using t1 compressed_bytes_nonneg [OF sup] by (intro mult_right_mono)
    then have "int t * ?stride + ?stride \<le> int (length out)" using assms(2) by (simp add: algebra_simps)
    moreover have "int (length (compress_vec D head_dim n_outliers group_size src)) \<le> ?stride"
      using kivi_fits_vec [OF sup assms(3) src(2)] .
    moreover have "0 \<le> int t * ?stride" using compressed_bytes_nonneg [OF sup] by simp
    ultimately have "\<exists>buf'. write_at buf (int t * ?stride) (compress_vec D head_dim n_outliers group_size src) = Inr buf'"
      using len by (simp add: write_at_def)
    then show ?thesis using src(1) write_at_length len by fastforce
  qed
  have "\<exists>s'. run_threads (\<lambda>tid buf. ebind (slice_at kv (tid * head_dim) head_dim) (\<lambda>src. write_at buf (tid * ?stride)
      (compress_vec D head_dim n_outliers group_size src))) (nat n_vecs) out = Inr s' \<and> length s' = length out"
    by (rule run_threads_total [where I = "\<lambda>b. length b = length out"]) (rule refl, rule step)
  then show ?thesis using n sup by (simp add: kivi_compress_def)
next
  case True
  then show ?thesis by (auto simp: kivi_compress_def)
qed

lemma three_elements: "3 \<le> length xs \<Longrightarrow> \<exists>a b c rest. xs = a # b # c # rest"
  by (auto simp: numeral_eq_Suc Suc_le_length_iff)

lemma four_elements: "4 \<le> length xs \<Longrightarrow> \<exists>a b c d rest. xs = a # b # c # d # rest"
  by (auto simp: numeral_eq_Suc Suc_le_length_iff)

lemma read_outliers_some: "3 * n \<le> length bs \<Longrightarrow> \<exists>os rest. read_outliers n bs = Some (os, rest) \<and> length rest = length bs - 3 * n"
proof (induction n arbitrary: bs)
  case (Suc n)
  have "3 \<le> length bs" using Suc.prems by simp
  then obtain a b c rest where bs: "bs = a # b # c # rest" using three_elements by blast
  have "3 * n \<le> length rest" using Suc.prems unfolding bs by simp
  then obtain os r where "read_outliers n rest = Some (os, r)" "length r = length rest - 3 * n" using Suc.IH by blast
  then show ?case by (intro exI [of _ "(unat a, read_half b c) # os"] exI [of _ r]) (simp add: bs)
qed simp

lemma read_group_some:
  assumes "(n + 1) div 2 + 4 \<le> length bs"
  shows "\<exists>vs. read_group L n bs = Some (vs, drop ((n + 1) div 2 + 4) bs)"
proof -
  have "4 \<le> length (drop ((n + 1) div 2) bs)" using assms by simp
  then obtain a b c d rest where r: "drop ((n + 1) div 2) bs = a # b # c # d # rest"
    using four_elements by blast
  have "drop ((n + 1) div 2 + 4) bs = drop 4 (drop ((n + 1) div 2) bs)" by (simp add: add.commute)
  then have "drop ((n + 1) div 2 + 4) bs = rest" unfolding r by simp
  then show ?thesis using r by (simp add: read_group_def Let_def)
qed

lemma read_groups_some:
  "even g \<Longrightarrow> k * (g div 2 + 4) \<le> length bs \<Longrightarrow> \<exists>vs. read_groups L k g n bs = Some vs"
proof (induction k arbitrary: n bs)
  case (Suc k)
  have "(min g n + 1) div 2 \<le> (g + 1) div 2" by (intro div_le_mono) simp
  also have "\<dots> = g div 2" using Suc.prems(1) by (elim evenE) simp
  finally have s: "(min g n + 1) div 2 \<le> g div 2" .
  then have "(min g n + 1) div 2 + 4 \<le> length bs" using Suc.prems(2) by simp
  then obtain vs where v: "read_group L (min g n) bs = Some (vs, drop ((min g n + 1) div 2 + 4) bs)"
    using read_group_some by blast
  have "k * (g div 2 + 4) \<le> length (drop ((min g n + 1) div 2 + 4) bs)" using s Suc.prems(2) by simp
  then obtain ws where "read_groups L k g (n - g) (drop ((min g n + 1) div 2 + 4) bs) = Some ws"
    using Suc.IH [OF Suc.prems(1)] by blast
  then show ?case using v by simp
qed simp

lemma decompress_some:
  assumes "kivi_params_supported head_dim n_outliers group_size" and "even group_size"
    and "kivi_compressed_bytes head_dim n_outliers group_size \<le> int (length bs)"
  shows "\<exists>v. decompress_vec D head_dim n_outliers group_size bs = Some v \<and> length v = nat head_dim"
proof -
  have p: "0 < head_dim" "0 \<le> n_outliers" "n_outliers \<le> 64" "0 < group_size" "n_outliers \<le> head_dim"
    using assms(1) by (simp_all add: kivi_params_supported_def kivi_max_outliers_def)
  let ?n = "nat head_dim - nat n_outliers"
  let ?k = "nat (group_count (int ?n) group_size)" and ?g = "nat group_size"
  have cl: "clamp_outliers n_outliers head_dim = nat n_outliers"
    using p by (simp add: clamp_outliers_def kivi_max_outliers_def)
  have n: "int ?n = head_dim - n_outliers" using p by simp
  have k: "int ?k = group_count (int ?n) group_size" using group_count_covers(2) [of "int ?n" group_size] p by simp
  have "int (3 * nat n_outliers + ?k * (?g div 2 + 4)) = kivi_compressed_bytes head_dim n_outliers group_size"
    using p k by (simp add: kivi_compressed_bytes_def n zdiv_int)
  then have len: "3 * nat n_outliers + ?k * (?g div 2 + 4) \<le> length bs" using assms(3) by linarith
  then have "3 * nat n_outliers \<le> length bs" by simp
  then obtain os rest where o: "read_outliers (nat n_outliers) bs = Some (os, rest)"
    and rl: "length rest = length bs - 3 * nat n_outliers"
    using read_outliers_some by blast
  have ev: "even ?g" using assms(2) p(4) by (simp add: even_nat_iff)
  have "?k * (?g div 2 + 4) \<le> length rest" using len unfolding rl by linarith
  then obtain vs where "read_groups (dl_float D) ?k ?g ?n rest = Some vs"
    using read_groups_some [OF ev] by blast
  then show ?thesis using o by (simp add: decompress_vec_def cl Let_def)
qed

lemma kivi_decompress_total:
  assumes "n_vecs * head_dim \<le> int (length kv)" and "n_vecs * kivi_compressed_bytes head_dim n_outliers group_size \<le> int (length packed)"
    and "even group_size"
  shows "\<exists>buf. kivi_decompress D packed n_vecs head_dim n_outliers group_size kv = Inr buf \<and> length buf = length kv"
proof (cases "n_vecs \<le> 0 \<or> \<not> kivi_params_supported head_dim n_outliers group_size")
  case False
  then have n: "0 < n_vecs" and sup: "kivi_params_supported head_dim n_outliers group_size" by simp_all
  let ?stride = "kivi_compressed_bytes head_dim n_outliers group_size"
  have hd: "0 < head_dim" using sup by (simp add: kivi_params_supported_def)
  have str: "0 \<le> ?stride" by (rule compressed_bytes_nonneg [OF sup])
  have step: "\<exists>buf'. ebind (slice_at packed (int t * ?stride) ?stride) (\<lambda>bs.
      case decompress_vec D head_dim n_outliers group_size bs of None \<Rightarrow> Inl OutOfRange
      | Some v \<Rightarrow> write_at buf (int t * head_dim) v) = Inr buf' \<and> length buf' = length kv"
    if t: "t < nat n_vecs" and len: "length buf = length kv" for t buf
  proof -
    have t1: "int t + 1 \<le> n_vecs" using t by linarith
    have "(int t + 1) * ?stride \<le> n_vecs * ?stride" using t1 str by (intro mult_right_mono)
    then have off: "int t * ?stride + ?stride \<le> int (length packed)" "0 \<le> int t * ?stride"
      using assms(2) str by (simp_all add: algebra_simps)
    define bs where "bs = take (nat ?stride) (drop (nat (int t * ?stride)) packed)"
    have bs: "slice_at packed (int t * ?stride) ?stride = Inr bs" using off str by (simp add: slice_at_def bs_def)
    have "nat ?stride \<le> length packed - nat (int t * ?stride)" using off str by linarith
    then have "?stride \<le> int (length bs)" using str by (simp add: bs_def)
    then obtain v where v: "decompress_vec D head_dim n_outliers group_size bs = Some v" "length v = nat head_dim"
      using decompress_some [OF sup assms(3)] by blast
    have "(int t + 1) * head_dim \<le> n_vecs * head_dim" using t1 hd by (intro mult_right_mono) simp_all
    then have "int t * head_dim + head_dim \<le> int (length kv)" "0 \<le> int t * head_dim"
      using assms(1) hd by (simp_all add: algebra_simps)
    then have "\<exists>buf'. write_at buf (int t * head_dim) v = Inr buf'" using len v(2) hd by (simp add: write_at_def)
    then show ?thesis using bs v(1) write_at_length len by fastforce
  qed
  have "\<exists>s'. run_threads (\<lambda>tid buf. ebind (slice_at packed (tid * ?stride) ?stride) (\<lambda>bs.
      case decompress_vec D head_dim n_outliers group_size bs of None \<Rightarrow> Inl OutOfRange
      | Some v \<Rightarrow> write_at buf (tid * head_dim) v)) (nat n_vecs) kv = Inr s' \<and> length s' = length kv"
    by (rule run_threads_total [where I = "\<lambda>b. length b = length kv"]) (rule refl, rule step)
  then show ?thesis using n sup by (simp add: kivi_decompress_def)
next
  case True
  then show ?thesis by (auto simp: kivi_decompress_def)
qed

section \<open>Concrete vectors\<close>

definition demo_device :: device_lib where
  "demo_device = \<lparr>dl_float = \<lparr>fl = Finite, float_log = (\<lambda>x. x), partial_sort = (\<lambda>cmp k xs. xs)\<rparr>,
     dl_half = (\<lambda>v. if v = Finite 5 then 0x4500 else 0)\<rparr>"

text \<open>Four channels, of which 5 (bits \<open>0x4500\<close>) is the outlier.\<close>

definition demo_vector :: "16 word list" where
  "demo_vector = [0x3C00, 0x4500, 0, 0x4000]"

lemma demo_values:
  "half_value 0x3C00 = Finite 1" "half_value 0x4500 = Finite 5" "half_value 0 = Finite 0" "half_value 0x4000 = Finite 2"
  by (simp_all add: half_value_def bit_simps)

lemma demo_outliers: "find_outliers 1 demo_vector = [1]"
proof -
  have r: "no_outliers 1 = \<lparr>ou_idx = 0 # replicate 63 0, ou_mag = Finite (- 1) # replicate 63 (Finite (- 1)),
      ou_min = Finite (- 1), ou_pos = 0\<rparr>"
    by (simp add: no_outliers_def kivi_max_outliers_def flip: replicate_Suc)
  show ?thesis unfolding find_outliers_def demo_vector_def r
    by (simp add: offer_def demo_values Let_def)
qed


theorem kivi_group_error_witness:
  "\<exists>lo hi y. group_min (map Finite [1, 4, 2]) = Finite lo \<and> group_max (map Finite [1, 4, 2]) = Finite hi \<and>
    restored (dl_float demo_device) (map Finite [1, 4, 2]) (Finite 2) = Finite y \<and> \<bar>y - 2\<bar> \<le> max (1 / 10 ^ 6) ((hi - lo) / 30)"
  by (rule kivi_group_error) (simp_all add: demo_device_def)

end
