(* ===== verification/Vq_Cache.thy ===== *)
theory Vq_Cache
  imports Kivi_Cache
begin

text \<open>
  \<open>src/inference/backends/cuda/compression/{vq_cache.cu,codebook_init.cu}\<close>: KV vectors are replaced by the
  nearest entry of a codebook, and the codebook is seeded by Lloyd iterations.  A device tensor whose last
  dimension is \<open>head_dim\<close> is the list of its rows: every access of the kernels is to a whole row.  The order
  in which the atomic additions of one centroid take effect is a parameter.
\<close>

section \<open>Distances\<close>

definition row_dist :: "float_lib \<Rightarrow> 16 word list \<Rightarrow> 16 word list \<Rightarrow> fvalue" where
  "row_dist L v e =
     foldl (\<lambda>dist (x, y). let diff = fsub L (half_value x) (half_value y) in fadd L dist (fmul L diff diff))
       (Finite 0) (zip v e)"

text \<open>The exhaustive search: the first of the least distances below \<open>FLT_MAX\<close>, and entry 0 otherwise.\<close>

fun nearest :: "float_lib \<Rightarrow> 16 word list \<Rightarrow> 16 word list list \<Rightarrow> nat \<Rightarrow> fvalue \<times> nat \<Rightarrow> fvalue \<times> nat" where
  "nearest L v [] c best = best"
| "nearest L v (e # es) c best =
     nearest L v es (Suc c) (if fless (row_dist L v e) (fst best) then (row_dist L v e, c) else best)"

definition nearest_index :: "float_lib \<Rightarrow> 16 word list list \<Rightarrow> 16 word list \<Rightarrow> nat" where
  "nearest_index L book v = snd (nearest L v book 0 (flt_max, 0))"

section \<open>Encoding and decoding\<close>

definition row_at :: "'a list \<Rightarrow> int \<Rightarrow> 'a exec" where
  "row_at xs i = (if 0 \<le> i \<and> i < int (length xs) then Inr (xs ! nat i) else Inl OutOfRange)"

definition put_row :: "'a list \<Rightarrow> int \<Rightarrow> 'a \<Rightarrow> 'a list exec" where
  "put_row xs i x = (if 0 \<le> i \<and> i < int (length xs) then Inr (xs[nat i := x]) else Inl OutOfRange)"

definition thread_row :: "int \<Rightarrow> int \<Rightarrow> int" where
  "thread_row n_kv_heads tid = tdiv tid n_kv_heads * n_kv_heads + tmod tid n_kv_heads"

definition vq_encode ::
  "float_lib \<Rightarrow> 16 word list list \<Rightarrow> 16 word list list \<Rightarrow> int \<Rightarrow> int \<Rightarrow> int \<Rightarrow> 16 word list \<Rightarrow> 16 word list exec" where
  "vq_encode L kv book seq_len n_kv_heads codebook_size idx =
     run_threads (\<lambda>tid idx.
         ebind (row_at kv (thread_row n_kv_heads tid)) (\<lambda>v.
           put_row idx (thread_row n_kv_heads tid) (of_nat (nearest_index L (take (nat codebook_size) book) v))))
       (nat (seq_len * n_kv_heads)) idx"

definition vq_decode ::
  "16 word list list \<Rightarrow> 16 word list \<Rightarrow> int \<Rightarrow> int \<Rightarrow> 16 word list list \<Rightarrow> 16 word list list exec" where
  "vq_decode book idx seq_len n_kv_heads kv =
     run_threads (\<lambda>tid kv.
         ebind (row_at idx (thread_row n_kv_heads tid)) (\<lambda>c.
           ebind (row_at book (uint c)) (\<lambda>e. put_row kv (thread_row n_kv_heads tid) e)))
       (nat (seq_len * n_kv_heads)) kv"

section \<open>Seeding the codebook\<close>

definition kmeans_assign :: "float_lib \<Rightarrow> 16 word list list \<Rightarrow> 16 word list list \<Rightarrow> nat list" where
  "kmeans_assign L samples book = map (nearest_index L book) samples"

text \<open>The sum of one coordinate of one centroid, in the order its additions happen.\<close>

definition kmeans_sum :: "float_lib \<Rightarrow> nat list \<Rightarrow> 16 word list list \<Rightarrow> nat list \<Rightarrow> nat \<Rightarrow> nat \<Rightarrow> fvalue" where
  "kmeans_sum L order samples assign c d =
     foldl (\<lambda>s i. if assign ! i = c then fadd L s (half_value (samples ! i ! d)) else s) (Finite 0) order"

definition kmeans_count :: "nat list \<Rightarrow> nat \<Rightarrow> nat" where
  "kmeans_count assign c = length (filter (\<lambda>a. a = c) assign)"

definition kmeans_normalise ::
  "device_lib \<Rightarrow> (nat \<Rightarrow> nat \<Rightarrow> nat list) \<Rightarrow> 16 word list list \<Rightarrow> nat list \<Rightarrow> 16 word list list \<Rightarrow> 16 word list list" where
  "kmeans_normalise D order samples assign book =
     map (\<lambda>c. if kmeans_count assign c = 0 then book ! c
              else let inv = fdiv (dl_float D) (Finite 1) (fl (dl_float D) (real (kmeans_count assign c)))
                   in map (\<lambda>d. dl_half D (fmul (dl_float D) (kmeans_sum (dl_float D) (order c d) samples assign c d) inv))
                        [0..<length (book ! c)])
       [0..<length book]"

definition kmeans_step ::
  "device_lib \<Rightarrow> (nat \<Rightarrow> nat \<Rightarrow> nat list) \<Rightarrow> 16 word list list \<Rightarrow> 16 word list list \<Rightarrow> 16 word list list" where
  "kmeans_step D order samples book =
     kmeans_normalise D order samples (kmeans_assign (dl_float D) samples book) book"

text \<open>The orders of the additions differ between iterations.\<close>

fun codebook_init_kmeans ::
  "device_lib \<Rightarrow> (nat \<Rightarrow> nat \<Rightarrow> nat \<Rightarrow> nat list) \<Rightarrow> 16 word list list \<Rightarrow> nat \<Rightarrow> 16 word list list \<Rightarrow> 16 word list list" where
  "codebook_init_kmeans D order samples 0 book = book"
| "codebook_init_kmeans D order samples (Suc n) book =
     kmeans_step D (order n) samples (codebook_init_kmeans D order samples n book)"

section \<open>The search is a nearest-neighbour search\<close>

lemma fless_irrefl [simp]: "\<not> fless x x"
  by (cases x) auto

lemma fless_trans: "fless x y \<Longrightarrow> fless y z \<Longrightarrow> fless x z"
  by (cases x; cases y; cases z) auto

lemma nearest_not_worse:
  "nearest L v es c best = (d, i) \<Longrightarrow>
   (d = fst best \<or> fless d (fst best)) \<and> (\<forall>e \<in> set es. \<not> fless (row_dist L v e) d) \<and>
   ((d, i) = best \<or> c \<le> i \<and> i < c + length es \<and> d = row_dist L v (es ! (i - c)))"
proof (induction es arbitrary: c best)
  case (Cons e es)
  let ?next = "if fless (row_dist L v e) (fst best) then (row_dist L v e, c) else best"
  have n: "nearest L v es (Suc c) ?next = (d, i)" using Cons.prems by simp
  note ih = Cons.IH [OF n]
  have best: "\<not> fless (row_dist L v e) d"
    using ih fless_trans [of "row_dist L v e" d "fst best"] fless_asym by (cases "fless (row_dist L v e) (fst best)") auto
  have "(d, i) = best \<or> c \<le> i \<and> i < c + length (e # es) \<and> d = row_dist L v ((e # es) ! (i - c))"
  proof (cases "(d, i) = ?next")
    case True
    then show ?thesis by (auto split: if_splits)
  next
    case False
    then have "Suc c \<le> i" "i < Suc c + length es" "d = row_dist L v (es ! (i - Suc c))" using ih by blast+
    then show ?thesis by (auto simp: nth_Cons' Suc_diff_Suc)
  qed
  moreover have "d = fst best \<or> fless d (fst best)"
    using ih fless_trans [of d "row_dist L v e" "fst best"] by (auto split: if_splits)
  ultimately show ?case using ih best by auto
qed simp

theorem vq_nearest:
  assumes "book \<noteq> []"
  shows "nearest_index L book v < length book \<and>
    (\<forall>e \<in> set book. fless (row_dist L v e) flt_max \<longrightarrow> \<not> fless (row_dist L v e) (row_dist L v (book ! nearest_index L book v)))"
proof -
  obtain d i where n: "nearest L v book 0 (flt_max, 0) = (d, i)" by force
  from nearest_not_worse [OF n] show ?thesis using assms by (auto simp: nearest_index_def n)
qed

lemma nearest_index_less: "book \<noteq> [] \<Longrightarrow> nearest_index L book v < length book"
  using vq_nearest by blast

section \<open>The codebook that starts at zero\<close>

text \<open>Equal entries at the end of the codebook are never told apart: only the first of them can be chosen.\<close>

lemma nearest_same_tail:
  "\<forall>x \<in> set es. x = e \<Longrightarrow> \<not> fless (row_dist L v e) (fst best) \<Longrightarrow> nearest L v es c best = best"
  by (induction es arbitrary: c) auto

lemma nearest_append: "nearest L v (xs @ ys) c best = nearest L v ys (c + length xs) (nearest L v xs c best)"
  by (induction xs arbitrary: c best) auto

lemma nearest_before_tail:
  assumes "\<forall>j. k \<le> j \<longrightarrow> j < length book \<longrightarrow> book ! j = e" and "k < length book"
  shows "nearest_index L book v \<le> k"
proof -
  have split: "book = take k book @ e # drop (Suc k) book"
    using assms by (metis id_take_nth_drop order_refl)
  have tail: "\<forall>x \<in> set (drop (Suc k) book). x = e"
    using assms(1) by (auto simp: in_set_conv_nth)
  obtain d i where n: "nearest L v (take k book) 0 (flt_max, 0) = (d, i)" by force
  have i: "i \<le> k" using nearest_not_worse [OF n] by (auto simp: min_def split: if_splits)
  let ?next = "if fless (row_dist L v e) d then (row_dist L v e, k) else (d, i)"
  have "nearest L v book 0 (flt_max, 0) = nearest L v (drop (Suc k) book) (Suc k) ?next"
    using assms(2) n by (subst split) (simp add: nearest_append min_def)
  also have "\<dots> = ?next" using tail by (intro nearest_same_tail) auto
  finally show ?thesis using i by (simp add: nearest_index_def)
qed

lemma kmeans_step_unused:
  "j < length book \<Longrightarrow> j \<notin> set (kmeans_assign (dl_float D) samples book) \<Longrightarrow> kmeans_step D order samples book ! j = book ! j"
  by (simp add: kmeans_step_def kmeans_normalise_def kmeans_count_def filter_False) (auto simp: filter_empty_conv)

lemma length_kmeans_step [simp]: "length (kmeans_step D order samples book) = length book"
  by (simp add: kmeans_step_def kmeans_normalise_def)

lemma length_kmeans [simp]: "length (codebook_init_kmeans D order samples n book) = length book"
  by (induction n) simp_all

text \<open>
  The buffers are cleared before the first call, so every entry starts as the zero row.  Whatever the
  samples are, each Lloyd iteration then moves at most one more entry: after \<open>n\<close> iterations all entries
  from the \<open>n\<close>-th on are still zero.
\<close>

theorem zero_codebook_stays:
  assumes "n \<le> j" and "j < k"
  shows "codebook_init_kmeans D order samples n (replicate k z) ! j = z"
  using assms
proof (induction n arbitrary: j)
  case (Suc n)
  let ?book = "codebook_init_kmeans D order samples n (replicate k z)"
  have tail: "\<forall>j. n \<le> j \<longrightarrow> j < length ?book \<longrightarrow> ?book ! j = z" using Suc.IH by simp
  have "n < length ?book" using Suc.prems by simp
  then have "\<forall>v. nearest_index (dl_float D) ?book v \<le> n" using nearest_before_tail [OF tail] by blast
  then have "j \<notin> set (kmeans_assign (dl_float D) samples ?book)" 
    using Suc.prems(1) by (auto simp: kmeans_assign_def) (metis Suc_n_not_le_n order_trans)
  then show ?case using kmeans_step_unused [of j ?book D samples "order n"] Suc by simp
qed simp

definition one_order :: "nat \<Rightarrow> nat \<Rightarrow> nat \<Rightarrow> nat list" where
  "one_order n c d = [0, 1]"

theorem zero_codebook_stays_witness:
  "codebook_init_kmeans demo_device one_order [[0x4500], [0x3C00]] 5 (replicate 256 [0]) ! 7 = [0]"
  by (rule zero_codebook_stays) simp_all

section \<open>Encode, then decode\<close>

lemma thread_row_id: "0 < h \<Longrightarrow> 0 \<le> t \<Longrightarrow> thread_row h t = t"
  by (simp add: thread_row_def minus_mod_eq_div_mult [symmetric])

lemma run_threads_pointwise:
  assumes "\<And>t s. t < n \<Longrightarrow> length s = m \<Longrightarrow> body (int t) s = Inr (s[t := f t])" and "length s = m" and "n \<le> m"
  shows "run_threads body n s = Inr (map f [0..<n] @ drop n s)"
  using assms(1,3)
proof (induction n)
  case (Suc n)
  have r: "run_threads body n s = Inr (map f [0..<n] @ drop n s)" using Suc by simp
  have "drop n s \<noteq> []" using Suc.prems(2) assms(2) by simp
  then have "(map f [0..<n] @ drop n s)[n := f n] = map f [0..<Suc n] @ drop (Suc n) s"
    by (simp add: list_update_append) (metis Cons_nth_drop_Suc assms(2) list_update_code(2) Suc.prems(2) Suc_le_lessD)
  moreover have "body (int n) (map f [0..<n] @ drop n s) = Inr ((map f [0..<n] @ drop n s)[n := f n])"
    using Suc.prems assms(2) by (intro Suc.prems(1)) simp_all
  ultimately show ?case using r by simp
qed simp

lemma vq_encode_eq:
  assumes "0 < h" and "seq_len * h \<le> int (length kv)" and "seq_len * h \<le> int (length idx)"
  shows "vq_encode L kv book seq_len h k idx =
    Inr (map (\<lambda>t. of_nat (nearest_index L (take (nat k) book) (kv ! t))) [0..<nat (seq_len * h)] @ drop (nat (seq_len * h)) idx)"
  unfolding vq_encode_def using assms
  by (intro run_threads_pointwise [where m = "length idx"]) (auto simp: thread_row_id row_at_def put_row_def)

lemma vq_decode_eq:
  assumes "0 < h" and "seq_len * h \<le> int (length kv)" and "seq_len * h \<le> int (length idx)"
    and "\<And>t. t < nat (seq_len * h) \<Longrightarrow> uint (idx ! t) < int (length book)"
  shows "vq_decode book idx seq_len h kv =
    Inr (map (\<lambda>t. book ! unat (idx ! t)) [0..<nat (seq_len * h)] @ drop (nat (seq_len * h)) kv)"
  unfolding vq_decode_def using assms
  by (intro run_threads_pointwise [where m = "length kv"]) (auto simp: thread_row_id row_at_def put_row_def)

text \<open>
  With buffers of the right sizes and a codebook of at most \<open>2^16\<close> entries, encoding and decoding in place
  replaces each of the first rows by a nearest entry of the codebook, and leaves the others.
\<close>

theorem vq_roundtrip:
  assumes "0 < h" and "0 \<le> seq_len" and "seq_len * h \<le> int (length kv)" and "seq_len * h \<le> int (length idx)"
    and "book \<noteq> []" and "length book = nat k" and "k \<le> 65536"
  shows "\<exists>idx'. vq_encode L kv book seq_len h k idx = Inr idx' \<and>
    vq_decode book idx' seq_len h kv =
      Inr (map (\<lambda>v. book ! nearest_index L book v) (take (nat (seq_len * h)) kv) @ drop (nat (seq_len * h)) kv)"
proof -
  let ?n = "nat (seq_len * h)"
  define idx' :: "16 word list" where "idx' = map (\<lambda>t. of_nat (nearest_index L book (kv ! t))) [0..<?n] @ drop ?n idx"
  have e: "vq_encode L kv book seq_len h k idx = Inr idx'"
    using vq_encode_eq [OF assms(1,3,4), of L book k] assms(6) by (simp add: idx'_def)
  have small: "unat (of_nat (nearest_index L book v) :: 16 word) = nearest_index L book v" for v
  proof -
    have "nearest_index L book v < 2 ^ 16" using nearest_index_less [OF assms(5), of L v] assms(6,7) by simp
    then show ?thesis by (simp add: unat_of_nat take_bit_nat_eq_self)
  qed
  have at: "idx' ! t = of_nat (nearest_index L book (kv ! t))" if "t < ?n" for t
    using that by (simp add: idx'_def nth_append)
  have "vq_decode book idx' seq_len h kv = Inr (map (\<lambda>t. book ! unat (idx' ! t)) [0..<?n] @ drop ?n kv)"
  proof (rule vq_decode_eq [OF assms(1,3)])
    show "seq_len * h \<le> int (length idx')" using assms(1,2,4) by (simp add: idx'_def)
    fix t
    assume "t < ?n"
    then show "uint (idx' ! t) < int (length book)"
      using nearest_index_less [OF assms(5), of L "kv ! t"] by (simp add: at uint_nat small)
  qed
  also have "map (\<lambda>t. book ! unat (idx' ! t)) [0..<?n] = map (\<lambda>v. book ! nearest_index L book v) (take ?n kv)"
    using assms(3) by (intro nth_equalityI) (simp_all add: at small)
  finally show ?thesis using e by blast
qed

theorem vq_roundtrip_witness:
  "\<exists>idx'. vq_encode (dl_float demo_device) [[0x4500], [0x3C00]] [[0x4000]] 1 1 1 [0] = Inr idx' \<and>
    vq_decode [[0x4000]] idx' 1 1 [[0x4500], [0x3C00]] = Inr [[0x4000], [0x3C00]]"
  using vq_roundtrip [of 1 1 "[[0x4500], [0x3C00]]" "[0]" "[[0x4000]]" 1 "dl_float demo_device"]
    nearest_index_less [of "[[0x4000]]" "dl_float demo_device" "[0x4500]"] by simp

end
