(* ===== verification/Kv_Compression.thy ===== *)
theory Kv_Compression
  imports Vq_Cache Config_Schema
begin

text \<open>
  \<open>src/inference/backends/cuda/compression/kv_compression_pass.cpp\<close>: the pass that quantises the KV cache of
  a layer in place after a prefill.  Device memory behind a K or V pointer is a list of halves from the pointer
  to the end of the pool; a launch that would leave it, or leave a scratch buffer, is \<open>Inl OutOfRange\<close>.
  Whether an allocation succeeds is a parameter.
\<close>

section \<open>State\<close>

definition vq_max_codebook_size :: int where
  "vq_max_codebook_size = 65535"

record kv_pass =
  kp_vq :: bool
  kp_kivi :: bool
  kp_layers :: int
  kp_heads :: int
  kp_dim :: int
  kp_block :: int
  kp_books :: "(16 word list list \<times> 16 word list list) option"
  kp_indices :: "16 word list"
  kp_book_size :: int
  kp_ready :: bool
  kp_scratch :: "8 word list option"
  kp_scratch_bytes :: int
  kp_outliers :: int
  kp_group :: int

definition kv_pass_construct :: "compression_config \<Rightarrow> int \<Rightarrow> int \<Rightarrow> int \<Rightarrow> int \<Rightarrow> kv_pass" where
  "kv_pass_construct cfg n_layers n_kv_heads head_dim block_size =
     (let outliers = ki_residual_length (cp_kv_kivi cfg);
          group = (if ki_bits (cp_kv_kivi cfg) = 4 then 16 else 8);
          book = min (vq_codebook_size (cp_kv_vq cfg)) vq_max_codebook_size
      in \<lparr>kp_vq = vq_enabled (cp_kv_vq cfg) \<and> 0 < book,
          kp_kivi = ki_enabled (cp_kv_kivi cfg) \<and> kivi_params_supported head_dim outliers group,
          kp_layers = n_layers, kp_heads = n_kv_heads, kp_dim = head_dim, kp_block = block_size,
          kp_books = None, kp_indices = [], kp_book_size = book, kp_ready = False,
          kp_scratch = None, kp_scratch_bytes = 0, kp_outliers = outliers, kp_group = group\<rparr>)"

definition kv_pass_enabled :: "kv_pass \<Rightarrow> bool" where
  "kv_pass_enabled P \<longleftrightarrow> kp_vq P \<or> kp_kivi P"

text \<open>The index scratch has room for 4096 tokens, the KIVI scratch for one block; \<open>None\<close> is the exception.\<close>

definition max_seq_scratch :: int where
  "max_seq_scratch = 4096"

definition init_vq :: "(int \<Rightarrow> bool) \<Rightarrow> kv_pass \<Rightarrow> kv_pass option" where
  "init_vq alloc P =
     (if \<not> kp_vq P then Some P
      else if \<not> alloc (kp_book_size P * kp_dim P * 2) \<or> \<not> alloc (kp_heads P * max_seq_scratch * 2) then None
      else let book = replicate (nat (kp_book_size P)) (replicate (nat (kp_dim P)) 0)
           in Some (P\<lparr>kp_books := Some (book, book), kp_indices := replicate (nat (kp_heads P * max_seq_scratch)) 0\<rparr>))"

definition init_kivi :: "(int \<Rightarrow> bool) \<Rightarrow> kv_pass \<Rightarrow> kv_pass option" where
  "init_kivi alloc P =
     (if \<not> kp_kivi P then Some P
      else let bytes = kp_block P * kp_heads P * kivi_compressed_bytes (kp_dim P) (kp_outliers P) (kp_group P)
           in if \<not> alloc bytes then None
              else Some (P\<lparr>kp_scratch := Some (replicate (nat bytes) 0), kp_scratch_bytes := bytes\<rparr>))"

definition kv_pass_init :: "(int \<Rightarrow> bool) \<Rightarrow> kv_pass \<Rightarrow> kv_pass option" where
  "kv_pass_init alloc P = (case init_vq alloc P of None \<Rightarrow> None | Some Q \<Rightarrow> init_kivi alloc Q)"

section \<open>Vector quantisation of a layer\<close>

definition rows_of :: "int \<Rightarrow> 16 word list \<Rightarrow> 16 word list list" where
  "rows_of n mem = chunks (length mem div nat n) (nat n) mem"

definition with_rows :: "int \<Rightarrow> 16 word list \<Rightarrow> 16 word list list \<Rightarrow> 16 word list" where
  "with_rows n mem rs = concat rs @ drop (length rs * nat n) mem"

definition seed_books ::
  "device_lib \<Rightarrow> (nat \<Rightarrow> nat \<Rightarrow> nat \<Rightarrow> nat list) \<Rightarrow> int \<Rightarrow> 16 word list \<Rightarrow> 16 word list \<Rightarrow> kv_pass \<Rightarrow>
   16 word list list \<times> 16 word list list \<Rightarrow> (kv_pass \<times> 16 word list list \<times> 16 word list list) exec" where
  "seed_books D order seq_len k v P = (\<lambda>(bk, bv).
     let n = seq_len * kp_heads P
     in ebind (slice_at (rows_of (kp_dim P) k) 0 n) (\<lambda>ks. ebind (slice_at (rows_of (kp_dim P) v) 0 n) (\<lambda>vs.
          let bk' = codebook_init_kmeans D order ks 5 bk; bv' = codebook_init_kmeans D order vs 5 bv
          in Inr (P\<lparr>kp_books := Some (bk', bv'), kp_ready := True\<rparr>, bk', bv'))))"

text \<open>One tensor: encode to the index scratch, decode in place.\<close>

definition requantise ::
  "device_lib \<Rightarrow> int \<Rightarrow> 16 word list list \<Rightarrow> 16 word list \<Rightarrow> kv_pass \<Rightarrow> (16 word list \<times> kv_pass) exec" where
  "requantise D seq_len book mem P =
     ebind (vq_encode (dl_float D) (rows_of (kp_dim P) mem) book seq_len (kp_heads P) (kp_book_size P) (kp_indices P)) (\<lambda>idx.
     ebind (vq_decode book idx seq_len (kp_heads P) (rows_of (kp_dim P) mem)) (\<lambda>rs.
       Inr (with_rows (kp_dim P) mem rs, P\<lparr>kp_indices := idx\<rparr>)))"

definition run_vq ::
  "device_lib \<Rightarrow> (nat \<Rightarrow> nat \<Rightarrow> nat \<Rightarrow> nat list) \<Rightarrow> int \<Rightarrow> 16 word list \<Rightarrow> 16 word list \<Rightarrow> kv_pass \<Rightarrow>
   (16 word list \<times> 16 word list \<times> kv_pass) exec" where
  "run_vq D order seq_len k v P =
     (case kp_books P of
        None \<Rightarrow> Inr (k, v, P)
      | Some books \<Rightarrow>
          if seq_len \<le> 0 \<or> \<not> kp_ready P \<and> seq_len * kp_heads P < kp_book_size P then Inr (k, v, P)
          else ebind (if kp_ready P then Inr (P, books) else seed_books D order seq_len k v P books) (\<lambda>(P1, bk, bv).
               ebind (requantise D seq_len bk k P1) (\<lambda>(k', P2).
               ebind (requantise D seq_len bv v P2) (\<lambda>(v', P3). Inr (k', v', P3)))))"

section \<open>KIVI of a layer\<close>

definition kivi_inplace :: "device_lib \<Rightarrow> int \<Rightarrow> 16 word list \<Rightarrow> kv_pass \<Rightarrow> 8 word list \<Rightarrow> (16 word list \<times> 8 word list) exec" where
  "kivi_inplace D n mem P buf =
     ebind (kivi_compress D mem n (kp_dim P) (kp_outliers P) (kp_group P) buf) (\<lambda>buf'.
     ebind (kivi_decompress D buf' n (kp_dim P) (kp_outliers P) (kp_group P) mem) (\<lambda>mem'. Inr (mem', buf')))"

definition run_kivi ::
  "device_lib \<Rightarrow> int \<Rightarrow> 16 word list \<Rightarrow> 16 word list \<Rightarrow> kv_pass \<Rightarrow> (16 word list \<times> 16 word list \<times> kv_pass) exec" where
  "run_kivi D seq_len k v P =
     (case kp_scratch P of
        None \<Rightarrow> Inr (k, v, P)
      | Some buf \<Rightarrow>
          if seq_len \<le> 0 then Inr (k, v, P)
          else let n = seq_len * kp_heads P
               in if kp_scratch_bytes P < n * kivi_compressed_bytes (kp_dim P) (kp_outliers P) (kp_group P)
                  then Inr (k, v, P)
                  else ebind (kivi_inplace D n k P buf) (\<lambda>(k', b1). ebind (kivi_inplace D n v P b1) (\<lambda>(v', b2).
                         Inr (k', v', P\<lparr>kp_scratch := Some b2\<rparr>))))"

definition kv_pass_run ::
  "device_lib \<Rightarrow> (nat \<Rightarrow> nat \<Rightarrow> nat \<Rightarrow> nat list) \<Rightarrow> int \<Rightarrow> 16 word list \<Rightarrow> 16 word list \<Rightarrow> kv_pass \<Rightarrow>
   (16 word list \<times> 16 word list \<times> kv_pass) exec" where
  "kv_pass_run D order seq_len k v P =
     ebind (if kp_vq P then run_vq D order seq_len k v P else Inr (k, v, P)) (\<lambda>(k1, v1, P1).
       if kp_kivi P1 then run_kivi D seq_len k1 v1 P1 else Inr (k1, v1, P1))"

section \<open>What the configuration can enable\<close>

text \<open>The residual length is taken for the number of outlier channels, of which a kernel holds 64: with the
  default of 128 switching KIVI on has no effect, for any model.\<close>

lemma default_kivi_disabled:
  "\<not> kp_kivi (kv_pass_construct (cfg\<lparr>cp_kv_kivi := default_kivi\<lparr>ki_enabled := True\<rparr>\<rparr>) n_layers n_kv_heads head_dim block_size)"
  by (simp add: kv_pass_construct_def Let_def default_kivi_def kivi_params_supported_def kivi_max_outliers_def)

definition kv_pass_ok :: "kv_pass \<Rightarrow> bool" where
  "kv_pass_ok P \<longleftrightarrow>
     (\<forall>bk bv. kp_books P = Some (bk, bv) \<longrightarrow> 0 < kp_book_size P \<and> kp_book_size P \<le> 65535 \<and>
        length bk = nat (kp_book_size P) \<and> length bv = nat (kp_book_size P) \<and>
        (\<forall>r \<in> set bk \<union> set bv. length r = nat (kp_dim P)) \<and>
        int (length (kp_indices P)) = max 0 (kp_heads P * max_seq_scratch)) \<and>
     (\<forall>buf. kp_scratch P = Some buf \<longrightarrow> kivi_params_supported (kp_dim P) (kp_outliers P) (kp_group P) \<and>
        even (kp_group P) \<and> int (length buf) = max 0 (kp_scratch_bytes P) \<and>
        kp_scratch_bytes P = kp_block P * kp_heads P * kivi_compressed_bytes (kp_dim P) (kp_outliers P) (kp_group P))"

lemma construct_ok: "kv_pass_ok (kv_pass_construct cfg n_layers n_kv_heads head_dim block_size)"
  by (simp add: kv_pass_ok_def kv_pass_construct_def Let_def)

text \<open>What the constructor leaves for \<open>init\<close>.\<close>

definition kv_pass_fresh :: "kv_pass \<Rightarrow> bool" where
  "kv_pass_fresh P \<longleftrightarrow> kp_books P = None \<and> kp_scratch P = None \<and> (kp_vq P \<longrightarrow> 0 < kp_book_size P \<and> kp_book_size P \<le> 65535) \<and>
     (kp_kivi P \<longrightarrow> kivi_params_supported (kp_dim P) (kp_outliers P) (kp_group P) \<and> even (kp_group P))"

lemma construct_fresh: "kv_pass_fresh (kv_pass_construct cfg n_layers n_kv_heads head_dim block_size)"
  by (auto simp: kv_pass_fresh_def kv_pass_construct_def Let_def vq_max_codebook_size_def)

lemma init_ok:
  assumes "kv_pass_init alloc P = Some Q" and "kv_pass_fresh P"
  shows "kv_pass_ok Q"
  using assms
  by (auto simp: kv_pass_init_def init_vq_def init_kivi_def kv_pass_ok_def kv_pass_fresh_def Let_def
      split: if_splits option.splits)

section \<open>Vector quantisation runs past its scratch\<close>

lemma run_threads_append: "run_threads body (n + m) s = ebind (run_threads body n s) (run_threads (\<lambda>t. body (int n + t)) m)"
  by (induction m) (auto simp: ebind_def split: sum.splits)

lemma run_threads_stuck:
  assumes "\<And>s. length s = m \<Longrightarrow> \<exists>e. body (int t) s = Inl e" and "t < n" and "length s = m"
    and "\<And>t s s'. length s = m \<Longrightarrow> body (int t) s = Inr s' \<Longrightarrow> length s' = m"
  shows "\<exists>e. run_threads body n s = Inl e"
  using assms(2)
proof (induction n)
  case (Suc n)
  have inv: "run_threads body k s = Inr s' \<Longrightarrow> length s' = m" for k s'
    by (induction k arbitrary: s') (auto simp: assms(3) ebind_eq_Inr assms(4))
  show ?case
  proof (cases "t = n")
    case True
    then show ?thesis using assms(1) inv by (cases "run_threads body n s") auto
  next
    case False
    then show ?thesis using Suc by auto
  qed
qed simp

text \<open>
  Once the codebook is ready, a prompt of more than 4096 tokens makes the encoder write behind the index
  scratch: the length is compared with nothing.
\<close>

theorem vq_scratch_overflow:
  assumes "kv_pass_ok P" and "kp_ready P" and "kp_books P = Some books" and "0 < kp_heads P" and "4096 < seq_len"
  shows "\<exists>e. run_vq D order seq_len k v P = Inl e"
proof -
  let ?m = "length (kp_indices P)" and ?h = "kp_heads P"
  have m: "int ?m = ?h * 4096" using assms(1,3,4) by (cases books) (simp add: kv_pass_ok_def max_seq_scratch_def)
  obtain bk bv where b: "books = (bk, bv)" by force
  let ?body = "\<lambda>tid idx. ebind (row_at (rows_of (kp_dim P) k) (thread_row ?h tid)) (\<lambda>v.
      put_row idx (thread_row ?h tid) (of_nat (nearest_index (dl_float D) (take (nat (kp_book_size P)) bk) v)))"
  have "\<exists>e. run_threads ?body (nat (seq_len * ?h)) (kp_indices P) = Inl e"
  proof (rule run_threads_stuck [where t = ?m and m = ?m])
    show "\<exists>e. ?body (int ?m) s = Inl e" if "length s = ?m" for s :: "16 word list"
      using that assms(4) by (auto simp: thread_row_id row_at_def put_row_def)
    have "?h * 4096 < seq_len * ?h" using assms(4,5) by (simp add: mult.commute)
    then show "?m < nat (seq_len * ?h)" using m by linarith
    show "length s' = ?m" if "length s = ?m" "?body (int t) s = Inr s'" for t and s s' :: "16 word list"
      using that by (auto simp: ebind_eq_Inr put_row_def split: if_splits)
  qed simp
  then show ?thesis using assms(2,3,5) by (auto simp: run_vq_def b requantise_def vq_encode_def)
qed

definition demo_kv_pass :: kv_pass where
  "demo_kv_pass = \<lparr>kp_vq = True, kp_kivi = False, kp_layers = 1, kp_heads = 1, kp_dim = 2, kp_block = 16,
     kp_books = Some ([[0, 0]], [[0, 0]]), kp_indices = replicate 4096 0, kp_book_size = 1, kp_ready = True,
     kp_scratch = None, kp_scratch_bytes = 0, kp_outliers = 1, kp_group = 16\<rparr>"

theorem vq_scratch_overflow_witness: "\<exists>e. run_vq demo_device one_order 4097 [] [] demo_kv_pass = Inl e"
  by (rule vq_scratch_overflow [where books = "([[0, 0]], [[0, 0]])"])
     (simp_all add: demo_kv_pass_def kv_pass_ok_def max_seq_scratch_def)

section \<open>KIVI skips what does not fit\<close>

text \<open>The scratch holds one block, so a prompt longer than one block is left uncompressed.\<close>

lemma kivi_long_prompt_skipped:
  assumes "kv_pass_ok P" and "kp_block P < seq_len" and "0 < kp_heads P" and "0 < kivi_compressed_bytes (kp_dim P) (kp_outliers P) (kp_group P)"
  shows "run_kivi D seq_len k v P = Inr (k, v, P)"
proof (cases "kp_scratch P")
  case (Some buf)
  have "kp_block P * kp_heads P < seq_len * kp_heads P" using assms(2,3) by simp
  then have "kp_block P * kp_heads P * kivi_compressed_bytes (kp_dim P) (kp_outliers P) (kp_group P) <
      seq_len * kp_heads P * kivi_compressed_bytes (kp_dim P) (kp_outliers P) (kp_group P)"
    using assms(4) by (rule mult_strict_right_mono)
  then show ?thesis using assms(1) Some by (simp add: run_kivi_def kv_pass_ok_def Let_def)
qed (simp add: run_kivi_def)

section \<open>Prompts within the bounds\<close>

lemma length_chunks [simp]: "length (chunks k n xs) = k"
  by (induction k n xs rule: chunks.induct) auto

lemma chunks_full: "k * n \<le> length xs \<Longrightarrow> r \<in> set (chunks k n xs) \<Longrightarrow> length r = n"
  by (induction k n xs rule: chunks.induct) auto

lemma rows_ok: "length (rows_of n mem) = length mem div nat n" "r \<in> set (rows_of n mem) \<Longrightarrow> length r = nat n"
  using chunks_full [of "length mem div nat n" "nat n" mem r] by (simp_all add: rows_of_def)

lemma length_with_rows:
  assumes "\<forall>r \<in> set rs. length r = nat n" and "length rs = length mem div nat n"
  shows "length (with_rows n mem rs) = length mem"
proof -
  have "length (concat rs) = length rs * nat n" using assms(1) by (induction rs) auto
  moreover have "length rs * nat n \<le> length mem" unfolding assms(2) by simp
  ultimately show ?thesis by (simp add: with_rows_def)
qed

lemma requantise_total:
  assumes "0 < kp_heads P" and "0 < seq_len" and "seq_len * kp_heads P \<le> int (length mem div nat (kp_dim P))"
    and "seq_len * kp_heads P \<le> int (length (kp_indices P))" and "book \<noteq> []" and "length book = nat (kp_book_size P)"
    and "kp_book_size P \<le> 65535" and "\<forall>r \<in> set book. length r = nat (kp_dim P)"
  shows "\<exists>mem' idx. requantise D seq_len book mem P = Inr (mem', P\<lparr>kp_indices := idx\<rparr>) \<and> length mem' = length mem \<and>
    length idx = length (kp_indices P)"
proof -
  let ?rows = "rows_of (kp_dim P) mem" and ?n = "nat (seq_len * kp_heads P)"
  have b: "seq_len * kp_heads P \<le> int (length ?rows)" using assms(3) by (simp add: rows_ok)
  have p: "0 \<le> seq_len" "kp_book_size P \<le> 65536" using assms(2,7) by simp_all
  obtain idx where e: "vq_encode (dl_float D) ?rows book seq_len (kp_heads P) (kp_book_size P) (kp_indices P) = Inr idx"
    and d: "vq_decode book idx seq_len (kp_heads P) ?rows =
      Inr (map (\<lambda>v. book ! nearest_index (dl_float D) book v) (take ?n ?rows) @ drop ?n ?rows)"
    using vq_roundtrip [OF assms(1) p(1) b assms(4,5,6) p(2)] by blast
  let ?rs = "map (\<lambda>v. book ! nearest_index (dl_float D) book v) (take ?n ?rows) @ drop ?n ?rows"
  have "length idx = length (kp_indices P)"
    using e vq_encode_eq [OF assms(1) b assms(4), of "dl_float D" book "kp_book_size P"] assms(4) by auto
  moreover have "length (with_rows (kp_dim P) mem ?rs) = length mem"
  proof (rule length_with_rows)
    show "\<forall>r \<in> set ?rs. length r = nat (kp_dim P)"
      using assms(8) nearest_index_less [OF assms(5)] rows_ok(2) by (auto dest!: in_set_dropD)
    show "length ?rs = length mem div nat (kp_dim P)" using b by (simp add: rows_ok)
  qed
  ultimately show ?thesis by (intro exI conjI) (simp add: requantise_def e d, assumption+)
qed

lemma kmeans_rows:
  "\<forall>r \<in> set book. length r = m \<Longrightarrow> \<forall>r \<in> set (codebook_init_kmeans D order samples n book). length r = m"
proof (induction n)
  case (Suc n)
  then show ?case by (auto simp: kmeans_step_def kmeans_normalise_def)
qed simp

lemma run_vq_total:
  assumes "kv_pass_ok P" and "0 < kp_heads P" and "seq_len \<le> 4096"
    and "seq_len * kp_heads P \<le> int (length k div nat (kp_dim P))" and "length v = length k"
  shows "\<exists>k' v' P'. run_vq D order seq_len k v P = Inr (k', v', P') \<and> kv_pass_ok P' \<and> length k' = length k \<and> length v' = length v \<and>
    kp_kivi P' = kp_kivi P \<and> kp_heads P' = kp_heads P \<and> kp_dim P' = kp_dim P \<and> kp_block P' = kp_block P"
proof (cases "kp_books P = None \<or> seq_len \<le> 0 \<or> \<not> kp_ready P \<and> seq_len * kp_heads P < kp_book_size P")
  case True
  then show ?thesis using assms(1) by (auto simp: run_vq_def split: option.splits)
next
  case False
  then obtain bk bv where books: "kp_books P = Some (bk, bv)" by auto
  have pos: "0 < seq_len" using False by simp
  let ?n = "seq_len * kp_heads P"
  have cap: "?n \<le> int (length (kp_indices P))"
    using assms(1-3) books mult_right_mono [of seq_len 4096 "kp_heads P"] by (simp add: kv_pass_ok_def max_seq_scratch_def)
  have book: "0 < kp_book_size P" "kp_book_size P \<le> 65535" "length bk = nat (kp_book_size P)" "length bv = nat (kp_book_size P)"
    "\<forall>r \<in> set bk. length r = nat (kp_dim P)" "\<forall>r \<in> set bv. length r = nat (kp_dim P)"
    using assms(1) books by (auto simp: kv_pass_ok_def)
  obtain P1 bk1 bv1 where seeded: "(if kp_ready P then Inr (P, bk, bv) else seed_books D order seq_len k v P (bk, bv)) = Inr (P1, bk1, bv1)"
    and P1: "P1 = P\<lparr>kp_books := Some (bk1, bv1), kp_ready := True\<rparr>" "length bk1 = length bk" "length bv1 = length bv"
    "\<forall>r \<in> set bk1. length r = nat (kp_dim P)" "\<forall>r \<in> set bv1. length r = nat (kp_dim P)"
  proof (cases "kp_ready P")
    case True
    then show ?thesis using that [of P bk bv] book books by (cases P) simp
  next
    case notready: False
    have "0 \<le> ?n" using pos assms(2) by simp
    then have "\<exists>ks. slice_at (rows_of (kp_dim P) k) 0 ?n = Inr ks" "\<exists>vs. slice_at (rows_of (kp_dim P) v) 0 ?n = Inr vs"
      using assms(4,5) by (simp_all add: slice_at_def rows_ok)
    then show ?thesis using that kmeans_rows [OF book(5)] kmeans_rows [OF book(6)] notready
      by (auto simp: seed_books_def Let_def)
  qed
  have ne: "bk1 \<noteq> []" "bv1 \<noteq> []" using P1(2,3) book(1,3,4) by auto
  obtain k' idx where k': "requantise D seq_len bk1 k P1 = Inr (k', P1\<lparr>kp_indices := idx\<rparr>)" "length k' = length k" "length idx = length (kp_indices P)"
    using requantise_total [of P1 seq_len k bk1 D] assms(2,4) pos cap ne(1) P1 book by auto
  obtain v' idx' where v': "requantise D seq_len bv1 v (P1\<lparr>kp_indices := idx\<rparr>) = Inr (v', P1\<lparr>kp_indices := idx'\<rparr>)" "length v' = length v"
    "length idx' = length (kp_indices P)"
    using requantise_total [of "P1\<lparr>kp_indices := idx\<rparr>" seq_len v bv1 D] assms(2,4,5) pos cap ne(2) P1 book k'(3) by auto
  have "run_vq D order seq_len k v P = Inr (k', v', P1\<lparr>kp_indices := idx'\<rparr>)"
    using False books seeded k'(1) v'(1) by (auto simp: run_vq_def)
  moreover have "kv_pass_ok (P1\<lparr>kp_indices := idx'\<rparr>)"
    using assms(1) books P1 v'(3) by (auto simp: kv_pass_ok_def)
  ultimately show ?thesis using k'(2) v'(2) P1(1) by simp
qed

lemma kivi_inplace_total:
  assumes "even (kp_group P)" and "n * kp_dim P \<le> int (length mem)"
    and "n * kivi_compressed_bytes (kp_dim P) (kp_outliers P) (kp_group P) \<le> int (length buf)"
  shows "\<exists>mem' buf'. kivi_inplace D n mem P buf = Inr (mem', buf') \<and> length mem' = length mem \<and> length buf' = length buf"
proof -
  obtain b where b: "kivi_compress D mem n (kp_dim P) (kp_outliers P) (kp_group P) buf = Inr b" "length b = length buf"
    using kivi_compress_total [OF assms(2,3,1)] by blast
  have "n * kivi_compressed_bytes (kp_dim P) (kp_outliers P) (kp_group P) \<le> int (length b)" using assms(3) b(2) by simp
  then obtain m where "kivi_decompress D b n (kp_dim P) (kp_outliers P) (kp_group P) mem = Inr m" "length m = length mem"
    using kivi_decompress_total [OF assms(2) _ assms(1)] by blast
  then show ?thesis using b by (simp add: kivi_inplace_def)
qed

lemma run_kivi_total:
  assumes "kv_pass_ok P" and "seq_len * kp_heads P * kp_dim P \<le> int (length k)" and "length v = length k"
  shows "\<exists>k' v' P'. run_kivi D seq_len k v P = Inr (k', v', P') \<and> kv_pass_ok P' \<and> length k' = length k \<and> length v' = length v"
proof (cases "kp_scratch P")
  case None
  then show ?thesis using assms(1) by (simp add: run_kivi_def)
next
  case (Some buf)
  let ?n = "seq_len * kp_heads P" and ?bytes = "kivi_compressed_bytes (kp_dim P) (kp_outliers P) (kp_group P)"
  show ?thesis
  proof (cases "seq_len \<le> 0 \<or> kp_scratch_bytes P < ?n * ?bytes")
    case True
    then show ?thesis using assms(1) Some by (auto simp: run_kivi_def Let_def)
  next
    case False
    have ok: "even (kp_group P)" "int (length buf) = max 0 (kp_scratch_bytes P)"
      using assms(1) Some by (simp_all add: kv_pass_ok_def)
    then have fit: "?n * ?bytes \<le> int (length buf)" using False by linarith
    obtain k' b1 where k': "kivi_inplace D ?n k P buf = Inr (k', b1)" "length k' = length k" "length b1 = length buf"
      using kivi_inplace_total [OF ok(1) assms(2) fit] by blast
    have "?n * ?bytes \<le> int (length b1)" "?n * kp_dim P \<le> int (length v)" using fit k'(3) assms(2,3) by simp_all
    then obtain v' b2 where v': "kivi_inplace D ?n v P b1 = Inr (v', b2)" "length v' = length v" "length b2 = length b1"
      using kivi_inplace_total [OF ok(1)] by blast
    have "kv_pass_ok (P\<lparr>kp_scratch := Some b2\<rparr>)" using assms(1) Some v'(3) k'(3) by (simp add: kv_pass_ok_def)
    then show ?thesis using False Some k' v' by (simp add: run_kivi_def Let_def)
  qed
qed

text \<open>C18: Up to 4096 tokens the pass stays inside the layer and inside its buffers, and it changes no sizes: the
  next layer finds the same invariant.
\<close>

theorem kv_pass_in_bounds:
  assumes "kv_pass_ok P" and "0 < kp_heads P" and "0 < kp_dim P" and "0 \<le> seq_len" and "seq_len \<le> 4096"
    and "seq_len * kp_heads P * kp_dim P \<le> int (length k)" and "length v = length k"
  shows "\<exists>k' v' P'. kv_pass_run D order seq_len k v P = Inr (k', v', P') \<and> kv_pass_ok P' \<and>
    length k' = length k \<and> length v' = length v"
proof -
  have "nat (seq_len * kp_heads P) * nat (kp_dim P) \<le> length k"
    using assms(2-4,6) by (simp add: nat_mult_distrib [symmetric] nat_le_iff)
  then have "nat (seq_len * kp_heads P) \<le> length k div nat (kp_dim P)"
    using assms(3) by (simp add: less_eq_div_iff_mult_less_eq)
  then have rows: "seq_len * kp_heads P \<le> int (length k div nat (kp_dim P))" by linarith
  obtain k1 v1 P1 where 1: "(if kp_vq P then run_vq D order seq_len k v P else Inr (k, v, P)) = Inr (k1, v1, P1)"
    "kv_pass_ok P1" "length k1 = length k" "length v1 = length v" "kp_heads P1 = kp_heads P" "kp_dim P1 = kp_dim P"
  proof (cases "kp_vq P")
    case True
    then show thesis using run_vq_total [OF assms(1,2,5) rows assms(7), of D order] that by fastforce
  next
    case False
    then show thesis using assms(1) that [of k v P] by simp
  qed
  have "seq_len * kp_heads P1 * kp_dim P1 \<le> int (length k1)" "length v1 = length k1" using 1(3-6) assms(6,7) by simp_all
  from run_kivi_total [OF 1(2) this, of D] show ?thesis
    using 1 by (auto simp: kv_pass_run_def)
qed

theorem kv_pass_in_bounds_witness:
  "\<exists>k' v' P'. kv_pass_run demo_device one_order 2 [1, 2, 3, 4] [5, 6, 7, 8] demo_kv_pass = Inr (k', v', P') \<and> kv_pass_ok P' \<and>
     length k' = length [1, 2, 3, 4 :: 16 word] \<and> length v' = length [5, 6, 7, 8 :: 16 word]"
  by (rule kv_pass_in_bounds) (simp_all add: demo_kv_pass_def kv_pass_ok_def max_seq_scratch_def)

end
