(* ===== verification/Ggml_Model.thy ===== *)
theory Ggml_Model
  imports Gpu_Device Scheduler Plugin_Abi
begin

text \<open>
  \<open>src/inference/backends/cpu/ggml_model.cpp\<close> and \<open>ggml_context.cpp\<close>: a model loaded by llama.cpp and a context
  over it.  llama.cpp is a parameter: whether a file loads and a context can be made, what a model says of itself
  and how it tokenises.  A handle is the number of the load that gave it; a freed handle is never given again.
\<close>

section \<open>The library\<close>

datatype ggml_type = Type_F16 | Type_Q8_0 | Type_Q4_0 | Type_Q4_1

record model_params =
  mp_gpu_layers :: int
  mp_main_gpu :: int
  mp_mmap :: bool
  mp_mlock :: bool
  mp_split :: "fvalue list option"

record context_params =
  cp_n_ctx :: int
  cp_n_batch :: int
  cp_n_ubatch :: int
  cp_seqs :: "(int \<times> bool) option"
  cp_threads :: int
  cp_flash :: bool
  cp_type_k :: ggml_type
  cp_type_v :: ggml_type

text \<open>\<open>ll_tokens\<close> and \<open>ll_piece\<close> are what the calls would write into a buffer large enough; \<open>ll_context\<close> gives the
  size of a context and of its batches, both \<open>uint32_t\<close>.\<close>

record llama_lib =
  ll_load :: "nat \<Rightarrow> string \<Rightarrow> model_params \<Rightarrow> bool"
  ll_context :: "nat \<Rightarrow> context_params \<Rightarrow> (nat \<times> nat) option"
  ll_n_ctx_train :: "nat \<Rightarrow> int"
  ll_n_layer :: "nat \<Rightarrow> int"
  ll_n_tokens :: "nat \<Rightarrow> int"
  ll_size :: "nat \<Rightarrow> nat"
  ll_n_embd :: "nat \<Rightarrow> int"
  ll_template :: "nat \<Rightarrow> string option"
  ll_bos :: "nat \<Rightarrow> int option"
  ll_eos :: "nat \<Rightarrow> int option"
  ll_meta :: "nat \<Rightarrow> string \<Rightarrow> string option"
  ll_tokens :: "nat \<Rightarrow> string \<Rightarrow> int list"
  ll_piece :: "nat \<Rightarrow> bool \<Rightarrow> int \<Rightarrow> string"
  ll_eog :: "nat \<Rightarrow> int \<Rightarrow> bool"
  ll_grammar :: "nat \<Rightarrow> string \<Rightarrow> bool"
  ll_embeddings :: "nat \<Rightarrow> bool"

text \<open>\<open>llama_token_to_piece\<close> returns minus the length when the buffer is too small, \<open>llama_tokenize\<close> minus the number
  of tokens, and \<open>llama_model_meta_val_str\<close> truncates to the buffer.\<close>

definition piece_into :: "llama_lib \<Rightarrow> nat \<Rightarrow> bool \<Rightarrow> nat \<Rightarrow> int \<Rightarrow> int \<times> string" where
  "piece_into L h special cap tok =
     (let p = ll_piece L h special tok
      in if length p \<le> cap then (int (length p), p) else (- int (length p), []))"

definition tokens_into :: "llama_lib \<Rightarrow> nat \<Rightarrow> int \<Rightarrow> string \<Rightarrow> int \<times> int list" where
  "tokens_into L h cap text =
     (let ts = ll_tokens L h text
      in if int (length ts) \<le> cap then (int (length ts), ts) else (- int (length ts), []))"

definition meta_into :: "llama_lib \<Rightarrow> nat \<Rightarrow> nat \<Rightarrow> string \<Rightarrow> string" where
  "meta_into L h cap key = (case ll_meta L h key of None \<Rightarrow> [] | Some v \<Rightarrow> take (cap - 1) (c_str v))"

section \<open>Models\<close>

text \<open>What llama.cpp keeps across calls: the number of loads, the models not yet freed and the static buffer of
  the tensor split.\<close>

record llama_state =
  ls_loads :: nat
  ls_live :: "nat list"
  ls_split :: "fvalue list"

definition llama_start :: llama_state where
  "llama_start = \<lparr>ls_loads = 0, ls_live = [], ls_split = replicate 128 (Finite 0)\<rparr>"

definition free_model :: "nat option \<Rightarrow> llama_state \<Rightarrow> llama_state" where
  "free_model h W = (case h of None \<Rightarrow> W | Some n \<Rightarrow> W\<lparr>ls_live := removeAll n (ls_live W)\<rparr>)"

definition split_buffer :: "float_lib \<Rightarrow> real list \<Rightarrow> fvalue list \<Rightarrow> fvalue list" where
  "split_buffer F ts buf =
     (let n = min (length ts) 128;
          vs = map Finite (take n ts);
          sum = foldl (fadd F) (Finite 0) vs
      in (if fless (Finite 0) sum then map (\<lambda>x. fdiv F x sum) vs else vs) @ drop n buf)"

definition model_params_of :: "inference_config \<Rightarrow> hardware_config \<Rightarrow> fvalue list option \<Rightarrow> model_params" where
  "model_params_of cfg hw split =
     \<lparr>mp_gpu_layers = (if of_gpu_layers (hw_offload hw) < 0 then 999 else of_gpu_layers (hw_offload hw)),
      mp_main_gpu = gd_device_id (hw_gpu hw), mp_mmap = inf_mmap cfg, mp_mlock = inf_mlock cfg, mp_split = split\<rparr>"

text \<open>\<open>GgmlModel::load\<close> on an object that holds \<open>h\<close>: the error code, the handle it then holds, and the state.  The
  check of the VRAM budget after a load only logs.\<close>

definition load_file ::
  "float_lib \<Rightarrow> llama_lib \<Rightarrow> inference_config \<Rightarrow> hardware_config \<Rightarrow> string \<Rightarrow> nat option \<Rightarrow> llama_state \<Rightarrow>
   error_code \<times> nat option \<times> llama_state" where
  "load_file F L cfg hw path h W =
     (if path = [] then (InvalidArgument, h, W)
      else
        let W1 = free_model h W;
            ts = ci_tensor_split (inf_cuda cfg);
            W2 = (if ts = [] then W1 else W1\<lparr>ls_split := split_buffer F ts (ls_split W1)\<rparr>);
            mp = model_params_of cfg hw (if ts = [] then None else Some (ls_split W2));
            n = ls_loads W2;
            W3 = W2\<lparr>ls_loads := Suc n\<rparr>
        in if ll_load L n (c_str path) mp then (Ok, Some n, W3\<lparr>ls_live := n # ls_live W3\<rparr>) else (NotFound, None, W3))"

definition model_ctx_train :: "llama_lib \<Rightarrow> nat option \<Rightarrow> int" where
  "model_ctx_train L h = (case h of None \<Rightarrow> 0 | Some n \<Rightarrow> ll_n_ctx_train L n)"

definition model_layers :: "llama_lib \<Rightarrow> nat option \<Rightarrow> int" where
  "model_layers L h = (case h of None \<Rightarrow> 0 | Some n \<Rightarrow> ll_n_layer L n)"

definition model_vocab_size :: "llama_lib \<Rightarrow> nat option \<Rightarrow> int" where
  "model_vocab_size L h = (case h of None \<Rightarrow> 0 | Some n \<Rightarrow> ll_n_tokens L n)"

definition model_template :: "llama_lib \<Rightarrow> nat option \<Rightarrow> string" where
  "model_template L h = (case h of None \<Rightarrow> [] | Some n \<Rightarrow> case ll_template L n of None \<Rightarrow> [] | Some t \<Rightarrow> c_str t)"

definition special_piece :: "llama_lib \<Rightarrow> nat option \<Rightarrow> bool \<Rightarrow> string" where
  "special_piece L h want_bos =
     (case h of
        None \<Rightarrow> []
      | Some n \<Rightarrow>
          (case if want_bos then ll_bos L n else ll_eos L n of
             None \<Rightarrow> []
           | Some tok \<Rightarrow> case piece_into L n True 64 tok of (len, p) \<Rightarrow> if len \<le> 0 then [] else p))"

definition layer_size_estimate :: "llama_lib \<Rightarrow> nat option \<Rightarrow> int" where
  "layer_size_estimate L h =
     (case h of
        None \<Rightarrow> 0
      | Some n \<Rightarrow> if ll_n_layer L n \<le> 0 then 0 else tdiv (cast_s64 (int (ll_size L n))) (ll_n_layer L n))"

section \<open>Contexts\<close>

datatype ggml_stage = Grammar_Stage string | Standard sampler_stage

record ggml_sampler =
  gs_chain :: "ggml_stage list"
  gs_accepted :: "int list"

record ggml_context =
  gc_model :: nat
  gc_n_ctx :: nat
  gc_n_batch :: nat
  gc_sampler :: ggml_sampler

definition kv_type_from_string :: "string \<Rightarrow> ggml_type" where
  "kv_type_from_string s =
     (if s = ''q8_0'' then Type_Q8_0 else if s = ''q4_0'' then Type_Q4_0 else if s = ''q4_1'' then Type_Q4_1 else Type_F16)"

text \<open>A quantised cache falls back to F16 when there is no device.\<close>

definition kv_type_of :: "gpu_driver option \<Rightarrow> string \<Rightarrow> ggml_type" where
  "kv_type_of D s = (if device_count D = 0 then Type_F16 else kv_type_from_string s)"

definition thread_count :: "int \<Rightarrow> int \<Rightarrow> int" where
  "thread_count hw configured =
     (if 0 < configured then configured else if 0 < hw then hw else 4)"

definition context_params_of :: "gpu_driver option \<Rightarrow> int \<Rightarrow> inference_config \<Rightarrow> context_params" where
  "context_params_of D hw_threads cfg =
     \<lparr>cp_n_ctx = cast_u32 (inf_context_size cfg), cp_n_batch = cast_u32 (inf_batch_size cfg),
      cp_n_ubatch = cast_u32 (inf_ubatch_size cfg),
      cp_seqs = (if bt_enabled (inf_batching cfg) \<and> 1 < bt_max_seqs (inf_batching cfg)
                 then Some (cast_u32 (bt_max_seqs (inf_batching cfg)), bt_kv_unified (inf_batching cfg)) else None),
      cp_threads = thread_count hw_threads (inf_threads cfg), cp_flash = inf_flash_attention cfg,
      cp_type_k = kv_type_of D (kc_type_k (inf_kv_cache cfg)), cp_type_v = kv_type_of D (kc_type_v (inf_kv_cache cfg))\<rparr>"

text \<open>The clock gives the seed when none is configured.\<close>

definition standard_samplers :: "sampling_config \<Rightarrow> int \<Rightarrow> ggml_stage list" where
  "standard_samplers smp clock = map Standard
     [TopK (smp_top_k smp), TopP (smp_top_p smp), MinP (smp_min_p smp), Temp (smp_temperature smp),
      Penalties 64 (smp_repeat_penalty smp) (smp_frequency_penalty smp) (smp_presence_penalty smp),
      Dist (cast_u32 (if smp_seed smp < 0 then clock else smp_seed smp))]"

definition build_sampler :: "sampling_config \<Rightarrow> int \<Rightarrow> ggml_sampler" where
  "build_sampler smp clock = \<lparr>gs_chain = standard_samplers smp clock, gs_accepted = []\<rparr>"

definition make_grammar_sampler ::
  "llama_lib \<Rightarrow> sampling_config \<Rightarrow> int \<Rightarrow> nat option \<Rightarrow> string \<Rightarrow> ggml_sampler option" where
  "make_grammar_sampler L smp clock h grammar =
     (if grammar = [] then None
      else case h of
        None \<Rightarrow> None
      | Some n \<Rightarrow>
          if ll_grammar L n (c_str grammar)
          then Some \<lparr>gs_chain = Grammar_Stage (c_str grammar) # standard_samplers smp clock, gs_accepted = []\<rparr>
          else None)"

definition context_init ::
  "llama_lib \<Rightarrow> gpu_driver option \<Rightarrow> int \<Rightarrow> int \<Rightarrow> inference_config \<Rightarrow> sampling_config \<Rightarrow> nat option \<Rightarrow> ggml_context option" where
  "context_init L D hw_threads clock cfg smp h =
     (case h of
        None \<Rightarrow> None
      | Some n \<Rightarrow>
          (case ll_context L n (context_params_of D hw_threads cfg) of
             None \<Rightarrow> None
           | Some (n_ctx, n_batch) \<Rightarrow>
               Some \<lparr>gc_model = n, gc_n_ctx = n_ctx, gc_n_batch = n_batch, gc_sampler = build_sampler smp clock\<rparr>))"

section \<open>Facts\<close>

lemma length_split_buffer: "length buf = 128 \<Longrightarrow> length (split_buffer F ts buf) = 128"
  by (simp add: split_buffer_def Let_def)

text \<open>Only the weights of the configured devices are written: the rest of the buffer keeps what an earlier load
  put there.\<close>

lemma split_keeps_tail: "min (length ts) 128 \<le> i \<Longrightarrow> i < length buf \<Longrightarrow> split_buffer F ts buf ! i = buf ! i"
  by (auto simp: split_buffer_def Let_def nth_append)

lemma quantised_needs_device: "device_count D = 0 \<Longrightarrow> cp_type_k (context_params_of D t cfg) = Type_F16"
  by (simp add: context_params_of_def kv_type_of_def)

end
