(* ===== verification/Ggml_Engine.thy ===== *)
theory Ggml_Engine
  imports Ggml_Model Multi_Gpu
begin

text \<open>
  \<open>src/inference/backends/cpu/ggml_engine.cpp\<close>: the engine over llama.cpp.  The memory of the context, what
  decoding answers and what sampling gives are functions of the calls made so far, recorded in a trace.  The
  callback of a request is recorded, not run; clock readings that are only logged are left out, and the one for a
  random seed is taken whether it is needed or not.
\<close>

section \<open>State\<close>

datatype ctx_call = Clear_Memory | Fed "int list"

record ggml_env =
  gv_float :: float_lib
  gv_lib :: llama_lib
  gv_gpu :: "gpu_driver option"
  gv_hw_threads :: int
  gv_decode :: "ctx_call list \<Rightarrow> int list \<Rightarrow> bool"
  gv_sample :: "ctx_call list \<Rightarrow> ggml_sampler \<Rightarrow> int"
  gv_clock :: "nat \<Rightarrow> int"
  gv_fl :: "real \<Rightarrow> real"
  gv_sched :: llama_env

record ggml_world =
  gw_llama :: llama_state
  gw_trace :: "ctx_call list"
  gw_streamed :: "(int \<times> string) list"
  gw_reads :: nat
  gw_retired :: "scheduler list"

text \<open>The model object, when there is one, holds the handle of a loaded model or none.\<close>

record ggml_engine =
  ge_inf :: inference_config
  ge_hw :: hardware_config
  ge_smp :: sampling_config
  ge_model :: "nat option option"
  ge_ctx :: "ggml_context option"
  ge_sched :: "scheduler option"

definition new_ggml_engine :: "inference_config \<Rightarrow> hardware_config \<Rightarrow> sampling_config \<Rightarrow> ggml_engine" where
  "new_ggml_engine cfg hw smp = \<lparr>ge_inf = cfg, ge_hw = hw, ge_smp = smp, ge_model = None, ge_ctx = None, ge_sched = None\<rparr>"

definition engine_handle :: "ggml_engine \<Rightarrow> nat option" where
  "engine_handle g = (case ge_model g of None \<Rightarrow> None | Some h \<Rightarrow> h)"

definition ggml_loaded :: "ggml_engine \<Rightarrow> bool" where
  "ggml_loaded g \<longleftrightarrow> engine_handle g \<noteq> None"

definition read_clock :: "ggml_env \<Rightarrow> ggml_world \<Rightarrow> int \<times> ggml_world" where
  "read_clock E W = (gv_clock E (gw_reads W), W\<lparr>gw_reads := Suc (gw_reads W)\<rparr>)"

section \<open>Loading\<close>

text \<open>Destroying a scheduler drains it.\<close>

definition retire :: "ggml_env \<Rightarrow> scheduler option \<Rightarrow> ggml_world \<Rightarrow> ggml_world" where
  "retire E s W = (case s of None \<Rightarrow> W | Some st \<Rightarrow> W\<lparr>gw_retired := gw_retired W @ [drain (gv_sched E) st]\<rparr>)"

definition start_scheduler :: "ggml_env \<Rightarrow> ggml_engine \<Rightarrow> ggml_world \<Rightarrow> ggml_engine \<times> ggml_world" where
  "start_scheduler E g W =
     (if bt_enabled (inf_batching (ge_inf g))
      then (g\<lparr>ge_sched := Some (new_scheduler (nat (max 1 (bt_max_seqs (inf_batching (ge_inf g))))))\<rparr>, retire E (ge_sched g) W)
      else (g, W))"

text \<open>The old model is freed when the pointer is assigned, before the context and the scheduler that use it.\<close>

definition ggml_load_model :: "ggml_env \<Rightarrow> string \<Rightarrow> ggml_engine \<Rightarrow> ggml_world \<Rightarrow> error_code \<times> ggml_engine \<times> ggml_world" where
  "ggml_load_model E path g W =
     (case load_file (gv_float E) (gv_lib E) (ge_inf g) (ge_hw g) path None (free_model (engine_handle g) (gw_llama W)) of
        (ec, h, ls) \<Rightarrow>
          let W1 = W\<lparr>gw_llama := ls\<rparr>
          in if ec \<noteq> Ok then (ec, g\<lparr>ge_model := None\<rparr>, W1)
             else case read_clock E W1 of (t, W2) \<Rightarrow>
               (case context_init (gv_lib E) (gv_gpu E) (gv_hw_threads E) t (ge_inf g) (ge_smp g) h of
                  None \<Rightarrow> (InternalError, g\<lparr>ge_model := None, ge_ctx := None\<rparr>, W2\<lparr>gw_llama := free_model h ls\<rparr>)
                | Some c \<Rightarrow>
                    (case start_scheduler E (g\<lparr>ge_model := Some h, ge_ctx := Some c\<rparr>) W2 of (g', W3) \<Rightarrow> (Ok, g', W3))))"

definition ggml_unload_model :: "ggml_env \<Rightarrow> ggml_engine \<Rightarrow> ggml_world \<Rightarrow> ggml_engine \<times> ggml_world" where
  "ggml_unload_model E g W =
     (let W1 = retire E (ge_sched g) W
      in (g\<lparr>ge_model := None, ge_ctx := None, ge_sched := None\<rparr>, W1\<lparr>gw_llama := free_model (engine_handle g) (gw_llama W1)\<rparr>))"

section \<open>Queries\<close>

record model_info =
  mi_model_id :: string
  mi_architecture :: string
  mi_context_length :: int
  mi_vocab_size :: int
  mi_n_layers :: int
  mi_n_heads :: int
  mi_head_dim :: int
  mi_dtype :: data_type
  mi_chat_template :: string
  mi_bos :: string
  mi_eos :: string

definition no_model_info :: model_info where
  "no_model_info = \<lparr>mi_model_id = [], mi_architecture = [], mi_context_length = 0, mi_vocab_size = 0, mi_n_layers = 0,
     mi_n_heads = 0, mi_head_dim = 0, mi_dtype = DT_F32, mi_chat_template = [], mi_bos = [], mi_eos = []\<rparr>"

definition ggml_model_info :: "llama_lib \<Rightarrow> ggml_engine \<Rightarrow> model_info" where
  "ggml_model_info L g =
     (case engine_handle g of
        None \<Rightarrow> no_model_info
      | Some n \<Rightarrow>
          let arch = meta_into L n 128 ''general.architecture''; arch' = (if arch = [] then ''unknown'' else arch);
              name = meta_into L n 256 ''general.name''
          in \<lparr>mi_model_id = (if name = [] then arch' else name), mi_architecture = arch',
              mi_context_length = model_ctx_train L (Some n), mi_vocab_size = model_vocab_size L (Some n),
              mi_n_layers = model_layers L (Some n), mi_n_heads = 0, mi_head_dim = 0, mi_dtype = DT_F16,
              mi_chat_template = model_template L (Some n), mi_bos = special_piece L (Some n) True,
              mi_eos = special_piece L (Some n) False\<rparr>)"

definition ggml_token_budget :: "ggml_engine \<Rightarrow> int" where
  "ggml_token_budget g = (case ge_ctx g of None \<Rightarrow> 0 | Some c \<Rightarrow> int (gc_n_ctx c))"

definition ggml_tokenize :: "llama_lib \<Rightarrow> ggml_engine \<Rightarrow> string \<Rightarrow> int list" where
  "ggml_tokenize L g text =
     (case engine_handle g of
        None \<Rightarrow> []
      | Some h \<Rightarrow>
          (case tokens_into L h (int (length text) + 16) text of (n, ts) \<Rightarrow>
             if 0 \<le> n then ts
             else case tokens_into L h (- n) text of (m, ts') \<Rightarrow> if m < 0 then [] else ts'))"

definition ggml_detokenize :: "llama_lib \<Rightarrow> ggml_engine \<Rightarrow> int list \<Rightarrow> string" where
  "ggml_detokenize L g tokens =
     (case engine_handle g of
        None \<Rightarrow> []
      | Some h \<Rightarrow> concat (map (\<lambda>t. case piece_into L h False 256 t of (len, p) \<Rightarrow> if 0 < len then p else []) tokens))"

definition ggml_gpu_stats :: "ggml_env \<Rightarrow> ggml_engine \<Rightarrow> gpu_stats" where
  "ggml_gpu_stats E g =
     (if device_count (gv_gpu E) = 0 then no_gpu_stats
      else
        let dev = gd_device_id (hw_gpu (ge_hw g)); layers = of_gpu_layers (hw_offload (ge_hw g));
            n = model_layers (gv_lib E) (engine_handle g); info = query_device (gv_gpu E) dev
        in \<lparr>gs_device_id = dev, gs_device_name = gi_name info, gs_vram_total = gi_total info, gs_vram_free = gi_free info,
            gs_layers = (if \<not> ggml_loaded g then 0 else if layers < 0 then n else min layers n)\<rparr>)"

text \<open>The access for plugins: the pooled embedding of the last pass with the size it claims, and nothing else.\<close>

definition ggml_hidden_states :: "llama_lib \<Rightarrow> ggml_engine \<Rightarrow> int \<Rightarrow> (nat \<times> int) option" where
  "ggml_hidden_states L g layer =
     (case (engine_handle g, ge_ctx g) of
        (Some h, Some c) \<Rightarrow>
          if ll_embeddings L (gc_model c) then Some (gc_model c, ll_n_embd L (gc_model c) * cast_s32 (int (gc_n_ctx c)) * 4) else None
      | _ \<Rightarrow> None)"

definition ggml_attention_weights :: "int \<Rightarrow> nat option \<times> int" where
  "ggml_attention_weights layer = (None, 0)"

definition ggml_kv_cache_tensor :: "int \<Rightarrow> int \<Rightarrow> nat option \<times> int list" where
  "ggml_kv_cache_tensor layer kind = (None, [0, 0, 0, 0])"

end
