(* ===== verification/Ggml_Generate.thy ===== *)
theory Ggml_Generate
  imports Ggml_Engine "HOL-Library.Sublist"
begin

text \<open>
  \<open>GgmlEngine::generate\<close>: through the scheduler when there is one, otherwise prefill in chunks and one token at a
  time.  The prefill is a partial function: with a batch size of 0 it only ends when a decode fails.
\<close>

section \<open>Prefill\<close>

definition feed :: "int list \<Rightarrow> ggml_world \<Rightarrow> ggml_world" where
  "feed ts W = W\<lparr>gw_trace := gw_trace W @ [Fed ts]\<rparr>"

definition prompt_chunk :: "int list \<Rightarrow> int \<Rightarrow> int \<Rightarrow> int list" where
  "prompt_chunk toks n_batch off = take (nat (min n_batch (cast_s32 (int (length toks)) - off))) (drop (nat off) toks)"

text \<open>A batch of negative size is outside the documented use of \<open>llama_decode\<close>.\<close>

partial_function (option) ggml_prefill ::
  "ggml_env \<Rightarrow> int list \<Rightarrow> int \<Rightarrow> int \<Rightarrow> ggml_world \<Rightarrow> (bool \<times> ggml_world) exec option" where
  "ggml_prefill E toks n_batch off W =
     (if cast_s32 (int (length toks)) \<le> off then Some (Inr (True, W))
      else if n_batch < 0 then Some (Inl OutOfRange)
      else let chunk = prompt_chunk toks n_batch off; W' = feed chunk W
           in if \<not> gv_decode E (gw_trace W) chunk then Some (Inr (False, W'))
              else case s32 (off + n_batch) of
                     Inl u \<Rightarrow> Some (Inl u)
                   | Inr off' \<Rightarrow> ggml_prefill E toks n_batch off' W')"

section \<open>Decode\<close>

definition ends_in :: "string \<Rightarrow> string list \<Rightarrow> bool" where
  "ends_in text stops \<longleftrightarrow>
     list_ex (\<lambda>s. s \<noteq> [] \<and> length s \<le> length text \<and> drop (length text - length s) text = s) stops"

record ggml_run =
  gr_sampler :: ggml_sampler
  gr_text :: string
  gr_tokens :: "int list"
  gr_failed :: bool
  gr_world :: ggml_world

definition ggml_piece :: "ggml_env \<Rightarrow> nat \<Rightarrow> int \<Rightarrow> string" where
  "ggml_piece E h tok = (case piece_into (gv_lib E) h False 256 tok of (len, p) \<Rightarrow> if 0 < len then p else [])"

definition sample_token :: "ggml_env \<Rightarrow> ggml_run \<Rightarrow> int \<times> ggml_run" where
  "sample_token E R =
     (let tok = gv_sample E (gw_trace (gr_world R)) (gr_sampler R)
      in (tok, R\<lparr>gr_sampler := (gr_sampler R)\<lparr>gs_accepted := gs_accepted (gr_sampler R) @ [tok]\<rparr>\<rparr>))"

definition emit_token :: "generate_request \<Rightarrow> int \<Rightarrow> string \<Rightarrow> ggml_run \<Rightarrow> ggml_run" where
  "emit_token req tok piece R = R\<lparr>gr_text := gr_text R @ piece, gr_tokens := gr_tokens R @ [tok],
     gr_world := (gr_world R)\<lparr>gw_streamed := gw_streamed (gr_world R) @ (if g_on_token req then [(tok, piece)] else [])\<rparr>\<rparr>"

definition stop_now :: "sampling_config \<Rightarrow> generate_request \<Rightarrow> int \<Rightarrow> string \<Rightarrow> bool" where
  "stop_now smp req tok text \<longleftrightarrow> tok \<in> set (g_stop_tokens req) \<or> ends_in text (smp_stop smp) \<or> ends_in text (g_stop req)"

text \<open>One turn of the loop, and whether it goes on.\<close>

definition generate_turn ::
  "ggml_env \<Rightarrow> nat \<Rightarrow> sampling_config \<Rightarrow> generate_request \<Rightarrow> ggml_run \<Rightarrow> bool \<times> ggml_run" where
  "generate_turn E h smp req R =
     (case sample_token E R of (tok, R1) \<Rightarrow>
        if ll_eog (gv_lib E) h tok then (False, R1)
        else
          let R2 = emit_token req tok (ggml_piece E h tok) R1
          in if stop_now smp req tok (gr_text R2) then (False, R2)
             else
               let R3 = R2\<lparr>gr_world := feed [tok] (gr_world R2)\<rparr>
               in if gv_decode E (gw_trace (gr_world R2)) [tok] then (True, R3) else (False, R3\<lparr>gr_failed := True\<rparr>))"

lemma turn_tokens: "generate_turn E h smp req R = (True, R') \<Longrightarrow> length (gr_tokens R') = Suc (length (gr_tokens R))"
  by (auto simp: generate_turn_def sample_token_def emit_token_def Let_def split: prod.splits if_splits)

function generate_loop ::
  "ggml_env \<Rightarrow> nat \<Rightarrow> sampling_config \<Rightarrow> generate_request \<Rightarrow> int \<Rightarrow> ggml_run \<Rightarrow> ggml_run" where
  "generate_loop E h smp req max_new R =
     (if max_new \<le> int (length (gr_tokens R)) then R
      else case generate_turn E h smp req R of
             (True, R') \<Rightarrow> generate_loop E h smp req max_new R'
           | (False, R') \<Rightarrow> R')"
  by pat_completeness auto
termination
  by (relation "measure (\<lambda>(E, h, smp, req, max_new, R). nat max_new - length (gr_tokens R))")
     (auto dest!: turn_tokens [OF sym])

declare generate_loop.simps [simp del]

section \<open>A request\<close>

datatype ggml_outcome = Waiting nat | Thrown | Done generate_result

definition empty_ggml_result :: generate_result where
  "empty_ggml_result = \<lparr>r_tokens = [], r_text = [], r_prompt_tokens = Some 0, r_generated_tokens = Some 0, r_time_ms = Some 0,
     r_error = Ok, r_error_message = [], r_finish_reason = ''stop''\<rparr>"

definition failed_result :: "error_code \<Rightarrow> string \<Rightarrow> generate_result" where
  "failed_result ec msg = empty_ggml_result\<lparr>r_error := ec, r_error_message := msg\<rparr>"

definition generate_limit :: "sampling_config \<Rightarrow> generate_request \<Rightarrow> int" where
  "generate_limit smp req = (if 0 < g_max_tokens req then g_max_tokens req else smp_max_tokens smp)"

definition finish_result :: "ggml_env \<Rightarrow> generate_request \<Rightarrow> int \<Rightarrow> int \<Rightarrow> int \<Rightarrow> ggml_run \<Rightarrow> generate_result" where
  "finish_result E req max_new t_start t_end R =
     (let n = length (gr_tokens R)
      in \<lparr>r_tokens = gr_tokens R, r_text = gr_text R, r_prompt_tokens = Some (cast_s32 (int (length (g_tokens req)))),
          r_generated_tokens = Some (int n), r_time_ms = Some (gv_fl E (of_int (tdiv (t_end - t_start) 1000000))),
          r_error = (if gr_failed R then InternalError else Ok),
          r_error_message = (if gr_failed R then ''llama_decode (decode step) failed'' else []),
          r_finish_reason = (if gr_failed R then ''error'' else if max_new \<le> int n then ''length'' else ''stop'')\<rparr>)"

text \<open>The sampler of the request: its own with a grammar that parses, otherwise the one of the context.\<close>

definition request_sampler ::
  "ggml_env \<Rightarrow> ggml_engine \<Rightarrow> ggml_context \<Rightarrow> generate_request \<Rightarrow> ggml_world \<Rightarrow> ggml_sampler option \<times> ggml_world" where
  "request_sampler E g c req W =
     (if g_grammar req = [] then (None, W)
      else case read_clock E W of (t, W') \<Rightarrow>
        (make_grammar_sampler (gv_lib E) (ge_smp g) t (engine_handle g) (g_grammar req), W'))"

text \<open>A negative limit makes \<open>reserve\<close> throw.\<close>

definition run_request ::
  "ggml_env \<Rightarrow> nat \<Rightarrow> ggml_context \<Rightarrow> generate_request \<Rightarrow> ggml_engine \<Rightarrow> ggml_world \<Rightarrow>
   (ggml_outcome \<times> ggml_engine \<times> ggml_world) exec option" where
  "run_request E h c req g W0 =
     (let W1 = W0\<lparr>gw_trace := gw_trace W0 @ [Clear_Memory]\<rparr>
      in case request_sampler E g c req W1 of (own, W2) \<Rightarrow>
         case read_clock E W2 of (t_start, W3) \<Rightarrow>
         case ggml_prefill E (g_tokens req) (cast_s32 (int (gc_n_batch c))) 0 W3 of
           None \<Rightarrow> None
         | Some (Inl u) \<Rightarrow> Some (Inl u)
         | Some (Inr (False, W4)) \<Rightarrow> Some (Inr (Done (failed_result InternalError ''llama_decode (prefill) failed''), g, W4))
         | Some (Inr (True, W4)) \<Rightarrow>
             let max_new = generate_limit (ge_smp g) req
             in if max_new < 0 then Some (Inr (Thrown, g, W4))
                else
                  let smp = (case own of None \<Rightarrow> gc_sampler c | Some s \<Rightarrow> s);
                      R = generate_loop E h (ge_smp g) req max_new
                        \<lparr>gr_sampler = smp, gr_text = [], gr_tokens = [], gr_failed = False, gr_world = W4\<rparr>;
                      g' = (if own = None then g\<lparr>ge_ctx := Some (c\<lparr>gc_sampler := gr_sampler R\<rparr>)\<rparr> else g)
                  in case read_clock E (gr_world R) of (t_end, W5) \<Rightarrow>
                       Some (Inr (Done (finish_result E req max_new t_start t_end R), g', W5)))"

definition ggml_generate ::
  "ggml_env \<Rightarrow> nat \<Rightarrow> generate_request \<Rightarrow> ggml_engine \<Rightarrow> ggml_world \<Rightarrow> (ggml_outcome \<times> ggml_engine \<times> ggml_world) exec option" where
  "ggml_generate E p req g W =
     (if g_tokens req = [] then Some (Inr (Done (failed_result InvalidArgument ''Empty token list''), g, W))
      else case engine_handle g of
        None \<Rightarrow> Some (Inr (Done (failed_result NotFound ''No model loaded''), g, W))
      | Some h \<Rightarrow>
          (case ge_sched g of
             Some st \<Rightarrow> Some (Inr (Waiting p, g\<lparr>ge_sched := Some (submit (gv_sched E) req p st)\<rparr>, W))
           | None \<Rightarrow>
               (case ge_ctx g of
                  None \<Rightarrow> Some (Inl NullDeref)
                | Some c \<Rightarrow> run_request E h c req g W)))"

section \<open>The prefill feeds the prompt\<close>

lemma prefill_feeds:
  assumes "0 < n_batch" and "0 \<le> off" and "int (length toks) + n_batch < 2147483648"
  shows "\<exists>ok cs. ggml_prefill E toks n_batch off W = Some (Inr (ok, W\<lparr>gw_trace := gw_trace W @ map Fed cs\<rparr>)) \<and>
    (\<forall>c \<in> set cs. c \<noteq> [] \<and> int (length c) \<le> n_batch) \<and> prefix (concat cs) (drop (nat off) toks) \<and>
    (ok \<longrightarrow> concat cs = drop (nat off) toks)"
  using assms(2)
proof (induction "length toks - nat off" arbitrary: off W rule: less_induct)
  case less
  have n: "cast_s32 (int (length toks)) = int (length toks)"
    using assms(1,3) by (intro cast_s32_id) (simp add: in_s32_def)
  show ?case
  proof (cases "int (length toks) \<le> off")
    case True
    then show ?thesis by (intro exI [of _ True] exI [of _ "[]"]) (simp add: ggml_prefill.simps n)
  next
    case False
    let ?c = "prompt_chunk toks n_batch off"
    have c: "?c = take (nat n_batch) (drop (nat off) toks)"
      using less.prems False assms(1) by (auto simp: prompt_chunk_def n min_def)
    have ne: "?c \<noteq> []" and le: "int (length ?c) \<le> n_batch"
      using less.prems False assms(1) by (auto simp: c)
    show ?thesis
    proof (cases "gv_decode E (gw_trace W) ?c")
      case False
      with \<open>\<not> int (length toks) \<le> off\<close> ne le assms(1) show ?thesis
        by (intro exI [of _ False] exI [of _ "[?c]"]) (simp add: ggml_prefill.simps [of E toks n_batch off W] n Let_def feed_def c take_is_prefix)
    next
      case True
      have s: "s32 (off + n_batch) = Inr (off + n_batch)"
        using less.prems False assms by (simp add: s32_def in_s32_def)
      obtain ok cs where ih: "ggml_prefill E toks n_batch (off + n_batch) (feed ?c W) =
          Some (Inr (ok, (feed ?c W)\<lparr>gw_trace := gw_trace (feed ?c W) @ map Fed cs\<rparr>))"
        "\<forall>c \<in> set cs. c \<noteq> [] \<and> int (length c) \<le> n_batch" "prefix (concat cs) (drop (nat (off + n_batch)) toks)"
        "ok \<longrightarrow> concat cs = drop (nat (off + n_batch)) toks"
        using less.hyps [of "off + n_batch" "feed ?c W"] less.prems False assms(1) by fastforce
      have d: "drop (nat off) toks = ?c @ drop (nat (off + n_batch)) toks"
        using less.prems assms(1) by (simp add: c nat_add_distrib add.commute flip: drop_drop)
      show ?thesis
        using False ih ne le True assms(1) s
        by (intro exI [of _ ok] exI [of _ "?c # cs"])
           (simp add: ggml_prefill.simps [of E toks n_batch off W] n Let_def feed_def d)
    qed
  qed
qed

section \<open>What the loop adds\<close>

text \<open>
  From one state of the loop to a later one: the tokens that were added, the text and the stream they gave, the
  tokens fed back, and what the sampler accepted beside them.
\<close>

definition adds :: "ggml_env \<Rightarrow> nat \<Rightarrow> generate_request \<Rightarrow> ggml_run \<Rightarrow> int list \<Rightarrow> int list \<Rightarrow> int list \<Rightarrow> ggml_run \<Rightarrow> bool" where
  "adds E h req R new fed rejected R' \<longleftrightarrow>
     gr_tokens R' = gr_tokens R @ new \<and> gr_text R' = gr_text R @ concat (map (ggml_piece E h) new) \<and>
     (\<forall>t \<in> set new. \<not> ll_eog (gv_lib E) h t) \<and> (\<forall>t \<in> set rejected. ll_eog (gv_lib E) h t) \<and> length rejected \<le> 1 \<and>
     gs_chain (gr_sampler R') = gs_chain (gr_sampler R) \<and>
     gs_accepted (gr_sampler R') = gs_accepted (gr_sampler R) @ new @ rejected \<and>
     gr_world R' = (gr_world R)\<lparr>gw_trace := gw_trace (gr_world R) @ map (\<lambda>t. Fed [t]) fed,
       gw_streamed := gw_streamed (gr_world R) @ (if g_on_token req then map (\<lambda>t. (t, ggml_piece E h t)) new else [])\<rparr>"

lemma adds_none: "adds E h req R [] [] [] R"
  by (simp add: adds_def)

lemma adds_trans: "adds E h req R a b [] R' \<Longrightarrow> adds E h req R' c d e R'' \<Longrightarrow> adds E h req R (a @ c) (b @ d) e R''"
  by (auto simp: adds_def)

lemma turn_goes_on:
  assumes "generate_turn E h smp req R = (True, R')"
  shows "(\<exists>t. adds E h req R [t] [t] [] R') \<and> (gr_failed R' \<longleftrightarrow> gr_failed R)"
  using assms
  by (auto simp: generate_turn_def sample_token_def emit_token_def feed_def Let_def adds_def split: prod.splits if_splits)

lemma turn_ends:
  assumes "generate_turn E h smp req R = (False, R')" and "\<not> gr_failed R"
  shows "(\<exists>t. ll_eog (gv_lib E) h t \<and> adds E h req R [] [] [t] R' \<and> \<not> gr_failed R') \<or>
    (\<exists>t. stop_now smp req t (gr_text R') \<and> adds E h req R [t] [] [] R' \<and> \<not> gr_failed R') \<or>
    (\<exists>t. adds E h req R [t] [t] [] R' \<and> gr_failed R')"
  using assms
  by (auto simp: generate_turn_def sample_token_def emit_token_def feed_def Let_def adds_def split: prod.splits if_splits)

lemma loop_adds:
  assumes "\<not> gr_failed R" and "int (length (gr_tokens R)) \<le> max_new"
  shows "\<exists>new fed rejected. adds E h req R new fed rejected (generate_loop E h smp req max_new R) \<and>
    int (length (gr_tokens R) + length new) \<le> max_new \<and>
    (fed = new \<or> new \<noteq> [] \<and> fed = butlast new \<and> stop_now smp req (last new) (gr_text (generate_loop E h smp req max_new R))) \<and>
    (rejected = [] \<and> fed = new \<longrightarrow> gr_failed (generate_loop E h smp req max_new R) \<or> int (length (gr_tokens R) + length new) = max_new)"
  using assms
proof (induction E h smp req max_new R rule: generate_loop.induct)
  case (1 E h smp req max_new R)
  let ?L = "generate_loop E h smp req max_new R"
  show ?case
  proof (cases "max_new \<le> int (length (gr_tokens R))")
    case True
    then have "?L = R" by (simp add: generate_loop.simps)
    then show ?thesis using True "1.prems" by (intro exI [of _ "[]"]) (simp add: adds_none)
  next
    case False
    obtain go R' where turn: "generate_turn E h smp req R = (go, R')" by force
    show ?thesis
    proof (cases go)
      case True
      have L: "?L = generate_loop E h smp req max_new R'" using False turn True by (simp add: generate_loop.simps [of E h smp req max_new R])
      obtain t where t: "adds E h req R [t] [t] [] R'" and f: "\<not> gr_failed R'"
        using turn_goes_on [of E h smp req R R'] turn True "1.prems" by auto
      have len: "length (gr_tokens R') = Suc (length (gr_tokens R))" using t by (simp add: adds_def)
      have "int (length (gr_tokens R')) \<le> max_new" using False len by simp
      then obtain new fed rejected where ih: "adds E h req R' new fed rejected ?L" "int (length (gr_tokens R') + length new) \<le> max_new"
        "fed = new \<or> new \<noteq> [] \<and> fed = butlast new \<and> stop_now smp req (last new) (gr_text ?L)"
        "rejected = [] \<and> fed = new \<longrightarrow> gr_failed ?L \<or> int (length (gr_tokens R') + length new) = max_new"
        using "1.IH" [OF False turn [symmetric]] True f unfolding L by blast
      have "adds E h req R ([t] @ new) ([t] @ fed) rejected ?L" by (rule adds_trans [OF t ih(1)])
      then show ?thesis using ih(2-4) len by (intro exI [of _ "t # new"] exI [of _ "t # fed"] exI [of _ rejected]) auto
    next
      case stop: False
      have L: "?L = R'" using False turn stop by (simp add: generate_loop.simps [of E h smp req max_new R])
      have turn': "generate_turn E h smp req R = (False, R')" using turn stop by simp
      consider (eog) t where "adds E h req R [] [] [t] R'" | (stopped) t where "stop_now smp req t (gr_text R')" "adds E h req R [t] [] [] R'"
        | (failed) t where "adds E h req R [t] [t] [] R'" "gr_failed R'"
        using turn_ends [OF turn' "1.prems"(1)] by blast
      then show ?thesis
      proof cases
        case eog
        then show ?thesis unfolding L using "1.prems" by (intro exI [of _ "[]"] exI [of _ "[t]"]) simp
      next
        case stopped
        then show ?thesis unfolding L using False by (intro exI [of _ "[t]"] exI [of _ "[]"]) simp
      next
        case failed
        then show ?thesis unfolding L using False by (intro exI [of _ "[t]"] exI [of _ "[]"]) simp
      qed
    qed
  qed
qed

end
