(* ===== verification/Ggml_Properties.thy ===== *)
theory Ggml_Properties
  imports Ggml_Generate
begin

text \<open>
  What a generation of the llama.cpp engine promises, and what its life cycle does to the handles of llama.cpp.
\<close>

section \<open>Generation\<close>

text \<open>A loaded engine without a scheduler, and a request whose prompt and limit fit.\<close>

definition generate_ready :: "ggml_engine \<Rightarrow> nat \<Rightarrow> ggml_context \<Rightarrow> generate_request \<Rightarrow> bool" where
  "generate_ready g h c req \<longleftrightarrow> ge_sched g = None \<and> engine_handle g = Some h \<and> ge_ctx g = Some c \<and> g_tokens req \<noteq> [] \<and>
     0 < gc_n_batch c \<and> int (length (g_tokens req)) + int (gc_n_batch c) < 2147483648 \<and> 0 \<le> generate_limit (ge_smp g) req"

lemma request_sampler_world:
  "request_sampler E g c req W = (own, W') \<Longrightarrow> gw_trace W' = gw_trace W \<and> gw_streamed W' = gw_streamed W \<and> gw_llama W' = gw_llama W"
  by (auto simp: request_sampler_def read_clock_def split: if_splits prod.splits)

text \<open>The run of a ready request, taken apart once for all theorems.\<close>

lemma ready_run:
  assumes "generate_ready g h c req"
  shows "\<exists>own cs ok W4. fst (request_sampler E g c req (W\<lparr>gw_trace := gw_trace W @ [Clear_Memory]\<rparr>)) = own \<and>
    (\<forall>k \<in> set cs. k \<noteq> [] \<and> length k \<le> gc_n_batch c) \<and> prefix (concat cs) (g_tokens req) \<and>
    gw_trace W4 = gw_trace W @ Clear_Memory # map Fed cs \<and> gw_streamed W4 = gw_streamed W \<and>
    (if ok then concat cs = g_tokens req \<and>
       (let smp = (case own of None \<Rightarrow> gc_sampler c | Some s \<Rightarrow> s);
            R = generate_loop E h (ge_smp g) req (generate_limit (ge_smp g) req)
              \<lparr>gr_sampler = smp, gr_text = [], gr_tokens = [], gr_failed = False, gr_world = W4\<rparr>
        in \<exists>t_start t_end. ggml_generate E p req g W =
          Some (Inr (Done (finish_result E req (generate_limit (ge_smp g) req) t_start t_end R),
            (if own = None then g\<lparr>ge_ctx := Some (c\<lparr>gc_sampler := gr_sampler R\<rparr>)\<rparr> else g), snd (read_clock E (gr_world R)))))
     else ggml_generate E p req g W = Some (Inr (Done (failed_result InternalError ''llama_decode (prefill) failed''), g, W4)))"
proof -
  let ?W1 = "W\<lparr>gw_trace := gw_trace W @ [Clear_Memory]\<rparr>"
  obtain own W2 where rs: "request_sampler E g c req ?W1 = (own, W2)" by force
  obtain t_start W3 where rc: "read_clock E W2 = (t_start, W3)" by force
  have w: "gw_trace W3 = gw_trace W @ [Clear_Memory]" "gw_streamed W3 = gw_streamed W"
    using request_sampler_world [OF rs] rc by (auto simp: read_clock_def)
  have nb: "cast_s32 (int (gc_n_batch c)) = int (gc_n_batch c)"
    using assms by (intro cast_s32_id) (simp add: generate_ready_def in_s32_def)
  have r: "0 < int (gc_n_batch c)" "int (length (g_tokens req)) + int (gc_n_batch c) < 2147483648"
    using assms by (simp_all add: generate_ready_def)
  obtain ok cs where pf: "ggml_prefill E (g_tokens req) (int (gc_n_batch c)) 0 W3 = Some (Inr (ok, W3\<lparr>gw_trace := gw_trace W3 @ map Fed cs\<rparr>))"
    "\<forall>k \<in> set cs. k \<noteq> [] \<and> int (length k) \<le> int (gc_n_batch c)" "prefix (concat cs) (g_tokens req)" "ok \<longrightarrow> concat cs = g_tokens req"
    using prefill_feeds [OF r(1) _ r(2), of 0 E W3] by auto
  let ?W4 = "W3\<lparr>gw_trace := gw_trace W3 @ map Fed cs\<rparr>"
  have gen: "ggml_generate E p req g W = run_request E h c req g W"
    using assms by (simp add: generate_ready_def ggml_generate_def)
  have lim: "\<not> generate_limit (ge_smp g) req < 0" using assms by (simp add: generate_ready_def)
  show ?thesis
    by (rule exI [of _ own], rule exI [of _ cs], rule exI [of _ ok], rule exI [of _ ?W4])
       (use pf w lim in \<open>auto simp: gen run_request_def rs rc nb Let_def split: prod.splits\<close>)
qed


text \<open>The run of a ready request that was answered without an error.\<close>

lemma answered_run:
  assumes "generate_ready g h c req" and "ggml_generate E p req g W = Some (Inr (Done r, g', W'))" and "r_error r = Ok"
  obtains own cs fed rejected and R :: ggml_run where "concat cs = g_tokens req" "\<forall>k \<in> set cs. k \<noteq> [] \<and> length k \<le> gc_n_batch c"
    "gs_accepted (gr_sampler R) = gs_accepted (case own of None \<Rightarrow> gc_sampler c | Some s \<Rightarrow> s) @ r_tokens r @ rejected"
    "gw_trace W' = gw_trace W @ Clear_Memory # map Fed cs @ map (\<lambda>t. Fed [t]) fed"
    "gw_streamed W' = gw_streamed W @ (if g_on_token req then map (\<lambda>t. (t, ggml_piece E h t)) (r_tokens r) else [])"
    "r_text r = concat (map (ggml_piece E h) (r_tokens r))" "\<forall>t \<in> set (r_tokens r). \<not> ll_eog (gv_lib E) h t"
    "int (length (r_tokens r)) \<le> generate_limit (ge_smp g) req" "length rejected \<le> 1"
    "fed = r_tokens r \<or> r_tokens r \<noteq> [] \<and> fed = butlast (r_tokens r) \<and> stop_now (ge_smp g) req (last (r_tokens r)) (r_text r)"
    "rejected = [] \<and> fed = r_tokens r \<longrightarrow> int (length (r_tokens r)) = generate_limit (ge_smp g) req"
    "r_generated_tokens r = Some (int (length (r_tokens r)))" "r_prompt_tokens r = Some (int (length (g_tokens req)))"
    "r_finish_reason r = (if int (length (r_tokens r)) = generate_limit (ge_smp g) req then ''length'' else ''stop'')"
    "g' = (if own = None then g\<lparr>ge_ctx := Some (c\<lparr>gc_sampler := gr_sampler R\<rparr>)\<rparr> else g)"
    "fst (request_sampler E g c req (W\<lparr>gw_trace := gw_trace W @ [Clear_Memory]\<rparr>)) = own"
proof -
  obtain own cs ok W4 where run: "fst (request_sampler E g c req (W\<lparr>gw_trace := gw_trace W @ [Clear_Memory]\<rparr>)) = own"
    "\<forall>k \<in> set cs. k \<noteq> [] \<and> length k \<le> gc_n_batch c"
    "gw_trace W4 = gw_trace W @ Clear_Memory # map Fed cs" "gw_streamed W4 = gw_streamed W"
    and ans: "if ok then concat cs = g_tokens req \<and>
       (let smp = (case own of None \<Rightarrow> gc_sampler c | Some s \<Rightarrow> s);
            R = generate_loop E h (ge_smp g) req (generate_limit (ge_smp g) req)
              \<lparr>gr_sampler = smp, gr_text = [], gr_tokens = [], gr_failed = False, gr_world = W4\<rparr>
        in \<exists>t_start t_end. ggml_generate E p req g W =
          Some (Inr (Done (finish_result E req (generate_limit (ge_smp g) req) t_start t_end R),
            (if own = None then g\<lparr>ge_ctx := Some (c\<lparr>gc_sampler := gr_sampler R\<rparr>)\<rparr> else g), snd (read_clock E (gr_world R)))))
     else ggml_generate E p req g W = Some (Inr (Done (failed_result InternalError ''llama_decode (prefill) failed''), g, W4))"
    using ready_run [OF assms(1), of E W p] by blast
  have ok: ok using ans assms(2,3) by (auto simp: failed_result_def split: if_splits)
  let ?lim = "generate_limit (ge_smp g) req"
  let ?start = "\<lparr>gr_sampler = (case own of None \<Rightarrow> gc_sampler c | Some s \<Rightarrow> s), gr_text = [], gr_tokens = [], gr_failed = False, gr_world = W4\<rparr>"
  let ?R = "generate_loop E h (ge_smp g) req ?lim ?start"
  obtain t_start t_end where r: "r = finish_result E req ?lim t_start t_end ?R"
    and g': "g' = (if own = None then g\<lparr>ge_ctx := Some (c\<lparr>gc_sampler := gr_sampler ?R\<rparr>)\<rparr> else g)"
    and W': "W' = snd (read_clock E (gr_world ?R))" and cs: "concat cs = g_tokens req"
    using ans ok assms(2) by (auto simp: Let_def)
  have fine: "\<not> gr_failed ?R" using r assms(3) by (auto simp: finish_result_def Let_def split: if_splits)
  have "\<not> gr_failed ?start" "int (length (gr_tokens ?start)) \<le> ?lim" using assms(1) by (simp_all add: generate_ready_def)
  from loop_adds [OF this, where E = E and h = h and smp = "ge_smp g" and req = req] fine obtain new fed rejected where
    L: "adds E h req ?start new fed rejected ?R" "int (length new) \<le> ?lim"
      "fed = new \<or> new \<noteq> [] \<and> fed = butlast new \<and> stop_now (ge_smp g) req (last new) (gr_text ?R)"
      "rejected = [] \<and> fed = new \<longrightarrow> int (length new) = ?lim"
    by auto
  have new: "gr_tokens ?R = new" "gr_text ?R = concat (map (ggml_piece E h) new)" using L(1) by (simp_all add: adds_def)
  have rt: "r_tokens r = new" "r_text r = gr_text ?R" using r new by (simp_all add: finish_result_def Let_def)
  have p: "cast_s32 (int (length (g_tokens req))) = int (length (g_tokens req))"
    using assms(1) by (intro cast_s32_id) (simp add: generate_ready_def in_s32_def)
  show thesis
    by (rule that [of cs ?R own rejected fed])
       (use cs run L rt r g' W' fine new p in \<open>simp_all add: adds_def finish_result_def Let_def read_clock_def\<close>)
qed

text \<open>C5: An answer without an error: the memory was cleared, the prompt fed in pieces of at most a batch, then one token
  after the other, each one the model gave; the answer holds those tokens, never an end token, never more than the
  limit, with the text of their pieces, which is also what was streamed.  The last token stays unfed exactly when a
  stop token or string ended the loop; otherwise an end token or the limit did.
\<close>

theorem ggml_answer:
  assumes "generate_ready g h c req" and "ggml_generate E p req g W = Some (Inr (Done r, g', W'))" and "r_error r = Ok"
  shows "(\<exists>cs fed. concat cs = g_tokens req \<and> (\<forall>k \<in> set cs. k \<noteq> [] \<and> length k \<le> gc_n_batch c) \<and>
      gw_trace W' = gw_trace W @ Clear_Memory # map Fed cs @ map (\<lambda>t. Fed [t]) fed \<and>
      (fed = r_tokens r \<or> r_tokens r \<noteq> [] \<and> fed = butlast (r_tokens r) \<and> stop_now (ge_smp g) req (last (r_tokens r)) (r_text r))) \<and>
    r_text r = concat (map (ggml_piece E h) (r_tokens r)) \<and> (\<forall>t \<in> set (r_tokens r). \<not> ll_eog (gv_lib E) h t) \<and>
    gw_streamed W' = gw_streamed W @ (if g_on_token req then map (\<lambda>t. (t, ggml_piece E h t)) (r_tokens r) else []) \<and>
    int (length (r_tokens r)) \<le> generate_limit (ge_smp g) req \<and>
    r_generated_tokens r = Some (int (length (r_tokens r))) \<and> r_prompt_tokens r = Some (int (length (g_tokens req))) \<and>
    r_finish_reason r = (if int (length (r_tokens r)) = generate_limit (ge_smp g) req then ''length'' else ''stop'')"
  by (rule answered_run [OF assms], intro conjI exI; assumption)

text \<open>
  The sampler of the context is never reset: without a grammar it enters a request with the tokens of all the
  requests before, and leaves it with those of this one added, so the penalties of an answer depend on answers to
  others.
\<close>

theorem ggml_sampler_carries:
  assumes "generate_ready g h c req" and "ggml_generate E p req g W = Some (Inr (Done r, g', W'))" and "r_error r = Ok"
    and "g_grammar req = []"
  shows "\<exists>c' rejected. ge_ctx g' = Some c' \<and> length rejected \<le> 1 \<and>
    gs_accepted (gc_sampler c') = gs_accepted (gc_sampler c) @ r_tokens r @ rejected"
proof (rule answered_run [OF assms(1-3)])
  fix own rejected and R :: ggml_run
  assume a: "gs_accepted (gr_sampler R) = gs_accepted (case own of None \<Rightarrow> gc_sampler c | Some s \<Rightarrow> s) @ r_tokens r @ rejected"
    "length rejected \<le> 1" "g' = (if own = None then g\<lparr>ge_ctx := Some (c\<lparr>gc_sampler := gr_sampler R\<rparr>)\<rparr> else g)"
    and o: "fst (request_sampler E g c req (W\<lparr>gw_trace := gw_trace W @ [Clear_Memory]\<rparr>)) = own"
  have "own = None" using o assms(4) by (simp add: request_sampler_def)
  then show ?thesis using a by (intro exI [of _ "c\<lparr>gc_sampler := gr_sampler R\<rparr>"] exI [of _ rejected]) simp
qed

section \<open>Handles\<close>

text \<open>What the engine uses is alive: its context belongs to its model, which has not been freed.\<close>

definition handles_ok :: "ggml_engine \<Rightarrow> ggml_world \<Rightarrow> bool" where
  "handles_ok g W \<longleftrightarrow>
     (\<forall>c. ge_ctx g = Some c \<longrightarrow> engine_handle g = Some (gc_model c)) \<and>
     (\<forall>h. engine_handle g = Some h \<longrightarrow> h \<in> set (ls_live (gw_llama W))) \<and>
     (engine_handle g = None \<longrightarrow> ge_sched g = None) \<and>
     (\<forall>h \<in> set (ls_live (gw_llama W)). h < ls_loads (gw_llama W))"

datatype life_op = Load_Op string | Unload_Op | Generate_Op nat generate_request

inductive life_step :: "ggml_env \<Rightarrow> ggml_engine \<times> ggml_world \<Rightarrow> life_op \<Rightarrow> ggml_engine \<times> ggml_world \<Rightarrow> bool" for E where
  load: "\<not> ggml_loaded g \<Longrightarrow> ggml_load_model E path g W = (ec, g', W') \<Longrightarrow> life_step E (g, W) (Load_Op path) (g', W')"
| unload: "ggml_unload_model E g W = (g', W') \<Longrightarrow> life_step E (g, W) Unload_Op (g', W')"
| generate: "ggml_generate E p req g W = Some (Inr (out, g', W')) \<Longrightarrow> life_step E (g, W) (Generate_Op p req) (g', W')"

inductive life_run :: "ggml_env \<Rightarrow> ggml_engine \<times> ggml_world \<Rightarrow> ggml_engine \<times> ggml_world \<Rightarrow> bool" for E where
  start: "life_run E s s"
| more: "life_run E s t \<Longrightarrow> life_step E t op u \<Longrightarrow> life_run E s u"

lemma load_file_fresh:
  assumes "load_file F L cfg hw path None W = (ec, h, W')" and "\<forall>n \<in> set (ls_live W). n < ls_loads W"
  shows "(\<forall>n \<in> set (ls_live W'). n < ls_loads W') \<and> (ec \<noteq> Ok \<longrightarrow> ls_live W' = ls_live W) \<and>
    (ec = Ok \<longrightarrow> h = Some (ls_loads W) \<and> ls_live W' = ls_loads W # ls_live W)"
  using assms by (auto simp: load_file_def free_model_def Let_def less_SucI split: if_splits)

lemma load_keeps_handles:
  assumes "handles_ok g W" and "\<not> ggml_loaded g" and "ggml_load_model E path g W = (ec, g', W')"
  shows "handles_ok g' W'"
proof -
  obtain e h ls where lf: "load_file (gv_float E) (gv_lib E) (ge_inf g) (ge_hw g) path None (gw_llama W) = (e, h, ls)"
    using prod_cases3 by blast
  have none: "engine_handle g = None" "ge_ctx g = None" "ge_sched g = None"
    using assms(1,2) by (auto simp: handles_ok_def ggml_loaded_def)
  have live: "\<forall>n \<in> set (ls_live (gw_llama W)). n < ls_loads (gw_llama W)" using assms(1) by (simp add: handles_ok_def)
  note f = load_file_fresh [OF lf live]
  show ?thesis
  proof (cases "e = Ok")
    case False
    then show ?thesis using assms(3) lf none f
      by (auto simp: ggml_load_model_def free_model_def Let_def handles_ok_def engine_handle_def)
  next
    case True
    then have h: "h = Some (ls_loads (gw_llama W))" "ls_live ls = ls_loads (gw_llama W) # ls_live (gw_llama W)" using f by simp_all
    then show ?thesis using assms(3) lf none f True
      by (auto simp: ggml_load_model_def free_model_def Let_def handles_ok_def engine_handle_def start_scheduler_def retire_def
          context_init_def read_clock_def split: prod.splits option.splits if_splits)
  qed
qed

lemma unload_keeps_handles:
  assumes "handles_ok g W" and "ggml_unload_model E g W = (g', W')"
  shows "handles_ok g' W'"
  using assms
  by (auto simp: ggml_unload_model_def handles_ok_def engine_handle_def free_model_def retire_def Let_def split: option.splits)

lemma prefill_llama: "ggml_prefill E toks n_batch off W = Some y \<Longrightarrow> \<forall>ok W'. y = Inr (ok, W') \<longrightarrow> gw_llama W' = gw_llama W"
proof (rule ggml_prefill.raw_induct [where P = "\<lambda>E toks n_batch off W y. \<forall>ok W'. y = Inr (ok, W') \<longrightarrow> gw_llama W' = gw_llama W"])
  fix f :: "ggml_env \<Rightarrow> int list \<Rightarrow> int \<Rightarrow> int \<Rightarrow> ggml_world \<Rightarrow> (bool \<times> ggml_world) exec option" and E toks n_batch off W y
  assume ih: "\<And>E toks n_batch off W y. f E toks n_batch off W = Some y \<Longrightarrow> \<forall>ok W'. y = Inr (ok, W') \<longrightarrow> gw_llama W' = gw_llama W"
    and y: "(if cast_s32 (int (length toks)) \<le> off then Some (Inr (True, W))
      else if n_batch < 0 then Some (Inl OutOfRange)
      else let chunk = prompt_chunk toks n_batch off; W' = feed chunk W
           in if \<not> gv_decode E (gw_trace W) chunk then Some (Inr (False, W'))
              else case s32 (off + n_batch) of Inl u \<Rightarrow> Some (Inl u) | Inr off' \<Rightarrow> f E toks n_batch off' W') = Some y"
  have fd: "gw_llama (feed ts W) = gw_llama W" for ts by (simp add: feed_def)
  show "\<forall>ok W'. y = Inr (ok, W') \<longrightarrow> gw_llama W' = gw_llama W"
  proof (intro allI impI)
    fix ok W' assume Y: "y = Inr (ok, W')"
    show "gw_llama W' = gw_llama W"
    proof (cases "cast_s32 (int (length toks)) \<le> off \<or> n_batch < 0 \<or> \<not> gv_decode E (gw_trace W) (prompt_chunk toks n_batch off)")
      case True
      then show ?thesis using y Y fd by (auto simp: Let_def split: if_splits)
    next
      case False
      then obtain off' where "f E toks n_batch off' (feed (prompt_chunk toks n_batch off) W) = Some y"
        using y Y by (auto simp: Let_def split: sum.splits)
      from ih [OF this] Y fd show ?thesis by simp
    qed
  qed
qed

lemma read_clock_llama: "read_clock E W = (t, W') \<Longrightarrow> gw_llama W' = gw_llama W"
  by (auto simp: read_clock_def)

lemma loop_llama: "gw_llama (gr_world (generate_loop E h smp req m R)) = gw_llama (gr_world R)"
  by (induction E h smp req m R rule: generate_loop.induct)
     (subst generate_loop.simps, auto simp: generate_turn_def sample_token_def emit_token_def feed_def Let_def
        split: prod.splits bool.splits if_splits)

lemma run_request_handles:
  assumes "run_request E h c req g W = Some (Inr (out, g', W'))" and "ge_ctx g = Some c"
  shows "gw_llama W' = gw_llama W \<and> ge_model g' = ge_model g \<and> ge_sched g' = ge_sched g \<and>
    (\<exists>c'. ge_ctx g' = Some c' \<and> gc_model c' = gc_model c)"
proof -
  obtain own W2 where rs: "request_sampler E g c req (W\<lparr>gw_trace := gw_trace W @ [Clear_Memory]\<rparr>) = (own, W2)" by force
  obtain t W3 where rc: "read_clock E W2 = (t, W3)" by force
  have 3: "gw_llama W3 = gw_llama W" using request_sampler_world [OF rs] rc by (auto simp: read_clock_def)
  obtain y where "ggml_prefill E (g_tokens req) (cast_s32 (int (gc_n_batch c))) 0 W3 = Some y"
    using assms(1) by (cases "ggml_prefill E (g_tokens req) (cast_s32 (int (gc_n_batch c))) 0 W3") (simp_all add: run_request_def rs rc)
  then obtain ok W4 where pf: "ggml_prefill E (g_tokens req) (cast_s32 (int (gc_n_batch c))) 0 W3 = Some (Inr (ok, W4))"
    using assms(1) by (cases y) (auto simp: run_request_def rs rc)
  have 4: "gw_llama W4 = gw_llama W" using prefill_llama [OF pf] 3 by simp
  show ?thesis using assms 4
    by (auto simp: run_request_def rs rc pf Let_def loop_llama dest!: read_clock_llama split: bool.splits if_splits prod.splits)
qed

lemma generate_keeps_handles:
  assumes "handles_ok g W" and "ggml_generate E p req g W = Some (Inr (out, g', W'))"
  shows "handles_ok g' W'"
proof (cases "\<exists>h c. engine_handle g = Some h \<and> ge_sched g = None \<and> ge_ctx g = Some c \<and> g_tokens req \<noteq> []")
  case True
  then obtain h c where "ge_ctx g = Some c" "run_request E h c req g W = Some (Inr (out, g', W'))"
    using assms(2) by (auto simp: ggml_generate_def)
  from run_request_handles [OF this(2,1)] this(1) show ?thesis using assms(1) by (auto simp: handles_ok_def engine_handle_def)
next
  case False
  then show ?thesis using assms
    by (auto simp: ggml_generate_def handles_ok_def engine_handle_def split: if_splits option.splits)
qed

text \<open>C13: As long as a model is only loaded into an engine that has none, whatever is generated and unloaded in between,
  the context belongs to the model of the engine and that model is alive.
\<close>

theorem ggml_handles_live:
  assumes "life_run E (new_ggml_engine cfg hw smp, W) (g, W')" and "gw_llama W = llama_start"
  shows "handles_ok g W'"
proof -
  have "life_run E s t \<Longrightarrow> case s of (g, W) \<Rightarrow> handles_ok g W \<Longrightarrow> case t of (g, W) \<Rightarrow> handles_ok g W" for s t
  proof (induction rule: life_run.induct)
    case (more s t op u)
    from more.hyps(2) more.IH [OF more.prems] show ?case
      by cases (auto intro: load_keeps_handles unload_keeps_handles generate_keeps_handles)
  qed simp
  from this [OF assms(1)] assms(2) show ?thesis
    by (simp add: new_ggml_engine_def handles_ok_def engine_handle_def llama_start_def)
qed

text \<open>Loading over a loaded model frees the model first.  When the new file does not load, the context and the
  scheduler stay, over a model that is gone.\<close>

theorem failed_reload_dangles:
  assumes "handles_ok g W" and "ge_ctx g = Some c" and "ggml_load_model E path g W = (ec, g', W')" and "ec \<noteq> Ok" and "ec \<noteq> InternalError"
  shows "ge_ctx g' = Some c \<and> ge_sched g' = ge_sched g \<and> gc_model c \<notin> set (ls_live (gw_llama W'))"
proof -
  let ?ls = "free_model (engine_handle g) (gw_llama W)"
  obtain e h ls where lf: "load_file (gv_float E) (gv_lib E) (ge_inf g) (ge_hw g) path None ?ls = (e, h, ls)"
    using prod_cases3 by blast
  have e: "e \<noteq> Ok" using assms(3-5) lf
    by (auto simp: ggml_load_model_def Let_def split: prod.splits option.splits if_splits)
  have live: "\<forall>n \<in> set (ls_live ?ls). n < ls_loads ?ls"
    using assms(1) by (auto simp: handles_ok_def free_model_def split: option.splits)
  have "ls_live ls = ls_live ?ls" using load_file_fresh [OF lf live] e by simp
  moreover have "gc_model c \<notin> set (ls_live ?ls)" using assms(1,2) by (simp add: handles_ok_def free_model_def)
  ultimately show ?thesis using assms(2,3) lf e by (auto simp: ggml_load_model_def Let_def)
qed

section \<open>A concrete engine\<close>

text \<open>A model whose files load unless they are called bad, and which says \<open>7\<close> once and then ends.\<close>

definition demo_lib :: llama_lib where
  "demo_lib = \<lparr>ll_load = (\<lambda>n path mp. path \<noteq> ''bad''), ll_context = (\<lambda>n cp. Some (64, 2)), ll_n_ctx_train = (\<lambda>_. 64), ll_n_layer = (\<lambda>_. 2),
     ll_n_tokens = (\<lambda>_. 8), ll_size = (\<lambda>_. 100), ll_n_embd = (\<lambda>_. 4), ll_template = (\<lambda>_. None), ll_bos = (\<lambda>_. None),
     ll_eos = (\<lambda>_. Some 0), ll_meta = (\<lambda>_ _. None), ll_tokens = (\<lambda>_ s. map (\<lambda>_. 1) s), ll_piece = (\<lambda>_ _ t. if t = 7 then ''x'' else []),
     ll_eog = (\<lambda>_ t. t = 0), ll_grammar = (\<lambda>_ _. False), ll_embeddings = (\<lambda>_. False)\<rparr>"

definition demo_llama_env :: llama_env where
  "demo_llama_env = \<lparr>e_n_ctx = 64, e_n_batch = 2, e_decode = (\<lambda>_ _. 0), e_sample = (\<lambda>_ _ _. 0), e_eog = (\<lambda>t. t = 0),
     e_piece = (\<lambda>_. []), e_clock = int, e_fl = id, e_smp = default_sampling, e_max_queue = 1\<rparr>"

definition demo_ggml_env :: ggml_env where
  "demo_ggml_env = \<lparr>gv_float = \<lparr>fl = Finite, float_log = id, partial_sort = (\<lambda>_ _ xs. xs)\<rparr>, gv_lib = demo_lib, gv_gpu = None,
     gv_hw_threads = 4, gv_decode = (\<lambda>_ _. True), gv_sample = (\<lambda>_ s. if gs_accepted s = [] then 7 else 0), gv_clock = int,
     gv_fl = id, gv_sched = demo_llama_env\<rparr>"

definition demo_ctx :: ggml_context where
  "demo_ctx = \<lparr>gc_model = 0, gc_n_ctx = 64, gc_n_batch = 2, gc_sampler = \<lparr>gs_chain = [], gs_accepted = []\<rparr>\<rparr>"

definition demo_ggml :: ggml_engine where
  "demo_ggml = \<lparr>ge_inf = default_inference, ge_hw = default_hardware, ge_smp = default_sampling, ge_model = Some (Some 0),
     ge_ctx = Some demo_ctx, ge_sched = None\<rparr>"

definition demo_gworld :: ggml_world where
  "demo_gworld = \<lparr>gw_llama = \<lparr>ls_loads = 1, ls_live = [0], ls_split = []\<rparr>, gw_trace = [], gw_streamed = [], gw_reads = 0, gw_retired = []\<rparr>"

definition demo_greq :: generate_request where
  "demo_greq = \<lparr>g_tokens = [1, 2, 3], g_max_tokens = 5, g_temperature = 0, g_top_p = 0, g_top_k = 0, g_repeat_penalty = 0, g_on_token = True,
     g_stop_tokens = [], g_stop = [], g_grammar = [], g_grammar_lazy = False, g_request_id = [], g_session_id = []\<rparr>"

lemma demo_ready: "generate_ready demo_ggml 0 demo_ctx demo_greq"
  by (simp add: generate_ready_def demo_ggml_def demo_ctx_def demo_greq_def engine_handle_def generate_limit_def)


definition demo_answer :: generate_result where
  "demo_answer = \<lparr>r_tokens = [7], r_text = ''x'', r_prompt_tokens = Some 3, r_generated_tokens = Some 1, r_time_ms = Some 0, r_error = Ok,
     r_error_message = [], r_finish_reason = ''stop''\<rparr>"

definition demo_after :: "ggml_engine \<times> ggml_world" where
  "demo_after = (demo_ggml\<lparr>ge_ctx := Some (demo_ctx\<lparr>gc_sampler := \<lparr>gs_chain = [], gs_accepted = [7, 0]\<rparr>\<rparr>)\<rparr>,
     demo_gworld\<lparr>gw_trace := [Clear_Memory, Fed [1, 2], Fed [3], Fed [7]], gw_streamed := [(7, ''x'')], gw_reads := 2\<rparr>)"

lemma demo_ggml_run: "ggml_generate demo_ggml_env 0 demo_greq demo_ggml demo_gworld = Some (Inr (Done demo_answer, demo_after))"
  by (simp add: ggml_generate_def run_request_def demo_greq_def demo_ggml_def demo_ctx_def demo_gworld_def demo_ggml_env_def demo_lib_def
      engine_handle_def request_sampler_def read_clock_def ggml_prefill.simps prompt_chunk_def cast_s32_def feed_def s32_def in_s32_def
      generate_limit_def generate_loop.simps generate_turn_def sample_token_def emit_token_def ggml_piece_def piece_into_def
      stop_now_def ends_in_def default_sampling_def finish_result_def demo_answer_def demo_after_def Let_def tdiv_def)

theorem ggml_answer_witness: "r_text demo_answer = concat (map (ggml_piece demo_ggml_env 0) [7]) \<and> r_finish_reason demo_answer = ''stop''"
proof -
  obtain g' W' where "demo_after = (g', W')" by force
  then have run: "ggml_generate demo_ggml_env 0 demo_greq demo_ggml demo_gworld = Some (Inr (Done demo_answer, g', W'))"
    using demo_ggml_run by simp
  have "r_error demo_answer = Ok" by (simp add: demo_answer_def)
  from ggml_answer [OF demo_ready run this] show ?thesis
    by (simp add: demo_answer_def generate_limit_def demo_greq_def)
qed

theorem ggml_sampler_carries_witness:
  "\<exists>c' rejected. ge_ctx (fst demo_after) = Some c' \<and> length rejected \<le> 1 \<and> gs_accepted (gc_sampler c') = [7] @ rejected"
proof -
  have run: "ggml_generate demo_ggml_env 0 demo_greq demo_ggml demo_gworld = Some (Inr (Done demo_answer, fst demo_after, snd demo_after))"
    using demo_ggml_run by simp
  have "r_error demo_answer = Ok" "g_grammar demo_greq = []" by (simp_all add: demo_answer_def demo_greq_def)
  from ggml_sampler_carries [OF demo_ready run this] show ?thesis
    by (simp add: demo_answer_def demo_ctx_def)
qed

definition fresh_gworld :: ggml_world where
  "fresh_gworld = \<lparr>gw_llama = llama_start, gw_trace = [], gw_streamed = [], gw_reads = 0, gw_retired = []\<rparr>"

theorem ggml_handles_live_witness:
  "case ggml_load_model demo_ggml_env ''m'' (new_ggml_engine default_inference default_hardware default_sampling) fresh_gworld of
     (ec, g, W) \<Rightarrow> handles_ok g W"
proof -
  let ?g = "new_ggml_engine default_inference default_hardware default_sampling"
  obtain ec g W where l: "ggml_load_model demo_ggml_env ''m'' ?g fresh_gworld = (ec, g, W)" using prod_cases3 by blast
  have "\<not> ggml_loaded ?g" by (simp add: ggml_loaded_def engine_handle_def new_ggml_engine_def)
  then have run: "life_run demo_ggml_env (?g, fresh_gworld) (g, W)"
    using l by (blast intro: life_run.intros life_step.load)
  have "gw_llama fresh_gworld = llama_start" by (simp add: fresh_gworld_def)
  from ggml_handles_live [OF run this] show ?thesis using l by simp
qed

theorem failed_reload_dangles_witness:
  "ge_ctx (fst (snd (ggml_load_model demo_ggml_env ''bad'' demo_ggml demo_gworld))) = Some demo_ctx"
proof -
  obtain ec g W where l: "ggml_load_model demo_ggml_env ''bad'' demo_ggml demo_gworld = (ec, g, W)" using prod_cases3 by blast
  then have "ec = NotFound"
    by (simp add: ggml_load_model_def load_file_def Let_def demo_ggml_env_def demo_lib_def c_str_def)
  moreover have "handles_ok demo_ggml demo_gworld" "ge_ctx demo_ggml = Some demo_ctx"
    by (simp_all add: handles_ok_def demo_ggml_def demo_gworld_def demo_ctx_def engine_handle_def)
  ultimately show ?thesis using failed_reload_dangles [of demo_ggml demo_gworld demo_ctx demo_ggml_env "''bad''" ec g W] l by simp
qed

section \<open>Text\<close>

text \<open>A retry with the exact size makes tokenisation complete, however long the tokens are in number.\<close>

lemma tokenize_complete: "engine_handle g = Some h \<Longrightarrow> ggml_tokenize L g text = ll_tokens L h text"
  by (auto simp: ggml_tokenize_def tokens_into_def Let_def split: if_splits)

text \<open>A piece of more than 256 bytes is dropped, from the text of an answer as from a detokenisation.\<close>

lemma long_piece_dropped: "256 < length (ll_piece (gv_lib E) h False t) \<Longrightarrow> ggml_piece E h t = []"
  by (simp add: ggml_piece_def piece_into_def Let_def)

lemma detokenize_answer:
  "engine_handle g = Some h \<Longrightarrow> ggml_detokenize (gv_lib E) g ts = concat (map (ggml_piece E h) ts)"
  by (simp add: ggml_detokenize_def ggml_piece_def piece_into_def Let_def cong: map_cong)

end
