(* ===== verification/Cuda_Model.thy ===== *)
theory Cuda_Model
  imports Ggml_Model Multi_Gpu
begin

text \<open>
  \<open>src/inference/backends/cuda/cuda_model.cpp\<close>: the weights of a model on the device, and what the engine reads
  from them.  llama.cpp, ggml and the CUDA runtime are parameters: the tensors of a model by name, the numbers of
  its metadata, \<open>std::stof\<close> and the float functions of the standard library.  An exception is an \<open>Inl\<close>; the
  object keeps what it had by then.
\<close>

section \<open>The library\<close>

record tensor_info =
  ti_data :: int
  ti_bytes :: int
  ti_ne :: "int list"
  ti_nb :: "int list"
  ti_elem :: int

record cuda_lib =
  cl_llama :: llama_lib
  cl_heads :: "nat \<Rightarrow> int"
  cl_kv_heads :: "nat \<Rightarrow> int"
  cl_tensor :: "nat \<Rightarrow> string \<Rightarrow> tensor_info option"
  cl_desc :: "nat \<Rightarrow> string"
  cl_stof :: "string \<Rightarrow> fvalue option"
  cl_pow :: "fvalue \<Rightarrow> fvalue \<Rightarrow> fvalue"
  cl_cos :: "fvalue \<Rightarrow> fvalue"
  cl_sin :: "fvalue \<Rightarrow> fvalue"
  cl_backend :: "nat \<Rightarrow> bool"
  cl_upload :: "nat \<Rightarrow> bool"

datatype cuda_exn =
    Cuda_Failure | Length_Exn | Layer_Out_Of_Range | Missing_Weight string | Multi_Exn mg_error | Pool_Exn | Undefined ub

section \<open>State\<close>

record cuda_model =
  cm_handle :: "nat option"
  cm_layers :: int
  cm_heads :: int
  cm_kv_heads :: int
  cm_head_dim :: int
  cm_hidden :: int
  cm_ffn :: int
  cm_ctx_train :: int
  cm_vocab :: int
  cm_rope_base :: fvalue
  cm_norm_eps :: fvalue
  cm_layer_weights :: "(string \<times> true_buffer) list list"
  cm_global_weights :: "(string \<times> true_buffer) list"
  cm_layer_tensors :: "(string \<times> tensor_info) list list"
  cm_global_tensors :: "(string \<times> tensor_info) list"
  cm_backend :: bool
  cm_rope :: "(fvalue list \<times> fvalue list) option"

definition new_cuda_model :: cuda_model where
  "new_cuda_model = \<lparr>cm_handle = None, cm_layers = 0, cm_heads = 0, cm_kv_heads = 0, cm_head_dim = 0, cm_hidden = 0, cm_ffn = 0,
     cm_ctx_train = 0, cm_vocab = 0, cm_rope_base = Finite 10000, cm_norm_eps = Finite (1 / 100000), cm_layer_weights = [],
     cm_global_weights = [], cm_layer_tensors = [], cm_global_tensors = [], cm_backend = False, cm_rope = None\<rparr>"

definition cuda_model_loaded :: "cuda_model \<Rightarrow> bool" where
  "cuda_model_loaded M \<longleftrightarrow> cm_handle M \<noteq> None"

text \<open>The dimensions and hyperparameters stay.\<close>

definition cuda_model_unload :: "cuda_model \<Rightarrow> llama_state \<Rightarrow> cuda_model \<times> llama_state" where
  "cuda_model_unload M W =
     (M\<lparr>cm_handle := None, cm_layer_weights := [], cm_global_weights := [], cm_layer_tensors := [], cm_global_tensors := [],
        cm_backend := False, cm_rope := None\<rparr>, free_model (cm_handle M) W)"

section \<open>Dimensions\<close>

text \<open>A number of the metadata: the present value when the key is missing, the default when it does not parse.\<close>

definition meta_float :: "cuda_lib \<Rightarrow> nat \<Rightarrow> string \<Rightarrow> fvalue \<Rightarrow> fvalue \<Rightarrow> fvalue" where
  "meta_float L h key dflt old =
     (case ll_meta (cl_llama L) h key of
        None \<Rightarrow> old
      | Some _ \<Rightarrow> (case cl_stof L (meta_into (cl_llama L) h 64 key) of None \<Rightarrow> dflt | Some x \<Rightarrow> x))"

definition extract_dimensions :: "cuda_lib \<Rightarrow> nat \<Rightarrow> cuda_model \<Rightarrow> cuda_model exec" where
  "extract_dimensions L h M =
     (let heads = cl_heads L h; hidden = ll_n_embd (cl_llama L) h
      in ebind (s32 (4 * hidden)) (\<lambda>ffn.
           Inr (M\<lparr>cm_layers := ll_n_layer (cl_llama L) h, cm_heads := heads, cm_kv_heads := cl_kv_heads L h,
                  cm_head_dim := (if 0 < heads then tdiv hidden heads else 0), cm_hidden := hidden, cm_ffn := ffn,
                  cm_ctx_train := ll_n_ctx_train (cl_llama L) h, cm_vocab := ll_n_tokens (cl_llama L) h,
                  cm_rope_base := meta_float L h ''llm.rope.freq_base'' (Finite 10000) (cm_rope_base M),
                  cm_norm_eps := meta_float L h ''llm.attention.layer_norm_rms_epsilon'' (Finite (1 / 100000)) (cm_norm_eps M)\<rparr>)))"

section \<open>Weights\<close>

definition global_names :: "string list" where
  "global_names = [''token_embd.weight'', ''output_norm.weight'', ''output.weight'']"

definition layer_roles :: "string list" where
  "layer_roles = [''attn_norm.weight'', ''attn_q.weight'', ''attn_k.weight'', ''attn_v.weight'', ''attn_output.weight'',
     ''ffn_norm.weight'', ''ffn_gate.weight'', ''ffn_up.weight'', ''ffn_down.weight'']"

definition layer_tensor_name :: "nat \<Rightarrow> string \<Rightarrow> string" where
  "layer_tensor_name l role = ''blk.'' @ show_nat l @ ''.'' @ role"

definition make_truebuffer :: "int \<Rightarrow> tensor_info \<Rightarrow> true_buffer" where
  "make_truebuffer device t =
     \<lparr>tb_data = ti_data t, tb_bytes = ti_bytes t, tb_dtype = DT_F16, tb_device = device, tb_ndim = 4,
      tb_shape = ti_ne t, tb_stride = map (\<lambda>nb. nb div ti_elem t) (ti_nb t)\<rparr>"

definition find_tensors :: "(string \<Rightarrow> string) \<Rightarrow> (string \<Rightarrow> tensor_info option) \<Rightarrow> string list \<Rightarrow> (string \<times> tensor_info) list" where
  "find_tensors full get names = List.map_filter (\<lambda>n. map_option (\<lambda>t. (n, t)) (get (full n))) names"

definition build_weight_map :: "cuda_lib \<Rightarrow> nat \<Rightarrow> int \<Rightarrow> cuda_model \<Rightarrow> cuda_model" where
  "build_weight_map L h device M =
     (let buffers = map (\<lambda>(n, t). (n, make_truebuffer device t));
          globals = find_tensors id (cl_tensor L h) global_names;
          layers = map (\<lambda>l. find_tensors (layer_tensor_name l) (cl_tensor L h) layer_roles) [0..<nat (cm_layers M)]
      in M\<lparr>cm_layer_weights := map buffers layers, cm_global_weights := buffers globals,
           cm_layer_tensors := layers, cm_global_tensors := globals\<rparr>)"

section \<open>Rotary positions\<close>

definition rope_angle :: "float_lib \<Rightarrow> cuda_lib \<Rightarrow> cuda_model \<Rightarrow> nat \<Rightarrow> nat \<Rightarrow> fvalue" where
  "rope_angle F L M pos i =
     fdiv F (fl F (real pos))
       (cl_pow L (cm_rope_base M) (fdiv F (fmul F (Finite 2) (fl F (real i))) (fl F (real_of_int (cm_head_dim M)))))"

definition rope_table :: "(fvalue \<Rightarrow> fvalue) \<Rightarrow> float_lib \<Rightarrow> cuda_lib \<Rightarrow> cuda_model \<Rightarrow> nat \<Rightarrow> nat \<Rightarrow> fvalue list" where
  "rope_table f F L M max_len half_dim =
     concat (map (\<lambda>pos. map (\<lambda>i. f (rope_angle F L M pos i)) [0..<half_dim]) [0..<max_len])"

text \<open>\<open>cl_upload\<close> says whether the two allocations and copies of a table of that size succeed.\<close>

definition precompute_rope :: "float_lib \<Rightarrow> cuda_lib \<Rightarrow> cuda_model \<Rightarrow> cuda_exn + cuda_model" where
  "precompute_rope F L M =
     (let half_dim = tdiv (cm_head_dim M) 2; max_len = cast_s32 (cm_ctx_train M)
      in case s32 (max_len * half_dim) of
           Inl u \<Rightarrow> Inl (Undefined u)
         | Inr n \<Rightarrow>
             if n < 0 then Inl Length_Exn
             else if \<not> cl_upload L (nat (n * 4)) then Inl Cuda_Failure
             else Inr (M\<lparr>cm_rope := Some (rope_table (cl_cos L) F L M (nat max_len) (nat half_dim),
                                        rope_table (cl_sin L) F L M (nat max_len) (nat half_dim))\<rparr>))"

section \<open>Loading\<close>

text \<open>Only a positive sum is written to the static buffer, which is handed over in either case.\<close>

definition cuda_split :: "float_lib \<Rightarrow> real list \<Rightarrow> fvalue list \<Rightarrow> fvalue list" where
  "cuda_split F ts buf =
     (let n = min (length ts) 128; vs = map Finite (take n ts); sum = foldl (fadd F) (Finite 0) vs
      in if fless (Finite 0) sum then map (\<lambda>x. fdiv F x sum) vs @ drop n buf else buf)"

definition cuda_model_params :: "inference_config \<Rightarrow> hardware_config \<Rightarrow> fvalue list option \<Rightarrow> model_params" where
  "cuda_model_params cfg hw split =
     \<lparr>mp_gpu_layers = 999, mp_main_gpu = gd_device_id (hw_gpu hw), mp_mmap = inf_mmap cfg, mp_mlock = inf_mlock cfg, mp_split = split\<rparr>"

text \<open>What follows once the file is loaded.\<close>

definition prepare_model :: "float_lib \<Rightarrow> cuda_lib \<Rightarrow> int \<Rightarrow> nat \<Rightarrow> cuda_model \<Rightarrow> (cuda_exn + error_code) \<times> cuda_model" where
  "prepare_model F L device h M =
     (case extract_dimensions L h M of
        Inl u \<Rightarrow> (Inl (Undefined u), M)
      | Inr M1 \<Rightarrow>
          let M2 = build_weight_map L h device M1
          in case precompute_rope F L M2 of
               Inl e \<Rightarrow> (Inl e, M2)
             | Inr M3 \<Rightarrow> (Inr Ok, M3\<lparr>cm_backend := cl_backend L h\<rparr>))"

definition cuda_model_load ::
  "float_lib \<Rightarrow> cuda_lib \<Rightarrow> inference_config \<Rightarrow> hardware_config \<Rightarrow> string \<Rightarrow> cuda_model \<Rightarrow> llama_state \<Rightarrow>
   (cuda_exn + error_code) \<times> cuda_model \<times> llama_state" where
  "cuda_model_load F L cfg hw path M W =
     (if path = [] then (Inr InvalidArgument, M, W)
      else case cuda_model_unload M W of (M1, W1) \<Rightarrow>
        let ts = ci_tensor_split (inf_cuda cfg);
            W2 = (if ts = [] then W1 else W1\<lparr>ls_split := cuda_split F ts (ls_split W1)\<rparr>);
            mp = cuda_model_params cfg hw (if ts = [] then None else Some (ls_split W2));
            n = ls_loads W2;
            W3 = W2\<lparr>ls_loads := Suc n\<rparr>
        in if \<not> ll_load (cl_llama L) n (c_str path) mp then (Inr NotFound, M1, W3)
           else case prepare_model F L (gd_device_id (hw_gpu hw)) n (M1\<lparr>cm_handle := Some n\<rparr>) of
                  (r, M2) \<Rightarrow> (r, M2, W3\<lparr>ls_live := n # ls_live W3\<rparr>))"

section \<open>Accessors\<close>

definition layer_weights :: "cuda_model \<Rightarrow> int \<Rightarrow> cuda_exn + (string \<times> true_buffer) list" where
  "layer_weights M l =
     (if l < 0 \<or> int (length (cm_layer_weights M)) \<le> l then Inl Layer_Out_Of_Range else Inr (cm_layer_weights M ! nat l))"

definition global_weight :: "cuda_model \<Rightarrow> string \<Rightarrow> cuda_exn + true_buffer" where
  "global_weight M name = (case map_of (cm_global_weights M) name of None \<Rightarrow> Inl (Missing_Weight name) | Some b \<Rightarrow> Inr b)"

definition layer_tensors :: "cuda_model \<Rightarrow> int \<Rightarrow> cuda_exn + (string \<times> tensor_info) list" where
  "layer_tensors M l =
     (if l < 0 \<or> int (length (cm_layer_tensors M)) \<le> l then Inl Layer_Out_Of_Range else Inr (cm_layer_tensors M ! nat l))"

definition global_tensor :: "cuda_model \<Rightarrow> string \<Rightarrow> tensor_info option" where
  "global_tensor M name = map_of (cm_global_tensors M) name"

definition cuda_layer_estimate :: "cuda_lib \<Rightarrow> cuda_model \<Rightarrow> int" where
  "cuda_layer_estimate L M = layer_size_estimate (cl_llama L) (cm_handle M)"

definition cuda_tokenize :: "cuda_lib \<Rightarrow> cuda_model \<Rightarrow> string \<Rightarrow> int list" where
  "cuda_tokenize L M text =
     (case cm_handle M of
        None \<Rightarrow> []
      | Some h \<Rightarrow>
          (case tokens_into (cl_llama L) h (ll_n_tokens (cl_llama L) h + int (length text)) text of
             (n, ts) \<Rightarrow> if n < 0 then [] else ts))"

definition cuda_detokenize :: "cuda_lib \<Rightarrow> cuda_model \<Rightarrow> int list \<Rightarrow> string" where
  "cuda_detokenize L M tokens =
     (case cm_handle M of
        None \<Rightarrow> []
      | Some h \<Rightarrow> concat (map (\<lambda>t. case piece_into (cl_llama L) h True 256 t of (n, p) \<Rightarrow> if 0 < n then p else []) tokens))"

section \<open>What loading leaves behind\<close>

lemma map_of_find_tensors:
  "map_of (find_tensors full get names) n = (if n \<in> set names then get (full n) else None)"
  by (induction names) (auto simp: find_tensors_def List.map_filter_def split: option.splits)

lemma map_of_buffers: "map_of (map (\<lambda>(n, t). (n, f t)) kvs) k = map_option f (map_of kvs k)"
  by (induction kvs) auto

text \<open>
  After a load the weights of every layer are exactly the tensors of the model under the names of the roles, the
  two kinds of maps agree, and no layer is missing.
\<close>

theorem weights_exact:
  assumes "prepare_model F L device h M = (Inr Ok, M')" and "0 \<le> l" and "l < cm_layers M'"
  shows "\<exists>ts ws. layer_tensors M' l = Inr ts \<and> layer_weights M' l = Inr ws \<and>
    map_of ts role = (if role \<in> set layer_roles then cl_tensor L h (layer_tensor_name (nat l) role) else None) \<and>
    map_of ws role = map_option (make_truebuffer device) (map_of ts role)"
proof -
  obtain M1 where M1: "extract_dimensions L h M = Inr M1"
    using assms(1) by (cases "extract_dimensions L h M") (simp_all add: prepare_model_def)
  let ?M2 = "build_weight_map L h device M1"
  obtain M3 where M3: "precompute_rope F L ?M2 = Inr M3" "M' = M3\<lparr>cm_backend := cl_backend L h\<rparr>"
    using assms(1) M1 by (cases "precompute_rope F L ?M2") (simp_all add: prepare_model_def Let_def)
  have keep: "cm_layer_tensors M' = cm_layer_tensors ?M2" "cm_layer_weights M' = cm_layer_weights ?M2" "cm_layers M' = cm_layers M1"
    using M3 by (auto simp: precompute_rope_def build_weight_map_def Let_def split: sum.splits if_splits)
  have "nat l < nat (cm_layers M1)" using assms(2,3) keep(3) by linarith
  then show ?thesis using assms(2,3) keep
    by (auto simp: layer_tensors_def layer_weights_def build_weight_map_def Let_def map_of_find_tensors map_of_buffers)
qed

lemma concat_rows_nth:
  "p < n \<Longrightarrow> i < m \<Longrightarrow> concat (map (\<lambda>p. map (g p) [0..<m]) [0..<n]) ! (p * m + i) = g p i"
proof (induction n)
  case (Suc n)
  have len: "length (concat (map (\<lambda>p. map (g p) [0..<m]) [0..<n])) = n * m" by (induction n) simp_all
  show ?case
  proof (cases "p = n")
    case True
    then show ?thesis using Suc.prems by (simp add: nth_append len)
  next
    case False
    then have "p < n" using Suc.prems by simp
    have "p * m + i < Suc p * m" using Suc.prems(2) by simp
    also have "\<dots> \<le> n * m" using \<open>p < n\<close> by (intro mult_le_mono1) simp
    finally show ?thesis using Suc.IH [OF \<open>p < n\<close> Suc.prems(2)] by (simp add: nth_append len)
  qed
qed simp

text \<open>The entry the kernel reads for a position and a pair of channels is the one for their angle.\<close>

lemma rope_table_entry:
  "pos < max_len \<Longrightarrow> i < half_dim \<Longrightarrow> rope_table f F L M max_len half_dim ! (pos * half_dim + i) = f (rope_angle F L M pos i)"
  unfolding rope_table_def by (rule concat_rows_nth)

text \<open>An object whose load threw after the file was read says it is loaded.\<close>

lemma thrown_load_stays:
  assumes "cuda_model_load F L cfg hw path M W = (Inl e, M', W')"
  shows "cuda_model_loaded M'"
proof -
  have "cm_handle M2 = cm_handle M" if "prepare_model F L d h M = (Inl e, M2)" for M M2 :: cuda_model and d h
    using that by (auto simp: prepare_model_def extract_dimensions_def build_weight_map_def ebind_def Let_def split: sum.splits)
  then show ?thesis using assms
    by (auto simp: cuda_model_load_def cuda_model_unload_def cuda_model_loaded_def Let_def split: prod.splits if_splits)
qed

text \<open>Without a retry a text is tokenised completely or not at all.\<close>

lemma cuda_tokenize_all:
  "cm_handle M = Some h \<Longrightarrow> cuda_tokenize L M text =
     (if int (length (ll_tokens (cl_llama L) h text)) \<le> ll_n_tokens (cl_llama L) h + int (length text)
      then ll_tokens (cl_llama L) h text else [])"
  by (auto simp: cuda_tokenize_def tokens_into_def Let_def)

end
