(* ===== verification/Cuda_Engine.thy ===== *)
theory Cuda_Engine
  imports Actions Cuda_Model Ggml_Engine Kv_Compression Token_Reduction Cuda_Stream Kv_Eviction
begin

text \<open>
  \<open>src/inference/backends/cuda/cuda_engine.cpp\<close>, first part: the state of the engine, how a model is loaded, the
  sessions and the queries.  The parts are the models of the allocator, the stream pool, the coordinator and the
  two compression passes; the CUDA runtime is a parameter: which allocations and calls succeed.  An exception is
  the outcome \<open>Threw\<close> of an action, with the state at the throw.
\<close>

section \<open>State\<close>

text \<open>One forward pass: a token at a position through the block table, or a run of tokens of the megakernel.\<close>

datatype forward = Step nat int int int "int list" | Mega "int list" int int

datatype mk_buffer =
    Mk_Act | Mk_Softmax | Mk_Input_Ids | Mk_Argmax | Mk_Mask | Mk_Attn | Mk_Hidden | Mk_Ptrs | Mk_Kv_Ptrs

record megakernel =
  mk_n_layers :: int
  mk_n_heads :: int
  mk_seq_cap :: int
  mk_kv_cap :: int
  mk_buffers :: "mk_buffer list"
  mk_weights :: "int list list"
  mk_k_ptrs :: "int list"
  mk_v_ptrs :: "int list"

definition no_megakernel :: megakernel where
  "no_megakernel = \<lparr>mk_n_layers = 0, mk_n_heads = 0, mk_seq_cap = 0, mk_kv_cap = 0, mk_buffers = [], mk_weights = [],
     mk_k_ptrs = [], mk_v_ptrs = []\<rparr>"

record cuda_engine =
  cu_inf :: inference_config
  cu_hw :: hardware_config
  cu_smp :: sampling_config
  cu_model :: "cuda_model option"
  cu_kv :: "kv_state option"
  cu_streams :: "stream_pool option"
  cu_multi :: "multi_gpu option"
  cu_sampler :: "ggml_sampler option"
  cu_gallocr :: bool
  cu_scratch :: bool
  cu_v2_max :: int
  cu_logits :: "fvalue list"
  cu_warm :: bool
  cu_next_seq :: nat
  cu_sessions :: "string \<rightharpoonup> nat \<times> int"
  cu_pass :: "kv_pass option"
  cu_scoring :: "scoring_pass option"
  cu_mk :: megakernel
  cu_llama :: llama_state
  cu_forwards :: "forward list"
  cu_draws :: nat
  cu_reads :: nat

text \<open>\<open>cv_cuda\<close> and \<open>cv_malloc\<close> say which stream calls and allocations succeed, \<open>cv_forward_ok\<close> whether the calls of
  a pass do, given the passes before; \<open>cv_logits\<close> and \<open>cv_argmax\<close> are what the device computes, \<open>cv_select\<close> what the
  sampler picks at a given draw.\<close>

record cuda_env =
  cv_float :: float_lib
  cv_round :: "real \<Rightarrow> real"
  cv_lib :: cuda_lib
  cv_device :: device_lib
  cv_order :: "nat \<Rightarrow> nat \<Rightarrow> nat \<Rightarrow> nat list"
  cv_gpu :: "gpu_driver option"
  cv_nccl :: "nccl_api option"
  cv_cuda :: "cuda_call \<Rightarrow> bool"
  cv_malloc :: "int \<Rightarrow> bool"
  cv_mem_free :: nat
  cv_junk :: bytes
  cv_coop :: bool
  cv_sm_major :: int
  cv_forward_ok :: "forward list \<Rightarrow> bool"
  cv_logits :: "forward list \<Rightarrow> nat \<Rightarrow> fvalue"
  cv_argmax :: "forward list \<Rightarrow> int"
  cv_attn :: "forward list \<Rightarrow> fvalue list"
  cv_hidden :: "forward list \<Rightarrow> 16 word list"
  cv_select :: "nat \<Rightarrow> ggml_sampler \<Rightarrow> fvalue list \<Rightarrow> int"
  cv_vocab_none :: bool
  cv_clock :: "nat \<Rightarrow> int"

definition new_cuda_engine :: "inference_config \<Rightarrow> hardware_config \<Rightarrow> sampling_config \<Rightarrow> cuda_engine" where
  "new_cuda_engine cfg hw smp = \<lparr>cu_inf = cfg, cu_hw = hw, cu_smp = smp, cu_model = None, cu_kv = None, cu_streams = None,
     cu_multi = None, cu_sampler = None, cu_gallocr = False, cu_scratch = False, cu_v2_max = 0, cu_logits = [], cu_warm = False,
     cu_next_seq = 1, cu_sessions = Map.empty, cu_pass = None, cu_scoring = None, cu_mk = no_megakernel, cu_llama = llama_start,
     cu_forwards = [], cu_draws = 0, cu_reads = 0\<rparr>"

definition cuda_loaded :: "cuda_engine \<Rightarrow> bool" where
  "cuda_loaded G \<longleftrightarrow> (case cu_model G of None \<Rightarrow> False | Some M \<Rightarrow> cuda_model_loaded M)"

text \<open>Dereferencing a part.\<close>

definition part :: "(cuda_engine \<Rightarrow> 'a option) \<Rightarrow> (cuda_engine, 'a) act" where
  "part f G = (case f G of None \<Rightarrow> (Stuck NullDeref, G) | Some x \<Rightarrow> (Ret x, G))"

definition require :: "bool \<Rightarrow> (cuda_engine, unit) act" where
  "require ok = (if ok then ret () else throw)"

definition of_exec :: "'a exec \<Rightarrow> (cuda_engine, 'a) act" where
  "of_exec x = (case x of Inl u \<Rightarrow> stuck u | Inr y \<Rightarrow> ret y)"

definition cuda_clock :: "cuda_env \<Rightarrow> (cuda_engine, int) act" where
  "cuda_clock E G = (Ret (cv_clock E (cu_reads G)), G\<lparr>cu_reads := Suc (cu_reads G)\<rparr>)"

section \<open>Unloading\<close>

definition drop_model :: "cuda_engine \<Rightarrow> cuda_engine" where
  "drop_model G = G\<lparr>cu_model := None, cu_llama := (case cu_model G of None \<Rightarrow> cu_llama G | Some M \<Rightarrow> snd (cuda_model_unload M (cu_llama G)))\<rparr>"

definition cuda_unload :: "cuda_engine \<Rightarrow> cuda_engine" where
  "cuda_unload G = (drop_model G)\<lparr>cu_sampler := None, cu_mk := no_megakernel, cu_scratch := False, cu_v2_max := 0, cu_gallocr := False,
     cu_pass := None, cu_scoring := None, cu_multi := None, cu_streams := None, cu_kv := None, cu_warm := False\<rparr>"

section \<open>Loading\<close>

definition load_weights :: "cuda_env \<Rightarrow> string \<Rightarrow> (cuda_engine, error_code) act" where
  "load_weights E path G =
     (case cuda_model_load (cv_float E) (cv_lib E) (cu_inf G) (cu_hw G) path new_cuda_model (cu_llama G) of
        (r, M, W) \<Rightarrow>
          let G1 = G\<lparr>cu_model := Some M, cu_llama := W\<rparr>
          in case r of
               Inl (Undefined u) \<Rightarrow> (Stuck u, G1)
             | Inl _ \<Rightarrow> (Threw, G1)
             | Inr Ok \<Rightarrow> (Ret Ok, G1)
             | Inr ec \<Rightarrow> (Ret ec, drop_model G1))"

text \<open>FP8 needs compute capability 8.9, by the configuration and not by the device.\<close>

definition check_fp8 :: "cuda_engine \<Rightarrow> cuda_engine" where
  "check_fp8 G =
     (let cec = inf_cuda_engine (cu_inf G); major = ci_compute_capability_major (inf_cuda (cu_inf G));
          minor = ci_compute_capability_minor (inf_cuda (cu_inf G))
      in if ce_use_fp8_kv cec \<and> (major < 8 \<or> major = 8 \<and> minor < 9)
         then G\<lparr>cu_inf := (cu_inf G)\<lparr>inf_cuda_engine := cec\<lparr>ce_use_fp8_kv := False\<rparr>\<rparr>\<rparr> else G)"

definition make_pool :: "cuda_env \<Rightarrow> cuda_model \<Rightarrow> (cuda_engine, unit) act" where
  "make_pool E M G =
     (case kv_construct (cv_round E) (cv_malloc E) (cv_mem_free E) (cv_junk E) (inf_cuda_engine (cu_inf G))
             (cm_layers M) (cm_kv_heads M) (cm_head_dim M) of
        Inl (KvUb u) \<Rightarrow> (Stuck u, G)
      | Inl _ \<Rightarrow> (Threw, G)
      | Inr A \<Rightarrow> (Ret (), G\<lparr>cu_kv := Some A\<rparr>))"

definition make_streams :: "cuda_env \<Rightarrow> (cuda_engine, unit) act" where
  "make_streams E G =
     (case new_stream_pool (cv_cuda E) (ce_num_cuda_streams (inf_cuda_engine (cu_inf G))) (gd_device_id (hw_gpu (cu_hw G))) of
        Inl _ \<Rightarrow> (Threw, G) | Inr P \<Rightarrow> (Ret (), G\<lparr>cu_streams := Some P\<rparr>))"

definition make_multi :: "cuda_env \<Rightarrow> (cuda_engine, unit) act" where
  "make_multi E G =
     (case new_single_process (cv_nccl E) (cv_gpu E) (ce_tensor_parallel_size (inf_cuda_engine (cu_inf G)))
             (gd_device_id (hw_gpu (cu_hw G))) of
        Inl _ \<Rightarrow> (Threw, G) | Inr P \<Rightarrow> (Ret (), G\<lparr>cu_multi := Some P\<rparr>))"

text \<open>The graph allocator of a backend that failed to initialise: ggml asserts that it is there.\<close>

definition make_gallocr :: "cuda_model \<Rightarrow> (cuda_engine, unit) act" where
  "make_gallocr M = (if cm_backend M then changing (\<lambda>G. G\<lparr>cu_gallocr := True\<rparr>) else stuck AssertFail)"

definition v2_partitions :: "int \<Rightarrow> int \<Rightarrow> int exec" where
  "v2_partitions ctx blk =
     ebind (s32 (32 * blk)) (\<lambda>d. ebind (s32 (ctx + d)) (\<lambda>n. ebind (s32 (n - 1)) (\<lambda>m.
       if d = 0 then Inl DivByZero else Inr (tdiv m d))))"

definition scratch_sizes :: "cuda_model \<Rightarrow> int \<Rightarrow> int list" where
  "scratch_sizes M parts =
     [cm_heads M * cm_head_dim M * 2, cm_hidden M * 2, 4] @
     (if 0 < parts then [cm_heads M * parts * 4, cm_heads M * parts * 4, cm_heads M * parts * cm_head_dim M * 2] else [])"

definition alloc_scratch :: "cuda_env \<Rightarrow> cuda_model \<Rightarrow> kv_state \<Rightarrow> (cuda_engine, unit) act" where
  "alloc_scratch E M A =
     andthen (of_exec (v2_partitions (cast_s32 (cm_ctx_train M)) (k_block_size A))) (\<lambda>parts.
     andthen (require (list_all (cv_malloc E) (scratch_sizes M parts))) (\<lambda>_.
       changing (\<lambda>G. G\<lparr>cu_scratch := True, cu_v2_max := parts\<rparr>)))"

definition make_sampler_chain :: "cuda_env \<Rightarrow> (cuda_engine, unit) act" where
  "make_sampler_chain E =
     andthen (cuda_clock E) (\<lambda>t. changing (\<lambda>G. G\<lparr>cu_sampler := Some (build_sampler (cu_smp G) t)\<rparr>))"

section \<open>Megakernel buffers\<close>

text \<open>Sizes in \<open>size_t\<close>, in the order of the allocations.\<close>

definition mk_sizes :: "cuda_engine_config \<Rightarrow> cuda_model \<Rightarrow> megakernel \<Rightarrow> (mk_buffer \<times> int) list" where
  "mk_sizes cec M K =
     (let S = mk_seq_cap K; KVC = mk_kv_cap K; H = mk_n_heads K; L = mk_n_layers K; hidden = cm_hidden M
      in [(Mk_Act, 2 * S * hidden * 2), (Mk_Softmax, H * S * KVC * 4), (Mk_Input_Ids, S * 4), (Mk_Argmax, 4), (Mk_Mask, KVC)] @
         (if ce_megakernel_save_attn cec then [(Mk_Attn, L * H * S * KVC * 4)] else []) @
         (if ce_megakernel_save_hidden cec then [(Mk_Hidden, (L + 1) * S * hidden * 2)] else []))"

definition mk_pointer_sizes :: "megakernel \<Rightarrow> (mk_buffer \<times> int) list" where
  "mk_pointer_sizes K = [(Mk_Ptrs, 9 * mk_n_layers K * 8), (Mk_Kv_Ptrs, 2 * mk_n_layers K * 8)]"

fun alloc_in_order :: "cuda_env \<Rightarrow> (mk_buffer \<times> int) list \<Rightarrow> (cuda_engine, unit) act" where
  "alloc_in_order E [] = ret ()"
| "alloc_in_order E ((b, n) # xs) =
     (if cv_malloc E (size_t n)
      then andthen (changing (\<lambda>G. G\<lparr>cu_mk := (cu_mk G)\<lparr>mk_buffers := mk_buffers (cu_mk G) @ [b]\<rparr>\<rparr>)) (\<lambda>_. alloc_in_order E xs)
      else throw)"

text \<open>The roles in the order of the packed arrays; a missing tensor is a null pointer.\<close>

definition mk_roles :: "string list" where
  "mk_roles = [''attn_q.weight'', ''attn_k.weight'', ''attn_v.weight'', ''attn_output.weight'', ''ffn_gate.weight'', ''ffn_up.weight'',
     ''ffn_down.weight'', ''attn_norm.weight'', ''ffn_norm.weight'']"

definition weight_pointer :: "(string \<times> true_buffer) list \<Rightarrow> string \<Rightarrow> int" where
  "weight_pointer lw role = (case map_of lw role of None \<Rightarrow> 0 | Some b \<Rightarrow> tb_data b)"

definition alloc_megakernel :: "cuda_env \<Rightarrow> cuda_model \<Rightarrow> kv_state \<Rightarrow> (cuda_engine, unit) act" where
  "alloc_megakernel E M A =
     andthen (reading (\<lambda>G. cast_s32 (inf_context_size (cu_inf G)))) (\<lambda>S.
     andthen (of_exec (s32 (int (k_max_blocks A) * k_block_size A))) (\<lambda>KVC.
     let K = no_megakernel\<lparr>mk_n_layers := cm_layers M, mk_n_heads := cm_heads M, mk_seq_cap := S, mk_kv_cap := KVC\<rparr>;
         layers = [0..<nat (cm_layers M)]
     in andthen (changing (\<lambda>G. G\<lparr>cu_mk := K\<rparr>)) (\<lambda>_.
        andthen (reading (\<lambda>G. inf_cuda_engine (cu_inf G))) (\<lambda>cec.
        andthen (alloc_in_order E (mk_sizes cec M K)) (\<lambda>_.
        andthen (changing (\<lambda>G. G\<lparr>cu_mk := (cu_mk G)\<lparr>
            mk_weights := map (\<lambda>role. map (\<lambda>l. weight_pointer (cm_layer_weights M ! l) role) layers) mk_roles,
            mk_k_ptrs := map (\<lambda>l. kv_layer_k_ptr (int l) A) layers, mk_v_ptrs := map (\<lambda>l. kv_layer_v_ptr (int l) A) layers\<rparr>\<rparr>)) (\<lambda>_.
        alloc_in_order E (mk_pointer_sizes K)))))))"

text \<open>A device that cannot synchronise a grid turns the megakernel off in the configuration.\<close>

definition setup_megakernel :: "cuda_env \<Rightarrow> cuda_model \<Rightarrow> kv_state \<Rightarrow> (cuda_engine, unit) act" where
  "setup_megakernel E M A =
     andthen (reading (\<lambda>G. inf_cuda_engine (cu_inf G))) (\<lambda>cec.
       if \<not> ce_use_megakernel cec then ret ()
       else if \<not> cv_coop E \<or> cv_sm_major E < 7
       then changing (\<lambda>G. G\<lparr>cu_inf := (cu_inf G)\<lparr>inf_cuda_engine := cec\<lparr>ce_use_megakernel := False\<rparr>\<rparr>\<rparr>)
       else alloc_megakernel E M A)"

definition setup_compression :: "cuda_env \<Rightarrow> cuda_model \<Rightarrow> kv_state \<Rightarrow> (cuda_engine, unit) act" where
  "setup_compression E M A =
     andthen (reading (\<lambda>G. inf_compression (cu_inf G))) (\<lambda>cc.
       if vq_enabled (cp_kv_vq cc) \<or> ki_enabled (cp_kv_kivi cc)
       then let P = kv_pass_construct cc (cm_layers M) (cm_kv_heads M) (cm_head_dim M) (k_block_size A)
            in andthen (changing (\<lambda>G. G\<lparr>cu_pass := Some P\<rparr>)) (\<lambda>_.
               case kv_pass_init (cv_malloc E) P of None \<Rightarrow> throw | Some Q \<Rightarrow> changing (\<lambda>G. G\<lparr>cu_pass := Some Q\<rparr>))
       else ret ())"

definition setup_scoring :: "cuda_model \<Rightarrow> (cuda_engine, unit) act" where
  "setup_scoring M =
     andthen (reading (\<lambda>G. inf_compression (cu_inf G))) (\<lambda>cc.
       if ps_enabled (cp_presis cc) \<or> tm_enabled (cp_tome cc)
       then changing (\<lambda>G. G\<lparr>cu_scoring := Some (scoring_construct cc (cm_heads M) (cm_head_dim M) (cm_hidden M))\<rparr>)
       else ret ())"

text \<open>The warm-up only asks the driver; whatever it answers, it is not asked again.\<close>

definition capture_cuda_graphs :: "(cuda_engine, unit) act" where
  "capture_cuda_graphs = changing (\<lambda>G. G\<lparr>cu_warm := True\<rparr>)"

definition cuda_load_model :: "cuda_env \<Rightarrow> string \<Rightarrow> (cuda_engine, error_code) act" where
  "cuda_load_model E path =
     andthen (changing cuda_unload) (\<lambda>_.
     andthen (load_weights E path) (\<lambda>ec.
       if ec \<noteq> Ok then ret ec
       else
         andthen (part cu_model) (\<lambda>M.
         andthen (changing check_fp8) (\<lambda>_.
         andthen (make_pool E M) (\<lambda>_.
         andthen (part cu_kv) (\<lambda>A.
         andthen (make_streams E) (\<lambda>_.
         andthen (make_multi E) (\<lambda>_.
         andthen (make_gallocr M) (\<lambda>_.
         andthen (alloc_scratch E M A) (\<lambda>_.
         andthen (make_sampler_chain E) (\<lambda>_.
         andthen (setup_megakernel E M A) (\<lambda>_.
         andthen (setup_compression E M A) (\<lambda>_.
         andthen (setup_scoring M) (\<lambda>_.
         andthen (reading (\<lambda>G. ce_enforce_eager (inf_cuda_engine (cu_inf G)))) (\<lambda>eager.
         andthen (if eager then ret () else capture_cuda_graphs) (\<lambda>_. ret Ok))))))))))))))))"

end
