(* ===== verification/Cuda_Forward.thy ===== *)
theory Cuda_Forward
  imports Cuda_Engine
begin

text \<open>
  \<open>cuda_engine.cpp\<close>, second part: the sessions, the two forward passes and the compression passes around them,
  and the queries.  What a pass computes is a parameter; what it reads and where is not: slots, block tables,
  tensors, scratch and buffers are checked as the code leaves them to be.
\<close>

section \<open>Sessions\<close>

definition register_session :: "string \<Rightarrow> nat \<Rightarrow> int \<Rightarrow> cuda_engine \<Rightarrow> cuda_engine" where
  "register_session rid seq len G = (if rid = [] then G else G\<lparr>cu_sessions := (cu_sessions G)(rid \<mapsto> (seq, len))\<rparr>)"

definition unregister_session :: "string \<Rightarrow> cuda_engine \<Rightarrow> cuda_engine" where
  "unregister_session rid G = (if rid = [] then G else G\<lparr>cu_sessions := (cu_sessions G)(rid := None)\<rparr>)"

definition update_session :: "string \<Rightarrow> int \<Rightarrow> cuda_engine \<Rightarrow> cuda_engine" where
  "update_session rid len G =
     (if rid = [] then G
      else case cu_sessions G rid of
        None \<Rightarrow> G
      | Some (seq, _) \<Rightarrow> G\<lparr>cu_sessions := (cu_sessions G)(rid \<mapsto> (seq, len))\<rparr>)"

section \<open>The pass of one token\<close>

text \<open>A pass whose CUDA calls succeed is recorded, and leaves its logits.\<close>

definition launch :: "cuda_env \<Rightarrow> forward \<Rightarrow> (forward list \<Rightarrow> fvalue list) \<Rightarrow> (cuda_engine, unit) act" where
  "launch E f logits =
     andthen (reading cu_forwards) (\<lambda>fs.
     andthen (require (cv_forward_ok E (fs @ [f]))) (\<lambda>_.
       changing (\<lambda>G. G\<lparr>cu_forwards := fs @ [f], cu_logits := logits (fs @ [f])\<rparr>)))"

text \<open>What the kernels need of the allocator: the slot of the position and the table; a null pointer for an unknown
  sequence would be dereferenced by the kernels.\<close>

definition slot_and_table :: "nat \<Rightarrow> int \<Rightarrow> kv_state \<Rightarrow> (int \<times> int list) exec" where
  "slot_and_table seq pos A =
     ebind (get_device_slot_mapping seq 1 pos A) (\<lambda>slots. ebind (get_device_block_table seq A) (\<lambda>table.
       case (slots, table) of (Some [slot], Some bt) \<Rightarrow> Inr (slot, bt) | _ \<Rightarrow> Inl NullDeref))"

definition order_streams :: "cuda_env \<Rightarrow> stream_role \<Rightarrow> (cuda_engine, unit) act" where
  "order_streams E role =
     andthen (part cu_streams) (\<lambda>S.
       case record_event (cv_cuda E) Copy_Role S of
         (None, S') \<Rightarrow> andthen (changing (\<lambda>G. G\<lparr>cu_streams := Some S'\<rparr>)) (\<lambda>_. throw)
       | (Some h, S') \<Rightarrow>
           (case wait_event (cv_cuda E) role (int h) S' of
              (ok, S'') \<Rightarrow> andthen (changing (\<lambda>G. G\<lparr>cu_streams := Some S''\<rparr>)) (\<lambda>_. require ok)))"

text \<open>The tensors that are multiplied without a test for null; the two norms are optional.\<close>

definition needed_roles :: "string list" where
  "needed_roles = [''attn_q.weight'', ''attn_k.weight'', ''attn_v.weight'', ''attn_output.weight'', ''ffn_gate.weight'',
     ''ffn_up.weight'', ''ffn_down.weight'']"

definition layers_complete :: "cuda_model \<Rightarrow> (cuda_engine, unit) act" where
  "layers_complete M =
     (if length (cm_layer_tensors M) < nat (cm_layers M) then throw
      else if list_all (\<lambda>l. list_all (\<lambda>role. map_of (cm_layer_tensors M ! l) role \<noteq> None) needed_roles) [0..<nat (cm_layers M)]
      then ret () else stuck NullDeref)"

text \<open>From 33 blocks on the attention splits the context into partitions of 32 blocks.\<close>

definition attention_parts :: "int \<Rightarrow> int \<Rightarrow> int exec" where
  "attention_parts max_ctx blk =
     (if blk = 0 then Inl DivByZero else if 32 < tdiv max_ctx blk then v2_partitions max_ctx blk else Inr 0)"

text \<open>Without an output matrix the normalised state is read as if it were the logits.\<close>

definition logits_readable :: "cuda_model \<Rightarrow> bool" where
  "logits_readable M \<longleftrightarrow> global_tensor M ''output.weight'' \<noteq> None \<or> cm_vocab M \<le> cm_hidden M"

definition run_forward :: "cuda_env \<Rightarrow> nat \<Rightarrow> int \<Rightarrow> int \<Rightarrow> stream_role \<Rightarrow> (cuda_engine, error_code) act" where
  "run_forward E seq tok pos role =
     andthen (part cu_model) (\<lambda>M.
       if \<not> cm_backend M then ret NotImplemented
       else
         andthen (part cu_kv) (\<lambda>A.
         andthen (of_exec (slot_and_table seq pos A)) (\<lambda>(slot, table).
         andthen (order_streams E role) (\<lambda>_.
         andthen (of_exec (s32 (pos + 1))) (\<lambda>max_ctx.
         andthen (if global_tensor M ''token_embd.weight'' = None then stuck NullDeref else ret ()) (\<lambda>_.
         andthen (layers_complete M) (\<lambda>_.
         andthen (of_exec (attention_parts max_ctx (k_block_size A))) (\<lambda>parts.
         andthen (reading cu_v2_max) (\<lambda>cap.
         andthen (if cap < parts then stuck OutOfRange else ret ()) (\<lambda>_.
         andthen (if logits_readable M then ret () else stuck OutOfRange) (\<lambda>_.
         andthen (launch E (Step seq tok pos slot table) (\<lambda>fs. map (cv_logits E fs) [0..<nat (cm_vocab M)])) (\<lambda>_.
           ret Ok))))))))))))"

section \<open>The pass of the megakernel\<close>

record mk_args =
  ma_n_layers :: int
  ma_n_heads :: int
  ma_n_kv_heads :: int
  ma_head_dim :: int
  ma_d_model :: int
  ma_d_ffn :: int
  ma_vocab_size :: int
  ma_seq_len :: int
  ma_kv_seq_len :: int
  ma_weights :: "int list list"
  ma_embed :: int
  ma_unembed :: int
  ma_final_norm :: int
  ma_rope_offset :: int
  ma_k_cache :: "int list"
  ma_v_cache :: "int list"
  ma_kv_capacity :: int
  ma_fastv_start :: int
  ma_fastv_keep :: real
  ma_pyramid_layers :: int
  ma_pyramid_lambda :: real
  ma_save_attn :: bool
  ma_save_hidden :: bool

definition global_pointer :: "cuda_model \<Rightarrow> string \<Rightarrow> int" where
  "global_pointer M name = (case global_weight M name of Inl _ \<Rightarrow> 0 | Inr b \<Rightarrow> tb_data b)"

definition megakernel_args :: "cuda_engine \<Rightarrow> cuda_model \<Rightarrow> int \<Rightarrow> int \<Rightarrow> int \<Rightarrow> mk_args" where
  "megakernel_args G M seq_len kv_len offset =
     (let cc = inf_compression (cu_inf G); K = cu_mk G; cec = inf_cuda_engine (cu_inf G)
      in \<lparr>ma_n_layers = cm_layers M, ma_n_heads = cm_heads M, ma_n_kv_heads = cm_kv_heads M, ma_head_dim = cm_head_dim M,
          ma_d_model = cm_hidden M, ma_d_ffn = cm_ffn M, ma_vocab_size = cast_s32 (cm_vocab M), ma_seq_len = seq_len,
          ma_kv_seq_len = kv_len, ma_weights = mk_weights K,
          ma_embed = global_pointer M ''token_embd.weight'', ma_unembed = global_pointer M ''output.weight'',
          ma_final_norm = global_pointer M ''output_norm.weight'', ma_rope_offset = offset,
          ma_k_cache = mk_k_ptrs K, ma_v_cache = mk_v_ptrs K, ma_kv_capacity = mk_kv_cap K,
          ma_fastv_start = (if fv_enabled (cp_fastv cc) then fv_start_layer (cp_fastv cc) else -1),
          ma_fastv_keep = (if fv_enabled (cp_fastv cc) then fv_keep_ratio (cp_fastv cc) else 1),
          ma_pyramid_layers = (if pd_enabled (cp_pyramid_drop cc) then pd_warmup_layers (cp_pyramid_drop cc) else 0),
          ma_pyramid_lambda = (if pd_enabled (cp_pyramid_drop cc) then pd_final_keep_ratio (cp_pyramid_drop cc) else 1),
          ma_save_attn = ce_megakernel_save_attn cec, ma_save_hidden = ce_megakernel_save_hidden cec\<rparr>)"

text \<open>The two copies in front of the launch: the token ids and the mask over the cache.\<close>

definition mk_inputs_fit :: "megakernel \<Rightarrow> int \<Rightarrow> int \<Rightarrow> bool" where
  "mk_inputs_fit K seq_len kv_len \<longleftrightarrow> seq_len \<le> mk_seq_cap K \<and> (Mk_Mask \<in> set (mk_buffers K) \<longrightarrow> kv_len \<le> mk_kv_cap K)"

definition one_hot :: "int \<Rightarrow> int \<Rightarrow> fvalue list" where
  "one_hot n i = map (\<lambda>j. if int j = i then Finite 1 else Finite 0) [0..<nat n]"

definition run_megakernel :: "cuda_env \<Rightarrow> int list \<Rightarrow> int \<Rightarrow> int \<Rightarrow> (cuda_engine, error_code) act" where
  "run_megakernel E toks kv_len offset =
     andthen (part cu_model) (\<lambda>M.
     andthen (reading cu_mk) (\<lambda>K.
     andthen (require (Mk_Input_Ids \<in> set (mk_buffers K))) (\<lambda>_.
     andthen (if mk_inputs_fit K (cast_s32 (int (length toks))) kv_len then ret () else stuck OutOfRange) (\<lambda>_.
     andthen (case layer_weights M 0 of Inl _ \<Rightarrow> throw | Inr _ \<Rightarrow> ret ()) (\<lambda>_.
     andthen (launch E (Mega toks kv_len offset) (\<lambda>fs. one_hot (cast_s32 (cm_vocab M)) (cv_argmax E fs))) (\<lambda>_.
       ret Ok))))))"

section \<open>Compression around the passes\<close>

definition run_scoring :: "cuda_env \<Rightarrow> int list \<Rightarrow> (cuda_engine, int list) act" where
  "run_scoring E tokens =
     andthen (reading cu_scoring) (\<lambda>s.
       case s of
         None \<Rightarrow> ret tokens
       | Some P \<Rightarrow> if any_enabled P then of_exec (compress_tokens (cv_float E) P tokens (cast_s32 (int (length tokens)))) else ret tokens)"

text \<open>The halves of a layer's K or V region in the byte memory of the pool, and back.\<close>

definition halves_at :: "bytes \<Rightarrow> nat \<Rightarrow> nat \<Rightarrow> 16 word list" where
  "halves_at mem off n = map (\<lambda>i. read_half (mem (off + 2 * i)) (mem (off + 2 * i + 1))) [0..<n]"

definition put_halves :: "nat \<Rightarrow> 16 word list \<Rightarrow> bytes \<Rightarrow> bytes" where
  "put_halves off hs mem =
     (\<lambda>a. if off \<le> a \<and> a < off + 2 * length hs then half_bytes (hs ! ((a - off) div 2)) ! ((a - off) mod 2) else mem a)"

definition layer_halves :: "kv_state \<Rightarrow> nat" where
  "layer_halves A = nat (kv_k_pool_bytes A) div 2"

definition compress_layer :: "cuda_env \<Rightarrow> int \<Rightarrow> nat \<Rightarrow> kv_pass \<times> kv_state \<Rightarrow> (kv_pass \<times> kv_state) exec" where
  "compress_layer E seq_len l = (\<lambda>(P, A).
     let ko = nat (kv_layer_k_ptr (int l) A); vo = nat (kv_layer_v_ptr (int l) A)
     in ebind (kv_pass_run (cv_device E) (cv_order E) seq_len (halves_at (k_dev A) ko (layer_halves A)) (halves_at (k_dev A) vo (layer_halves A)) P)
          (\<lambda>(k', v', P'). Inr (P', A\<lparr>k_dev := put_halves vo v' (put_halves ko k' (k_dev A))\<rparr>)))"

fun compress_layers :: "cuda_env \<Rightarrow> int \<Rightarrow> nat list \<Rightarrow> kv_pass \<times> kv_state \<Rightarrow> (kv_pass \<times> kv_state) exec" where
  "compress_layers E seq_len [] s = Inr s"
| "compress_layers E seq_len (l # ls) s = ebind (compress_layer E seq_len l s) (compress_layers E seq_len ls)"

definition run_kv_compression :: "cuda_env \<Rightarrow> int \<Rightarrow> (cuda_engine, unit) act" where
  "run_kv_compression E seq_len =
     andthen (reading cu_pass) (\<lambda>p.
       case p of
         None \<Rightarrow> ret ()
       | Some P \<Rightarrow>
           if \<not> kv_pass_enabled P then ret ()
           else
             andthen (part cu_model) (\<lambda>M.
             andthen (part cu_kv) (\<lambda>A.
             andthen (of_exec (compress_layers E seq_len [0..<nat (cm_layers M)] (P, A))) (\<lambda>(P', A').
               changing (\<lambda>G. G\<lparr>cu_pass := Some P', cu_kv := Some A'\<rparr>)))))"

section \<open>Queries\<close>

definition cuda_model_info :: "cuda_lib \<Rightarrow> cuda_model \<Rightarrow> model_info" where
  "cuda_model_info L M =
     (case cm_handle M of
        None \<Rightarrow> no_model_info
      | Some h \<Rightarrow> no_model_info\<lparr>mi_architecture := take 255 (c_str (cl_desc L h)), mi_context_length := cm_ctx_train M,
          mi_vocab_size := cm_vocab M, mi_n_layers := cm_layers M, mi_n_heads := cm_heads M, mi_head_dim := cm_head_dim M,
          mi_dtype := DT_F16, mi_chat_template := model_template (cl_llama L) (Some h),
          mi_bos := special_piece (cl_llama L) (Some h) True, mi_eos := special_piece (cl_llama L) (Some h) False\<rparr>)"

definition cuda_info :: "cuda_env \<Rightarrow> cuda_engine \<Rightarrow> model_info" where
  "cuda_info E G = (case cu_model G of None \<Rightarrow> no_model_info | Some M \<Rightarrow> cuda_model_info (cv_lib E) M)"

definition cuda_token_budget :: "cuda_engine \<Rightarrow> int" where
  "cuda_token_budget G = (case cu_kv G of None \<Rightarrow> 0 | Some A \<Rightarrow> num_free_blocks A * k_block_size A)"

definition cuda_gpu_stats :: "cuda_env \<Rightarrow> cuda_engine \<Rightarrow> gpu_stats" where
  "cuda_gpu_stats E G =
     (if device_count (cv_gpu E) = 0 then no_gpu_stats
      else
        let dev = gd_device_id (hw_gpu (cu_hw G)); info = query_device (cv_gpu E) dev
        in \<lparr>gs_device_id = dev, gs_device_name = gi_name info, gs_vram_total = gi_total info, gs_vram_free = gi_free info,
            gs_layers = (if cuda_loaded G then (case cu_model G of None \<Rightarrow> 0 | Some M \<Rightarrow> cm_layers M) else 0)\<rparr>)"

definition no_kv_stats :: kv_cache_stats where
  "no_kv_stats = \<lparr>st_block_size_tokens = 0, st_blocks_total = 0, st_blocks_used = 0, st_blocks_free = 0, st_utilization_pct = 0,
     st_fp8_enabled = False\<rparr>"

definition cuda_kv_stats :: "cuda_env \<Rightarrow> cuda_engine \<Rightarrow> kv_cache_stats" where
  "cuda_kv_stats E G = (case cu_kv G of None \<Rightarrow> no_kv_stats | Some A \<Rightarrow> kv_stats (cv_round E) A)"

definition engine_tokenize :: "cuda_env \<Rightarrow> cuda_engine \<Rightarrow> string \<Rightarrow> int list" where
  "engine_tokenize E G text = (case cu_model G of None \<Rightarrow> [] | Some M \<Rightarrow> cuda_tokenize (cv_lib E) M text)"

definition engine_detokenize :: "cuda_env \<Rightarrow> cuda_engine \<Rightarrow> int list \<Rightarrow> string" where
  "engine_detokenize E G toks = (case cu_model G of None \<Rightarrow> [] | Some M \<Rightarrow> cuda_detokenize (cv_lib E) M toks)"

text \<open>Saved tensors: the offset into the buffer and the size of a layer, or nothing.\<close>

definition cuda_hidden_states :: "int \<Rightarrow> cuda_engine \<Rightarrow> (int \<times> int) option" where
  "cuda_hidden_states layer G =
     (if Mk_Hidden \<notin> set (mk_buffers (cu_mk G)) \<or> layer < 0 \<or> mk_n_layers (cu_mk G) < layer then None
      else case cu_model G of
        None \<Rightarrow> None
      | Some M \<Rightarrow> let stride = mk_seq_cap (cu_mk G) * cm_hidden M * 2 in Some (layer * stride, stride))"

definition cuda_attention_weights :: "int \<Rightarrow> cuda_engine \<Rightarrow> (int \<times> int) option" where
  "cuda_attention_weights layer G =
     (let K = cu_mk G
      in if Mk_Attn \<notin> set (mk_buffers K) \<or> layer < 0 \<or> mk_n_layers K \<le> layer then None
         else let stride = mk_n_heads K * mk_seq_cap K * mk_kv_cap K * 4 in Some (layer * stride, stride))"

definition cuda_kv_tensor :: "int \<Rightarrow> int \<Rightarrow> cuda_engine \<Rightarrow> int option \<times> int list" where
  "cuda_kv_tensor layer kind G =
     (case (cu_kv G, cu_model G) of
        (Some A, Some M) \<Rightarrow>
          if layer < 0 \<or> mk_n_layers (cu_mk G) \<le> layer then (None, [0, 0, 0, 0])
          else (Some (if kind = 0 then kv_layer_k_ptr layer A else kv_layer_v_ptr layer A),
                [int (k_max_blocks A), cm_kv_heads M, k_block_size A, cm_head_dim M])
      | _ \<Rightarrow> (None, [0, 0, 0, 0]))"

end
