(* ===== verification/Cuda_Generate.thy ===== *)
theory Cuda_Generate
  imports Cuda_Forward Ggml_Generate
begin

text \<open>
  \<open>cuda_engine.cpp\<close>, third part: \<open>generate\<close> and \<open>inject_tokens\<close>.  The callback of a request is an action on the
  engine, so that what it does in between, such as injecting tokens, is seen; it may throw.
\<close>

section \<open>Sampling\<close>

text \<open>Every logit of the vocabulary is read from the host buffer.\<close>

definition sample_logits :: "cuda_env \<Rightarrow> (cuda_engine, int) act" where
  "sample_logits E =
     andthen (part cu_model) (\<lambda>M.
     andthen (reading cu_logits) (\<lambda>logits.
       if length logits < nat (cast_s32 (cm_vocab M)) then stuck OutOfRange
       else
         andthen (part cu_sampler) (\<lambda>s.
         andthen (reading cu_draws) (\<lambda>d.
         andthen (changing (\<lambda>G. G\<lparr>cu_draws := Suc d\<rparr>)) (\<lambda>_.
           ret (cv_select E d s (take (nat (cast_s32 (cm_vocab M))) logits)))))))"

definition sync_stream :: "cuda_env \<Rightarrow> stream_role \<Rightarrow> (cuda_engine, unit) act" where
  "sync_stream E role = andthen (part cu_streams) (\<lambda>S. require (sync_role (cv_cuda E) role S))"

section \<open>The pool\<close>

definition on_pool :: "(kv_state \<Rightarrow> ('a \<times> kv_state) exec) \<Rightarrow> (cuda_engine, 'a) act" where
  "on_pool f =
     andthen (part cu_kv) (\<lambda>A. andthen (of_exec (f A)) (\<lambda>(x, A'). andthen (changing (\<lambda>G. G\<lparr>cu_kv := Some A'\<rparr>)) (\<lambda>_. ret x)))"

definition extend_pool :: "nat \<Rightarrow> (cuda_engine, bool) act" where
  "extend_pool seq = on_pool (\<lambda>A. case extend_sequence seq A of (b, A') \<Rightarrow> Inr (b \<noteq> None, A'))"

definition release_pool :: "nat \<Rightarrow> (cuda_engine, unit) act" where
  "release_pool seq = on_pool (\<lambda>A. Inr ((), free_sequence seq A))"

text \<open>Whether a position starts a block.\<close>

definition at_boundary :: "int \<Rightarrow> int \<Rightarrow> bool exec" where
  "at_boundary pos blk = (if blk = 0 then Inl DivByZero else Inr (tmod pos blk = 0))"

section \<open>Prefill\<close>

text \<open>An early return hands back its result; \<open>None\<close> goes on.\<close>

definition give_up :: "nat \<Rightarrow> int \<Rightarrow> error_code \<Rightarrow> string \<Rightarrow> (cuda_engine, generate_result option) act" where
  "give_up seq n_prompt ec msg =
     andthen (release_pool seq) (\<lambda>_. ret (Some ((failed_result ec msg)\<lparr>r_prompt_tokens := Some n_prompt\<rparr>)))"

text \<open>The legacy path: a block is added in front of every position but the first that starts one.\<close>

fun prefill_steps :: "cuda_env \<Rightarrow> nat \<Rightarrow> int \<Rightarrow> int \<Rightarrow> nat \<Rightarrow> int list \<Rightarrow> (cuda_engine, generate_result option) act" where
  "prefill_steps E seq blk n_prompt i [] = ret None"
| "prefill_steps E seq blk n_prompt i (t # ts) =
     andthen (if 0 < i then of_exec (at_boundary (int i) blk) else ret False) (\<lambda>new.
     andthen (if new then extend_pool seq else ret True) (\<lambda>ok.
       if \<not> ok then give_up seq n_prompt Unavailable ''KV pool exhausted during prefill''
       else
         andthen (run_forward E seq t (int i) Prefill_Role) (\<lambda>ec.
           if ec \<noteq> Ok then give_up seq n_prompt ec ''Prefill step failed''
           else prefill_steps E seq blk n_prompt (Suc i) ts)))"

definition prefill_legacy :: "cuda_env \<Rightarrow> nat \<Rightarrow> int \<Rightarrow> int list \<Rightarrow> (cuda_engine, generate_result option) act" where
  "prefill_legacy E seq blk prompt =
     andthen (prefill_steps E seq blk (int (length prompt)) 0 prompt) (\<lambda>r.
       case r of Some x \<Rightarrow> ret (Some x) | None \<Rightarrow> andthen (sync_stream E Prefill_Role) (\<lambda>_. ret None))"

text \<open>The megakernel path: as many extra blocks as the prompt has boundaries, then one pass.  The loop over
  \<open>i += block_size\<close> is given by its number of turns.\<close>

fun extend_times :: "nat \<Rightarrow> nat \<Rightarrow> (cuda_engine, bool) act" where
  "extend_times seq 0 = ret True"
| "extend_times seq (Suc n) = andthen (extend_pool seq) (\<lambda>ok. if ok then extend_times seq n else ret False)"

definition boundary_count :: "int \<Rightarrow> int \<Rightarrow> nat" where
  "boundary_count n blk = nat ((n - 1) div blk)"

definition remember_capture :: "cuda_env \<Rightarrow> int \<Rightarrow> (cuda_engine, unit) act" where
  "remember_capture E n = changing (\<lambda>G.
     let bufs = set (mk_buffers (cu_mk G));
         attn = (if Mk_Attn \<in> bufs then Some (cv_attn E (cu_forwards G)) else None);
         hidden = (if Mk_Hidden \<in> bufs then Some (cv_hidden E (cu_forwards G)) else None)
     in case cu_scoring G of None \<Rightarrow> G | Some P \<Rightarrow> G\<lparr>cu_scoring := Some (update_cache attn hidden n n P)\<rparr>)"

definition prefill_mega :: "cuda_env \<Rightarrow> string \<Rightarrow> nat \<Rightarrow> int \<Rightarrow> int list \<Rightarrow> (cuda_engine, generate_result option) act" where
  "prefill_mega E rid seq blk prompt =
     (let n = int (length prompt)
      in andthen (extend_times seq (boundary_count n blk)) (\<lambda>ok.
           if \<not> ok then give_up seq n Unavailable ''KV pool exhausted during prefill''
           else
             andthen (run_megakernel E prompt n 0) (\<lambda>ec.
               if ec \<noteq> Ok then give_up seq n ec ''Megakernel prefill failed''
               else
                 andthen (sync_stream E Prefill_Role) (\<lambda>_.
                 andthen (changing (update_session rid n)) (\<lambda>_.
                 andthen (run_kv_compression E n) (\<lambda>_.
                 andthen (remember_capture E n) (\<lambda>_. ret None)))))))"

section \<open>Decode\<close>

definition stop_token :: "cuda_env \<Rightarrow> cuda_model \<Rightarrow> generate_request \<Rightarrow> int \<Rightarrow> bool" where
  "stop_token E M req tok \<longleftrightarrow>
     \<not> cv_vocab_none E \<and> tok = (case cm_handle M of None \<Rightarrow> -1 | Some h \<Rightarrow> case ll_eos (cl_llama (cv_lib E)) h of None \<Rightarrow> -1 | Some e \<Rightarrow> e) \<or>
     tok \<in> set (g_stop_tokens req)"

text \<open>The callback is called when the request has one.\<close>

definition decode_forward :: "cuda_env \<Rightarrow> bool \<Rightarrow> nat \<Rightarrow> int \<Rightarrow> int \<Rightarrow> (cuda_engine, error_code) act" where
  "decode_forward E use_mk seq tok pos =
     (if use_mk then run_megakernel E [tok] (pos + 1) pos else run_forward E seq tok pos Decode_Role)"

text \<open>One turn after the stop test: the next token, or \<open>None\<close> when the loop breaks.\<close>

definition decode_turn ::
  "cuda_env \<Rightarrow> generate_request \<Rightarrow> bool \<Rightarrow> nat \<Rightarrow> int \<Rightarrow> int \<Rightarrow> int \<Rightarrow> (cuda_engine, int option) act" where
  "decode_turn E req use_mk seq blk tok pos =
     andthen (of_exec (at_boundary pos blk)) (\<lambda>new.
     andthen (if new then extend_pool seq else ret True) (\<lambda>ok.
       if \<not> ok then ret None
       else
         andthen (decode_forward E use_mk seq tok pos) (\<lambda>ec.
           if ec \<noteq> Ok then ret None
           else
             andthen (sync_stream E Decode_Role) (\<lambda>_.
             andthen (sample_logits E) (\<lambda>next_tok.
             andthen (changing (update_session (g_request_id req) (pos + 1))) (\<lambda>_. ret (Some next_tok)))))))"

fun decode_steps ::
  "cuda_env \<Rightarrow> (int \<Rightarrow> string \<Rightarrow> (cuda_engine, unit) act) \<Rightarrow> generate_request \<Rightarrow> bool \<Rightarrow> nat \<Rightarrow> int \<Rightarrow> nat \<Rightarrow> int \<Rightarrow> int \<Rightarrow> int list \<Rightarrow>
   (cuda_engine, int list) act" where
  "decode_steps E cb req use_mk seq blk 0 tok pos acc = ret acc"
| "decode_steps E cb req use_mk seq blk (Suc n) tok pos acc =
     andthen (part cu_model) (\<lambda>M.
       if stop_token E M req tok then ret acc
       else
         andthen (if g_on_token req then cb tok (cuda_detokenize (cv_lib E) M [tok]) else ret ()) (\<lambda>_.
         andthen (decode_turn E req use_mk seq blk tok pos) (\<lambda>r.
           case r of
             None \<Rightarrow> ret (acc @ [tok])
           | Some next_tok \<Rightarrow> decode_steps E cb req use_mk seq blk n next_tok (pos + 1) (acc @ [tok]))))"

section \<open>A request\<close>

definition cuda_result :: "cuda_env \<Rightarrow> cuda_model \<Rightarrow> int \<Rightarrow> int \<Rightarrow> int \<Rightarrow> int list \<Rightarrow> generate_result" where
  "cuda_result E M n_prompt t_start t_end toks = empty_ggml_result
     \<lparr>r_tokens := toks, r_text := concat (map (\<lambda>t. cuda_detokenize (cv_lib E) M [t]) toks), r_prompt_tokens := Some n_prompt,
      r_generated_tokens := Some (int (length toks)), r_time_ms := Some (cv_round E (of_int (tdiv (t_end - t_start) 1000000)))\<rparr>"

definition generate_after_prefill ::
  "cuda_env \<Rightarrow> (int \<Rightarrow> string \<Rightarrow> (cuda_engine, unit) act) \<Rightarrow> generate_request \<Rightarrow> bool \<Rightarrow> nat \<Rightarrow> int \<Rightarrow> int \<Rightarrow> int \<Rightarrow>
   (cuda_engine, generate_result) act" where
  "generate_after_prefill E cb req use_mk seq blk t_start n_prompt =
     andthen (sample_logits E) (\<lambda>tok.
     andthen (decode_steps E cb req use_mk seq blk (nat (g_max_tokens req)) tok n_prompt []) (\<lambda>toks.
     andthen (release_pool seq) (\<lambda>_.
     andthen (cuda_clock E) (\<lambda>t_end.
     andthen (part cu_model) (\<lambda>M.
       ret (cuda_result E M n_prompt t_start t_end toks))))))"

definition generate_body ::
  "cuda_env \<Rightarrow> (int \<Rightarrow> string \<Rightarrow> (cuda_engine, unit) act) \<Rightarrow> generate_request \<Rightarrow> nat \<Rightarrow> int \<Rightarrow> (cuda_engine, generate_result) act" where
  "generate_body E cb req seq t_start =
     andthen (part cu_kv) (\<lambda>A.
     andthen (run_scoring E (g_tokens req)) (\<lambda>prompt.
     andthen (reading (\<lambda>G. ce_use_megakernel (inf_cuda_engine (cu_inf G)))) (\<lambda>use_mk.
     andthen (if use_mk then prefill_mega E (g_request_id req) seq (k_block_size A) prompt
              else prefill_legacy E seq (k_block_size A) prompt) (\<lambda>early.
       case early of
         Some r \<Rightarrow> ret r
       | None \<Rightarrow> generate_after_prefill E cb req use_mk seq (k_block_size A) t_start (int (length prompt))))))"

text \<open>The guard whose destructor removes the session on every way out.\<close>

definition with_session :: "string \<Rightarrow> (cuda_engine, 'a) act \<Rightarrow> (cuda_engine, 'a) act" where
  "with_session rid m G = (case m G of (r, G') \<Rightarrow> (r, unregister_session rid G'))"

definition cuda_generate ::
  "cuda_env \<Rightarrow> (int \<Rightarrow> string \<Rightarrow> (cuda_engine, unit) act) \<Rightarrow> generate_request \<Rightarrow> (cuda_engine, generate_result) act" where
  "cuda_generate E cb req =
     andthen (reading cuda_loaded) (\<lambda>loaded.
       if \<not> loaded then ret (failed_result Unavailable ''Model not loaded'')
       else
         andthen (cuda_clock E) (\<lambda>t_start.
         andthen (stepping (\<lambda>G. (G\<lparr>cu_next_seq := Suc (cu_next_seq G)\<rparr>, cu_next_seq G))) (\<lambda>seq.
         andthen (on_pool (allocate_sequence seq (cast_s32 (int (length (g_tokens req)))))) (\<lambda>ok.
           if \<not> ok then ret (failed_result Unavailable ''KV pool exhausted'')
           else with_session (g_request_id req)
             (andthen (changing (register_session (g_request_id req) seq 0)) (\<lambda>_. generate_body E cb req seq t_start))))))"

section \<open>Injection\<close>

fun reserve_append :: "nat \<Rightarrow> int \<Rightarrow> int \<Rightarrow> nat \<Rightarrow> (cuda_engine, bool) act" where
  "reserve_append seq blk p 0 = ret True"
| "reserve_append seq blk p (Suc n) =
     andthen (if 0 < p then of_exec (at_boundary p blk) else ret False) (\<lambda>new.
     andthen (if new then extend_pool seq else ret True) (\<lambda>ok.
       if ok then reserve_append seq blk (p + 1) n else ret False))"

definition cuda_inject :: "cuda_env \<Rightarrow> string \<Rightarrow> int \<Rightarrow> int list \<Rightarrow> (cuda_engine, error_code) act" where
  "cuda_inject E rid pos tokens =
     (if tokens = [] then ret InvalidArgument
      else
        andthen (reading cuda_loaded) (\<lambda>loaded.
        if \<not> loaded then ret Unavailable
        else
          andthen (reading (\<lambda>G. ce_use_megakernel (inf_cuda_engine (cu_inf G)))) (\<lambda>use_mk.
          if \<not> use_mk then ret NotImplemented
          else
            andthen (reading (\<lambda>G. cu_sessions G rid)) (\<lambda>s.
            case s of
              None \<Rightarrow> ret InvalidArgument
            | Some (seq, len) \<Rightarrow>
                if pos \<noteq> len then ret InvalidArgument
                else
                  andthen (of_exec (s32 (len + cast_s32 (int (length tokens))))) (\<lambda>new_len.
                  andthen (part cu_kv) (\<lambda>A.
                  andthen (reserve_append seq (k_block_size A) len (nat (new_len - len))) (\<lambda>ok.
                    if \<not> ok then ret Unavailable
                    else
                      andthen (run_megakernel E tokens new_len len) (\<lambda>ec.
                        if ec \<noteq> Ok then ret ec
                        else
                          andthen (sync_stream E Decode_Role) (\<lambda>_.
                          andthen (run_kv_compression E (new_len - len)) (\<lambda>_.
                          andthen (changing (update_session rid new_len)) (\<lambda>_. ret Ok)))))))))))"

end
