(* ===== verification/Cuda_Properties.thy ===== *)
theory Cuda_Properties
  imports Cuda_Generate Kv_Properties Ggml_Properties
begin

text \<open>
  What the CUDA engine promises: which sequences hold blocks after a request, where a pass writes, how much of the
  pool a prompt takes, and when an injection is accepted.
\<close>

section \<open>Sequences of the pool\<close>

definition pool_keys :: "cuda_engine \<Rightarrow> nat list option" where
  "pool_keys G = map_option (\<lambda>A. map fst (k_tables A)) (cu_kv G)"

lemma keeps_part: "keeps n (part f)"
  by (simp add: act_rel_def part_def split: option.split)

lemma keeps_simple: "keeps n (require ok)" "keeps n (of_exec x)" "keeps n (ret y)" "keeps n throw" "keeps n (reading g)" "keeps n (stuck u)"
  by (simp_all add: require_def of_exec_def split: sum.split)

lemmas keeps_rules = keeps_andthen keeps_part keeps_simple

lemma update_session_keys [simp]: "pool_keys (update_session rid n G) = pool_keys G"
  by (simp add: update_session_def pool_keys_def split: option.split)

lemma launch_keys: "keeps pool_keys (launch E f g)"
  by (auto intro!: keeps_rules keeps_changing simp: launch_def pool_keys_def)

lemma order_streams_keys: "keeps pool_keys (order_streams E role)"
  by (auto intro!: keeps_rules keeps_changing simp: order_streams_def pool_keys_def split: prod.split option.split)

lemma layers_complete_keys: "keeps pool_keys (layers_complete M)"
  by (auto intro!: keeps_rules simp: layers_complete_def)

lemma run_forward_keys: "keeps pool_keys (run_forward E seq t p role)"
  by (auto intro!: keeps_rules order_streams_keys launch_keys layers_complete_keys simp: run_forward_def split: prod.split)

lemma run_megakernel_keys: "keeps pool_keys (run_megakernel E ts len off)"
  by (auto intro!: keeps_rules launch_keys simp: run_megakernel_def split: sum.split)

lemma sample_keys: "keeps pool_keys (sample_logits E)"
  by (auto intro!: keeps_rules keeps_changing simp: sample_logits_def pool_keys_def)

lemma sync_keys: "keeps pool_keys (sync_stream E role)"
  by (auto intro!: keeps_rules simp: sync_stream_def)

lemma run_scoring_keys: "keeps pool_keys (run_scoring E ts)"
  by (auto intro!: keeps_rules simp: run_scoring_def split: option.split)

lemma remember_capture_keys: "keeps pool_keys (remember_capture E n)"
  by (auto intro!: keeps_changing simp: remember_capture_def pool_keys_def Let_def split: option.split)

lemma compress_layers_tables: "compress_layers E n ls (P, A) = Inr (P', A') \<Longrightarrow> k_tables A' = k_tables A"
proof (induction ls arbitrary: P A)
  case (Cons l ls)
  then obtain P1 A1 where "compress_layer E n l (P, A) = Inr (P1, A1)" "compress_layers E n ls (P1, A1) = Inr (P', A')"
    by (auto simp: ebind_eq_Inr)
  with Cons.IH show ?case by (auto simp: compress_layer_def Let_def ebind_eq_Inr)
qed simp

lemma run_kv_compression_keys: "keeps pool_keys (run_kv_compression E n)"
proof -
  have "pool_keys (snd (run_kv_compression E n G)) = pool_keys G" for G
    by (auto simp: run_kv_compression_def act_defs part_def of_exec_def pool_keys_def dest!: compress_layers_tables
        split: option.splits sum.splits)
  then show ?thesis by (simp add: act_rel_def)
qed

lemma alloc_block_tables: "alloc_block A = Some (b, A') \<Longrightarrow> k_tables A' = k_tables A"
  by (auto simp: alloc_block_def Let_def split: if_splits)

lemma extend_keys: "extend_sequence seq A = (r, A') \<Longrightarrow> map fst (k_tables A') = map fst (k_tables A)"
  by (auto simp: extend_sequence_def table_of_def AList.update_keys dest!: alloc_block_tables map_of_SomeD
      split: option.splits prod.splits) (force intro: rev_image_eqI)

lemma extend_pool_keys: "keeps pool_keys (extend_pool seq)"
proof -
  have "pool_keys (snd (extend_pool seq G)) = pool_keys G" for G
    by (auto simp: extend_pool_def on_pool_def act_defs part_def of_exec_def pool_keys_def dest: extend_keys
        split: option.splits prod.splits)
  then show ?thesis by (simp add: act_rel_def)
qed

lemma decode_turn_keys: "keeps pool_keys (decode_turn E req mk seq blk t p)"
  by (auto intro!: keeps_rules keeps_changing extend_pool_keys run_forward_keys run_megakernel_keys sync_keys sample_keys
      simp: decode_turn_def decode_forward_def)

lemma reserve_append_keys: "keeps pool_keys (reserve_append seq blk p n)"
  by (induction n arbitrary: p) (auto intro!: keeps_rules extend_pool_keys)

text \<open>Injecting from a callback allocates and frees no sequence.\<close>

lemma cuda_inject_keys: "keeps pool_keys (cuda_inject E rid pos ts)"
  by (auto intro!: keeps_rules keeps_changing reserve_append_keys run_megakernel_keys sync_keys run_kv_compression_keys
      simp: cuda_inject_def split: option.split prod.split)

section \<open>What a request leaves in the pool\<close>

abbreviation holds :: "nat list \<Rightarrow> cuda_engine \<Rightarrow> bool" where
  "holds ks \<equiv> \<lambda>G. pool_keys G = Some ks"

lemmas spec_pool = spec_keeps [where n = pool_keys and v = "Some ks" for ks]

lemma fold_free_tables: "k_tables (fold free_block bt A) = k_tables A"
  by (induction bt arbitrary: A) (simp_all add: free_block_rest)

lemma free_keys: "map fst (k_tables (free_sequence seq A)) = removeAll seq (map fst (k_tables A))"
proof (cases "table_of A seq")
  case None
  then have "seq \<notin> set (map fst (k_tables A))" by (simp add: table_of_def map_of_eq_None_iff)
  then show ?thesis using None by (simp add: free_sequence_def)
next
  case (Some bt)
  then show ?thesis by (simp add: free_sequence_def Let_def AList.delete_keys fold_free_tables)
qed

lemma release_spec: "seq \<notin> set ks \<Longrightarrow> spec (holds (ks @ [seq])) (release_pool seq) (\<lambda>_. holds ks) (holds (ks @ [seq]))"
  by (auto simp: spec_def release_pool_def on_pool_def act_defs part_def of_exec_def pool_keys_def free_keys
      split: option.splits prod.splits outcome.splits)

lemma give_up_spec:
  "seq \<notin> set ks \<Longrightarrow> spec (holds (ks @ [seq])) (give_up seq n ec msg) (\<lambda>r. holds (if r = None then ks @ [seq] else ks)) (holds (ks @ [seq]))"
  unfolding give_up_def by (rule spec_andthen [OF release_spec]) (auto intro: spec_ret)

lemma prefill_steps_spec:
  "seq \<notin> set ks \<Longrightarrow> spec (holds (ks @ [seq])) (prefill_steps E seq blk n i ts)
     (\<lambda>r. holds (if r = None then ks @ [seq] else ks)) (holds (ks @ [seq]))"
proof (induction ts arbitrary: i)
  case Nil
  then show ?case by (auto intro: spec_ret)
next
  case (Cons t ts)
  have k: "keeps pool_keys (if 0 < i then of_exec (at_boundary (int i) blk) else ret False)"
    "keeps pool_keys (if new then extend_pool seq else ret True)" for new
    by (auto intro!: keeps_rules extend_pool_keys)
  show ?case
    unfolding prefill_steps.simps
    by (rule spec_andthen [OF spec_pool [OF k(1)]], rule spec_andthen [OF spec_pool [OF k(2)]], rule spec_if,
        rule give_up_spec [OF Cons.prems], rule spec_andthen [OF spec_pool [OF run_forward_keys]], rule spec_if,
        rule give_up_spec [OF Cons.prems], rule Cons.IH [OF Cons.prems])
qed

lemma prefill_legacy_spec:
  assumes "seq \<notin> set ks"
  shows "spec (holds (ks @ [seq])) (prefill_legacy E seq blk prompt) (\<lambda>r. holds (if r = None then ks @ [seq] else ks)) (holds (ks @ [seq]))"
  unfolding prefill_legacy_def
proof (rule spec_andthen [OF prefill_steps_spec [OF assms]])
  fix r :: "generate_result option"
  show "spec (holds (if r = None then ks @ [seq] else ks))
      (case r of None \<Rightarrow> andthen (sync_stream E Prefill_Role) (\<lambda>_. ret None) | Some x \<Rightarrow> ret (Some x))
      (\<lambda>r. holds (if r = None then ks @ [seq] else ks)) (holds (ks @ [seq]))"
  proof (cases r)
    case None
    have "spec (holds (ks @ [seq])) (andthen (sync_stream E Prefill_Role) (\<lambda>_. ret None))
        (\<lambda>r. holds (if r = None then ks @ [seq] else ks)) (holds (ks @ [seq]))"
      by (rule spec_andthen [OF spec_pool [OF sync_keys]], rule spec_ret) simp
    then show ?thesis using None by simp
  qed (auto intro: spec_ret)
qed

lemma extend_times_keys: "keeps pool_keys (extend_times seq n)"
  by (induction n) (auto intro!: keeps_rules extend_pool_keys)

lemma prefill_mega_spec:
  assumes "seq \<notin> set ks"
  shows "spec (holds (ks @ [seq])) (prefill_mega E rid seq blk prompt) (\<lambda>r. holds (if r = None then ks @ [seq] else ks)) (holds (ks @ [seq]))"
  unfolding prefill_mega_def Let_def
  by (rule spec_andthen [OF spec_pool [OF extend_times_keys]], rule spec_if, rule give_up_spec [OF assms],
      rule spec_andthen [OF spec_pool [OF run_megakernel_keys]], rule spec_if, rule give_up_spec [OF assms],
      rule spec_andthen [OF spec_pool [OF sync_keys]], rule spec_andthen [OF spec_pool [OF keeps_changing]], simp,
      rule spec_andthen [OF spec_pool [OF run_kv_compression_keys]], rule spec_andthen [OF spec_pool [OF remember_capture_keys]],
      rule spec_ret, simp)

lemma decode_steps_keys:
  assumes "\<And>t p. keeps pool_keys (cb t p)"
  shows "keeps pool_keys (decode_steps E cb req mk seq blk n t p acc)"
proof (induction n arbitrary: t p acc)
  case (Suc n)
  then show ?case by (auto intro!: keeps_rules assms decode_turn_keys split: option.split)
qed (simp add: keeps_simple)

lemma after_prefill_spec:
  assumes "seq \<notin> set ks" and "\<And>t p. keeps pool_keys (cb t p)"
  shows "spec (holds (ks @ [seq])) (generate_after_prefill E cb req mk seq blk t0 n) (\<lambda>_. holds ks) (holds (ks @ [seq]))"
proof -
  have tail: "spec (holds ks) (andthen (cuda_clock E) (\<lambda>t_end. andthen (part cu_model) (\<lambda>M. ret (cuda_result E M n t0 t_end toks)))) (\<lambda>_. holds ks) (holds (ks @ [seq]))" for toks
    by (auto simp: spec_def act_defs cuda_clock_def part_def pool_keys_def split: option.splits prod.splits outcome.splits)
  show ?thesis
    unfolding generate_after_prefill_def
    by (rule spec_andthen [OF spec_pool [OF sample_keys]], rule spec_andthen [OF spec_pool [OF decode_steps_keys [OF assms(2)]]],
        rule spec_andthen [OF release_spec [OF assms(1)]], rule tail)
qed

lemma generate_body_spec:
  assumes "seq \<notin> set ks" and "\<And>t p. keeps pool_keys (cb t p)"
  shows "spec (holds (ks @ [seq])) (generate_body E cb req seq t0) (\<lambda>_. holds ks) (holds (ks @ [seq]))"
proof -
  have early: "spec (holds (if r = None then ks @ [seq] else ks))
      (case r of None \<Rightarrow> generate_after_prefill E cb req mk seq blk t0 n | Some x \<Rightarrow> ret x) (\<lambda>_. holds ks) (holds (ks @ [seq]))"
    for r :: "generate_result option" and mk blk n
    by (cases r) (auto intro: spec_ret after_prefill_spec [OF assms])
  show ?thesis
    unfolding generate_body_def
    by (rule spec_andthen [OF spec_pool [OF keeps_part]], rule spec_andthen [OF spec_pool [OF run_scoring_keys]],
        rule spec_andthen [OF spec_pool [OF keeps_simple(5)]], rule spec_andthen [OF _ early], rule spec_if,
        rule prefill_mega_spec [OF assms(1)], rule prefill_legacy_spec [OF assms(1)])
qed

lemma allocate_keys:
  assumes "allocate_sequence seq n A = Inr (ok, A')" and "map fst (k_tables A) = ks"
  shows "map fst (k_tables A') = (if ok then ks @ [seq] else ks)"
proof -
  have tables: "alloc_loop alloc_block free_block k [] A = (r, B) \<Longrightarrow> k_tables B = k_tables A" for k r B
    using frame_fields(1) [OF kv.alloc_loop_frame [of k "[]" A]] by simp
  have fresh: "seq \<notin> fst ` set (k_tables A)" if "table_of A seq = None"
    using that by (simp add: table_of_def map_of_eq_None_iff)
  show ?thesis
  proof (cases "table_of A seq = None")
    case True
    with assms fresh tables show ?thesis
      by (auto simp: allocate_sequence_def ebind_eq_Inr AList.update_keys dest: tables split: if_splits option.splits prod.splits)
  next
    case False
    then show ?thesis using assms by (auto simp: allocate_sequence_def)
  qed
qed

lemma with_session_spec:
  assumes "spec P m Q R" and "\<And>x G. Q x G \<Longrightarrow> Q x (unregister_session rid G)" and "\<And>G. R G \<Longrightarrow> R (unregister_session rid G)"
  shows "spec P (with_session rid m) Q R"
  using assms unfolding spec_def with_session_def by (fastforce split: prod.splits outcome.splits)

text \<open>A request up to its allocation.\<close>

lemma generate_allocated:
  assumes "cuda_generate E cb req G = (out, G')" and "pool_keys G = Some ks" and "cuda_loaded G"
  shows "(\<exists>u. out = Stuck u) \<or>
    (\<exists>A. cu_kv G' = Some A \<and> map fst (k_tables A) = ks \<and> out = Ret (failed_result Unavailable ''KV pool exhausted'')) \<or>
    (\<exists>A G1 t0. cu_kv G1 = Some A \<and> pool_keys G1 = Some (ks @ [cu_next_seq G]) \<and>
       allocate_sequence (cu_next_seq G) (cast_s32 (int (length (g_tokens req)))) (the (cu_kv G)) = Inr (True, A) \<and>
       G1 = G\<lparr>cu_reads := Suc (cu_reads G), cu_next_seq := Suc (cu_next_seq G), cu_kv := Some A\<rparr> \<and>
       (out, G') = with_session (g_request_id req) (andthen (changing (register_session (g_request_id req) (cu_next_seq G) 0))
         (\<lambda>_. generate_body E cb req (cu_next_seq G) t0)) G1)"
proof -
  obtain A0 where A0: "cu_kv G = Some A0" "map fst (k_tables A0) = ks" using assms(2) by (auto simp: pool_keys_def)
  let ?n = "cast_s32 (int (length (g_tokens req)))"
  show ?thesis
  proof (cases "allocate_sequence (cu_next_seq G) ?n A0")
    case (Inl u)
    then show ?thesis using assms(1,3) A0
      by (auto simp: cuda_generate_def act_defs cuda_clock_def on_pool_def part_def of_exec_def)
  next
    case (Inr r)
    obtain ok A where r: "r = (ok, A)" by force
    note keys = allocate_keys [OF Inr [unfolded r] A0(2)]
    show ?thesis
    proof (cases ok)
      case False
      then show ?thesis using assms(1,3) A0 Inr r keys
        by (auto simp: cuda_generate_def act_defs cuda_clock_def on_pool_def part_def of_exec_def)
    next
      case True
      then have "(out, G') = with_session (g_request_id req) (andthen (changing (register_session (g_request_id req) (cu_next_seq G) 0))
          (\<lambda>_. generate_body E cb req (cu_next_seq G) (cv_clock E (cu_reads G))))
          (G\<lparr>cu_reads := Suc (cu_reads G), cu_next_seq := Suc (cu_next_seq G), cu_kv := Some A\<rparr>)"
        using assms(1,3) A0 Inr r
        by (simp add: cuda_generate_def andthen_def reading_def stepping_def cuda_clock_def on_pool_def part_def of_exec_def ret_def changing_def)
      moreover have "pool_keys (G\<lparr>cu_reads := Suc (cu_reads G), cu_next_seq := Suc (cu_next_seq G), cu_kv := Some A\<rparr>) = Some (ks @ [cu_next_seq G])"
        using keys True by (simp add: pool_keys_def)
      ultimately show ?thesis using A0(1) Inr r True by auto
    qed
  qed
qed

lemma unregister_keys [simp]: "pool_keys (unregister_session rid G) = pool_keys G"
  by (simp add: unregister_session_def pool_keys_def)

lemma register_keys [simp]: "pool_keys (register_session rid seq n G) = pool_keys G"
  by (simp add: register_session_def pool_keys_def)

lemma session_body_spec:
  assumes "seq \<notin> set ks" and "\<And>t p. keeps pool_keys (cb t p)"
  shows "spec (holds (ks @ [seq])) (with_session rid (andthen (changing (register_session rid seq 0)) (\<lambda>_. generate_body E cb req seq t0)))
    (\<lambda>_. holds ks) (holds (ks @ [seq]))"
  by (rule with_session_spec, rule spec_andthen [OF spec_pool [OF keeps_changing]], simp, rule generate_body_spec [OF assms]) simp_all

text \<open>C11: A request that is answered, in whatever way, leaves the pool with the sequences it found: its own has been freed.
  Its callback may inject tokens.
\<close>

theorem cuda_answer_releases:
  assumes "cuda_generate E cb req G = (Ret r, G')" and "pool_keys G = Some ks" and "cu_next_seq G \<notin> set ks"
    and "\<And>t p. keeps pool_keys (cb t p)"
  shows "pool_keys G' = Some ks"
proof (cases "cuda_loaded G")
  case True
  from generate_allocated [OF assms(1,2) True] consider
    A where "cu_kv G' = Some A" "map fst (k_tables A) = ks"
  | G1 t0 where "pool_keys G1 = Some (ks @ [cu_next_seq G])"
      "(Ret r, G') = with_session (g_request_id req) (andthen (changing (register_session (g_request_id req) (cu_next_seq G) 0))
         (\<lambda>_. generate_body E cb req (cu_next_seq G) t0)) G1"
    by blast
  then show ?thesis
  proof cases
    case 1
    then show ?thesis by (simp add: pool_keys_def)
  next
    case 2
    from specD_Ret [OF session_body_spec [OF assms(3,4)] 2(1) 2(2) [symmetric]] show ?thesis .
  qed
next
  case False
  then show ?thesis using assms(1,2) by (simp add: cuda_generate_def act_defs)
qed


section \<open>A concrete engine\<close>

text \<open>A model of one layer, which always says \<open>7\<close>, on a pool of four blocks of two tokens; the calls of the pass
  numbered \<open>bad\<close> fail.\<close>

definition demo_cuda_lib :: cuda_lib where
  "demo_cuda_lib = \<lparr>cl_llama = demo_lib, cl_heads = (\<lambda>_. 1), cl_kv_heads = (\<lambda>_. 1), cl_tensor = (\<lambda>_ _. None), cl_desc = (\<lambda>_. []),
     cl_stof = (\<lambda>_. None), cl_pow = (\<lambda>x _. x), cl_cos = id, cl_sin = id, cl_backend = (\<lambda>_. True), cl_upload = (\<lambda>_. True)\<rparr>"

definition demo_cuda_env :: "nat \<Rightarrow> cuda_env" where
  "demo_cuda_env bad = \<lparr>cv_float = \<lparr>fl = Finite, float_log = id, partial_sort = (\<lambda>_ _ xs. xs)\<rparr>, cv_round = id, cv_lib = demo_cuda_lib,
     cv_device = undefined, cv_order = (\<lambda>_ _ n. [0..<n]), cv_gpu = None, cv_nccl = None, cv_cuda = (\<lambda>_. True), cv_malloc = (\<lambda>_. True),
     cv_mem_free = 1000, cv_junk = (\<lambda>_. 0), cv_coop = False, cv_sm_major = 8, cv_forward_ok = (\<lambda>fs. length fs \<noteq> bad),
     cv_logits = (\<lambda>_ _. Finite 0), cv_argmax = (\<lambda>_. 7), cv_attn = (\<lambda>_. []), cv_hidden = (\<lambda>_. []), cv_select = (\<lambda>_ _ _. 7),
     cv_vocab_none = False, cv_clock = int\<rparr>"

definition demo_tensor :: tensor_info where
  "demo_tensor = \<lparr>ti_data = 1, ti_bytes = 2, ti_ne = [1, 1, 1, 1], ti_nb = [2, 2, 2, 2], ti_elem = 2\<rparr>"

definition demo_cuda_model :: cuda_model where
  "demo_cuda_model = new_cuda_model\<lparr>cm_handle := Some 0, cm_layers := 1, cm_heads := 1, cm_kv_heads := 1, cm_head_dim := 1, cm_hidden := 1,
     cm_ctx_train := 8, cm_vocab := 1, cm_layer_tensors := [map (\<lambda>r. (r, demo_tensor)) layer_roles],
     cm_global_tensors := map (\<lambda>r. (r, demo_tensor)) global_names, cm_backend := True\<rparr>"

definition demo_pool :: kv_state where
  "demo_pool = \<lparr>k_block_size = 2, k_max_blocks = 4, k_max_per_seq = 4, k_layers = 1, k_kv_heads = 1, k_head_size = 1, k_fp8 = False,
     k_dev = (\<lambda>_. 0), k_host = (\<lambda>_. 0), k_host_blocks = 0, k_tables = [], k_refs = [0, 0, 0, 0], k_free = [0, 1, 2, 3],
     k_evicted = Map.empty\<rparr>"

definition demo_cuda :: cuda_engine where
  "demo_cuda = (new_cuda_engine default_inference default_hardware default_sampling)\<lparr>cu_model := Some demo_cuda_model,
     cu_kv := Some demo_pool, cu_streams := Some \<lparr>st_ops = [[], [], []], st_events = replicate 16 None, st_next = 0, st_device = 0\<rparr>,
     cu_sampler := Some \<lparr>gs_chain = [], gs_accepted = []\<rparr>, cu_gallocr := True, cu_scratch := True, cu_v2_max := 1\<rparr>"

definition demo_creq :: generate_request where
  "demo_creq = demo_greq\<lparr>g_tokens := [5], g_max_tokens := 1, g_on_token := False, g_request_id := ''r''\<rparr>"

lemmas demo_cuda_defs = demo_cuda_lib_def demo_cuda_env_def demo_tensor_def demo_cuda_model_def demo_pool_def demo_cuda_def demo_creq_def
  demo_greq_def demo_lib_def

lemmas demo_cuda_steps = cuda_generate_def act_defs cuda_clock_def on_pool_def part_def of_exec_def require_def with_session_def
  register_session_def unregister_session_def update_session_def generate_body_def run_scoring_def prefill_legacy_def sync_stream_def
  run_forward_def slot_and_table_def order_streams_def layers_complete_def attention_parts_def v2_partitions_def launch_def
  logits_readable_def generate_after_prefill_def sample_logits_def decode_turn_def decode_forward_def at_boundary_def extend_pool_def
  release_pool_def stop_token_def cuda_result_def cuda_loaded_def cuda_model_loaded_def

lemmas demo_pool_steps = allocate_sequence_def blocks_needed_def table_of_def alloc_block_def extend_sequence_def free_sequence_def
  free_block_def get_device_slot_mapping_def get_device_block_table_def
  slot_of_def global_tensor_def global_names_def layer_roles_def needed_roles_def
  record_event_def wait_event_def sync_role_def Let_def

lemmas demo_base_steps = new_cuda_engine_def new_cuda_model_def default_inference_def default_cuda_engine_def
  cast_s32_def s32_def in_s32_def tdiv_def tmod_def

abbreviation demo_cuda_request :: "nat \<Rightarrow> generate_result outcome \<times> cuda_engine" where
  "demo_cuda_request bad \<equiv> cuda_generate (demo_cuda_env bad) (\<lambda>_ _. ret ()) demo_creq demo_cuda"

lemma demo_cuda_answers: "\<exists>r. fst (demo_cuda_request 0) = Ret r \<and> r_tokens r = [7] \<and> r_error r = Ok"
  by (simp add: demo_cuda_defs demo_cuda_steps demo_pool_steps demo_base_steps empty_ggml_result_def)

lemma demo_cuda_throws: "fst (demo_cuda_request 2) = Threw"
  by (simp add: demo_cuda_defs demo_cuda_steps demo_pool_steps demo_base_steps)

lemma demo_cuda_pool: "pool_keys demo_cuda = Some []" "cu_next_seq demo_cuda = 1" "cu_scoring demo_cuda = None" "cu_forwards demo_cuda = []"
    "cu_kv demo_cuda \<noteq> None"
  by (simp_all add: demo_cuda_def new_cuda_engine_def pool_keys_def demo_pool_def)

theorem cuda_answer_releases_witness: "pool_keys (snd (demo_cuda_request 0)) = Some []"
proof -
  obtain r where "demo_cuda_request 0 = (Ret r, snd (demo_cuda_request 0))" using demo_cuda_answers by (metis prod.collapse)
  from cuda_answer_releases [OF this] demo_cuda_pool show ?thesis by (simp add: keeps_simple)
qed


end
