(* ===== verification/Cuda_Positions.thy ===== *)
theory Cuda_Positions
  imports Cuda_Properties
begin

text \<open>
  Where the passes of the CUDA engine write, what an answer holds, and how injection and generation meet.
\<close>

section \<open>Positions\<close>

text \<open>The tokens a pass puts into the cache, with their positions.\<close>

fun at_pos :: "int \<Rightarrow> int list \<Rightarrow> (int \<times> int) list" where
  "at_pos p [] = []"
| "at_pos p (t # ts) = (t, p) # at_pos (p + 1) ts"

fun pass_writes :: "forward \<Rightarrow> (int \<times> int) list" where
  "pass_writes (Step seq tok pos slot table) = [(tok, pos)]"
| "pass_writes (Mega toks kv_len offset) = at_pos offset toks"

definition writes :: "cuda_engine \<Rightarrow> (int \<times> int) list" where
  "writes G = concat (map pass_writes (cu_forwards G))"

lemma at_pos_append: "at_pos p (xs @ ys) = at_pos p xs @ at_pos (p + int (length xs)) ys"
  by (induction xs arbitrary: p) (simp_all add: algebra_simps)

abbreviation wrote :: "(int \<times> int) list \<Rightarrow> cuda_engine \<Rightarrow> bool" where
  "wrote v \<equiv> \<lambda>G. writes G = v"

abbreviation anyway :: "cuda_engine \<Rightarrow> bool" where
  "anyway \<equiv> \<lambda>_. True"

lemma spec_wrote: "keeps writes m \<Longrightarrow> spec (wrote v) m (\<lambda>_. wrote v) anyway"
  by (rule spec_weaken [OF spec_keeps [where n = writes and v = v]]) simp_all

lemma writes_simps [simp]:
  "writes (update_session rid n G) = writes G" "writes (register_session rid seq n G) = writes G"
  "writes (unregister_session rid G) = writes G"
  by (simp_all add: writes_def update_session_def register_session_def unregister_session_def split: option.split)

lemma launch_wrote: "spec (wrote v) (launch E f g) (\<lambda>_. wrote (v @ pass_writes f)) anyway"
  by (auto simp: spec_def launch_def act_defs require_def writes_def split: outcome.splits prod.splits)

lemma order_streams_writes: "keeps writes (order_streams E role)"
  by (auto intro!: keeps_rules keeps_changing simp: order_streams_def writes_def split: prod.split option.split)

lemma layers_complete_writes: "keeps writes (layers_complete M)"
  by (auto intro!: keeps_rules simp: layers_complete_def)

lemma run_forward_wrote:
  "spec (wrote v) (run_forward E seq t p role) (\<lambda>ec. wrote (if ec = Ok then v @ [(t, p)] else v)) anyway"
proof -
  have fin: "spec (wrote v) (andthen (launch E (Step seq t p slot table) g) (\<lambda>_. ret Ok)) (\<lambda>ec. wrote (if ec = Ok then v @ [(t, p)] else v)) anyway"
    for slot table g
    by (rule spec_andthen [OF launch_wrote]) (auto intro: spec_ret)
  show ?thesis
    unfolding run_forward_def
    by (rule spec_andthen [OF spec_wrote [OF keeps_part]], rule spec_if, rule spec_ret, simp,
        rule spec_andthen [OF spec_wrote [OF keeps_part]], rule spec_andthen [OF spec_wrote [OF keeps_simple(2)]],
        simp only: split_beta,
        rule spec_andthen [OF spec_wrote [OF order_streams_writes]], rule spec_andthen [OF spec_wrote [OF keeps_simple(2)]],
        rule spec_andthen [OF spec_wrote], (simp add: keeps_simple), rule spec_andthen [OF spec_wrote [OF layers_complete_writes]],
        rule spec_andthen [OF spec_wrote [OF keeps_simple(2)]], rule spec_andthen [OF spec_wrote [OF keeps_simple(5)]],
        rule spec_andthen [OF spec_wrote], (simp add: keeps_simple), rule spec_andthen [OF spec_wrote], (simp add: keeps_simple), rule fin)
qed

lemma run_megakernel_wrote:
  "spec (wrote v) (run_megakernel E ts len off) (\<lambda>ec. wrote (if ec = Ok then v @ at_pos off ts else v)) anyway"
proof -
  have fin: "spec (wrote v) (andthen (launch E (Mega ts len off) g) (\<lambda>_. ret Ok)) (\<lambda>ec. wrote (if ec = Ok then v @ at_pos off ts else v)) anyway" for g
    by (rule spec_andthen [OF launch_wrote]) (auto intro: spec_ret)
  show ?thesis
    unfolding run_megakernel_def
    by (rule spec_andthen [OF spec_wrote [OF keeps_part]], rule spec_andthen [OF spec_wrote [OF keeps_simple(5)]],
        rule spec_andthen [OF spec_wrote [OF keeps_simple(1)]], rule spec_andthen [OF spec_wrote], (simp add: keeps_simple),
        rule spec_andthen [OF spec_wrote], (simp add: keeps_simple split: sum.split), rule fin)
qed

lemma sample_writes: "keeps writes (sample_logits E)"
  by (auto intro!: keeps_rules keeps_changing simp: sample_logits_def writes_def)

lemma sync_writes: "keeps writes (sync_stream E role)"
  by (auto intro!: keeps_rules simp: sync_stream_def)

lemma on_pool_writes: "keeps writes (on_pool f)"
  by (auto intro!: keeps_rules keeps_changing simp: on_pool_def writes_def split: prod.split)

lemma pool_writes: "keeps writes (extend_pool seq)" "keeps writes (release_pool seq)"
  by (simp_all add: extend_pool_def release_pool_def on_pool_writes)

lemma remember_capture_writes: "keeps writes (remember_capture E n)"
  by (auto intro!: keeps_changing simp: remember_capture_def writes_def Let_def split: option.split)

lemma run_kv_compression_writes: "keeps writes (run_kv_compression E n)"
  by (auto intro!: keeps_rules keeps_changing simp: run_kv_compression_def writes_def split: option.split prod.split)

lemma extend_times_writes: "keeps writes (extend_times seq n)"
  by (induction n) (auto intro!: keeps_rules pool_writes)

section \<open>Prefill and decode\<close>

lemma give_up_early: "spec P (give_up seq n ec msg) (\<lambda>r _. \<exists>x. r = Some x \<and> r_error x = ec) anyway"
  unfolding give_up_def
  by (rule spec_andthen [where Q = "\<lambda>_ _. True"], simp add: spec_def split: prod.split outcome.split, rule spec_ret)
     (simp add: failed_result_def)

text \<open>A prefill that goes on has written the prompt; one that gives up says why.\<close>

definition prefilled :: "(int \<times> int) list \<Rightarrow> generate_result option \<Rightarrow> cuda_engine \<Rightarrow> bool" where
  "prefilled v r G \<longleftrightarrow> (case r of None \<Rightarrow> writes G = v | Some x \<Rightarrow> r_error x \<noteq> Ok)"

lemma prefilled_None: "prefilled v None = wrote v"
  by (rule ext) (simp add: prefilled_def)

lemma give_up_prefilled: "ec \<noteq> Ok \<Longrightarrow> spec P (give_up seq n ec msg) (prefilled v) anyway"
  by (rule spec_weaken [OF give_up_early]) (auto simp: prefilled_def)

lemma prefill_steps_wrote:
  "spec (wrote v) (prefill_steps E seq blk n i ts) (prefilled (v @ at_pos (int i) ts)) anyway"
proof (induction ts arbitrary: i v)
  case Nil
  then show ?case by (auto intro!: spec_ret simp: prefilled_def)
next
  case (Cons t ts)
  have k: "keeps writes (if 0 < i then of_exec (at_boundary (int i) blk) else ret False)"
    "keeps writes (if new then extend_pool seq else ret True)" for new
    by (auto intro!: keeps_rules pool_writes)
  have step: "spec (wrote (if ec = Ok then v @ [(t, int i)] else v))
      (if ec \<noteq> Ok then give_up seq n ec ''Prefill step failed'' else prefill_steps E seq blk n (Suc i) ts)
      (prefilled (v @ at_pos (int i) (t # ts))) anyway" for ec
    using Cons.IH [of "v @ [(t, int i)]" "Suc i"] by (auto intro: give_up_prefilled simp: add.commute)
  show ?case
    unfolding prefill_steps.simps
    by (rule spec_andthen [OF spec_wrote [OF k(1)]], rule spec_andthen [OF spec_wrote [OF k(2)]], rule spec_if,
        rule give_up_prefilled, simp, rule spec_andthen [OF run_forward_wrote step])
qed

lemma prefill_legacy_wrote: "spec (wrote v) (prefill_legacy E seq blk ts) (prefilled (v @ at_pos 0 ts)) anyway"
  unfolding prefill_legacy_def
proof (rule spec_andthen [OF prefill_steps_wrote [where i = 0, simplified]])
  fix r :: "generate_result option"
  show "spec (prefilled (v @ at_pos 0 ts) r) (case r of None \<Rightarrow> andthen (sync_stream E Prefill_Role) (\<lambda>_. ret None) | Some x \<Rightarrow> ret (Some x))
      (prefilled (v @ at_pos 0 ts)) anyway"
  proof (cases r)
    case None
    have "spec (wrote (v @ at_pos 0 ts)) (andthen (sync_stream E Prefill_Role) (\<lambda>_. ret None)) (prefilled (v @ at_pos 0 ts)) anyway"
      by (rule spec_andthen [OF spec_wrote [OF sync_writes]], rule spec_ret) (simp add: prefilled_def)
    then show ?thesis using None by (simp add: prefilled_None)
  qed (auto intro: spec_ret)
qed

lemma prefill_mega_wrote: "spec (wrote v) (prefill_mega E rid seq blk ts) (prefilled (v @ at_pos 0 ts)) anyway"
proof -
  have tail: "spec (wrote (if ec = Ok then v @ at_pos 0 ts else v))
      (if ec \<noteq> Ok then give_up seq (int (length ts)) ec ''Megakernel prefill failed''
       else andthen (sync_stream E Prefill_Role) (\<lambda>_. andthen (changing (update_session rid (int (length ts)))) (\<lambda>_.
         andthen (run_kv_compression E (int (length ts))) (\<lambda>_. andthen (remember_capture E (int (length ts))) (\<lambda>_. ret None)))))
      (prefilled (v @ at_pos 0 ts)) anyway" for ec
  proof (cases "ec = Ok")
    case True
    have "spec (wrote (v @ at_pos 0 ts)) (andthen (sync_stream E Prefill_Role) (\<lambda>_. andthen (changing (update_session rid (int (length ts)))) (\<lambda>_.
        andthen (run_kv_compression E (int (length ts))) (\<lambda>_. andthen (remember_capture E (int (length ts))) (\<lambda>_. ret None)))))
        (prefilled (v @ at_pos 0 ts)) anyway"
      by (rule spec_andthen [OF spec_wrote [OF sync_writes]], rule spec_andthen [OF spec_wrote [OF keeps_changing]], simp,
          rule spec_andthen [OF spec_wrote [OF run_kv_compression_writes]],
          rule spec_andthen [OF spec_wrote [OF remember_capture_writes]], rule spec_ret, simp add: prefilled_def)
    then show ?thesis using True by simp
  qed (simp add: give_up_prefilled)
  show ?thesis
    unfolding prefill_mega_def Let_def
    by (rule spec_andthen [OF spec_wrote [OF extend_times_writes]], rule spec_if, rule give_up_prefilled, simp,
        rule spec_andthen [OF run_megakernel_wrote tail])
qed

lemma decode_turn_wrote:
  "spec (wrote v) (decode_turn E req mk seq blk t p) (\<lambda>r G. if r = None then writes G = v \<or> writes G = v @ [(t, p)] else writes G = v @ [(t, p)]) anyway"
proof -
  let ?Q = "\<lambda>r G. if r = None then writes G = v \<or> writes G = v @ [(t, p)] else writes G = v @ [(t, p)]"
  have fw: "spec (wrote v) (decode_forward E mk seq t p) (\<lambda>ec. wrote (if ec = Ok then v @ [(t, p)] else v)) anyway"
    using run_forward_wrote [of v E seq t p Decode_Role] run_megakernel_wrote [of v E "[t]" "p + 1" p]
    unfolding at_pos.simps by (simp add: decode_forward_def)
  have tail: "spec (wrote (v @ [(t, p)])) (andthen (sync_stream E Decode_Role) (\<lambda>_. andthen (sample_logits E) (\<lambda>next_tok.
      andthen (changing (update_session (g_request_id req) (p + 1))) (\<lambda>_. ret (Some next_tok))))) ?Q anyway"
    by (rule spec_andthen [OF spec_wrote [OF sync_writes]], rule spec_andthen [OF spec_wrote [OF sample_writes]],
        rule spec_andthen [OF spec_wrote [OF keeps_changing]], simp, rule spec_ret, simp)
  have after: "spec (wrote (if ec = Ok then v @ [(t, p)] else v)) (if ec \<noteq> Ok then ret None
      else andthen (sync_stream E Decode_Role) (\<lambda>_. andthen (sample_logits E) (\<lambda>next_tok.
      andthen (changing (update_session (g_request_id req) (p + 1))) (\<lambda>_. ret (Some next_tok))))) ?Q anyway" for ec
    using tail by (auto intro: spec_ret)
  have k: "keeps writes (of_exec (at_boundary p blk))" "keeps writes (if new then extend_pool seq else ret True)" for new
    by (auto intro!: keeps_rules pool_writes)
  show ?thesis
    unfolding decode_turn_def
    by (rule spec_andthen [OF spec_wrote [OF k(1)]], rule spec_andthen [OF spec_wrote [OF k(2)]], rule spec_if,
        rule spec_ret, simp, rule spec_andthen [OF fw after])
qed

text \<open>What the decode loop adds: tokens that are no stop tokens of the request, of which all but perhaps the last are
  written.\<close>

definition decoded :: "int list \<Rightarrow> (int \<times> int) list \<Rightarrow> int list \<Rightarrow> int \<Rightarrow> nat \<Rightarrow> int list \<Rightarrow> cuda_engine \<Rightarrow> bool" where
  "decoded stops v acc p n toks G \<longleftrightarrow>
     (\<exists>new fed. toks = acc @ new \<and> length new \<le> n \<and> set new \<inter> set stops = {} \<and> (fed = new \<or> fed = butlast new) \<and>
        writes G = v @ at_pos p fed)"

lemma decoded_stop: "writes G = v \<Longrightarrow> decoded stops v acc p n acc G"
  unfolding decoded_def by (rule exI [of _ "[]"], rule exI [of _ "[]"]) simp

lemma decoded_break:
  assumes "writes G = v \<or> writes G = v @ [(t, p)]" and "t \<notin> set stops"
  shows "decoded stops v acc p (Suc n) (acc @ [t]) G"
proof -
  have "(if writes G = v then [] else [t]) = [t] \<or> (if writes G = v then [] else [t]) = butlast [t]"
    "writes G = v @ at_pos p (if writes G = v then [] else [t])"
    using assms(1) by auto
  then show ?thesis
    using assms(2) unfolding decoded_def by (intro exI [of _ "[t]"] exI [of _ "if writes G = v then [] else [t]"]) simp
qed

lemma decoded_step:
  assumes "decoded stops (v @ [(t, p)]) (acc @ [t]) (p + 1) n toks G" and "t \<notin> set stops"
  shows "decoded stops v acc p (Suc n) toks G"
proof -
  obtain new fed where *: "toks = acc @ t # new" "length new \<le> n" "set new \<inter> set stops = {}" "fed = new \<or> fed = butlast new"
      "writes G = v @ at_pos p (t # fed)"
    using assms(1) unfolding decoded_def by auto
  show ?thesis
  proof (cases "fed = new")
    case True
    then show ?thesis using * assms(2) unfolding decoded_def by (intro exI [of _ "t # new"]) auto
  next
    case False
    then have "new \<noteq> []" "fed = butlast new" using *(4) by auto
    then show ?thesis using * assms(2) unfolding decoded_def by (intro exI [of _ "t # new"] exI [of _ "t # fed"]) auto
  qed
qed

lemma decode_steps_wrote:
  assumes "\<And>t p. keeps writes (cb t p)"
  shows "spec (wrote v) (decode_steps E cb req mk seq blk n t p acc) (decoded (g_stop_tokens req) v acc p n) anyway"
proof (induction n arbitrary: t p acc v)
  case 0
  then show ?case by (auto intro!: spec_ret decoded_stop)
next
  case (Suc n)
  let ?st = "g_stop_tokens req"
  have k: "keeps writes (if g_on_token req then cb t x else ret ())" for x
    using assms by (auto intro!: keeps_rules)
  have next_turn: "spec (\<lambda>G. if r = None then writes G = v \<or> writes G = v @ [(t, p)] else writes G = v @ [(t, p)])
      (case r of None \<Rightarrow> ret (acc @ [t]) | Some t' \<Rightarrow> decode_steps E cb req mk seq blk n t' (p + 1) (acc @ [t]))
      (decoded ?st v acc p (Suc n)) anyway" if "t \<notin> set ?st" for r
  proof (cases r)
    case None
    then show ?thesis using that by (auto intro!: spec_ret decoded_break)
  next
    case (Some t')
    then show ?thesis
      using spec_weaken [OF Suc.IH [of "v @ [(t, p)]" t' "p + 1" "acc @ [t]"], where P' = "wrote (v @ [(t, p)])" and Q' = "decoded ?st v acc p (Suc n)" and R' = anyway]
        that by (simp add: decoded_step)
  qed
  show ?case
    unfolding decode_steps.simps
  proof (rule spec_andthen [OF spec_wrote [OF keeps_part]], rule spec_if, goal_cases)
    case (1 M)
    then show ?case by (auto intro!: spec_ret decoded_stop)
  next
    case (2 M)
    then have "t \<notin> set ?st" by (simp add: stop_token_def)
    from next_turn [OF this] show ?case
      by (intro spec_andthen [OF spec_wrote [OF k]], intro spec_andthen [OF decode_turn_wrote]) simp
  qed
qed

section \<open>A whole request\<close>

lemma run_scoring_wrote:
  "spec (\<lambda>G. writes G = v \<and> cu_scoring G = None) (run_scoring E ts) (\<lambda>ts'. \<lambda>G. ts' = ts \<and> writes G = v) anyway"
  by (auto simp: spec_def run_scoring_def act_defs)

text \<open>An answer without an error: the prompt and then its tokens, from position 0 on.\<close>

definition answered :: "(int \<times> int) list \<Rightarrow> generate_request \<Rightarrow> generate_result \<Rightarrow> cuda_engine \<Rightarrow> bool" where
  "answered v req r G \<longleftrightarrow> (r_error r = Ok \<longrightarrow>
     (\<exists>fed. (fed = r_tokens r \<or> fed = butlast (r_tokens r)) \<and> length (r_tokens r) \<le> nat (g_max_tokens req) \<and>
        set (r_tokens r) \<inter> set (g_stop_tokens req) = {} \<and> writes G = v @ at_pos 0 (g_tokens req @ fed)))"

lemma after_prefill_wrote:
  assumes "\<And>t p. keeps writes (cb t p)"
  shows "spec (wrote (v @ at_pos 0 (g_tokens req))) (generate_after_prefill E cb req mk seq blk t0 (int (length (g_tokens req))))
    (answered v req) anyway"
proof -
  have tail: "spec (decoded (g_stop_tokens req) (v @ at_pos 0 (g_tokens req)) [] (int (length (g_tokens req))) (nat (g_max_tokens req)) toks)
      (andthen (release_pool seq) (\<lambda>_. andthen (cuda_clock E) (\<lambda>t_end. andthen (part cu_model) (\<lambda>M. ret (cuda_result E M n t0 t_end toks)))))
      (answered v req) anyway" for toks n
  proof -
    have "spec (\<lambda>G. writes G = w) (andthen (release_pool seq) (\<lambda>_. andthen (cuda_clock E) (\<lambda>t_end. andthen (part cu_model) (\<lambda>M.
        ret (cuda_result E M n t0 t_end toks))))) (\<lambda>r G. r_tokens r = toks \<and> writes G = w) anyway" for w n
    proof (rule spec_andthen [OF spec_wrote [OF pool_writes(2)]], rule spec_andthen [OF spec_wrote])
      show "keeps writes (cuda_clock E)" by (simp add: act_rel_def cuda_clock_def writes_def)
      show "spec (wrote w) (andthen (part cu_model) (\<lambda>M. ret (cuda_result E M n t0 t_end toks))) (\<lambda>r G. r_tokens r = toks \<and> writes G = w) anyway" for t_end
        by (rule spec_andthen [OF spec_wrote [OF keeps_part]], rule spec_ret) (simp add: cuda_result_def)
    qed
    then show ?thesis
      unfolding spec_def answered_def decoded_def by (fastforce simp: at_pos_append split: outcome.splits prod.splits)
  qed
  show ?thesis
    unfolding generate_after_prefill_def
    by (rule spec_andthen [OF spec_wrote [OF sample_writes]], rule spec_andthen [OF decode_steps_wrote [OF assms] tail])
qed

lemma generate_body_wrote:
  assumes "\<And>t p. keeps writes (cb t p)"
  shows "spec (\<lambda>G. writes G = v \<and> cu_scoring G = None) (generate_body E cb req seq t0) (answered v req) anyway"
proof -
  let ?I = "\<lambda>G. writes G = v \<and> cu_scoring G = None"
  have early: "spec (prefilled (v @ at_pos 0 (g_tokens req)) e)
      (case e of Some r \<Rightarrow> ret r | None \<Rightarrow> generate_after_prefill E cb req mk seq blk t0 (int (length (g_tokens req)))) (answered v req) anyway"
    for e mk blk
    using after_prefill_wrote [OF assms] by (cases e) (auto intro!: spec_ret simp: prefilled_None prefilled_def answered_def)
  have rest: "spec (\<lambda>G. prompt = g_tokens req \<and> writes G = v)
      (andthen (reading (\<lambda>G. ce_use_megakernel (inf_cuda_engine (cu_inf G)))) (\<lambda>use_mk.
       andthen (if use_mk then prefill_mega E (g_request_id req) seq blk prompt else prefill_legacy E seq blk prompt) (\<lambda>early.
         case early of Some r \<Rightarrow> ret r | None \<Rightarrow> generate_after_prefill E cb req use_mk seq blk t0 (int (length prompt)))))
      (answered v req) anyway" for prompt blk
  proof (cases "prompt = g_tokens req")
    case True
    have pre: "spec (wrote v) (if use_mk then prefill_mega E (g_request_id req) seq blk prompt else prefill_legacy E seq blk prompt)
        (prefilled (v @ at_pos 0 (g_tokens req))) anyway" for use_mk
      using True prefill_mega_wrote prefill_legacy_wrote by simp
    have "spec (wrote v) (andthen (reading (\<lambda>G. ce_use_megakernel (inf_cuda_engine (cu_inf G)))) (\<lambda>use_mk.
       andthen (if use_mk then prefill_mega E (g_request_id req) seq blk prompt else prefill_legacy E seq blk prompt) (\<lambda>early.
         case early of Some r \<Rightarrow> ret r | None \<Rightarrow> generate_after_prefill E cb req use_mk seq blk t0 (int (length prompt)))))
      (answered v req) anyway"
      using early unfolding True by (intro spec_andthen [OF spec_wrote [OF keeps_simple(5)]] spec_andthen [OF pre [unfolded True]])
    then show ?thesis using True by simp
  qed (simp add: spec_def)
  have k: "spec ?I (part cu_kv) (\<lambda>_. ?I) anyway" by (auto simp: spec_def part_def split: option.split)
  show ?thesis
    unfolding generate_body_def by (rule spec_andthen [OF k], rule spec_andthen [OF run_scoring_wrote rest])
qed



section \<open>Injection\<close>

lemma reserve_append_writes: "keeps writes (reserve_append seq blk p n)"
  by (induction n arbitrary: p) (auto intro!: keeps_rules pool_writes)

text \<open>Where an injection wrote: nowhere unless it was accepted.\<close>

definition injected :: "(int \<times> int) list \<Rightarrow> int \<Rightarrow> int list \<Rightarrow> error_code \<Rightarrow> cuda_engine \<Rightarrow> bool" where
  "injected v pos ts ec G \<longleftrightarrow> writes G = (if ec = Ok then v @ at_pos pos ts else v)"

lemma cuda_inject_wrote: "spec (wrote v) (cuda_inject E rid pos ts) (injected v pos ts) anyway"
proof -
  have refuse: "ec \<noteq> Ok \<Longrightarrow> spec (wrote v) (ret ec) (injected v pos ts) anyway" for ec
    by (rule spec_ret) (simp add: injected_def)
  have tail: "spec (wrote (if ec = Ok then v @ at_pos pos ts else v)) (if ec \<noteq> Ok then ret ec
      else andthen (sync_stream E Decode_Role) (\<lambda>_. andthen (run_kv_compression E n) (\<lambda>_.
        andthen (changing (update_session rid l)) (\<lambda>_. ret Ok)))) (injected v pos ts) anyway" for ec n l
  proof (cases "ec = Ok")
    case True
    have "spec (wrote (v @ at_pos pos ts)) (andthen (sync_stream E Decode_Role) (\<lambda>_. andthen (run_kv_compression E n) (\<lambda>_.
        andthen (changing (update_session rid l)) (\<lambda>_. ret Ok)))) (injected v pos ts) anyway"
      by (rule spec_andthen [OF spec_wrote [OF sync_writes]], rule spec_andthen [OF spec_wrote [OF run_kv_compression_writes]],
          rule spec_andthen [OF spec_wrote [OF keeps_changing]], simp, rule spec_ret, simp add: injected_def)
    then show ?thesis using True by simp
  qed (simp add: refuse)
  have body: "spec (wrote v)
      (case s of None \<Rightarrow> ret InvalidArgument
       | Some (seq, len) \<Rightarrow> if pos \<noteq> len then ret InvalidArgument
           else andthen (of_exec (s32 (len + cast_s32 (int (length ts))))) (\<lambda>new_len.
                andthen (part cu_kv) (\<lambda>A. andthen (reserve_append seq (k_block_size A) len (nat (new_len - len))) (\<lambda>ok.
                  if \<not> ok then ret Unavailable
                  else andthen (run_megakernel E ts new_len len) (\<lambda>ec. if ec \<noteq> Ok then ret ec
                    else andthen (sync_stream E Decode_Role) (\<lambda>_. andthen (run_kv_compression E (new_len - len)) (\<lambda>_.
                         andthen (changing (update_session rid new_len)) (\<lambda>_. ret Ok))))))))
      (injected v pos ts) anyway" for s :: "(nat \<times> int) option"
  proof (cases s)
    case (Some p)
    then obtain seq len where s: "s = Some (seq, len)" by force
    show ?thesis
    proof (cases "pos = len")
      case True
      show ?thesis
        unfolding s True option.case prod.case
        by (rule spec_if, rule refuse [unfolded True], simp, rule spec_andthen [OF spec_wrote [OF keeps_simple(2)]],
            rule spec_andthen [OF spec_wrote [OF keeps_part]], rule spec_andthen [OF spec_wrote [OF reserve_append_writes]],
            rule spec_if, rule refuse [unfolded True], simp, rule spec_andthen [OF run_megakernel_wrote tail [unfolded True]])
    qed (simp add: s refuse)
  qed (simp add: refuse)
  show ?thesis
    unfolding cuda_inject_def
    by (rule spec_if, rule refuse, simp, rule spec_andthen [OF spec_wrote [OF keeps_simple(5)]], rule spec_if, rule refuse, simp,
        rule spec_andthen [OF spec_wrote [OF keeps_simple(5)]], rule spec_if, rule refuse, simp,
        rule spec_andthen [OF spec_wrote [OF keeps_simple(5)]], rule body)
qed


definition demo_mega :: cuda_engine where
  "demo_mega = demo_cuda\<lparr>cu_inf := default_inference\<lparr>inf_cuda_engine := default_cuda_engine\<lparr>ce_use_megakernel := True\<rparr>\<rparr>,
     cu_model := Some (demo_cuda_model\<lparr>cm_layer_weights := [[]]\<rparr>), cu_kv := Some (demo_pool\<lparr>k_tables := [(1, [3])], k_free := [0, 1, 2]\<rparr>),
     cu_sessions := [''r'' \<mapsto> (1, 1)],
     cu_mk := no_megakernel\<lparr>mk_n_layers := 1, mk_n_heads := 1, mk_seq_cap := 8, mk_kv_cap := 8, mk_buffers := [Mk_Input_Ids, Mk_Mask]\<rparr>\<rparr>"

lemmas demo_inject_steps = cuda_inject_def reserve_append.simps run_megakernel_def mk_inputs_fit_def layer_weights_def
  run_kv_compression_def no_megakernel_def one_hot_def

lemma demo_injects: "fst (cuda_inject (demo_cuda_env 0) ''r'' 1 [8] demo_mega) = Ret Ok"
  by (simp add: demo_mega_def demo_inject_steps demo_cuda_defs demo_cuda_steps demo_pool_steps demo_base_steps)

lemma demo_goes_on:
  "fst (decode_turn (demo_cuda_env 0) demo_creq True 1 2 7 1 (snd (cuda_inject (demo_cuda_env 0) ''r'' 1 [8] demo_mega))) = Ret (Some 7)"
  by (simp add: demo_mega_def demo_inject_steps demo_cuda_defs demo_cuda_steps demo_pool_steps demo_base_steps)


end
