(* ===== verification/Spec2Isabelle.thy ===== *)
theory Spec2Isabelle
  imports Prelude Guardrail_Policy Rate_Limiter Block_Interface Kv_Allocator Kv_Properties
    Kv_Eviction Scheduler Scheduler_Answers Scheduler_Kv Config_Schema Config Config_Properties Config_Startup
    Config_Settings Plugin_Abi Plugin_Hooks Plugin_Registries Tool_Registry Ipc_Framing Ipc_Client
    Ipc_Calls Plugin_Sandbox Chat_Template Decimal Bridge_Host Bridge_Properties
    Allow_List Bridge_Tools Native_Loader Plugin_Loading Sidecar_Launcher Sidecar_Sessions
    Utf8_Stream
    Router_Text
    Tool_Calls
    Handler
    Completions
    Chat_Format
    Chat_Request
    Context_Splitter
    Chat_Rounds
    Chat_Handler
    Chat_Properties
    Glob_Match
    Anthropic_Request
    Anthropic_Router
    Native_Router
    Http_Server
    Half_Float
    Token_Reduction
    Float_Ops
    Gpu_Device
    Multi_Gpu
    Cuda_Stream
    Kivi_Cache
    Vq_Cache
    Kv_Compression
    Ggml_Model
    Ggml_Engine
    Ggml_Generate
    Ggml_Properties
    Actions
    Cuda_Model
    Cuda_Engine
    Cuda_Forward
    Cuda_Generate
    Cuda_Properties
    Cuda_Positions
begin

text \<open>
  The development of truellm-engine.
\<close>

end
